(* ===== verification/Prelude.thy ===== *)
theory Prelude
  imports Main "HOL-Library.List_Lexorder" "HOL-Library.Char_ord" "HOL-Library.Product_Lexorder"
begin

text \<open>
  Shared vocabulary of the development: the two models of Python text, results that may be an
  exception, insertion-ordered dictionaries as association lists, the selection idioms
  (\<open>min(xs, key=...)\<close>, \<open>dict.fromkeys\<close>, \<open>sorted(set(...))\<close>) and the generic lemmas on them.

  Text comes in two forms.  Identifiers, codes and stored words are \<open>string\<close>, a list of
  characters read as code points below 256; components that only compare, order or store such
  words do not depend on that bound.  Text that is measured, sliced or searched by pattern is
  \<open>ustr\<close>, the list of its Unicode code points.
\<close>

section \<open>Text\<close>

type_synonym ustr = "nat list"

text \<open>The code points of a word written as a literal of the source.\<close>

definition u :: "string \<Rightarrow> ustr" where
  "u s = map of_char s"

section \<open>Results\<close>

text \<open>
  \<open>Inl e\<close> is a raised exception, \<open>Inr x\<close> a returned value.  \<open>bind_result\<close> is the sequencing of
  two statements, \<open>map_result\<close> a loop that stops at the first exception.
\<close>

type_synonym ('e, 'a) result = "'e + 'a"

definition bind_result :: "('e, 'a) result \<Rightarrow> ('a \<Rightarrow> ('e, 'b) result) \<Rightarrow> ('e, 'b) result" where
  "bind_result r k = (case r of Inl e \<Rightarrow> Inl e | Inr x \<Rightarrow> k x)"

lemma bind_result_simps [simp]:
  "bind_result (Inl e) k = Inl e"
  "bind_result (Inr x) k = k x"
  by (simp_all add: bind_result_def)

lemma bind_result_Inr_iff [simp]:
  "bind_result r k = Inr y \<longleftrightarrow> (\<exists>x. r = Inr x \<and> k x = Inr y)"
  by (cases r) (auto simp: bind_result_def)

lemma bind_result_cong [fundef_cong]:
  "r = r' \<Longrightarrow> (\<And>x. r' = Inr x \<Longrightarrow> k x = k' x) \<Longrightarrow> bind_result r k = bind_result r' k'"
  by (cases r') (auto simp: bind_result_def)

fun map_result :: "('a \<Rightarrow> ('e, 'b) result) \<Rightarrow> 'a list \<Rightarrow> ('e, 'b list) result" where
  "map_result f [] = Inr []"
| "map_result f (x # xs) =
     bind_result (f x) (\<lambda>y. bind_result (map_result f xs) (\<lambda>ys. Inr (y # ys)))"

lemma map_result_total: "(\<And>x. x \<in> set xs \<Longrightarrow> f x = Inr (g x)) \<Longrightarrow> map_result f xs = Inr (map g xs)"
  by (induction xs) auto

lemma map_result_length: "map_result f xs = Inr ys \<Longrightarrow> length ys = length xs"
  by (induction xs arbitrary: ys) auto

lemma map_result_Inr_set: "map_result f xs = Inr ys \<Longrightarrow> y \<in> set ys \<Longrightarrow> \<exists>x \<in> set xs. f x = Inr y"
  by (induction xs arbitrary: ys) auto

section \<open>Insertion-ordered dictionaries\<close>

text \<open>
  A Python \<open>dict\<close> keeps the order of first insertion; assigning to a present key keeps its place.
\<close>

type_synonym ('k, 'v) pydict = "('k \<times> 'v) list"

fun dict_put :: "'k \<Rightarrow> 'v \<Rightarrow> ('k, 'v) pydict \<Rightarrow> ('k, 'v) pydict" where
  "dict_put k v [] = [(k, v)]"
| "dict_put k v ((a, b) # d) = (if a = k then (a, v) # d else (a, b) # dict_put k v d)"

lemma map_of_dict_put: "map_of (dict_put k v d) = (map_of d)(k \<mapsto> v)"
  by (induction k v d rule: dict_put.induct) (auto simp: fun_eq_iff)

lemma keys_dict_put: "set (map fst (dict_put k v d)) = insert k (set (map fst d))"
  by (induction k v d rule: dict_put.induct) auto

lemma fst_set_dict_put [simp]: "fst ` set (dict_put k v d) = insert k (fst ` set d)"
  using keys_dict_put [of k v d] by simp

lemma distinct_dict_put [simp]: "distinct (map fst d) \<Longrightarrow> distinct (map fst (dict_put k v d))"
  by (induction k v d rule: dict_put.induct) auto

text \<open>\<open>grouped.setdefault(key(x), []).append(x)\<close> over a list: the items under each key, in order.\<close>

fun group_put :: "'k \<Rightarrow> 'v \<Rightarrow> ('k, 'v list) pydict \<Rightarrow> ('k, 'v list) pydict" where
  "group_put k v [] = [(k, [v])]"
| "group_put k v ((a, b) # d) = (if a = k then (a, b @ [v]) # d else (a, b) # group_put k v d)"

definition group_by :: "('v \<Rightarrow> 'k) \<Rightarrow> 'v list \<Rightarrow> ('k, 'v list) pydict" where
  "group_by key xs = foldl (\<lambda>d x. group_put (key x) x d) [] xs"

lemma map_of_group_put:
  "map_of (group_put k v d) =
     (map_of d)(k \<mapsto> (case map_of d k of None \<Rightarrow> [v] | Some ys \<Rightarrow> ys @ [v]))"
  by (induction k v d rule: group_put.induct) (auto simp: fun_eq_iff)

lemma fst_set_group_put [simp]: "fst ` set (group_put k v d) = insert k (fst ` set d)"
  by (induction k v d rule: group_put.induct) auto

lemma distinct_group_put [simp]: "distinct (map fst d) \<Longrightarrow> distinct (map fst (group_put k v d))"
  by (induction k v d rule: group_put.induct) auto

lemma map_of_group_by_gen:
  "map_of (foldl (\<lambda>d x. group_put (key x) x d) d xs) k =
     (case map_of d k of
        None \<Rightarrow> (if k \<in> key ` set xs then Some (filter (\<lambda>x. key x = k) xs) else None)
      | Some ys \<Rightarrow> Some (ys @ filter (\<lambda>x. key x = k) xs))"
  by (induction xs arbitrary: d) (auto simp: map_of_group_put split: option.splits)

lemma map_of_group_by:
  "map_of (group_by key xs) k = (if k \<in> key ` set xs then Some (filter (\<lambda>x. key x = k) xs) else None)"
  by (simp add: group_by_def map_of_group_by_gen)

lemma distinct_group_by_gen:
  "distinct (map fst d) \<Longrightarrow> distinct (map fst (foldl (\<lambda>d x. group_put (key x) x d) d xs))"
  by (induction xs arbitrary: d) auto

lemma distinct_group_by [simp]: "distinct (map fst (group_by key xs))"
  by (simp add: group_by_def distinct_group_by_gen)

lemma keys_group_by_gen:
  "fst ` set (foldl (\<lambda>d x. group_put (key x) x d) d xs) = fst ` set d \<union> key ` set xs"
  by (induction xs arbitrary: d) auto

lemma keys_group_by: "fst ` set (group_by key xs) = key ` set xs"
  by (simp add: group_by_def keys_group_by_gen)

lemma group_by_entry:
  assumes "(k, ys) \<in> set (group_by key xs)"
  shows "ys = filter (\<lambda>x. key x = k) xs" and "k \<in> key ` set xs"
proof -
  have "map_of (group_by key xs) k = Some ys"
    using assms by (simp add: map_of_is_SomeI)
  then show "ys = filter (\<lambda>x. key x = k) xs" and "k \<in> key ` set xs"
    by (auto simp: map_of_group_by split: if_splits)
qed

lemma group_by_mem: "x \<in> set xs \<Longrightarrow> (key x, filter (\<lambda>y. key y = key x) xs) \<in> set (group_by key xs)"
  by (rule map_of_SomeD) (simp add: map_of_group_by)

section \<open>Selections\<close>

text \<open>\<open>list(dict.fromkeys(xs))\<close>: the first occurrence of each value, in order.\<close>

fun dedup_onto :: "'a list \<Rightarrow> 'a list \<Rightarrow> 'a list" where
  "dedup_onto seen [] = seen"
| "dedup_onto seen (x # xs) = dedup_onto (if x \<in> set seen then seen else seen @ [x]) xs"

definition dedup :: "'a list \<Rightarrow> 'a list" where
  "dedup xs = dedup_onto [] xs"

lemma set_dedup_onto: "set (dedup_onto seen xs) = set seen \<union> set xs"
  by (induction seen xs rule: dedup_onto.induct) auto

lemma distinct_dedup_onto: "distinct seen \<Longrightarrow> distinct (dedup_onto seen xs)"
  by (induction seen xs rule: dedup_onto.induct) auto

lemma set_dedup [simp]: "set (dedup xs) = set xs"
  by (simp add: dedup_def set_dedup_onto)

lemma distinct_dedup [simp]: "distinct (dedup xs)"
  by (simp add: dedup_def distinct_dedup_onto)

text \<open>\<open>sorted(set(xs))\<close> and \<open>len(set(xs))\<close>.\<close>

definition sorted_set :: "'a::linorder list \<Rightarrow> 'a list" where
  "sorted_set xs = sort (remdups xs)"

definition count_set :: "'a list \<Rightarrow> nat" where
  "count_set xs = length (remdups xs)"

lemma set_sorted_set [simp]: "set (sorted_set xs) = set xs"
  by (simp add: sorted_set_def)

lemma sorted_sorted_set [simp]: "sorted (sorted_set xs)" and distinct_sorted_set [simp]: "distinct (sorted_set xs)"
  by (simp_all add: sorted_set_def)

lemma sorted_set_eq_iff: "sorted_set xs = sorted_set ys \<longleftrightarrow> set xs = set ys"
proof
  assume "sorted_set xs = sorted_set ys"
  then have "set (sorted_set xs) = set (sorted_set ys)" by simp
  then show "set xs = set ys" by simp
next
  assume "set xs = set ys"
  then show "sorted_set xs = sorted_set ys"
    by (intro sorted_distinct_set_unique) simp_all
qed

lemma sorted_set_empty_iff [simp]: "sorted_set xs = [] \<longleftrightarrow> xs = []"
  using set_sorted_set [of xs] by (metis set_empty)

lemma count_set_card: "count_set xs = card (set xs)"
  by (simp add: count_set_def length_remdups_card_conv)

text \<open>\<open>min(xs, key=f)\<close> and \<open>max(xs, key=f)\<close> of a non-empty list: the first extremal element.\<close>

fun min_key :: "('a \<Rightarrow> 'b::linorder) \<Rightarrow> 'a \<Rightarrow> 'a list \<Rightarrow> 'a" where
  "min_key f b [] = b"
| "min_key f b (x # xs) = min_key f (if f x < f b then x else b) xs"

fun max_key :: "('a \<Rightarrow> 'b::linorder) \<Rightarrow> 'a \<Rightarrow> 'a list \<Rightarrow> 'a" where
  "max_key f b [] = b"
| "max_key f b (x # xs) = max_key f (if f b < f x then x else b) xs"

lemma min_key_mem: "min_key f b xs \<in> set (b # xs)"
  by (induction f b xs rule: min_key.induct) auto

lemma find_append: "find P (xs @ ys) = (case find P xs of None \<Rightarrow> find P ys | Some x \<Rightarrow> Some x)"
  by (induction xs) auto

lemma max_key_mem: "max_key f b xs \<in> set (b # xs)"
  by (induction f b xs rule: max_key.induct) auto

lemma min_key_le: "y \<in> set (b # xs) \<Longrightarrow> f (min_key f b xs) \<le> f y"
proof (induction f b xs arbitrary: y rule: min_key.induct)
  case (1 f b)
  then show ?case by simp
next
  case (2 f b x xs)
  let ?b = "if f x < f b then x else b"
  have le: "f (min_key f ?b xs) \<le> f z" if "z \<in> set (?b # xs)" for z
    using "2.IH" that by blast
  have "f ?b \<le> f x" and "f ?b \<le> f b" by auto
  with le[of ?b] have "f (min_key f ?b xs) \<le> f x" and "f (min_key f ?b xs) \<le> f b"
    by auto
  with le "2.prems" show ?case by auto
qed

lemma max_key_ge: "y \<in> set (b # xs) \<Longrightarrow> f y \<le> f (max_key f b xs)"
proof (induction f b xs arbitrary: y rule: max_key.induct)
  case (1 f b)
  then show ?case by simp
next
  case (2 f b x xs)
  let ?b = "if f b < f x then x else b"
  have ge: "f z \<le> f (max_key f ?b xs)" if "z \<in> set (?b # xs)" for z
    using "2.IH" that by blast
  have "f x \<le> f ?b" and "f b \<le> f ?b" by auto
  with ge[of ?b] have "f x \<le> f (max_key f ?b xs)" and "f b \<le> f (max_key f ?b xs)"
    by auto
  with ge "2.prems" show ?case by auto
qed

end
