(* ===== verification/FtoModel.thy ===== *)
theory FtoModel
  imports Prelude
begin

text \<open>
  The claim tree of \<^verbatim>\<open>modules/fto/model.py\<close>: claims with their technical features, the
  look-up of a claim by number, the enumeration of dependency paths with its cycle guard and its
  limit, and the chart of per-feature findings.  \<open>chain\<close> is the specification of a dependency
  path; the enumeration is proved sound and, when it is not truncated, complete for it.
\<close>

section \<open>Data\<close>

datatype structure_source = Uspto_grant_xml | Ops_text_parsed

datatype feature_status = Proposed | Confirmed

datatype finding = Literally_present | Present_by_equivalent | Absent | Finding_undetermined

record claim_feature =
  feature_id :: string
  feature_claim_number :: int
  feature_text :: ustr
  feature_spans :: "(nat \<times> nat) list"
  feature_status :: feature_status

record claim =
  claim_number :: int
  claim_text :: ustr
  depends_on :: "int list"
  structure_source :: structure_source
  claim_features :: "claim_feature list"
  claim_language :: "string option"
  parse_warnings :: "string list"

definition independent :: "claim \<Rightarrow> bool" where
  "independent c \<longleftrightarrow> depends_on c = []"

record claim_set =
  publication_number :: string
  claims :: "claim list"
  language :: "string option"
  proceedings_language :: "string option"
  set_warnings :: "string list"

datatype fto_error = Key_error_claim int | Key_error_feature string | Value_error string

section \<open>Looking a claim up\<close>

fun claim_loop :: "claim list \<Rightarrow> int \<Rightarrow> (fto_error, claim) result" where
  "claim_loop [] n = Inl (Key_error_claim n)"
| "claim_loop (c # cs) n = (if claim_number c = n then Inr c else claim_loop cs n)"

definition claim_of :: "claim_set \<Rightarrow> int \<Rightarrow> (fto_error, claim) result" where
  "claim_of cs n = claim_loop (claims cs) n"

definition numbers :: "claim_set \<Rightarrow> int set" where
  "numbers cs = claim_number ` set (claims cs)"

lemma finite_numbers [simp]: "finite (numbers cs)"
  by (simp add: numbers_def)

lemma claim_loop_Inr: "claim_loop cs n = Inr c \<Longrightarrow> c \<in> set cs \<and> claim_number c = n"
  by (induction cs n rule: claim_loop.induct) (auto split: if_splits)

lemma claim_loop_total: "n \<in> claim_number ` set cs \<Longrightarrow> \<exists>c. claim_loop cs n = Inr c"
  by (induction cs n rule: claim_loop.induct) auto

lemma claim_of_Inr: "claim_of cs n = Inr c \<Longrightarrow> c \<in> set (claims cs) \<and> claim_number c = n"
  by (simp add: claim_of_def claim_loop_Inr)

lemma claim_of_total_iff: "(\<exists>c. claim_of cs n = Inr c) \<longleftrightarrow> n \<in> numbers cs"
  using claim_loop_total [of n "claims cs"] claim_of_Inr [of cs n]
  by (auto simp: claim_of_def numbers_def)

lemma claim_of_number [dest]: "claim_of cs n = Inr c \<Longrightarrow> n \<in> numbers cs"
  using claim_of_total_iff by blast

text \<open>\<open>is_translation\<close> compares languages without case; unknown languages are not inferred.\<close>

definition upper_char :: "char \<Rightarrow> char" where
  "upper_char c = (if CHR ''a'' \<le> c \<and> c \<le> CHR ''z'' then char_of (of_char c - (32::nat)) else c)"

definition is_translation :: "claim_set \<Rightarrow> bool option" where
  "is_translation cs =
     (case (language cs, proceedings_language cs) of
        (Some l, Some p) \<Rightarrow> Some (map upper_char l \<noteq> map upper_char p)
      | _ \<Rightarrow> None)"

section \<open>Dependency paths\<close>

text \<open>
  \<open>walk n suffix\<close> with its two captured variables: the paths found so far and the truncation
  flag.  \<open>walk_all\<close> is its \<open>for parent in claim.depends_on\<close> loop.
\<close>

type_synonym walk_state = "int list list \<times> bool"

definition walk_rel_measure :: "claim_set \<Rightarrow> int list \<Rightarrow> nat" where
  "walk_rel_measure cs suffix = card (numbers cs - set suffix)"

function (sequential)
  walk :: "claim_set \<Rightarrow> nat \<Rightarrow> int \<Rightarrow> int list \<Rightarrow> walk_state \<Rightarrow> (fto_error, walk_state) result"
and walk_all :: "claim_set \<Rightarrow> nat \<Rightarrow> int list \<Rightarrow> int list \<Rightarrow> walk_state \<Rightarrow> (fto_error, walk_state) result"
where
  "walk cs limit n suffix (paths, truncated) =
     (if truncated then Inr (paths, truncated)
      else if n \<in> set suffix then Inr (paths, truncated)
      else case claim_of cs n of
             Inl e \<Rightarrow> Inl e
           | Inr c \<Rightarrow>
               (if depends_on c = [] then
                  (if length paths \<ge> limit then Inr (paths, True)
                   else Inr (paths @ [n # suffix], truncated))
                else walk_all cs limit (depends_on c) (n # suffix) (paths, truncated)))"
| "walk_all cs limit [] suffix st = Inr st"
| "walk_all cs limit (p # ps) suffix st =
     bind_result (walk cs limit p suffix st) (\<lambda>st'. walk_all cs limit ps suffix st')"
  by pat_completeness auto
termination
proof (relation "measures
    [\<lambda>x. case x of Inl (cs, _, _, suffix, _) \<Rightarrow> walk_rel_measure cs suffix
                 | Inr (cs, _, _, suffix, _) \<Rightarrow> walk_rel_measure cs suffix,
     \<lambda>x. case x of Inl _ \<Rightarrow> 0 | Inr (_, _, ps, _, _) \<Rightarrow> Suc (length ps)]", goal_cases)
  case 1
  show ?case by simp
next
  case (2 cs limit n suffix paths truncated c)
  then have "numbers cs - set (n # suffix) \<subset> numbers cs - set suffix"
    by auto
  then have "card (numbers cs - set (n # suffix)) < card (numbers cs - set suffix)"
    by (intro psubset_card_mono) simp_all
  then show ?case by (simp add: walk_rel_measure_def)
qed auto

definition MAX_DEPENDENCY_PATHS :: nat where
  "MAX_DEPENDENCY_PATHS = 256"

definition dependency_paths :: "claim_set \<Rightarrow> int \<Rightarrow> nat \<Rightarrow> (fto_error, walk_state) result" where
  "dependency_paths cs n limit = walk cs limit n [] ([], False)"

definition path_features :: "claim_set \<Rightarrow> int list \<Rightarrow> (fto_error, claim_feature list) result" where
  "path_features cs path =
     bind_result (map_result (\<lambda>n. bind_result (claim_of cs n) (\<lambda>c. Inr (claim_features c))) path)
       (\<lambda>fss. Inr (concat fss))"

section \<open>The specification of a path\<close>

text \<open>A root-first chain of references from an independent claim down to \<open>n\<close>.\<close>

inductive chain :: "claim_set \<Rightarrow> int \<Rightarrow> int list \<Rightarrow> bool" for cs where
  root: "claim_of cs n = Inr c \<Longrightarrow> depends_on c = [] \<Longrightarrow> chain cs n [n]"
| down: "claim_of cs n = Inr c \<Longrightarrow> p \<in> set (depends_on c) \<Longrightarrow> chain cs p path \<Longrightarrow>
    chain cs n (path @ [n])"

inductive_cases chainE: "chain cs n path"

lemma chain_last: "chain cs n path \<Longrightarrow> path \<noteq> [] \<and> last path = n"
  by (induction rule: chain.induct) auto

lemma chain_mem: "chain cs n path \<Longrightarrow> n \<in> set path"
  by (induction rule: chain.induct) auto

lemma chain_numbers: "chain cs n path \<Longrightarrow> set path \<subseteq> numbers cs"
  by (induction rule: chain.induct) auto

lemma path_features_append:
  "path_features cs (xs @ ys) =
     bind_result (path_features cs xs) (\<lambda>fs. bind_result (path_features cs ys) (\<lambda>gs. Inr (fs @ gs)))"
proof (induction xs)
  case Nil
  show ?case
    by (cases "map_result (\<lambda>n. bind_result (claim_of cs n) (\<lambda>c. Inr (claim_features c))) ys")
      (simp_all add: path_features_def)
next
  case (Cons x xs)
  show ?case
  proof (cases "claim_of cs x")
    case (Inl e)
    then show ?thesis by (simp add: path_features_def)
  next
    case (Inr c)
    from Cons.IH show ?thesis
      by (simp add: path_features_def Inr)
        (auto simp: bind_result_def split: sum.splits)
  qed
qed

lemma path_features_single: "claim_of cs n = Inr c \<Longrightarrow> path_features cs [n] = Inr (claim_features c)"
  by (simp add: path_features_def)

lemma chain_path_features: "chain cs n path \<Longrightarrow> \<exists>fs. path_features cs path = Inr fs"
  by (induction rule: chain.induct) (auto simp: path_features_append path_features_single)

text \<open>What the enumeration is proved against: chains that meet no claim twice.\<close>

definition simple_chain :: "claim_set \<Rightarrow> int \<Rightarrow> int list \<Rightarrow> bool" where
  "simple_chain cs n path \<longleftrightarrow> chain cs n path \<and> distinct path"

lemma root_chain_path: "claim_of cs n = Inr c \<Longrightarrow> depends_on c = [] \<Longrightarrow> chain cs n q \<longleftrightarrow> q = [n]"
  by (intro iffI; (erule chainE)?) (auto intro: chain.root)

lemma inner_chain_path:
  "claim_of cs n = Inr c \<Longrightarrow> depends_on c \<noteq> [] \<Longrightarrow>
     chain cs n q \<longleftrightarrow> (\<exists>p q'. p \<in> set (depends_on c) \<and> chain cs p q' \<and> q = q' @ [n])"
  by (intro iffI; (erule chainE)?) (auto intro: chain.down)

text \<open>
  One call of \<open>walk\<close>: it only appends paths, each a new simple chain below the suffix, stops at the
  limit, and has found all of them unless it says it was truncated.
\<close>

definition fresh :: "claim_set \<Rightarrow> int \<Rightarrow> int list \<Rightarrow> int list \<Rightarrow> bool" where
  "fresh cs n suffix q \<longleftrightarrow> chain cs n q \<and> distinct q \<and> set q \<inter> set suffix = {}"

definition walk_post :: "claim_set \<Rightarrow> nat \<Rightarrow> int set \<Rightarrow> int list \<Rightarrow> walk_state \<Rightarrow> walk_state \<Rightarrow> bool" where
  "walk_post cs limit ns suffix st st' \<longleftrightarrow>
     (snd st \<longrightarrow> st' = st) \<and>
     (\<exists>new. fst st' = fst st @ new \<and>
        (\<forall>x \<in> set new. \<exists>n \<in> ns. \<exists>q. x = q @ suffix \<and> fresh cs n suffix q)) \<and>
     (length (fst st) \<le> limit \<longrightarrow> length (fst st') \<le> limit) \<and>
     (snd st' \<and> \<not> snd st \<longrightarrow> limit \<le> length (fst st')) \<and>
     (\<not> snd st' \<longrightarrow> (\<forall>n \<in> ns. \<forall>q. fresh cs n suffix q \<longrightarrow> q @ suffix \<in> set (fst st')))"

lemma fresh_not_in_suffix: "n \<in> set suffix \<Longrightarrow> \<not> fresh cs n suffix q"
  by (auto simp: fresh_def dest: chain_mem)

lemma fresh_root:
  "claim_of cs n = Inr c \<Longrightarrow> depends_on c = [] \<Longrightarrow> n \<notin> set suffix \<Longrightarrow>
     fresh cs n suffix q \<longleftrightarrow> q = [n]"
  by (auto simp: fresh_def root_chain_path)

lemma fresh_inner:
  "claim_of cs n = Inr c \<Longrightarrow> depends_on c \<noteq> [] \<Longrightarrow> n \<notin> set suffix \<Longrightarrow>
     fresh cs n suffix q \<longleftrightarrow>
       (\<exists>p \<in> set (depends_on c). \<exists>q'. q = q' @ [n] \<and> fresh cs p (n # suffix) q')"
  by (auto simp: fresh_def inner_chain_path)

lemma walk_post_inner:
  assumes "claim_of cs n = Inr c" "depends_on c \<noteq> []" "n \<notin> set suffix"
    and "walk_post cs limit (set (depends_on c)) (n # suffix) st st'"
  shows "walk_post cs limit {n} suffix st st'"
proof -
  have eq: "(\<exists>q. x = q @ suffix \<and> fresh cs n suffix q) \<longleftrightarrow>
      (\<exists>p \<in> set (depends_on c). \<exists>q'. x = q' @ (n # suffix) \<and> fresh cs p (n # suffix) q')" for x
    by (auto simp: fresh_inner [OF assms(1-3)])
  have all: "(\<forall>q. fresh cs n suffix q \<longrightarrow> q @ suffix \<in> S) \<longleftrightarrow>
      (\<forall>p \<in> set (depends_on c). \<forall>q'. fresh cs p (n # suffix) q' \<longrightarrow> q' @ (n # suffix) \<in> S)" for S
    unfolding fresh_inner [OF assms(1-3)] by fastforce
  show ?thesis
    using assms(4) unfolding walk_post_def by (simp add: eq all)
qed

lemma walk_post_seq:
  assumes a: "walk_post cs limit {p} suffix st st1" and b: "walk_post cs limit (set ps) suffix st1 st2"
  shows "walk_post cs limit (set (p # ps)) suffix st st2"
proof (cases "snd st \<or> snd st1")
  case True
  then have eq: "st2 = st1" and tr: "snd st2"
    using a b by (auto simp: walk_post_def)
  with a show ?thesis
    by (auto simp: walk_post_def eq)
next
  case False
  obtain n1 where n1: "fst st1 = fst st @ n1"
      "\<forall>x \<in> set n1. \<exists>q. x = q @ suffix \<and> fresh cs p suffix q"
    using a by (auto simp: walk_post_def)
  obtain n2 where n2: "fst st2 = fst st1 @ n2"
      "\<forall>x \<in> set n2. \<exists>n \<in> set ps. \<exists>q. x = q @ suffix \<and> fresh cs n suffix q"
    using b by (auto simp: walk_post_def)
  have "\<exists>new. fst st2 = fst st @ new \<and>
      (\<forall>x \<in> set new. \<exists>n \<in> set (p # ps). \<exists>q. x = q @ suffix \<and> fresh cs n suffix q)"
    using n1 n2 by (intro exI [of _ "n1 @ n2"]) auto
  then show ?thesis
    using a b False n2(1) unfolding walk_post_def by auto
qed

lemma walk_spec:
  "walk cs limit n suffix st = Inr st' \<Longrightarrow> walk_post cs limit {n} suffix st st'"
  "walk_all cs limit ps suffix st = Inr st' \<Longrightarrow> walk_post cs limit (set ps) suffix st st'"
proof (induction cs limit n suffix st and cs limit ps suffix st arbitrary: st' and st'
    rule: walk_walk_all.induct)
  case (1 cs limit n suffix paths truncated)
  consider (skip) "truncated \<or> n \<in> set suffix" | (look) "\<not> truncated" "n \<notin> set suffix" by blast
  then show ?case
  proof cases
    case skip
    then show ?thesis
      using "1.prems" by (auto simp: walk_post_def fresh_not_in_suffix split: if_splits)
  next
    case look
    then obtain c where c: "claim_of cs n = Inr c"
      using "1.prems" by (auto split: sum.splits)
    show ?thesis
    proof (cases "depends_on c = []")
      case True
      then show ?thesis
        using "1.prems" look c by (auto simp: walk_post_def fresh_root split: if_splits)
    next
      case False
      then have "walk_all cs limit (depends_on c) (n # suffix) (paths, truncated) = Inr st'"
        using "1.prems" look c by simp
      then have "walk_post cs limit (set (depends_on c)) (n # suffix) (paths, truncated) st'"
        using "1.IH" look c False by simp
      then show ?thesis
        by (rule walk_post_inner [OF c False look(2)])
    qed
  qed
next
  case (2 cs limit suffix st)
  then show ?case by (auto simp: walk_post_def)
next
  case (3 cs limit p ps suffix st)
  then obtain st1 where st1: "walk cs limit p suffix st = Inr st1"
      "walk_all cs limit ps suffix st1 = Inr st'"
    by auto
  show ?case
    by (rule walk_post_seq [OF "3.IH"(1) [OF st1(1)] "3.IH"(2) [OF st1]])
qed

text \<open>When every reference names a claim of the set, no look-up fails.\<close>

definition refs_closed :: "claim_set \<Rightarrow> bool" where
  "refs_closed cs \<longleftrightarrow> list_all (\<lambda>c. list_all (\<lambda>p. p \<in> claim_number ` set (claims cs)) (depends_on c)) (claims cs)"

lemma refs_closedD:
  "refs_closed cs \<Longrightarrow> claim_of cs n = Inr c \<Longrightarrow> p \<in> set (depends_on c) \<Longrightarrow> p \<in> numbers cs"
  using claim_of_Inr [of cs n c] by (auto simp: refs_closed_def list_all_iff numbers_def)

lemma walk_total:
  "refs_closed cs \<Longrightarrow> n \<in> numbers cs \<Longrightarrow> \<exists>st'. walk cs limit n suffix st = Inr st'"
  "refs_closed cs \<Longrightarrow> set ps \<subseteq> numbers cs \<Longrightarrow> \<exists>st'. walk_all cs limit ps suffix st = Inr st'"
proof (induction cs limit n suffix st and cs limit ps suffix st rule: walk_walk_all.induct)
  case (1 cs limit n suffix paths truncated)
  obtain c where c: "claim_of cs n = Inr c"
    using claim_of_total_iff "1.prems"(2) by blast
  have "set (depends_on c) \<subseteq> numbers cs"
    using refs_closedD [OF "1.prems"(1) c] by blast
  then have "\<exists>st'. walk_all cs limit (depends_on c) (n # suffix) (paths, truncated) = Inr st'"
    if "\<not> truncated" "n \<notin> set suffix" "depends_on c \<noteq> []"
    using "1.IH" [OF that(1,2) c that(3)] "1.prems"(1) by simp
  then show ?case
    by (cases "\<not> truncated \<and> n \<notin> set suffix \<and> depends_on c \<noteq> []") (auto simp: c)
next
  case (2 cs limit suffix st)
  then show ?case by simp
next
  case (3 cs limit p ps suffix st)
  then obtain st1 where st1: "walk cs limit p suffix st = Inr st1"
    by (auto simp del: walk.simps)
  with 3 have "\<exists>st'. walk_all cs limit ps suffix st1 = Inr st'"
    by (auto simp del: walk.simps)
  with st1 show ?case by (auto simp del: walk.simps)
qed

lemma dependency_paths_spec:
  assumes "dependency_paths cs n limit = Inr (paths, truncated)"
  shows "\<forall>path \<in> set paths. simple_chain cs n path"
    and "length paths \<le> limit"
    and "truncated \<Longrightarrow> length paths = limit"
    and "\<not> truncated \<Longrightarrow> simple_chain cs n path \<Longrightarrow> path \<in> set paths"
proof -
  have post: "walk_post cs limit {n} [] ([], False) (paths, truncated)"
    using assms walk_spec(1) unfolding dependency_paths_def by blast
  have "\<forall>x \<in> set paths. \<exists>q. x = q @ [] \<and> fresh cs n [] q"
    using post unfolding walk_post_def by simp
  then show "\<forall>path \<in> set paths. simple_chain cs n path"
    by (simp add: fresh_def simple_chain_def)
  show le: "length paths \<le> limit"
    using post unfolding walk_post_def by simp
  show "length paths = limit" if truncated
    using post le that unfolding walk_post_def by simp
  show "path \<in> set paths" if "\<not> truncated" "simple_chain cs n path"
  proof -
    have "\<forall>q. fresh cs n [] q \<longrightarrow> q @ [] \<in> set paths"
      using post that(1) unfolding walk_post_def by simp
    then show ?thesis using that(2) by (simp add: fresh_def simple_chain_def)
  qed
qed

end
