(* ===== verification/FtoChart.thy ===== *)
theory FtoChart
  imports FtoModel
begin

text \<open>
  The claim-level conclusions of \<^verbatim>\<open>modules/fto/chart.py\<close> (all-elements rule) over the claim tree, and
  the recording of findings (\<open>ClaimChart.assess\<close> of \<^verbatim>\<open>modules/fto/model.py\<close>).  The conclusions are
  linearly ordered as the code ranks them; in that order a path is the minimum of its features and a
  claim the maximum of its paths.
\<close>

section \<open>Findings and the chart\<close>

record feature_assessment =
  assessed_feature :: string
  assessed_finding :: finding
  rationale :: string
  product_evidence :: "string list"
  assessed_by :: string

record claim_chart =
  chart_claim_set :: claim_set
  assessments :: "string \<rightharpoonup> feature_assessment"

definition known_features :: "claim_set \<Rightarrow> string set" where
  "known_features cs = (\<Union>c \<in> set (claims cs). feature_id ` set (claim_features c))"

definition assess :: "claim_chart \<Rightarrow> feature_assessment \<Rightarrow> (fto_error, claim_chart) result" where
  "assess chart a =
     (if assessed_feature a \<notin> known_features (chart_claim_set chart)
      then Inl (Key_error_feature (assessed_feature a))
      else Inr (chart\<lparr>assessments := (assessments chart)(assessed_feature a \<mapsto> a)\<rparr>))"

definition chart_inv :: "claim_chart \<Rightarrow> bool" where
  "chart_inv chart \<longleftrightarrow>
     (\<forall>f a. assessments chart f = Some a \<longrightarrow>
        f \<in> known_features (chart_claim_set chart) \<and> assessed_feature a = f)"

lemma assess_inv: "chart_inv chart \<Longrightarrow> assess chart a = Inr chart' \<Longrightarrow> chart_inv chart'"
  by (auto simp: assess_def chart_inv_def split: if_splits)

section \<open>Conclusions and their order\<close>

datatype conclusion = Does_not_read | Undetermined | Reads_by_equivalents_only | Reads_literally

fun rank_of :: "conclusion \<Rightarrow> nat" where
  "rank_of Reads_literally = 3"
| "rank_of Reads_by_equivalents_only = 2"
| "rank_of Undetermined = 1"
| "rank_of Does_not_read = 0"

lemma rank_of_inject: "rank_of a = rank_of b \<longleftrightarrow> a = b"
  by (cases a; cases b) simp_all

instantiation conclusion :: linorder
begin

definition less_eq_conclusion :: "conclusion \<Rightarrow> conclusion \<Rightarrow> bool" where
  "a \<le> b \<longleftrightarrow> rank_of a \<le> rank_of b"

definition less_conclusion :: "conclusion \<Rightarrow> conclusion \<Rightarrow> bool" where
  "a < b \<longleftrightarrow> rank_of a < rank_of b"

instance
  by standard (auto simp: less_eq_conclusion_def less_conclusion_def rank_of_inject)

end

lemmas conclusion_order = less_eq_conclusion_def less_conclusion_def

definition reads :: "conclusion \<Rightarrow> bool" where
  "reads c \<longleftrightarrow> c = Reads_literally \<or> c = Reads_by_equivalents_only"

lemma conclusion_le_simps [simp]:
  "Does_not_read \<le> c" "c \<le> Reads_literally"
  "c \<le> Does_not_read \<longleftrightarrow> c = Does_not_read" "Reads_literally \<le> c \<longleftrightarrow> c = Reads_literally"
  by (cases c; simp add: conclusion_order)+

lemma reads_iff_le: "reads c \<longleftrightarrow> Reads_by_equivalents_only \<le> c"
  by (cases c) (simp_all add: reads_def conclusion_order)

section \<open>One list of features\<close>

record path_conclusion =
  pc_path :: "int list"
  pc_conclusion :: conclusion
  pc_absent :: "string list"
  pc_undetermined :: "string list"
  pc_unconfirmed :: "string list"

definition finding_of :: "claim_chart \<Rightarrow> claim_feature \<Rightarrow> finding" where
  "finding_of chart f =
     (case assessments chart (feature_id f) of
        Some a \<Rightarrow> assessed_finding a | None \<Rightarrow> Finding_undetermined)"

text \<open>The loop of \<open>conclude_features\<close> over its four accumulators.\<close>

fun feature_loop :: "claim_chart \<Rightarrow> string list \<times> string list \<times> string list \<times> bool
    \<Rightarrow> claim_feature list \<Rightarrow> string list \<times> string list \<times> string list \<times> bool" where
  "feature_loop chart acc [] = acc"
| "feature_loop chart (absent, undet, unconf, equivalent) (f # fs) =
     (let unconf' = (if feature_status f \<noteq> Confirmed then unconf @ [feature_id f] else unconf)
      in case finding_of chart f of
           Absent \<Rightarrow> feature_loop chart (absent @ [feature_id f], undet, unconf', equivalent) fs
         | Finding_undetermined \<Rightarrow> feature_loop chart (absent, undet @ [feature_id f], unconf', equivalent) fs
         | Present_by_equivalent \<Rightarrow> feature_loop chart (absent, undet, unconf', True) fs
         | Literally_present \<Rightarrow> feature_loop chart (absent, undet, unconf', equivalent) fs)"

definition conclude_features :: "claim_chart \<Rightarrow> claim_feature list \<Rightarrow> int list \<Rightarrow> path_conclusion" where
  "conclude_features chart features path =
     (case feature_loop chart ([], [], [], False) features of
        (absent, undet, unconf, equivalent) \<Rightarrow>
          \<lparr>pc_path = path,
           pc_conclusion =
             (if absent \<noteq> [] then Does_not_read
              else if undet \<noteq> [] \<or> unconf \<noteq> [] then Undetermined
              else if equivalent then Reads_by_equivalents_only else Reads_literally),
           pc_absent = absent, pc_undetermined = undet, pc_unconfirmed = unconf\<rparr>)"

lemma feature_loop_eq:
  "feature_loop chart (ab, un, uc, eq) fs =
     (ab @ map feature_id (filter (\<lambda>f. finding_of chart f = Absent) fs),
      un @ map feature_id (filter (\<lambda>f. finding_of chart f = Finding_undetermined) fs),
      uc @ map feature_id (filter (\<lambda>f. feature_status f \<noteq> Confirmed) fs),
      eq \<or> (\<exists>f \<in> set fs. finding_of chart f = Present_by_equivalent))"
  by (induction fs arbitrary: ab un uc eq) (auto simp: Let_def split: finding.splits)

text \<open>The conclusion one feature would give alone; a list is the least of its features.\<close>

definition feature_conclusion :: "claim_chart \<Rightarrow> claim_feature \<Rightarrow> conclusion" where
  "feature_conclusion chart f =
     (case finding_of chart f of
        Absent \<Rightarrow> Does_not_read
      | Finding_undetermined \<Rightarrow> Undetermined
      | Present_by_equivalent \<Rightarrow>
          (if feature_status f = Confirmed then Reads_by_equivalents_only else Undetermined)
      | Literally_present \<Rightarrow>
          (if feature_status f = Confirmed then Reads_literally else Undetermined))"

definition list_conclusion :: "claim_chart \<Rightarrow> claim_feature list \<Rightarrow> conclusion" where
  "list_conclusion chart fs = foldr (\<lambda>f. min (feature_conclusion chart f)) fs Reads_literally"

lemma list_conclusion_simps [simp]:
  "list_conclusion chart [] = Reads_literally"
  "list_conclusion chart (f # fs) = min (feature_conclusion chart f) (list_conclusion chart fs)"
  by (simp_all add: list_conclusion_def)

lemma min_Reads_literally [simp]: "min Reads_literally c = c" "min c Reads_literally = c"
  by (simp_all add: min_def)

lemma list_conclusion_append:
  "list_conclusion chart (fs @ gs) = min (list_conclusion chart fs) (list_conclusion chart gs)"
  by (induction fs) (simp_all add: min.assoc)

lemma list_conclusion_cases:
  "list_conclusion chart fs =
     (if \<exists>f \<in> set fs. finding_of chart f = Absent then Does_not_read
      else if \<exists>f \<in> set fs. finding_of chart f = Finding_undetermined \<or> feature_status f \<noteq> Confirmed
        then Undetermined
      else if \<exists>f \<in> set fs. finding_of chart f = Present_by_equivalent
        then Reads_by_equivalents_only
      else Reads_literally)"
proof (induction fs)
  case Nil
  show ?case by simp
next
  case (Cons f fs)
  show ?case
    by (simp only: list_conclusion_simps Cons.IH feature_conclusion_def)
      (cases "finding_of chart f"; cases "feature_status f";
       simp add: min_def conclusion_order)
qed

lemma conclude_features_min:
  "pc_conclusion (conclude_features chart fs path) = list_conclusion chart fs"
  by (simp add: conclude_features_def feature_loop_eq list_conclusion_cases filter_empty_conv)

section \<open>One claim, without enumerating its paths\<close>

type_synonym memo = "int \<rightharpoonup> conclusion"

text \<open>The case distinction after the parents have been concluded.\<close>

definition combine_parents :: "conclusion \<Rightarrow> conclusion list \<Rightarrow> conclusion" where
  "combine_parents own parents =
     (if list_all (\<lambda>c. c = Does_not_read) parents then Does_not_read
      else if own = Undetermined then Undetermined
      else (let best = max_key rank_of (hd parents) (tl parents) in
            if best = Reads_literally \<and> own = Reads_literally then Reads_literally
            else if best = Reads_literally \<or> best = Reads_by_equivalents_only
              then Reads_by_equivalents_only
            else Undetermined))"

definition own_conclusion :: "claim_chart \<Rightarrow> claim \<Rightarrow> conclusion" where
  "own_conclusion chart c =
     pc_conclusion (conclude_features chart (claim_features c) [claim_number c])"

function (sequential)
  claim_conclusion_memo :: "claim_chart \<Rightarrow> int \<Rightarrow> memo \<Rightarrow> (fto_error, conclusion \<times> memo) result"
and parent_conclusions :: "claim_chart \<Rightarrow> int list \<Rightarrow> memo \<Rightarrow> (fto_error, conclusion list \<times> memo) result"
where
  "claim_conclusion_memo chart n memo =
     (case memo n of
        Some c \<Rightarrow> Inr (c, memo)
      | None \<Rightarrow>
          (case claim_of (chart_claim_set chart) n of
             Inl e \<Rightarrow> Inl e
           | Inr c \<Rightarrow>
               (if own_conclusion chart c = Does_not_read \<or> depends_on c = []
                then Inr (own_conclusion chart c, memo(n \<mapsto> own_conclusion chart c))
                else case parent_conclusions chart (depends_on c) (memo(n \<mapsto> Undetermined)) of
                       Inl e \<Rightarrow> Inl e
                     | Inr (parents, memo') \<Rightarrow>
                         (let result = combine_parents (own_conclusion chart c) parents
                          in Inr (result, memo'(n \<mapsto> result))))))"
| "parent_conclusions chart [] memo = Inr ([], memo)"
| "parent_conclusions chart (p # ps) memo =
     (case claim_conclusion_memo chart p memo of
        Inl e \<Rightarrow> Inl e
      | Inr (c, memo') \<Rightarrow>
          (case parent_conclusions chart ps memo' of
             Inl e \<Rightarrow> Inl e
           | Inr (cs, memo'') \<Rightarrow> Inr (c # cs, memo'')))"
  by pat_completeness auto

text \<open>The memo only grows; this is what makes the second recursive call of the loop smaller.\<close>

lemma memo_grows_partial:
  "claim_conclusion_memo_parent_conclusions_dom (Inl (chart, n, memo)) \<Longrightarrow>
     claim_conclusion_memo chart n memo = Inr (c, memo') \<Longrightarrow> dom memo \<subseteq> dom memo'"
  "claim_conclusion_memo_parent_conclusions_dom (Inr (chart, ps, memo)) \<Longrightarrow>
     parent_conclusions chart ps memo = Inr (cs, memo'') \<Longrightarrow> dom memo \<subseteq> dom memo''"
proof (induction arbitrary: c memo' and cs memo''
    rule: claim_conclusion_memo_parent_conclusions.pinduct)
  case (1 chart n memo)
  then show ?case
    by (fastforce simp: claim_conclusion_memo.psimps Let_def
        split: option.splits sum.splits if_splits prod.splits)
next
  case (2 chart memo)
  then show ?case by (simp add: parent_conclusions.psimps)
next
  case (3 chart p ps memo)
  then show ?case
    by (fastforce simp: parent_conclusions.psimps split: sum.splits prod.splits)
qed

definition open_claims :: "claim_chart \<Rightarrow> memo \<Rightarrow> nat" where
  "open_claims chart memo = card (numbers (chart_claim_set chart) - dom memo)"

lemma open_claims_mono: "dom memo \<subseteq> dom memo' \<Longrightarrow> open_claims chart memo' \<le> open_claims chart memo"
  unfolding open_claims_def by (intro card_mono) auto

lemma open_claims_less:
  assumes "memo n = None" "claim_of (chart_claim_set chart) n = Inr c"
  shows "open_claims chart (memo(n \<mapsto> x)) < open_claims chart memo"
  unfolding open_claims_def using assms by (intro psubset_card_mono) auto

termination claim_conclusion_memo
proof (relation "measures
    [\<lambda>x. case x of Inl (chart, _, memo) \<Rightarrow> open_claims chart memo
                 | Inr (chart, _, memo) \<Rightarrow> open_claims chart memo,
     \<lambda>x. case x of Inl _ \<Rightarrow> 0 | Inr (_, ps, _) \<Rightarrow> Suc (length ps)]", goal_cases)
  case 1
  show ?case by simp
next
  case (2 chart n memo c)
  then show ?case by (simp add: open_claims_less)
next
  case (3 chart p ps memo)
  then show ?case by simp
next
  case (4 chart p ps memo x c memo')
  then have "dom memo \<subseteq> dom memo'"
    using memo_grows_partial(1) by blast
  then show ?case using open_claims_mono [of memo memo' chart] by (auto simp: le_less)
qed

declare claim_conclusion_memo.simps [simp del]

definition claim_conclusion :: "claim_chart \<Rightarrow> int \<Rightarrow> (fto_error, conclusion) result" where
  "claim_conclusion chart n =
     bind_result (claim_conclusion_memo chart n Map.empty) (\<lambda>(c, _). Inr c)"

record claim_result =
  cr_claim_number :: int
  cr_conclusion :: conclusion
  cr_paths :: "path_conclusion list"
  cr_truncated :: bool

definition conclude_claim :: "claim_chart \<Rightarrow> int \<Rightarrow> (fto_error, claim_result) result" where
  "conclude_claim chart n =
     bind_result (dependency_paths (chart_claim_set chart) n MAX_DEPENDENCY_PATHS) (\<lambda>(paths, truncated).
     bind_result (map_result (\<lambda>p. bind_result (path_features (chart_claim_set chart) p)
                                (\<lambda>fs. Inr (conclude_features chart fs p))) paths) (\<lambda>results.
     bind_result (claim_conclusion chart n) (\<lambda>c.
     Inr \<lparr>cr_claim_number = n, cr_conclusion = c, cr_paths = results, cr_truncated = truncated\<rparr>)))"

section \<open>What a path says, and how parents combine\<close>

definition path_verdict :: "claim_chart \<Rightarrow> int list \<Rightarrow> conclusion" where
  "path_verdict chart path =
     (case path_features (chart_claim_set chart) path of
        Inr fs \<Rightarrow> pc_conclusion (conclude_features chart fs path)
      | Inl _ \<Rightarrow> Undetermined)"

lemma own_conclusion_list: "own_conclusion chart c = list_conclusion chart (claim_features c)"
  by (simp add: own_conclusion_def conclude_features_min)

lemma path_verdict_root:
  "claim_of (chart_claim_set chart) n = Inr c \<Longrightarrow> path_verdict chart [n] = own_conclusion chart c"
  by (simp add: path_verdict_def path_features_single conclude_features_min own_conclusion_list)

lemma path_verdict_down:
  assumes "claim_of (chart_claim_set chart) n = Inr c" "chain (chart_claim_set chart) p q"
  shows "path_verdict chart (q @ [n]) = min (path_verdict chart q) (own_conclusion chart c)"
proof -
  obtain fs where "path_features (chart_claim_set chart) q = Inr fs"
    using chain_path_features [OF assms(2)] by blast
  then show ?thesis
    using assms(1)
    by (simp add: path_verdict_def path_features_append path_features_single
        conclude_features_min own_conclusion_list list_conclusion_append)
qed

lemma max_key_rank:
  assumes "parents \<noteq> []"
  shows "max_key rank_of (hd parents) (tl parents) = Max (set parents)"
proof (rule Max_eqI [symmetric])
  show "max_key rank_of (hd parents) (tl parents) \<in> set parents"
    using max_key_mem [of rank_of "hd parents" "tl parents"] assms by simp
  show "y \<le> max_key rank_of (hd parents) (tl parents)" if "y \<in> set parents" for y
    using max_key_ge [of y "hd parents" "tl parents" rank_of] assms that
    by (simp add: less_eq_conclusion_def)
qed simp

lemma combine_parents_min_Max:
  assumes "parents \<noteq> []" "own \<noteq> Does_not_read"
  shows "combine_parents own parents = min own (Max (set parents))"
proof (cases "list_all (\<lambda>c. c = Does_not_read) parents")
  case True
  then have "set parents = {Does_not_read}"
    using assms(1) by (cases parents) (auto simp: list_all_iff)
  then show ?thesis
    using True by (simp add: combine_parents_def min_def)
next
  case False
  then obtain c where c: "c \<in> set parents" "c \<noteq> Does_not_read"
    by (auto simp: list_all_iff)
  have "Max (set parents) \<noteq> Does_not_read"
    using Max_ge [OF _ c(1)] c(2) by auto
  then show ?thesis
    using False assms(2)
    by (simp add: combine_parents_def max_key_rank [OF assms(1)] Let_def)
      (cases own; cases "Max (set parents)"; simp add: min_def conclusion_order)
qed

section \<open>Soundness on every claim set\<close>

text \<open>
  The invariant of the memo, cycle guard included: an entry that reads is backed by a path that
  reads at least as much, an entry that does not read speaks for every path.
\<close>

definition sound_at :: "claim_chart \<Rightarrow> int \<Rightarrow> conclusion \<Rightarrow> bool" where
  "sound_at chart n c \<longleftrightarrow>
     (reads c \<longrightarrow> (\<exists>path. chain (chart_claim_set chart) n path \<and> c \<le> path_verdict chart path)) \<and>
     (c = Does_not_read \<longrightarrow>
        (\<forall>path. chain (chart_claim_set chart) n path \<longrightarrow> path_verdict chart path = Does_not_read))"

definition memo_sound :: "claim_chart \<Rightarrow> memo \<Rightarrow> bool" where
  "memo_sound chart memo \<longleftrightarrow> (\<forall>n c. memo n = Some c \<longrightarrow> sound_at chart n c)"

lemma sound_at_Undetermined [simp]: "sound_at chart n Undetermined"
  by (simp add: sound_at_def reads_def)

lemma memo_sound_upd: "memo_sound chart memo \<Longrightarrow> sound_at chart n c \<Longrightarrow> memo_sound chart (memo(n \<mapsto> c))"
  by (simp add: memo_sound_def)

lemma sound_at_leaf:
  assumes c: "claim_of (chart_claim_set chart) n = Inr c"
    and leaf: "own_conclusion chart c = Does_not_read \<or> depends_on c = []"
  shows "sound_at chart n (own_conclusion chart c)"
proof (cases "depends_on c = []")
  case True
  then have "chain (chart_claim_set chart) n q \<longleftrightarrow> q = [n]" for q
    using root_chain_path [OF c] by blast
  then show ?thesis
    by (auto simp: sound_at_def path_verdict_root [OF c])
next
  case False
  then have own: "own_conclusion chart c = Does_not_read" using leaf by simp
  have "path_verdict chart q = Does_not_read" if "chain (chart_claim_set chart) n q" for q
    using that inner_chain_path [OF c False] path_verdict_down [OF c] own by (auto simp: min_def)
  then show ?thesis by (simp add: sound_at_def own reads_def)
qed

lemma sound_at_combine:
  assumes c: "claim_of (chart_claim_set chart) n = Inr c" and deps: "depends_on c \<noteq> []"
    and own: "own_conclusion chart c \<noteq> Does_not_read"
    and sound: "list_all2 (sound_at chart) (depends_on c) parents"
  shows "sound_at chart n (combine_parents (own_conclusion chart c) parents)"
proof -
  have ne: "parents \<noteq> []" using deps sound by auto
  let ?best = "Max (set parents)"
  have eq: "combine_parents (own_conclusion chart c) parents = min (own_conclusion chart c) ?best"
    by (rule combine_parents_min_Max [OF ne own])
  show ?thesis
    unfolding eq sound_at_def
  proof (intro conjI impI allI)
    assume r: "reads (min (own_conclusion chart c) ?best)"
    obtain i where i: "i < length parents" "parents ! i = ?best"
      using Max_in [of "set parents"] ne by (auto simp: in_set_conv_nth)
    then have p: "depends_on c ! i \<in> set (depends_on c)" "sound_at chart (depends_on c ! i) ?best"
      using sound by (auto simp: list_all2_conv_all_nth)
    from r have "reads ?best" by (auto simp: reads_iff_le)
    then obtain q where q: "chain (chart_claim_set chart) (depends_on c ! i) q"
        "?best \<le> path_verdict chart q"
      using p(2) by (auto simp: sound_at_def)
    have "min (own_conclusion chart c) ?best \<le> path_verdict chart (q @ [n])"
      using q(2) by (auto simp: path_verdict_down [OF c q(1)] min_le_iff_disj)
    with chain.down [OF c p(1) q(1)]
    show "\<exists>path. chain (chart_claim_set chart) n path \<and>
        min (own_conclusion chart c) ?best \<le> path_verdict chart path" by blast
  next
    fix path
    assume "min (own_conclusion chart c) ?best = Does_not_read"
      and path: "chain (chart_claim_set chart) n path"
    then have best: "?best = Does_not_read"
      using own by (auto simp: min_def split: if_splits)
    obtain p q where p: "p \<in> set (depends_on c)" "chain (chart_claim_set chart) p q" "path = q @ [n]"
      using path inner_chain_path [OF c deps] by blast
    obtain i where i: "i < length (depends_on c)" "depends_on c ! i = p"
      using p(1) by (auto simp: in_set_conv_nth)
    then have "i < length parents" using sound by (simp add: list_all2_lengthD [symmetric])
    then have "parents ! i = Does_not_read"
      using best Max_ge [of "set parents" "parents ! i"] by simp
    then have "sound_at chart p Does_not_read"
      using sound i by (auto simp: list_all2_conv_all_nth)
    then show "path_verdict chart path = Does_not_read"
      using p(2,3) path_verdict_down [OF c p(2)] by (simp add: sound_at_def)
  qed
qed

lemma memo_sound_step:
  "claim_conclusion_memo chart n memo = Inr (c, memo') \<Longrightarrow> memo_sound chart memo \<Longrightarrow>
     memo_sound chart memo' \<and> sound_at chart n c"
  "parent_conclusions chart ps memo = Inr (cs, memo'') \<Longrightarrow> memo_sound chart memo \<Longrightarrow>
     memo_sound chart memo'' \<and> list_all2 (sound_at chart) ps cs"
proof (induction chart n memo and chart ps memo arbitrary: c memo' and cs memo''
    rule: claim_conclusion_memo_parent_conclusions.induct)
  case (1 chart n memo)
  show ?case
  proof (cases "memo n")
    case (Some v)
    then show ?thesis
      using "1.prems" by (auto simp: claim_conclusion_memo.simps memo_sound_def)
  next
    case None
    obtain cl where cl: "claim_of (chart_claim_set chart) n = Inr cl"
      using "1.prems"(1) None by (auto simp: claim_conclusion_memo.simps split: sum.splits)
    show ?thesis
    proof (cases "own_conclusion chart cl = Does_not_read \<or> depends_on cl = []")
      case True
      then show ?thesis
        using "1.prems" None cl sound_at_leaf [OF cl True]
        by (auto simp: claim_conclusion_memo.simps memo_sound_upd)
    next
      case False
      then obtain parents m where m:
        "parent_conclusions chart (depends_on cl) (memo(n \<mapsto> Undetermined)) = Inr (parents, m)"
        "c = combine_parents (own_conclusion chart cl) parents" "memo' = m(n \<mapsto> c)"
        using "1.prems"(1) None cl
        by (auto simp: claim_conclusion_memo.simps Let_def split: sum.splits)
      have "memo_sound chart (memo(n \<mapsto> Undetermined))"
        using "1.prems"(2) by (intro memo_sound_upd) simp_all
      then have "memo_sound chart m \<and> list_all2 (sound_at chart) (depends_on cl) parents"
        by (rule "1.IH" [OF None cl False m(1)])
      moreover have "sound_at chart n c" if "list_all2 (sound_at chart) (depends_on cl) parents"
        unfolding m(2) using sound_at_combine [OF cl _ _ that] False by blast
      ultimately show ?thesis
        unfolding m(3) using memo_sound_upd by blast
    qed
  qed
next
  case (2 chart memo)
  then show ?case by simp
next
  case (3 chart p ps memo)
  then show ?case by (fastforce split: sum.splits prod.splits)
qed

lemma claim_conclusion_sound: "claim_conclusion chart n = Inr c \<Longrightarrow> sound_at chart n c"
  using memo_sound_step(1) [of chart n Map.empty]
  by (fastforce simp: claim_conclusion_def memo_sound_def)

section \<open>Exactness without cycles\<close>

definition parent_rel :: "claim_set \<Rightarrow> (int \<times> int) set" where
  "parent_rel cs = {(p, n). \<exists>c. claim_of cs n = Inr c \<and> p \<in> set (depends_on c)}"

definition acyclic_refs :: "claim_set \<Rightarrow> bool" where
  "acyclic_refs cs \<longleftrightarrow> wf (parent_rel cs)"

text \<open>The layout of a granted claim set: every reference is to a smaller claim number.\<close>

definition refs_earlier :: "claim_set \<Rightarrow> bool" where
  "refs_earlier cs \<longleftrightarrow>
     list_all (\<lambda>c. list_all (\<lambda>p. 0 \<le> p \<and> p < claim_number c) (depends_on c)) (claims cs)"

lemma refs_earlier_acyclic: "refs_earlier cs \<Longrightarrow> acyclic_refs cs"
proof -
  assume "refs_earlier cs"
  then have "parent_rel cs \<subseteq> measure nat"
    using claim_of_Inr [of cs] by (fastforce simp: parent_rel_def refs_earlier_def list_all_iff)
  then show ?thesis
    unfolding acyclic_refs_def by (rule wf_subset [OF wf_measure])
qed

definition exact_at :: "claim_chart \<Rightarrow> int \<Rightarrow> conclusion \<Rightarrow> bool" where
  "exact_at chart n c \<longleftrightarrow>
     (\<exists>path. chain (chart_claim_set chart) n path \<and> path_verdict chart path = c) \<and>
     (\<forall>path. chain (chart_claim_set chart) n path \<longrightarrow> path_verdict chart path \<le> c)"

lemma chain_exists:
  assumes "acyclic_refs cs" "refs_closed cs"
  shows "n \<in> numbers cs \<Longrightarrow> \<exists>path. chain cs n path"
  using assms(1) unfolding acyclic_refs_def
proof (induction n rule: wf_induct_rule)
  case (less n)
  obtain c where c: "claim_of cs n = Inr c"
    using less.prems claim_of_total_iff by blast
  show ?case
  proof (cases "depends_on c")
    case Nil
    then show ?thesis using chain.root [OF c] by blast
  next
    case (Cons p ps)
    then have p: "p \<in> set (depends_on c)" by simp
    then have "(p, n) \<in> parent_rel cs" using c by (auto simp: parent_rel_def)
    then obtain q where "chain cs p q"
      using less.IH refs_closedD [OF assms(2) c p] by blast
    then show ?thesis using chain.down [OF c p] by blast
  qed
qed

lemma exact_at_leaf:
  assumes c: "claim_of (chart_claim_set chart) n = Inr c"
    and leaf: "own_conclusion chart c = Does_not_read \<or> depends_on c = []"
    and ex: "chain (chart_claim_set chart) n path"
  shows "exact_at chart n (own_conclusion chart c)"
proof -
  have eq: "path_verdict chart q = own_conclusion chart c" if q: "chain (chart_claim_set chart) n q" for q
  proof (cases "depends_on c = []")
    case True
    then show ?thesis using q root_chain_path [OF c] path_verdict_root [OF c] by auto
  next
    case False
    then have "own_conclusion chart c = Does_not_read" using leaf by simp
    then show ?thesis
      using q inner_chain_path [OF c False] path_verdict_down [OF c] by (auto simp: min_def)
  qed
  then show ?thesis using ex by (auto simp: exact_at_def)
qed

lemma exact_at_combine:
  assumes c: "claim_of (chart_claim_set chart) n = Inr c" and deps: "depends_on c \<noteq> []"
    and own: "own_conclusion chart c \<noteq> Does_not_read"
    and exact: "list_all2 (exact_at chart) (depends_on c) parents"
  shows "exact_at chart n (combine_parents (own_conclusion chart c) parents)"
proof -
  have ne: "parents \<noteq> []" using deps exact by auto
  let ?best = "Max (set parents)"
  have eq: "combine_parents (own_conclusion chart c) parents = min (own_conclusion chart c) ?best"
    by (rule combine_parents_min_Max [OF ne own])
  obtain i where i: "i < length parents" "parents ! i = ?best"
    using Max_in [of "set parents"] ne by (auto simp: in_set_conv_nth)
  then have p: "depends_on c ! i \<in> set (depends_on c)" "exact_at chart (depends_on c ! i) ?best"
    using exact by (auto simp: list_all2_conv_all_nth)
  then obtain q where q: "chain (chart_claim_set chart) (depends_on c ! i) q"
      "path_verdict chart q = ?best"
    by (auto simp: exact_at_def)
  have "path_verdict chart (q @ [n]) = min (own_conclusion chart c) ?best"
    using q(2) by (simp add: path_verdict_down [OF c q(1)] min.commute)
  moreover have "path_verdict chart path \<le> min (own_conclusion chart c) ?best"
    if path: "chain (chart_claim_set chart) n path" for path
  proof -
    obtain p q where pq: "p \<in> set (depends_on c)" "chain (chart_claim_set chart) p q" "path = q @ [n]"
      using path inner_chain_path [OF c deps] by blast
    obtain j where j: "j < length (depends_on c)" "depends_on c ! j = p"
      using pq(1) by (auto simp: in_set_conv_nth)
    then have "exact_at chart p (parents ! j)" and len: "j < length parents"
      using exact by (auto simp: list_all2_conv_all_nth)
    then have "path_verdict chart q \<le> parents ! j" using pq(2) by (auto simp: exact_at_def)
    also have "\<dots> \<le> ?best" using len by simp
    finally show ?thesis using pq(3) by (simp add: path_verdict_down [OF c pq(2)] min_le_iff_disj)
  qed
  ultimately show ?thesis
    unfolding eq exact_at_def using chain.down [OF c p(1) q(1)] by blast
qed

text \<open>A memo is usable at \<open>n\<close> when the entries at and below \<open>n\<close> are exact.\<close>

definition usable :: "claim_chart \<Rightarrow> memo \<Rightarrow> int \<Rightarrow> bool" where
  "usable chart memo n \<longleftrightarrow>
     (\<forall>m v. (m, n) \<in> (parent_rel (chart_claim_set chart))\<^sup>* \<longrightarrow> memo m = Some v \<longrightarrow> exact_at chart m v)"

definition extends_exactly :: "claim_chart \<Rightarrow> memo \<Rightarrow> memo \<Rightarrow> bool" where
  "extends_exactly chart memo memo' \<longleftrightarrow>
     (\<forall>m v. memo' m = Some v \<longrightarrow> memo m = Some v \<or> exact_at chart m v)"

definition concludes :: "claim_chart \<Rightarrow> int \<Rightarrow> memo \<Rightarrow> bool" where
  "concludes chart n memo \<longleftrightarrow>
     (\<exists>c memo'. claim_conclusion_memo chart n memo = Inr (c, memo') \<and> exact_at chart n c \<and>
        extends_exactly chart memo memo')"

lemma usable_extends: "usable chart memo n \<Longrightarrow> extends_exactly chart memo memo' \<Longrightarrow> usable chart memo' n"
  by (auto simp: usable_def extends_exactly_def)

lemma parents_conclude:
  assumes "\<And>p memo. p \<in> set ps \<Longrightarrow> usable chart memo p \<Longrightarrow> concludes chart p memo"
    and "\<forall>p \<in> set ps. usable chart memo p"
  shows "\<exists>cs memo'. parent_conclusions chart ps memo = Inr (cs, memo') \<and>
    list_all2 (exact_at chart) ps cs \<and> extends_exactly chart memo memo'"
  using assms
proof (induction ps arbitrary: memo)
  case Nil
  then show ?case by (simp add: extends_exactly_def)
next
  case (Cons p ps)
  obtain c m where m: "claim_conclusion_memo chart p memo = Inr (c, m)" "exact_at chart p c"
      "extends_exactly chart memo m"
    using Cons.prems by (force simp: concludes_def)
  have "\<forall>p \<in> set ps. usable chart m p"
    using Cons.prems(2) m(3) usable_extends by simp blast
  then obtain cs m' where m': "parent_conclusions chart ps m = Inr (cs, m')"
      "list_all2 (exact_at chart) ps cs" "extends_exactly chart m m'"
    using Cons.IH [of m] Cons.prems(1) by auto
  have "extends_exactly chart memo m'"
    using m(3) m'(3) by (auto simp: extends_exactly_def)
  then show ?case using m(1,2) m'(1,2) by simp
qed

lemma concludes_exactly:
  assumes acyc: "acyclic_refs (chart_claim_set chart)" and closed: "refs_closed (chart_claim_set chart)"
  shows "n \<in> numbers (chart_claim_set chart) \<Longrightarrow> usable chart memo n \<Longrightarrow> concludes chart n memo"
  using acyc unfolding acyclic_refs_def
proof (induction n arbitrary: memo rule: wf_induct_rule)
  case (less n)
  let ?R = "parent_rel (chart_claim_set chart)"
  obtain c where c: "claim_of (chart_claim_set chart) n = Inr c"
    using less.prems(1) claim_of_total_iff by blast
  obtain path where path: "chain (chart_claim_set chart) n path"
    using chain_exists [OF acyc closed less.prems(1)] by blast
  show ?case
  proof (cases "memo n")
    case (Some v)
    then show ?thesis
      using less.prems(2)
      by (auto simp: concludes_def claim_conclusion_memo.simps usable_def extends_exactly_def)
  next
    case None
    show ?thesis
    proof (cases "own_conclusion chart c = Does_not_read \<or> depends_on c = []")
      case True
      then show ?thesis
        using None c exact_at_leaf [OF c True path]
        by (auto simp: concludes_def claim_conclusion_memo.simps extends_exactly_def)
    next
      case False
      let ?m = "memo(n \<mapsto> Undetermined)"
      have below: "(p, n) \<in> ?R" "p \<in> numbers (chart_claim_set chart)" if "p \<in> set (depends_on c)" for p
        using that c refs_closedD [OF closed c that] by (auto simp: parent_rel_def)
      have "usable chart ?m p" if p: "p \<in> set (depends_on c)" for p
        unfolding usable_def
      proof (intro allI impI)
        fix m v
        assume m: "(m, p) \<in> ?R\<^sup>*" and v: "?m m = Some v"
        have "m \<noteq> n"
        proof
          assume "m = n"
          with m below(1) [OF p] have "(n, n) \<in> ?R\<^sup>+" by (simp add: rtrancl_into_trancl1)
          then show False using acyc wf_acyclic by (auto simp: acyclic_refs_def acyclic_def)
        qed
        moreover have "(m, n) \<in> ?R\<^sup>*"
          using m below(1) [OF p] by (rule rtrancl_into_rtrancl)
        ultimately show "exact_at chart m v"
          using less.prems(2) v by (auto simp: usable_def)
      qed
      then obtain cs m' where m': "parent_conclusions chart (depends_on c) ?m = Inr (cs, m')"
          "list_all2 (exact_at chart) (depends_on c) cs" "extends_exactly chart ?m m'"
        using parents_conclude [of "depends_on c" chart ?m] less.IH below by blast
      have ex: "exact_at chart n (combine_parents (own_conclusion chart c) cs)"
        using exact_at_combine [OF c _ _ m'(2)] False by blast
      then have "extends_exactly chart memo
          (m'(n \<mapsto> combine_parents (own_conclusion chart c) cs))"
        using m'(3) unfolding extends_exactly_def by (metis fun_upd_apply option.inject)
      then show ?thesis
        using ex None c False m'(1)
        by (auto simp: concludes_def claim_conclusion_memo.simps Let_def)
    qed
  qed
qed

lemma claim_conclusion_exact_at:
  assumes "acyclic_refs (chart_claim_set chart)" "refs_closed (chart_claim_set chart)"
    and "n \<in> numbers (chart_claim_set chart)"
  shows "\<exists>c. claim_conclusion chart n = Inr c \<and> exact_at chart n c"
  using concludes_exactly [OF assms, of Map.empty]
  by (auto simp: concludes_def claim_conclusion_def usable_def)

section \<open>The properties\<close>

text \<open>A three-claim set used by the witnesses: claim 3 depends on claim 1 or on claim 2.\<close>

definition sample_feature :: "string \<Rightarrow> int \<Rightarrow> feature_status \<Rightarrow> claim_feature" where
  "sample_feature i n st =
     \<lparr>feature_id = i, feature_claim_number = n, feature_text = [], feature_spans = [], feature_status = st\<rparr>"

definition sample_claim :: "int \<Rightarrow> int list \<Rightarrow> claim_feature list \<Rightarrow> claim" where
  "sample_claim n deps fs =
     \<lparr>claim_number = n, claim_text = [], depends_on = deps, structure_source = Uspto_grant_xml,
      claim_features = fs, claim_language = None, parse_warnings = []\<rparr>"

definition sample_set :: claim_set where
  "sample_set =
     \<lparr>publication_number = ''US-1-B2'',
      claims = [sample_claim 1 [] [sample_feature ''1.0'' 1 Confirmed],
                sample_claim 2 [1] [sample_feature ''2.0'' 2 Confirmed],
                sample_claim 3 [1, 2] [sample_feature ''3.0'' 3 Confirmed]],
      language = None, proceedings_language = None, set_warnings = []\<rparr>"

definition sample_assessment :: "string \<Rightarrow> finding \<Rightarrow> feature_assessment" where
  "sample_assessment i x =
     \<lparr>assessed_feature = i, assessed_finding = x, rationale = [], product_evidence = [], assessed_by = []\<rparr>"

definition sample_chart :: claim_chart where
  "sample_chart =
     \<lparr>chart_claim_set = sample_set,
      assessments = map_of
        [(''1.0'', sample_assessment ''1.0'' Literally_present),
         (''2.0'', sample_assessment ''2.0'' Absent),
         (''3.0'', sample_assessment ''3.0'' Present_by_equivalent)]\<rparr>"

lemmas sample_simps =
  sample_chart_def sample_set_def sample_claim_def sample_feature_def sample_assessment_def

lemma sample_closed: "refs_closed (chart_claim_set sample_chart)"
  by (simp add: refs_closed_def sample_simps)

lemma sample_acyclic: "acyclic_refs (chart_claim_set sample_chart)"
  by (rule refs_earlier_acyclic) (simp add: refs_earlier_def sample_simps)

lemma sample_numbers: "numbers (chart_claim_set sample_chart) = {1, 2, 3}"
  by (auto simp: numbers_def sample_simps)

lemma sample_conclusion: "claim_conclusion sample_chart 3 = Inr Reads_by_equivalents_only"
  by (simp add: claim_conclusion_def claim_conclusion_memo.simps claim_of_def own_conclusion_def
      conclude_features_def finding_of_def combine_parents_def sample_simps Let_def)

text \<open>
  C1: on a claim set whose references resolve and contain no cycle, \<open>claim_conclusion\<close> returns,
  and returns exactly the best verdict over all dependency paths: some path has that verdict and
  no path has a better one.  The memoised recursion agrees with the all-elements rule applied
  to every alternative chain, which it never enumerates.
\<close>

theorem claim_conclusion_exact:
  assumes "acyclic_refs (chart_claim_set chart)" and "refs_closed (chart_claim_set chart)"
    and "n \<in> numbers (chart_claim_set chart)"
  shows "\<exists>c. claim_conclusion chart n = Inr c \<and>
    (\<exists>path. chain (chart_claim_set chart) n path \<and> path_verdict chart path = c) \<and>
    (\<forall>path. chain (chart_claim_set chart) n path \<longrightarrow> path_verdict chart path \<le> c)"
  using claim_conclusion_exact_at [OF assms] by (simp add: exact_at_def)

theorem claim_conclusion_exact_witness:
  "\<exists>path. chain (chart_claim_set sample_chart) 3 path \<and>
     path_verdict sample_chart path = Reads_by_equivalents_only"
  using claim_conclusion_exact [OF sample_acyclic sample_closed, of 3] sample_conclusion
  by (auto simp: sample_numbers)

text \<open>
  C2: on every claim set, malformed cycles included, a claim is reported to read only when some
  dependency path consists entirely of features a person confirmed and found present, literally
  or by an equivalent; and it is reported not to read only when every path has an absent feature.
\<close>

theorem claim_conclusion_never_overstates:
  assumes "claim_conclusion chart n = Inr c"
  shows "(reads c \<longrightarrow> (\<exists>path fs. chain (chart_claim_set chart) n path \<and>
           path_features (chart_claim_set chart) path = Inr fs \<and>
           (\<forall>f \<in> set fs. feature_status f = Confirmed \<and>
              finding_of chart f \<in> {Literally_present, Present_by_equivalent}))) \<and>
         (c = Does_not_read \<longrightarrow> (\<forall>path. chain (chart_claim_set chart) n path \<longrightarrow>
           (\<exists>fs f. path_features (chart_claim_set chart) path = Inr fs \<and> f \<in> set fs \<and>
              finding_of chart f = Absent)))"
proof -
  have s: "sound_at chart n c" by (rule claim_conclusion_sound [OF assms])
  have verdict: "\<exists>fs. path_features (chart_claim_set chart) path = Inr fs \<and>
      path_verdict chart path = list_conclusion chart fs"
    if "chain (chart_claim_set chart) n path" for path
    using chain_path_features [OF that] by (auto simp: path_verdict_def conclude_features_min)
  have present: "\<forall>f \<in> set fs. feature_status f = Confirmed \<and>
      finding_of chart f \<in> {Literally_present, Present_by_equivalent}"
    if r: "reads (list_conclusion chart fs)" for fs
  proof
    fix f assume "f \<in> set fs"
    then have "finding_of chart f \<noteq> Absent \<and> finding_of chart f \<noteq> Finding_undetermined \<and>
        feature_status f = Confirmed"
      using r by (auto simp: reads_def list_conclusion_cases split: if_splits)
    then show "feature_status f = Confirmed \<and>
        finding_of chart f \<in> {Literally_present, Present_by_equivalent}"
      by (cases "finding_of chart f") auto
  qed
  show ?thesis
  proof (intro conjI impI allI)
    assume r: "reads c"
    then obtain path where path: "chain (chart_claim_set chart) n path" "c \<le> path_verdict chart path"
      using s by (auto simp: sound_at_def)
    then obtain fs where fs: "path_features (chart_claim_set chart) path = Inr fs"
        "path_verdict chart path = list_conclusion chart fs"
      using verdict by blast
    have "reads (list_conclusion chart fs)"
      using r path(2) fs(2) by (auto simp: reads_iff_le)
    with path(1) fs(1) present show "\<exists>path fs. chain (chart_claim_set chart) n path \<and>
           path_features (chart_claim_set chart) path = Inr fs \<and>
           (\<forall>f \<in> set fs. feature_status f = Confirmed \<and>
              finding_of chart f \<in> {Literally_present, Present_by_equivalent})" by blast
  next
    fix path
    assume "c = Does_not_read" and path: "chain (chart_claim_set chart) n path"
    then have "path_verdict chart path = Does_not_read" using s by (simp add: sound_at_def)
    then obtain fs where fs: "path_features (chart_claim_set chart) path = Inr fs"
        "list_conclusion chart fs = Does_not_read"
      using verdict [OF path] by auto
    then have "\<exists>f \<in> set fs. finding_of chart f = Absent"
      by (auto simp: list_conclusion_cases split: if_splits)
    with fs(1) show "\<exists>fs f. path_features (chart_claim_set chart) path = Inr fs \<and> f \<in> set fs \<and>
        finding_of chart f = Absent" by blast
  qed
qed

theorem claim_conclusion_never_overstates_witness:
  "\<exists>path fs. chain (chart_claim_set sample_chart) 3 path \<and>
     path_features (chart_claim_set sample_chart) path = Inr fs \<and>
     (\<forall>f \<in> set fs. feature_status f = Confirmed \<and>
        finding_of sample_chart f \<in> {Literally_present, Present_by_equivalent})"
  using claim_conclusion_never_overstates [OF sample_conclusion] by (simp add: reads_def)

text \<open>
  C38: the path enumeration returns on every claim set whose references resolve, cyclic or not; the
  paths it returns are dependency chains that meet no claim twice, at most \<open>limit\<close> of them, all of
  them when it does not report truncation, and exactly \<open>limit\<close> when it does.
\<close>

theorem dependency_paths_correct:
  assumes "refs_closed cs" and "n \<in> numbers cs"
  shows "\<exists>paths truncated. dependency_paths cs n limit = Inr (paths, truncated) \<and>
    (\<forall>path \<in> set paths. simple_chain cs n path) \<and> length paths \<le> limit \<and>
    (truncated \<longrightarrow> length paths = limit) \<and>
    (\<not> truncated \<longrightarrow> set paths = {path. simple_chain cs n path})"
proof -
  obtain paths truncated where d: "dependency_paths cs n limit = Inr (paths, truncated)"
    using walk_total(1) [OF assms] unfolding dependency_paths_def by (metis surj_pair)
  then show ?thesis
    using dependency_paths_spec [OF d] by auto
qed

theorem dependency_paths_correct_witness:
  "dependency_paths sample_set 3 MAX_DEPENDENCY_PATHS = Inr ([[1, 3], [1, 2, 3]], False) \<and>
   {path. simple_chain sample_set 3 path} = {[1, 3], [1, 2, 3]}"
proof -
  have run: "dependency_paths sample_set 3 MAX_DEPENDENCY_PATHS = Inr ([[1, 3], [1, 2, 3]], False)"
    by (simp add: dependency_paths_def claim_of_def sample_simps MAX_DEPENDENCY_PATHS_def)
  have "refs_closed sample_set" "3 \<in> numbers sample_set"
    using sample_closed sample_numbers by (simp_all add: sample_chart_def)
  from dependency_paths_correct [OF this, of MAX_DEPENDENCY_PATHS] run show ?thesis by auto
qed

text \<open>
  The all-elements rule on one list of features.  An absent feature decides "does not read" and
  is listed; otherwise any feature without a decisive finding, or not confirmed by a person, keeps
  the conclusion undetermined; only then do the findings decide between literal and equivalent.
\<close>

theorem conclude_features_all_elements:
  "pc_conclusion (conclude_features chart fs path) =
     (if \<exists>f \<in> set fs. finding_of chart f = Absent then Does_not_read
      else if \<exists>f \<in> set fs. finding_of chart f = Finding_undetermined \<or> feature_status f \<noteq> Confirmed
        then Undetermined
      else if \<exists>f \<in> set fs. finding_of chart f = Present_by_equivalent
        then Reads_by_equivalents_only
      else Reads_literally)
   \<and> pc_absent (conclude_features chart fs path) =
       map feature_id (filter (\<lambda>f. finding_of chart f = Absent) fs)
   \<and> pc_unconfirmed (conclude_features chart fs path) =
       map feature_id (filter (\<lambda>f. feature_status f \<noteq> Confirmed) fs)"
  by (simp only: conclude_features_min list_conclusion_cases)
    (simp add: conclude_features_def feature_loop_eq)

theorem conclude_features_all_elements_witness:
  "pc_conclusion (conclude_features sample_chart
     [sample_feature ''1.0'' 1 Confirmed, sample_feature ''3.0'' 3 Confirmed] [1, 3]) = Reads_by_equivalents_only"
  using conclude_features_all_elements [of sample_chart
      "[sample_feature ''1.0'' 1 Confirmed, sample_feature ''3.0'' 3 Confirmed]" "[1, 3]"]
  by (simp add: finding_of_def sample_simps)

end
