(* ===== verification/PyText.thy ===== *)
theory PyText
  imports Prelude
begin

text \<open>
  The string operations of Python's library that the program uses, on code-point lists:
  \<open>strip\<close>, \<open>lower\<close> (the ASCII letters; the callers compare with ASCII words), substring tests,
  prefix tests, \<open>split\<close> and \<open>join\<close>, decimal numerals.
\<close>

section \<open>White space\<close>

text \<open>\<open>str.isspace\<close>: the white-space code points of Unicode.\<close>

definition is_space :: "nat \<Rightarrow> bool" where
  "is_space c \<longleftrightarrow> (9 \<le> c \<and> c \<le> 13) \<or> (28 \<le> c \<and> c \<le> 32) \<or> c = 133 \<or> c = 160 \<or> c = 5760 \<or>
     (8192 \<le> c \<and> c \<le> 8202) \<or> c = 8232 \<or> c = 8233 \<or> c = 8239 \<or> c = 8287 \<or> c = 12288"

definition lstrip :: "ustr \<Rightarrow> ustr" where
  "lstrip s = dropWhile is_space s"

definition rstrip :: "ustr \<Rightarrow> ustr" where
  "rstrip s = rev (dropWhile is_space (rev s))"

definition strip :: "ustr \<Rightarrow> ustr" where
  "strip s = rstrip (lstrip s)"

lemma rstrip_empty_iff: "rstrip s = [] \<longleftrightarrow> (\<forall>c \<in> set s. is_space c)"
  by (auto simp: rstrip_def dropWhile_eq_Nil_conv)

lemma lstrip_empty_iff: "lstrip s = [] \<longleftrightarrow> (\<forall>c \<in> set s. is_space c)"
  by (auto simp: lstrip_def dropWhile_eq_Nil_conv)

lemma lstrip_head: "lstrip s \<noteq> [] \<Longrightarrow> \<not> is_space (hd (lstrip s))"
  by (simp add: lstrip_def hd_dropWhile dropWhile_eq_Nil_conv)

lemma strip_empty_iff: "strip s = [] \<longleftrightarrow> (\<forall>c \<in> set s. is_space c)"
proof
  assume e: "strip s = []"
  then have "\<forall>c \<in> set (lstrip s). is_space c"
    by (simp add: strip_def rstrip_empty_iff)
  then have "lstrip s = []"
    using lstrip_head [of s] by (cases "lstrip s") auto
  then show "\<forall>c \<in> set s. is_space c" by (simp add: lstrip_empty_iff)
next
  assume "\<forall>c \<in> set s. is_space c"
  then have "lstrip s = []" by (simp add: lstrip_empty_iff)
  then show "strip s = []" by (simp add: strip_def rstrip_def)
qed

definition blank :: "ustr \<Rightarrow> bool" where
  "blank s \<longleftrightarrow> strip s = []"

lemma blank_iff: "blank s \<longleftrightarrow> list_all is_space s"
  by (simp add: blank_def strip_empty_iff list_all_iff)

text \<open>The line boundaries of \<open>splitlines\<close>.\<close>

definition line_break :: "nat \<Rightarrow> bool" where
  "line_break c \<longleftrightarrow> (10 \<le> c \<and> c \<le> 13) \<or> (28 \<le> c \<and> c \<le> 30) \<or> c = 133 \<or> c = 8232 \<or> c = 8233"

section \<open>Letters and digits\<close>

definition lower_cp :: "nat \<Rightarrow> nat" where
  "lower_cp c = (if 65 \<le> c \<and> c \<le> 90 then c + 32 else c)"

definition lower :: "ustr \<Rightarrow> ustr" where
  "lower s = map lower_cp s"

lemma lower_idem: "lower (lower s) = lower s"
  by (simp add: lower_def lower_cp_def)

definition is_ascii_digit :: "nat \<Rightarrow> bool" where
  "is_ascii_digit c \<longleftrightarrow> 48 \<le> c \<and> c \<le> 57"

section \<open>Searching\<close>

fun starts_with :: "'a list \<Rightarrow> 'a list \<Rightarrow> bool" where
  "starts_with s [] = True"
| "starts_with [] (p # ps) = False"
| "starts_with (c # s) (p # ps) = (c = p \<and> starts_with s ps)"

lemma starts_with_iff: "starts_with s p \<longleftrightarrow> (\<exists>r. s = p @ r)"
  by (induction s p rule: starts_with.induct) auto

fun occurs_in :: "'a list \<Rightarrow> 'a list \<Rightarrow> bool" where
  "occurs_in p [] = (p = [])"
| "occurs_in p (c # s) = (starts_with (c # s) p \<or> occurs_in p s)"

lemma occurs_in_iff: "occurs_in p s \<longleftrightarrow> (\<exists>l r. s = l @ p @ r)"
proof (induction p s rule: occurs_in.induct)
  case (1 p)
  show ?case by auto
next
  case (2 p c s)
  have "(\<exists>l r. c # s = l @ p @ r) \<longleftrightarrow> (\<exists>r. c # s = p @ r) \<or> (\<exists>l r. s = l @ p @ r)"
    by (metis Cons_eq_append_conv append_Cons append_Nil)
  with 2 show ?case by (simp add: starts_with_iff)
qed

definition ends_with :: "'a list \<Rightarrow> 'a list \<Rightarrow> bool" where
  "ends_with s p = starts_with (rev s) (rev p)"

lemma ends_with_iff: "ends_with s p \<longleftrightarrow> (\<exists>l. s = l @ p)"
  unfolding ends_with_def starts_with_iff by (metis rev_append rev_rev_ident rev_swap)

section \<open>Joining, splitting, numerals\<close>

fun join :: "'a list \<Rightarrow> 'a list list \<Rightarrow> 'a list" where
  "join sep [] = []"
| "join sep [x] = x"
| "join sep (x # y # xs) = x @ sep @ join sep (y # xs)"

fun split_on :: "'a \<Rightarrow> 'a list \<Rightarrow> 'a list list" where
  "split_on sep [] = [[]]"
| "split_on sep (c # s) =
     (if c = sep then [] # split_on sep s
      else case split_on sep s of [] \<Rightarrow> [[c]] | w # ws \<Rightarrow> (c # w) # ws)"

lemma split_on_not_Nil [simp]: "split_on sep s \<noteq> []"
  by (cases s) (auto split: list.splits)

lemma split_on_no_sep: "w \<in> set (split_on sep s) \<Longrightarrow> sep \<notin> set w"
  by (induction sep s arbitrary: w rule: split_on.induct) (auto split: if_splits list.splits)

lemma join_split_on: "join [sep] (split_on sep s) = s"
proof (induction sep s rule: split_on.induct)
  case (1 sep)
  show ?case by simp
next
  case (2 sep c s)
  obtain w ws where w: "split_on sep s = w # ws"
    using split_on_not_Nil by (metis list.exhaust)
  show ?case
  proof (cases "c = sep")
    case True
    with 2 w show ?thesis by simp
  next
    case False
    with 2 w show ?thesis by (cases ws) simp_all
  qed
qed

lemma split_on_sep_free: "sep \<notin> set x \<Longrightarrow> split_on sep (x @ sep # s) = x # split_on sep s"
  by (induction x) auto

lemma split_on_free: "sep \<notin> set x \<Longrightarrow> split_on sep x = [x]"
  by (induction x) auto

lemma split_on_join:
  "xs \<noteq> [] \<Longrightarrow> (\<And>x. x \<in> set xs \<Longrightarrow> sep \<notin> set x) \<Longrightarrow> split_on sep (join [sep] xs) = xs"
proof (induction xs)
  case Nil
  then show ?case by simp
next
  case (Cons x xs)
  then show ?case by (cases xs) (simp_all add: split_on_free split_on_sep_free)
qed

fun nat_digits :: "nat \<Rightarrow> string" where
  "nat_digits n = (if n < 10 then [char_of (n + 48)] else nat_digits (n div 10) @ [char_of (n mod 10 + 48)])"

declare nat_digits.simps [simp del]

definition str_nat :: "nat \<Rightarrow> string" where
  "str_nat n = nat_digits n"

text \<open>The number can be read back.\<close>

definition digits_nat :: "string \<Rightarrow> nat" where
  "digits_nat s = foldl (\<lambda>a c. 10 * a + (of_char c - 48)) 0 s"

lemma digits_nat_digits: "digits_nat (nat_digits n) = n"
proof (induction n rule: nat_digits.induct)
  case (1 n)
  show ?case
  proof (cases "n < 10")
    case True
    then show ?thesis by (simp add: nat_digits.simps [of n] digits_nat_def)
  next
    case False
    have "of_char (char_of (n mod 10 + 48) :: char) = n mod 10 + 48"
      by (simp add: of_char_of)
    with "1.IH" [OF False] False show ?thesis
      by (simp add: nat_digits.simps [of n] digits_nat_def)
  qed
qed

lemma str_nat_inj: "str_nat n = str_nat m \<Longrightarrow> n = m"
  by (metis digits_nat_digits str_nat_def)

definition str_int :: "int \<Rightarrow> string" where
  "str_int i = (if i < 0 then CHR ''-'' # str_nat (nat (- i)) else str_nat (nat i))"

section \<open>Text of characters\<close>

definition char_space :: "char \<Rightarrow> bool" where
  "char_space c \<longleftrightarrow> is_space (of_char c)"

definition strip_text :: "string \<Rightarrow> string" where
  "strip_text s = rev (dropWhile char_space (rev (dropWhile char_space s)))"

text \<open>\<open>lower\<close> on characters below 256.\<close>

definition lower_char :: "char \<Rightarrow> char" where
  "lower_char c =
     (let n = of_char c :: nat
      in if 65 \<le> n \<and> n \<le> 90 \<or> 192 \<le> n \<and> n \<le> 222 \<and> n \<noteq> 215 then char_of (n + 32) else c)"

definition lower_text :: "string \<Rightarrow> string" where
  "lower_text s = map lower_char s"

end
