(* ===== verification/Dates.thy ===== *)
theory Dates
  imports PyText
begin

text \<open>
  \<open>datetime.date\<close> as far as the program uses it: the constructor that raises on an impossible
  date, comparison, ISO text, calendar-year addition (\<open>add_years\<close> of
  \<^verbatim>\<open>modules/legal_status/us.py\<close>), month addition (\<open>_add_months\<close> of \<^verbatim>\<open>modules/assessment/rules.py\<close>)
  and the addition of a number of days.  \<open>None\<close> stands for the \<open>ValueError\<close> or \<open>OverflowError\<close>
  of the library.
\<close>

section \<open>Calendar dates\<close>

datatype date = Date (d_year: int) (d_month: int) (d_day: int)

definition leap_year :: "int \<Rightarrow> bool" where
  "leap_year y \<longleftrightarrow> y mod 4 = 0 \<and> (y mod 100 \<noteq> 0 \<or> y mod 400 = 0)"

definition days_in_month :: "int \<Rightarrow> int \<Rightarrow> int" where
  "days_in_month y m =
     (if m = 2 then (if leap_year y then 29 else 28)
      else if m = 4 \<or> m = 6 \<or> m = 9 \<or> m = 11 then 30 else 31)"

lemma days_in_month_bounds: "28 \<le> days_in_month y m" "days_in_month y m \<le> 31"
  by (simp_all add: days_in_month_def)

definition valid_ymd :: "int \<Rightarrow> int \<Rightarrow> int \<Rightarrow> bool" where
  "valid_ymd y m d \<longleftrightarrow> 1 \<le> y \<and> y \<le> 9999 \<and> 1 \<le> m \<and> m \<le> 12 \<and> 1 \<le> d \<and> d \<le> days_in_month y m"

definition valid_date :: "date \<Rightarrow> bool" where
  "valid_date x \<longleftrightarrow> valid_ymd (d_year x) (d_month x) (d_day x)"

definition mk_date :: "int \<Rightarrow> int \<Rightarrow> int \<Rightarrow> date option" where
  "mk_date y m d = (if valid_ymd y m d then Some (Date y m d) else None)"

lemma mk_date_valid: "mk_date y m d = Some x \<Longrightarrow> valid_date x"
  by (auto simp: mk_date_def valid_date_def split: if_splits)

text \<open>Dates compare as (year, month, day).\<close>

definition date_key :: "date \<Rightarrow> int \<times> int \<times> int" where
  "date_key x = (d_year x, d_month x, d_day x)"

lemma date_key_inject: "date_key a = date_key b \<longleftrightarrow> a = b"
  by (cases a; cases b) (simp add: date_key_def)

instantiation date :: linorder
begin

definition less_eq_date :: "date \<Rightarrow> date \<Rightarrow> bool" where
  "a \<le> b \<longleftrightarrow> date_key a \<le> date_key b"

definition less_date :: "date \<Rightarrow> date \<Rightarrow> bool" where
  "a < b \<longleftrightarrow> date_key a < date_key b"

instance
  by standard (auto simp: less_eq_date_def less_date_def less_le_not_le date_key_inject dest: antisym)

end

lemma date_less_eq [simp, code]:
  "Date y m d \<le> Date y' m' d' \<longleftrightarrow> y < y' \<or> y = y' \<and> (m < m' \<or> m = m' \<and> d \<le> d')"
  by (auto simp: less_eq_date_def date_key_def less_eq_prod_def)

lemma date_less [simp, code]:
  "Date y m d < Date y' m' d' \<longleftrightarrow> y < y' \<or> y = y' \<and> (m < m' \<or> m = m' \<and> d < d')"
  by (auto simp: less_date_def date_key_def less_prod_def)

section \<open>Whole years and whole months\<close>

definition add_years :: "date \<Rightarrow> int \<Rightarrow> date option" where
  "add_years x years =
     (case mk_date (d_year x + years) (d_month x) (d_day x) of
        Some y \<Rightarrow> Some y
      | None \<Rightarrow> mk_date (d_year x + years) (d_month x) 28)"

lemma add_years_eq:
  assumes "valid_date x" "1 \<le> d_year x + years" "d_year x + years \<le> 9999"
  shows "add_years x years =
    Some (Date (d_year x + years) (d_month x)
      (if d_month x = 2 \<and> d_day x = 29 \<and> \<not> leap_year (d_year x + years) then 28 else d_day x))"
  using assms
  by (auto simp: add_years_def mk_date_def valid_date_def valid_ymd_def days_in_month_def
      split: if_splits)

text \<open>The \<open>while day > 1\<close> loop of \<open>_add_months\<close>, then the final \<open>date(year, month, 1)\<close>.\<close>

function try_days :: "int \<Rightarrow> int \<Rightarrow> int \<Rightarrow> date option" where
  "try_days y m d =
     (if d > 1 then (case mk_date y m d of Some x \<Rightarrow> Some x | None \<Rightarrow> try_days y m (d - 1))
      else mk_date y m 1)"
  by pat_completeness auto
termination
  by (relation "measure (\<lambda>(y, m, d). nat d)") auto

declare try_days.simps [simp del]

definition add_months :: "date \<Rightarrow> int \<Rightarrow> date option" where
  "add_months start months =
     (let total = d_month start - 1 + months
      in try_days (d_year start + total div 12) (total mod 12 + 1) (d_day start))"

lemma try_days_eq:
  assumes "1 \<le> y" "y \<le> 9999" "1 \<le> m" "m \<le> 12" "1 \<le> d"
  shows "try_days y m d = Some (Date y m (min d (days_in_month y m)))"
  using assms
proof (induction y m d rule: try_days.induct)
  case (1 y m d)
  consider "d \<le> 1" | "1 < d" "d \<le> days_in_month y m" | "1 < d" "days_in_month y m < d" by linarith
  then show ?case
  proof cases
    case 1
    then show ?thesis
      using "1.prems" days_in_month_bounds [of y m]
      by (subst try_days.simps) (simp add: mk_date_def valid_ymd_def)
  next
    case 2
    then show ?thesis
      using "1.prems" by (subst try_days.simps) (simp add: mk_date_def valid_ymd_def)
  next
    case 3
    then have "mk_date y m d = None" by (simp add: mk_date_def valid_ymd_def)
    then have "try_days y m d = try_days y m (d - 1)"
      using 3 by (subst try_days.simps) simp
    also have "\<dots> = Some (Date y m (min (d - 1) (days_in_month y m)))"
      using "1.IH" \<open>mk_date y m d = None\<close> 3 "1.prems" by simp
    finally show ?thesis using 3 by simp
  qed
qed

lemma add_months_eq:
  assumes "valid_date x" "1 \<le> d_year x + (d_month x - 1 + k) div 12"
    "d_year x + (d_month x - 1 + k) div 12 \<le> 9999"
  shows "add_months x k =
    Some (Date (d_year x + (d_month x - 1 + k) div 12) ((d_month x - 1 + k) mod 12 + 1)
      (min (d_day x) (days_in_month (d_year x + (d_month x - 1 + k) div 12) ((d_month x - 1 + k) mod 12 + 1))))"
proof -
  have "0 \<le> (d_month x - 1 + k) mod 12" "(d_month x - 1 + k) mod 12 < 12" by simp_all
  then show ?thesis
    using assms by (simp add: add_months_def Let_def try_days_eq valid_date_def valid_ymd_def)
qed

lemma add_months_valid: "add_months x k = Some y \<Longrightarrow> valid_date y"
proof -
  have "try_days a m d = Some y \<Longrightarrow> valid_date y" for a m d
  proof (induction a m d rule: try_days.induct)
    case (1 a m d)
    then show ?case
      by (subst (asm) (2) try_days.simps) (auto split: if_splits option.splits dest: mk_date_valid)
  qed
  then show "add_months x k = Some y \<Longrightarrow> valid_date y" by (simp add: add_months_def Let_def)
qed

section \<open>Days\<close>

definition next_day :: "date \<Rightarrow> date option" where
  "next_day x =
     (if d_day x < days_in_month (d_year x) (d_month x) then mk_date (d_year x) (d_month x) (d_day x + 1)
      else if d_month x < 12 then mk_date (d_year x) (d_month x + 1) 1
      else mk_date (d_year x + 1) 1 1)"

definition prev_day :: "date \<Rightarrow> date option" where
  "prev_day x =
     (if d_day x > 1 then mk_date (d_year x) (d_month x) (d_day x - 1)
      else if d_month x > 1
        then mk_date (d_year x) (d_month x - 1) (days_in_month (d_year x) (d_month x - 1))
      else mk_date (d_year x - 1) 12 31)"

primrec iterate_day :: "(date \<Rightarrow> date option) \<Rightarrow> nat \<Rightarrow> date \<Rightarrow> date option" where
  "iterate_day f 0 x = Some x"
| "iterate_day f (Suc n) x = (case f x of None \<Rightarrow> None | Some y \<Rightarrow> iterate_day f n y)"

text \<open>\<open>x + timedelta(days=n)\<close>; \<open>None\<close> is the \<open>OverflowError\<close> outside the years 1 to 9999.\<close>

definition add_days :: "date \<Rightarrow> int \<Rightarrow> date option" where
  "add_days x n = (if 0 \<le> n then iterate_day next_day (nat n) x else iterate_day prev_day (nat (- n)) x)"

lemma next_day_greater: "valid_date x \<Longrightarrow> next_day x = Some y \<Longrightarrow> x < y \<and> valid_date y"
  by (cases x) (auto simp: next_day_def mk_date_def valid_date_def valid_ymd_def split: if_splits)

lemma iterate_next_day: "valid_date x \<Longrightarrow> iterate_day next_day n x = Some y \<Longrightarrow> x \<le> y \<and> valid_date y"
proof (induction n arbitrary: x)
  case 0
  then show ?case by simp
next
  case (Suc n)
  then obtain z where z: "next_day x = Some z" "iterate_day next_day n z = Some y"
    by (auto split: option.splits)
  with next_day_greater [OF Suc.prems(1) z(1)] Suc.IH [of z] show ?case
    using order_trans less_imp_le by blast
qed

lemma add_days_nonneg: "valid_date x \<Longrightarrow> 0 \<le> n \<Longrightarrow> add_days x n = Some y \<Longrightarrow> x \<le> y \<and> valid_date y"
  using iterate_next_day by (simp add: add_days_def)

section \<open>ISO text\<close>

definition pad :: "nat \<Rightarrow> string \<Rightarrow> string" where
  "pad w s = replicate (w - length s) CHR ''0'' @ s"

definition isoformat :: "date \<Rightarrow> string" where
  "isoformat x = pad 4 (str_int (d_year x)) @ ''-'' @ pad 2 (str_int (d_month x)) @ ''-'' @
     pad 2 (str_int (d_day x))"

definition digit_value :: "char \<Rightarrow> int option" where
  "digit_value c = (if CHR ''0'' \<le> c \<and> c \<le> CHR ''9'' then Some (int (of_char c) - 48) else None)"

definition is_digit_char :: "char \<Rightarrow> bool" where
  "is_digit_char c \<longleftrightarrow> CHR ''0'' \<le> c \<and> c \<le> CHR ''9''"

fun digits_value :: "int \<Rightarrow> string \<Rightarrow> int option" where
  "digits_value acc [] = Some acc"
| "digits_value acc (c # s) =
     (case digit_value c of None \<Rightarrow> None | Some v \<Rightarrow> digits_value (acc * 10 + v) s)"

text \<open>The ISO week date: day \<open>d\<close> of week \<open>w\<close>; week 1 is the week of the first Thursday.\<close>

definition jan1_weekday :: "int \<Rightarrow> int" where
  "jan1_weekday y = ((y - 1) * 365 + (y - 1) div 4 - (y - 1) div 100 + (y - 1) div 400 + 7) mod 7"

definition isoweek_date :: "int \<Rightarrow> int \<Rightarrow> int \<Rightarrow> date option" where
  "isoweek_date y w d =
     (if 1 \<le> y \<and> y \<le> 9999 \<and> 1 \<le> w \<and> 1 \<le> d \<and> d \<le> 7 \<and>
         (w \<le> 52 \<or> w = 53 \<and> (jan1_weekday y = 3 \<or> jan1_weekday y = 2 \<and> leap_year y))
      then add_days (Date y 1 1)
             ((if jan1_weekday y > 3 then 7 - jan1_weekday y else - jan1_weekday y) + (w - 1) * 7 + d - 1)
      else None)"

text \<open>
  \<open>date.fromisoformat\<close>: \<open>YYYY-MM-DD\<close>, \<open>YYYYMMDD\<close> and the week forms \<open>YYYY-Www\<close>, \<open>YYYYWww\<close>,
  \<open>YYYY-Www-D\<close>, \<open>YYYYWwwD\<close>.
\<close>

definition fromisoformat :: "string \<Rightarrow> date option" where
  "fromisoformat s =
     (let num = digits_value 0;
          ymd = (\<lambda>y m d. case (num y, num m, num d) of
                   (Some y, Some m, Some d) \<Rightarrow> mk_date y m d | _ \<Rightarrow> None);
          ywd = (\<lambda>y w d. case (num y, num w, num d) of
                   (Some y, Some w, Some d) \<Rightarrow> isoweek_date y w d | _ \<Rightarrow> None)
      in case s of
           [y1, y2, y3, y4, a, b, c, d, e, f] \<Rightarrow>
             (if a = CHR ''-'' \<and> b = CHR ''W'' \<and> e = CHR ''-'' then ywd [y1, y2, y3, y4] [c, d] [f]
              else if a = CHR ''-'' \<and> d = CHR ''-'' then ymd [y1, y2, y3, y4] [b, c] [e, f]
              else None)
         | [y1, y2, y3, y4, a, b, c, d] \<Rightarrow>
             (if a = CHR ''-'' \<and> b = CHR ''W'' then ywd [y1, y2, y3, y4] [c, d] ''1''
              else if a = CHR ''W'' then ywd [y1, y2, y3, y4] [b, c] [d]
              else ymd [y1, y2, y3, y4] [a, b] [c, d])
         | [y1, y2, y3, y4, a, b, c] \<Rightarrow>
             (if a = CHR ''W'' then ywd [y1, y2, y3, y4] [b, c] ''1'' else None)
         | _ \<Rightarrow> None)"

end
