(* ===== verification/AssessPriority.thy ===== *)
theory AssessPriority
  imports Dates
begin

text \<open>
  The first gates of \<^verbatim>\<open>modules/assessment/rules.py\<close>: priority verification (\<open>verify_priority\<close>), the
  date gate (\<open>classify_reference\<close> and its document-level and per-feature forms) and the findings
  they raise.  Wording is modelled by constructors: one per message template of the source, with
  the interpolated values as arguments.
\<close>

section \<open>Data\<close>

record comparison_row =
  feature_code :: string
  doc_id :: string
  cell_judgment :: string

record candidate_document =
  cd_doc_id :: string
  cd_publication_number :: string
  cd_title :: ustr
  source_verified :: bool
  publication_date :: "date option"
  filing_date :: "date option"
  priority_date :: "date option"
  filed_in_china :: bool

definition min_date :: "date list \<Rightarrow> date option" where
  "min_date ds = (case ds of [] \<Rightarrow> None | d # ds' \<Rightarrow> Some (min_key (\<lambda>x. x) d ds'))"

definition effective_filing_date :: "candidate_document \<Rightarrow> date option" where
  "effective_filing_date d =
     min_date (map the (filter (\<lambda>x. x \<noteq> None) [priority_date d, filing_date d]))"

record priority_claim =
  claim_id :: string
  pc_priority_date :: date
  pc_country :: string
  first_application :: bool
  same_subject :: bool
  proof_verified :: bool
  covers :: "string list"

record subject_application =
  subject_filing_date :: date
  subject_priority_date :: "date option"
  priority_claims :: "priority_claim list"
  application_type :: string

definition subject_claims :: "subject_application \<Rightarrow> priority_claim list" where
  "subject_claims s =
     (if priority_claims s \<noteq> [] then priority_claims s
      else case subject_priority_date s of
             None \<Rightarrow> []
           | Some d \<Rightarrow> [\<lparr>claim_id = ''P1'', pc_priority_date = d, pc_country = [],
                         first_application = True, same_subject = True, proof_verified = True,
                         covers = []\<rparr>])"

definition subject_reference_date :: "subject_application \<Rightarrow> date" where
  "subject_reference_date s =
     min (case subject_priority_date s of None \<Rightarrow> subject_filing_date s | Some d \<Rightarrow> d)
       (subject_filing_date s)"

datatype invalid_reason =
    Later_than_filing
  | Term_exceeded int date
  | Not_first_application
  | Not_same_subject

datatype priority_flag =
    Proof_not_verified string
  | Partial_priority date "string list"

record priority_verification =
  default_reference_date :: date
  per_feature_reference_dates :: "(string, date) pydict"
  valid_claims :: "string list"
  invalid_claims :: "(string \<times> invalid_reason) list"
  priority_flags :: "priority_flag list"
  pv_requires_human_confirmation :: bool

definition reference_date_for :: "priority_verification \<Rightarrow> string option \<Rightarrow> date" where
  "reference_date_for v code =
     (case code of
        None \<Rightarrow> default_reference_date v
      | Some c \<Rightarrow> (case map_of (per_feature_reference_dates v) c of
                    None \<Rightarrow> default_reference_date v | Some d \<Rightarrow> d))"

definition PRIORITY_TERM_MONTHS :: "(string, int) pydict" where
  "PRIORITY_TERM_MONTHS = [(''invention'', 12), (''utility_model'', 12), (''design'', 6)]"

definition term_months_of :: "subject_application \<Rightarrow> int" where
  "term_months_of s =
     (case map_of PRIORITY_TERM_MONTHS (application_type s) of None \<Rightarrow> 12 | Some m \<Rightarrow> m)"

section \<open>Priority verification\<close>

datatype rule_error = Date_error

record priority_state =
  ps_valid :: "string list"
  ps_invalid :: "(string \<times> invalid_reason) list"
  ps_flags :: "priority_flag list"
  ps_covered :: "string \<rightharpoonup> date"

text \<open>\<open>previous = covered.get(code); if previous is None or claim.priority_date < previous\<close>.\<close>

definition cover :: "date \<Rightarrow> (string \<rightharpoonup> date) \<Rightarrow> string \<Rightarrow> (string \<rightharpoonup> date)" where
  "cover d covered code =
     (case covered code of
        None \<Rightarrow> covered(code \<mapsto> d)
      | Some previous \<Rightarrow> if d < previous then covered(code \<mapsto> d) else covered)"

text \<open>The four checks in the order of the source; \<open>None\<close> accepts the claim.\<close>

definition claim_defect :: "date \<Rightarrow> int \<Rightarrow> date \<Rightarrow> priority_claim \<Rightarrow> invalid_reason option" where
  "claim_defect filing term_months deadline c =
     (if pc_priority_date c > filing then Some Later_than_filing
      else if filing > deadline then Some (Term_exceeded term_months deadline)
      else if \<not> first_application c then Some Not_first_application
      else if \<not> same_subject c then Some Not_same_subject
      else None)"

definition accept_claim :: "string list \<Rightarrow> priority_claim \<Rightarrow> priority_state \<Rightarrow> priority_state" where
  "accept_claim feature_codes c st =
     st\<lparr>ps_flags := (if \<not> proof_verified c then ps_flags st @ [Proof_not_verified (claim_id c)]
                     else ps_flags st),
        ps_valid := ps_valid st @ [claim_id c],
        ps_covered := foldl (cover (pc_priority_date c)) (ps_covered st)
                        (if covers c \<noteq> [] then covers c else feature_codes)\<rparr>"

fun priority_loop :: "date \<Rightarrow> int \<Rightarrow> string list \<Rightarrow> priority_claim list \<Rightarrow> priority_state
    \<Rightarrow> (rule_error, priority_state) result" where
  "priority_loop filing term_months codes [] st = Inr st"
| "priority_loop filing term_months codes (c # cs) st =
     (case add_months (pc_priority_date c) term_months of
        None \<Rightarrow> Inl Date_error
      | Some deadline \<Rightarrow>
          (case claim_defect filing term_months deadline c of
             Some reason \<Rightarrow>
               priority_loop filing term_months codes cs
                 (st\<lparr>ps_invalid := ps_invalid st @ [(claim_id c, reason)]\<rparr>)
           | None \<Rightarrow> priority_loop filing term_months codes cs (accept_claim codes c st)))"

text \<open>The second loop selects by \<open>claim_id in valid\<close>, that is by name and not by claim.\<close>

fun earliest_loop :: "string list \<Rightarrow> priority_claim list \<Rightarrow> date option \<Rightarrow> date option" where
  "earliest_loop valid [] best = best"
| "earliest_loop valid (c # cs) best =
     earliest_loop valid cs
       (if claim_id c \<in> set valid \<and> (case best of None \<Rightarrow> True | Some b \<Rightarrow> pc_priority_date c < b)
        then Some (pc_priority_date c) else best)"

fun per_feature_loop :: "(string \<rightharpoonup> date) \<Rightarrow> date \<Rightarrow> string list \<Rightarrow> (string, date) pydict
    \<Rightarrow> (string, date) pydict" where
  "per_feature_loop covered filing [] d = d"
| "per_feature_loop covered filing (code # codes) d =
     per_feature_loop covered filing codes
       (dict_put code (min (case covered code of None \<Rightarrow> filing | Some x \<Rightarrow> x) filing) d)"

definition verify_priority :: "subject_application \<Rightarrow> string list
    \<Rightarrow> (rule_error, priority_verification) result" where
  "verify_priority s feature_codes =
     bind_result
       (priority_loop (subject_filing_date s) (term_months_of s) feature_codes (subject_claims s)
          \<lparr>ps_valid = [], ps_invalid = [], ps_flags = [], ps_covered = Map.empty\<rparr>)
       (\<lambda>st. let filing = subject_filing_date s;
                 earliest = earliest_loop (ps_valid st) (subject_claims s) None;
                 uncovered = filter (\<lambda>code. ps_covered st code = None) feature_codes;
                 flags = (if ps_valid st \<noteq> [] \<and> list_ex (\<lambda>code. code \<noteq> []) uncovered
                          then ps_flags st @ [Partial_priority filing (sort uncovered)]
                          else ps_flags st)
             in Inr \<lparr>default_reference_date =
                       min (case earliest of None \<Rightarrow> filing | Some d \<Rightarrow> d) filing,
                     per_feature_reference_dates =
                       per_feature_loop (ps_covered st) filing feature_codes [],
                     valid_claims = ps_valid st, invalid_claims = ps_invalid st,
                     priority_flags = flags,
                     pv_requires_human_confirmation = (ps_invalid st \<noteq> [] \<or> flags \<noteq> [])\<rparr>)"

section \<open>The date gate\<close>

datatype reference_kind = Prior_art | Conflicting_application | Not_usable | Unknown_kind

fun kind_severity :: "reference_kind \<Rightarrow> nat" where
  "kind_severity Prior_art = 0"
| "kind_severity Conflicting_application = 1"
| "kind_severity Not_usable = 2"
| "kind_severity Unknown_kind = 3"

definition gate_date :: "subject_application \<Rightarrow> priority_verification option \<Rightarrow> string option \<Rightarrow> date" where
  "gate_date subject verification code =
     (case (verification, code) of
        (Some v, Some c) \<Rightarrow> reference_date_for v (Some c)
      | (Some v, None) \<Rightarrow> default_reference_date v
      | (None, _) \<Rightarrow> subject_reference_date subject)"

definition classify_reference :: "candidate_document \<Rightarrow> subject_application
    \<Rightarrow> priority_verification option \<Rightarrow> string option \<Rightarrow> reference_kind" where
  "classify_reference document subject verification code =
     (let reference_date = gate_date subject verification code
      in case (publication_date document, effective_filing_date document) of
           (Some published, Some earlier) \<Rightarrow>
             (if published < reference_date then Prior_art
              else if earlier < reference_date \<and> filed_in_china document then Conflicting_application
              else Not_usable)
         | _ \<Rightarrow> Unknown_kind)"

definition rows_by_doc :: "comparison_row list \<Rightarrow> (string, comparison_row list) pydict" where
  "rows_by_doc rows = group_by doc_id rows"

definition document_codes :: "comparison_row list \<Rightarrow> string \<Rightarrow> string list" where
  "document_codes rows d =
     sorted_set (map feature_code (case map_of (rows_by_doc rows) d of None \<Rightarrow> [] | Some rs \<Rightarrow> rs))"

definition document_kind :: "subject_application \<Rightarrow> priority_verification option \<Rightarrow> comparison_row list
    \<Rightarrow> candidate_document \<Rightarrow> reference_kind" where
  "document_kind subject verification rows doc =
     (case (verification, document_codes rows (cd_doc_id doc)) of
        (Some v, code # codes) \<Rightarrow>
          max_key kind_severity (classify_reference doc subject (Some v) (Some code))
            (map (\<lambda>c. classify_reference doc subject (Some v) (Some c)) codes)
      | _ \<Rightarrow> classify_reference doc subject verification None)"

fun classify_loop :: "subject_application \<Rightarrow> priority_verification option \<Rightarrow> comparison_row list
    \<Rightarrow> candidate_document list \<Rightarrow> (string, reference_kind) pydict \<Rightarrow> (string, reference_kind) pydict" where
  "classify_loop subject verification rows [] result = result"
| "classify_loop subject verification rows (doc # docs) result =
     classify_loop subject verification rows docs
       (dict_put (cd_doc_id doc) (document_kind subject verification rows doc) result)"

definition classify_all_references :: "candidate_document list \<Rightarrow> subject_application
    \<Rightarrow> priority_verification option \<Rightarrow> comparison_row list \<Rightarrow> (string, reference_kind) pydict" where
  "classify_all_references documents subject verification rows =
     classify_loop subject verification rows documents []"

definition classify_reference_for_features :: "candidate_document \<Rightarrow> subject_application
    \<Rightarrow> priority_verification \<Rightarrow> string list \<Rightarrow> (string, reference_kind) pydict" where
  "classify_reference_for_features document subject v codes =
     map (\<lambda>code. (code, classify_reference document subject (Some v) (Some code))) (sorted_set codes)"

section \<open>Findings\<close>

datatype risk_kind =
  Novelty | Inventive_combination | Evidence_completeness_risk | Priority_verification_risk
| Reference_eligibility

datatype finding_level = High_novelty_risk | Needs_confirmation | Low_risk

datatype basis_item =
    Basis_valid_claims "string list"
  | Basis_invalid_claims "(string \<times> invalid_reason) list"
  | Basis_reference_date date
  | Basis_doc_kind string reference_kind
  | Basis_row comparison_row
  | Basis_evidence nat "string list"

datatype reasoning =
    Priority_doubtful "invalid_reason list" "priority_flag list"
  | Novelty_only string
  | Published_too_late string date
  | Dates_missing string
  | Covers_all_identically string bool int
  | Covers_all_with_equivalents string bool
  | Pair_covers_all string string int
  | Evidence_lacking "string list" nat "string list"
  | Evidence_complete

record assessment_finding =
  finding_risk_kind :: risk_kind
  finding_level :: finding_level
  basis :: "basis_item list"
  requires_human_confirmation :: bool
  finding_reasoning :: reasoning
  finding_rules_version :: string

definition ASSESSMENT_RULES_VERSION :: string where
  "ASSESSMENT_RULES_VERSION = ''assessment-rules-v3''"

definition priority_verification_findings :: "subject_application \<Rightarrow> string list
    \<Rightarrow> (rule_error, assessment_finding list) result" where
  "priority_verification_findings subject codes =
     bind_result (verify_priority subject codes) (\<lambda>v.
       if invalid_claims v = [] \<and> priority_flags v = [] then Inr []
       else Inr
         [\<lparr>finding_risk_kind = Priority_verification_risk, finding_level = Needs_confirmation,
           basis = [Basis_valid_claims (valid_claims v), Basis_invalid_claims (invalid_claims v),
                    Basis_reference_date (default_reference_date v)],
           requires_human_confirmation = True,
           finding_reasoning = Priority_doubtful (map snd (invalid_claims v)) (priority_flags v),
           finding_rules_version = ASSESSMENT_RULES_VERSION\<rparr>])"

definition eligibility_finding :: "string \<Rightarrow> reference_kind \<Rightarrow> reasoning \<Rightarrow> assessment_finding" where
  "eligibility_finding d kind r =
     \<lparr>finding_risk_kind = Reference_eligibility, finding_level = Needs_confirmation,
      basis = [Basis_doc_kind d kind], requires_human_confirmation = True,
      finding_reasoning = r, finding_rules_version = ASSESSMENT_RULES_VERSION\<rparr>"

definition document_finding :: "subject_application \<Rightarrow> priority_verification option
    \<Rightarrow> (string, reference_kind) pydict \<Rightarrow> candidate_document \<Rightarrow> assessment_finding list" where
  "document_finding subject verification kinds doc =
     (let d = cd_doc_id doc;
          kind = (case map_of kinds d of None \<Rightarrow> Unknown_kind | Some k \<Rightarrow> k)
      in case kind of
           Prior_art \<Rightarrow> []
         | Conflicting_application \<Rightarrow> [eligibility_finding d kind (Novelty_only d)]
         | Not_usable \<Rightarrow>
             [eligibility_finding d kind
                (Published_too_late d
                   (case verification of Some v \<Rightarrow> default_reference_date v
                                       | None \<Rightarrow> subject_reference_date subject))]
         | Unknown_kind \<Rightarrow> [eligibility_finding d kind (Dates_missing d)])"

definition reference_eligibility_findings :: "candidate_document list \<Rightarrow> subject_application
    \<Rightarrow> priority_verification option \<Rightarrow> (string, reference_kind) pydict \<Rightarrow> assessment_finding list" where
  "reference_eligibility_findings documents subject verification kinds =
     (let resolved = (if kinds \<noteq> [] then kinds
                      else classify_all_references documents subject verification [])
      in concat (map (document_finding subject verification resolved) documents))"

section \<open>What priority verification computes\<close>

text \<open>
  A priority claim that holds: it is not later than the filing, the filing is within the term, it is the first
  application, and it is of the same subject; and whether a claim covers a feature.
\<close>

definition accepted :: "date \<Rightarrow> int \<Rightarrow> priority_claim \<Rightarrow> bool" where
  "accepted filing term_months c \<longleftrightarrow>
     pc_priority_date c \<le> filing
     \<and> (\<exists>deadline. add_months (pc_priority_date c) term_months = Some deadline \<and> filing \<le> deadline)
     \<and> first_application c \<and> same_subject c"

lemma accepted_checks:
  "accepted filing term_months c \<longleftrightarrow>
     (case add_months (pc_priority_date c) term_months of
        None \<Rightarrow> False
      | Some deadline \<Rightarrow> claim_defect filing term_months deadline c = None)"
  by (auto simp: accepted_def claim_defect_def split: option.splits if_splits)

definition covers_code :: "string list \<Rightarrow> priority_claim \<Rightarrow> string \<Rightarrow> bool" where
  "covers_code codes c code \<longleftrightarrow> code \<in> set (if covers c \<noteq> [] then covers c else codes)"

text \<open>The date the code reads out of \<open>covered\<close>, and how \<open>cover\<close> moves it.\<close>

definition capped :: "date \<Rightarrow> date option \<Rightarrow> date" where
  "capped filing x = min (case x of None \<Rightarrow> filing | Some d \<Rightarrow> d) filing"

lemma capped_cover:
  "capped filing (cover d covered code' code) =
     (if code = code' then min d (capped filing (covered code)) else capped filing (covered code))"
  by (auto simp: capped_def cover_def min_def split: option.splits)

lemma capped_foldl_cover:
  "capped filing (foldl (cover d) covered codes code) =
     (if code \<in> set codes then min d (capped filing (covered code)) else capped filing (covered code))"
  by (induction codes arbitrary: covered) (auto simp: capped_cover min_def)

lemma Min_insert_min:
  "finite S \<Longrightarrow> Min (insert (min d x) S) = Min (insert x (insert (d::'a::linorder) S))"
  by (cases "S = {}") (simp_all add: min.left_commute min.commute)

lemma priority_loop_spec:
  assumes "priority_loop filing k codes cs st = Inr st'"
  shows "ps_valid st' = ps_valid st @ map claim_id (filter (accepted filing k) cs)"
    and "map fst (ps_invalid st') =
           map fst (ps_invalid st) @ map claim_id (filter (\<lambda>c. \<not> accepted filing k c) cs)"
    and "capped filing (ps_covered st' code) =
           Min (insert (capped filing (ps_covered st code))
                 (pc_priority_date ` {c \<in> set cs. accepted filing k c \<and> covers_code codes c code}))"
proof -
  have "ps_valid st' = ps_valid st @ map claim_id (filter (accepted filing k) cs) \<and>
    map fst (ps_invalid st') =
      map fst (ps_invalid st) @ map claim_id (filter (\<lambda>c. \<not> accepted filing k c) cs) \<and>
    capped filing (ps_covered st' code) =
      Min (insert (capped filing (ps_covered st code))
            (pc_priority_date ` {c \<in> set cs. accepted filing k c \<and> covers_code codes c code}))"
    using assms
  proof (induction filing k codes cs st rule: priority_loop.induct)
    case (1 filing k codes st)
    then show ?case by simp
  next
    case (2 filing k codes c cs st)
    obtain deadline where dl: "add_months (pc_priority_date c) k = Some deadline"
      using "2.prems" by (cases "add_months (pc_priority_date c) k") auto
    show ?case
    proof (cases "claim_defect filing k deadline c")
      case (Some reason)
      then have "\<not> accepted filing k c" by (simp add: accepted_checks dl)
      moreover have "{x. (x = c \<or> x \<in> set cs) \<and> accepted filing k x \<and> covers_code codes x code} =
          {x \<in> set cs. accepted filing k x \<and> covers_code codes x code}"
        using calculation by auto
      ultimately show ?thesis
        using "2.IH"(2) [OF dl Some] "2.prems" dl Some by simp
    next
      case None
      then have acc: "accepted filing k c" by (simp add: accepted_checks dl)
      let ?S = "{x \<in> set cs. accepted filing k x \<and> covers_code codes x code}"
      have S: "{x. (x = c \<or> x \<in> set cs) \<and> accepted filing k x \<and> covers_code codes x code} =
          (if covers_code codes c code then insert c ?S else ?S)"
        using acc by auto
      have fin: "finite (pc_priority_date ` ?S)" by simp
      have step: "capped filing (ps_covered (accept_claim codes c st) code) =
          (if covers_code codes c code
           then min (pc_priority_date c) (capped filing (ps_covered st code))
           else capped filing (ps_covered st code))"
        by (simp add: accept_claim_def covers_code_def capped_foldl_cover)
      show ?thesis
        using "2.IH"(1) [OF dl None] "2.prems" dl None acc
        by (simp add: S step Min_insert_min [OF fin]) (simp add: accept_claim_def)
    qed
  qed
  then show "ps_valid st' = ps_valid st @ map claim_id (filter (accepted filing k) cs)"
    and "map fst (ps_invalid st') =
           map fst (ps_invalid st) @ map claim_id (filter (\<lambda>c. \<not> accepted filing k c) cs)"
    and "capped filing (ps_covered st' code) =
           Min (insert (capped filing (ps_covered st code))
                 (pc_priority_date ` {c \<in> set cs. accepted filing k c \<and> covers_code codes c code}))"
    by blast+
qed

lemma earliest_loop_spec:
  "capped filing (earliest_loop valid cs best) =
     Min (insert (capped filing best) (pc_priority_date ` {c \<in> set cs. claim_id c \<in> set valid}))"
proof (induction valid cs best rule: earliest_loop.induct)
  case (1 valid best)
  show ?case by simp
next
  case (2 valid c cs best)
  let ?S = "{x \<in> set cs. claim_id x \<in> set valid}"
  have S: "{x. (x = c \<or> x \<in> set cs) \<and> claim_id x \<in> set valid} =
      (if claim_id c \<in> set valid then insert c ?S else ?S)" by auto
  have fin: "finite (pc_priority_date ` ?S)" by simp
  let ?best = "if claim_id c \<in> set valid \<and> (case best of None \<Rightarrow> True | Some b \<Rightarrow> pc_priority_date c < b)
        then Some (pc_priority_date c) else best"
  have step: "capped filing ?best =
      (if claim_id c \<in> set valid then min (pc_priority_date c) (capped filing best)
       else capped filing best)"
    by (auto simp: capped_def min_def split: option.splits)
  show ?case
    using "2.IH" by (simp only: earliest_loop.simps step) (simp add: S Min_insert_min [OF fin])
qed

lemma per_feature_loop_map:
  "map_of (per_feature_loop covered filing codes d) code =
     (if code \<in> set codes then Some (capped filing (covered code)) else map_of d code)"
  by (induction covered filing codes d rule: per_feature_loop.induct)
    (auto simp: map_of_dict_put capped_def)

lemma verify_priority_unfold:
  assumes "verify_priority s codes = Inr v"
  shows "\<exists>st. priority_loop (subject_filing_date s) (term_months_of s) codes (subject_claims s)
        \<lparr>ps_valid = [], ps_invalid = [], ps_flags = [], ps_covered = Map.empty\<rparr> = Inr st \<and>
      valid_claims v = ps_valid st \<and> invalid_claims v = ps_invalid st \<and>
      default_reference_date v =
        capped (subject_filing_date s) (earliest_loop (ps_valid st) (subject_claims s) None) \<and>
      per_feature_reference_dates v =
        per_feature_loop (ps_covered st) (subject_filing_date s) codes []"
  using assms by (fastforce simp: verify_priority_def Let_def capped_def)

lemma capped_None [simp]: "capped filing None = filing"
  by (simp add: capped_def)

definition sound_claims :: "subject_application \<Rightarrow> priority_claim set" where
  "sound_claims s = {c \<in> set (subject_claims s). accepted (subject_filing_date s) (term_months_of s) c}"

lemma verify_priority_valid:
  assumes "verify_priority s codes = Inr v"
  shows "set (valid_claims v) = claim_id ` sound_claims s"
  using verify_priority_unfold [OF assms] priority_loop_spec(1)
  by (fastforce simp: sound_claims_def)

lemma verify_priority_feature:
  assumes "verify_priority s codes = Inr v" "code \<in> set codes"
  shows "reference_date_for v (Some code) =
    Min (insert (subject_filing_date s)
          (pc_priority_date ` {c \<in> sound_claims s. covers_code codes c code}))"
proof -
  obtain st where st: "priority_loop (subject_filing_date s) (term_months_of s) codes (subject_claims s)
        \<lparr>ps_valid = [], ps_invalid = [], ps_flags = [], ps_covered = Map.empty\<rparr> = Inr st"
      "per_feature_reference_dates v = per_feature_loop (ps_covered st) (subject_filing_date s) codes []"
    using verify_priority_unfold [OF assms(1)] by metis
  have "{c \<in> sound_claims s. covers_code codes c code} =
      {c \<in> set (subject_claims s). accepted (subject_filing_date s) (term_months_of s) c \<and>
         covers_code codes c code}"
    by (auto simp: sound_claims_def)
  with priority_loop_spec(3) [OF st(1), of code] assms(2) show ?thesis
    by (simp add: reference_date_for_def st(2) per_feature_loop_map)
qed

lemma verify_priority_default:
  assumes "verify_priority s codes = Inr v"
  shows "default_reference_date v =
    Min (insert (subject_filing_date s)
          (pc_priority_date ` {c \<in> set (subject_claims s). claim_id c \<in> claim_id ` sound_claims s}))"
proof -
  obtain st :: priority_state where st: "valid_claims v = ps_valid st" "default_reference_date v =
        capped (subject_filing_date s) (earliest_loop (ps_valid st) (subject_claims s) None)"
    using verify_priority_unfold [OF assms] by metis
  have "set (ps_valid st) = claim_id ` sound_claims s"
    using verify_priority_valid [OF assms] st(1) by simp
  then show ?thesis
    unfolding st(2) earliest_loop_spec by simp
qed

section \<open>The document-level gate is the most cautious one\<close>

lemma map_of_classify_loop:
  "distinct (map cd_doc_id docs) \<Longrightarrow> doc \<in> set docs \<Longrightarrow>
     map_of (classify_loop subject v rows docs result) (cd_doc_id doc) =
       Some (document_kind subject v rows doc)"
proof (induction subject v rows docs result rule: classify_loop.induct)
  case (1 subject v rows result)
  then show ?case by simp
next
  case (2 subject v rows d docs result)
  have other: "d' \<notin> cd_doc_id ` set docs \<Longrightarrow>
      map_of (classify_loop subject v rows docs r) d' = map_of r d'" for d' r
    by (induction subject v rows docs r rule: classify_loop.induct) (auto simp: map_of_dict_put)
  show ?case
    using 2 other by (cases "doc = d") (auto simp: map_of_dict_put)
qed

lemma document_kind_codes:
  assumes "r \<in> set rows" "doc_id r = cd_doc_id doc"
  shows "kind_severity (classify_reference doc subject (Some v) (Some (feature_code r)))
    \<le> kind_severity (document_kind subject (Some v) rows doc)"
proof -
  have "cd_doc_id doc \<in> doc_id ` set rows" using assms by (metis imageI)
  then have "feature_code r \<in> set (document_codes rows (cd_doc_id doc))"
    using assms by (auto simp: document_codes_def rows_by_doc_def map_of_group_by)
  then obtain code codes where codes: "document_codes rows (cd_doc_id doc) = code # codes"
      "feature_code r \<in> set (code # codes)"
    by (metis list.exhaust list.distinct(1) list.set_cases)
  then show ?thesis
    by (auto simp: document_kind_def intro!: max_key_ge)
qed

lemma kind_severity_0_iff [simp]: "kind_severity k = 0 \<longleftrightarrow> k = Prior_art"
  by (cases k) simp_all

lemma classify_Prior_art_iff:
  "classify_reference doc subject v code = Prior_art \<longleftrightarrow>
     (\<exists>published earlier. publication_date doc = Some published \<and>
        effective_filing_date doc = Some earlier \<and> published < gate_date subject v code)"
  by (auto simp: classify_reference_def Let_def split: option.splits)

section \<open>The properties\<close>

definition sample_priority :: "string \<Rightarrow> date \<Rightarrow> bool \<Rightarrow> string list \<Rightarrow> priority_claim" where
  "sample_priority i d first cs =
     \<lparr>claim_id = i, pc_priority_date = d, pc_country = ''CN'', first_application = first,
      same_subject = True, proof_verified = True, covers = cs\<rparr>"

definition sample_subject :: "priority_claim list \<Rightarrow> subject_application" where
  "sample_subject cs =
     \<lparr>subject_filing_date = Date 2024 6 1, subject_priority_date = None, priority_claims = cs,
      application_type = ''invention''\<rparr>"

definition two_priorities :: subject_application where
  "two_priorities = sample_subject
     [sample_priority ''P1'' (Date 2023 9 1) True [''F1''], sample_priority ''P2'' (Date 2023 7 1) False []]"

lemmas sample_priority_simps = sample_priority_def sample_subject_def two_priorities_def

lemma two_priorities_run:
  "\<exists>v. verify_priority two_priorities [''F1'', ''F2''] = Inr v \<and>
     default_reference_date v = Date 2023 9 1 \<and>
     reference_date_for v (Some ''F1'') = Date 2023 9 1 \<and>
     reference_date_for v (Some ''F2'') = Date 2024 6 1"
  by (simp add: verify_priority_def sample_priority_simps subject_claims_def term_months_of_def
      PRIORITY_TERM_MONTHS_def add_months_def try_days.simps mk_date_def valid_ymd_def
      days_in_month_def claim_defect_def accept_claim_def cover_def reference_date_for_def min_def Let_def)



definition colliding_priorities :: subject_application where
  "colliding_priorities = sample_subject
     [sample_priority ''P1'' (Date 2024 2 1) True [], sample_priority ''P1'' (Date 2023 7 1) False []]"

lemma colliding_priorities_run:
  "\<exists>v. verify_priority colliding_priorities [''F1''] = Inr v \<and>
     default_reference_date v = Date 2023 7 1"
  by (simp add: verify_priority_def sample_priority_simps colliding_priorities_def subject_claims_def
      term_months_of_def PRIORITY_TERM_MONTHS_def add_months_def try_days.simps mk_date_def
      valid_ymd_def days_in_month_def claim_defect_def accept_claim_def cover_def min_def Let_def)

lemma colliding_priorities_sound:
  "sound_claims colliding_priorities = {sample_priority ''P1'' (Date 2024 2 1) True []}"
  by (auto simp: sound_claims_def accepted_def sample_priority_simps colliding_priorities_def
      subject_claims_def term_months_of_def PRIORITY_TERM_MONTHS_def add_months_def try_days.simps
      mk_date_def valid_ymd_def days_in_month_def)

text \<open>
  The distinctness of claim identifiers matters.  \<open>verify_priority\<close> picks the earliest valid
  claim by name, so when a rejected claim shares its identifier with an accepted one, the rejected
  claim's earlier date becomes the default reference date although no accepted claim has it.
\<close>

lemma verify_priority_colliding_ids:
  "\<exists>s v. verify_priority s [''F1''] = Inr v \<and>
     default_reference_date v <
       Min (insert (subject_filing_date s) (pc_priority_date ` sound_claims s)) \<and>
     default_reference_date v \<in>
       pc_priority_date ` {c \<in> set (subject_claims s). \<not> first_application c}"
proof -
  obtain v where v: "verify_priority colliding_priorities [''F1''] = Inr v"
      "default_reference_date v = Date 2023 7 1"
    using colliding_priorities_run by blast
  have lt: "default_reference_date v <
      Min (insert (subject_filing_date colliding_priorities) (pc_priority_date ` sound_claims colliding_priorities))"
    unfolding v(2) colliding_priorities_sound
    by (simp add: colliding_priorities_def sample_priority_simps)
  have "sample_priority ''P1'' (Date 2023 7 1) False [] \<in>
      {c \<in> set (subject_claims colliding_priorities). \<not> first_application c}"
    by (simp add: colliding_priorities_def sample_priority_simps subject_claims_def)
  from imageI [OF this, of pc_priority_date] have mem: "default_reference_date v \<in>
      pc_priority_date ` {c \<in> set (subject_claims colliding_priorities). \<not> first_application c}"
    unfolding v(2) by (simp only: sample_priority_def priority_claim.simps)
  from v(1) lt mem show ?thesis
    by (intro exI [of _ colliding_priorities] exI [of _ v] conjI)
qed

lemma date_gate_facts:
  assumes "distinct (map cd_doc_id docs)" and "doc \<in> set docs"
    and "r \<in> set rows" and "doc_id r = cd_doc_id doc"
    and "map_of (classify_all_references docs subject (Some v) rows) (cd_doc_id doc) = Some kind"
  shows "kind_severity (classify_reference doc subject (Some v) (Some (feature_code r))) \<le> kind_severity kind
    \<and> (kind = Prior_art \<longrightarrow> (\<exists>published. publication_date doc = Some published \<and>
         published < reference_date_for v (Some (feature_code r))))"
proof -
  have kind: "kind = document_kind subject (Some v) rows doc"
    using assms(5) map_of_classify_loop [OF assms(1,2)] by (simp add: classify_all_references_def)
  then have le: "kind_severity (classify_reference doc subject (Some v) (Some (feature_code r)))
      \<le> kind_severity kind"
    using document_kind_codes [OF assms(3,4)] by simp
  then show ?thesis
    using classify_Prior_art_iff [of doc subject "Some v" "Some (feature_code r)"]
    by (auto simp: gate_date_def)
qed

text \<open>
  C15: the date gate is conservative under partial priority.  A document classified as prior art for
  the case was published strictly before the reference date of every feature it is compared on,
  and no per-feature classification is more cautious than the document-level one.
\<close>

theorem date_gate_conservative:
  assumes "distinct (map cd_doc_id docs)" and "doc \<in> set docs"
    and "r \<in> set rows" and "doc_id r = cd_doc_id doc"
    and "map_of (classify_all_references docs subject (Some v) rows) (cd_doc_id doc) = Some kind"
  shows "kind_severity (classify_reference doc subject (Some v) (Some (feature_code r))) \<le> kind_severity kind
    \<and> (kind = Prior_art \<longrightarrow> (\<exists>published. publication_date doc = Some published \<and>
         published < reference_date_for v (Some (feature_code r))))"
  using date_gate_facts [OF assms] .

definition sample_document :: "string \<Rightarrow> date option \<Rightarrow> date option \<Rightarrow> candidate_document" where
  "sample_document i published filed =
     \<lparr>cd_doc_id = i, cd_publication_number = i, cd_title = [], source_verified = True,
      publication_date = published, filing_date = filed, priority_date = None, filed_in_china = True\<rparr>"

theorem date_gate_conservative_witness:
  "\<exists>v kind. verify_priority two_priorities [''F1'', ''F2''] = Inr v \<and>
     kind_severity (classify_reference (sample_document ''D1'' (Some (Date 2023 12 1)) (Some (Date 2022 1 1)))
       two_priorities (Some v) (Some ''F2'')) \<le> kind_severity kind \<and> kind = Conflicting_application"
proof -
  let ?doc = "sample_document ''D1'' (Some (Date 2023 12 1)) (Some (Date 2022 1 1))"
  let ?rows = "[\<lparr>feature_code = ''F1'', doc_id = ''D1'', cell_judgment = ''identical''\<rparr>,
                \<lparr>feature_code = ''F2'', doc_id = ''D1'', cell_judgment = ''identical''\<rparr>]"
  obtain v where v: "verify_priority two_priorities [''F1'', ''F2''] = Inr v"
      "default_reference_date v = Date 2023 9 1"
      "reference_date_for v (Some ''F1'') = Date 2023 9 1"
      "reference_date_for v (Some ''F2'') = Date 2024 6 1"
    using two_priorities_run by blast
  have kind: "map_of (classify_all_references [?doc] two_priorities (Some v) ?rows) (cd_doc_id ?doc) =
      Some Conflicting_application"
    by (simp add: classify_all_references_def document_kind_def document_codes_def rows_by_doc_def
        group_by_def sorted_set_def sample_document_def classify_reference_def gate_date_def v
        effective_filing_date_def min_date_def Let_def)
  have "kind_severity (classify_reference ?doc two_priorities (Some v) (Some ''F2''))
      \<le> kind_severity Conflicting_application"
    using date_gate_conservative [of "[?doc]" ?doc "?rows ! 1" ?rows, OF _ _ _ _ kind]
    by (simp add: sample_document_def)
  with v(1) show ?thesis by blast
qed

end
