(* ===== verification/AssessGates.thy ===== *)
theory AssessGates
  imports AssessPriority
begin

text \<open>
  The coverage gates of \<^verbatim>\<open>modules/assessment/rules.py\<close>: the single-reference novelty gate, the
  screening of document pairs, the completeness finding, and steps 1 and 2 of the three-step
  method.  All of them read the confirmed matrix cells grouped by document.
\<close>

section \<open>Judgments\<close>

definition COVERING_JUDGMENTS :: "string list" where
  "COVERING_JUDGMENTS = [''identical'', ''equivalent'']"

definition SINGLE_REFERENCE_JUDGMENTS :: "string list" where
  "SINGLE_REFERENCE_JUDGMENTS = [''identical'']"

definition JUDGMENT_PRECEDENCE :: "(string, int) pydict" where
  "JUDGMENT_PRECEDENCE =
     [(''identical'', 3), (''equivalent'', 2), (''different'', 1), (''insufficient_evidence'', 0)]"

definition judgment_precedence :: "string \<Rightarrow> int" where
  "judgment_precedence j = (case map_of JUDGMENT_PRECEDENCE j of None \<Rightarrow> -1 | Some p \<Rightarrow> p)"

definition covering :: "string \<Rightarrow> bool" where
  "covering j \<longleftrightarrow> j \<in> set COVERING_JUDGMENTS"

lemma covering_iff_precedence: "covering j \<longleftrightarrow> 2 \<le> judgment_precedence j"
  by (auto simp: covering_def COVERING_JUDGMENTS_def judgment_precedence_def
      JUDGMENT_PRECEDENCE_def)

text \<open>\<open>{r.feature_code for r in doc_rows if r.judgment in S}\<close>, counted.\<close>

definition codes_with :: "(string \<Rightarrow> bool) \<Rightarrow> comparison_row list \<Rightarrow> string list" where
  "codes_with P rows = map feature_code (filter (\<lambda>r. P (cell_judgment r)) rows)"

text \<open>\<open>_feature_codes\<close>: the codes in order of first occurrence.\<close>

definition feature_codes :: "comparison_row list \<Rightarrow> string list" where
  "feature_codes rows = dedup (map feature_code rows)"

section \<open>The novelty gate\<close>

definition novelty_basis :: "comparison_row list \<Rightarrow> basis_item list" where
  "novelty_basis doc_rows = map Basis_row (sort_key feature_code doc_rows)"

definition novelty_document :: "int \<Rightarrow> (string, reference_kind) pydict \<Rightarrow> string \<times> comparison_row list
    \<Rightarrow> assessment_finding list" where
  "novelty_document total_features kinds = (\<lambda>(d, doc_rows).
     if map_of kinds d = Some Not_usable \<or> map_of kinds d = Some Unknown_kind then []
     else
       let conflicting = (map_of kinds d = Some Conflicting_application);
           identical = count_set (codes_with (\<lambda>j. j \<in> set SINGLE_REFERENCE_JUDGMENTS) doc_rows)
       in if int identical = total_features then
            [\<lparr>finding_risk_kind = Novelty, finding_level = High_novelty_risk,
              basis = novelty_basis doc_rows, requires_human_confirmation = False,
              finding_reasoning = Covers_all_identically d conflicting total_features,
              finding_rules_version = ASSESSMENT_RULES_VERSION\<rparr>]
          else if int (count_set (codes_with covering doc_rows)) = total_features then
            [\<lparr>finding_risk_kind = Novelty, finding_level = Needs_confirmation,
              basis = novelty_basis doc_rows, requires_human_confirmation = True,
              finding_reasoning = Covers_all_with_equivalents d conflicting,
              finding_rules_version = ASSESSMENT_RULES_VERSION\<rparr>]
          else [])"

definition novelty_findings :: "comparison_row list \<Rightarrow> int \<Rightarrow> (string, reference_kind) pydict
    \<Rightarrow> assessment_finding list" where
  "novelty_findings rows total_features kinds =
     (if total_features \<le> 0 then []
      else concat (map (novelty_document total_features kinds) (sort_key fst (rows_by_doc rows))))"

section \<open>Screening of document pairs\<close>

definition kind_or_prior_art :: "(string, reference_kind) pydict \<Rightarrow> string \<Rightarrow> reference_kind" where
  "kind_or_prior_art kinds d = (case map_of kinds d of None \<Rightarrow> Prior_art | Some k \<Rightarrow> k)"

text \<open>The best judgment per feature over the rows of both documents.\<close>

fun best_cells :: "comparison_row list \<Rightarrow> (string, string) pydict \<Rightarrow> (string, string) pydict" where
  "best_cells [] cells = cells"
| "best_cells (r # rs) cells =
     best_cells rs
       (if (case map_of cells (feature_code r) of
              None \<Rightarrow> True
            | Some j \<Rightarrow> judgment_precedence (cell_judgment r) > judgment_precedence j)
        then dict_put (feature_code r) (cell_judgment r) cells else cells)"

definition covered_codes :: "(string, string) pydict \<Rightarrow> string list" where
  "covered_codes cells = map fst (filter (\<lambda>(_, j). covering j) cells)"

fun pairs :: "'a list \<Rightarrow> ('a \<times> 'a) list" where
  "pairs [] = []"
| "pairs (x # xs) = map (\<lambda>y. (x, y)) xs @ pairs xs"

definition doc_rows_of :: "(string, comparison_row list) pydict \<Rightarrow> string \<Rightarrow> comparison_row list" where
  "doc_rows_of grouped d = (case map_of grouped d of None \<Rightarrow> [] | Some rs \<Rightarrow> rs)"

definition combination_pair :: "int \<Rightarrow> (string, comparison_row list) pydict \<Rightarrow> string \<times> string
    \<Rightarrow> assessment_finding list" where
  "combination_pair total_features grouped = (\<lambda>(first, second).
     let both = doc_rows_of grouped first @ doc_rows_of grouped second;
         cells = best_cells both []
     in if int (count_set (covered_codes cells)) = total_features then
          [\<lparr>finding_risk_kind = Inventive_combination, finding_level = Needs_confirmation,
            basis = map Basis_row both, requires_human_confirmation = True,
            finding_reasoning = Pair_covers_all first second total_features,
            finding_rules_version = ASSESSMENT_RULES_VERSION\<rparr>]
        else [])"

definition combination_documents :: "(string, comparison_row list) pydict
    \<Rightarrow> (string, reference_kind) pydict \<Rightarrow> string list" where
  "combination_documents grouped kinds =
     sort (filter (\<lambda>d. kind_or_prior_art kinds d = Prior_art) (map fst grouped))"

definition combination_findings :: "comparison_row list \<Rightarrow> int \<Rightarrow> (string, reference_kind) pydict
    \<Rightarrow> assessment_finding list" where
  "combination_findings rows total_features kinds =
     (if total_features \<le> 0 then []
      else let grouped = rows_by_doc rows; ids = combination_documents grouped kinds
           in if length ids < 2 then [] else concat (map (combination_pair total_features grouped) (pairs ids)))"

section \<open>The completeness finding\<close>

definition missing_cell_count :: "int \<Rightarrow> comparison_row list \<Rightarrow> nat" where
  "missing_cell_count total_features rows = nat (max (total_features - int (count_set (map feature_code rows))) 0)"

definition evidence_completeness_finding :: "comparison_row list \<Rightarrow> int \<Rightarrow> candidate_document list
    \<Rightarrow> assessment_finding" where
  "evidence_completeness_finding rows total_features documents =
     (let covered = codes_with (\<lambda>j. covering j \<or> j = ''different'') rows;
          uncovered = filter (\<lambda>c. c \<notin> set covered) (feature_codes rows);
          missing = missing_cell_count total_features rows;
          unverified = map cd_doc_id (filter (\<lambda>d. \<not> source_verified d) documents);
          lacking = (uncovered \<noteq> [] \<or> missing \<noteq> 0 \<or> unverified \<noteq> [])
      in \<lparr>finding_risk_kind = Evidence_completeness_risk,
          finding_level = (if lacking then Needs_confirmation else Low_risk),
          basis = [Basis_evidence missing unverified], requires_human_confirmation = True,
          finding_reasoning =
            (if lacking then Evidence_lacking uncovered missing unverified else Evidence_complete),
          finding_rules_version = ASSESSMENT_RULES_VERSION\<rparr>)"

section \<open>Steps 1 and 2 of the three-step method\<close>

record three_step_scaffold =
  closest_prior_art :: string
  closest_prior_art_identical :: nat
  distinguishing_features :: "string list"
  scaffold_rules_version :: string

definition scaffold_groups :: "comparison_row list \<Rightarrow> (string, reference_kind) pydict
    \<Rightarrow> (string, comparison_row list) pydict" where
  "scaffold_groups rows kinds =
     filter (\<lambda>(d, _). kind_or_prior_art kinds d = Prior_art) (rows_by_doc rows)"

definition scaffold_score :: "string \<times> comparison_row list \<Rightarrow> int \<times> nat \<times> string" where
  "scaffold_score = (\<lambda>(d, rs).
     (- int (length (filter (\<lambda>r. cell_judgment r = ''identical'') rs)),
      length (filter (\<lambda>r. cell_judgment r = ''insufficient_evidence'') rs), d))"

definition three_step :: "comparison_row list \<Rightarrow> (string, reference_kind) pydict
    \<Rightarrow> three_step_scaffold option" where
  "three_step rows kinds =
     (case scaffold_groups rows kinds of
        [] \<Rightarrow> None
      | g # gs \<Rightarrow>
          (let closest = min_key scaffold_score g gs;
               identical = codes_with (\<lambda>j. j = ''identical'') (snd closest)
           in Some \<lparr>closest_prior_art = fst closest,
                    closest_prior_art_identical = count_set identical,
                    distinguishing_features =
                      filter (\<lambda>c. c \<notin> set identical) (feature_codes rows),
                    scaffold_rules_version = ASSESSMENT_RULES_VERSION\<rparr>))"

section \<open>What the gates decide\<close>

definition cell :: "comparison_row list \<Rightarrow> string \<Rightarrow> string \<Rightarrow> string \<Rightarrow> bool" where
  "cell rows d c j \<longleftrightarrow>
     (\<exists>r \<in> set rows. doc_id r = d \<and> feature_code r = c \<and> cell_judgment r = j)"

definition all_codes :: "comparison_row list \<Rightarrow> string set" where
  "all_codes rows = feature_code ` set rows"

lemma set_codes_with:
  "set (codes_with P (filter (\<lambda>r. doc_id r = d) rows)) = {c. \<exists>j. P j \<and> cell rows d c j}"
  by (auto simp: codes_with_def cell_def image_iff)

lemma rows_by_doc_entry_iff:
  "(d, rs) \<in> set (rows_by_doc rows) \<longleftrightarrow>
     rs = filter (\<lambda>r. doc_id r = d) rows \<and> d \<in> doc_id ` set rows"
  unfolding rows_by_doc_def using group_by_entry [of d rs doc_id rows]
    group_by_mem [of _ rows doc_id] by blast

text \<open>A set of codes of the matrix that is as large as the matrix has codes is all of them.\<close>

lemma count_all_codes:
  assumes "set xs \<subseteq> all_codes rows"
  shows "count_set xs = card (all_codes rows) \<longleftrightarrow> set xs = all_codes rows"
  using assms card_subset_eq [of "all_codes rows" "set xs"]
  by (auto simp: count_set_card all_codes_def)

lemma cells_in_all_codes: "{c. \<exists>j. P j \<and> cell rows d c j} \<subseteq> all_codes rows"
  by (auto simp: cell_def all_codes_def)

lemma map_of_best_cells:
  "map_of (best_cells rs cells) c =
     (case map_of cells c of
        None \<Rightarrow> (case filter (\<lambda>r. feature_code r = c) rs of
                  [] \<Rightarrow> None
                | r # rest \<Rightarrow> Some (max_key judgment_precedence (cell_judgment r) (map cell_judgment rest)))
      | Some j \<Rightarrow> Some (max_key judgment_precedence j
                     (map cell_judgment (filter (\<lambda>r. feature_code r = c) rs))))"
  by (induction rs cells rule: best_cells.induct)
    (auto simp: map_of_dict_put split: option.splits list.splits)

lemma distinct_best_cells: "distinct (map fst cells) \<Longrightarrow> distinct (map fst (best_cells rs cells))"
  by (induction rs cells rule: best_cells.induct) auto

lemma best_cells_covering:
  "(\<exists>j. map_of (best_cells rs []) c = Some j \<and> covering j) \<longleftrightarrow>
     (\<exists>r \<in> set rs. feature_code r = c \<and> covering (cell_judgment r))"
proof (cases "filter (\<lambda>r. feature_code r = c) rs")
  case Nil
  then show ?thesis by (auto simp: map_of_best_cells filter_empty_conv)
next
  case (Cons r rest)
  let ?m = "max_key judgment_precedence (cell_judgment r) (map cell_judgment rest)"
  have mem: "?m \<in> cell_judgment ` set (filter (\<lambda>r. feature_code r = c) rs)"
    using max_key_mem [of judgment_precedence "cell_judgment r" "map cell_judgment rest"]
    unfolding Cons by auto
  have ge: "judgment_precedence (cell_judgment x) \<le> judgment_precedence ?m"
    if "x \<in> set rs" "feature_code x = c" for x
  proof -
    have "x \<in> set (r # rest)" using that unfolding Cons [symmetric] by simp
    then show ?thesis by (intro max_key_ge) auto
  qed
  have "map_of (best_cells rs []) c = Some ?m" by (simp add: map_of_best_cells Cons)
  moreover have "covering ?m \<longleftrightarrow> (\<exists>r \<in> set rs. feature_code r = c \<and> covering (cell_judgment r))"
    using mem ge by (auto simp: covering_iff_precedence intro: order_trans)
  ultimately show ?thesis by simp
qed

lemma set_covered_codes:
  "set (covered_codes (best_cells rs [])) =
     {c. \<exists>r \<in> set rs. feature_code r = c \<and> covering (cell_judgment r)}"
proof -
  have "set (covered_codes (best_cells rs [])) =
      {c. \<exists>j. (c, j) \<in> set (best_cells rs []) \<and> covering j}"
    by (force simp: covered_codes_def image_iff)
  also have "\<dots> = {c. \<exists>j. map_of (best_cells rs []) c = Some j \<and> covering j}"
    using distinct_best_cells [of "[]" rs] by (auto simp: map_of_eq_Some_iff)
  finally show ?thesis by (simp add: best_cells_covering)
qed

lemma pairs_iff_sorted:
  "sorted xs \<Longrightarrow> distinct xs \<Longrightarrow> (a, b) \<in> set (pairs xs) \<longleftrightarrow> a \<in> set xs \<and> b \<in> set xs \<and> a < b"
  by (induction xs) (auto simp: order.strict_iff_order)

lemma combination_documents_props:
  "sorted (combination_documents (rows_by_doc rows) kinds)"
  "distinct (combination_documents (rows_by_doc rows) kinds)"
  "d \<in> set (combination_documents (rows_by_doc rows) kinds) \<longleftrightarrow>
     d \<in> doc_id ` set rows \<and> kind_or_prior_art kinds d = Prior_art"
  unfolding combination_documents_def rows_by_doc_def
  by (simp_all add: keys_group_by distinct_map_filter)

lemma doc_rows_of_rows_by_doc: "doc_rows_of (rows_by_doc rows) d = filter (\<lambda>r. doc_id r = d) rows"
proof (cases "d \<in> doc_id ` set rows")
  case True
  then show ?thesis by (simp add: doc_rows_of_def rows_by_doc_def map_of_group_by)
next
  case False
  then have "filter (\<lambda>r. doc_id r = d) rows = []" by (auto simp: filter_empty_conv)
  with False show ?thesis by (simp add: doc_rows_of_def rows_by_doc_def map_of_group_by)
qed

text \<open>Counting against a set of features that holds every code of the matrix.\<close>

lemma count_covers_features:
  assumes "finite F" and "set xs \<subseteq> F"
  shows "int (count_set xs) = int (card F) \<longleftrightarrow> F \<subseteq> set xs"
  using assms card_subset_eq [of F "set xs"] by (auto simp: count_set_card)

lemma codes_with_cover:
  assumes "finite F" and "all_codes rows \<subseteq> F"
  shows "int (count_set (codes_with P (filter (\<lambda>r. doc_id r = d) rows))) = int (card F) \<longleftrightarrow>
           (\<forall>c \<in> F. \<exists>j. P j \<and> cell rows d c j)"
proof -
  have "set (codes_with P (filter (\<lambda>r. doc_id r = d) rows)) \<subseteq> F"
    using assms(2) cells_in_all_codes [of P rows d] unfolding set_codes_with by blast
  from count_covers_features [OF assms(1) this] show ?thesis
    unfolding set_codes_with by blast
qed

lemma set_novelty_findings:
  assumes "0 < n"
  shows "set (novelty_findings rows n kinds) =
           (\<Union>d \<in> doc_id ` set rows.
              set (novelty_document n kinds (d, filter (\<lambda>r. doc_id r = d) rows)))"
proof -
  have "set (novelty_findings rows n kinds) =
      (\<Union>g \<in> set (rows_by_doc rows). set (novelty_document n kinds g))"
    using assms by (simp add: novelty_findings_def)
  also have "\<dots> = (\<Union>d \<in> doc_id ` set rows.
              set (novelty_document n kinds (d, filter (\<lambda>r. doc_id r = d) rows)))"
    by (force simp: rows_by_doc_entry_iff)
  finally show ?thesis .
qed

definition excluded_kind :: "(string, reference_kind) pydict \<Rightarrow> string \<Rightarrow> bool" where
  "excluded_kind kinds d \<longleftrightarrow> map_of kinds d \<in> {Some Not_usable, Some Unknown_kind}"

lemma novelty_document_high:
  "f \<in> set (novelty_document n kinds (d, rs)) \<Longrightarrow>
     finding_level f = High_novelty_risk \<longleftrightarrow>
       int (count_set (codes_with (\<lambda>j. j = ''identical'') rs)) = n"
  by (auto simp: novelty_document_def Let_def SINGLE_REFERENCE_JUDGMENTS_def split: if_splits)

lemma novelty_document_reasoning:
  "f \<in> set (novelty_document n kinds (d, rs)) \<Longrightarrow>
     \<not> excluded_kind kinds d \<and>
     (if finding_level f = High_novelty_risk
      then finding_reasoning f =
             Covers_all_identically d (map_of kinds d = Some Conflicting_application) n
        \<and> \<not> requires_human_confirmation f
      else finding_reasoning f = Covers_all_with_equivalents d (map_of kinds d = Some Conflicting_application)
        \<and> requires_human_confirmation f)"
  by (auto simp: novelty_document_def Let_def excluded_kind_def split: if_splits)

lemma novelty_document_exists:
  "\<not> excluded_kind kinds d \<Longrightarrow> int (count_set (codes_with (\<lambda>j. j = ''identical'') rs)) = n \<Longrightarrow>
     \<exists>f \<in> set (novelty_document n kinds (d, rs)). finding_level f = High_novelty_risk"
  by (auto simp: novelty_document_def Let_def excluded_kind_def SINGLE_REFERENCE_JUDGMENTS_def)

definition identical_to_all :: "comparison_row list \<Rightarrow> string set \<Rightarrow> string \<Rightarrow> bool" where
  "identical_to_all rows F d \<longleftrightarrow> (\<forall>c \<in> F. cell rows d c ''identical'')"

definition jointly_cover :: "comparison_row list \<Rightarrow> string set \<Rightarrow> string \<Rightarrow> string \<Rightarrow> bool" where
  "jointly_cover rows F a b \<longleftrightarrow>
     (\<forall>c \<in> F. \<exists>j. covering j \<and> (cell rows a c j \<or> cell rows b c j))"

lemma novelty_gate_facts:
  assumes "finite F" and "F \<noteq> {}" and "all_codes rows \<subseteq> F" and "n = int (card F)"
  shows "(\<exists>f \<in> set (novelty_findings rows n kinds). \<exists>conflicting.
            finding_level f = High_novelty_risk
            \<and> finding_reasoning f = Covers_all_identically d conflicting n)
           \<longleftrightarrow> \<not> excluded_kind kinds d \<and> identical_to_all rows F d"
    and "\<forall>f \<in> set (novelty_findings rows n kinds).
           requires_human_confirmation f \<longleftrightarrow> finding_level f \<noteq> High_novelty_risk"
proof -
  have n: "0 < n" using assms(1,2,4) by (simp add: card_gt_0_iff)
  note mem = set_novelty_findings [OF n, of rows kinds]
  have count: "int (count_set (codes_with (\<lambda>j. j = ''identical'') (filter (\<lambda>r. doc_id r = e) rows))) = n
      \<longleftrightarrow> identical_to_all rows F e" for e
    using codes_with_cover [OF assms(1,3), of "\<lambda>j. j = ''identical''" e]
    unfolding assms(4) identical_to_all_def by simp
  have doc: "d \<in> doc_id ` set rows" if "identical_to_all rows F d"
    using that assms(2) by (auto simp: identical_to_all_def cell_def)
  show "(\<exists>f \<in> set (novelty_findings rows n kinds). \<exists>conflicting.
            finding_level f = High_novelty_risk
            \<and> finding_reasoning f = Covers_all_identically d conflicting n)
           \<longleftrightarrow> \<not> excluded_kind kinds d \<and> identical_to_all rows F d" (is "?L \<longleftrightarrow> ?R")
  proof
    assume ?L
    then obtain f conflicting e where f: "e \<in> doc_id ` set rows"
        "f \<in> set (novelty_document n kinds (e, filter (\<lambda>r. doc_id r = e) rows))"
        "finding_level f = High_novelty_risk"
        "finding_reasoning f = Covers_all_identically d conflicting n"
      unfolding mem by blast
    with novelty_document_reasoning [OF f(2)] have "e = d" "\<not> excluded_kind kinds e" by auto
    with novelty_document_high [OF f(2)] f(3) count [of e] show ?R by simp
  next
    assume R: ?R
    then obtain f where f: "f \<in> set (novelty_document n kinds (d, filter (\<lambda>r. doc_id r = d) rows))"
        "finding_level f = High_novelty_risk"
      using novelty_document_exists count [of d] by blast
    with novelty_document_reasoning [OF f(1)] doc R show ?L unfolding mem by auto
  qed
  show "\<forall>f \<in> set (novelty_findings rows n kinds).
           requires_human_confirmation f \<longleftrightarrow> finding_level f \<noteq> High_novelty_risk"
  proof
    fix f
    assume "f \<in> set (novelty_findings rows n kinds)"
    then obtain e where "f \<in> set (novelty_document n kinds (e, filter (\<lambda>r. doc_id r = e) rows))"
      unfolding mem by blast
    from novelty_document_reasoning [OF this]
    show "requires_human_confirmation f \<longleftrightarrow> finding_level f \<noteq> High_novelty_risk"
      by (auto split: if_splits)
  qed
qed

text \<open>
  C18: The single-reference novelty gate.  Let \<open>F\<close> be the analysed features and let the matrix hold
  codes of \<open>F\<close> only.  A document gets a finding of high novelty risk exactly when the date gate does
  not exclude it and one document alone discloses every feature identically; equivalents never
  suffice.  Those findings are also exactly the ones that ask for no human confirmation.
\<close>

theorem novelty_gate_single_reference:
  assumes "finite F" and "F \<noteq> {}" and "all_codes rows \<subseteq> F" and "n = int (card F)"
  shows "(\<forall>d. (\<exists>f \<in> set (novelty_findings rows n kinds). \<exists>conflicting.
            finding_level f = High_novelty_risk
            \<and> finding_reasoning f = Covers_all_identically d conflicting n)
           \<longleftrightarrow> \<not> excluded_kind kinds d \<and> identical_to_all rows F d)
    \<and> (\<forall>f \<in> set (novelty_findings rows n kinds).
           requires_human_confirmation f \<longleftrightarrow> finding_level f \<noteq> High_novelty_risk)"
  by (intro conjI allI novelty_gate_facts [OF assms])

definition sample_matrix :: "comparison_row list" where
  "sample_matrix =
     [\<lparr>feature_code = ''A'', doc_id = ''D1'', cell_judgment = ''identical''\<rparr>,
      \<lparr>feature_code = ''B'', doc_id = ''D1'', cell_judgment = ''identical''\<rparr>,
      \<lparr>feature_code = ''A'', doc_id = ''D2'', cell_judgment = ''equivalent''\<rparr>,
      \<lparr>feature_code = ''B'', doc_id = ''D2'', cell_judgment = ''different''\<rparr>]"

lemma sample_matrix_codes: "all_codes sample_matrix = {''A'', ''B''}"
  by (auto simp: all_codes_def sample_matrix_def)

theorem novelty_gate_single_reference_witness:
  "(\<exists>f \<in> set (novelty_findings sample_matrix 2 [(''D1'', Prior_art), (''D2'', Prior_art)]).
      \<exists>conflicting. finding_level f = High_novelty_risk
      \<and> finding_reasoning f = Covers_all_identically ''D1'' conflicting 2)"
proof -
  have "identical_to_all sample_matrix {''A'', ''B''} ''D1''"
    by (simp add: identical_to_all_def cell_def sample_matrix_def)
  moreover have "\<not> excluded_kind [(''D1'', Prior_art), (''D2'', Prior_art)] ''D1''"
    by (simp add: excluded_kind_def)
  ultimately show ?thesis
    using novelty_gate_single_reference [of "{''A'', ''B''}" sample_matrix 2
      "[(''D1'', Prior_art), (''D2'', Prior_art)]"] sample_matrix_codes
    by simp
qed

lemma combination_pair_iff:
  assumes "finite F" and "all_codes rows \<subseteq> F"
  shows "combination_pair (int (card F)) (rows_by_doc rows) (a, b) \<noteq> [] \<longleftrightarrow> jointly_cover rows F a b"
proof -
  let ?both = "filter (\<lambda>r. doc_id r = a) rows @ filter (\<lambda>r. doc_id r = b) rows"
  have cells: "set (covered_codes (best_cells ?both [])) =
      {c. \<exists>j. covering j \<and> (cell rows a c j \<or> cell rows b c j)}"
    unfolding set_covered_codes by (auto simp: cell_def)
  have "set (covered_codes (best_cells ?both [])) \<subseteq> F"
    using assms(2) unfolding cells by (auto simp: cell_def all_codes_def)
  from count_covers_features [OF assms(1) this]
  show ?thesis unfolding cells
    by (auto simp: combination_pair_def Let_def doc_rows_of_rows_by_doc jointly_cover_def)
qed

lemma set_combination_findings:
  assumes "0 < n"
  shows "set (combination_findings rows n kinds) =
    (\<Union>p \<in> set (pairs (combination_documents (rows_by_doc rows) kinds)).
       set (combination_pair n (rows_by_doc rows) p))"
proof -
  have "pairs ids = []" if "length ids < 2" for ids :: "string list"
    using that by (cases ids rule: pairs.cases) (auto simp: Suc_lessI)
  then show ?thesis using assms by (auto simp: combination_findings_def Let_def)
qed

lemma combination_pair_reasoning:
  "f \<in> set (combination_pair n grouped (a, b)) \<Longrightarrow>
     finding_reasoning f = Pair_covers_all a b n \<and> requires_human_confirmation f
     \<and> finding_level f = Needs_confirmation"
  by (auto simp: combination_pair_def Let_def split: if_splits)

lemma pair_named:
  "(\<exists>f \<in> (\<Union>p \<in> P. set (combination_pair n grouped p)). finding_reasoning f = Pair_covers_all a b n)
     \<longleftrightarrow> (a, b) \<in> P \<and> combination_pair n grouped (a, b) \<noteq> []" (is "?L \<longleftrightarrow> ?R")
proof
  assume ?L
  then obtain f x y where f: "(x, y) \<in> P" "f \<in> set (combination_pair n grouped (x, y))"
      "finding_reasoning f = Pair_covers_all a b n" by auto
  with combination_pair_reasoning [OF f(2)] show ?R by auto
next
  assume R: ?R
  then have f: "hd (combination_pair n grouped (a, b)) \<in> set (combination_pair n grouped (a, b))" by simp
  with R combination_pair_reasoning [OF f] show ?L by blast
qed

text \<open>
  The pair screening.  Over the analysed features \<open>F\<close>, a pair of documents gets a combination
  finding exactly when both documents appear in the matrix, both are prior art (a conflicting
  application never takes part), and every feature is disclosed identically or equivalently by at
  least one of the two; and every such finding is only a candidate for a human to confirm.
\<close>

theorem combination_gate_pairs:
  assumes "finite F" and "F \<noteq> {}" and "all_codes rows \<subseteq> F" and "n = int (card F)"
  shows "(\<forall>a b. (\<exists>f \<in> set (combination_findings rows n kinds). finding_reasoning f = Pair_covers_all a b n)
           \<longleftrightarrow> a < b \<and> {a, b} \<subseteq> doc_id ` set rows
               \<and> kind_or_prior_art kinds a = Prior_art \<and> kind_or_prior_art kinds b = Prior_art
               \<and> jointly_cover rows F a b)
    \<and> (\<forall>f \<in> set (combination_findings rows n kinds).
           requires_human_confirmation f \<and> finding_level f = Needs_confirmation)"
proof (intro conjI allI ballI)
  have n: "0 < n" using assms(1,2,4) by (simp add: card_gt_0_iff)
  note mem = set_combination_findings [OF n, of rows kinds]
  let ?docs = "combination_documents (rows_by_doc rows) kinds"
  note props = combination_documents_props [where rows = rows and kinds = kinds]
  note pair = pairs_iff_sorted [OF props(1,2)]
  fix a b
  have "(\<exists>f \<in> set (combination_findings rows n kinds). finding_reasoning f = Pair_covers_all a b n)
      \<longleftrightarrow> (a, b) \<in> set (pairs ?docs) \<and> combination_pair n (rows_by_doc rows) (a, b) \<noteq> []"
    unfolding mem by (rule pair_named)
  also have "\<dots> \<longleftrightarrow> a < b \<and> {a, b} \<subseteq> doc_id ` set rows
               \<and> kind_or_prior_art kinds a = Prior_art \<and> kind_or_prior_art kinds b = Prior_art
               \<and> jointly_cover rows F a b"
    unfolding pair props(3) assms(4) combination_pair_iff [OF assms(1,3)] by auto
  finally show "(\<exists>f \<in> set (combination_findings rows n kinds). finding_reasoning f = Pair_covers_all a b n)
      \<longleftrightarrow> a < b \<and> {a, b} \<subseteq> doc_id ` set rows
               \<and> kind_or_prior_art kinds a = Prior_art \<and> kind_or_prior_art kinds b = Prior_art
               \<and> jointly_cover rows F a b" .
next
  have n: "0 < n" using assms(1,2,4) by (simp add: card_gt_0_iff)
  fix f
  assume "f \<in> set (combination_findings rows n kinds)"
  then obtain a b where "f \<in> set (combination_pair n (rows_by_doc rows) (a, b))"
    unfolding set_combination_findings [OF n] by force
  from combination_pair_reasoning [OF this]
  show "requires_human_confirmation f" and "finding_level f = Needs_confirmation" by simp_all
qed

theorem combination_gate_pairs_witness:
  "\<exists>f \<in> set (combination_findings sample_matrix 2 []).
     finding_reasoning f = Pair_covers_all ''D1'' ''D2'' 2"
proof -
  have "jointly_cover sample_matrix {''A'', ''B''} ''D1'' ''D2''"
    by (auto simp: jointly_cover_def cell_def sample_matrix_def covering_def COVERING_JUDGMENTS_def)
  moreover have "{''D1'', ''D2''} \<subseteq> doc_id ` set sample_matrix"
    by (simp add: sample_matrix_def)
  moreover have "''D1'' < (''D2'' :: string)" by code_simp
  moreover have "kind_or_prior_art [] d = Prior_art" for d by (simp add: kind_or_prior_art_def)
  ultimately show ?thesis
    using combination_gate_pairs [of "{''A'', ''B''}" sample_matrix 2 "[]"] sample_matrix_codes
    by simp
qed

section \<open>The closest prior art\<close>

lemma scaffold_groups_iff:
  "(d, rs) \<in> set (scaffold_groups rows kinds) \<longleftrightarrow>
     rs = filter (\<lambda>r. doc_id r = d) rows \<and> d \<in> doc_id ` set rows \<and> kind_or_prior_art kinds d = Prior_art"
  by (auto simp: scaffold_groups_def rows_by_doc_entry_iff)

definition is_candidate :: "comparison_row list \<Rightarrow> (string, reference_kind) pydict \<Rightarrow> string \<Rightarrow> bool" where
  "is_candidate rows kinds d \<longleftrightarrow> d \<in> doc_id ` set rows \<and> kind_or_prior_art kinds d = Prior_art"

definition cells_of :: "comparison_row list \<Rightarrow> string \<Rightarrow> string \<Rightarrow> nat" where
  "cells_of rows d j = length (filter (\<lambda>r. doc_id r = d \<and> cell_judgment r = j) rows)"

definition closer :: "comparison_row list \<Rightarrow> string \<Rightarrow> string \<Rightarrow> bool" where
  "closer rows d e \<longleftrightarrow>
     cells_of rows e ''identical'' < cells_of rows d ''identical''
   \<or> cells_of rows e ''identical'' = cells_of rows d ''identical''
     \<and> (cells_of rows d ''insufficient_evidence'' < cells_of rows e ''insufficient_evidence''
      \<or> cells_of rows d ''insufficient_evidence'' = cells_of rows e ''insufficient_evidence'' \<and> d \<le> e)"

lemma scaffold_score_closer:
  "scaffold_score (d, filter (\<lambda>r. doc_id r = d) rows) \<le> scaffold_score (e, filter (\<lambda>r. doc_id r = e) rows)
     \<longleftrightarrow> closer rows d e"
  by (auto simp: scaffold_score_def closer_def cells_of_def conj_commute)

lemma three_step_spec:
  shows "case three_step rows kinds of
           None \<Rightarrow> Collect (is_candidate rows kinds) = {}
         | Some s \<Rightarrow>
             is_candidate rows kinds (closest_prior_art s)
             \<and> (\<forall>d. is_candidate rows kinds d \<longrightarrow> closer rows (closest_prior_art s) d)
             \<and> set (distinguishing_features s) =
                 all_codes rows - {c. cell rows (closest_prior_art s) c ''identical''}
             \<and> distinct (distinguishing_features s)"
proof (cases "scaffold_groups rows kinds")
  case Nil
  then have "three_step rows kinds = None" by (simp add: three_step_def)
  moreover have "\<not> is_candidate rows kinds d" for d
    using scaffold_groups_iff [of d "filter (\<lambda>r. doc_id r = d) rows" rows kinds] Nil
    by (simp add: is_candidate_def)
  ultimately show ?thesis by simp
next
  case (Cons g gs)
  let ?m = "min_key scaffold_score g gs"
  obtain s where s: "three_step rows kinds = Some s" "closest_prior_art s = fst ?m"
      "distinguishing_features s =
         filter (\<lambda>c. c \<notin> set (codes_with (\<lambda>j. j = ''identical'') (snd ?m))) (feature_codes rows)"
    by (simp add: three_step_def Cons Let_def)
  have mem: "?m \<in> set (scaffold_groups rows kinds)"
    unfolding Cons by (rule min_key_mem)
  then have group: "snd ?m = filter (\<lambda>r. doc_id r = fst ?m) rows" "is_candidate rows kinds (fst ?m)"
    using scaffold_groups_iff [of "fst ?m" "snd ?m" rows kinds] by (simp_all add: is_candidate_def)
  have "closer rows (fst ?m) d" if "is_candidate rows kinds d" for d
  proof -
    have "(d, filter (\<lambda>r. doc_id r = d) rows) \<in> set (g # gs)"
      using that unfolding Cons [symmetric] by (simp add: scaffold_groups_iff is_candidate_def)
    then have "scaffold_score ?m \<le> scaffold_score (d, filter (\<lambda>r. doc_id r = d) rows)"
      by (rule min_key_le)
    moreover have "?m = (fst ?m, filter (\<lambda>r. doc_id r = fst ?m) rows)"
      using group(1) by (metis prod.collapse)
    ultimately show ?thesis using scaffold_score_closer [of "fst ?m" rows d] by metis
  qed
  moreover have "set (distinguishing_features s) =
      all_codes rows - {c. cell rows (fst ?m) c ''identical''}"
    unfolding s(3) group(1) by (auto simp: set_codes_with feature_codes_def all_codes_def)
  moreover have "distinct (distinguishing_features s)" by (simp add: s(3) feature_codes_def)
  ultimately show ?thesis using group(2) by (simp add: s(1,2))
qed

text \<open>
  C19: Step 1 and step 2 of the three-step method.  There is a scaffold exactly when the matrix has
  a prior-art document.  The closest prior art is then a prior-art document of the matrix, so never
  a conflicting application; it has the most identical cells, ties going to fewer cells of
  insufficient evidence and then to the smaller id; and the distinguishing features are exactly the
  matrix features it does not disclose identically.
\<close>

theorem closest_prior_art_correct:
  shows "case three_step rows kinds of
           None \<Rightarrow> Collect (is_candidate rows kinds) = {}
         | Some s \<Rightarrow>
             is_candidate rows kinds (closest_prior_art s)
             \<and> (\<forall>d. is_candidate rows kinds d \<longrightarrow> closer rows (closest_prior_art s) d)
             \<and> set (distinguishing_features s) =
                 all_codes rows - {c. cell rows (closest_prior_art s) c ''identical''}
             \<and> distinct (distinguishing_features s)"
  by (rule three_step_spec)

theorem closest_prior_art_correct_witness:
  "\<exists>s. three_step sample_matrix [] = Some s \<and> closer sample_matrix (closest_prior_art s) ''D2''"
proof -
  have "is_candidate sample_matrix [] ''D2''"
    by (simp add: is_candidate_def sample_matrix_def kind_or_prior_art_def)
  then show ?thesis
    using closest_prior_art_correct [of sample_matrix "[]"] by (auto split: option.splits)
qed

end
