(* ===== verification/AssessEvidence.thy ===== *)
theory AssessEvidence
  imports AssessGates PyText Complex_Main
begin

text \<open>
  The second half of \<^verbatim>\<open>modules/assessment/rules.py\<close>: evidence completeness with its blocking gaps,
  the step-3 checklist, auxiliary factors, the hindsight check, and the entity-level observations.
  Messages are constructors holding the interpolated values.  The coverage ratio is kept as
  numerator and denominator (the source rounds the quotient to four places); numeric range ends
  are rationals, the finite floats.
\<close>

section \<open>Evidence completeness\<close>

record evidence_citation =
  ec_doc_id :: string
  ec_feature_code :: string
  ec_location :: ustr
  ec_quote :: ustr
  ec_verified :: bool

definition anchor_of :: "string \<Rightarrow> string \<Rightarrow> string" where
  "anchor_of d code = d @ ''/'' @ code"

definition anchor :: "evidence_citation \<Rightarrow> string" where
  "anchor c = anchor_of (ec_doc_id c) (ec_feature_code c)"

record data_source_run =
  run_name :: string
  run_status :: string
  run_as_of :: "date option"

definition ABSTRACT_ONLY_LOCATIONS :: "ustr list" where
  "ABSTRACT_ONLY_LOCATIONS =
     [[25688, 35201], u ''abstract'', u ''abstract_only'', [20070, 30446, 20449, 24687]]"

datatype blocking_gap =
    Anchors_missing nat
  | Quotes_unverified nat
  | Sources_failed "string list"
  | Cells_missing nat

datatype evidence_flag =
    Sources_partial "string list"
  | Abstract_only nat
  | Legal_status_timepoint_missing "string list"
  | Documents_unverified "string list"

record evidence_completeness =
  source_coverage :: "nat \<times> nat"
  verified_citations :: nat
  total_citations :: nat
  missing_anchors :: "string list"
  unverified_citations :: "string list"
  abstract_only_citations :: "string list"
  failed_sources :: "string list"
  partial_sources :: "string list"
  documents_without_legal_status_timepoint :: "string list"
  blocking_gaps :: "blocking_gap list"
  evidence_flags :: "evidence_flag list"
  blocks_conclusion :: bool
  evidence_level :: finding_level

definition located :: "evidence_citation \<Rightarrow> bool" where
  "located c \<longleftrightarrow> \<not> blank (ec_location c) \<and> \<not> blank (ec_quote c)"

definition uncited_cells :: "comparison_row list \<Rightarrow> evidence_citation list \<Rightarrow> string list" where
  "uncited_cells rows cs =
     sort (filter (\<lambda>a. a \<notin> set (map anchor cs))
             (map (\<lambda>r. anchor_of (doc_id r) (feature_code r)) rows))"

definition nonzero :: "nat \<Rightarrow> nat \<Rightarrow> nat" where
  "nonzero n m = (if n \<noteq> 0 then n else m)"

definition coverage_denominator :: "comparison_row list \<Rightarrow> int \<Rightarrow> candidate_document list
    \<Rightarrow> evidence_citation list \<Rightarrow> nat" where
  "coverage_denominator rows total_features documents cs =
     nonzero (count_set (map (\<lambda>r. (doc_id r, feature_code r)) rows))
       (nonzero (length cs) (nat (max (total_features * int (length documents)) 1)))"

text \<open>\<open>if xs: gaps.append(message)\<close>.\<close>

definition noted :: "bool \<Rightarrow> 'a \<Rightarrow> 'a list" where
  "noted b x = (if b then [x] else [])"

lemma noted_empty [simp]: "noted b x = [] \<longleftrightarrow> \<not> b"
  by (simp add: noted_def)

definition assess_evidence_completeness :: "comparison_row list \<Rightarrow> int \<Rightarrow> candidate_document list
    \<Rightarrow> evidence_citation list \<Rightarrow> data_source_run list \<Rightarrow> (string, date) pydict
    \<Rightarrow> evidence_completeness" where
  "assess_evidence_completeness rows total_features documents provided runs status_as_of =
     (let verified = filter (\<lambda>c. ec_verified c \<and> located c) provided;
          missing = map anchor (filter (\<lambda>c. \<not> located c) provided) @ uncited_cells rows provided;
          unverified = map anchor (filter (\<lambda>c. \<not> ec_verified c \<and> located c) provided);
          abstract_only = map anchor
            (filter (\<lambda>c. lower (strip (ec_location c)) \<in> set (map lower ABSTRACT_ONLY_LOCATIONS))
               provided);
          failed = map run_name (filter (\<lambda>r. run_status r = ''failed'') runs);
          partial = map run_name (filter (\<lambda>r. run_status r = ''partial'') runs);
          untimed = map cd_doc_id (filter (\<lambda>d. map_of status_as_of (cd_doc_id d) = None) documents);
          cells = missing_cell_count total_features rows;
          unverified_docs = map cd_doc_id (filter (\<lambda>d. \<not> source_verified d) documents);
          gaps = noted (missing \<noteq> []) (Anchors_missing (length missing))
                 @ noted (unverified \<noteq> []) (Quotes_unverified (length unverified))
                 @ noted (failed \<noteq> []) (Sources_failed failed)
                 @ noted (cells \<noteq> 0) (Cells_missing cells);
          flags = noted (partial \<noteq> []) (Sources_partial partial)
                  @ noted (abstract_only \<noteq> []) (Abstract_only (length abstract_only))
                  @ noted (untimed \<noteq> []) (Legal_status_timepoint_missing untimed)
                  @ noted (unverified_docs \<noteq> []) (Documents_unverified unverified_docs)
      in \<lparr>source_coverage =
            (length verified, coverage_denominator rows total_features documents provided),
          verified_citations = length verified, total_citations = length provided,
          missing_anchors = missing, unverified_citations = unverified,
          abstract_only_citations = abstract_only, failed_sources = failed,
          partial_sources = partial, documents_without_legal_status_timepoint = untimed,
          blocking_gaps = gaps, evidence_flags = flags, blocks_conclusion = (gaps \<noteq> []),
          evidence_level = (if gaps \<noteq> [] \<or> flags \<noteq> [] then Needs_confirmation else Low_risk)\<rparr>)"

section \<open>The step-3 checklist\<close>

definition MOTIVATION_CHECKLIST_ITEMS :: "string list" where
  "MOTIVATION_CHECKLIST_ITEMS =
     [''common_knowledge'', ''explicit_teaching'', ''prejudice_or_teaching_away'',
      ''combination_obstacle'', ''effect_predictability'']"

record motivation_checklist =
  common_knowledge :: "ustr option"
  explicit_teaching :: "ustr option"
  prejudice_or_teaching_away :: "ustr option"
  combination_obstacle :: "ustr option"
  effect_predictability :: "ustr option"

definition answers :: "motivation_checklist \<Rightarrow> (string, ustr option) pydict" where
  "answers c = zip MOTIVATION_CHECKLIST_ITEMS
     [common_knowledge c, explicit_teaching c, prejudice_or_teaching_away c,
      combination_obstacle c, effect_predictability c]"

definition answered :: "ustr option \<Rightarrow> bool" where
  "answered v = (case v of None \<Rightarrow> False | Some s \<Rightarrow> \<not> blank s)"

record motivation_state =
  checklist_complete :: bool
  unanswered :: "string list"
  favouring_inventiveness :: "string list"
  checklist_blocks_conclusion :: bool

definition says_yes :: "ustr option \<Rightarrow> bool" where
  "says_yes v = (case v of None \<Rightarrow> False | Some s \<Rightarrow> lower (strip s) = u ''yes'')"

definition motivation_checklist_state :: "motivation_checklist \<Rightarrow> motivation_state" where
  "motivation_checklist_state checklist =
     (let open_items = map fst (filter (\<lambda>(_, v). \<not> answered v) (answers checklist));
          favouring = filter
            (\<lambda>item. says_yes (case map_of (answers checklist) item of None \<Rightarrow> None | Some v \<Rightarrow> v))
            [''prejudice_or_teaching_away'', ''combination_obstacle'']
      in \<lparr>checklist_complete = (open_items = []), unanswered = open_items,
          favouring_inventiveness = favouring, checklist_blocks_conclusion = (open_items \<noteq> [])\<rparr>)"

section \<open>Auxiliary factors and hindsight\<close>

record auxiliary_factor =
  factor_kind :: string
  claimed :: bool
  evidence_cited :: bool
  causal_link_to_features :: bool

datatype factor_status = Unsubstantiated | Counted

record auxiliary_evaluation =
  counted :: "(auxiliary_factor \<times> factor_status) list"
  unsubstantiated :: "string list"

definition factor_status :: "auxiliary_factor \<Rightarrow> factor_status" where
  "factor_status f =
     (if factor_kind f = ''commercial_success'' \<and> \<not> (evidence_cited f \<and> causal_link_to_features f)
      then Unsubstantiated
      else if \<not> evidence_cited f then Unsubstantiated
      else Counted)"

definition evaluate_auxiliary_factors :: "auxiliary_factor list \<Rightarrow> auxiliary_evaluation" where
  "evaluate_auxiliary_factors factors =
     (let considered = filter claimed factors
      in \<lparr>counted = map (\<lambda>f. (f, factor_status f)) considered,
          unsubstantiated =
            map factor_kind (filter (\<lambda>f. factor_status f = Unsubstantiated) considered)\<rparr>)"

record hindsight_report =
  hindsight_risk_found :: bool
  matched_statements :: "ustr list"

definition hindsight_risk :: "ustr \<Rightarrow> ustr list \<Rightarrow> hindsight_report" where
  "hindsight_risk actual_technical_problem statements =
     (let problem = strip actual_technical_problem;
          hits = filter (\<lambda>s. s \<noteq> [] \<and> strip s \<noteq> [] \<and> occurs_in (strip s) problem) statements
      in \<lparr>hindsight_risk_found = (hits \<noteq> []), matched_statements = hits\<rparr>)"

section \<open>Entity-level observations\<close>

datatype entity_effect = May_defeat | Does_not_defeat | Undetermined

record numeric_range =
  nr_feature_code :: string
  nr_doc_id :: string
  claimed_lower :: "rat option"
  claimed_upper :: "rat option"
  disclosed_lower :: "rat option"
  disclosed_upper :: "rat option"
  disclosed_is_example :: bool

record concept_relation =
  cr_feature_code :: string
  cr_doc_id :: string
  claimed_concept :: ustr
  disclosed_concept :: ustr
  relation :: string

record known_substitute =
  ks_feature_code :: string
  ks_doc_id :: string
  claimed_means :: ustr
  disclosed_means :: ustr
  substitutability_documented :: bool

datatype observation_reasoning =
    Range_incomplete
  | Ranges_disjoint
  | Ranges_overlap bool
  | Generic_disclosed ustr ustr
  | Specific_disclosed ustr ustr
  | Relation_unknown ustr ustr
  | Substitute_documented ustr ustr
  | Substitute_undocumented ustr ustr

record entity_observation =
  obs_kind :: string
  obs_feature_code :: string
  obs_doc_id :: string
  effect :: entity_effect
  obs_reasoning :: observation_reasoning
  obs_requires_human_confirmation :: bool

definition overlaps :: "rat option \<Rightarrow> rat option \<Rightarrow> rat option \<Rightarrow> rat option \<Rightarrow> bool option" where
  "overlaps cl cu dl du =
     (case (cl, cu, dl, du) of
        (Some a, Some b, Some c, Some d) \<Rightarrow> Some (a \<le> d \<and> c \<le> b)
      | _ \<Rightarrow> None)"

definition observe_numeric_range :: "numeric_range \<Rightarrow> entity_observation" where
  "observe_numeric_range item =
     (let (eff, reason) =
        (case overlaps (claimed_lower item) (claimed_upper item)
                (disclosed_lower item) (disclosed_upper item) of
           None \<Rightarrow> (Undetermined, Range_incomplete)
         | Some False \<Rightarrow> (Does_not_defeat, Ranges_disjoint)
         | Some True \<Rightarrow> (May_defeat, Ranges_overlap (disclosed_is_example item)))
      in \<lparr>obs_kind = ''numeric_range'', obs_feature_code = nr_feature_code item,
          obs_doc_id = nr_doc_id item, effect = eff, obs_reasoning = reason,
          obs_requires_human_confirmation = True\<rparr>)"

definition observe_concept_relation :: "concept_relation \<Rightarrow> entity_observation" where
  "observe_concept_relation item =
     (let (eff, reason) =
        (if relation item = ''generic_disclosed''
         then (Does_not_defeat, Generic_disclosed (disclosed_concept item) (claimed_concept item))
         else if relation item = ''specific_disclosed''
         then (May_defeat, Specific_disclosed (disclosed_concept item) (claimed_concept item))
         else (Undetermined, Relation_unknown (claimed_concept item) (disclosed_concept item)))
      in \<lparr>obs_kind = ''concept_generality'', obs_feature_code = cr_feature_code item,
          obs_doc_id = cr_doc_id item, effect = eff, obs_reasoning = reason,
          obs_requires_human_confirmation = True\<rparr>)"

definition observe_known_substitute :: "known_substitute \<Rightarrow> entity_observation" where
  "observe_known_substitute item =
     (let (eff, reason) =
        (if substitutability_documented item
         then (May_defeat, Substitute_documented (disclosed_means item) (claimed_means item))
         else (Undetermined, Substitute_undocumented (disclosed_means item) (claimed_means item)))
      in \<lparr>obs_kind = ''known_substitute'', obs_feature_code = ks_feature_code item,
          obs_doc_id = ks_doc_id item, effect = eff, obs_reasoning = reason,
          obs_requires_human_confirmation = True\<rparr>)"

definition entity_level_observations :: "numeric_range list \<Rightarrow> concept_relation list
    \<Rightarrow> known_substitute list \<Rightarrow> entity_observation list" where
  "entity_level_observations ranges relations substitutes =
     map observe_numeric_range ranges @ map observe_concept_relation relations
     @ map observe_known_substitute substitutes"

section \<open>What completeness means\<close>

text \<open>
  The contract of the blocking gaps: every cell is cited, every citation is located and verified
  verbatim, no source failed, and no feature lacks a cell.
\<close>

definition evidence_complete :: "comparison_row list \<Rightarrow> int \<Rightarrow> evidence_citation list
    \<Rightarrow> data_source_run list \<Rightarrow> bool" where
  "evidence_complete rows total_features cs runs \<longleftrightarrow>
     (\<forall>r \<in> set rows. \<exists>c \<in> set cs. anchor c = anchor_of (doc_id r) (feature_code r))
   \<and> (\<forall>c \<in> set cs. located c \<and> ec_verified c)
   \<and> (\<forall>r \<in> set runs. run_status r \<noteq> ''failed'')
   \<and> total_features \<le> int (card (all_codes rows))"

lemma uncited_cells_empty_iff:
  "uncited_cells rows cs = [] \<longleftrightarrow>
     (\<forall>r \<in> set rows. \<exists>c \<in> set cs. anchor c = anchor_of (doc_id r) (feature_code r))"
proof -
  have "uncited_cells rows cs = [] \<longleftrightarrow> set (uncited_cells rows cs) = {}" by simp
  also have "\<dots> \<longleftrightarrow> (\<forall>r \<in> set rows. anchor_of (doc_id r) (feature_code r) \<in> anchor ` set cs)"
    unfolding uncited_cells_def set_sort set_filter set_map by auto
  also have "\<dots> \<longleftrightarrow> (\<forall>r \<in> set rows. \<exists>c \<in> set cs. anchor c = anchor_of (doc_id r) (feature_code r))"
    by (simp add: image_iff eq_commute)
  finally show ?thesis .
qed

lemma missing_cell_count_zero_iff:
  "missing_cell_count n rows = 0 \<longleftrightarrow> n \<le> int (card (all_codes rows))"
  by (simp add: missing_cell_count_def count_set_card all_codes_def)

lemma blocking_gaps_empty_iff:
  "blocking_gaps (assess_evidence_completeness rows n documents cs runs status) = [] \<longleftrightarrow>
     evidence_complete rows n cs runs"
proof -
  have "blocking_gaps (assess_evidence_completeness rows n documents cs runs status) = [] \<longleftrightarrow>
      (filter (\<lambda>c. \<not> located c) cs = [] \<and> uncited_cells rows cs = [])
      \<and> filter (\<lambda>c. \<not> ec_verified c \<and> located c) cs = []
      \<and> filter (\<lambda>r. run_status r = ''failed'') runs = [] \<and> missing_cell_count n rows = 0"
    by (simp add: assess_evidence_completeness_def Let_def)
  also have "\<dots> \<longleftrightarrow> evidence_complete rows n cs runs"
    unfolding evidence_complete_def uncited_cells_empty_iff missing_cell_count_zero_iff
      filter_empty_conv by blast
  finally show ?thesis .
qed

lemma blocks_conclusion_iff:
  "blocks_conclusion (assess_evidence_completeness rows n documents cs runs status) \<longleftrightarrow>
     blocking_gaps (assess_evidence_completeness rows n documents cs runs status) \<noteq> []"
  by (simp add: assess_evidence_completeness_def Let_def del: noted_empty)

text \<open>
  C23: Evidence completeness blocks a conclusion exactly when one of the hard gaps is there: a matrix
  cell without a citation, a citation that is not located or not verified verbatim, a failed data
  source, or a feature without a cell.  Legal-status timepoints, partial sources, abstract-only
  citations and unverified documents never block; when nothing blocks, every citation counts as
  verified.
\<close>

theorem evidence_blocks_iff_gap:
  "(blocks_conclusion (assess_evidence_completeness rows n documents cs runs status) \<longleftrightarrow>
      \<not> evidence_complete rows n cs runs)
   \<and> (\<not> blocks_conclusion (assess_evidence_completeness rows n documents cs runs status) \<longrightarrow>
        verified_citations (assess_evidence_completeness rows n documents cs runs status) = length cs)"
proof -
  have iff: "blocks_conclusion (assess_evidence_completeness rows n documents cs runs status) \<longleftrightarrow>
      \<not> evidence_complete rows n cs runs"
    by (simp add: blocks_conclusion_iff blocking_gaps_empty_iff)
  have "verified_citations (assess_evidence_completeness rows n documents cs runs status) = length cs"
    if "evidence_complete rows n cs runs"
  proof -
    have "filter (\<lambda>c. ec_verified c \<and> located c) cs = cs"
      using that by (simp add: evidence_complete_def filter_id_conv)
    then show ?thesis by (simp add: assess_evidence_completeness_def Let_def)
  qed
  with iff show ?thesis by blast
qed

definition sample_citation :: "string \<Rightarrow> string \<Rightarrow> evidence_citation" where
  "sample_citation d code =
     \<lparr>ec_doc_id = d, ec_feature_code = code, ec_location = u ''p. 3'', ec_quote = u ''text'',
      ec_verified = True\<rparr>"

theorem evidence_blocks_iff_gap_witness:
  "verified_citations (assess_evidence_completeness [] 0 [] [sample_citation ''D1'' ''A''] [] []) = 1"
proof -
  have "evidence_complete [] 0 [sample_citation ''D1'' ''A''] []"
    by (simp add: evidence_complete_def located_def sample_citation_def blank_iff u_def is_space_def)
  then show ?thesis
    using evidence_blocks_iff_gap [of "[]" 0 "[]" "[sample_citation ''D1'' ''A'']" "[]" "[]"] by simp
qed

text \<open>The ratio counts citations against cells, so it can exceed one while a cell has no citation.\<close>

lemma source_coverage_exceeds_one:
  "source_coverage
     (assess_evidence_completeness
        [\<lparr>feature_code = ''A'', doc_id = ''D1'', cell_judgment = ''identical''\<rparr>,
         \<lparr>feature_code = ''B'', doc_id = ''D1'', cell_judgment = ''identical''\<rparr>] 2 []
        [sample_citation ''D1'' ''A'', sample_citation ''D1'' ''A'', sample_citation ''D1'' ''A''] [] [])
   = (3, 2)"
  by (simp add: assess_evidence_completeness_def Let_def coverage_denominator_def nonzero_def
      count_set_def located_def sample_citation_def blank_iff u_def is_space_def)

lemma checklist_complete_iff:
  "\<not> checklist_blocks_conclusion (motivation_checklist_state c) \<longleftrightarrow>
     list_all answered [common_knowledge c, explicit_teaching c, prejudice_or_teaching_away c,
       combination_obstacle c, effect_predictability c]"
  by (simp add: motivation_checklist_state_def Let_def answers_def MOTIVATION_CHECKLIST_ITEMS_def)

text \<open>
  The direction of a concept relation and the ends of a numeric range decide the tendency of an
  entity-level observation, and no observation is more than a candidate: it defeats novelty only
  if two complete ranges have a common point, a more specific concept is disclosed, or the
  substitute is documented; an unknown relation, an open range and an undocumented substitute stay
  undetermined; every observation asks for human confirmation.
\<close>

theorem entity_observations_candidate_only:
  "(\<forall>o' \<in> set (entity_level_observations ranges relations substitutes).
      obs_requires_human_confirmation o')
   \<and> (effect (observe_numeric_range r) = May_defeat \<longleftrightarrow>
        (\<exists>a b c d. claimed_lower r = Some a \<and> claimed_upper r = Some b
          \<and> disclosed_lower r = Some c \<and> disclosed_upper r = Some d \<and> a \<le> d \<and> c \<le> b))
   \<and> (effect (observe_numeric_range r) = Undetermined \<longleftrightarrow>
        None \<in> {claimed_lower r, claimed_upper r, disclosed_lower r, disclosed_upper r})
   \<and> (effect (observe_concept_relation k) = May_defeat \<longleftrightarrow> relation k = ''specific_disclosed'')
   \<and> (effect (observe_concept_relation k) = Does_not_defeat \<longleftrightarrow> relation k = ''generic_disclosed'')
   \<and> (effect (observe_known_substitute s) = May_defeat \<longleftrightarrow> substitutability_documented s)
   \<and> effect (observe_known_substitute s) \<noteq> Does_not_defeat"
  by (auto simp: entity_level_observations_def observe_numeric_range_def observe_concept_relation_def
      observe_known_substitute_def overlaps_def Let_def split: option.splits bool.splits)

definition sample_range :: numeric_range where
  "sample_range = \<lparr>nr_feature_code = ''F1'', nr_doc_id = ''D1'', claimed_lower = Some 10, claimed_upper = Some 20,
     disclosed_lower = Some 15, disclosed_upper = Some 30, disclosed_is_example = False\<rparr>"

theorem entity_observations_candidate_only_witness:
  "effect (observe_numeric_range sample_range) = May_defeat
   \<and> list_all obs_requires_human_confirmation (entity_level_observations [sample_range] [] [])"
  using entity_observations_candidate_only [of "[sample_range]" "[]" "[]" sample_range]
  by (simp add: sample_range_def list_all_iff)

end
