(* ===== verification/AssessPackage.thy ===== *)
theory AssessPackage
  imports AssessEvidence
begin

text \<open>
  \<^verbatim>\<open>modules/assessment/package.py\<close> (\<open>assess_case\<close>, the one entry that runs every gate) and
  \<^verbatim>\<open>modules/assessment/snapshot.py\<close> (the input profile frozen with a version).
\<close>

section \<open>The package\<close>

record assessment_input =
  in_subject :: subject_application
  in_documents :: "candidate_document list"
  in_rows :: "comparison_row list"
  in_citations :: "evidence_citation list"
  in_source_runs :: "data_source_run list"
  in_legal_status_as_of :: "(string, date) pydict"
  in_total_features :: "int option"
  in_checklist :: "motivation_checklist option"
  in_auxiliary_factors :: "auxiliary_factor list"
  in_actual_technical_problem :: ustr
  in_distinguishing_feature_statements :: "ustr list"
  in_numeric_ranges :: "numeric_range list"
  in_concept_relations :: "concept_relation list"
  in_known_substitutes :: "known_substitute list"

datatype package_blocker =
    Evidence_gap blocking_gap
  | Checklist_missing
  | Checklist_unanswered "string list"
  | No_prior_art

datatype package_flag =
    Evidence_flag evidence_flag
  | Priority_flag priority_flag
  | Invalid_priority_claims date
  | Reference_dates_differ
  | Hindsight_suspected
  | Combination_suggested
  | Entity_may_defeat
  | Entity_undetermined

record assessment_package =
  package_rules_version :: string
  pkg_reference_kinds :: "(string, reference_kind) pydict"
  pkg_priority :: priority_verification
  pkg_entity_observations :: "entity_observation list"
  pkg_findings :: "assessment_finding list"
  pkg_scaffold :: "three_step_scaffold option"
  pkg_motivation :: "motivation_state option"
  pkg_auxiliary :: auxiliary_evaluation
  pkg_hindsight :: "hindsight_report option"
  pkg_evidence :: evidence_completeness
  pkg_blockers :: "package_blocker list"
  pkg_flags :: "package_flag list"
  package_requires_human_confirmation :: bool
  pkg_prompt_versions :: "(string, string) pydict"

definition input_total :: "assessment_input \<Rightarrow> int" where
  "input_total p =
     (case in_total_features p of
        None \<Rightarrow> int (count_set (map feature_code (in_rows p)))
      | Some n \<Rightarrow> n)"

definition input_codes :: "assessment_input \<Rightarrow> string list" where
  "input_codes p = sorted_set (map feature_code (in_rows p))"

text \<open>
  \<open>payload.distinguishing_feature_statements or (scaffold.distinguishing_features if scaffold else [])\<close>.
\<close>

definition hindsight_statements :: "assessment_input \<Rightarrow> three_step_scaffold option \<Rightarrow> ustr list" where
  "hindsight_statements p step =
     (if in_distinguishing_feature_statements p \<noteq> [] then in_distinguishing_feature_statements p
      else case step of None \<Rightarrow> [] | Some s \<Rightarrow> map u (distinguishing_features s))"

definition package_hindsight :: "assessment_input \<Rightarrow> three_step_scaffold option
    \<Rightarrow> hindsight_report option" where
  "package_hindsight p step =
     (if blank (in_actual_technical_problem p) then None
      else Some (hindsight_risk (in_actual_technical_problem p) (hindsight_statements p step)))"

definition package_blockers :: "evidence_completeness \<Rightarrow> motivation_state option
    \<Rightarrow> three_step_scaffold option \<Rightarrow> package_blocker list" where
  "package_blockers ev motive step =
     map Evidence_gap (blocking_gaps ev)
     @ (case motive of
          None \<Rightarrow> [Checklist_missing]
        | Some m \<Rightarrow> noted (checklist_blocks_conclusion m) (Checklist_unanswered (unanswered m)))
     @ noted (step = None) No_prior_art"

definition package_flags :: "date \<Rightarrow> evidence_completeness \<Rightarrow> priority_verification
    \<Rightarrow> hindsight_report option \<Rightarrow> assessment_finding list \<Rightarrow> entity_observation list
    \<Rightarrow> package_flag list" where
  "package_flags filing ev v hs fs obs =
     map Evidence_flag (evidence_flags ev) @ map Priority_flag (priority_flags v)
     @ noted (invalid_claims v \<noteq> []) (Invalid_priority_claims filing)
     @ noted (per_feature_reference_dates v \<noteq> []
              \<and> 1 < count_set (map snd (per_feature_reference_dates v))) Reference_dates_differ
     @ noted (case hs of None \<Rightarrow> False | Some h \<Rightarrow> hindsight_risk_found h) Hindsight_suspected
     @ noted (list_ex (\<lambda>f. finding_risk_kind f = Inventive_combination) fs) Combination_suggested
     @ noted (list_ex (\<lambda>x. effect x = May_defeat) obs) Entity_may_defeat
     @ noted (list_ex (\<lambda>x. effect x = Undetermined) obs) Entity_undetermined"

text \<open>The registry of \<^verbatim>\<open>prompts/assessment\<close>: the versions it pins.\<close>

definition PROMPT_VERSIONS :: "(string, string) pydict" where
  "PROMPT_VERSIONS = [(''assessment/novelty'', ''novelty-v2''), (''assessment/inventive_step'', ''inventive-step-v2'')]"

definition package_findings :: "assessment_input \<Rightarrow> priority_verification
    \<Rightarrow> (string, reference_kind) pydict \<Rightarrow> assessment_finding list \<Rightarrow> assessment_finding list" where
  "package_findings p v kinds priority_findings =
     priority_findings
     @ reference_eligibility_findings (in_documents p) (in_subject p) (Some v) kinds
     @ novelty_findings (in_rows p) (input_total p) kinds
     @ combination_findings (in_rows p) (input_total p) kinds"

definition assess_case :: "assessment_input \<Rightarrow> (rule_error, assessment_package) result" where
  "assess_case p =
     bind_result (verify_priority (in_subject p) (input_codes p)) (\<lambda>v.
     bind_result (priority_verification_findings (in_subject p) (input_codes p)) (\<lambda>priority_findings.
       let kinds = classify_all_references (in_documents p) (in_subject p) (Some v) (in_rows p);
           fs = package_findings p v kinds priority_findings;
           step = three_step (in_rows p) kinds;
           motive = map_option motivation_checklist_state (in_checklist p);
           hs = package_hindsight p step;
           obs = entity_level_observations (in_numeric_ranges p) (in_concept_relations p)
                   (in_known_substitutes p);
           ev = assess_evidence_completeness (in_rows p) (input_total p) (in_documents p) (in_citations p)
                  (in_source_runs p) (in_legal_status_as_of p);
           bs = package_blockers ev motive step;
           fl = package_flags (subject_filing_date (in_subject p)) ev v hs fs obs
       in Inr \<lparr>package_rules_version = ASSESSMENT_RULES_VERSION, pkg_reference_kinds = kinds,
               pkg_priority = v, pkg_entity_observations = obs, pkg_findings = fs, pkg_scaffold = step,
               pkg_motivation = motive,
               pkg_auxiliary = evaluate_auxiliary_factors (in_auxiliary_factors p), pkg_hindsight = hs,
               pkg_evidence = ev, pkg_blockers = bs, pkg_flags = fl,
               package_requires_human_confirmation =
                 (list_ex requires_human_confirmation fs \<or> bs \<noteq> [] \<or> fl \<noteq> []),
               pkg_prompt_versions = PROMPT_VERSIONS\<rparr>))"

section \<open>The frozen input profile\<close>

record claim_snapshot =
  snap_claim_id :: string
  snap_priority_date :: string
  snap_country :: string
  snap_first_application :: bool
  snap_same_subject :: bool
  snap_proof_verified :: bool
  snap_covers :: "string list"

record candidate_snapshot =
  snap_publication_number :: string
  snap_filing_date :: "string option"
  snap_candidate_priority_date :: "string option"
  snap_filed_in_china :: bool
  snap_source_verified :: bool

record profile_snapshot =
  snap_subject_filing_date :: string
  snap_application_type :: string
  snap_priority_claims :: "claim_snapshot list"
  snap_candidates :: "candidate_snapshot list"

definition claim_to_snapshot :: "priority_claim \<Rightarrow> claim_snapshot" where
  "claim_to_snapshot c =
     \<lparr>snap_claim_id = claim_id c, snap_priority_date = isoformat (pc_priority_date c),
      snap_country = pc_country c, snap_first_application = first_application c,
      snap_same_subject = same_subject c, snap_proof_verified = proof_verified c,
      snap_covers = sort (covers c)\<rparr>"

definition candidate_to_snapshot :: "candidate_document \<Rightarrow> candidate_snapshot" where
  "candidate_to_snapshot d =
     \<lparr>snap_publication_number = cd_publication_number d,
      snap_filing_date = map_option isoformat (filing_date d),
      snap_candidate_priority_date = map_option isoformat (priority_date d),
      snap_filed_in_china = filed_in_china d, snap_source_verified = source_verified d\<rparr>"

definition input_profile_snapshot :: "assessment_input \<Rightarrow> profile_snapshot" where
  "input_profile_snapshot p =
     \<lparr>snap_subject_filing_date = isoformat (subject_filing_date (in_subject p)),
      snap_application_type = application_type (in_subject p),
      snap_priority_claims = map claim_to_snapshot (priority_claims (in_subject p)),
      snap_candidates = map candidate_to_snapshot (in_documents p)\<rparr>"

section \<open>What a package says\<close>

lemma assess_case_unfold:
  assumes "assess_case p = Inr pkg"
  shows "verify_priority (in_subject p) (input_codes p) = Inr (pkg_priority pkg)"
    and "pkg_reference_kinds pkg =
           classify_all_references (in_documents p) (in_subject p) (Some (pkg_priority pkg)) (in_rows p)"
    and "\<exists>fs. priority_verification_findings (in_subject p) (input_codes p) = Inr fs
           \<and> pkg_findings pkg = package_findings p (pkg_priority pkg) (pkg_reference_kinds pkg) fs"
    and "pkg_scaffold pkg = three_step (in_rows p) (pkg_reference_kinds pkg)"
    and "pkg_blockers pkg = package_blockers
           (assess_evidence_completeness (in_rows p) (input_total p) (in_documents p) (in_citations p)
              (in_source_runs p) (in_legal_status_as_of p))
           (map_option motivation_checklist_state (in_checklist p)) (pkg_scaffold pkg)"
    and "package_requires_human_confirmation pkg \<longleftrightarrow>
           list_ex requires_human_confirmation (pkg_findings pkg) \<or> pkg_blockers pkg \<noteq> [] \<or> pkg_flags pkg \<noteq> []"
  using assms by (auto simp: assess_case_def Let_def)

lemma assess_case_total:
  "verify_priority (in_subject p) (input_codes p) = Inr v \<Longrightarrow> \<exists>pkg. assess_case p = Inr pkg"
  by (auto simp: assess_case_def priority_verification_findings_def Let_def)

lemma assess_case_error_iff:
  "assess_case p = Inl e \<longleftrightarrow> verify_priority (in_subject p) (input_codes p) = Inl e"
  by (cases "verify_priority (in_subject p) (input_codes p)")
    (auto simp: assess_case_def priority_verification_findings_def Let_def)

lemma document_finding_kind:
  "f \<in> set (document_finding s v kinds d) \<Longrightarrow>
     finding_risk_kind f = Reference_eligibility \<and> requires_human_confirmation f
     \<and> (\<forall>a b n. finding_reasoning f \<noteq> Pair_covers_all a b n)"
  by (cases "case map_of kinds (cd_doc_id d) of None \<Rightarrow> Unknown_kind | Some k \<Rightarrow> k")
    (simp_all add: document_finding_def eligibility_finding_def Let_def)

text \<open>The findings of the first two gates are never about novelty or combinations.\<close>

lemma priority_findings_kind:
  "priority_verification_findings s codes = Inr fs \<Longrightarrow> f \<in> set fs \<Longrightarrow>
     finding_risk_kind f = Priority_verification_risk \<and> requires_human_confirmation f
     \<and> (\<forall>a b n. finding_reasoning f \<noteq> Pair_covers_all a b n)"
  by (auto simp: priority_verification_findings_def split: if_splits)

lemma eligibility_findings_kind:
  "f \<in> set (reference_eligibility_findings docs s v kinds) \<Longrightarrow>
     finding_risk_kind f = Reference_eligibility \<and> requires_human_confirmation f
     \<and> (\<forall>a b n. finding_reasoning f \<noteq> Pair_covers_all a b n)"
  by (auto simp: reference_eligibility_findings_def Let_def dest: document_finding_kind)

lemma novelty_findings_kind:
  assumes "f \<in> set (novelty_findings rs n kinds)"
  shows "finding_risk_kind f = Novelty \<and> (requires_human_confirmation f \<longleftrightarrow> finding_level f \<noteq> High_novelty_risk)
     \<and> (\<forall>a b n. finding_reasoning f \<noteq> Pair_covers_all a b n)"
proof -
  have n: "0 < n" using assms by (auto simp: novelty_findings_def split: if_splits)
  obtain d where "f \<in> set (novelty_document n kinds (d, filter (\<lambda>r. doc_id r = d) rs))"
    using assms unfolding set_novelty_findings [OF n] by blast
  then show ?thesis by (auto simp: novelty_document_def Let_def split: if_splits)
qed

lemma combination_findings_kind:
  assumes "f \<in> set (combination_findings rs n kinds)"
  shows "requires_human_confirmation f \<and> (\<exists>a b. finding_reasoning f = Pair_covers_all a b n
     \<and> is_candidate rs kinds a \<and> is_candidate rs kinds b)"
proof -
  have n: "0 < n" using assms by (auto simp: combination_findings_def split: if_splits)
  note props = combination_documents_props [where rows = rs and kinds = kinds]
  obtain a b where ab: "(a, b) \<in> set (pairs (combination_documents (rows_by_doc rs) kinds))"
      "f \<in> set (combination_pair n (rows_by_doc rs) (a, b))"
    using assms unfolding set_combination_findings [OF n] by force
  with combination_pair_reasoning [OF ab(2)] pairs_iff_sorted [OF props(1,2)] props(3)
  show ?thesis by (auto simp: is_candidate_def)
qed

lemma three_step_None_iff: "three_step rs kinds = None \<longleftrightarrow> \<not> (\<exists>d. is_candidate rs kinds d)"
  using three_step_spec [of rs kinds] by (auto split: option.splits)

definition checklist_answered :: "assessment_input \<Rightarrow> bool" where
  "checklist_answered p \<longleftrightarrow>
     (\<exists>c. in_checklist p = Some c \<and>
        list_all answered [common_knowledge c, explicit_teaching c, prejudice_or_teaching_away c,
          combination_obstacle c, effect_predictability c])"

lemma package_blockers_empty_iff:
  "package_blockers ev (map_option motivation_checklist_state (in_checklist p)) step = [] \<longleftrightarrow>
     blocking_gaps ev = [] \<and> checklist_answered p \<and> step \<noteq> None"
  by (auto simp: package_blockers_def checklist_answered_def checklist_complete_iff split: option.splits)

lemma package_clean_iff:
  assumes "assess_case p = Inr pkg"
  shows "pkg_blockers pkg = [] \<longleftrightarrow>
    evidence_complete (in_rows p) (input_total p) (in_citations p) (in_source_runs p)
    \<and> checklist_answered p \<and> (\<exists>d. is_candidate (in_rows p) (pkg_reference_kinds pkg) d)"
  unfolding assess_case_unfold(5) [OF assms] package_blockers_empty_iff blocking_gaps_empty_iff
    assess_case_unfold(4) [OF assms] three_step_None_iff
  by simp

text \<open>
  C16: The package gate.  A pre-assessment package has no blocker exactly when the evidence is
  complete, all five items of the step-3 checklist are answered, and the matrix has a prior-art
  document.  A package that asks for no human confirmation has no blocker and no flag, and each of its
  findings is the single-reference novelty gate firing.
\<close>

theorem assess_case_gate:
  assumes "assess_case p = Inr pkg"
  shows "(pkg_blockers pkg = [] \<longleftrightarrow>
            evidence_complete (in_rows p) (input_total p) (in_citations p) (in_source_runs p)
            \<and> checklist_answered p
            \<and> (\<exists>d. is_candidate (in_rows p) (pkg_reference_kinds pkg) d))
    \<and> (\<not> package_requires_human_confirmation pkg \<longrightarrow>
         pkg_blockers pkg = [] \<and> pkg_flags pkg = []
         \<and> (\<forall>f \<in> set (pkg_findings pkg).
               finding_risk_kind f = Novelty \<and> finding_level f = High_novelty_risk))"
proof (rule conjI)
  note unfold = assess_case_unfold [OF assms]
  show "pkg_blockers pkg = [] \<longleftrightarrow>
            evidence_complete (in_rows p) (input_total p) (in_citations p) (in_source_runs p)
            \<and> checklist_answered p
            \<and> (\<exists>d. is_candidate (in_rows p) (pkg_reference_kinds pkg) d)"
    by (rule package_clean_iff [OF assms])
  obtain fs where fs: "priority_verification_findings (in_subject p) (input_codes p) = Inr fs"
      "pkg_findings pkg = package_findings p (pkg_priority pkg) (pkg_reference_kinds pkg) fs"
    using unfold(3) by blast
  have "finding_risk_kind f = Novelty \<and> finding_level f = High_novelty_risk"
    if "f \<in> set (pkg_findings pkg)" "\<not> requires_human_confirmation f" for f
    using that unfolding fs(2) package_findings_def
    using priority_findings_kind [OF fs(1)] eligibility_findings_kind novelty_findings_kind
      combination_findings_kind by (metis Un_iff set_append)
  then show "\<not> package_requires_human_confirmation pkg \<longrightarrow>
         pkg_blockers pkg = [] \<and> pkg_flags pkg = []
         \<and> (\<forall>f \<in> set (pkg_findings pkg).
               finding_risk_kind f = Novelty \<and> finding_level f = High_novelty_risk)"
    unfolding unfold(6) by (auto simp: list_ex_iff)
qed

definition sample_case :: assessment_input where
  "sample_case =
     \<lparr>in_subject = sample_subject [],
      in_documents = [sample_document ''D1'' (Some (Date 2020 1 1)) (Some (Date 2019 1 1))],
      in_rows = [\<lparr>feature_code = ''A'', doc_id = ''D1'', cell_judgment = ''identical''\<rparr>],
      in_citations = [sample_citation ''D1'' ''A''], in_source_runs = [], in_legal_status_as_of = [],
      in_total_features = None,
      in_checklist = Some \<lparr>common_knowledge = Some (u ''no''), explicit_teaching = Some (u ''no''),
        prejudice_or_teaching_away = Some (u ''no''), combination_obstacle = Some (u ''no''),
        effect_predictability = Some (u ''no'')\<rparr>,
      in_auxiliary_factors = [], in_actual_technical_problem = [],
      in_distinguishing_feature_statements = [], in_numeric_ranges = [], in_concept_relations = [],
      in_known_substitutes = []\<rparr>"

lemma sample_case_runs:
  "\<exists>pkg. assess_case sample_case = Inr pkg \<and> pkg_reference_kinds pkg = [(''D1'', Prior_art)]
     \<and> (\<exists>s. pkg_scaffold pkg = Some s \<and> closest_prior_art s = ''D1'')"
proof -
  have codes: "input_codes sample_case = [''A'']"
    by (simp add: input_codes_def sample_case_def sorted_set_def)
  obtain v where v: "verify_priority (in_subject sample_case) (input_codes sample_case) = Inr v"
      "per_feature_reference_dates v = [(''A'', Date 2024 6 1)]"
    unfolding codes
    by (simp add: sample_case_def sample_subject_def verify_priority_def subject_claims_def
        term_months_of_def PRIORITY_TERM_MONTHS_def Let_def)
  obtain pkg where pkg: "assess_case sample_case = Inr pkg" using assess_case_total [OF v(1)] by blast
  note unfold = assess_case_unfold [OF pkg]
  have "pkg_priority pkg = v" using unfold(1) v(1) by simp
  then have kinds: "pkg_reference_kinds pkg = [(''D1'', Prior_art)]"
    unfolding unfold(2)
    by (simp add: classify_all_references_def sample_case_def sample_document_def document_kind_def
        document_codes_def rows_by_doc_def group_by_def sorted_set_def classify_reference_def
        gate_date_def reference_date_for_def v(2) effective_filing_date_def min_date_def Let_def)
  have "\<exists>s. three_step (in_rows sample_case) [(''D1'', Prior_art)] = Some s \<and> closest_prior_art s = ''D1''"
    by (simp add: three_step_def scaffold_groups_def rows_by_doc_def group_by_def sample_case_def
        kind_or_prior_art_def Let_def)
  with pkg kinds unfold(4) show ?thesis by metis
qed

lemma sample_case_conditions:
  "evidence_complete (in_rows sample_case) (input_total sample_case) (in_citations sample_case) (in_source_runs sample_case)"
  "checklist_answered sample_case" "is_candidate (in_rows sample_case) [(''D1'', Prior_art)] ''D1''"
  by (simp_all add: evidence_complete_def sample_case_def input_total_def count_set_def all_codes_def
      anchor_def sample_citation_def located_def blank_iff u_def is_space_def checklist_answered_def answered_def
      is_candidate_def kind_or_prior_art_def)

lemma sample_case_clean: "assess_case sample_case = Inr pkg \<Longrightarrow> pkg_blockers pkg = []"
  using package_clean_iff [of sample_case pkg] sample_case_conditions sample_case_runs by fastforce

theorem assess_case_gate_witness:
  "\<exists>pkg. assess_case sample_case = Inr pkg \<and> pkg_blockers pkg = []"
proof -
  obtain pkg where pkg: "assess_case sample_case = Inr pkg"
      "pkg_reference_kinds pkg = [(''D1'', Prior_art)]"
    using sample_case_runs by blast
  then show ?thesis using assess_case_gate [OF pkg(1)] sample_case_conditions by metis
qed

text \<open>A document an inventive-step consideration of the package rests on.\<close>

definition used_for_inventiveness :: "assessment_package \<Rightarrow> string \<Rightarrow> bool" where
  "used_for_inventiveness pkg d \<longleftrightarrow>
     (\<exists>s. pkg_scaffold pkg = Some s \<and> closest_prior_art s = d)
   \<or> (\<exists>f \<in> set (pkg_findings pkg). \<exists>a b n. finding_reasoning f = Pair_covers_all a b n \<and> d \<in> {a, b})"

lemma used_is_candidate:
  assumes "assess_case p = Inr pkg" and "used_for_inventiveness pkg d"
  shows "is_candidate (in_rows p) (pkg_reference_kinds pkg) d"
proof -
  note unfold = assess_case_unfold [OF assms(1)]
  obtain fs where fs: "priority_verification_findings (in_subject p) (input_codes p) = Inr fs"
      "pkg_findings pkg = package_findings p (pkg_priority pkg) (pkg_reference_kinds pkg) fs"
    using unfold(3) by blast
  have pair: "is_candidate (in_rows p) (pkg_reference_kinds pkg) d"
    if f: "f \<in> set (pkg_findings pkg)" "finding_reasoning f = Pair_covers_all a b n" "d \<in> {a, b}"
    for f a b n
  proof -
    have "f \<in> set (combination_findings (in_rows p) (input_total p) (pkg_reference_kinds pkg))"
      using f(1,2) unfolding fs(2) package_findings_def
      using priority_findings_kind [OF fs(1)] eligibility_findings_kind novelty_findings_kind
      by (metis Un_iff set_append)
    from combination_findings_kind [OF this] f(2,3) show ?thesis by auto
  qed
  have "is_candidate (in_rows p) (pkg_reference_kinds pkg) (closest_prior_art s)"
    if "pkg_scaffold pkg = Some s" for s
    using that three_step_spec [of "in_rows p" "pkg_reference_kinds pkg"] unfold(4) by auto
  with pair assms(2) show ?thesis unfolding used_for_inventiveness_def by blast
qed

text \<open>
  C17: What a package rests inventive step on is prior art in time.  The closest prior art and both
  documents of every suggested combination, as far as the case file describes them, were published
  before the filing date and before the date of every accepted priority claim that covers a feature
  the document is compared on.
\<close>

theorem inventiveness_rests_on_prior_art:
  assumes "assess_case p = Inr pkg" and "used_for_inventiveness pkg (cd_doc_id doc)"
    and "doc \<in> set (in_documents p)" and "distinct (map cd_doc_id (in_documents p))"
  shows "\<exists>published. publication_date doc = Some published
    \<and> published < subject_filing_date (in_subject p)
    \<and> (\<forall>r \<in> set (in_rows p). \<forall>c \<in> sound_claims (in_subject p).
         doc_id r = cd_doc_id doc \<and> covers_code (input_codes p) c (feature_code r)
         \<longrightarrow> published < pc_priority_date c)"
proof -
  note unfold = assess_case_unfold [OF assms(1)]
  let ?kind = "document_kind (in_subject p) (Some (pkg_priority pkg)) (in_rows p) doc"
  have kind: "map_of (pkg_reference_kinds pkg) (cd_doc_id doc) = Some ?kind"
    unfolding unfold(2) classify_all_references_def
    by (rule map_of_classify_loop [OF assms(4,3)])
  have cand: "is_candidate (in_rows p) (pkg_reference_kinds pkg) (cd_doc_id doc)"
    by (rule used_is_candidate [OF assms(1,2)])
  with kind have prior: "?kind = Prior_art" by (simp add: is_candidate_def kind_or_prior_art_def)
  obtain r0 where r0: "r0 \<in> set (in_rows p)" "doc_id r0 = cd_doc_id doc"
    using cand by (auto simp: is_candidate_def)
  have before: "\<exists>published. publication_date doc = Some published \<and>
      published < Min (insert (subject_filing_date (in_subject p))
        (pc_priority_date ` {c \<in> sound_claims (in_subject p).
           covers_code (input_codes p) c (feature_code r)}))"
    if "r \<in> set (in_rows p)" "doc_id r = cd_doc_id doc" for r
  proof -
    have "feature_code r \<in> set (input_codes p)" using that(1) by (simp add: input_codes_def)
    note date = verify_priority_feature [OF unfold(1) this]
    show ?thesis
      using date_gate_facts [OF assms(4,3) that, of "in_subject p" "pkg_priority pkg" ?kind]
        kind prior unfolding unfold(2) date by simp
  qed
  obtain published where pub: "publication_date doc = Some published" using before [OF r0] by blast
  have fin: "finite (sound_claims s)" for s by (simp add: sound_claims_def)
  have lt: "published < subject_filing_date (in_subject p)
      \<and> (\<forall>c \<in> sound_claims (in_subject p). covers_code (input_codes p) c (feature_code r)
           \<longrightarrow> published < pc_priority_date c)"
    if "r \<in> set (in_rows p)" "doc_id r = cd_doc_id doc" for r
    using before [OF that] pub fin by simp
  show ?thesis using pub lt r0 by blast
qed

theorem inventiveness_rests_on_prior_art_witness:
  "Date 2020 1 1 < subject_filing_date (in_subject sample_case)"
proof -
  let ?doc = "sample_document ''D1'' (Some (Date 2020 1 1)) (Some (Date 2019 1 1))"
  obtain pkg s where pkg: "assess_case sample_case = Inr pkg" "pkg_scaffold pkg = Some s"
      "closest_prior_art s = ''D1''"
    using sample_case_runs by blast
  have "used_for_inventiveness pkg (cd_doc_id ?doc)"
    using pkg(2,3) by (simp add: used_for_inventiveness_def sample_document_def)
  moreover have "?doc \<in> set (in_documents sample_case)"
    and "distinct (map cd_doc_id (in_documents sample_case))"
    by (simp_all add: sample_case_def)
  ultimately show ?thesis
    using inventiveness_rests_on_prior_art [OF pkg(1)] by (fastforce simp: sample_document_def)
qed

text \<open>
  A document of the matrix that the case file does not describe has no classification, and the
  gates read a missing one as prior art.
\<close>

lemma undescribed_document_is_prior_art:
  "cd_doc_id ` set docs \<inter> {d} = {} \<Longrightarrow>
     kind_or_prior_art (classify_all_references docs s v rs) d = Prior_art"
proof -
  have "d \<notin> cd_doc_id ` set docs \<Longrightarrow> map_of (classify_loop s v rs docs r) d = map_of r d" for r
    by (induction s v rs docs r rule: classify_loop.induct) (auto simp: map_of_dict_put)
  then show "cd_doc_id ` set docs \<inter> {d} = {} \<Longrightarrow> ?thesis"
    by (simp add: classify_all_references_def kind_or_prior_art_def)
qed

text \<open>The frozen profile holds no publication date, the date the gate decides on.\<close>

lemma snapshot_omits_publication_date:
  "input_profile_snapshot p =
     input_profile_snapshot (p\<lparr>in_documents := map (publication_date_update (\<lambda>_. x)) (in_documents p)\<rparr>)"
  by (simp add: input_profile_snapshot_def candidate_to_snapshot_def comp_def)

lemma publication_date_changes_kind:
  "document_kind (sample_subject []) None [] (sample_document ''D1'' (Some (Date 2020 1 1)) (Some (Date 2019 1 1)))
     = Prior_art"
  "document_kind (sample_subject []) None [] (sample_document ''D1'' None (Some (Date 2019 1 1)))
     = Unknown_kind"
  by (simp_all add: document_kind_def classify_reference_def gate_date_def sample_document_def
      sample_subject_def subject_reference_date_def effective_filing_date_def min_date_def Let_def)

end
