(* ===== verification/EventLog.thy ===== *)
theory EventLog
  imports Prelude
begin

text \<open>
  The contract of an append-only event log whose subjects have a status derived from their events.
  A provider shows that an append in order extends the events of its own subject and of no other;
  a client gets that histories built from allowed events stay legal and that a terminal status
  is the end of a history.
\<close>

locale event_log =
  fixes events :: "'s \<Rightarrow> 'k \<Rightarrow> 'e list"
    and append_row :: "'r \<Rightarrow> 's \<Rightarrow> 's"
    and subject_of :: "'r \<Rightarrow> 'k"
    and event_of :: "'r \<Rightarrow> 'e"
    and in_order :: "'r \<Rightarrow> 's \<Rightarrow> bool"
    and status_of :: "'e list \<Rightarrow> 'st"
    and allowed :: "'st \<Rightarrow> 'e \<Rightarrow> bool"
    and terminal :: "'st \<Rightarrow> bool"
  assumes append_own: "in_order r s \<Longrightarrow> events (append_row r s) (subject_of r) = events s (subject_of r) @ [event_of r]"
    and append_other: "k \<noteq> subject_of r \<Longrightarrow> events (append_row r s) k = events s k"
    and terminal_final: "terminal st \<Longrightarrow> \<not> allowed st e"
begin

definition legal :: "'e list \<Rightarrow> bool" where
  "legal es \<longleftrightarrow> (\<forall>i < length es. allowed (status_of (take i es)) (es ! i))"

definition lawful :: "'s \<Rightarrow> bool" where
  "lawful s \<longleftrightarrow> (\<forall>k. legal (events s k))"

lemma legal_Nil [simp]: "legal []"
  by (simp add: legal_def)

lemma legal_snoc [simp]: "legal (es @ [e]) \<longleftrightarrow> legal es \<and> allowed (status_of es) e"
  by (auto simp: legal_def nth_append less_Suc_eq)

lemma legal_prefix: "legal (es @ fs) \<Longrightarrow> legal es"
  by (induction fs rule: rev_induct) (simp_all flip: append_assoc)

lemma legal_event: "legal (es @ e # fs) \<Longrightarrow> allowed (status_of es) e"
  using legal_prefix [of "es @ [e]" fs] by simp

lemma terminal_last: "legal (es @ fs) \<Longrightarrow> terminal (status_of es) \<Longrightarrow> fs = []"
  by (cases fs) (simp, metis legal_event terminal_final)

lemma append_lawful:
  assumes "lawful s" and "in_order r s" and "allowed (status_of (events s (subject_of r))) (event_of r)"
  shows "lawful (append_row r s)"
  unfolding lawful_def
proof
  fix k
  show "legal (events (append_row r s) k)"
    using assms append_own [OF assms(2)] append_other [of k r s]
    by (cases "k = subject_of r") (simp_all add: lawful_def)
qed

lemma terminal_status_kept:
  assumes "in_order r s" and "allowed (status_of (events s (subject_of r))) (event_of r)"
    and "terminal (status_of (events s k))"
  shows "events (append_row r s) k = events s k"
  using assms append_other [of k r s] terminal_final by (cases "k = subject_of r") auto

end

end
