(* ===== verification/Approval.thy ===== *)
theory Approval
  imports Dates PyText EventLog
begin

text \<open>
  \<^verbatim>\<open>modules/assessment/approval.py\<close>: the state machine of one assessment version, the blocker gate of
  an approval and the decision signature.  An instant is a UTC date with the microseconds of its
  day, ordered lexicographically; the hash function is the argument \<open>sha256\<close>.
\<close>

section \<open>Instants\<close>

type_synonym instant = "date \<times> nat"

definition two_digits :: "nat \<Rightarrow> string" where
  "two_digits n = pad 2 (str_nat n)"

definition instant_isoformat :: "instant \<Rightarrow> string" where
  "instant_isoformat = (\<lambda>(d, us).
     let s = us div 1000000
     in isoformat d @ ''T'' @ two_digits (s div 3600) @ '':'' @ two_digits (s div 60 mod 60) @ '':''
        @ two_digits (s mod 60)
        @ (if us mod 1000000 = 0 then [] else ''.'' @ pad 6 (str_nat (us mod 1000000)))
        @ ''+00:00'')"

section \<open>Statuses and transitions\<close>

definition TERMINAL_STATUSES :: "string list" where
  "TERMINAL_STATUSES = [''approved'', ''rejected'']"

definition ALLOWED_TRANSITIONS :: "(string, string list) pydict" where
  "ALLOWED_TRANSITIONS =
     [(''draft'', [''submitted'']), (''submitted'', [''approved'', ''rejected'', ''draft''])]"

definition derive_status :: "string list \<Rightarrow> string" where
  "derive_status decisions =
     (if decisions = [] then ''draft''
      else if last decisions = ''changes_requested'' then ''draft''
      else if last decisions = ''approved'' then ''approved''
      else if last decisions = ''rejected'' then ''rejected''
      else ''submitted'')"

datatype approval_error =
    Version_frozen string
  | Invalid_transition string string
  | Blockers_open "ustr list"
  | Acceptance_reason_required

definition can_transit :: "string \<Rightarrow> string \<Rightarrow> bool" where
  "can_transit current target \<longleftrightarrow>
     target \<in> set (case map_of ALLOWED_TRANSITIONS current of None \<Rightarrow> [] | Some ts \<Rightarrow> ts)"

definition assert_transition :: "string \<Rightarrow> string \<Rightarrow> (approval_error, unit) result" where
  "assert_transition current target =
     (if current \<in> set TERMINAL_STATUSES then Inl (Version_frozen current)
      else if \<not> can_transit current target then Inl (Invalid_transition current target)
      else Inr ())"

section \<open>Decision records\<close>

record decision_record =
  dr_version_id :: string
  dr_version_number :: int
  dr_payload_sha256 :: string
  dr_decision :: string
  dr_reviewer :: "string option"
  dr_comments :: ustr
  dr_open_blockers :: "ustr list"
  dr_accepts_insufficient_evidence :: bool
  dr_signature :: string
  dr_decided_at :: instant

text \<open>The text that is hashed; an absent reviewer prints as \<open>None\<close>.\<close>

definition signature_payload :: "string \<Rightarrow> int \<Rightarrow> string \<Rightarrow> string \<Rightarrow> string option \<Rightarrow> string \<Rightarrow> string" where
  "signature_payload version_id version_number payload_sha256 decision reviewer decided_at =
     join ''|''
       [''assessment_version:'' @ version_id, ''version:'' @ str_int version_number,
        ''payload_sha256:'' @ payload_sha256, ''decision:'' @ decision,
        ''reviewer:'' @ (case reviewer of None \<Rightarrow> ''None'' | Some r \<Rightarrow> r), ''timestamp:'' @ decided_at]"

definition make_record :: "(string \<Rightarrow> string) \<Rightarrow> string \<Rightarrow> int \<Rightarrow> string \<Rightarrow> string \<Rightarrow> string option
    \<Rightarrow> ustr \<Rightarrow> ustr list \<Rightarrow> bool \<Rightarrow> instant \<Rightarrow> decision_record" where
  "make_record sha256 version_id version_number payload_sha256 decision reviewer comments open_blockers
      accepts decided_at =
     \<lparr>dr_version_id = version_id, dr_version_number = version_number,
      dr_payload_sha256 = payload_sha256, dr_decision = decision, dr_reviewer = reviewer,
      dr_comments = comments, dr_open_blockers = open_blockers,
      dr_accepts_insufficient_evidence = accepts,
      dr_signature = sha256 (signature_payload version_id version_number payload_sha256 decision
        reviewer (instant_isoformat decided_at)),
      dr_decided_at = decided_at\<rparr>"

definition generate_submission_record :: "(string \<Rightarrow> string) \<Rightarrow> string \<Rightarrow> int \<Rightarrow> string
    \<Rightarrow> string option \<Rightarrow> instant \<Rightarrow> decision_record" where
  "generate_submission_record sha256 version_id version_number payload_sha256 submitter submitted_at =
     make_record sha256 version_id version_number payload_sha256 ''submitted'' submitter [] [] False
       submitted_at"

definition approve :: "(string \<Rightarrow> string) \<Rightarrow> string \<Rightarrow> int \<Rightarrow> string \<Rightarrow> string \<Rightarrow> ustr list
    \<Rightarrow> string option \<Rightarrow> ustr \<Rightarrow> bool \<Rightarrow> instant \<Rightarrow> (approval_error, decision_record) result" where
  "approve sha256 version_id version_number current payload_sha256 blockers reviewer comments accepts now =
     bind_result (assert_transition current ''approved'') (\<lambda>_.
       let open_blockers = filter (\<lambda>b. \<not> blank b) blockers
       in if open_blockers \<noteq> [] \<and> \<not> accepts then Inl (Blockers_open open_blockers)
          else if open_blockers \<noteq> [] \<and> accepts \<and> blank comments then Inl Acceptance_reason_required
          else Inr (make_record sha256 version_id version_number payload_sha256 ''approved'' reviewer
                      comments open_blockers accepts now))"

definition reject :: "(string \<Rightarrow> string) \<Rightarrow> string \<Rightarrow> int \<Rightarrow> string \<Rightarrow> string \<Rightarrow> string option
    \<Rightarrow> ustr \<Rightarrow> instant \<Rightarrow> (approval_error, decision_record) result" where
  "reject sha256 version_id version_number current payload_sha256 reviewer comments now =
     bind_result (assert_transition current ''rejected'') (\<lambda>_.
       Inr (make_record sha256 version_id version_number payload_sha256 ''rejected'' reviewer comments
              [] False now))"

definition request_changes :: "(string \<Rightarrow> string) \<Rightarrow> string \<Rightarrow> int \<Rightarrow> string \<Rightarrow> string
    \<Rightarrow> string option \<Rightarrow> ustr \<Rightarrow> instant \<Rightarrow> (approval_error, decision_record) result" where
  "request_changes sha256 version_id version_number current payload_sha256 reviewer comments now =
     bind_result (assert_transition current ''draft'') (\<lambda>_.
       Inr (make_record sha256 version_id version_number payload_sha256 ''changes_requested'' reviewer
              comments [] False now))"

section \<open>The machine\<close>

text \<open>The event a status admits: its target status must be a transition of the table.\<close>

definition target_of :: "string \<Rightarrow> string" where
  "target_of decision = derive_status [decision]"

definition admits :: "string \<Rightarrow> string \<Rightarrow> bool" where
  "admits current decision \<longleftrightarrow>
     decision \<in> {''submitted'', ''approved'', ''rejected'', ''changes_requested''}
     \<and> assert_transition current (target_of decision) = Inr ()"

definition is_terminal :: "string \<Rightarrow> bool" where
  "is_terminal st \<longleftrightarrow> st \<in> set TERMINAL_STATUSES"

lemma derive_status_snoc: "derive_status (ds @ [d]) = target_of d"
  by (simp add: derive_status_def target_of_def)

lemma derive_status_range: "derive_status ds \<in> {''draft'', ''submitted'', ''approved'', ''rejected''}"
  by (simp add: derive_status_def)

lemma assert_transition_Inr:
  "assert_transition current target = Inr () \<longleftrightarrow>
     current = ''draft'' \<and> target = ''submitted''
   \<or> current = ''submitted'' \<and> target \<in> {''approved'', ''rejected'', ''draft''}"
  by (auto simp: assert_transition_def can_transit_def TERMINAL_STATUSES_def ALLOWED_TRANSITIONS_def
      split: if_splits)

lemma terminal_admits_nothing: "is_terminal st \<Longrightarrow> \<not> admits st d"
  by (auto simp: is_terminal_def admits_def assert_transition_def)

lemma admits_iff:
  "admits current d \<longleftrightarrow>
     current = ''draft'' \<and> d = ''submitted''
   \<or> current = ''submitted'' \<and> d \<in> {''approved'', ''rejected'', ''changes_requested''}"
  by (auto simp: admits_def assert_transition_Inr target_of_def derive_status_def)

lemma approve_Inr_iff:
  "approve sha256 vid n current sha bs reviewer comments accepts now = Inr r \<longleftrightarrow>
     current = ''submitted''
     \<and> (filter (\<lambda>b. \<not> blank b) bs = [] \<or> accepts \<and> \<not> blank comments)
     \<and> r = make_record sha256 vid n sha ''approved'' reviewer comments (filter (\<lambda>b. \<not> blank b) bs)
           accepts now"
  by (auto simp: approve_def assert_transition_Inr Let_def split: if_splits)

lemma reject_Inr_iff:
  "reject sha256 vid n current sha reviewer comments now = Inr r \<longleftrightarrow>
     current = ''submitted'' \<and> r = make_record sha256 vid n sha ''rejected'' reviewer comments [] False now"
  by (auto simp: reject_def assert_transition_Inr)

lemma request_changes_Inr_iff:
  "request_changes sha256 vid n current sha reviewer comments now = Inr r \<longleftrightarrow>
     current = ''submitted''
     \<and> r = make_record sha256 vid n sha ''changes_requested'' reviewer comments [] False now"
  by (auto simp: request_changes_def assert_transition_Inr)

section \<open>What a signature binds\<close>

lemma nat_digits_chars: "c \<in> set (nat_digits n) \<Longrightarrow> \<exists>d<10. c = char_of (d + 48 :: nat)"
proof (induction n rule: nat_digits.induct)
  case (1 n)
  show ?case
  proof (cases "n < 10")
    case True
    then show ?thesis using "1.prems" by (auto simp: nat_digits.simps [of n])
  next
    case False
    then have "c \<in> set (nat_digits (n div 10)) \<or> c = char_of (n mod 10 + 48)"
      using "1.prems" by (auto simp: nat_digits.simps [of n])
    then show ?thesis
      using "1.IH" [OF False] by (metis mod_less_divisor zero_less_numeral)
  qed
qed

lemma digit_not_sign:
  assumes "c \<in> set (nat_digits n)" and "of_char x < (48 :: nat) \<or> (57 :: nat) < of_char x"
  shows "c \<noteq> x"
proof -
  obtain d where "d < 10" "c = char_of (d + 48 :: nat)" using nat_digits_chars [OF assms(1)] by blast
  then have "of_char c = (d + 48 :: nat)" by (simp add: of_char_of)
  with assms(2) \<open>d < 10\<close> show ?thesis by auto
qed

lemma no_minus: "CHR ''-'' \<notin> set (str_nat n)"
  using digit_not_sign [of "CHR ''-''" n "CHR ''-''"] by (auto simp: str_nat_def)

lemma no_bar: "CHR ''|'' \<notin> set (str_nat n)"
  using digit_not_sign [of "CHR ''|''" n "CHR ''|''"] by (auto simp: str_nat_def)

lemma str_int_no_bar: "CHR ''|'' \<notin> set (str_int i)"
  using no_bar by (simp add: str_int_def)

lemma str_int_inj:
  assumes "str_int i = str_int j"
  shows "i = j"
proof -
  have sign: "i < 0 \<longleftrightarrow> j < 0"
    using assms no_minus by (metis list.set_intros(1) str_int_def)
  then have "str_nat (nat \<bar>i\<bar>) = str_nat (nat \<bar>j\<bar>)"
    using assms by (auto simp: str_int_def split: if_splits)
  then have "\<bar>i\<bar> = \<bar>j\<bar>" using str_nat_inj by fastforce
  with sign show ?thesis by linarith
qed

lemma isoformat_no_bar: "CHR ''|'' \<notin> set (instant_isoformat t)"
  using no_bar str_int_no_bar
  by (cases t) (auto simp: instant_isoformat_def Let_def isoformat_def pad_def two_digits_def)

definition bar_free :: "string \<Rightarrow> bool" where
  "bar_free s \<longleftrightarrow> CHR ''|'' \<notin> set s"

definition reviewer_text :: "string option \<Rightarrow> string" where
  "reviewer_text r = (case r of None \<Rightarrow> ''None'' | Some x \<Rightarrow> x)"

lemma signature_payload_inj:
  assumes "signature_payload v n p d r t = signature_payload v' n' p' d' r' t'"
    and "list_all bar_free [v, p, d, reviewer_text r, t, v', p', d', reviewer_text r', t']"
  shows "v = v' \<and> n = n' \<and> p = p' \<and> d = d' \<and> reviewer_text r = reviewer_text r' \<and> t = t'"
proof -
  let ?parts = "\<lambda>v n p d r t. [''assessment_version:'' @ v, ''version:'' @ str_int n,
        ''payload_sha256:'' @ p, ''decision:'' @ d, ''reviewer:'' @ reviewer_text r, ''timestamp:'' @ t]"
  have parts: "split_on (CHR ''|'') (signature_payload v n p d r t) = ?parts v n p d r t"
    if "list_all bar_free [v, p, d, reviewer_text r, t]" for v n p d r t
    unfolding signature_payload_def reviewer_text_def [symmetric]
    by (rule split_on_join) (use that str_int_no_bar in \<open>auto simp: bar_free_def\<close>)
  have "?parts v n p d r t = ?parts v' n' p' d' r' t'"
    using parts [of v p d r t n] parts [of v' p' d' r' t' n'] assms by simp
  then show ?thesis using str_int_inj by simp
qed

text \<open>
  A decision signature binds its decision.  With a collision-free hash, two decision records of
  the engine with the same signature are decisions of the same version and version number, over the
  same payload digest, with the same decision, reviewer and instant of decision as printed: an approval cannot be
  replayed against another package.
\<close>

theorem signature_binds_decision:
  assumes "inj sha256"
    and "list_all bar_free [v, p, d, reviewer_text r, v', p', d', reviewer_text r']"
    and "dr_signature (make_record sha256 v n p d r c b a t)
       = dr_signature (make_record sha256 v' n' p' d' r' c' b' a' t')"
  shows "v = v' \<and> n = n' \<and> p = p' \<and> d = d' \<and> reviewer_text r = reviewer_text r'
    \<and> instant_isoformat t = instant_isoformat t'"
  using assms(2,3) isoformat_no_bar
    signature_payload_inj [of v n p d r "instant_isoformat t" v' n' p' d' r' "instant_isoformat t'"]
  by (simp add: make_record_def inj_eq [OF assms(1)] bar_free_def)

theorem signature_binds_decision_witness:
  "dr_signature (make_record id ''v1'' 1 ''aa'' ''approved'' None [] [] False (Date 2024 1 1, 0))
     \<noteq> dr_signature (make_record id ''v1'' 1 ''bb'' ''approved'' None [] [] False (Date 2024 1 1, 0))"
  using signature_binds_decision [of id "''v1''" "''aa''" "''approved''" None "''v1''" "''bb''" "''approved''" None
      1 "[]" "[]" False "(Date 2024 1 1, 0)" 1 "[]" "[]" False "(Date 2024 1 1, 0)"]
  by (auto simp: bar_free_def reviewer_text_def)

text \<open>
  C24: The blocker gate of an approval.  \<open>approve\<close> returns a record exactly when the version awaits
  review and either no blocker is open or the reviewer accepts insufficient evidence and states a
  reason; the record then is an approval over the version's payload digest that lists the open
  blockers.
\<close>

theorem approve_gate:
  "case approve hash vid n current sha bs reviewer comments accepts now of
     Inl e \<Rightarrow> current \<noteq> ''submitted'' \<or> (\<exists>b \<in> set bs. \<not> blank b) \<and> \<not> (accepts \<and> \<not> blank comments)
   | Inr r \<Rightarrow> current = ''submitted'' \<and> (list_all blank bs \<or> accepts \<and> \<not> blank comments)
       \<and> dr_decision r = ''approved'' \<and> dr_payload_sha256 r = sha
       \<and> dr_open_blockers r = filter (\<lambda>b. \<not> blank b) bs"
proof (cases "approve hash vid n current sha bs reviewer comments accepts now")
  case (Inl e)
  then have "\<nexists>r. approve hash vid n current sha bs reviewer comments accepts now = Inr r" by simp
  then show ?thesis unfolding approve_Inr_iff by (auto simp: Inl filter_empty_conv)
next
  case (Inr r)
  then show ?thesis
    using approve_Inr_iff [of hash vid n current sha bs reviewer comments accepts now r]
    by (auto simp: make_record_def filter_empty_conv list_all_iff)
qed

theorem approve_gate_witness:
  "\<exists>r. approve id ''v1'' 1 ''submitted'' ''aa'' [u ''gap''] None (u ''why'') True (Date 2024 1 1, 0) = Inr r
     \<and> dr_open_blockers r = [u ''gap'']"
proof -
  have "\<not> blank (u ''gap'')" by (simp add: blank_iff u_def is_space_def)
  moreover have "\<not> blank (u ''why'')" by (simp add: blank_iff u_def is_space_def)
  ultimately show ?thesis
    using approve_gate [where hash = id and vid = "''v1''" and n = 1 and current = "''submitted''"
        and sha = "''aa''" and bs = "[u ''gap'']" and reviewer = None and comments = "u ''why''"
        and accepts = True and now = "(Date 2024 1 1, 0)"]
    by (cases "approve id ''v1'' 1 ''submitted'' ''aa'' [u ''gap''] None (u ''why'') True (Date 2024 1 1, 0)")
      auto
qed

end
