(* ===== verification/AssessService.thy ===== *)
theory AssessService
  imports AssessPackage Approval
begin

text \<open>
  \<^verbatim>\<open>apps/api/src/patent_evidence_api/assessment/services.py\<close>: assessment versions and their decision
  events.  Both tables only grow (the runtime roles hold \<open>SELECT\<close> and \<open>INSERT\<close> on them), so the
  state is two lists of rows in insertion order beside the cases.  Identifiers are in their text
  form.  Also here: \<^verbatim>\<open>modules/reports/conclusion.py\<close>, the gate over publishing, and the delivery gate.
  The digest of a package, the hash function, fresh identifiers and the clock are arguments.
\<close>

section \<open>Blocker messages\<close>

definition blocker_text :: "package_blocker \<Rightarrow> ustr" where
  "blocker_text b =
     (case b of
        Evidence_gap (Anchors_missing n) \<Rightarrow>
          [24341, 35777, 26410, 23450, 20301, 65288, 32570, 39029, 30721, 47, 27573, 33853, 47, 26435,
       21033, 35201, 27714, 20301, 32622, 25110, 21407, 25991, 24341, 25991, 65289]
          @ u (str_nat n) @ [32, 22788]
      | Evidence_gap (Quotes_unverified n) \<Rightarrow>
          [24341, 29992, 26410, 36880, 23383, 26680, 39564, 32] @ u (str_nat n) @ [32, 22788]
      | Evidence_gap (Sources_failed names) \<Rightarrow>
          [25968, 25454, 28304, 22833, 36133, 32] @ join [12289] (map u names) @
          [65288, 20219, 21153, 20026, 32, 112, 97, 114, 116, 105, 97, 108, 95, 115, 117, 99, 99, 101,
       115, 115, 65292, 19981, 24471, 20002, 24323, 25104, 21151, 32467, 26524, 65289]
      | Evidence_gap (Cells_missing n) \<Rightarrow>
          [32570, 22833, 27604, 23545, 21333, 20803, 26684, 32] @ u (str_nat n) @ [32, 39033]
      | Checklist_missing \<Rightarrow>
          [19977, 27493, 27861, 31532, 32, 51, 32, 27493, 32467, 21512, 21551, 31034, 28165, 21333,
       26410, 22635, 20889, 65292, 32570, 32, 53, 32, 39033, 24517, 31572, 39033]
      | Checklist_unanswered items \<Rightarrow>
          [32467, 21512, 21551, 31034, 28165, 21333, 23384, 22312, 26410, 22238, 31572, 39033, 65306] @ join [12289] (map u items)
      | No_prior_art \<Rightarrow>
          [26080, 21487, 29992, 29616, 26377, 25216, 26415, 65288, 25991, 29486, 22343, 20026, 25269,
       35302, 30003, 35831, 47, 19981, 21487, 29992, 47, 26085, 26399, 26410, 30693, 65289,
       65292, 26080, 27861, 30830, 23450, 26368, 25509, 36817, 30340, 29616, 26377, 25216,
       26415])"

section \<open>Rows and tables\<close>

record version_row =
  vr_id :: string
  vr_organization_id :: string
  vr_case_id :: string
  vr_version_number :: int
  vr_package :: assessment_package
  vr_payload_sha256 :: string
  vr_blockers :: "ustr list"
  vr_created_at :: instant

record snapshot_row =
  sr_organization_id :: string
  sr_case_id :: string
  sr_version_id :: string
  sr_version_number :: int
  sr_profile :: profile_snapshot

record review_row =
  rr_organization_id :: string
  rr_case_id :: string
  rr_decision :: decision_record
  rr_created_at :: instant

record assessment_db =
  cases_table :: "(string \<times> string) list"
  versions_table :: "version_row list"
  snapshots_table :: "snapshot_row list"
  reviews_table :: "review_row list"

datatype service_error =
    Http_error nat string
  | Approval_rejected approval_error
  | Rules_failed rule_error

text \<open>\<open>raise\<close> of the engine and of the rules, seen from the service.\<close>

definition lift_approval :: "(approval_error, 'a) result \<Rightarrow> (service_error, 'a) result" where
  "lift_approval r = (case r of Inl e \<Rightarrow> Inl (Approval_rejected e) | Inr x \<Rightarrow> Inr x)"

definition lift_rules :: "(rule_error, 'a) result \<Rightarrow> (service_error, 'a) result" where
  "lift_rules r = (case r of Inl e \<Rightarrow> Inl (Rules_failed e) | Inr x \<Rightarrow> Inr x)"

section \<open>Versions\<close>

definition assert_case :: "assessment_db \<Rightarrow> string \<Rightarrow> string \<Rightarrow> (service_error, unit) result" where
  "assert_case db org case_id =
     (if (org, case_id) \<in> set (cases_table db) then Inr () else Inl (Http_error 404 ''case_not_found''))"

definition case_versions :: "assessment_db \<Rightarrow> string \<Rightarrow> string \<Rightarrow> version_row list" where
  "case_versions db org case_id =
     filter (\<lambda>v. vr_organization_id v = org \<and> vr_case_id v = case_id) (versions_table db)"

text \<open>\<open>(SELECT MAX(version_number) or 0) + 1\<close>.\<close>

definition next_version_number :: "assessment_db \<Rightarrow> string \<Rightarrow> string \<Rightarrow> int" where
  "next_version_number db org case_id =
     (case map vr_version_number (case_versions db org case_id) of
        [] \<Rightarrow> 1
      | n # ns \<Rightarrow> max_key (\<lambda>x. x) n ns + 1)"

fun merge_blockers :: "ustr list \<Rightarrow> ustr list \<Rightarrow> ustr list" where
  "merge_blockers merged [] = merged"
| "merge_blockers merged (b # bs) =
     merge_blockers (if b \<in> set merged then merged else merged @ [b]) bs"

definition create_version :: "(assessment_package \<Rightarrow> string) \<Rightarrow> string \<Rightarrow> instant \<Rightarrow> string \<Rightarrow> string
    \<Rightarrow> assessment_input \<Rightarrow> ustr list \<Rightarrow> assessment_db
    \<Rightarrow> (service_error, version_row \<times> assessment_db) result" where
  "create_version digest fresh now org case_id payload extra_blockers db =
     bind_result (assert_case db org case_id) (\<lambda>_.
     bind_result (lift_rules (assess_case payload)) (\<lambda>package.
       let row = \<lparr>vr_id = fresh, vr_organization_id = org, vr_case_id = case_id,
                  vr_version_number = next_version_number db org case_id, vr_package = package,
                  vr_payload_sha256 = digest package,
                  vr_blockers = merge_blockers (map blocker_text (pkg_blockers package)) extra_blockers,
                  vr_created_at = now\<rparr>;
           snap = \<lparr>sr_organization_id = org, sr_case_id = case_id, sr_version_id = fresh,
                   sr_version_number = vr_version_number row, sr_profile = input_profile_snapshot payload\<rparr>
       in Inr (row, db\<lparr>versions_table := versions_table db @ [row],
                       snapshots_table := snapshots_table db @ [snap]\<rparr>)))"

definition get_version :: "assessment_db \<Rightarrow> string \<Rightarrow> string \<Rightarrow> int
    \<Rightarrow> (service_error, version_row) result" where
  "get_version db org case_id number =
     (case find (\<lambda>v. vr_version_number v = number) (case_versions db org case_id) of
        None \<Rightarrow> Inl (Http_error 404 ''assessment_version_not_found'')
      | Some v \<Rightarrow> Inr v)"

definition list_versions :: "assessment_db \<Rightarrow> string \<Rightarrow> string \<Rightarrow> version_row list" where
  "list_versions db org case_id =
     sort_key (\<lambda>v. - vr_version_number v) (case_versions db org case_id)"

definition get_input_snapshot :: "assessment_db \<Rightarrow> string \<Rightarrow> string \<Rightarrow> int \<Rightarrow> profile_snapshot option" where
  "get_input_snapshot db org case_id number =
     map_option sr_profile
       (find (\<lambda>s. sr_organization_id s = org \<and> sr_case_id s = case_id \<and> sr_version_number s = number)
          (snapshots_table db))"

section \<open>Decisions\<close>

text \<open>\<open>ORDER BY decided_at, created_at\<close>.\<close>

definition review_key :: "review_row \<Rightarrow> instant \<times> instant" where
  "review_key r = (dr_decided_at (rr_decision r), rr_created_at r)"

definition version_reviews :: "assessment_db \<Rightarrow> string \<Rightarrow> string \<Rightarrow> review_row list" where
  "version_reviews db org version_id =
     sort_key review_key
       (filter (\<lambda>r. rr_organization_id r = org \<and> dr_version_id (rr_decision r) = version_id)
          (reviews_table db))"

definition decision_sequence :: "assessment_db \<Rightarrow> string \<Rightarrow> string \<Rightarrow> string list" where
  "decision_sequence db org version_id =
     map (\<lambda>r. dr_decision (rr_decision r)) (version_reviews db org version_id)"

definition insert_decision :: "review_row \<Rightarrow> assessment_db \<Rightarrow> assessment_db" where
  "insert_decision r db = db\<lparr>reviews_table := reviews_table db @ [r]\<rparr>"

definition decision_row :: "string \<Rightarrow> string \<Rightarrow> instant \<Rightarrow> decision_record \<Rightarrow> review_row" where
  "decision_row org case_id created d =
     \<lparr>rr_organization_id = org, rr_case_id = case_id, rr_decision = d, rr_created_at = created\<rparr>"

definition submit_version :: "(string \<Rightarrow> string) \<Rightarrow> instant \<Rightarrow> instant \<Rightarrow> string \<Rightarrow> string \<Rightarrow> int
    \<Rightarrow> string option \<Rightarrow> assessment_db \<Rightarrow> (service_error, decision_record \<times> assessment_db) result" where
  "submit_version sha256 now created org case_id number actor db =
     bind_result (get_version db org case_id number) (\<lambda>v.
     bind_result (lift_approval
         (assert_transition (derive_status (decision_sequence db org (vr_id v))) ''submitted'')) (\<lambda>_.
       let d = generate_submission_record sha256 (vr_id v) (vr_version_number v) (vr_payload_sha256 v)
                 actor now
       in Inr (d, insert_decision (decision_row org case_id created d) db)))"

definition decide_version :: "(string \<Rightarrow> string) \<Rightarrow> instant \<Rightarrow> instant \<Rightarrow> string \<Rightarrow> string \<Rightarrow> int
    \<Rightarrow> string \<Rightarrow> string option \<Rightarrow> ustr \<Rightarrow> bool \<Rightarrow> assessment_db
    \<Rightarrow> (service_error, decision_record \<times> assessment_db) result" where
  "decide_version sha256 now created org case_id number decision reviewer comments accepts db =
     bind_result (get_version db org case_id number) (\<lambda>v.
       let current = derive_status (decision_sequence db org (vr_id v))
       in bind_result
            (if decision = ''approved'' then
               lift_approval (approve sha256 (vr_id v) (vr_version_number v) current
                 (vr_payload_sha256 v) (vr_blockers v) reviewer comments accepts now)
             else if decision = ''rejected'' then
               lift_approval (reject sha256 (vr_id v) (vr_version_number v) current
                 (vr_payload_sha256 v) reviewer comments now)
             else if decision = ''changes_requested'' then
               lift_approval (request_changes sha256 (vr_id v) (vr_version_number v) current
                 (vr_payload_sha256 v) reviewer comments now)
             else Inl (Http_error 422 ''unsupported_decision''))
            (\<lambda>d. Inr (d, insert_decision (decision_row org case_id created d) db)))"

definition current_status :: "assessment_db \<Rightarrow> string \<Rightarrow> string \<Rightarrow> int \<Rightarrow> (service_error, string) result" where
  "current_status db org case_id number =
     bind_result (get_version db org case_id number) (\<lambda>v.
       Inr (derive_status (decision_sequence db org (vr_id v))))"

end
