(* ===== verification/Delivery.thy ===== *)
theory Delivery
  imports AssessService
begin

text \<open>
  \<^verbatim>\<open>modules/reports/conclusion.py\<close> (may a candidate reading be published),
  \<^verbatim>\<open>modules/assessment/deliverable.py\<close> (the exported reading) and the delivery gate of
  \<^verbatim>\<open>assessment/services.py\<close>.  Fixed notices are left out; the computed fields are kept.
\<close>

section \<open>The conclusion gate\<close>

definition APPROVED_STATUS :: string where
  "APPROVED_STATUS = ''approved''"

record assessment_summary =
  has_version :: bool
  as_version_number :: "int option"
  as_status :: "string option"
  as_blockers :: "ustr list"
  as_payload_sha256 :: "string option"

definition no_summary :: assessment_summary where
  "no_summary = \<lparr>has_version = False, as_version_number = None, as_status = None, as_blockers = [],
     as_payload_sha256 = None\<rparr>"

datatype eligibility_reason =
    No_version
  | Not_approved "int option" ustr
  | Blockers_unresolved "int option" nat "ustr list" nat
  | Blockers_forbid_reading
  | Approved_without_blockers "int option"
  | Permission_is_no_conclusion

record conclusion_eligibility =
  eligible :: bool
  reasons :: "eligibility_reason list"
  ce_version_number :: "int option"
  ce_payload_sha256 :: "string option"

definition STATUS_LABELS :: "(string, ustr) pydict" where
  "STATUS_LABELS =
     [(''draft'', [33609, 31295]),
      (''submitted'', [24453, 22797, 26680]),
      (''approved'', [22797, 26680, 36890, 36807]),
      (''rejected'', [22797, 26680, 26410, 36890, 36807]),
      (''changes_requested'', [38656, 20462, 25913])]"

definition UNKNOWN_LABEL :: ustr where
  "UNKNOWN_LABEL = [26410, 30693]"

definition status_label :: "string option \<Rightarrow> ustr" where
  "status_label st =
     (let s = (case st of None \<Rightarrow> [] | Some x \<Rightarrow> u x); shown = (if s = [] then UNKNOWN_LABEL else s)
      in case map_of STATUS_LABELS (case st of None \<Rightarrow> [] | Some x \<Rightarrow> x) of
           None \<Rightarrow> shown | Some l \<Rightarrow> l)"

definition evaluate_conclusion_eligibility :: "assessment_summary \<Rightarrow> conclusion_eligibility" where
  "evaluate_conclusion_eligibility a =
     (if \<not> has_version a then
        \<lparr>eligible = False, reasons = [No_version], ce_version_number = None, ce_payload_sha256 = None\<rparr>
      else if as_status a \<noteq> Some APPROVED_STATUS then
        \<lparr>eligible = False, reasons = [Not_approved (as_version_number a) (status_label (as_status a))],
         ce_version_number = as_version_number a, ce_payload_sha256 = as_payload_sha256 a\<rparr>
      else if as_blockers a \<noteq> [] then
        \<lparr>eligible = False,
         reasons = [Blockers_unresolved (as_version_number a) (length (as_blockers a))
                      (take 5 (as_blockers a)) (length (as_blockers a) - 5), Blockers_forbid_reading],
         ce_version_number = as_version_number a, ce_payload_sha256 = as_payload_sha256 a\<rparr>
      else
        \<lparr>eligible = True,
         reasons = [Approved_without_blockers (as_version_number a), Permission_is_no_conclusion],
         ce_version_number = as_version_number a, ce_payload_sha256 = as_payload_sha256 a\<rparr>)"

section \<open>The deliverable\<close>

record finding_view =
  fv_risk_kind :: risk_kind
  fv_level :: finding_level
  fv_basis :: "basis_item list"
  fv_requires_human_confirmation :: bool

record observation_view =
  ov_kind :: string
  ov_feature_code :: string
  ov_doc_id :: string
  ov_effect :: entity_effect
  ov_reasoning :: observation_reasoning
  ov_requires_human_confirmation :: bool

record evidence_view =
  ev_source_coverage :: "nat \<times> nat"
  ev_verified_citations :: nat
  ev_total_citations :: nat
  ev_missing_anchors :: nat
  ev_unverified_citations :: nat
  ev_failed_sources :: nat
  ev_blocks_conclusion :: bool

record deliverable =
  dl_version_number :: int
  dl_payload_sha256 :: string
  dl_status :: string
  dl_status_label :: ustr
  dl_requires_human_confirmation :: bool
  dl_blockers :: "ustr list"
  dl_flags :: "package_flag list"
  dl_evidence :: evidence_view
  dl_three_step :: "three_step_scaffold option"
  dl_findings :: "finding_view list"
  dl_observations :: "observation_view list"
  dl_eligibility :: conclusion_eligibility
  dl_attachable :: "bool option"

definition view_evidence :: "evidence_completeness \<Rightarrow> evidence_view" where
  "view_evidence e =
     \<lparr>ev_source_coverage = source_coverage e, ev_verified_citations = verified_citations e,
      ev_total_citations = total_citations e, ev_missing_anchors = length (missing_anchors e),
      ev_unverified_citations = length (unverified_citations e),
      ev_failed_sources = length (failed_sources e), ev_blocks_conclusion = blocks_conclusion e\<rparr>"

definition view_finding :: "assessment_finding \<Rightarrow> finding_view" where
  "view_finding f =
     \<lparr>fv_risk_kind = finding_risk_kind f, fv_level = finding_level f, fv_basis = basis f,
      fv_requires_human_confirmation = requires_human_confirmation f\<rparr>"

definition view_observation :: "entity_observation \<Rightarrow> observation_view" where
  "view_observation x =
     \<lparr>ov_kind = obs_kind x, ov_feature_code = obs_feature_code x, ov_doc_id = obs_doc_id x,
      ov_effect = effect x, ov_reasoning = obs_reasoning x, ov_requires_human_confirmation = True\<rparr>"

definition version_summary :: "version_row \<Rightarrow> string \<Rightarrow> assessment_summary" where
  "version_summary v status =
     \<lparr>has_version = True, as_version_number = Some (vr_version_number v), as_status = Some status,
      as_blockers = vr_blockers v, as_payload_sha256 = Some (vr_payload_sha256 v)\<rparr>"

definition build_assessment_deliverable :: "version_row \<Rightarrow> string \<Rightarrow> conclusion_eligibility option
    \<Rightarrow> deliverable" where
  "build_assessment_deliverable v status eligibility =
     (let p = vr_package v
      in \<lparr>dl_version_number = vr_version_number v, dl_payload_sha256 = vr_payload_sha256 v,
          dl_status = status, dl_status_label = status_label (Some status),
          dl_requires_human_confirmation = package_requires_human_confirmation p,
          dl_blockers = vr_blockers v, dl_flags = pkg_flags p,
          dl_evidence = view_evidence (pkg_evidence p), dl_three_step = pkg_scaffold p,
          dl_findings = map view_finding (pkg_findings p),
          dl_observations = map view_observation (pkg_entity_observations p),
          dl_eligibility =
            (case eligibility of
               None \<Rightarrow> evaluate_conclusion_eligibility (version_summary v status)
             | Some e \<Rightarrow> e),
          dl_attachable = None\<rparr>)"

definition build_deliverable :: "assessment_db \<Rightarrow> string \<Rightarrow> string \<Rightarrow> int
    \<Rightarrow> (service_error, deliverable) result" where
  "build_deliverable db org case_id number =
     bind_result (get_version db org case_id number) (\<lambda>v.
     bind_result (current_status db org case_id number) (\<lambda>status.
       Inr (build_assessment_deliverable v status
              (Some (evaluate_conclusion_eligibility (version_summary v status))))))"

section \<open>The delivery gate\<close>

fun first_satisfied :: "assessment_db \<Rightarrow> string \<Rightarrow> string \<Rightarrow> version_row list
    \<Rightarrow> (service_error, (version_row \<times> string) option) result" where
  "first_satisfied db org case_id [] = Inr None"
| "first_satisfied db org case_id (v # vs) =
     bind_result (current_status db org case_id (vr_version_number v)) (\<lambda>status.
       if status = ''approved'' \<and> vr_blockers v = [] then Inr (Some (v, status))
       else first_satisfied db org case_id vs)"

definition latest_gate_satisfied_version :: "assessment_db \<Rightarrow> string \<Rightarrow> string
    \<Rightarrow> (service_error, (version_row \<times> string) option) result" where
  "latest_gate_satisfied_version db org case_id =
     first_satisfied db org case_id (list_versions db org case_id)"

definition assert_delivery_gate :: "assessment_db \<Rightarrow> string \<Rightarrow> string \<Rightarrow> (service_error, unit) result" where
  "assert_delivery_gate db org case_id =
     bind_result (latest_gate_satisfied_version db org case_id) (\<lambda>satisfied.
       case satisfied of
         None \<Rightarrow> Inl (Http_error 409 ''assessment_delivery_gate_not_satisfied'')
       | Some _ \<Rightarrow> Inr ())"

definition get_delivery_attachment :: "assessment_db \<Rightarrow> string \<Rightarrow> string
    \<Rightarrow> (service_error, deliverable option) result" where
  "get_delivery_attachment db org case_id =
     (case list_versions db org case_id of
        [] \<Rightarrow> Inr None
      | newest # _ \<Rightarrow>
          bind_result (latest_gate_satisfied_version db org case_id) (\<lambda>satisfied.
          bind_result
            (case satisfied of
               Some chosen \<Rightarrow> Inr chosen
             | None \<Rightarrow> map_sum id (\<lambda>status. (newest, status))
                        (current_status db org case_id (vr_version_number newest)))
            (\<lambda>(chosen, chosen_status).
          bind_result (build_deliverable db org case_id (vr_version_number chosen)) (\<lambda>d.
            Inr (Some (d\<lparr>dl_attachable := Some (chosen_status = ''approved'' \<and> vr_blockers chosen = [])\<rparr>))))))"

end
