(* ===== verification/AssessLifecycle.thy ===== *)
theory AssessLifecycle
  imports Delivery
begin

text \<open>
  The life of assessment versions: the service calls as a step relation, its invariant, and what an
  approved status and the delivery gate mean in every reachable state.  The review table is an
  instance of the event-log contract as long as the clock of the service runs forward.
\<close>

section \<open>The review table is an event log\<close>

lemma insort_key_snoc: "f a \<le> f x \<Longrightarrow> insort_key f a (ys @ [x]) = insort_key f a ys @ [x]"
  by (induction ys) auto

lemma sort_key_snoc: "(\<And>y. y \<in> set xs \<Longrightarrow> f y \<le> f x) \<Longrightarrow> sort_key f (xs @ [x]) = sort_key f xs @ [x]"
  by (induction xs) (auto simp: insort_key_snoc)

definition review_subject :: "review_row \<Rightarrow> string \<times> string" where
  "review_subject r = (rr_organization_id r, dr_version_id (rr_decision r))"

definition review_event :: "review_row \<Rightarrow> string" where
  "review_event r = dr_decision (rr_decision r)"

definition review_in_order :: "review_row \<Rightarrow> assessment_db \<Rightarrow> bool" where
  "review_in_order r db \<longleftrightarrow>
     list_all (\<lambda>x. review_subject x = review_subject r \<longrightarrow> review_key x < review_key r) (reviews_table db)"

definition review_events :: "assessment_db \<Rightarrow> string \<times> string \<Rightarrow> string list" where
  "review_events db = (\<lambda>(org, version_id). decision_sequence db org version_id)"

lemma review_events_alt:
  "review_events db k = map review_event (sort_key review_key (filter (\<lambda>r. review_subject r = k) (reviews_table db)))"
  by (cases k) (simp add: review_events_def decision_sequence_def version_reviews_def review_subject_def
      review_event_def)

interpretation reviews: event_log review_events insert_decision review_subject review_event
  review_in_order derive_status admits is_terminal
proof
  fix r db
  assume o: "review_in_order r db"
  have "sort_key review_key (filter (\<lambda>x. review_subject x = review_subject r) (reviews_table db) @ [r]) =
      sort_key review_key (filter (\<lambda>x. review_subject x = review_subject r) (reviews_table db)) @ [r]"
    by (rule sort_key_snoc) (use o in \<open>auto simp: review_in_order_def list_all_iff less_imp_le\<close>)
  then show "review_events (insert_decision r db) (review_subject r) =
      review_events db (review_subject r) @ [review_event r]"
    by (simp add: review_events_alt insert_decision_def)
next
  fix k r db
  assume "k \<noteq> review_subject r"
  then show "review_events (insert_decision r db) k = review_events db k"
    by (simp add: review_events_alt insert_decision_def)
next
  fix st e
  assume "is_terminal st"
  then show "\<not> admits st e" by (rule terminal_admits_nothing)
qed

section \<open>Steps\<close>

definition clock_ahead :: "instant \<Rightarrow> instant \<Rightarrow> assessment_db \<Rightarrow> bool" where
  "clock_ahead now created db \<longleftrightarrow> list_all (\<lambda>r. review_key r < (now, created)) (reviews_table db)"

inductive service_step :: "(assessment_package \<Rightarrow> string) \<Rightarrow> (string \<Rightarrow> string) \<Rightarrow> assessment_db
    \<Rightarrow> assessment_db \<Rightarrow> bool" for digest hash where
  create_step:
    "create_version digest fresh now org case_id payload extra db = Inr (row, db') \<Longrightarrow>
     fresh \<notin> vr_id ` set (versions_table db) \<Longrightarrow> service_step digest hash db db'"
| submit_step:
    "submit_version hash now created org case_id number actor db = Inr (d, db') \<Longrightarrow>
     clock_ahead now created db \<Longrightarrow> service_step digest hash db db'"
| decide_step:
    "decide_version hash now created org case_id number decision reviewer comments accepts db = Inr (d, db') \<Longrightarrow>
     clock_ahead now created db \<Longrightarrow> service_step digest hash db db'"

definition initial_db :: "(string \<times> string) list \<Rightarrow> assessment_db" where
  "initial_db cases = \<lparr>cases_table = cases, versions_table = [], snapshots_table = [], reviews_table = []\<rparr>"

inductive reachable :: "(assessment_package \<Rightarrow> string) \<Rightarrow> (string \<Rightarrow> string) \<Rightarrow> assessment_db \<Rightarrow> bool"
  for digest hash where
  start: "reachable digest hash (initial_db cases)"
| step: "reachable digest hash db \<Longrightarrow> service_step digest hash db db' \<Longrightarrow> reachable digest hash db'"

inductive_cases service_stepE: "service_step digest hash db db'"

section \<open>The invariant\<close>

text \<open>A review row names an existing version, carries its digest, and honours the blocker gate.\<close>

definition review_sound :: "assessment_db \<Rightarrow> review_row \<Rightarrow> bool" where
  "review_sound db r \<longleftrightarrow>
     (\<exists>v \<in> set (versions_table db).
        vr_id v = dr_version_id (rr_decision r) \<and> vr_organization_id v = rr_organization_id r
        \<and> dr_payload_sha256 (rr_decision r) = vr_payload_sha256 v
        \<and> (dr_decision (rr_decision r) = ''approved'' \<longrightarrow>
             dr_open_blockers (rr_decision r) = filter (\<lambda>b. \<not> blank b) (vr_blockers v)
             \<and> (dr_open_blockers (rr_decision r) \<noteq> [] \<longrightarrow>
                  dr_accepts_insufficient_evidence (rr_decision r) \<and> \<not> blank (dr_comments (rr_decision r)))))"

definition numbered :: "assessment_db \<Rightarrow> bool" where
  "numbered db \<longleftrightarrow>
     (\<forall>org case_id. map vr_version_number (case_versions db org case_id) =
        map int [1..<Suc (length (case_versions db org case_id))])"

definition db_inv :: "assessment_db \<Rightarrow> bool" where
  "db_inv db \<longleftrightarrow>
     reviews.lawful db \<and> list_all (review_sound db) (reviews_table db)
     \<and> distinct (map vr_id (versions_table db)) \<and> numbered db"

lemma find_Some_mem: "find P xs = Some x \<Longrightarrow> x \<in> set xs \<and> P x"
  by (induction xs) (auto split: if_splits)

lemma get_version_mem:
  assumes "get_version db org case_id n = Inr v"
  shows "v \<in> set (versions_table db) \<and> vr_organization_id v = org \<and> vr_case_id v = case_id
     \<and> vr_version_number v = n"
proof -
  have "find (\<lambda>v. vr_version_number v = n) (case_versions db org case_id) = Some v"
    using assms by (simp add: get_version_def split: option.splits)
  from find_Some_mem [OF this] show ?thesis by (simp add: case_versions_def)
qed

lemma lift_approval_Inr [simp]: "lift_approval r = Inr x \<longleftrightarrow> r = Inr x"
  by (cases r) (auto simp: lift_approval_def)

lemma submit_version_Inr:
  "submit_version hash now created org case_id n actor db = Inr (d, db') \<longleftrightarrow>
     (\<exists>v. get_version db org case_id n = Inr v
        \<and> derive_status (decision_sequence db org (vr_id v)) = ''draft''
        \<and> d = make_record hash (vr_id v) (vr_version_number v) (vr_payload_sha256 v) ''submitted'' actor
                [] [] False now
        \<and> db' = insert_decision (decision_row org case_id created d) db)"
  by (cases "get_version db org case_id n")
    (auto simp: submit_version_def generate_submission_record_def Let_def assert_transition_Inr)

text \<open>What \<open>decide_version\<close> records for a version it has read.\<close>

definition decided :: "(string \<Rightarrow> string) \<Rightarrow> instant \<Rightarrow> version_row \<Rightarrow> string \<Rightarrow> string option \<Rightarrow> ustr \<Rightarrow> bool
    \<Rightarrow> decision_record \<Rightarrow> bool" where
  "decided hash now v decision reviewer comments accepts d \<longleftrightarrow>
     decision \<in> {''approved'', ''rejected'', ''changes_requested''}
     \<and> (if decision = ''approved''
        then (filter (\<lambda>b. \<not> blank b) (vr_blockers v) = [] \<or> accepts \<and> \<not> blank comments)
          \<and> d = make_record hash (vr_id v) (vr_version_number v) (vr_payload_sha256 v) ''approved''
                  reviewer comments (filter (\<lambda>b. \<not> blank b) (vr_blockers v)) accepts now
        else d = make_record hash (vr_id v) (vr_version_number v) (vr_payload_sha256 v) decision
                  reviewer comments [] False now)"

lemma decide_version_Inr:
  "decide_version hash now created org case_id n decision reviewer comments accepts db = Inr (d, db') \<longleftrightarrow>
     (\<exists>v. get_version db org case_id n = Inr v
        \<and> derive_status (decision_sequence db org (vr_id v)) = ''submitted''
        \<and> decided hash now v decision reviewer comments accepts d
        \<and> db' = insert_decision (decision_row org case_id created d) db)"
proof (cases "get_version db org case_id n")
  case (Inl e)
  then show ?thesis by (simp add: decide_version_def)
next
  case (Inr v)
  consider "decision = ''approved''" | "decision = ''rejected''" | "decision = ''changes_requested''"
    | "decision \<notin> {''approved'', ''rejected'', ''changes_requested''}" by blast
  then show ?thesis
    by cases (simp_all add: decide_version_def Let_def approve_Inr_iff reject_Inr_iff
        request_changes_Inr_iff decided_def Inr del: not_Cons_self, blast+)
qed

lemma insert_decision_tables [simp]:
  "versions_table (insert_decision r db) = versions_table db"
  "case_versions (insert_decision r db) = case_versions db"
  "reviews_table (insert_decision r db) = reviews_table db @ [r]"
  "cases_table (insert_decision r db) = cases_table db"
  by (simp_all add: insert_decision_def case_versions_def [abs_def])

lemma review_sound_insert [simp]: "review_sound (insert_decision r db) = review_sound db"
  by (simp add: review_sound_def [abs_def])

lemma insert_decision_inv:
  assumes "db_inv db" and "review_in_order r db" and "review_sound db r"
    and "admits (derive_status (review_events db (review_subject r))) (review_event r)"
  shows "db_inv (insert_decision r db)"
proof -
  have "reviews.lawful db" using assms(1) by (simp add: db_inv_def)
  from reviews.append_lawful [OF this assms(2,4)] show ?thesis
    using assms(1,3) unfolding db_inv_def numbered_def by simp
qed

lemma clock_ahead_in_order:
  "clock_ahead now created db \<Longrightarrow> dr_decided_at d = now \<Longrightarrow>
     review_in_order (decision_row org case_id created d) db"
  by (auto simp: clock_ahead_def review_in_order_def list_all_iff review_key_def decision_row_def)

lemma max_of_numbers:
  assumes "n # ns = map int [1..<Suc k]"
  shows "max_key (\<lambda>x. x) n ns = int k"
proof -
  have set: "set (n # ns) = int ` {1..<Suc k}"
    unfolding assms set_map set_upt ..
  have "0 < k" using assms by (cases k) auto
  then have "int k \<in> set (n # ns)" unfolding set by auto
  then have "int k \<le> max_key (\<lambda>x. x) n ns" by (rule max_key_ge)
  moreover have "max_key (\<lambda>x. x) n ns \<in> int ` {1..<Suc k}"
    using max_key_mem [of "\<lambda>x. x" n ns] unfolding set by simp
  ultimately show ?thesis by auto
qed

lemma next_version_number_length:
  assumes "numbered db"
  shows "next_version_number db org case_id = int (length (case_versions db org case_id)) + 1"
proof (cases "map vr_version_number (case_versions db org case_id)")
  case Nil
  then show ?thesis by (simp add: next_version_number_def)
next
  case (Cons n ns)
  then have "n # ns = map int [1..<Suc (length (case_versions db org case_id))]"
    using assms unfolding numbered_def by metis
  from max_of_numbers [OF this] Cons show ?thesis by (simp add: next_version_number_def)
qed

lemma create_version_Inr:
  assumes "create_version digest fresh now org case_id payload extra db = Inr (row, db')"
  shows "reviews_table db' = reviews_table db" and "cases_table db' = cases_table db"
    and "versions_table db' = versions_table db @ [row]" and "vr_id row = fresh"
    and "vr_organization_id row = org" and "vr_case_id row = case_id"
    and "vr_version_number row = next_version_number db org case_id"
    and "\<exists>pkg. assess_case payload = Inr pkg \<and> vr_package row = pkg \<and> vr_payload_sha256 row = digest pkg
           \<and> vr_blockers row = merge_blockers (map blocker_text (pkg_blockers pkg)) extra"
    and "snapshots_table db' = snapshots_table db @
           [\<lparr>sr_organization_id = org, sr_case_id = case_id, sr_version_id = fresh,
             sr_version_number = vr_version_number row, sr_profile = input_profile_snapshot payload\<rparr>]"
  using assms by (auto simp: create_version_def Let_def lift_rules_def split: sum.splits)

lemma case_versions_create:
  assumes "create_version digest fresh now org case_id payload extra db = Inr (row, db')"
  shows "case_versions db' org' case' =
    case_versions db org' case' @ (if org' = org \<and> case' = case_id then [row] else [])"
  using create_version_Inr [OF assms] by (auto simp: case_versions_def)

lemma create_version_inv:
  assumes "db_inv db" and "create_version digest fresh now org case_id payload extra db = Inr (row, db')"
    and "fresh \<notin> vr_id ` set (versions_table db)"
  shows "db_inv db'"
proof -
  note created = create_version_Inr [OF assms(2)]
  have events: "review_events db' = review_events db"
    by (simp add: fun_eq_iff review_events_alt created(1))
  have "reviews.lawful db'"
    using assms(1) unfolding db_inv_def reviews.lawful_def events by blast
  moreover have "list_all (review_sound db') (reviews_table db')"
    using assms(1) unfolding db_inv_def created(1)
    by (auto simp: list_all_iff review_sound_def created(3))
  moreover have "distinct (map vr_id (versions_table db'))"
    using assms(1,3) by (auto simp: db_inv_def created(3,4))
  moreover have "numbered db'"
    unfolding numbered_def
  proof (intro allI)
    fix o' c'
    have num: "map vr_version_number (case_versions db o' c') =
        map int [1..<Suc (length (case_versions db o' c'))]" and n: "numbered db"
      using assms(1) unfolding db_inv_def numbered_def by blast+
    show "map vr_version_number (case_versions db' o' c') =
        map int [1..<Suc (length (case_versions db' o' c'))]"
      unfolding case_versions_create [OF assms(2)] map_append num
      by (simp add: created(7) next_version_number_length [OF n])
  qed
  ultimately show ?thesis by (simp add: db_inv_def)
qed

lemma derived_events: "derive_status (decision_sequence db org vid) = derive_status (review_events db (org, vid))"
  by (simp add: review_events_def)

lemma decision_row_simps [simp]:
  "review_subject (decision_row org case_id created d) = (org, dr_version_id d)"
  "review_event (decision_row org case_id created d) = dr_decision d"
  by (simp_all add: review_subject_def review_event_def decision_row_def)

lemma make_record_simps [simp]:
  "dr_version_id (make_record h v n p d r c b a t) = v"
  "dr_decision (make_record h v n p d r c b a t) = d"
  "dr_payload_sha256 (make_record h v n p d r c b a t) = p"
  "dr_decided_at (make_record h v n p d r c b a t) = t"
  "dr_open_blockers (make_record h v n p d r c b a t) = b"
  "dr_accepts_insufficient_evidence (make_record h v n p d r c b a t) = a"
  "dr_comments (make_record h v n p d r c b a t) = c"
  by (simp_all add: make_record_def)

lemma submit_version_inv:
  assumes "db_inv db" and "submit_version hash now created org case_id n actor db = Inr (d, db')"
    and "clock_ahead now created db"
  shows "db_inv db'"
proof -
  obtain v where v: "get_version db org case_id n = Inr v"
      "derive_status (decision_sequence db org (vr_id v)) = ''draft''"
      "d = make_record hash (vr_id v) (vr_version_number v) (vr_payload_sha256 v) ''submitted'' actor
                [] [] False now"
      "db' = insert_decision (decision_row org case_id created d) db"
    using assms(2) unfolding submit_version_Inr by blast
  note mem = get_version_mem [OF v(1)]
  show ?thesis unfolding v(4)
  proof (rule insert_decision_inv [OF assms(1)])
    show "review_in_order (decision_row org case_id created d) db"
      by (rule clock_ahead_in_order [OF assms(3)]) (simp add: v(3))
    show "review_sound db (decision_row org case_id created d)"
      using mem by (auto simp: review_sound_def decision_row_def v(3))
    show "admits (derive_status (review_events db (review_subject (decision_row org case_id created d))))
        (review_event (decision_row org case_id created d))"
      using v(2) by (simp add: v(3) derived_events admits_iff)
  qed
qed

lemma decided_facts:
  assumes "decided hash now v decision reviewer comments accepts d"
  shows "dr_version_id d = vr_id v \<and> dr_decision d = decision \<and> dr_payload_sha256 d = vr_payload_sha256 v
    \<and> dr_decided_at d = now \<and> decision \<in> {''approved'', ''rejected'', ''changes_requested''}
    \<and> (decision = ''approved'' \<longrightarrow>
         dr_open_blockers d = filter (\<lambda>b. \<not> blank b) (vr_blockers v)
         \<and> (dr_open_blockers d \<noteq> [] \<longrightarrow> dr_accepts_insufficient_evidence d \<and> \<not> blank (dr_comments d)))"
  using assms by (auto simp: decided_def split: if_splits)

lemma decide_version_inv:
  assumes "db_inv db"
    and "decide_version hash now created org case_id n decision reviewer comments accepts db = Inr (d, db')"
    and "clock_ahead now created db"
  shows "db_inv db'"
proof -
  obtain v where v: "get_version db org case_id n = Inr v"
      "derive_status (decision_sequence db org (vr_id v)) = ''submitted''"
      "decided hash now v decision reviewer comments accepts d"
      "db' = insert_decision (decision_row org case_id created d) db"
    using assms(2) unfolding decide_version_Inr by blast
  note mem = get_version_mem [OF v(1)] and facts = decided_facts [OF v(3)]
  show ?thesis unfolding v(4)
  proof (rule insert_decision_inv [OF assms(1)])
    show "review_in_order (decision_row org case_id created d) db"
      by (rule clock_ahead_in_order [OF assms(3)]) (use facts in blast)
    show "review_sound db (decision_row org case_id created d)"
      unfolding review_sound_def decision_row_def using mem facts by (intro bexI [of _ v]) auto
    show "admits (derive_status (review_events db (review_subject (decision_row org case_id created d))))
        (review_event (decision_row org case_id created d))"
      using v(2) facts by (simp add: derived_events admits_iff)
  qed
qed

lemma reachable_inv: "reachable digest hash db \<Longrightarrow> db_inv db"
proof (induction rule: reachable.induct)
  case (start cases)
  show ?case
    by (simp add: db_inv_def initial_db_def reviews.lawful_def review_events_alt numbered_def
        case_versions_def)
next
  case (step db db')
  from step.hyps(2) step.IH show ?case
    by (cases rule: service_step.cases)
      (auto intro: create_version_inv submit_version_inv decide_version_inv)
qed

section \<open>What the statuses mean\<close>

lemma current_status_Inr:
  "current_status db org case_id n = Inr st \<longleftrightarrow>
     (\<exists>v. get_version db org case_id n = Inr v \<and> st = derive_status (review_events db (org, vr_id v)))"
  by (auto simp: current_status_def derived_events)

lemma get_version_insert [simp]: "get_version (insert_decision r db) = get_version db"
  by (simp add: get_version_def [abs_def])

lemma find_append_Some: "find P xs = Some x \<Longrightarrow> find P (xs @ ys) = Some x"
  by (induction xs) (auto split: if_splits)

lemma get_version_create:
  assumes "create_version digest fresh now org case_id payload extra db = Inr (row, db')"
    and "get_version db org' case' n = Inr v"
  shows "get_version db' org' case' n = Inr v"
  using assms(2) find_append_Some
  by (fastforce simp: get_version_def case_versions_create [OF assms(1)] split: option.splits)

text \<open>An insertion the machine admits leaves the events of a terminal subject alone.\<close>

lemma step_keeps_terminal:
  assumes "db_inv db" and "service_step digest hash db db'"
    and "get_version db org case_id n = Inr v" and "is_terminal (derive_status (review_events db (org, vr_id v)))"
  shows "get_version db' org case_id n = Inr v \<and> review_events db' (org, vr_id v) = review_events db (org, vr_id v)"
  using assms(2)
proof (cases rule: service_step.cases)
  case (create_step fresh now org' case' payload extra row)
  have "review_events db' = review_events db"
    by (simp add: fun_eq_iff review_events_alt create_version_Inr(1) [OF create_step(1)])
  then show ?thesis using get_version_create [OF create_step(1) assms(3)] by simp
next
  case (submit_step now created org' case' n' actor d)
  then obtain v' :: version_row where v': "derive_status (decision_sequence db org' (vr_id v')) = ''draft''"
      "d = make_record hash (vr_id v') (vr_version_number v') (vr_payload_sha256 v') ''submitted'' actor
                [] [] False now"
      "db' = insert_decision (decision_row org' case' created d) db"
    unfolding submit_version_Inr by blast
  have ordered: "review_in_order (decision_row org' case' created d) db"
    by (rule clock_ahead_in_order [OF submit_step(2)]) (simp add: v'(2))
  have "admits (derive_status (review_events db (review_subject (decision_row org' case' created d))))
      (review_event (decision_row org' case' created d))"
    using v'(1) by (simp add: v'(2) derived_events admits_iff)
  from reviews.terminal_status_kept [OF ordered this assms(4)] assms(3) show ?thesis
    by (simp add: v'(3))
next
  case (decide_step now created org' case' n' decision reviewer comments accepts d)
  then obtain v' :: version_row where v': "derive_status (decision_sequence db org' (vr_id v')) = ''submitted''"
      "decided hash now v' decision reviewer comments accepts d"
      "db' = insert_decision (decision_row org' case' created d) db"
    unfolding decide_version_Inr by blast
  note facts = decided_facts [OF v'(2)]
  have ordered: "review_in_order (decision_row org' case' created d) db"
    by (rule clock_ahead_in_order [OF decide_step(2)]) (use facts in blast)
  have "admits (derive_status (review_events db (review_subject (decision_row org' case' created d))))
      (review_event (decision_row org' case' created d))"
    using v'(1) facts by (simp add: derived_events admits_iff)
  from reviews.terminal_status_kept [OF ordered this assms(4)] assms(3) show ?thesis
    by (simp add: v'(3))
qed

lemma assert_transition_frozen:
  "is_terminal st \<Longrightarrow> assert_transition st target = Inl (Version_frozen st)"
  by (simp add: assert_transition_def is_terminal_def)

text \<open>
  C3: An approved or rejected version is frozen.  In every state the service can reach while its
  clock runs forward, submitting a version with a terminal status or deciding on it is refused as frozen, and no step of
  the service, on this or any other version, ever changes that status.
\<close>

theorem terminal_version_frozen:
  assumes "reachable digest hash db" and "current_status db org case_id n = Inr st"
    and "st \<in> {''approved'', ''rejected''}"
  shows "submit_version hash now created org case_id n actor db = Inl (Approval_rejected (Version_frozen st))
    \<and> (\<forall>decision \<in> {''approved'', ''rejected'', ''changes_requested''}.
         decide_version hash now created org case_id n decision reviewer comments accepts db
           = Inl (Approval_rejected (Version_frozen st)))
    \<and> (\<forall>db'. service_step digest hash db db' \<longrightarrow> current_status db' org case_id n = Inr st)"
proof -
  obtain v where v: "get_version db org case_id n = Inr v"
      "st = derive_status (review_events db (org, vr_id v))"
    using assms(2) unfolding current_status_Inr by blast
  have terminal: "is_terminal st" using assms(3) by (simp add: is_terminal_def TERMINAL_STATUSES_def)
  have "current_status db' org case_id n = Inr st" if "service_step digest hash db db'" for db'
    using step_keeps_terminal [OF reachable_inv [OF assms(1)] that v(1)] terminal v(2)
    unfolding current_status_Inr by metis
  then show ?thesis
    using assert_transition_frozen [OF terminal] v
    by (simp add: submit_version_def decide_version_def approve_def reject_def request_changes_def
        lift_approval_def derived_events Let_def)
qed

text \<open>
  C4: What an approved status stands for.  In every reachable state, the decisions of an approved
  version end with a submission followed by one approval, and that approval is in the review table:
  it carries the digest of the frozen payload, lists the blockers that were open, and, if there were
  any, records that the reviewer accepted insufficient evidence and why.
\<close>

theorem approved_status_sound:
  assumes "reachable digest hash db" and "get_version db org case_id n = Inr v"
    and "current_status db org case_id n = Inr ''approved''"
  shows "(\<exists>earlier. decision_sequence db org (vr_id v) = earlier @ [''submitted'', ''approved''])
    \<and> (\<exists>r \<in> set (reviews_table db). rr_organization_id r = org
         \<and> dr_version_id (rr_decision r) = vr_id v \<and> dr_decision (rr_decision r) = ''approved''
         \<and> dr_payload_sha256 (rr_decision r) = vr_payload_sha256 v
         \<and> dr_open_blockers (rr_decision r) = filter (\<lambda>b. \<not> blank b) (vr_blockers v)
         \<and> (dr_open_blockers (rr_decision r) \<noteq> [] \<longrightarrow>
              dr_accepts_insufficient_evidence (rr_decision r) \<and> \<not> blank (dr_comments (rr_decision r))))"
proof -
  note inv = reachable_inv [OF assms(1)]
  let ?ds = "decision_sequence db org (vr_id v)"
  have st: "derive_status ?ds = ''approved''"
    using assms(2,3) by (auto simp: current_status_Inr derived_events)
  then obtain ds where ds: "?ds = ds @ [''approved'']"
    by (cases ?ds rule: rev_cases) (auto simp: derive_status_def split: if_splits)
  have legal: "reviews.legal ?ds"
    using inv by (auto simp: db_inv_def reviews.lawful_def review_events_def)
  then have "derive_status ds = ''submitted''" unfolding ds by (simp add: admits_iff)
  then obtain ds' d where d: "ds = ds' @ [d]"
    by (cases ds rule: rev_cases) (auto simp: derive_status_def)
  have "admits (derive_status ds') d" using legal unfolding ds d by (metis reviews.legal_snoc)
  with \<open>derive_status ds = ''submitted''\<close> have "d = ''submitted''"
    by (auto simp: d derive_status_snoc target_of_def derive_status_def admits_iff split: if_splits)
  with ds d have history: "?ds = ds' @ [''submitted'', ''approved'']" by simp
  have "''approved'' \<in> set ?ds" unfolding ds by simp
  then obtain r where r: "r \<in> set (reviews_table db)" "rr_organization_id r = org"
      "dr_version_id (rr_decision r) = vr_id v" "dr_decision (rr_decision r) = ''approved''"
    by (auto simp: decision_sequence_def version_reviews_def)
  have "review_sound db r" using inv r(1) by (simp add: db_inv_def list_all_iff)
  then obtain v' where v': "v' \<in> set (versions_table db)" "vr_id v' = vr_id v"
      "dr_payload_sha256 (rr_decision r) = vr_payload_sha256 v'"
      "dr_open_blockers (rr_decision r) = filter (\<lambda>b. \<not> blank b) (vr_blockers v')
             \<and> (dr_open_blockers (rr_decision r) \<noteq> [] \<longrightarrow>
                  dr_accepts_insufficient_evidence (rr_decision r) \<and> \<not> blank (dr_comments (rr_decision r)))"
    using r unfolding review_sound_def by auto
  have "v' = v"
    using inv v'(1,2) get_version_mem [OF assms(2)] by (auto simp: db_inv_def distinct_map inj_on_def)
  with r v' history show ?thesis by blast
qed

section \<open>A run to approval\<close>

lemma submit_runs:
  assumes "get_version db org c n = Inr v" and "review_events db (org, vr_id v) = []"
    and "clock_ahead now created db" and "db_inv db"
  shows "\<exists>d db'. submit_version hash now created org c n actor db = Inr (d, db')
    \<and> get_version db' org c n = Inr v \<and> review_events db' (org, vr_id v) = [''submitted'']
    \<and> reviews_table db' = reviews_table db @ [decision_row org c created d] \<and> dr_decided_at d = now"
proof -
  let ?d = "make_record hash (vr_id v) (vr_version_number v) (vr_payload_sha256 v) ''submitted'' actor
                [] [] False now"
  let ?r = "decision_row org c created ?d"
  have "submit_version hash now created org c n actor db = Inr (?d, insert_decision ?r db)"
    unfolding submit_version_Inr using assms(1,2) by (simp add: review_events_def derive_status_def)
  moreover have "review_events (insert_decision ?r db) (org, vr_id v) = [''submitted'']"
    using reviews.append_own [of ?r db] clock_ahead_in_order [OF assms(3), of ?d org c] assms(2) by simp
  ultimately show ?thesis using assms(1) by simp
qed

lemma approve_runs:
  assumes "get_version db org c n = Inr v" and "review_events db (org, vr_id v) = [''submitted'']"
    and "clock_ahead now created db" and "\<not> blank why"
  shows "\<exists>d db'. decide_version hash now created org c n ''approved'' reviewer why True db = Inr (d, db')
    \<and> get_version db' org c n = Inr v \<and> review_events db' (org, vr_id v) = [''submitted'', ''approved'']"
proof -
  let ?d = "make_record hash (vr_id v) (vr_version_number v) (vr_payload_sha256 v) ''approved'' reviewer why
      (filter (\<lambda>b. \<not> blank b) (vr_blockers v)) True now"
  let ?r = "decision_row org c created ?d"
  have "decide_version hash now created org c n ''approved'' reviewer why True db
      = Inr (?d, insert_decision ?r db)"
    unfolding decide_version_Inr using assms by (simp add: review_events_def derive_status_def decided_def)
  moreover have "review_events (insert_decision ?r db) (org, vr_id v) = [''submitted'', ''approved'']"
    using reviews.append_own [of ?r db] clock_ahead_in_order [OF assms(3), of ?d org c] assms(2) by simp
  ultimately show ?thesis using assms(1) by simp
qed

lemma sample_created:
  "\<exists>row db. reachable digest hash db \<and> get_version db ''o'' ''c'' 1 = Inr row \<and> reviews_table db = []
     \<and> vr_blockers row = []"
proof -
  let ?db0 = "initial_db [(''o'', ''c'')]" and ?t = "(Date 2024 1 1, 0)"
  obtain pkg where pkg: "assess_case sample_case = Inr pkg" using sample_case_runs by blast
  obtain row db where create: "create_version digest ''v1'' ?t ''o'' ''c'' sample_case [] ?db0 = Inr (row, db)"
    by (simp add: create_version_def assert_case_def initial_db_def lift_rules_def pkg Let_def)
  have "vr_version_number row = 1"
    by (simp add: create_version_Inr(7) [OF create] next_version_number_def initial_db_def case_versions_def)
  moreover have "case_versions db ''o'' ''c'' = [row]"
    using case_versions_create [OF create, of "''o''" "''c''"]
    by (simp add: case_versions_def initial_db_def)
  ultimately have "get_version db ''o'' ''c'' 1 = Inr row" by (simp add: get_version_def)
  moreover have "reviews_table db = []"
    by (simp add: create_version_Inr(1) [OF create] initial_db_def)
  moreover have "service_step digest hash ?db0 db"
    by (rule service_step.create_step [OF create]) (simp add: initial_db_def)
  moreover have "vr_blockers row = []"
    using create_version_Inr(8) [OF create] sample_case_clean by auto
  ultimately show ?thesis using reachable.step [OF reachable.start] by blast
qed

lemma sample_approved:
  "\<exists>db v. reachable digest hash db \<and> get_version db ''o'' ''c'' 1 = Inr v
     \<and> current_status db ''o'' ''c'' 1 = Inr ''approved'' \<and> vr_blockers v = []"
proof -
  let ?t1 = "(Date 2024 1 2, 0)" and ?t2 = "(Date 2024 1 3, 0)"
  obtain v db1 where db1: "reachable digest hash db1" "get_version db1 ''o'' ''c'' 1 = Inr v"
      "reviews_table db1 = []" "vr_blockers v = []"
    using sample_created by blast
  have ahead: "clock_ahead ?t1 ?t1 db1" and none: "review_events db1 k = []" for k
    by (simp_all add: clock_ahead_def review_events_alt db1(3))
  obtain d db2 where db2: "submit_version hash ?t1 ?t1 ''o'' ''c'' 1 None db1 = Inr (d, db2)"
      "get_version db2 ''o'' ''c'' 1 = Inr v" "review_events db2 (''o'', vr_id v) = [''submitted'']"
      "reviews_table db2 = reviews_table db1 @ [decision_row ''o'' ''c'' ?t1 d]" "dr_decided_at d = ?t1"
    using submit_runs [OF db1(2) none ahead reachable_inv [OF db1(1)], of hash None] by blast
  have r2: "reachable digest hash db2"
    by (rule reachable.step [OF db1(1) service_step.submit_step [OF db2(1) ahead]])
  have ahead2: "clock_ahead ?t2 ?t2 db2"
    by (simp add: clock_ahead_def db2(4,5) db1(3) review_key_def decision_row_def)
  have why: "\<not> blank (u ''ok'')" by (simp add: blank_iff u_def is_space_def)
  obtain d' db3 where db3: "decide_version hash ?t2 ?t2 ''o'' ''c'' 1 ''approved'' None (u ''ok'') True db2 = Inr (d', db3)"
      "get_version db3 ''o'' ''c'' 1 = Inr v" "review_events db3 (''o'', vr_id v) = [''submitted'', ''approved'']"
    using approve_runs [OF db2(2,3) ahead2 why, of hash None] by blast
  have "current_status db3 ''o'' ''c'' 1 = Inr ''approved''"
    unfolding current_status_Inr by (simp add: db3(2,3) derive_status_def)
  with reachable.step [OF r2 service_step.decide_step [OF db3(1) ahead2]] db3(2) db1(4) show ?thesis by blast
qed

theorem terminal_version_frozen_witness:
  "\<exists>db. submit_version id (Date 2025 1 1, 0) (Date 2025 1 1, 0) ''o'' ''c'' 1 None db
     = Inl (Approval_rejected (Version_frozen ''approved''))"
proof -
  obtain db where "reachable (\<lambda>_. []) id db" "current_status db ''o'' ''c'' 1 = Inr ''approved''"
    using sample_approved by blast
  from terminal_version_frozen [OF this] show ?thesis by blast
qed

theorem approved_status_sound_witness:
  "\<exists>db v earlier. get_version db ''o'' ''c'' 1 = Inr v
     \<and> decision_sequence db ''o'' (vr_id v) = earlier @ [''submitted'', ''approved'']"
proof -
  obtain db v where db: "reachable (\<lambda>_. []) id db" "get_version db ''o'' ''c'' 1 = Inr v"
      "current_status db ''o'' ''c'' 1 = Inr ''approved''"
    using sample_approved by blast
  from approved_status_sound [OF this] db(2) show ?thesis by blast
qed

end
