(* ===== verification/DeliveryGate.thy ===== *)
theory DeliveryGate
  imports AssessLifecycle
begin

text \<open>
  What the delivery gate and the attached deliverable say in every reachable state, the numbering
  of versions, and what happens when the clock of the service runs backwards.
\<close>

section \<open>Finding a version\<close>

lemma find_unique: "distinct (map f xs) \<Longrightarrow> x \<in> set xs \<Longrightarrow> find (\<lambda>y. f y = f x) xs = Some x"
  by (induction xs) auto

lemma find_sorted_le:
  "sorted (map f xs) \<Longrightarrow> find P xs = Some x \<Longrightarrow> y \<in> set xs \<Longrightarrow> P y \<Longrightarrow> f x \<le> f y"
  by (induction xs) (auto split: if_splits)

lemma find_None_conv: "find P xs = None \<longleftrightarrow> (\<forall>x \<in> set xs. \<not> P x)"
  by (induction xs) auto

lemma numbered_distinct: "numbered db \<Longrightarrow> distinct (map vr_version_number (case_versions db org c))"
  unfolding numbered_def by (metis distinct_map distinct_upt inj_on_of_nat)

lemma get_version_own:
  assumes "db_inv db" and "v \<in> set (case_versions db org c)"
  shows "get_version db org c (vr_version_number v) = Inr v"
  using find_unique [OF numbered_distinct assms(2)] assms(1) by (simp add: get_version_def db_inv_def)

definition version_status :: "assessment_db \<Rightarrow> string \<Rightarrow> version_row \<Rightarrow> string" where
  "version_status db org v = derive_status (decision_sequence db org (vr_id v))"

definition gate_ok :: "assessment_db \<Rightarrow> string \<Rightarrow> version_row \<Rightarrow> bool" where
  "gate_ok db org v \<longleftrightarrow> version_status db org v = ''approved'' \<and> vr_blockers v = []"

lemma current_status_own:
  assumes "db_inv db" and "v \<in> set (case_versions db org c)"
  shows "current_status db org c (vr_version_number v) = Inr (version_status db org v)"
  by (simp add: current_status_def get_version_own [OF assms] version_status_def)

lemma first_satisfied_find:
  assumes "db_inv db" and "set vs \<subseteq> set (case_versions db org c)"
  shows "first_satisfied db org c vs = Inr (map_option (\<lambda>v. (v, ''approved'')) (find (gate_ok db org) vs))"
  using assms(2)
proof (induction vs)
  case Nil
  then show ?case by simp
next
  case (Cons v vs)
  then show ?case using current_status_own [OF assms(1), of v org c] by (simp add: gate_ok_def)
qed

lemma latest_gate_find:
  "db_inv db \<Longrightarrow> latest_gate_satisfied_version db org c =
     Inr (map_option (\<lambda>v. (v, ''approved'')) (find (gate_ok db org) (list_versions db org c)))"
  by (simp add: latest_gate_satisfied_version_def first_satisfied_find list_versions_def)

lemma build_deliverable_own:
  assumes "db_inv db" and "v \<in> set (case_versions db org c)"
  shows "build_deliverable db org c (vr_version_number v) =
    Inr (build_assessment_deliverable v (version_status db org v)
           (Some (evaluate_conclusion_eligibility (version_summary v (version_status db org v)))))"
  by (simp add: build_deliverable_def get_version_own [OF assms] current_status_own [OF assms])

lemma eligible_iff:
  "eligible (evaluate_conclusion_eligibility a) \<longleftrightarrow>
     has_version a \<and> as_status a = Some ''approved'' \<and> as_blockers a = []"
  by (simp add: evaluate_conclusion_eligibility_def APPROVED_STATUS_def)

text \<open>The version an attachment is built from.\<close>

definition attached_version :: "assessment_db \<Rightarrow> string \<Rightarrow> string \<Rightarrow> version_row option" where
  "attached_version db org c =
     (case find (gate_ok db org) (list_versions db org c) of
        Some v \<Rightarrow> Some v
      | None \<Rightarrow> (case list_versions db org c of [] \<Rightarrow> None | v # _ \<Rightarrow> Some v))"

lemma get_delivery_attachment_eq:
  assumes "db_inv db"
  shows "get_delivery_attachment db org c =
    Inr (map_option (\<lambda>v. (build_assessment_deliverable v (version_status db org v)
           (Some (evaluate_conclusion_eligibility (version_summary v (version_status db org v)))))
             \<lparr>dl_attachable := Some (gate_ok db org v)\<rparr>) (attached_version db org c))"
proof (cases "list_versions db org c")
  case Nil
  then show ?thesis by (simp add: get_delivery_attachment_def attached_version_def)
next
  case (Cons newest older)
  have sub: "set (list_versions db org c) = set (case_versions db org c)" by (simp add: list_versions_def)
  show ?thesis
  proof (cases "find (gate_ok db org) (list_versions db org c)")
    case None
    have mem: "newest \<in> set (case_versions db org c)" unfolding sub [symmetric] Cons by simp
    show ?thesis
      using None build_deliverable_own [OF assms mem] current_status_own [OF assms mem]
        latest_gate_find [OF assms, of org c]
      by (simp add: get_delivery_attachment_def attached_version_def Cons gate_ok_def)
  next
    case (Some v)
    then have mem: "v \<in> set (case_versions db org c)" "gate_ok db org v"
      using find_Some_mem [OF Some] sub by auto
    show ?thesis
      using Some build_deliverable_own [OF assms mem(1)] latest_gate_find [OF assms, of org c] mem(2)
      by (simp add: get_delivery_attachment_def attached_version_def Cons gate_ok_def)
  qed
qed

text \<open>The version an attachment shows: the newest that satisfies the gate, or the newest of all when none does.\<close>

definition shown_version :: "assessment_db \<Rightarrow> string \<Rightarrow> string \<Rightarrow> version_row \<Rightarrow> bool" where
  "shown_version db org c v \<longleftrightarrow> v \<in> set (case_versions db org c)
     \<and> (if \<exists>w \<in> set (case_versions db org c). gate_ok db org w
        then gate_ok db org v
          \<and> (\<forall>w \<in> set (case_versions db org c). gate_ok db org w \<longrightarrow> vr_version_number w \<le> vr_version_number v)
        else \<forall>w \<in> set (case_versions db org c). vr_version_number w \<le> vr_version_number v)"

lemma attached_shown: "attached_version db org c = Some v \<Longrightarrow> shown_version db org c v"
proof -
  assume a: "attached_version db org c = Some v"
  have sub: "set (list_versions db org c) = set (case_versions db org c)" by (simp add: list_versions_def)
  have sorted: "sorted (map (\<lambda>v. - vr_version_number v) (list_versions db org c))" by (simp add: list_versions_def)
  show ?thesis
  proof (cases "find (gate_ok db org) (list_versions db org c)")
    case None
    then obtain vs where l: "list_versions db org c = v # vs"
      using a by (auto simp: attached_version_def split: list.splits)
    have none: "\<not> (\<exists>w \<in> set (case_versions db org c). gate_ok db org w)" using None unfolding find_None_conv sub by blast
    have "vr_version_number w \<le> vr_version_number v" if "w \<in> set (case_versions db org c)" for w
      using sorted that unfolding sub [symmetric] l by auto
    moreover have "v \<in> set (case_versions db org c)" unfolding sub [symmetric] l by simp
    ultimately show ?thesis using none unfolding shown_version_def by simp
  next
    case (Some w)
    then have f: "find (gate_ok db org) (list_versions db org c) = Some v" using a by (simp add: attached_version_def)
    have m: "v \<in> set (case_versions db org c)" "gate_ok db org v" using find_Some_mem [OF f] sub by auto
    have "vr_version_number w \<le> vr_version_number v" if "w \<in> set (case_versions db org c)" "gate_ok db org w" for w
      using find_sorted_le [OF sorted f] that sub by simp
    with m show ?thesis unfolding shown_version_def by auto
  qed
qed

text \<open>
  C5: The delivery gate.  In every reachable state, the gate lets a case through exactly when some
  version is approved and has no blocker.  The attached deliverable, if there is a version at all, is
  built from the newest version that satisfies the gate, or from the newest of all when none does: its number, digest,
  status, blockers, flags, evidence, three-step scaffold, findings, observations and publication verdict are those of that one version, and it is marked
  attachable exactly when that version satisfies the gate.
\<close>

theorem delivery_gate_exact:
  assumes "reachable digest hash db"
  shows "(assert_delivery_gate db org c = Inr () \<longleftrightarrow> (\<exists>v \<in> set (case_versions db org c). gate_ok db org v))
    \<and> (case get_delivery_attachment db org c of
         Inl _ \<Rightarrow> False
       | Inr None \<Rightarrow> case_versions db org c = []
       | Inr (Some d) \<Rightarrow>
           (dl_attachable d = Some True \<longleftrightarrow> assert_delivery_gate db org c = Inr ())
           \<and> (\<exists>v. shown_version db org c v
              \<and> dl_version_number d = vr_version_number v \<and> dl_payload_sha256 d = vr_payload_sha256 v
              \<and> dl_status d = version_status db org v \<and> dl_blockers d = vr_blockers v
              \<and> dl_flags d = pkg_flags (vr_package v) \<and> dl_evidence d = view_evidence (pkg_evidence (vr_package v))
              \<and> dl_three_step d = pkg_scaffold (vr_package v)
              \<and> dl_findings d = map view_finding (pkg_findings (vr_package v))
              \<and> dl_observations d = map view_observation (pkg_entity_observations (vr_package v))
              \<and> dl_attachable d = Some (gate_ok db org v)
              \<and> eligible (dl_eligibility d) = gate_ok db org v
              \<and> ce_version_number (dl_eligibility d) = Some (vr_version_number v)
              \<and> ce_payload_sha256 (dl_eligibility d) = Some (vr_payload_sha256 v)))"
proof -
  note inv = reachable_inv [OF assms]
  have sub: "set (list_versions db org c) = set (case_versions db org c)" by (simp add: list_versions_def)
  have gate: "assert_delivery_gate db org c = Inr () \<longleftrightarrow> (\<exists>v \<in> set (case_versions db org c). gate_ok db org v)"
    using find_None_conv [of "gate_ok db org" "list_versions db org c"] sub
    by (auto simp: assert_delivery_gate_def latest_gate_find [OF inv] split: option.splits)
  have none: "attached_version db org c = None \<longleftrightarrow> case_versions db org c = []"
    unfolding attached_version_def using sub by (auto split: option.splits list.splits dest: find_Some_mem)
  show ?thesis
  proof (cases "attached_version db org c")
    case None
    then show ?thesis using gate none by (simp add: get_delivery_attachment_eq [OF inv])
  next
    case (Some v)
    note shown = attached_shown [OF Some]
    then have ok: "gate_ok db org v \<longleftrightarrow> assert_delivery_gate db org c = Inr ()"
      using gate unfolding shown_version_def by (auto split: if_splits)
    let ?e = "evaluate_conclusion_eligibility (version_summary v (version_status db org v))"
    have e: "eligible ?e = gate_ok db org v" "ce_version_number ?e = Some (vr_version_number v)"
        "ce_payload_sha256 ?e = Some (vr_payload_sha256 v)"
      by (simp_all add: eligible_iff version_summary_def gate_ok_def) (simp_all add: evaluate_conclusion_eligibility_def)
    show ?thesis unfolding get_delivery_attachment_eq [OF inv] Some option.map sum.case option.case
      by (intro conjI exI [of _ v] shown gate; simp add: ok e build_assessment_deliverable_def Let_def)
  qed
qed

theorem delivery_gate_exact_witness:
  "\<exists>db. get_version db ''o'' ''c'' 1 \<noteq> Inl (Http_error 404 ''assessment_version_not_found'')
     \<and> (\<exists>d. get_delivery_attachment db ''o'' ''c'' = Inr (Some d)
          \<and> dl_attachable d = Some (eligible (dl_eligibility d)))"
proof -
  obtain db v where db: "reachable (\<lambda>_. []) id db" "get_version db ''o'' ''c'' 1 = Inr v"
    using sample_approved by blast
  have "case_versions db ''o'' ''c'' \<noteq> []"
    using get_version_mem [OF db(2)] by (auto simp: case_versions_def filter_empty_conv)
  with delivery_gate_exact [OF db(1), of "''o''" "''c''"]
  obtain d where "get_delivery_attachment db ''o'' ''c'' = Inr (Some d)"
      "dl_attachable d = Some (eligible (dl_eligibility d))"
    by (auto split: sum.splits option.splits)
  with db(2) show ?thesis by (intro exI [of _ db] conjI exI [of _ d]) simp_all
qed

text \<open>
  Versions of a case are numbered 1, 2, 3 and so on without gaps, in the order they were created,
  and a version once created keeps its number, package, digest and blockers through every step.
\<close>

theorem versions_numbered_and_immutable:
  assumes "reachable digest hash db"
  shows "map vr_version_number (case_versions db org c) = map int [1..<Suc (length (case_versions db org c))]
    \<and> (\<forall>db' n v. service_step digest hash db db' \<and> get_version db org c n = Inr v
         \<longrightarrow> get_version db' org c n = Inr v)"
proof -
  note inv = reachable_inv [OF assms]
  have "get_version db' org c n = Inr v"
    if "service_step digest hash db db'" "get_version db org c n = Inr v" for db' n v
    using that(1)
  proof (cases rule: service_step.cases)
    case (create_step fresh now org' case' payload extra row)
    from get_version_create [OF create_step(1) that(2)] show ?thesis .
  next
    case (submit_step now created org' case' n' actor d)
    then show ?thesis using that(2) by (auto simp: submit_version_Inr)
  next
    case (decide_step now created org' case' n' decision reviewer comments accepts d)
    then show ?thesis using that(2) by (auto simp: decide_version_Inr)
  qed
  moreover have "numbered db" using inv by (simp add: db_inv_def)
  ultimately show ?thesis unfolding numbered_def by blast
qed

theorem versions_numbered_and_immutable_witness:
  "\<exists>db. map vr_version_number (case_versions db ''o'' ''c'') =
     map int [1..<Suc (length (case_versions db ''o'' ''c''))] \<and> case_versions db ''o'' ''c'' \<noteq> []"
proof -
  obtain db v where db: "reachable (\<lambda>_. []) id db" "get_version db ''o'' ''c'' 1 = Inr v"
    using sample_approved by blast
  have "case_versions db ''o'' ''c'' \<noteq> []"
    using get_version_mem [OF db(2)] by (auto simp: case_versions_def filter_empty_conv)
  with versions_numbered_and_immutable [OF db(1), of "''o''" "''c''"] show ?thesis by blast
qed

section \<open>A clock that runs backwards\<close>

text \<open>
  The decisions are read in the order of their \<open>decided_at\<close>, the clock of the service and not the
  order of insertion.  An approval written with an earlier instant than the submission is
  accepted, and the version still reads as awaiting review.
\<close>

lemma backward_clock_hides_approval:
  "\<exists>db d db'. current_status db ''o'' ''c'' 1 = Inr ''submitted''
     \<and> decide_version hash (Date 2024 1 2, 0) (Date 2024 1 3, 1) ''o'' ''c'' 1 ''approved'' None (u ''ok'') True db
         = Inr (d, db')
     \<and> current_status db' ''o'' ''c'' 1 = Inr ''submitted''"
proof -
  let ?t2 = "(Date 2024 1 3, 0)" and ?t1 = "(Date 2024 1 2, 0)" and ?c1 = "(Date 2024 1 3, 1)"
  obtain v db1 where db1: "reachable (\<lambda>_. []) hash db1" "get_version db1 ''o'' ''c'' 1 = Inr v"
      "reviews_table db1 = []"
    using sample_created by blast
  have ahead: "clock_ahead ?t2 ?t2 db1" and none: "review_events db1 k = []" for k
    by (simp_all add: clock_ahead_def review_events_alt db1(3))
  obtain d1 db2 where db2: "submit_version hash ?t2 ?t2 ''o'' ''c'' 1 None db1 = Inr (d1, db2)"
      "get_version db2 ''o'' ''c'' 1 = Inr v" "review_events db2 (''o'', vr_id v) = [''submitted'']"
      "reviews_table db2 = reviews_table db1 @ [decision_row ''o'' ''c'' ?t2 d1]" "dr_decided_at d1 = ?t2"
    using submit_runs [OF db1(2) none ahead reachable_inv [OF db1(1)], of hash None] by blast
  let ?bs = "filter (\<lambda>b. \<not> blank b) (vr_blockers v)"
  let ?d = "make_record hash (vr_id v) (vr_version_number v) (vr_payload_sha256 v) ''approved'' None
      (u ''ok'') ?bs True ?t1"
  let ?r = "decision_row ''o'' ''c'' ?c1 ?d"
  have why: "\<not> blank (u ''ok'')" by (simp add: blank_iff u_def is_space_def)
  have decide: "decide_version hash ?t1 ?c1 ''o'' ''c'' 1 ''approved'' None (u ''ok'') True db2
      = Inr (?d, insert_decision ?r db2)"
    unfolding decide_version_Inr using db2(2,3) why
    by (simp add: review_events_def derive_status_def decided_def)
  have subject: "review_subject (decision_row ''o'' ''c'' ?t2 d1) = (''o'', vr_id v)"
    "review_event (decision_row ''o'' ''c'' ?t2 d1) = ''submitted''"
    using db2(3) by (auto simp: review_events_alt db2(4) db1(3) split: if_splits)
  have "review_events (insert_decision ?r db2) (''o'', vr_id v) = [''approved'', ''submitted'']"
    using subject by (simp add: review_events_alt db2(4,5) db1(3) review_key_def)
      (simp add: decision_row_def db2(5) review_event_def)
  then have "current_status (insert_decision ?r db2) ''o'' ''c'' 1 = Inr ''submitted''"
    unfolding current_status_Inr by (simp add: db2(2) derive_status_def)
  moreover have "current_status db2 ''o'' ''c'' 1 = Inr ''submitted''"
    unfolding current_status_Inr by (simp add: db2(2,3) derive_status_def)
  ultimately show ?thesis using decide by blast
qed

end
