(* ===== verification/VersionDiff.thy ===== *)
theory VersionDiff
  imports DeliveryGate
begin

text \<open>
  \<^verbatim>\<open>modules/assessment/diff.py\<close> and \<open>diff_versions\<close> of the service: the factual difference of two
  frozen packages.  A payload is the typed package; the content key of a finding, a printed tuple in
  the source, is the tuple itself.  The notes are constructors.
\<close>

section \<open>Splitting\<close>

record 'a split =
  added :: "'a list"
  removed :: "'a list"
  retained :: "'a list"

definition split_lists :: "'a list \<Rightarrow> 'a list \<Rightarrow> 'a split" where
  "split_lists older newer =
     \<lparr>added = filter (\<lambda>x. x \<notin> set older) newer, removed = filter (\<lambda>x. x \<notin> set newer) older,
      retained = filter (\<lambda>x. x \<in> set older) newer\<rparr>"

text \<open>\<open>{key(item): item for item in xs}\<close>: the last item of a key wins, at its first position.\<close>

definition key_map :: "('a \<Rightarrow> 'k) \<Rightarrow> 'a list \<Rightarrow> ('k, 'a) pydict" where
  "key_map key xs = foldl (\<lambda>d x. dict_put (key x) x d) [] xs"

definition split_by_key :: "'a list \<Rightarrow> 'a list \<Rightarrow> ('a \<Rightarrow> 'k) \<Rightarrow> 'a split" where
  "split_by_key older newer key =
     (let old_map = key_map key older; new_map = key_map key newer
      in \<lparr>added = map snd (filter (\<lambda>(k, _). map_of old_map k = None) new_map),
          removed = map snd (filter (\<lambda>(k, _). map_of new_map k = None) old_map),
          retained = map snd (filter (\<lambda>(k, _). map_of old_map k \<noteq> None) new_map)\<rparr>)"

section \<open>Keys\<close>

fun basis_pair :: "basis_item \<Rightarrow> string \<times> string" where
  "basis_pair (Basis_row r) = (doc_id r, feature_code r)"
| "basis_pair (Basis_doc_kind d k) = (d, [])"
| "basis_pair (Basis_valid_claims xs) = ([], [])"
| "basis_pair (Basis_invalid_claims xs) = ([], [])"
| "basis_pair (Basis_reference_date x) = ([], [])"
| "basis_pair (Basis_evidence n xs) = ([], [])"

definition finding_key :: "assessment_finding
    \<Rightarrow> risk_kind \<times> finding_level \<times> (string \<times> string) list \<times> reasoning" where
  "finding_key f =
     (finding_risk_kind f, finding_level f, sort (map basis_pair (basis f)), finding_reasoning f)"

fun effect_text :: "entity_effect \<Rightarrow> string" where
  "effect_text May_defeat = ''may_defeat_novelty''"
| "effect_text Does_not_defeat = ''does_not_defeat_novelty''"
| "effect_text Undetermined = ''undetermined''"

definition observation_key :: "entity_observation \<Rightarrow> string" where
  "observation_key x = obs_feature_code x @ ''|'' @ obs_doc_id x @ ''|'' @ effect_text (effect x)"

definition pc_key :: "claim_snapshot \<Rightarrow> string" where
  "pc_key c = snap_claim_id c @ ''|'' @ snap_priority_date c @ ''|'' @ snap_country c"

section \<open>Deltas\<close>

definition prompt_changes :: "(string, string) pydict \<Rightarrow> (string, string) pydict
    \<Rightarrow> (string \<times> string \<times> string) list" where
  "prompt_changes older newer =
     (let get = (\<lambda>d k. case map_of d k of None \<Rightarrow> [] | Some v \<Rightarrow> v);
          keys = sorted_set (map fst older @ map fst newer)
      in map (\<lambda>k. (k, get older k, get newer k)) (filter (\<lambda>k. get older k \<noteq> get newer k) keys))"

datatype evidence_scalar =
    Coverage_change "nat \<times> nat" "nat \<times> nat"
  | Verified_change nat nat
  | Total_change nat nat
  | Level_change finding_level finding_level
  | Blocks_change bool bool

datatype evidence_list_change =
    Names_change string "string split"
  | Gaps_change "blocking_gap split"

definition list_change :: "('a split \<Rightarrow> 'b) \<Rightarrow> 'a list \<Rightarrow> 'a list \<Rightarrow> 'b list" where
  "list_change mk older newer = noted (set older \<noteq> set newer) (mk (split_lists older newer))"

definition evidence_delta :: "evidence_completeness \<Rightarrow> evidence_completeness
    \<Rightarrow> evidence_scalar list \<times> evidence_list_change list" where
  "evidence_delta a b =
     (noted (source_coverage a \<noteq> source_coverage b) (Coverage_change (source_coverage a) (source_coverage b))
      @ noted (verified_citations a \<noteq> verified_citations b)
          (Verified_change (verified_citations a) (verified_citations b))
      @ noted (total_citations a \<noteq> total_citations b)
          (Total_change (total_citations a) (total_citations b))
      @ noted (evidence_level a \<noteq> evidence_level b) (Level_change (evidence_level a) (evidence_level b))
      @ noted (blocks_conclusion a \<noteq> blocks_conclusion b)
          (Blocks_change (blocks_conclusion a) (blocks_conclusion b)),
      list_change (Names_change ''missing_anchors'') (missing_anchors a) (missing_anchors b)
      @ list_change (Names_change ''unverified_citations'') (unverified_citations a) (unverified_citations b)
      @ list_change (Names_change ''abstract_only_citations'') (abstract_only_citations a)
          (abstract_only_citations b)
      @ list_change (Names_change ''failed_sources'') (failed_sources a) (failed_sources b)
      @ list_change (Names_change ''partial_sources'') (partial_sources a) (partial_sources b)
      @ list_change Gaps_change (blocking_gaps a) (blocking_gaps b))"

record three_step_change =
  closest_change :: "(string option \<times> string option) option"
  distinguishing_change :: "string split"
  present_in_both :: bool

definition three_step_delta :: "three_step_scaffold option \<Rightarrow> three_step_scaffold option
    \<Rightarrow> three_step_change" where
  "three_step_delta older newer =
     (let closest = map_option closest_prior_art;
          features = (\<lambda>s. case s of None \<Rightarrow> [] | Some x \<Rightarrow> distinguishing_features x)
      in \<lparr>closest_change =
            (if closest older \<noteq> closest newer then Some (closest older, closest newer) else None),
          distinguishing_change = split_lists (features older) (features newer),
          present_in_both = (older \<noteq> None \<and> newer \<noteq> None)\<rparr>)"

section \<open>Input profiles\<close>

datatype field_change =
    Text_change string "string option" "string option"
  | Flag_change string bool bool

record inputs_change =
  profile_changes :: "field_change list"
  claims_change :: "string split"
  candidates_added :: "string list"
  candidates_removed :: "string list"
  candidates_changed :: "(string \<times> field_change list) list"

definition candidate_changes :: "candidate_snapshot \<Rightarrow> candidate_snapshot \<Rightarrow> field_change list" where
  "candidate_changes a b =
     noted (snap_filing_date a \<noteq> snap_filing_date b)
       (Text_change ''filing_date'' (snap_filing_date a) (snap_filing_date b))
     @ noted (snap_candidate_priority_date a \<noteq> snap_candidate_priority_date b)
         (Text_change ''priority_date'' (snap_candidate_priority_date a) (snap_candidate_priority_date b))
     @ noted (snap_filed_in_china a \<noteq> snap_filed_in_china b)
         (Flag_change ''filed_in_china'' (snap_filed_in_china a) (snap_filed_in_china b))
     @ noted (snap_source_verified a \<noteq> snap_source_verified b)
         (Flag_change ''source_verified'' (snap_source_verified a) (snap_source_verified b))"

definition diff_inputs :: "profile_snapshot \<Rightarrow> profile_snapshot \<Rightarrow> inputs_change" where
  "diff_inputs a b =
     (let cand_a = key_map snap_publication_number (snap_candidates a);
          cand_b = key_map snap_publication_number (snap_candidates b);
          both = filter (\<lambda>(k, _). map_of cand_a k \<noteq> None) cand_b
      in \<lparr>profile_changes =
            noted (snap_subject_filing_date a \<noteq> snap_subject_filing_date b)
              (Text_change ''filing_date'' (Some (snap_subject_filing_date a))
                 (Some (snap_subject_filing_date b)))
            @ noted (snap_application_type a \<noteq> snap_application_type b)
                (Text_change ''application_type'' (Some (snap_application_type a))
                   (Some (snap_application_type b))),
          claims_change = split_lists (map pc_key (snap_priority_claims a)) (map pc_key (snap_priority_claims b)),
          candidates_added = map fst (filter (\<lambda>(k, _). map_of cand_a k = None) cand_b),
          candidates_removed = map fst (filter (\<lambda>(k, _). map_of cand_b k = None) cand_a),
          candidates_changed =
            filter (\<lambda>(_, cs). cs \<noteq> [])
              (map (\<lambda>(k, c). (k, candidate_changes (the (map_of cand_a k)) c)) both)\<rparr>)"

section \<open>The difference of two packages\<close>

datatype diff_note =
    Rules_versions_differ string string
  | Inputs_compared
  | Inputs_not_compared
  | Gone_is_not_solved

record version_diff =
  from_version :: int
  to_version :: int
  from_sha256 :: string
  to_sha256 :: string
  rules_from :: string
  rules_to :: string
  rules_version_changed :: bool
  diff_prompt_changes :: "(string \<times> string \<times> string) list"
  diff_blockers :: "package_blocker split"
  diff_flags :: "package_flag split"
  diff_findings :: "assessment_finding split"
  diff_evidence :: "evidence_scalar list \<times> evidence_list_change list"
  diff_three_step :: three_step_change
  diff_observations :: "entity_observation split"
  priority_changed :: bool
  diff_requires_human_confirmation :: bool
  diff_input_changes :: "inputs_change option"
  diff_notes :: "diff_note list"

definition diff_ordered :: "assessment_package \<Rightarrow> assessment_package \<Rightarrow> int \<Rightarrow> int \<Rightarrow> string \<Rightarrow> string
    \<Rightarrow> profile_snapshot option \<Rightarrow> profile_snapshot option \<Rightarrow> version_diff" where
  "diff_ordered older newer f t f_sha t_sha input_a input_b =
     (let rules_changed = (package_rules_version older \<noteq> package_rules_version newer);
          inputs = (case (input_a, input_b) of (Some a, Some b) \<Rightarrow> Some (diff_inputs a b) | _ \<Rightarrow> None);
          blockers = split_lists (pkg_blockers older) (pkg_blockers newer)
      in \<lparr>from_version = f, to_version = t, from_sha256 = f_sha, to_sha256 = t_sha,
          rules_from = package_rules_version older, rules_to = package_rules_version newer,
          rules_version_changed = rules_changed,
          diff_prompt_changes = prompt_changes (pkg_prompt_versions older) (pkg_prompt_versions newer),
          diff_blockers = blockers,
          diff_flags = split_lists (pkg_flags older) (pkg_flags newer),
          diff_findings = split_by_key (pkg_findings older) (pkg_findings newer) finding_key,
          diff_evidence = evidence_delta (pkg_evidence older) (pkg_evidence newer),
          diff_three_step = three_step_delta (pkg_scaffold older) (pkg_scaffold newer),
          diff_observations = split_by_key (pkg_entity_observations older) (pkg_entity_observations newer)
            observation_key,
          priority_changed = (pkg_priority older \<noteq> pkg_priority newer),
          diff_requires_human_confirmation =
            (package_requires_human_confirmation older \<or> package_requires_human_confirmation newer),
          diff_input_changes = inputs,
          diff_notes =
            noted rules_changed (Rules_versions_differ (package_rules_version older) (package_rules_version newer))
            @ [if inputs \<noteq> None then Inputs_compared else Inputs_not_compared]
            @ noted (removed blockers \<noteq> []) Gone_is_not_solved\<rparr>)"

text \<open>The smaller version number is the base: packages, numbers and digests are exchanged.\<close>

definition diff_payloads :: "assessment_package \<Rightarrow> assessment_package \<Rightarrow> int \<Rightarrow> int \<Rightarrow> string \<Rightarrow> string
    \<Rightarrow> profile_snapshot option \<Rightarrow> profile_snapshot option \<Rightarrow> version_diff" where
  "diff_payloads older newer f t f_sha t_sha input_a input_b =
     (if f > t then diff_ordered newer older t f t_sha f_sha input_a input_b
      else diff_ordered older newer f t f_sha t_sha input_a input_b)"

definition diff_versions :: "assessment_db \<Rightarrow> string \<Rightarrow> string \<Rightarrow> int \<Rightarrow> int
    \<Rightarrow> (service_error, version_diff) result" where
  "diff_versions db org case_id f t =
     bind_result (get_version db org case_id (min f t)) (\<lambda>older.
     bind_result (get_version db org case_id (max f t)) (\<lambda>newer.
       Inr (diff_payloads (vr_package older) (vr_package newer) (vr_version_number older)
              (vr_version_number newer) (vr_payload_sha256 older) (vr_payload_sha256 newer)
              (get_input_snapshot db org case_id (vr_version_number older))
              (get_input_snapshot db org case_id (vr_version_number newer)))))"

section \<open>What a difference states\<close>

lemma map_of_key_map_gen:
  "map_of (foldl (\<lambda>d x. dict_put (key x) x d) d xs) k =
     (case filter (\<lambda>x. key x = k) xs of [] \<Rightarrow> map_of d k | ys \<Rightarrow> Some (last ys))"
proof (induction xs arbitrary: d)
  case Nil
  then show ?case by simp
next
  case (Cons x xs)
  show ?case
    by (cases "filter (\<lambda>y. key y = k) xs"; cases "key x = k") (auto simp: Cons.IH map_of_dict_put)
qed

lemma map_of_key_map:
  "map_of (key_map key xs) k =
     (case filter (\<lambda>x. key x = k) xs of [] \<Rightarrow> None | ys \<Rightarrow> Some (last ys))"
  unfolding key_map_def map_of_key_map_gen by (simp split: list.split)

lemma key_map_None_iff: "map_of (key_map key xs) k = None \<longleftrightarrow> k \<notin> key ` set xs"
  using filter_empty_conv [of "\<lambda>x. key x = k" xs] by (auto simp: map_of_key_map split: list.splits)

lemma distinct_key_map [simp]: "distinct (map fst (key_map key xs))"
proof -
  have "distinct (map fst d) \<Longrightarrow> distinct (map fst (foldl (\<lambda>d x. dict_put (key x) x d) d xs))" for d
    by (induction xs arbitrary: d) simp_all
  then show ?thesis by (simp add: key_map_def)
qed

lemma key_map_entry:
  assumes "(k, x) \<in> set (key_map key xs)"
  shows "key x = k \<and> x \<in> set xs"
proof -
  have "map_of (key_map key xs) k = Some x" using assms by simp
  then have "filter (\<lambda>x. key x = k) xs \<noteq> []" "x = last (filter (\<lambda>x. key x = k) xs)"
    by (auto simp: map_of_key_map split: list.splits)
  then show ?thesis using last_in_set [of "filter (\<lambda>x. key x = k) xs"] by simp
qed

lemma key_map_keys: "k \<in> key ` set xs \<Longrightarrow> \<exists>x. (k, x) \<in> set (key_map key xs)"
  using key_map_None_iff [of key xs k] map_of_SomeD by fastforce

lemma keys_of_filtered:
  "key ` snd ` set (filter (\<lambda>(k, _). P k) (key_map key xs)) = {k \<in> key ` set xs. P k}"
proof (intro set_eqI iffI)
  fix k
  assume "k \<in> key ` snd ` set (filter (\<lambda>(k, _). P k) (key_map key xs))"
  then obtain k' x where x: "(k', x) \<in> set (key_map key xs)" "P k'" "k = key x" by auto
  from key_map_entry [OF x(1)] x show "k \<in> {k \<in> key ` set xs. P k}" by auto
next
  fix k
  assume k: "k \<in> {k \<in> key ` set xs. P k}"
  then obtain x where x: "(k, x) \<in> set (key_map key xs)" using key_map_keys [of k key xs] by auto
  with k have "(k, x) \<in> set (filter (\<lambda>(k, _). P k) (key_map key xs))" by simp
  then have "key (snd (k, x)) \<in> key ` snd ` set (filter (\<lambda>(k, _). P k) (key_map key xs))"
    by (intro imageI)
  with key_map_entry [OF x] show "k \<in> key ` snd ` set (filter (\<lambda>(k, _). P k) (key_map key xs))"
    by simp
qed

text \<open>A split tells the two sides apart, on the items or on their keys.\<close>

definition splits_sets :: "('a \<Rightarrow> 'k) \<Rightarrow> 'a split \<Rightarrow> 'a list \<Rightarrow> 'a list \<Rightarrow> bool" where
  "splits_sets key s older newer \<longleftrightarrow>
     key ` set (added s) = key ` set newer - key ` set older
   \<and> key ` set (removed s) = key ` set older - key ` set newer
   \<and> key ` set (retained s) = key ` set newer \<inter> key ` set older"

lemma split_by_key_splits: "splits_sets key (split_by_key older newer key) older newer"
  unfolding splits_sets_def split_by_key_def Let_def split.simps set_map keys_of_filtered
    key_map_None_iff by blast

lemma split_lists_splits: "splits_sets (\<lambda>x. x) (split_lists older newer) older newer"
  by (auto simp: splits_sets_def split_lists_def)

text \<open>
  The difference of two payloads is exact.  Its version numbers run from the smaller to the larger; blockers and flags are
  split into added, removed and retained ones, findings and observations up to their content key; a blocker that is gone
  comes with the note that gone does not mean solved; and confirmation is required if either side requires it.  The
  inputs are not exchanged with the payloads (\<open>diff_inputs_not_exchanged\<close>).
\<close>

theorem diff_splits_exactly:
  "let (older, newer) = (if f > t then (q, p) else (p, q)); d = diff_payloads p q f t sp sq ia ib
   in from_version d = min f t \<and> to_version d = max f t
    \<and> splits_sets (\<lambda>x. x) (diff_blockers d) (pkg_blockers older) (pkg_blockers newer)
    \<and> splits_sets (\<lambda>x. x) (diff_flags d) (pkg_flags older) (pkg_flags newer)
    \<and> splits_sets finding_key (diff_findings d) (pkg_findings older) (pkg_findings newer)
    \<and> splits_sets observation_key (diff_observations d) (pkg_entity_observations older)
        (pkg_entity_observations newer)
    \<and> (Gone_is_not_solved \<in> set (diff_notes d) \<longleftrightarrow> \<not> set (pkg_blockers older) \<subseteq> set (pkg_blockers newer))
    \<and> (diff_requires_human_confirmation d \<longleftrightarrow>
         package_requires_human_confirmation p \<or> package_requires_human_confirmation q)"
proof -
  have gone: "removed (split_lists xs ys) \<noteq> [] \<longleftrightarrow> \<not> set xs \<subseteq> set ys" for xs ys :: "package_blocker list"
    by (auto simp: split_lists_def filter_empty_conv)
  have ordered: "Gone_is_not_solved \<in> set (diff_notes (diff_ordered x y m n sx sy ia ib)) \<longleftrightarrow>
      \<not> set (pkg_blockers x) \<subseteq> set (pkg_blockers y)" for x y m n sx sy
    unfolding gone [symmetric] by (simp add: diff_ordered_def Let_def noted_def)
  show ?thesis
    unfolding Let_def diff_payloads_def
    by (simp add: ordered split_by_key_splits split_lists_splits)
      (auto simp: diff_ordered_def Let_def split_by_key_splits split_lists_splits)
qed

text \<open>
  The snapshots do not follow the exchange.  With the arguments in descending order and the
  snapshots beside their packages, the packages are compared upwards and the inputs downwards.
\<close>

lemma diff_inputs_not_exchanged:
  assumes "f > t"
  shows "diff_input_changes (diff_payloads p q f t sp sq (Some a) (Some b)) = Some (diff_inputs a b)
    \<and> diff_input_changes (diff_payloads q p t f sq sp (Some b) (Some a)) = Some (diff_inputs b a)
    \<and> diff_blockers (diff_payloads p q f t sp sq (Some a) (Some b))
        = diff_blockers (diff_payloads q p t f sq sp (Some b) (Some a))"
  using assms by (simp add: diff_payloads_def diff_ordered_def Let_def)

text \<open>
  Direction does not matter, as long as no snapshots take part: exchanging the two versions
  together with their numbers and digests gives the same difference.
\<close>

theorem diff_direction_independent:
  assumes "f \<noteq> t"
  shows "diff_payloads p q f t sp sq None None = diff_payloads q p t f sq sp None None"
  using assms by (simp add: diff_payloads_def)

theorem diff_direction_independent_witness:
  "\<forall>p q sp sq. diff_payloads p q 1 2 sp sq None None = diff_payloads q p 2 1 sq sp None None"
  by (intro allI, rule diff_direction_independent) simp

text \<open>The keys leave out what two records can differ in.\<close>

lemma claim_verdict_change_unseen:
  "claims_change (diff_inputs
     (a\<lparr>snap_priority_claims := [c\<lparr>snap_first_application := True\<rparr>]\<rparr>)
     (a\<lparr>snap_priority_claims := [c\<lparr>snap_first_application := False\<rparr>]\<rparr>))
   = \<lparr>added = [], removed = [], retained = [pc_key c]\<rparr>"
  by (simp add: diff_inputs_def Let_def split_lists_def pc_key_def)

lemma observation_of_other_kind_unseen:
  "removed (split_by_key
     [observe_numeric_range \<lparr>nr_feature_code = ''A'', nr_doc_id = ''D1'', claimed_lower = Some 1,
        claimed_upper = Some 3, disclosed_lower = Some 2, disclosed_upper = Some 4,
        disclosed_is_example = False\<rparr>,
      observe_known_substitute \<lparr>ks_feature_code = ''A'', ks_doc_id = ''D1'', claimed_means = [],
        disclosed_means = [], substitutability_documented = True\<rparr>]
     [observe_known_substitute \<lparr>ks_feature_code = ''A'', ks_doc_id = ''D1'', claimed_means = [],
        disclosed_means = [], substitutability_documented = True\<rparr>] observation_key) = []"
  by (simp add: split_by_key_def key_map_def observation_key_def observe_numeric_range_def
      observe_known_substitute_def overlaps_def Let_def)

end
