(* ===== verification/LegalUs.thy ===== *)
theory LegalUs
  imports Dates PyText
begin

text \<open>
  \<^verbatim>\<open>modules/legal_status/models.py\<close> and \<^verbatim>\<open>modules/legal_status/us.py\<close>, with \<open>us_extract\<close> of
  \<^verbatim>\<open>modules/legal_status/serialize.py\<close>: the legal status of a US patent from an Open Data Portal
  record.  A record is typed; an absent or null field is \<open>None\<close>.  \<open>Inl\<close> is the exception of a date
  outside the calendar.
\<close>

section \<open>Results of an assessment\<close>

datatype legal_status = Presumed_in_force | Lapsed | Expired | Status_undetermined

record status_evidence =
  se_source :: string
  se_code :: string
  se_description :: string
  se_event_date :: "date option"
  se_detail :: string

record term_computation =
  tc_term_start :: date
  tc_basis :: string
  tc_statutory_years :: int
  tc_adjustment_days :: int
  tc_expiry_date :: date

record country_status =
  cs_country :: string
  cs_lapsed_on :: "date option"
  cs_lapse_reason :: string
  cs_reinstated_on :: "date option"
  cs_last_fee_year :: "int option"
  cs_last_fee_paid_on :: "date option"

definition lapse_in_effect :: "country_status \<Rightarrow> bool" where
  "lapse_in_effect c =
     (case cs_lapsed_on c of
        None \<Rightarrow> False
      | Some l \<Rightarrow> (case cs_reinstated_on c of None \<Rightarrow> True | Some r \<Rightarrow> r < l))"

datatype review_reason =
    Not_granted
  | Lapsed_without_event
  | Lapse_recorded_later
  | Event_without_lapse
  | Reissue_term_unknown
  | Unrecognised_status string
  | No_filing_date
  | Adjustment_unknown
  | Terminal_disclaimer
  | Negative_events_unmapped "string list"
  | Unitary_effect
  | No_designated_states
  | No_national_events "string list"

record legal_assessment =
  la_jurisdiction :: string
  la_publication_number :: string
  la_as_of :: date
  la_status :: legal_status
  la_term :: "term_computation option"
  la_evidence :: "status_evidence list"
  la_reasons :: "review_reason list"
  la_data_as_of :: "string option"
  la_countries :: "country_status list"

datatype date_error = Date_out_of_range

section \<open>The record\<close>

record us_parent =
  par_type_code :: "string option"
  par_filing_date :: "string option"
  par_application_number :: "string option"

record us_event =
  ev_code :: "string option"
  ev_description :: "string option"
  ev_date :: "string option"

record us_meta =
  um_filing_date :: "string option"
  um_grant_date :: "string option"
  um_patent_number :: "string option"
  um_status_text :: "string option"
  um_status_date :: "string option"
  um_effective_filing_date :: "string option"
  um_type_category :: "string option"

record us_record =
  ur_application_number :: "string option"
  ur_last_ingestion :: "string option"
  ur_meta :: "us_meta option"
  ur_events :: "us_event list option"
  ur_parents :: "us_parent list option"
  ur_pta :: "int option option"

definition no_meta :: us_meta where
  "no_meta = \<lparr>um_filing_date = None, um_grant_date = None, um_patent_number = None,
     um_status_text = None, um_status_date = None, um_effective_filing_date = None,
     um_type_category = None\<rparr>"

text \<open>\<open>record.get(...) or {}\<close>, \<open>or []\<close> and \<open>or ""\<close>.\<close>

definition or_else :: "'a option \<Rightarrow> 'a \<Rightarrow> 'a" where
  "or_else x d = (case x of None \<Rightarrow> d | Some y \<Rightarrow> y)"

lemma or_else_simps [simp]: "or_else None d = d" "or_else (Some y) d = y"
  by (simp_all add: or_else_def)

section \<open>Rules\<close>

definition US_SOURCE :: string where
  "US_SOURCE = ''USPTO ODP''"

definition TERM_PARENT_CODES :: "string list" where
  "TERM_PARENT_CODES = [''CON'', ''DIV'', ''CIP'', ''NST'']"

definition LAPSED_STATUS_MARKER :: string where
  "LAPSED_STATUS_MARKER = ''Expired Due to NonPayment of Maintenance Fees''"

definition IN_FORCE_STATUS :: string where
  "IN_FORCE_STATUS = ''Patented Case''"

definition TERMINAL_DISCLAIMER_CODES :: "string list" where
  "TERMINAL_DISCLAIMER_CODES = [''DIST'', ''P574'']"

definition EXPIRY_EVENT :: string where
  "EXPIRY_EVENT = ''EXP.''"

definition EVIDENCE_EVENT_PREFIXES :: "string list" where
  "EVIDENCE_EVENT_PREFIXES = [''M155'', ''M255'', ''M355'', ''EXP'', ''REM'']"

definition starts_with_any :: "string \<Rightarrow> string list \<Rightarrow> bool" where
  "starts_with_any s ps = list_ex (starts_with s) ps"

definition us_parse_date :: "string option \<Rightarrow> date option" where
  "us_parse_date v =
     (case v of None \<Rightarrow> None | Some s \<Rightarrow> if s = [] then None else fromisoformat (take 10 s))"

definition option_text :: "string option \<Rightarrow> string" where
  "option_text v = (case v of None \<Rightarrow> ''None'' | Some s \<Rightarrow> s)"

definition own_candidate :: "us_meta \<Rightarrow> (date \<times> string) list" where
  "own_candidate m =
     (case us_parse_date (um_filing_date m) of
        None \<Rightarrow> [] | Some d \<Rightarrow> [(d, ''own filing date '' @ isoformat d)])"

definition parent_candidate :: "us_parent \<Rightarrow> (date \<times> string) list" where
  "parent_candidate p =
     (case (par_type_code p, us_parse_date (par_filing_date p)) of
        (Some code, Some d) \<Rightarrow>
          if code \<in> set TERM_PARENT_CODES
          then [(d, code @ '' parent '' @ option_text (par_application_number p) @ '' filed '' @ isoformat d)]
          else []
      | _ \<Rightarrow> [])"

definition term_candidates :: "us_record \<Rightarrow> (date \<times> string) list" where
  "term_candidates r =
     own_candidate (or_else (ur_meta r) no_meta)
     @ concat (map parent_candidate (or_else (ur_parents r) []))"

definition term_start :: "us_record \<Rightarrow> (date \<times> string) option" where
  "term_start r =
     (case term_candidates r of [] \<Rightarrow> None | c # cs \<Rightarrow> Some (min_key fst c cs))"

definition us_adjustment :: "us_record \<Rightarrow> int option" where
  "us_adjustment r = or_else (ur_pta r) None"

definition us_term :: "us_record \<Rightarrow> (date_error, term_computation option) result" where
  "us_term r =
     (case term_start r of
        None \<Rightarrow> Inr None
      | Some (start, basis) \<Rightarrow>
          (case add_years start 20 of
             None \<Rightarrow> Inl Date_out_of_range
           | Some y \<Rightarrow>
               (case add_days y (or_else (us_adjustment r) 0) of
                  None \<Rightarrow> Inl Date_out_of_range
                | Some expiry \<Rightarrow>
                    Inr (Some \<lparr>tc_term_start = start, tc_basis = basis, tc_statutory_years = 20,
                               tc_adjustment_days = or_else (us_adjustment r) 0,
                               tc_expiry_date = expiry\<rparr>))))"

definition us_event_evidence :: "us_event \<Rightarrow> status_evidence list" where
  "us_event_evidence e =
     (let code = or_else (ev_code e) []
      in if starts_with_any code EVIDENCE_EVENT_PREFIXES \<or> code \<in> set TERMINAL_DISCLAIMER_CODES
         then [\<lparr>se_source = US_SOURCE, se_code = code, se_description = or_else (ev_description e) [],
                se_event_date = us_parse_date (ev_date e), se_detail = []\<rparr>]
         else [])"

definition us_evidence :: "us_record \<Rightarrow> status_evidence list" where
  "us_evidence r =
     (let m = or_else (ur_meta r) no_meta
      in \<lparr>se_source = US_SOURCE, se_code = ''STATUS'', se_description = or_else (um_status_text m) [],
          se_event_date = us_parse_date (um_status_date m), se_detail = []\<rparr>
         # concat (map us_event_evidence (or_else (ur_events r) [])))"

text \<open>\<open>upper\<close> on characters below 256, as far as an ASCII word can result.\<close>

definition upper_char :: "char \<Rightarrow> string" where
  "upper_char c =
     (let n = of_char c :: nat
      in if 97 \<le> n \<and> n \<le> 122 then [char_of (n - 32)]
         else if n = 223 then ''SS'' else [c])"

definition upper :: "string \<Rightarrow> string" where
  "upper s = concat (map upper_char s)"

definition has_event :: "us_event list \<Rightarrow> string \<Rightarrow> bool" where
  "has_event es code \<longleftrightarrow> list_ex (\<lambda>e. ev_code e = Some code) es"

definition expiry_dates :: "us_event list \<Rightarrow> date option list" where
  "expiry_dates es = map (\<lambda>e. us_parse_date (ev_date e)) (filter (\<lambda>e. ev_code e = Some EXPIRY_EVENT) es)"

text \<open>\<open>d is not None and d > as_of\<close>.\<close>

definition recorded_after :: "date \<Rightarrow> date option \<Rightarrow> bool" where
  "recorded_after as_of d = (case d of None \<Rightarrow> False | Some x \<Rightarrow> as_of < x)"

definition us_decide :: "us_record \<Rightarrow> date \<Rightarrow> term_computation option \<Rightarrow> legal_status \<times> review_reason list" where
  "us_decide r as_of computed_term =
     (let m = or_else (ur_meta r) no_meta;
          status_text = or_else (um_status_text m) [];
          es = or_else (ur_events r) [];
          pta = us_adjustment r
      in if us_parse_date (um_grant_date m) = None then (Status_undetermined, [Not_granted])
         else if occurs_in LAPSED_STATUS_MARKER status_text then
           (if \<not> has_event es EXPIRY_EVENT then (Lapsed, [Lapsed_without_event])
            else if list_all (recorded_after as_of) (expiry_dates es) then
              (case computed_term of
                 None \<Rightarrow> (Status_undetermined, [Lapse_recorded_later])
               | Some t \<Rightarrow> (if as_of \<le> tc_expiry_date t then Presumed_in_force else Status_undetermined,
                            [Lapse_recorded_later]))
            else (Lapsed, []))
         else if has_event es EXPIRY_EVENT then (Status_undetermined, [Event_without_lapse])
         else if upper (or_else (um_type_category m) []) = ''REISSUE'' then
           (Status_undetermined, [Reissue_term_unknown])
         else if status_text \<noteq> IN_FORCE_STATUS then
           (Status_undetermined, [Unrecognised_status status_text])
         else
           (case computed_term of
              None \<Rightarrow> (Status_undetermined, [No_filing_date])
            | Some t \<Rightarrow>
                (let reasons = (if pta = None then [Adjustment_unknown] else [])
                       @ (if list_ex (has_event es) TERMINAL_DISCLAIMER_CODES then [Terminal_disclaimer] else [])
                 in if as_of > tc_expiry_date t then
                      (if pta = None then Presumed_in_force else Expired, reasons)
                    else (Presumed_in_force, reasons))))"

definition assess_us :: "us_record \<Rightarrow> string \<Rightarrow> date \<Rightarrow> (date_error, legal_assessment) result" where
  "assess_us r publication_number as_of =
     bind_result (us_term r) (\<lambda>t.
       let (status, reasons) = us_decide r as_of t
       in Inr \<lparr>la_jurisdiction = ''US'', la_publication_number = publication_number, la_as_of = as_of,
               la_status = status, la_term = t, la_evidence = us_evidence r, la_reasons = reasons,
               la_data_as_of = ur_last_ingestion r, la_countries = []\<rparr>)"

section \<open>The extract\<close>

definition US_EVENT_PREFIXES :: "string list" where
  "US_EVENT_PREFIXES = [''M155'', ''M255'', ''M355'', ''EXP'', ''REM'', ''DIST'', ''P574'']"

definition us_extract :: "us_record \<Rightarrow> us_record" where
  "us_extract r =
     \<lparr>ur_application_number = ur_application_number r, ur_last_ingestion = ur_last_ingestion r,
      ur_meta = Some (or_else (ur_meta r) no_meta),
      ur_events = Some (filter (\<lambda>e. starts_with_any (or_else (ev_code e) []) US_EVENT_PREFIXES)
                          (or_else (ur_events r) [])),
      ur_parents = Some (or_else (ur_parents r) []),
      ur_pta = ur_pta r\<rparr>"

section \<open>The extract keeps what the rules read\<close>

definition kept_event :: "us_event \<Rightarrow> bool" where
  "kept_event e \<longleftrightarrow> starts_with_any (or_else (ev_code e) []) US_EVENT_PREFIXES"

lemma us_event_evidence_dropped: "\<not> kept_event e \<Longrightarrow> us_event_evidence e = []"
  by (auto simp: kept_event_def us_event_evidence_def Let_def starts_with_any_def US_EVENT_PREFIXES_def
      EVIDENCE_EVENT_PREFIXES_def TERMINAL_DISCLAIMER_CODES_def)

lemma evidence_filter:
  "concat (map us_event_evidence (filter kept_event es)) = concat (map us_event_evidence es)"
  by (induction es) (simp_all add: us_event_evidence_dropped)

lemma has_event_filter:
  "code \<in> {''EXP.'', ''DIST'', ''P574''} \<Longrightarrow> has_event (filter kept_event es) code = has_event es code"
  by (induction es) (auto simp: has_event_def kept_event_def starts_with_any_def US_EVENT_PREFIXES_def)

lemma expiry_dates_filter: "expiry_dates (filter kept_event es) = expiry_dates es"
  by (induction es)
    (auto simp: expiry_dates_def kept_event_def starts_with_any_def US_EVENT_PREFIXES_def EXPIRY_EVENT_def)

lemma us_extract_alt:
  "us_extract r =
     r\<lparr>ur_meta := Some (or_else (ur_meta r) no_meta),
       ur_events := Some (filter kept_event (or_else (ur_events r) [])),
       ur_parents := Some (or_else (ur_parents r) [])\<rparr>"
  by (simp add: us_extract_def kept_event_def [abs_def])

text \<open>
  A US assessment can be reproduced from the stored extract: the rules give the same result, or
  the same error, on the extract as on the full record, and extracting again changes nothing.
\<close>

theorem us_extract_reproduces:
  "assess_us (us_extract r) publication_number as_of = assess_us r publication_number as_of
   \<and> us_extract (us_extract r) = us_extract r"
proof -
  have computed: "us_term (us_extract r) = us_term r"
  proof -
    have "us_adjustment (us_extract r) = us_adjustment r" "term_start (us_extract r) = term_start r"
      by (simp_all add: us_extract_alt us_adjustment_def term_start_def term_candidates_def)
    then show ?thesis unfolding us_term_def by metis
  qed
  have evidence: "us_evidence (us_extract r) = us_evidence r"
    by (simp add: us_extract_alt us_evidence_def evidence_filter)
  have decide: "us_decide (us_extract r) as_of t = us_decide r as_of t" for t
    by (cases t) (simp_all add: us_extract_alt us_decide_def has_event_filter expiry_dates_filter
        us_adjustment_def EXPIRY_EVENT_def TERMINAL_DISCLAIMER_CODES_def Let_def)
  have "assess_us (us_extract r) publication_number as_of = assess_us r publication_number as_of"
    unfolding assess_us_def computed evidence decide by (simp add: us_extract_def)
  moreover have "us_extract (us_extract r) = us_extract r" by (simp add: us_extract_alt)
  ultimately show ?thesis ..
qed

section \<open>A patent is declared dead only on evidence\<close>

lemma us_decide_Lapsed:
  "fst (us_decide r as_of t) = Lapsed \<Longrightarrow>
     us_parse_date (um_grant_date (or_else (ur_meta r) no_meta)) \<noteq> None
     \<and> occurs_in LAPSED_STATUS_MARKER (or_else (um_status_text (or_else (ur_meta r) no_meta)) [])
     \<and> (has_event (or_else (ur_events r) []) EXPIRY_EVENT \<longrightarrow>
          \<not> list_all (recorded_after as_of) (expiry_dates (or_else (ur_events r) [])))"
  by (auto simp: us_decide_def Let_def split: if_splits option.splits)

lemma us_decide_Expired:
  "fst (us_decide r as_of t) = Expired \<Longrightarrow>
     or_else (um_status_text (or_else (ur_meta r) no_meta)) [] = IN_FORCE_STATUS
     \<and> \<not> has_event (or_else (ur_events r) []) EXPIRY_EVENT
     \<and> upper (or_else (um_type_category (or_else (ur_meta r) no_meta)) []) \<noteq> ''REISSUE''
     \<and> us_adjustment r \<noteq> None \<and> (\<exists>x. t = Some x \<and> tc_expiry_date x < as_of)"
  by (auto simp: us_decide_def Let_def split: if_splits option.splits)

lemma us_decide_undetermined:
  "fst (us_decide r as_of t) = Status_undetermined \<Longrightarrow> snd (us_decide r as_of t) \<noteq> []"
  by (auto simp: us_decide_def Let_def split: if_splits option.splits)

lemma us_term_Some:
  assumes "us_term r = Inr (Some t)"
  shows "tc_term_start t \<in> fst ` set (term_candidates r)
    \<and> (\<forall>c \<in> set (term_candidates r). tc_term_start t \<le> fst c)
    \<and> (\<exists>y. add_years (tc_term_start t) 20 = Some y
         \<and> add_days y (or_else (us_adjustment r) 0) = Some (tc_expiry_date t))"
proof -
  obtain start basis where s: "term_start r = Some (start, basis)" "tc_term_start t = start"
      "\<exists>y. add_years start 20 = Some y \<and> add_days y (or_else (us_adjustment r) 0) = Some (tc_expiry_date t)"
    using assms by (auto simp: us_term_def split: option.splits prod.splits)
  obtain c cs where c: "term_candidates r = c # cs" "min_key fst c cs = (start, basis)"
    using s(1) by (auto simp: term_start_def split: list.splits)
  have "(start, basis) \<in> set (c # cs)" using min_key_mem [of fst c cs] unfolding c(2) .
  then have "start \<in> fst ` set (c # cs)" by (rule rev_image_eqI) simp
  moreover have "\<forall>x \<in> set (c # cs). start \<le> fst x"
    using min_key_le [of _ c cs fst] unfolding c(2) by auto
  ultimately show ?thesis unfolding s(2) c(1) using s(3) by blast
qed

definition meta_of :: "us_record \<Rightarrow> us_meta" where
  "meta_of r = or_else (ur_meta r) no_meta"

definition events_of :: "us_record \<Rightarrow> us_event list" where
  "events_of r = or_else (ur_events r) []"

text \<open>An expiry event that does not lie after the analysis date: it is dated by then, or its date cannot be read.\<close>

definition expiry_by :: "date \<Rightarrow> us_event \<Rightarrow> bool" where
  "expiry_by as_of e \<longleftrightarrow> ev_code e = Some ''EXP.''
     \<and> (us_parse_date (ev_date e) = None \<or> (\<exists>d. us_parse_date (ev_date e) = Some d \<and> d \<le> as_of))"

lemma us_decide_Lapsed_iff:
  "fst (us_decide r as_of t) = Lapsed \<longleftrightarrow>
     us_parse_date (um_grant_date (meta_of r)) \<noteq> None
     \<and> occurs_in LAPSED_STATUS_MARKER (or_else (um_status_text (meta_of r)) [])
     \<and> ((\<forall>e \<in> set (events_of r). ev_code e \<noteq> Some ''EXP.'') \<or> (\<exists>e \<in> set (events_of r). expiry_by as_of e))"
proof -
  have "has_event (events_of r) EXPIRY_EVENT \<longleftrightarrow> (\<exists>e \<in> set (events_of r). ev_code e = Some ''EXP.'')"
    by (simp add: has_event_def list_ex_iff EXPIRY_EVENT_def)
  moreover have "list_all (recorded_after as_of) (expiry_dates (events_of r)) \<longleftrightarrow>
      (\<forall>e \<in> set (events_of r). ev_code e = Some ''EXP.'' \<longrightarrow> \<not> expiry_by as_of e)"
    by (auto simp: expiry_dates_def list_all_iff recorded_after_def expiry_by_def EXPIRY_EVENT_def not_le split: option.splits)
  ultimately show ?thesis
    by (auto simp: us_decide_def meta_of_def events_of_def Let_def expiry_by_def split: option.splits)
qed


text \<open>
  Uncertainty should keep a patent in the risk set, with a reason for review; but an expiry event without a date that can be
  read declares the patent lapsed, and no reason is given.
\<close>

lemma undated_expiry_is_lapse:
  "us_parse_date (um_grant_date (meta_of r)) \<noteq> None \<Longrightarrow>
   occurs_in LAPSED_STATUS_MARKER (or_else (um_status_text (meta_of r)) []) \<Longrightarrow>
   events_of r = [\<lparr>ev_code = Some ''EXP.'', ev_description = None, ev_date = None\<rparr>] \<Longrightarrow>
   us_decide r as_of t = (Lapsed, [])"
  by (simp add: us_decide_def meta_of_def events_of_def Let_def has_event_def expiry_dates_def recorded_after_def
      us_parse_date_def EXPIRY_EVENT_def)

definition sample_us :: us_record where
  "sample_us =
     \<lparr>ur_application_number = Some ''10123456'', ur_last_ingestion = None,
      ur_meta = Some (no_meta\<lparr>um_filing_date := Some ''2000-03-01'', um_grant_date := Some ''2003-05-06'',
        um_status_text := Some ''Patented Case''\<rparr>),
      ur_events = None, ur_parents = None, ur_pta = Some (Some 0)\<rparr>"

lemma sample_us_runs:
  "\<exists>a. assess_us sample_us ''US1'' (Date 2021 1 1) = Inr a \<and> la_status a = Expired"
proof -
  have parse: "us_parse_date (Some ''2000-03-01'') = Some (Date 2000 3 1)"
      "us_parse_date (Some ''2003-05-06'') = Some (Date 2003 5 6)"
    by code_simp+
  have t: "us_term sample_us = Inr (Some \<lparr>tc_term_start = Date 2000 3 1,
      tc_basis = ''own filing date '' @ isoformat (Date 2000 3 1), tc_statutory_years = 20,
      tc_adjustment_days = 0, tc_expiry_date = Date 2020 3 1\<rparr>)"
    by (simp add: us_term_def term_start_def term_candidates_def own_candidate_def sample_us_def
        no_meta_def parse us_adjustment_def add_years_def mk_date_def valid_ymd_def days_in_month_def
        add_days_def)
  have "us_decide sample_us (Date 2021 1 1) (Some \<lparr>tc_term_start = Date 2000 3 1,
      tc_basis = ''own filing date '' @ isoformat (Date 2000 3 1), tc_statutory_years = 20,
      tc_adjustment_days = 0, tc_expiry_date = Date 2020 3 1\<rparr>) = (Expired, [])"
    by (simp add: us_decide_def sample_us_def no_meta_def parse Let_def LAPSED_STATUS_MARKER_def
        has_event_def upper_def us_adjustment_def IN_FORCE_STATUS_def TERMINAL_DISCLAIMER_CODES_def)
  then show ?thesis by (simp add: assess_us_def t)
qed


text \<open>
  A reissue whose lapse was recorded after the analysis date is presumed in force by the term of its
  own record, although the term of a reissue is that of the original patent.
\<close>

lemma reissue_lapsed_later_presumed:
  "us_parse_date (um_grant_date (meta_of r)) \<noteq> None \<Longrightarrow>
   occurs_in LAPSED_STATUS_MARKER (or_else (um_status_text (meta_of r)) []) \<Longrightarrow>
   has_event (events_of r) EXPIRY_EVENT \<Longrightarrow>
   list_all (recorded_after as_of) (expiry_dates (events_of r)) \<Longrightarrow>
   as_of \<le> tc_expiry_date t \<Longrightarrow> um_type_category (meta_of r) = Some ''REISSUE'' \<Longrightarrow>
   us_decide r as_of (Some t) = (Presumed_in_force, [Lapse_recorded_later])"
  by (simp add: us_decide_def meta_of_def events_of_def Let_def)

end
