(* ===== verification/LegalEp.thy ===== *)
theory LegalEp
  imports LegalUs
begin

text \<open>
  \<^verbatim>\<open>modules/legal_status/ep.py\<close> and \<open>ep_extract\<close> of \<^verbatim>\<open>modules/legal_status/serialize.py\<close>: the status
  of a European patent from the INPADOC events of an OPS response.  A response is a tree of objects
  and lists; an object may carry legal items under \<open>ops:legal\<close> (one item or a list of them).  An item
  is typed: its code, description, influence, \<open>ops:pre\<close> lines, publication and gazette date, and the
  remaining fields, which no rule reads.
\<close>

section \<open>The response\<close>

record ops_item =
  it_code :: "string option"
  it_desc :: "string option"
  it_infl :: "string option"
  it_pre :: "string list"
  it_publication :: "string option"
  it_gazette :: "string option"
  it_other :: "(string \<times> string) list"

datatype ops_node = Ops_list "ops_node list" | Ops_object "ops_item list option" "ops_node list"

fun legal_items :: "ops_node \<Rightarrow> ops_item list" where
  "legal_items (Ops_list ns) = concat (map legal_items ns)"
| "legal_items (Ops_object items ns) = or_else items [] @ concat (map legal_items ns)"

section \<open>Text of characters\<close>

text \<open>\<open>s.find(p)\<close>, as the rest of \<open>s\<close> after the first occurrence of \<open>p\<close>.\<close>

fun after_first :: "string \<Rightarrow> string \<Rightarrow> string option" where
  "after_first p [] = (if p = [] then Some [] else None)"
| "after_first p (c # s) =
     (if starts_with (c # s) p then Some (drop (length p) (c # s)) else after_first p s)"

fun words_of :: "string \<Rightarrow> string \<Rightarrow> string list" where
  "words_of w [] = (if w = [] then [] else [rev w])"
| "words_of w (c # s) =
     (if char_space c then (if w = [] then words_of [] s else rev w # words_of [] s)
      else words_of (c # w) s)"

definition split_words :: "string \<Rightarrow> string list" where
  "split_words s = words_of [] s"

section \<open>The two patterns of a line\<close>

text \<open>
  \<open>^.*?\d{4}-\d{2}-\d{2}\S*?[+\- ]\<close>: the prefix up to the first date that is followed, without white
  space in between, by a sign or a blank.
\<close>

definition starts_date :: "string \<Rightarrow> bool" where
  "starts_date s \<longleftrightarrow>
     (case s of
        y1 # y2 # y3 # y4 # h1 # m1 # m2 # h2 # d1 # d2 # _ \<Rightarrow>
          list_all is_digit_char [y1, y2, y3, y4, m1, m2, d1, d2] \<and> h1 = CHR ''-'' \<and> h2 = CHR ''-''
      | _ \<Rightarrow> False)"

fun after_sign :: "string \<Rightarrow> string option" where
  "after_sign [] = None"
| "after_sign (c # s) =
     (if c \<in> {CHR ''+'', CHR ''-'', CHR '' ''} then Some s
      else if char_space c then None else after_sign s)"

fun drop_prefix :: "string \<Rightarrow> string option" where
  "drop_prefix [] = None"
| "drop_prefix (c # s) =
     (case (if starts_date (c # s) then after_sign (drop 10 (c # s)) else None) of
        Some rest \<Rightarrow> Some rest
      | None \<Rightarrow> if c = CHR 0x0A then None else drop_prefix s)"

definition PRE_FIELDS :: "string list" where
  "PRE_FIELDS =
     [''Ref Country Code'', ''Effective DATE'', ''Free Format Text'', ''Payment DATE'',
      ''Year of Fee Payment'', ''Kind Code of Ref Document'', ''Designated State(s)'']"

text \<open>
  \<open>(Ref Country Code|...)\s+(.*)$\<close>, searched: the first place where a field name is followed by
  white space and, after all of it, by a rest without line break.
\<close>

definition field_at :: "string \<Rightarrow> (string \<times> string) option" where
  "field_at s =
     (case find (starts_with s) PRE_FIELDS of
        None \<Rightarrow> None
      | Some name \<Rightarrow>
          (let tail = drop (length name) s; value = dropWhile char_space tail
           in if tail \<noteq> value \<and> CHR 0x0A \<notin> set value then Some (name, value) else None))"

fun find_field :: "string \<Rightarrow> (string \<times> string) option" where
  "find_field [] = None"
| "find_field (c # s) = (case field_at (c # s) of Some x \<Rightarrow> Some x | None \<Rightarrow> find_field s)"

section \<open>Events\<close>

record legal_event =
  le_code :: string
  le_description :: string
  le_influence :: string
  le_gazette_date :: "date option"
  le_fields :: "(string, string) pydict"
  le_lines :: "string list"

text \<open>\<open>re.sub(r"\D", "", value)[:8]\<close> and the three slices.\<close>

definition yyyymmdd :: "string option \<Rightarrow> date option" where
  "yyyymmdd v =
     (case v of
        None \<Rightarrow> None
      | Some s \<Rightarrow>
          (let digits = take 8 (filter is_digit_char s)
           in if s = [] \<or> take 4 digits = [] \<or> take 2 (drop 4 digits) = [] \<or> drop 6 digits = [] then None
              else case (digits_value 0 (take 4 digits), digits_value 0 (take 2 (drop 4 digits)),
                         digits_value 0 (drop 6 digits)) of
                     (Some y, Some m, Some d) \<Rightarrow> mk_date y m d
                   | _ \<Rightarrow> None))"

definition field :: "legal_event \<Rightarrow> string \<Rightarrow> string" where
  "field e name = or_else (map_of (le_fields e) name) []"

definition upper_letter :: "char \<Rightarrow> bool" where
  "upper_letter c \<longleftrightarrow> CHR ''A'' \<le> c \<and> c \<le> CHR ''Z''"

definition country :: "legal_event \<Rightarrow> string option" where
  "country e =
     (if field e ''Ref Country Code'' \<noteq> [] then Some (take 2 (strip_text (field e ''Ref Country Code'')))
      else case le_description e of
             a # b # c # _ \<Rightarrow>
               if upper_letter a \<and> upper_letter b \<and> c = CHR '':'' then Some [a, b] else None
           | _ \<Rightarrow> None)"

definition or_date :: "date option \<Rightarrow> date option \<Rightarrow> date option" where
  "or_date a b = (case a of None \<Rightarrow> b | Some d \<Rightarrow> Some d)"

definition effective_date :: "legal_event \<Rightarrow> date option" where
  "effective_date e = or_date (yyyymmdd (map_of (le_fields e) ''Effective DATE'')) (le_gazette_date e)"

definition line_tail :: "string \<Rightarrow> string \<Rightarrow> string" where
  "line_tail desc text =
     strip_text
       (case (if desc \<noteq> [] then after_first desc text else None) of
          Some rest \<Rightarrow> rest
        | None \<Rightarrow> or_else (drop_prefix text) text)"

definition add_field :: "string \<Rightarrow> (string, string) pydict \<Rightarrow> (string, string) pydict" where
  "add_field tail known =
     (case find_field tail of
        None \<Rightarrow> known
      | Some (key, raw) \<Rightarrow>
          (let value = strip_text raw
           in dict_put key
                (case map_of known key of
                   None \<Rightarrow> value
                 | Some old \<Rightarrow> strip_text (old @ '' '' @ value)) known))"

definition parse_item :: "ops_item \<Rightarrow> legal_event" where
  "parse_item item =
     (let desc = or_else (it_desc item) []; tails = map (line_tail desc) (it_pre item)
      in \<lparr>le_code = strip_text (or_else (it_code item) []), le_description = strip_text desc,
          le_influence = or_else (it_infl item) '' '', le_gazette_date = us_parse_date (it_gazette item),
          le_fields = foldl (\<lambda>d t. add_field t d) [] tails, le_lines = tails\<rparr>)"

definition parse_inpadoc :: "ops_node \<Rightarrow> legal_event list" where
  "parse_inpadoc payload = map parse_item (legal_items payload)"

section \<open>Rules\<close>

definition REINSTATEMENT_CODES :: "string list" where
  "REINSTATEMENT_CODES = [''PGRI'']"

definition FEE_CODES :: "string list" where
  "FEE_CODES = [''PGFP'']"

definition UNITARY_PREFIX :: string where
  "UNITARY_PREFIX = ''U''"

definition GRANT_KINDS :: "string list" where
  "GRANT_KINDS = [''B1'', ''B2'', ''B3'']"

definition state_code :: "string \<Rightarrow> bool" where
  "state_code t \<longleftrightarrow> length t = 2 \<and> list_all upper_letter t"

definition designated_states_at_grant :: "legal_event list \<Rightarrow> string list" where
  "designated_states_at_grant events =
     dedup (concat (map
       (\<lambda>e. if le_code e = ''AK'' \<and> strip_text (field e ''Kind Code of Ref Document'') \<in> set GRANT_KINDS
            then filter state_code (split_words (field e ''Designated State(s)'')) else []) events))"

definition negative :: "legal_event \<Rightarrow> bool" where
  "negative e \<longleftrightarrow> strip_text (le_influence e) = ''-''"

definition future :: "date \<Rightarrow> legal_event \<Rightarrow> bool" where
  "future as_of e \<longleftrightarrow> (case effective_date e of None \<Rightarrow> False | Some d \<Rightarrow> as_of < d)"

text \<open>\<open>a and (b is None or a > b)\<close>.\<close>

definition later :: "date option \<Rightarrow> date option \<Rightarrow> bool" where
  "later a b = (case a of None \<Rightarrow> False | Some x \<Rightarrow> (case b of None \<Rightarrow> True | Some y \<Rightarrow> y < x))"

record national_state =
  ns_lapse :: "(string, date option \<times> string) pydict"
  ns_reinstated :: "(string, date option) pydict"
  ns_fee :: "(string, int option \<times> date option) pydict"

definition fee_year :: "legal_event \<Rightarrow> int option" where
  "fee_year e =
     (let digits = filter is_digit_char (field e ''Year of Fee Payment'')
      in if digits = [] then None else digits_value 0 digits)"

definition note_reinstatement :: "string \<Rightarrow> legal_event \<Rightarrow> national_state \<Rightarrow> national_state" where
  "note_reinstatement c e st =
     (case or_else (map_of (ns_reinstated st) c) None of
        None \<Rightarrow> st\<lparr>ns_reinstated := dict_put c (effective_date e) (ns_reinstated st)\<rparr>
      | Some current \<Rightarrow>
          if later (effective_date e) (Some current)
          then st\<lparr>ns_reinstated := dict_put c (effective_date e) (ns_reinstated st)\<rparr> else st)"

definition note_fee :: "string \<Rightarrow> legal_event \<Rightarrow> national_state \<Rightarrow> national_state" where
  "note_fee c e st =
     (let entry = (fee_year e, or_date (yyyymmdd (map_of (le_fields e) ''Payment DATE'')) (le_gazette_date e))
      in case map_of (ns_fee st) c of
           None \<Rightarrow> st\<lparr>ns_fee := dict_put c entry (ns_fee st)\<rparr>
         | Some previous \<Rightarrow>
             if or_else (fee_year e) 0 > or_else (fst previous) 0
             then st\<lparr>ns_fee := dict_put c entry (ns_fee st)\<rparr> else st)"

definition note_lapse :: "string \<Rightarrow> legal_event \<Rightarrow> national_state \<Rightarrow> national_state" where
  "note_lapse c e st =
     (let free = field e ''Free Format Text'';
          entry = (effective_date e, if free \<noteq> [] then free else le_description e)
      in case map_of (ns_lapse st) c of
           None \<Rightarrow> st\<lparr>ns_lapse := dict_put c entry (ns_lapse st)\<rparr>
         | Some previous \<Rightarrow>
             if later (effective_date e) (fst previous)
             then st\<lparr>ns_lapse := dict_put c entry (ns_lapse st)\<rparr> else st)"

definition national_event :: "date \<Rightarrow> legal_event \<Rightarrow> national_state \<Rightarrow> national_state" where
  "national_event as_of e st =
     (case country e of
        None \<Rightarrow> st
      | Some c \<Rightarrow>
          if c = [] \<or> future as_of e then st
          else if le_code e \<in> set REINSTATEMENT_CODES then note_reinstatement c e st
          else if le_code e \<in> set FEE_CODES then note_fee c e st
          else if negative e then note_lapse c e st
          else st)"

definition national_run :: "date \<Rightarrow> legal_event list \<Rightarrow> national_state" where
  "national_run as_of events =
     foldl (\<lambda>st e. national_event as_of e st) \<lparr>ns_lapse = [], ns_reinstated = [], ns_fee = []\<rparr> events"

definition status_of_country :: "national_state \<Rightarrow> string \<Rightarrow> country_status" where
  "status_of_country st c =
     \<lparr>cs_country = c, cs_lapsed_on = fst (or_else (map_of (ns_lapse st) c) (None, [])),
      cs_lapse_reason = snd (or_else (map_of (ns_lapse st) c) (None, [])),
      cs_reinstated_on = or_else (map_of (ns_reinstated st) c) None,
      cs_last_fee_year = fst (or_else (map_of (ns_fee st) c) (None, None)),
      cs_last_fee_paid_on = snd (or_else (map_of (ns_fee st) c) (None, None))\<rparr>"

definition country_statuses :: "legal_event list \<Rightarrow> date \<Rightarrow> (string, country_status) pydict" where
  "country_statuses events as_of =
     (let st = national_run as_of events
      in map (\<lambda>c. (c, status_of_country st c))
           (sorted_set (map fst (ns_lapse st) @ map fst (ns_reinstated st) @ map fst (ns_fee st))))"

text \<open>\<open>str.isdigit\<close> below 256 also holds of the superscripts 1 to 3.\<close>

definition py_isdigit :: "string \<Rightarrow> bool" where
  "py_isdigit s \<longleftrightarrow>
     s \<noteq> [] \<and> list_all (\<lambda>c. is_digit_char c \<or> of_char c \<in> {178, 179, 185 :: nat}) s"

definition unitary :: "legal_event \<Rightarrow> bool" where
  "unitary e \<longleftrightarrow> starts_with (le_code e) UNITARY_PREFIX \<and> py_isdigit (drop 1 (le_code e))"

text \<open>\<open>country\<close> is the empty string for a blank country code, which is false.\<close>

definition has_country :: "legal_event \<Rightarrow> bool" where
  "has_country e \<longleftrightarrow> (case country e of None \<Rightarrow> False | Some c \<Rightarrow> c \<noteq> [])"

definition ep_relevant :: "legal_event \<Rightarrow> bool" where
  "ep_relevant e \<longleftrightarrow>
     has_country e \<or> negative e \<or> starts_with (le_code e) UNITARY_PREFIX \<or> le_code e = ''AK''"

definition ep_evidence :: "legal_event list \<Rightarrow> status_evidence list" where
  "ep_evidence events =
     map (\<lambda>e. \<lparr>se_source = ''EPO OPS INPADOC'', se_code = le_code e, se_description = le_description e,
               se_event_date = effective_date e,
               se_detail = join ''; '' (map (\<lambda>(k, v). k @ '': '' @ v) (le_fields e))\<rparr>)
       (filter ep_relevant events)"

definition unknown_negative :: "legal_event list \<Rightarrow> date \<Rightarrow> string list" where
  "unknown_negative events as_of =
     sorted_set (map le_code (filter (\<lambda>e. negative e \<and> \<not> has_country e \<and> \<not> future as_of e) events))"

definition lapsed_in :: "(string, country_status) pydict \<Rightarrow> string \<Rightarrow> bool" where
  "lapsed_in countries s \<longleftrightarrow>
     (case map_of countries s of None \<Rightarrow> False | Some c \<Rightarrow> lapse_in_effect c)"

definition ep_decide :: "legal_event list \<Rightarrow> date \<Rightarrow> date \<Rightarrow> legal_status \<times> review_reason list" where
  "ep_decide events as_of expiry =
     (let countries = country_statuses events as_of; designated = designated_states_at_grant events;
          unknown = unknown_negative events as_of
      in if as_of > expiry then (Expired, [])
         else if unknown \<noteq> [] then (Status_undetermined, [Negative_events_unmapped unknown])
         else if list_ex unitary events then (Presumed_in_force, [Unitary_effect])
         else if designated = [] then (Status_undetermined, [No_designated_states])
         else
           (let alive = filter (\<lambda>s. \<not> lapsed_in countries s) designated;
                no_evidence = filter (\<lambda>s. map_of countries s = None) alive
            in if alive = [] then (Lapsed, [])
               else (Presumed_in_force,
                     if no_evidence \<noteq> [] then [No_national_events no_evidence] else [])))"

definition assess_ep :: "ops_node \<Rightarrow> string \<Rightarrow> date \<Rightarrow> date \<Rightarrow> string option
    \<Rightarrow> (date_error, legal_assessment) result" where
  "assess_ep payload publication_number filing_date as_of data_as_of =
     (let events = parse_inpadoc payload
      in case add_years filing_date 20 of
           None \<Rightarrow> Inl Date_out_of_range
         | Some expiry \<Rightarrow>
             (let (status, reasons) = ep_decide events as_of expiry
              in Inr \<lparr>la_jurisdiction = ''EP'', la_publication_number = publication_number, la_as_of = as_of,
                      la_status = status,
                      la_term = Some \<lparr>tc_term_start = filing_date,
                        tc_basis = ''EP filing date '' @ isoformat filing_date, tc_statutory_years = 20,
                        tc_adjustment_days = 0, tc_expiry_date = expiry\<rparr>,
                      la_evidence = ep_evidence events, la_reasons = reasons, la_data_as_of = data_as_of,
                      la_countries = map snd (country_statuses events as_of)\<rparr>))"

section \<open>The extract\<close>

definition EP_KEEP_CODES :: "string list" where
  "EP_KEEP_CODES = [''AK'', ''PGFP'', ''PGRI'', ''26N'', ''P01'']"

definition kept_item :: "ops_item \<Rightarrow> bool" where
  "kept_item item \<longleftrightarrow>
     (let code = strip_text (or_else (it_code item) [])
      in code \<in> set EP_KEEP_CODES \<or> starts_with code ''U''
         \<or> strip_text (or_else (it_infl item) []) = ''-'')"

definition trim_item :: "ops_item \<Rightarrow> ops_item" where
  "trim_item item = item\<lparr>it_other := []\<rparr>"

definition ep_extract :: "ops_node \<Rightarrow> ops_node" where
  "ep_extract payload = Ops_object (Some (map trim_item (filter kept_item (legal_items payload)))) []"

section \<open>What the extract keeps\<close>

definition kept_legal :: "legal_event \<Rightarrow> bool" where
  "kept_legal e \<longleftrightarrow> le_code e \<in> set EP_KEEP_CODES \<or> starts_with (le_code e) ''U'' \<or> negative e"

lemma kept_item_parse: "kept_item item \<longleftrightarrow> kept_legal (parse_item item)"
proof -
  have "strip_text (or_else x []) = ''-'' \<longleftrightarrow> strip_text (or_else x '' '') = ''-''" for x
    by (cases x) (simp_all add: strip_text_def char_space_def is_space_def)
  then show ?thesis by (simp add: kept_item_def kept_legal_def parse_item_def Let_def negative_def)
qed

lemma parse_trim [simp]: "parse_item (trim_item item) = parse_item item"
  by (simp add: parse_item_def trim_item_def)

lemma parse_extract: "parse_inpadoc (ep_extract payload) = filter kept_legal (parse_inpadoc payload)"
  by (simp add: parse_inpadoc_def ep_extract_def filter_map comp_def flip: kept_item_parse)

lemma extract_idem: "ep_extract (ep_extract payload) = ep_extract payload"
proof -
  have "trim_item (trim_item x) = trim_item x" and "kept_item (trim_item x) = kept_item x" for x
    by (simp_all add: trim_item_def kept_item_def)
  then show ?thesis by (simp add: ep_extract_def filter_map comp_def)
qed

lemma national_event_dropped: "\<not> kept_legal e \<Longrightarrow> national_event as_of e st = st"
  by (auto simp: kept_legal_def national_event_def EP_KEEP_CODES_def REINSTATEMENT_CODES_def FEE_CODES_def
      split: option.splits)

lemma national_run_kept: "national_run as_of (filter kept_legal es) = national_run as_of es"
proof -
  have "foldl (\<lambda>st e. national_event as_of e st) st (filter kept_legal es) =
      foldl (\<lambda>st e. national_event as_of e st) st es" for st
    by (induction es arbitrary: st) (simp_all add: national_event_dropped)
  then show ?thesis by (simp add: national_run_def)
qed

lemma designated_kept: "designated_states_at_grant (filter kept_legal es) = designated_states_at_grant es"
proof -
  have "concat (map f (filter kept_legal es)) = concat (map f es)"
    if "\<And>e. \<not> kept_legal e \<Longrightarrow> f e = []" for f :: "legal_event \<Rightarrow> string list"
    by (induction es) (simp_all add: that)
  then show ?thesis
    unfolding designated_states_at_grant_def by (simp add: kept_legal_def EP_KEEP_CODES_def)
qed

lemma unitary_kept: "list_ex unitary (filter kept_legal es) = list_ex unitary es"
  by (induction es) (auto simp: unitary_def kept_legal_def UNITARY_PREFIX_def)

lemma unknown_negative_kept: "unknown_negative (filter kept_legal es) as_of = unknown_negative es as_of"
proof -
  have "filter (\<lambda>e. negative e \<and> \<not> has_country e \<and> \<not> future as_of e) (filter kept_legal es) =
      filter (\<lambda>e. negative e \<and> \<not> has_country e \<and> \<not> future as_of e) es"
    by (induction es) (auto simp: kept_legal_def)
  then show ?thesis by (simp add: unknown_negative_def)
qed

lemma country_statuses_kept: "country_statuses (filter kept_legal es) as_of = country_statuses es as_of"
  by (simp add: country_statuses_def national_run_kept)

lemma ep_decide_kept: "ep_decide (filter kept_legal es) as_of expiry = ep_decide es as_of expiry"
  unfolding ep_decide_def country_statuses_kept designated_kept unknown_negative_kept unitary_kept ..

text \<open>
  An EP assessment can be reproduced from the stored extract, up to its evidence: on the extract
  the rules give the same status, term, reasons, countries and error, and the evidence is that of
  the kept events only, which is part of the evidence of the full response.
\<close>

theorem ep_extract_reproduces:
  "assess_ep (ep_extract payload) pn filing as_of data_as_of =
     map_sum id (la_evidence_update (\<lambda>_. ep_evidence (filter kept_legal (parse_inpadoc payload))))
       (assess_ep payload pn filing as_of data_as_of)
   \<and> set (ep_evidence (filter kept_legal (parse_inpadoc payload))) \<subseteq> set (ep_evidence (parse_inpadoc payload))
   \<and> ep_extract (ep_extract payload) = ep_extract payload"
proof (intro conjI)
  show "assess_ep (ep_extract payload) pn filing as_of data_as_of =
     map_sum id (la_evidence_update (\<lambda>_. ep_evidence (filter kept_legal (parse_inpadoc payload))))
       (assess_ep payload pn filing as_of data_as_of)"
    by (cases "add_years filing 20")
      (simp_all add: assess_ep_def parse_extract ep_decide_kept country_statuses_kept Let_def case_prod_beta)
  show "set (ep_evidence (filter kept_legal (parse_inpadoc payload))) \<subseteq> set (ep_evidence (parse_inpadoc payload))"
    by (auto simp: ep_evidence_def)
  show "ep_extract (ep_extract payload) = ep_extract payload" by (rule extract_idem)
qed

text \<open>The evidence does shrink: a positive event that names a state is evidence and is not kept.\<close>

definition registered_event :: ops_item where
  "registered_event =
     \<lparr>it_code = Some ''REG'', it_desc = Some ''DE: REGISTERED'', it_infl = Some ''+'', it_pre = [],
      it_publication = None, it_gazette = None, it_other = []\<rparr>"

lemma parse_registered:
  "parse_item registered_event =
     \<lparr>le_code = ''REG'', le_description = ''DE: REGISTERED'', le_influence = ''+'',
      le_gazette_date = None, le_fields = [], le_lines = []\<rparr>"
proof -
  have "strip_text ''REG'' = ''REG''" "strip_text ''DE: REGISTERED'' = ''DE: REGISTERED''"
    by code_simp+
  then show ?thesis by (simp add: parse_item_def registered_event_def us_parse_date_def)
qed

lemma ep_extract_drops_evidence:
  "ep_evidence (parse_inpadoc (Ops_object (Some [registered_event]) [])) \<noteq> []
     \<and> ep_evidence (parse_inpadoc (ep_extract (Ops_object (Some [registered_event]) []))) = []"
proof -
  let ?payload = "Ops_object (Some [registered_event]) []"
  have parsed: "parse_inpadoc ?payload = [parse_item registered_event]" by (simp add: parse_inpadoc_def)
  have "strip_text ''+'' = ''+''" by code_simp
  then have "\<not> kept_legal (parse_item registered_event)"
    by (simp add: parse_registered kept_legal_def negative_def EP_KEEP_CODES_def)
  moreover have "has_country (parse_item registered_event)"
    by (simp add: parse_registered has_country_def country_def field_def upper_letter_def)
  ultimately show ?thesis
    unfolding parse_extract parsed by (simp add: ep_evidence_def ep_relevant_def)
qed

section \<open>Lapse needs evidence in every state\<close>

definition lapse_event :: "date \<Rightarrow> string \<Rightarrow> legal_event \<Rightarrow> bool" where
  "lapse_event as_of c e \<longleftrightarrow>
     country e = Some c \<and> c \<noteq> [] \<and> \<not> future as_of e \<and> negative e
     \<and> le_code e \<notin> set REINSTATEMENT_CODES \<and> le_code e \<notin> set FEE_CODES"

definition reinstatement_event :: "date \<Rightarrow> string \<Rightarrow> legal_event \<Rightarrow> bool" where
  "reinstatement_event as_of c e \<longleftrightarrow>
     country e = Some c \<and> c \<noteq> [] \<and> \<not> future as_of e \<and> le_code e \<in> set REINSTATEMENT_CODES"

lemma national_run_snoc: "national_run as_of (es @ [e]) = national_event as_of e (national_run as_of es)"
  by (simp add: national_run_def)

lemma ns_lapse_event:
  "ns_lapse (national_event as_of e st) =
     (case country e of
        None \<Rightarrow> ns_lapse st
      | Some c \<Rightarrow> if lapse_event as_of c e then ns_lapse (note_lapse c e st) else ns_lapse st)"
  by (auto simp: national_event_def lapse_event_def note_reinstatement_def note_fee_def Let_def
      split: option.splits)

lemma lapse_from_event:
  "map_of (ns_lapse (national_run as_of es)) c = Some (Some d, reason) \<Longrightarrow>
     \<exists>e \<in> set es. lapse_event as_of c e \<and> effective_date e = Some d"
proof (induction es arbitrary: d reason rule: rev_induct)
  case Nil
  then show ?case by (simp add: national_run_def)
next
  case (snoc e es)
  show ?case
  proof (cases "map_of (ns_lapse (national_run as_of es)) c = Some (Some d, reason)")
    case True
    with snoc.IH show ?thesis by auto
  next
    case False
    with snoc.prems have "lapse_event as_of c e \<and> effective_date e = Some d"
      by (auto simp: national_run_snoc ns_lapse_event note_lapse_def Let_def map_of_dict_put
          split: option.splits if_splits)
    then show ?thesis by auto
  qed
qed

lemma ns_reinstated_event:
  "ns_reinstated (national_event as_of e st) =
     (case country e of
        None \<Rightarrow> ns_reinstated st
      | Some c \<Rightarrow> if reinstatement_event as_of c e then ns_reinstated (note_reinstatement c e st)
                 else ns_reinstated st)"
  by (auto simp: national_event_def reinstatement_event_def note_lapse_def note_fee_def Let_def
      split: option.splits)

definition reinstated_on :: "national_state \<Rightarrow> string \<Rightarrow> date option" where
  "reinstated_on st c = or_else (map_of (ns_reinstated st) c) None"

lemma reinstated_note:
  "reinstated_on (note_reinstatement c e st) c' =
     (if c' = c \<and> (reinstated_on st c = None \<or> later (effective_date e) (reinstated_on st c))
      then effective_date e else reinstated_on st c')"
  by (auto simp: note_reinstatement_def reinstated_on_def map_of_dict_put split: option.splits)

lemma reinstatement_counts:
  "r \<in> set es \<Longrightarrow> reinstatement_event as_of c r \<Longrightarrow> effective_date r = Some y \<Longrightarrow>
     \<exists>z. reinstated_on (national_run as_of es) c = Some z \<and> y \<le> z"
proof (induction es rule: rev_induct)
  case Nil
  then show ?case by simp
next
  case (snoc e es)
  let ?st = "national_run as_of es"
  have keep: "reinstated_on (national_run as_of (es @ [e])) c =
      (if reinstatement_event as_of c e \<and> (reinstated_on ?st c = None \<or> later (effective_date e) (reinstated_on ?st c))
       then effective_date e else reinstated_on ?st c)"
  proof (cases "country e")
    case None
    then show ?thesis by (simp add: national_run_snoc reinstated_on_def ns_reinstated_event
          reinstatement_event_def)
  next
    case (Some c')
    then have "reinstated_on (national_event as_of e ?st) c =
        (if reinstatement_event as_of c' e then reinstated_on (note_reinstatement c' e ?st) c
         else reinstated_on ?st c)"
      by (simp add: reinstated_on_def ns_reinstated_event)
    moreover have "reinstatement_event as_of c e \<Longrightarrow> c' = c"
      using Some by (simp add: reinstatement_event_def)
    ultimately show ?thesis
      using Some by (auto simp: national_run_snoc reinstated_note reinstatement_event_def)
  qed
  show ?case
  proof (cases "r \<in> set es")
    case True
    with snoc show ?thesis unfolding keep
      by (auto simp: later_def split: option.splits)
  next
    case False
    with snoc.prems have "r = e" by simp
    with snoc.prems show ?thesis unfolding keep
      by (auto simp: later_def not_less split: option.splits)
  qed
qed

lemma map_of_map_keys: "map_of (map (\<lambda>c. (c, f c)) xs) k = (if k \<in> set xs then Some (f k) else None)"
  by (induction xs) auto

lemma lapsed_in_evidence:
  assumes "lapsed_in (country_statuses es as_of) s"
  shows "\<exists>e \<in> set es. \<exists>d. lapse_event as_of s e \<and> effective_date e = Some d
    \<and> (\<forall>r \<in> set es. \<forall>y. reinstatement_event as_of s r \<and> effective_date r = Some y \<longrightarrow> y < d)"
proof -
  let ?st = "national_run as_of es"
  have eff: "lapse_in_effect (status_of_country ?st s)"
    using assms by (auto simp: lapsed_in_def country_statuses_def Let_def map_of_map_keys split: if_splits)
  then obtain d where d: "fst (or_else (map_of (ns_lapse ?st) s) (None, [])) = Some d"
      "reinstated_on ?st s = None \<or> (\<exists>z. reinstated_on ?st s = Some z \<and> z < d)"
    by (auto simp: lapse_in_effect_def status_of_country_def reinstated_on_def split: option.splits)
  then obtain reason where "map_of (ns_lapse ?st) s = Some (Some d, reason)"
    by (cases "map_of (ns_lapse ?st) s") auto
  from lapse_from_event [OF this] obtain e where e: "e \<in> set es" "lapse_event as_of s e"
      "effective_date e = Some d" by blast
  have "y < d" if "r \<in> set es" "reinstatement_event as_of s r" "effective_date r = Some y" for r y
    using reinstatement_counts [OF that] d(2) by auto
  with e show ?thesis by blast
qed

lemma ep_decide_cases:
  "ep_decide events as_of expiry = (st, reasons) \<Longrightarrow>
     (st = Expired \<longleftrightarrow> expiry < as_of)
     \<and> (st = Lapsed \<longrightarrow> designated_states_at_grant events \<noteq> []
          \<and> (\<forall>s \<in> set (designated_states_at_grant events). lapsed_in (country_statuses events as_of) s))
     \<and> (st = Status_undetermined \<longrightarrow> reasons \<noteq> [])"
  by (auto simp: ep_decide_def Let_def filter_empty_conv split: if_splits)

text \<open>
  C21: The EP rules call a patent dead only on evidence.  Expired means exactly that the analysis date
  is later than twenty years after filing.  Lapsed means that states were designated at grant and
  that each of them has a negative event that had taken effect by the analysis date, with every
  reinstatement in that state that had taken effect by the analysis date earlier than it.  Undetermined always comes with a reason.
\<close>

theorem ep_dead_only_on_evidence:
  assumes "assess_ep payload pn filing as_of data_as_of = Inr a"
  shows "(la_status a = Expired \<longleftrightarrow> (\<exists>expiry. add_years filing 20 = Some expiry \<and> expiry < as_of))
    \<and> (la_status a = Lapsed \<longrightarrow>
         designated_states_at_grant (parse_inpadoc payload) \<noteq> []
         \<and> (\<forall>s \<in> set (designated_states_at_grant (parse_inpadoc payload)).
              \<exists>e \<in> set (parse_inpadoc payload). \<exists>d.
                country e = Some s \<and> negative e \<and> effective_date e = Some d \<and> d \<le> as_of
                \<and> (\<forall>r \<in> set (parse_inpadoc payload). \<forall>y.
                     country r = Some s \<and> le_code r = ''PGRI'' \<and> effective_date r = Some y \<and> y \<le> as_of
                     \<longrightarrow> y < d)))
    \<and> (la_status a = Status_undetermined \<longrightarrow> la_reasons a \<noteq> [])"
proof -
  let ?es = "parse_inpadoc payload"
  obtain expiry where expiry: "add_years filing 20 = Some expiry"
    using assms by (auto simp: assess_ep_def Let_def split: option.splits)
  obtain st reasons where dec: "ep_decide ?es as_of expiry = (st, reasons)" by fastforce
  have a: "la_status a = st" "la_reasons a = reasons"
    using assms by (auto simp: assess_ep_def expiry dec Let_def)
  note facts = ep_decide_cases [OF dec]
  have lapsed: "\<exists>e \<in> set ?es. \<exists>d. country e = Some s \<and> negative e \<and> effective_date e = Some d \<and> d \<le> as_of
      \<and> (\<forall>r \<in> set ?es. \<forall>y. country r = Some s \<and> le_code r = ''PGRI'' \<and> effective_date r = Some y \<and> y \<le> as_of
           \<longrightarrow> y < d)"
    if lap: "lapsed_in (country_statuses ?es as_of) s" for s
  proof -
    obtain e d where e: "e \<in> set ?es" "lapse_event as_of s e" "effective_date e = Some d"
        "\<And>r y. r \<in> set ?es \<Longrightarrow> reinstatement_event as_of s r \<Longrightarrow> effective_date r = Some y \<Longrightarrow> y < d"
      using lapsed_in_evidence [OF lap] by blast
    have "reinstatement_event as_of s r" if "country r = Some s" "le_code r = ''PGRI''"
        "effective_date r = Some y" "y \<le> as_of" for r y
      using that e(2) by (simp add: reinstatement_event_def lapse_event_def future_def REINSTATEMENT_CODES_def)
    with e show ?thesis
      by (intro bexI [of _ e] exI [of _ d]) (auto simp: lapse_event_def future_def not_less)
  qed
  have "st = Expired \<longleftrightarrow> (\<exists>expiry. add_years filing 20 = Some expiry \<and> expiry < as_of)"
    using facts expiry by simp
  moreover have "\<forall>s \<in> set (designated_states_at_grant ?es). \<exists>e \<in> set ?es. \<exists>d. country e = Some s \<and> negative e
      \<and> effective_date e = Some d \<and> d \<le> as_of
      \<and> (\<forall>r \<in> set ?es. \<forall>y. country r = Some s \<and> le_code r = ''PGRI'' \<and> effective_date r = Some y \<and> y \<le> as_of
           \<longrightarrow> y < d)" if "st = Lapsed"
    using facts that by (intro ballI lapsed) simp
  ultimately show ?thesis using facts unfolding a by simp
qed

theorem ep_dead_only_on_evidence_witness:
  "\<exists>a. assess_ep (Ops_list []) ''EP1'' (Date 2000 1 1) (Date 2020 1 2) None = Inr a \<and> la_status a = Expired"
proof -
  have years: "add_years (Date 2000 1 1) 20 = Some (Date 2020 1 1)"
    by (simp add: add_years_def mk_date_def valid_ymd_def days_in_month_def)
  obtain a where a: "assess_ep (Ops_list []) ''EP1'' (Date 2000 1 1) (Date 2020 1 2) None = Inr a"
    by (simp add: assess_ep_def years Let_def case_prod_beta)
  with ep_dead_only_on_evidence [OF a] years show ?thesis by auto
qed

end
