(* ===== verification/Organizations.thy ===== *)
theory Organizations
  imports PyText
begin

text \<open>
  Organizations, their members and invitations:
  \<^verbatim>\<open>core/organization_lifecycle.py\<close>, \<^verbatim>\<open>platform/organizations.py\<close> (opening an organization),
  \<^verbatim>\<open>organization/access.py\<close> (who may change it), \<^verbatim>\<open>organization/members.py\<close> and
  \<^verbatim>\<open>organization/invitations.py\<close>.  Each operation runs under the organization's lock in one
  transaction, so it is one function on the tables.  Instants are microseconds; fresh identifiers,
  tokens and the digest of a secret are arguments.  An operation that reads the clock several times is
  given one instant.  The audit table is in another theory, and the columns \<open>created_at\<close> and
  \<open>updated_at\<close>, which no operation reads, are left out.
\<close>

section \<open>Tables\<close>

record organization =
  og_id :: string
  og_slug :: string
  og_display_name :: string
  og_status :: string
  og_expires_at :: "nat option"
  og_created_by :: string

record quota =
  qu_organization :: string
  qu_plan_key :: string
  qu_allowance :: int
  qu_period_start :: nat
  qu_period_end :: nat
  qu_status :: string

record identity =
  gi_id :: string
  gi_email :: string
  gi_display_name :: string
  gi_status :: string
  gi_password_hash :: "string option"
  gi_security_version :: nat

record membership =
  mb_id :: string
  mb_organization :: string
  mb_identity :: string
  mb_role :: string
  mb_status :: string

record invitation =
  iv_id :: string
  iv_organization :: string
  iv_email :: string
  iv_role :: string
  iv_token_hash :: string
  iv_status :: string
  iv_invited_by :: string
  iv_expires_at :: nat
  iv_accepted_at :: "nat option"
  iv_revoked_at :: "nat option"

record provisioning_record =
  po_organization :: string
  po_invitation :: string
  po_created_by :: string
  po_status :: string

record provisioning_request =
  pr_actor :: string
  pr_key :: string
  pr_fingerprint :: string
  pr_organization :: string
  pr_invitation :: string

record org_db =
  organizations :: "organization list"
  quotas :: "quota list"
  identities :: "identity list"
  memberships :: "membership list"
  invitations :: "invitation list"
  provisioning_records :: "provisioning_record list"
  requests :: "provisioning_request list"

datatype http_error = Http nat string

definition update_where :: "('a \<Rightarrow> bool) \<Rightarrow> ('a \<Rightarrow> 'a) \<Rightarrow> 'a list \<Rightarrow> 'a list" where
  "update_where P f xs = map (\<lambda>x. if P x then f x else x) xs"

lemma map_update_where: "(\<And>x. g (f x) = g x) \<Longrightarrow> map g (update_where P f xs) = map g xs"
  by (induction xs) (simp_all add: update_where_def)

lemma filter_update_where: "(\<And>x. P x \<Longrightarrow> \<not> Q x) \<Longrightarrow> (\<And>x. Q (f x) = Q x) \<Longrightarrow> filter Q (update_where P f xs) = filter Q xs"
  by (induction xs) (auto simp: update_where_def)

section \<open>Life cycle of an organization\<close>

definition effective_status :: "string \<Rightarrow> nat option \<Rightarrow> nat \<Rightarrow> string" where
  "effective_status persisted expires_at now =
     (case expires_at of
        None \<Rightarrow> persisted
      | Some e \<Rightarrow> if e \<le> now then ''expired'' else persisted)"

definition quota_status :: "string \<Rightarrow> nat option \<Rightarrow> string \<Rightarrow> nat \<Rightarrow> string" where
  "quota_status persisted expires_at quota now =
     (let st = effective_status persisted expires_at now
      in if st \<in> {''suspended'', ''expired''} then st else quota)"

definition find_organization :: "org_db \<Rightarrow> string \<Rightarrow> organization option" where
  "find_organization db org = find (\<lambda>o'. og_id o' = org) (organizations db)"

definition organization_active :: "org_db \<Rightarrow> nat \<Rightarrow> string \<Rightarrow> bool" where
  "organization_active db now org =
     (case find_organization db org of
        None \<Rightarrow> False
      | Some o' \<Rightarrow> effective_status (og_status o') (og_expires_at o') now = ''active'')"

definition set_organization_status :: "nat \<Rightarrow> string \<Rightarrow> string \<Rightarrow> org_db \<Rightarrow> (http_error, org_db) result" where
  "set_organization_status now org status db =
     (case find_organization db org of
        None \<Rightarrow> Inl (Http 404 ''organization_not_found'')
      | Some o' \<Rightarrow>
          if status = ''active'' \<and> (case og_expires_at o' of None \<Rightarrow> False | Some e \<Rightarrow> e \<le> now)
          then Inl (Http 409 ''organization_expired'')
          else Inr (db\<lparr>organizations := update_where (\<lambda>x. og_id x = org) (og_status_update (\<lambda>_. status))
                                       (organizations db)\<rparr>))"

definition set_organization_expiry :: "string \<Rightarrow> nat option \<Rightarrow> org_db \<Rightarrow> (http_error, org_db) result" where
  "set_organization_expiry org expires db =
     (if find_organization db org = None then Inl (Http 404 ''organization_not_found'')
      else Inr (db\<lparr>organizations := update_where (\<lambda>x. og_id x = org) (og_expires_at_update (\<lambda>_. expires))
                                   (organizations db)\<rparr>))"

section \<open>Opening an organization\<close>

record organization_opening =
  op_slug :: string
  op_display_name :: string
  op_admin_email :: string
  op_plan_key :: string
  op_allowance :: int
  op_period_start :: nat
  op_period_end :: nat
  op_expires_at :: "nat option"

definition INVITATION_LIFETIME :: nat where
  "INVITATION_LIFETIME = 72 * 3600 * 1000000"

definition validate_opening :: "nat \<Rightarrow> organization_opening \<Rightarrow> (http_error, unit) result" where
  "validate_opening now opening =
     (if op_period_end opening \<le> op_period_start opening then Inl (Http 422 ''invalid_quota_period'')
      else if (case op_expires_at opening of None \<Rightarrow> False | Some e \<Rightarrow> e \<le> now)
        then Inl (Http 422 ''invalid_organization_expiry'')
      else Inr ())"

definition new_invitation :: "string \<Rightarrow> string \<Rightarrow> string \<Rightarrow> string \<Rightarrow> string \<Rightarrow> string \<Rightarrow> nat \<Rightarrow> invitation" where
  "new_invitation i org email role token_hash actor now =
     \<lparr>iv_id = i, iv_organization = org, iv_email = email, iv_role = role, iv_token_hash = token_hash,
      iv_status = ''pending'', iv_invited_by = actor, iv_expires_at = now + INVITATION_LIFETIME, iv_accepted_at = None,
      iv_revoked_at = None\<rparr>"

text \<open>The status code, the organization, and the invitation token, which is shown once.\<close>

definition open_organization :: "(organization_opening \<Rightarrow> string) \<Rightarrow> (string \<Rightarrow> string) \<Rightarrow> nat \<Rightarrow> string
    \<Rightarrow> string \<Rightarrow> string \<Rightarrow> string \<Rightarrow> string \<Rightarrow> organization_opening \<Rightarrow> org_db
    \<Rightarrow> (http_error, (nat \<times> string \<times> string option) \<times> org_db) result" where
  "open_organization fingerprint digest now fresh_org fresh_invitation token actor key opening db =
     bind_result (validate_opening now opening) (\<lambda>_.
       case find (\<lambda>r. pr_actor r = actor \<and> pr_key r = key) (requests db) of
         Some prior \<Rightarrow>
           (if pr_fingerprint prior \<noteq> fingerprint opening then Inl (Http 409 ''idempotency_conflict'')
            else Inr ((200, pr_organization prior, None), db))
       | None \<Rightarrow>
           (if list_ex (\<lambda>x. og_slug x = op_slug opening) (organizations db)
            then Inl (Http 409 ''organization_slug_conflict'')
            else Inr ((201, fresh_org, Some token),
              db\<lparr>organizations := organizations db @
                   [\<lparr>og_id = fresh_org, og_slug = op_slug opening, og_display_name = op_display_name opening,
                     og_status = ''active'', og_expires_at = op_expires_at opening, og_created_by = actor\<rparr>],
                 quotas := quotas db @
                   [\<lparr>qu_organization = fresh_org, qu_plan_key = op_plan_key opening,
                     qu_allowance = op_allowance opening, qu_period_start = op_period_start opening,
                     qu_period_end = op_period_end opening, qu_status = ''active''\<rparr>],
                 invitations := invitations db @
                   [new_invitation fresh_invitation fresh_org (op_admin_email opening) ''organization_admin''
                      (digest token) actor now],
                 provisioning_records := provisioning_records db @
                   [\<lparr>po_organization = fresh_org, po_invitation = fresh_invitation, po_created_by = actor,
                     po_status = ''ready''\<rparr>],
                 requests := requests db @
                   [\<lparr>pr_actor = actor, pr_key = key, pr_fingerprint = fingerprint opening,
                     pr_organization = fresh_org, pr_invitation = fresh_invitation\<rparr>]\<rparr>)))"

section \<open>Access\<close>

definition membership_of :: "org_db \<Rightarrow> string \<Rightarrow> string \<Rightarrow> membership option" where
  "membership_of db org who =
     find (\<lambda>m. mb_organization m = org \<and> mb_identity m = who) (memberships db)"

definition active_admin :: "membership \<Rightarrow> bool" where
  "active_admin m \<longleftrightarrow> mb_role m = ''organization_admin'' \<and> mb_status m = ''active''"

definition authorize :: "org_db \<Rightarrow> nat \<Rightarrow> string \<Rightarrow> string \<Rightarrow> (http_error, unit) result" where
  "authorize db now actor org =
     (case (find_organization db org, membership_of db org actor) of
        (Some o', Some m) \<Rightarrow>
          if effective_status (og_status o') (og_expires_at o') now \<noteq> ''active'' \<or> \<not> active_admin m
          then Inl (Http 403 ''forbidden'') else Inr ()
      | _ \<Rightarrow> Inl (Http 404 ''organization_not_found''))"

section \<open>Members\<close>

definition active_admins :: "org_db \<Rightarrow> string \<Rightarrow> membership list" where
  "active_admins db org = filter (\<lambda>m. mb_organization m = org \<and> active_admin m) (memberships db)"

definition locked_target :: "org_db \<Rightarrow> string \<Rightarrow> string \<Rightarrow> string \<Rightarrow> (http_error, membership) result" where
  "locked_target db org actor membership_id =
     (if \<not> list_ex (\<lambda>m. mb_identity m = actor) (active_admins db org) then Inl (Http 403 ''forbidden'')
      else case find (\<lambda>m. mb_organization m = org \<and> mb_id m = membership_id) (memberships db) of
             None \<Rightarrow> Inl (Http 404 ''membership_not_found'')
           | Some m \<Rightarrow> Inr m)"

definition protect_last_admin :: "org_db \<Rightarrow> string \<Rightarrow> membership \<Rightarrow> (http_error, unit) result" where
  "protect_last_admin db org target =
     (if \<not> active_admin target then Inr ()
      else if length (active_admins db org) \<le> 1 then Inl (Http 409 ''last_active_organization_admin'')
      else Inr ())"

definition update_membership :: "string \<Rightarrow> string \<Rightarrow> (membership \<Rightarrow> membership) \<Rightarrow> org_db \<Rightarrow> org_db" where
  "update_membership org membership_id f db =
     db\<lparr>memberships := update_where (\<lambda>m. mb_organization m = org \<and> mb_id m = membership_id) f
                         (memberships db)\<rparr>"

definition set_role :: "string \<Rightarrow> string \<Rightarrow> string \<Rightarrow> string \<Rightarrow> org_db \<Rightarrow> (http_error, org_db) result" where
  "set_role org actor membership_id role db =
     bind_result (locked_target db org actor membership_id) (\<lambda>target.
       if mb_status target = ''removed'' then Inl (Http 409 ''membership_removed'')
       else bind_result
              (if role \<noteq> ''organization_admin'' then protect_last_admin db org target else Inr ())
              (\<lambda>_. Inr (update_membership org membership_id (mb_role_update (\<lambda>_. role)) db)))"

datatype member_transition = Suspend | Reactivate | Remove

fun transition_states :: "member_transition \<Rightarrow> string \<times> string" where
  "transition_states Suspend = (''active'', ''suspended'')"
| "transition_states Reactivate = (''suspended'', ''active'')"
| "transition_states Remove = (''active'', ''removed'')"

definition set_member_status :: "string \<Rightarrow> string \<Rightarrow> string \<Rightarrow> member_transition \<Rightarrow> org_db
    \<Rightarrow> (http_error, org_db) result" where
  "set_member_status org actor membership_id transition db =
     bind_result (locked_target db org actor membership_id) (\<lambda>target.
       let (usual, status) = transition_states transition;
           expected = (if transition = Remove \<and> mb_status target = ''suspended'' then ''suspended'' else usual)
       in if mb_status target \<noteq> expected then Inl (Http 409 ''invalid_membership_transition'')
          else bind_result
                 (if status \<noteq> ''active'' then protect_last_admin db org target else Inr ())
                 (\<lambda>_. Inr (update_membership org membership_id (mb_status_update (\<lambda>_. status)) db)))"

section \<open>Invitations\<close>

definition update_invitation :: "string \<Rightarrow> string \<Rightarrow> (invitation \<Rightarrow> invitation) \<Rightarrow> org_db \<Rightarrow> org_db" where
  "update_invitation org i f db =
     db\<lparr>invitations := update_where (\<lambda>x. iv_organization x = org \<and> iv_id x = i) f (invitations db)\<rparr>"

definition find_invitation :: "org_db \<Rightarrow> string \<Rightarrow> string \<Rightarrow> invitation option" where
  "find_invitation db org i = find (\<lambda>x. iv_organization x = org \<and> iv_id x = i) (invitations db)"

definition expire_pending :: "nat \<Rightarrow> string \<Rightarrow> string \<Rightarrow> org_db \<Rightarrow> org_db" where
  "expire_pending now org email db =
     db\<lparr>invitations :=
          update_where (\<lambda>x. iv_organization x = org \<and> iv_email x = email \<and> iv_status x = ''pending''
                           \<and> iv_expires_at x \<le> now)
            (iv_status_update (\<lambda>_. ''expired'')) (invitations db)\<rparr>"

definition member_with_email :: "org_db \<Rightarrow> string \<Rightarrow> string \<Rightarrow> bool" where
  "member_with_email db org email \<longleftrightarrow>
     list_ex (\<lambda>m. mb_organization m = org \<and> mb_status m \<noteq> ''removed''
        \<and> list_ex (\<lambda>g. gi_id g = mb_identity m \<and> gi_email g = email) (identities db)) (memberships db)"

definition create_locked :: "(string \<Rightarrow> string) \<Rightarrow> nat \<Rightarrow> string \<Rightarrow> string \<Rightarrow> string \<Rightarrow> string \<Rightarrow> string \<Rightarrow> string
    \<Rightarrow> org_db \<Rightarrow> (http_error, invitation \<times> org_db) result" where
  "create_locked digest now fresh token actor org email role db =
     (let db1 = expire_pending now org email db
      in if member_with_email db1 org email then Inl (Http 409 ''membership_already_exists'')
         else if list_ex (\<lambda>x. iv_organization x = org \<and> iv_email x = email \<and> iv_status x = ''pending''
                            \<and> iv_expires_at x > now) (invitations db1)
           then Inl (Http 409 ''invitation_already_pending'')
         else let iv = new_invitation fresh org email role (digest token) actor now
              in Inr (iv, db1\<lparr>invitations := invitations db1 @ [iv]\<rparr>))"

definition create_invitation :: "(string \<Rightarrow> string) \<Rightarrow> nat \<Rightarrow> string \<Rightarrow> string \<Rightarrow> string \<Rightarrow> string \<Rightarrow> string \<Rightarrow> string
    \<Rightarrow> org_db \<Rightarrow> (http_error, invitation \<times> org_db) result" where
  "create_invitation digest now fresh token actor org email role db =
     (let normalized = lower_text (strip_text email)
      in if CHR ''@'' \<notin> set normalized then Inl (Http 422 ''invalid_invitation_email'')
         else create_locked digest now fresh token actor org normalized role db)"

definition invitation_status :: "nat \<Rightarrow> invitation \<Rightarrow> string" where
  "invitation_status now iv =
     (if iv_status iv = ''pending'' \<and> iv_expires_at iv \<le> now then ''expired'' else iv_status iv)"

definition revoke_invitation :: "nat \<Rightarrow> string \<Rightarrow> string \<Rightarrow> org_db \<Rightarrow> (http_error, org_db) result" where
  "revoke_invitation now org i db =
     (case find_invitation db org i of
        None \<Rightarrow> Inl (Http 404 ''invitation_not_found'')
      | Some iv \<Rightarrow>
          if iv_status iv \<noteq> ''pending'' \<or> iv_expires_at iv \<le> now
          then Inl (Http 409 ''invitation_not_pending'')
          else Inr (update_invitation org i (\<lambda>x. x\<lparr>iv_status := ''revoked'', iv_revoked_at := Some now\<rparr>) db))"

definition resend_invitation :: "(string \<Rightarrow> string) \<Rightarrow> nat \<Rightarrow> string \<Rightarrow> string \<Rightarrow> string \<Rightarrow> string \<Rightarrow> string
    \<Rightarrow> org_db \<Rightarrow> (http_error, invitation \<times> org_db) result" where
  "resend_invitation digest now fresh token actor org i db =
     (case find_invitation db org i of
        None \<Rightarrow> Inl (Http 404 ''invitation_not_found'')
      | Some iv \<Rightarrow>
          (let st = invitation_status now iv
           in if st \<notin> {''pending'', ''expired''} then Inl (Http 409 ''invitation_not_resendable'')
              else create_locked digest now fresh token actor org (iv_email iv) (iv_role iv)
                     (update_invitation org i
                        (\<lambda>x. x\<lparr>iv_status := (if st = ''expired'' then ''expired'' else ''revoked''),
                               iv_revoked_at := (if st = ''pending'' then Some now else None)\<rparr>) db)))"

text \<open>\<open>inspect\<close>: the invitation a token opens, with its effective status.\<close>

definition inspect_invitation :: "(string \<Rightarrow> string) \<Rightarrow> nat \<Rightarrow> string \<Rightarrow> org_db \<Rightarrow> (invitation \<times> string) option" where
  "inspect_invitation digest now token db =
     (case find (\<lambda>x. iv_token_hash x = digest token) (invitations db) of
        None \<Rightarrow> None
      | Some iv \<Rightarrow>
          (case find_organization db (iv_organization iv) of
             None \<Rightarrow> None
           | Some _ \<Rightarrow> Some (iv, invitation_status now iv)))"

text \<open>The identity that accepts: the existing one, or a new one with credentials.\<close>

definition accepting_identity :: "string \<Rightarrow> string \<Rightarrow> string option \<Rightarrow> string option \<Rightarrow> org_db
    \<Rightarrow> (http_error, string \<times> org_db) result" where
  "accepting_identity fresh email display_name password_hash db =
     (case find (\<lambda>g. gi_email g = email) (identities db) of
        None \<Rightarrow>
          (let name = (case display_name of None \<Rightarrow> [] | Some s \<Rightarrow> strip_text s)
           in case password_hash of
                None \<Rightarrow> Inl (Http 422 ''new_identity_credentials_required'')
              | Some h \<Rightarrow>
                  if name = [] then Inl (Http 422 ''new_identity_credentials_required'')
                  else Inr (fresh, db\<lparr>identities := identities db @
                         [\<lparr>gi_id = fresh, gi_email = email, gi_display_name = name, gi_status = ''active'',
                           gi_password_hash = Some h, gi_security_version = 1\<rparr>]\<rparr>))
      | Some g \<Rightarrow>
          if gi_status g \<noteq> ''active'' then Inl (Http 409 ''identity_unavailable'') else Inr (gi_id g, db))"

definition join_organization :: "string \<Rightarrow> string \<Rightarrow> string \<Rightarrow> string \<Rightarrow> org_db \<Rightarrow> (http_error, org_db) result" where
  "join_organization fresh org who role db =
     (case membership_of db org who of
        None \<Rightarrow>
          Inr (db\<lparr>memberships := memberships db @
                   [\<lparr>mb_id = fresh, mb_organization = org, mb_identity = who, mb_role = role,
                     mb_status = ''active''\<rparr>]\<rparr>)
      | Some m \<Rightarrow>
          if mb_status m \<noteq> ''removed'' then Inl (Http 409 ''membership_already_exists'')
          else Inr (update_membership org (mb_id m) (\<lambda>x. x\<lparr>mb_role := role, mb_status := ''active''\<rparr>) db))"

definition accept_invitation :: "nat \<Rightarrow> string \<Rightarrow> string \<Rightarrow> string \<Rightarrow> string \<Rightarrow> string \<Rightarrow> string option
    \<Rightarrow> string option \<Rightarrow> org_db \<Rightarrow> (http_error, org_db) result" where
  "accept_invitation now fresh_identity fresh_membership org i token_hash display_name password_hash db =
     (case find (\<lambda>x. iv_organization x = org \<and> iv_id x = i \<and> iv_token_hash x = token_hash) (invitations db) of
        None \<Rightarrow> Inl (Http 404 ''invitation_not_found'')
      | Some iv \<Rightarrow>
          if iv_status iv \<noteq> ''pending'' then Inl (Http 409 ''invitation_not_pending'')
          else if iv_expires_at iv \<le> now then Inl (Http 410 ''invitation_expired'')
          else if \<not> organization_active db now org then Inl (Http 409 ''organization_unavailable'')
          else bind_result (accepting_identity fresh_identity (iv_email iv) display_name password_hash db)
                 (\<lambda>(who, db1).
               bind_result (join_organization fresh_membership org who (iv_role iv) db1) (\<lambda>db2.
                 Inr (update_invitation org i (\<lambda>x. x\<lparr>iv_status := ''accepted'', iv_accepted_at := Some now\<rparr>) db2))))"

end
