(* ===== verification/AuthModel.thy ===== *)
theory AuthModel
  imports Organizations
begin

text \<open>
  Authentication: \<^verbatim>\<open>auth/security.py\<close>, \<^verbatim>\<open>auth/session_authority.py\<close>, \<^verbatim>\<open>auth/guards.py\<close>, the handlers
  of \<^verbatim>\<open>auth/api.py\<close>, and the database functions of migration \<^verbatim>\<open>0001_identity_tenancy.py\<close> they call.
  Password hashing, HMAC, the digest of a secret, the cipher of stored secrets, fresh identifiers and
  random tokens are arguments; instants are microseconds.  A handler is a function on the tables; a
  handler that raises is rolled back, so it returns no tables.  The rate limiter lives in the process
  and keeps its state whatever happens to the transaction.
\<close>

section \<open>Secrets, codes and limits\<close>

definition SESSION_LIFETIME :: nat where "SESSION_LIFETIME = 12 * 3600 * 1000000"

definition MFA_RECENCY :: nat where "MFA_RECENCY = 10 * 60 * 1000000"

definition RESET_LIFETIME :: nat where "RESET_LIFETIME = 30 * 60 * 1000000"

definition ENROLLMENT_LIFETIME :: nat where "ENROLLMENT_LIFETIME = 10 * 60 * 1000000"

definition password_acceptable :: "ustr \<Rightarrow> bool" where
  "password_acceptable p \<longleftrightarrow> \<not> (length p < 12 \<or> length p > 128)"

definition password_verify :: "(string \<Rightarrow> ustr \<Rightarrow> bool) \<Rightarrow> string option \<Rightarrow> ustr \<Rightarrow> bool" where
  "password_verify argon2 encoded p =
     (case encoded of None \<Rightarrow> False | Some h \<Rightarrow> h \<noteq> [] \<and> argon2 h p)"

text \<open>
  \<open>TotpSecurity.verify\<close>.  \<open>hotp\<close> is the six-digit value of a secret at a counter.  \<open>str.isdigit\<close> accepts
  digits outside ASCII, on which \<open>compare_digest\<close> raises a \<open>TypeError\<close>.
\<close>

definition six_digits :: "nat \<Rightarrow> ustr" where
  "six_digits v = map (\<lambda>i. 48 + (v div 10 ^ i) mod 10) [5, 4, 3, 2, 1, 0]"

definition totp_verify :: "(nat \<Rightarrow> bool) \<Rightarrow> (string \<Rightarrow> int \<Rightarrow> nat) \<Rightarrow> string \<Rightarrow> ustr \<Rightarrow> nat
    \<Rightarrow> (http_error, bool) result" where
  "totp_verify unicode_digit hotp secret code now =
     (if length code \<noteq> 6 \<or> \<not> list_all unicode_digit code then Inr False
      else if list_ex (\<lambda>c. c \<ge> 128) code then Inl (Http 500 ''TypeError'')
      else let counter = int (now div 1000000) div 30
           in Inr (list_ex (\<lambda>drift. six_digits (hotp secret (counter + drift)) = code) [-2, -1, 0, 1, 2]))"

type_synonym limiter = "string \<Rightarrow> nat list"

definition rate_allow :: "nat \<Rightarrow> nat \<Rightarrow> string \<Rightarrow> nat \<Rightarrow> limiter \<Rightarrow> bool \<times> limiter" where
  "rate_allow attempts window key now events =
     (let recent = filter (\<lambda>e. e + window > now) (events key)
      in if length recent \<ge> attempts then (False, events(key := recent))
         else (True, events(key := recent @ [now])))"

section \<open>Tables\<close>

record user_session =
  ss_id :: string
  ss_identity :: string
  ss_version :: nat
  ss_token_hash :: string
  ss_mfa_verified_at :: "nat option"
  ss_expires_at :: nat
  ss_last_seen_at :: nat
  ss_revoked_at :: "nat option"

record mfa_credential =
  mc_id :: string
  mc_identity :: string
  mc_ciphertext :: string
  mc_status :: string
  mc_confirmed_at :: "nat option"
  mc_last_used_at :: "nat option"
  mc_created_at :: nat

record recovery_code =
  rc_identity :: string
  rc_credential :: string
  rc_batch :: string
  rc_hash :: string
  rc_used_at :: "nat option"

record reset_token =
  rt_id :: string
  rt_identity :: string
  rt_hash :: string
  rt_expires_at :: nat
  rt_used_at :: "nat option"

record operator_grant =
  gr_identity :: string
  gr_role :: string
  gr_status :: string
  gr_enrollment_expires_at :: "nat option"

record audit_event =
  ae_organization :: "string option"
  ae_actor :: "string option"
  ae_action :: string
  ae_target_type :: string
  ae_target :: "string option"
  ae_result :: string
  ae_correlation :: string
  ae_summary :: string

record auth_db =
  a_org :: org_db
  sessions :: "user_session list"
  credentials :: "mfa_credential list"
  recovery_codes :: "recovery_code list"
  reset_tokens :: "reset_token list"
  grants :: "operator_grant list"
  audit_events :: "audit_event list"
  platform_audit_events :: "audit_event list"

definition identity_of :: "auth_db \<Rightarrow> string \<Rightarrow> identity option" where
  "identity_of db i = find (\<lambda>g. gi_id g = i) (identities (a_org db))"

definition update_sessions :: "(user_session \<Rightarrow> bool) \<Rightarrow> (user_session \<Rightarrow> user_session) \<Rightarrow> auth_db \<Rightarrow> auth_db" where
  "update_sessions P f db = db\<lparr>sessions := update_where P f (sessions db)\<rparr>"

definition revoked :: "nat \<Rightarrow> user_session \<Rightarrow> user_session" where
  "revoked now s = s\<lparr>ss_revoked_at := Some now\<rparr>"

section \<open>Session authority\<close>

record principal =
  pp_session :: string
  pp_identity :: string
  pp_email :: string
  pp_token_hash :: string
  pp_version :: nat
  pp_expires_at :: nat
  pp_mfa_verified_at :: "nat option"

definition recent_mfa :: "nat option \<Rightarrow> nat \<Rightarrow> bool" where
  "recent_mfa verified now = (case verified of None \<Rightarrow> False | Some t \<Rightarrow> t + MFA_RECENCY \<ge> now)"

definition has_recent_mfa :: "principal \<Rightarrow> nat \<Rightarrow> bool" where
  "has_recent_mfa p now = recent_mfa (pp_mfa_verified_at p) now"

definition session_live :: "nat \<Rightarrow> user_session \<Rightarrow> identity \<Rightarrow> bool" where
  "session_live now s g \<longleftrightarrow> ss_revoked_at s = None \<and> ss_expires_at s > now \<and> gi_status g = ''active''
     \<and> ss_version s = gi_security_version g"

text \<open>The row of the join of sessions and identities for a token hash.\<close>

definition session_row :: "auth_db \<Rightarrow> string \<Rightarrow> (user_session \<times> identity) option" where
  "session_row db token_hash =
     (case find (\<lambda>s. ss_token_hash s = token_hash) (sessions db) of
        None \<Rightarrow> None
      | Some s \<Rightarrow> map_option (\<lambda>g. (s, g)) (identity_of db (ss_identity s)))"

text \<open>The second reading under row locks.\<close>

definition locked_rows_agree :: "nat \<Rightarrow> user_session \<Rightarrow> auth_db \<Rightarrow> bool" where
  "locked_rows_agree now row db \<longleftrightarrow>
     (case identity_of db (ss_identity row) of
        None \<Rightarrow> False
      | Some g \<Rightarrow> gi_status g = ''active'' \<and> gi_security_version g = ss_version row
          \<and> (case find (\<lambda>s. ss_id s = ss_id row) (sessions db) of
               None \<Rightarrow> False
             | Some s \<Rightarrow> ss_revoked_at s = None \<and> ss_expires_at s > now
                 \<and> ss_version s = gi_security_version g))"

text \<open>
  \<open>resolve\<close> answers with the tables as they stand inside the transaction, also when it raises: it marks
  an invalid session as revoked first.
\<close>

definition session_required :: http_error where
  "session_required = Http 401 ''session_required''"

definition resolve :: "bool \<Rightarrow> (string \<Rightarrow> string) \<Rightarrow> nat \<Rightarrow> bool \<Rightarrow> string option \<Rightarrow> auth_db
    \<Rightarrow> (http_error, principal) result \<times> auth_db" where
  "resolve disable_mfa digest now lock cookie db =
     (case cookie of
        None \<Rightarrow> (Inl session_required, db)
      | Some token \<Rightarrow>
          if token = [] then (Inl session_required, db)
          else case session_row db (digest token) of
            None \<Rightarrow> (Inl session_required, db)
          | Some (s, g) \<Rightarrow>
              if \<not> session_live now s g then
                (Inl session_required,
                 if ss_revoked_at s = None then update_sessions (\<lambda>x. ss_id x = ss_id s) (revoked now) db else db)
              else if lock \<and> \<not> locked_rows_agree now s db then (Inl session_required, db)
              else
                (Inr \<lparr>pp_session = ss_id s, pp_identity = ss_identity s, pp_email = gi_email g,
                      pp_token_hash = digest token, pp_version = ss_version s, pp_expires_at = ss_expires_at s,
                      pp_mfa_verified_at = (if disable_mfa then Some now else ss_mfa_verified_at s)\<rparr>,
                 update_sessions (\<lambda>x. ss_id x = ss_id s) (ss_last_seen_at_update (\<lambda>_. now)) db))"

text \<open>A transaction: what the block wrote is kept only if it does not raise.\<close>

definition in_transaction :: "('a, 'r) result \<times> auth_db \<Rightarrow> ('a, 'r \<times> auth_db) result" where
  "in_transaction outcome = (case outcome of (Inl e, _) \<Rightarrow> Inl e | (Inr r, db) \<Rightarrow> Inr (r, db))"

definition resolved :: "bool \<Rightarrow> (string \<Rightarrow> string) \<Rightarrow> nat \<Rightarrow> bool \<Rightarrow> string option \<Rightarrow> auth_db
    \<Rightarrow> (http_error, principal \<times> auth_db) result" where
  "resolved disable_mfa digest now lock cookie db = in_transaction (resolve disable_mfa digest now lock cookie db)"

definition require_recent_mfa :: "bool \<Rightarrow> nat \<Rightarrow> principal \<Rightarrow> (http_error, principal) result" where
  "require_recent_mfa disable_mfa now p =
     (if disable_mfa then Inr p
      else if \<not> has_recent_mfa p now then Inl (Http 403 ''mfa_required'') else Inr p)"

end
