(* ===== verification/AuthHandlers.thy ===== *)
theory AuthHandlers
  imports AuthModel
begin

text \<open>
  The handlers of \<^verbatim>\<open>auth/api.py\<close> and the guards of \<^verbatim>\<open>auth/guards.py\<close> over the tables of
  \<^verbatim>\<open>AuthModel\<close>, with the security-definer functions of migration 0001.  \<open>dbnow\<close> is the clock of the
  database, \<open>now\<close> that of the application.
\<close>

section \<open>Issuing and rotating sessions\<close>

definition issue_session :: "(string \<Rightarrow> string) \<Rightarrow> string \<Rightarrow> string \<Rightarrow> string \<Rightarrow> nat \<Rightarrow> nat \<Rightarrow> nat option \<Rightarrow> auth_db
    \<Rightarrow> (http_error, (string \<times> nat) \<times> auth_db) result" where
  "issue_session digest fresh token who version now mfa db =
     (case identity_of db who of
        None \<Rightarrow> Inl session_required
      | Some g \<Rightarrow>
          if gi_status g \<noteq> ''active'' \<or> gi_security_version g \<noteq> version then Inl session_required
          else Inr ((token, now + SESSION_LIFETIME),
            db\<lparr>sessions := sessions db @
                 [\<lparr>ss_id = fresh, ss_identity = who, ss_version = version, ss_token_hash = digest token,
                   ss_mfa_verified_at = mfa, ss_expires_at = now + SESSION_LIFETIME,
                   ss_last_seen_at = now, ss_revoked_at = None\<rparr>]\<rparr>))"

definition rotate_session :: "(string \<Rightarrow> string) \<Rightarrow> string \<Rightarrow> string \<Rightarrow> principal \<Rightarrow> nat \<Rightarrow> auth_db
    \<Rightarrow> (http_error, (string \<times> nat) \<times> auth_db) result" where
  "rotate_session digest fresh token p now db =
     issue_session digest fresh token (pp_identity p) (pp_version p) now (Some now)
       (update_sessions (\<lambda>s. ss_id s = pp_session p) (revoked now) db)"

definition revoke_valid_presented_session :: "(string \<Rightarrow> string) \<Rightarrow> nat \<Rightarrow> string option \<Rightarrow> auth_db \<Rightarrow> auth_db" where
  "revoke_valid_presented_session digest now cookie db =
     (case cookie of
        None \<Rightarrow> db
      | Some token \<Rightarrow>
          if token = [] then db
          else case session_row db (digest token) of
                 None \<Rightarrow> db
               | Some (s, g) \<Rightarrow>
                   if session_live now s g
                   then update_sessions (\<lambda>x. ss_id x = ss_id s) (revoked now) db else db)"

section \<open>Login and logout\<close>

definition invalid_credentials :: http_error where
  "invalid_credentials = Http 401 ''invalid_credentials''"

definition rate_limited :: http_error where
  "rate_limited = Http 429 ''rate_limited''"

definition capacity_exhausted :: http_error where
  "capacity_exhausted = Http 503 ''authentication_temporarily_unavailable''"

definition normalized_email :: "string \<Rightarrow> string" where
  "normalized_email email = lower_text (strip_text email)"

definition two_limits :: "nat \<Rightarrow> nat \<Rightarrow> string \<Rightarrow> string \<Rightarrow> nat \<Rightarrow> limiter \<Rightarrow> bool \<times> limiter" where
  "two_limits attempts window key1 key2 now lim =
     (let (ip_allowed, lim1) = rate_allow attempts window key1 now lim;
          (email_allowed, lim2) = rate_allow attempts window key2 now lim1
      in (ip_allowed \<and> email_allowed, lim2))"

text \<open>The password is checked against a snapshot of the identity, outside any lock.\<close>

definition login_check :: "(string \<Rightarrow> ustr \<Rightarrow> bool) \<Rightarrow> ustr \<Rightarrow> identity option \<Rightarrow> (http_error, identity) result" where
  "login_check argon2 password row =
     (let valid = password_verify argon2 (Option.bind row gi_password_hash) password
      in case row of
           None \<Rightarrow> Inl invalid_credentials
         | Some g \<Rightarrow> if gi_status g \<noteq> ''active'' \<or> \<not> valid then Inl invalid_credentials else Inr g)"

definition login_commit :: "(string \<Rightarrow> string) \<Rightarrow> nat \<Rightarrow> string option \<Rightarrow> string \<Rightarrow> string \<Rightarrow> identity \<Rightarrow> auth_db
    \<Rightarrow> (http_error, (string \<times> nat) \<times> auth_db) result" where
  "login_commit digest now cookie fresh token row db =
     (case identity_of db (gi_id row) of
        None \<Rightarrow> Inl invalid_credentials
      | Some g \<Rightarrow>
          if gi_password_hash g \<noteq> gi_password_hash row \<or> gi_security_version g \<noteq> gi_security_version row
            \<or> gi_status g \<noteq> gi_status row
          then Inl invalid_credentials
          else issue_session digest fresh token (gi_id row) (gi_security_version row) now None
                 (revoke_valid_presented_session digest now cookie db))"

definition login :: "nat \<Rightarrow> nat \<Rightarrow> (string \<Rightarrow> string) \<Rightarrow> (string \<Rightarrow> ustr \<Rightarrow> bool) \<Rightarrow> bool \<Rightarrow> nat \<Rightarrow> string
    \<Rightarrow> string \<Rightarrow> ustr \<Rightarrow> string option \<Rightarrow> string \<Rightarrow> string \<Rightarrow> limiter \<Rightarrow> auth_db
    \<Rightarrow> (http_error, (string \<times> nat) \<times> auth_db) result \<times> limiter" where
  "login attempts window digest argon2 capacity_free now host email password cookie fresh token lim db =
     (let (allowed, lim1) = two_limits attempts window (''login-ip:'' @ host)
            (''login-email:'' @ digest (normalized_email email)) now lim
      in (if \<not> allowed then Inl rate_limited
          else if \<not> capacity_free then Inl capacity_exhausted
          else bind_result
                 (login_check argon2 password
                    (find (\<lambda>g. gi_email g = normalized_email email) (identities (a_org db))))
                 (\<lambda>row. login_commit digest now cookie fresh token row db), lim1))"

definition logout :: "bool \<Rightarrow> (string \<Rightarrow> string) \<Rightarrow> nat \<Rightarrow> string option \<Rightarrow> auth_db \<Rightarrow> (http_error, auth_db) result" where
  "logout disable_mfa digest now cookie db =
     bind_result (resolved disable_mfa digest now True cookie db) (\<lambda>(p, db1).
       Inr (update_sessions (\<lambda>s. ss_id s = pp_session p) (revoked now) db1))"

text \<open>\<open>revoke_current_identity_sessions\<close>: the session that is bound to the transaction decides.\<close>

definition audit_row :: "string option \<Rightarrow> string \<Rightarrow> string \<Rightarrow> string \<Rightarrow> string option \<Rightarrow> string \<Rightarrow> audit_event" where
  "audit_row org actor action target_type target summary =
     \<lparr>ae_organization = org, ae_actor = Some actor, ae_action = action, ae_target_type = target_type,
      ae_target = target, ae_result = ''allowed'', ae_correlation = ''missing'', ae_summary = summary\<rparr>"

definition revoke_all_of :: "nat \<Rightarrow> string \<Rightarrow> auth_db \<Rightarrow> auth_db" where
  "revoke_all_of dbnow who db =
     update_sessions (\<lambda>s. ss_identity s = who \<and> ss_revoked_at s = None) (revoked dbnow) db"

definition revoke_current_identity_sessions :: "nat \<Rightarrow> string \<Rightarrow> string \<Rightarrow> auth_db \<Rightarrow> (http_error, auth_db) result" where
  "revoke_current_identity_sessions dbnow token_hash who db =
     (case session_row db token_hash of
        None \<Rightarrow> Inl (Http 500 ''current session identity mismatch'')
      | Some (s, g) \<Rightarrow>
          if \<not> session_live dbnow s g \<or> ss_identity s \<noteq> who
          then Inl (Http 500 ''current session identity mismatch'')
          else Inr ((revoke_all_of dbnow who db)
                 \<lparr>platform_audit_events := platform_audit_events db @
                    [audit_row None who ''identity.sessions_revoke'' ''global_identity'' (Some who)
                       ''Revoked identity sessions'']\<rparr>))"

definition revoke_sessions :: "bool \<Rightarrow> (string \<Rightarrow> string) \<Rightarrow> nat \<Rightarrow> nat \<Rightarrow> string option \<Rightarrow> auth_db
    \<Rightarrow> (http_error, auth_db) result" where
  "revoke_sessions disable_mfa digest now dbnow cookie db =
     bind_result (resolved disable_mfa digest now True cookie db) (\<lambda>(p, db1).
       revoke_current_identity_sessions dbnow (pp_token_hash p) (pp_identity p) db1)"

section \<open>Password reset\<close>

definition request_password_reset :: "nat \<Rightarrow> nat \<Rightarrow> (string \<Rightarrow> string) \<Rightarrow> bool \<Rightarrow> nat \<Rightarrow> string \<Rightarrow> string
    \<Rightarrow> string \<Rightarrow> string \<Rightarrow> limiter \<Rightarrow> auth_db \<Rightarrow> (http_error, auth_db) result \<times> limiter" where
  "request_password_reset attempts window digest capacity_free now host email fresh token lim db =
     (let mail = normalized_email email;
          (allowed, lim1) = two_limits attempts window (''reset-ip:'' @ host) (''reset-email:'' @ digest mail) now lim
      in (if \<not> allowed then Inr db
          else if \<not> capacity_free then Inl capacity_exhausted
          else case find (\<lambda>g. gi_email g = mail \<and> gi_status g = ''active'') (identities (a_org db)) of
                 None \<Rightarrow> Inr db
               | Some g \<Rightarrow>
                   Inr (db\<lparr>reset_tokens :=
                     update_where (\<lambda>t. rt_identity t = gi_id g \<and> rt_used_at t = None)
                       (rt_used_at_update (\<lambda>_. Some now)) (reset_tokens db)
                     @ [\<lparr>rt_id = fresh, rt_identity = gi_id g, rt_hash = digest token,
                         rt_expires_at = now + RESET_LIFETIME, rt_used_at = None\<rparr>]\<rparr>), lim1))"

definition token_usable :: "nat \<Rightarrow> string \<Rightarrow> reset_token \<Rightarrow> bool" where
  "token_usable dbnow token_hash t \<longleftrightarrow> rt_hash t = token_hash \<and> rt_used_at t = None \<and> rt_expires_at t > dbnow"

definition inspect_password_reset :: "nat \<Rightarrow> string \<Rightarrow> auth_db \<Rightarrow> (string \<times> string \<times> nat) option" where
  "inspect_password_reset dbnow token_hash db =
     (case find (token_usable dbnow token_hash) (reset_tokens db) of
        None \<Rightarrow> None
      | Some t \<Rightarrow>
          (case identity_of db (rt_identity t) of
             None \<Rightarrow> None
           | Some g \<Rightarrow> if gi_status g = ''active'' then Some (rt_id t, rt_identity t, gi_security_version g) else None))"

definition complete_password_reset :: "nat \<Rightarrow> string \<Rightarrow> string \<Rightarrow> string \<Rightarrow> nat \<Rightarrow> string \<Rightarrow> auth_db
    \<Rightarrow> string option \<times> auth_db" where
  "complete_password_reset dbnow token_hash token_id who version new_hash db =
     (case find (\<lambda>t. rt_id t = token_id \<and> token_usable dbnow token_hash t \<and> rt_identity t = who) (reset_tokens db) of
        None \<Rightarrow> (None, db)
      | Some t \<Rightarrow>
          (case identity_of db who of
             None \<Rightarrow> (None, db)
           | Some g \<Rightarrow>
               if gi_status g \<noteq> ''active'' \<or> gi_security_version g \<noteq> version then (None, db)
               else (Some who, (revoke_all_of dbnow who db)
                 \<lparr>reset_tokens := update_where (\<lambda>t. rt_id t = token_id) (rt_used_at_update (\<lambda>_. Some dbnow))
                                    (reset_tokens db),
                  a_org := (a_org db)\<lparr>identities :=
                    update_where (\<lambda>g. gi_id g = who \<and> gi_status g = ''active'' \<and> gi_security_version g = version)
                      (\<lambda>g. g\<lparr>gi_password_hash := Some new_hash,
                             gi_security_version := gi_security_version g + 1\<rparr>)
                      (identities (a_org db))\<rparr>,
                  platform_audit_events := platform_audit_events db @
                    [audit_row None who ''identity.password_reset'' ''global_identity'' (Some who)
                       ''Completed password reset'']\<rparr>)))"

definition invalid_reset_token :: http_error where
  "invalid_reset_token = Http 400 ''invalid_or_expired_reset_token''"

definition confirm_password_reset :: "nat \<Rightarrow> nat \<Rightarrow> (string \<Rightarrow> string) \<Rightarrow> (ustr \<Rightarrow> string) \<Rightarrow> bool \<Rightarrow> nat \<Rightarrow> nat
    \<Rightarrow> string \<Rightarrow> string \<Rightarrow> ustr \<Rightarrow> limiter \<Rightarrow> auth_db \<Rightarrow> (http_error, auth_db) result \<times> limiter" where
  "confirm_password_reset attempts window digest argon2_hash capacity_free now dbnow host token new_password lim db =
     (let (allowed, lim1) = rate_allow attempts window (''reset-confirm-ip:'' @ host) now lim
      in (if \<not> allowed then Inl rate_limited
          else if \<not> capacity_free then Inl capacity_exhausted
          else case inspect_password_reset dbnow (digest token) db of
                 None \<Rightarrow> Inl invalid_reset_token
               | Some (token_id, who, version) \<Rightarrow>
                   if \<not> password_acceptable new_password then Inl (Http 422 ''password_policy_failed'')
                   else (case complete_password_reset dbnow (digest token) token_id who version
                                (argon2_hash new_password) db of
                           (None, _) \<Rightarrow> Inl invalid_reset_token
                         | (Some _, db') \<Rightarrow> Inr db'), lim1))"

end
