(* ===== verification/AuthMfa.thy ===== *)
theory AuthMfa
  imports AuthHandlers
begin

text \<open>
  The second factor (\<^verbatim>\<open>auth/api.py\<close>): enrolment, confirmation, challenge, recovery codes and their
  reset by an administrator, with the guards of \<^verbatim>\<open>auth/guards.py\<close>.
\<close>

definition mfa_required :: http_error where "mfa_required = Http 403 ''mfa_required''"

definition invalid_mfa_challenge :: http_error where
  "invalid_mfa_challenge = Http 401 ''invalid_mfa_challenge''"

definition forbidden :: http_error where "forbidden = Http 403 ''forbidden''"

section \<open>Enrolment\<close>

definition enroll_totp :: "bool \<Rightarrow> (string \<Rightarrow> string) \<Rightarrow> (string \<Rightarrow> string) \<Rightarrow> nat \<Rightarrow> string option \<Rightarrow> string
    \<Rightarrow> string \<Rightarrow> auth_db \<Rightarrow> (http_error, auth_db) result" where
  "enroll_totp disable_mfa digest encrypt now cookie fresh secret db =
     bind_result (resolved disable_mfa digest now True cookie db) (\<lambda>(p, db1).
       if list_ex (\<lambda>c. mc_identity c = pp_identity p \<and> mc_status c = ''active'') (credentials db1)
          \<and> \<not> has_recent_mfa p now
       then Inl mfa_required
       else Inr (db1\<lparr>credentials :=
              filter (\<lambda>c. \<not> (mc_identity c = pp_identity p \<and> mc_status c = ''pending'')) (credentials db1)
              @ [\<lparr>mc_id = fresh, mc_identity = pp_identity p, mc_ciphertext = encrypt secret,
                  mc_status = ''pending'', mc_confirmed_at = None, mc_last_used_at = None,
                  mc_created_at = now\<rparr>]\<rparr>))"

text \<open>The eight codes are random; only their digests are stored.\<close>

definition store_recovery_codes :: "(string \<Rightarrow> string) \<Rightarrow> string \<Rightarrow> string list \<Rightarrow> string \<Rightarrow> string \<Rightarrow> auth_db \<Rightarrow> auth_db" where
  "store_recovery_codes digest batch codes who credential db =
     db\<lparr>recovery_codes := filter (\<lambda>c. rc_identity c \<noteq> who) (recovery_codes db)
          @ map (\<lambda>code. \<lparr>rc_identity = who, rc_credential = credential, rc_batch = batch,
                          rc_hash = digest code, rc_used_at = None\<rparr>) codes\<rparr>"

section \<open>Confirmation\<close>

definition activate_credential :: "nat \<Rightarrow> string \<Rightarrow> string \<Rightarrow> auth_db \<Rightarrow> auth_db" where
  "activate_credential now who credential db =
     db\<lparr>credentials :=
          update_where (\<lambda>c. mc_id c = credential)
            (\<lambda>c. c\<lparr>mc_status := ''active'', mc_confirmed_at := Some now, mc_last_used_at := Some now\<rparr>)
            (update_where (\<lambda>c. mc_identity c = who \<and> mc_status c = ''active'')
              (mc_status_update (\<lambda>_. ''revoked'')) (credentials db))\<rparr>"

definition pending_credential :: "auth_db \<Rightarrow> string \<Rightarrow> string \<Rightarrow> mfa_credential option" where
  "pending_credential db who credential =
     find (\<lambda>c. mc_id c = credential \<and> mc_identity c = who \<and> mc_status c = ''pending'') (credentials db)"

definition confirm_totp :: "nat \<Rightarrow> nat \<Rightarrow> bool \<Rightarrow> (string \<Rightarrow> string) \<Rightarrow> (string \<Rightarrow> ustr \<Rightarrow> nat \<Rightarrow> (http_error, bool) result)
    \<Rightarrow> (string \<Rightarrow> string) \<Rightarrow> nat \<Rightarrow> string \<Rightarrow> string option \<Rightarrow> string \<Rightarrow> ustr \<Rightarrow> string \<Rightarrow> string
    \<Rightarrow> string \<Rightarrow> string list \<Rightarrow> limiter \<Rightarrow> auth_db
    \<Rightarrow> (http_error, (string \<times> nat) \<times> auth_db) result \<times> limiter" where
  "confirm_totp attempts window disable_mfa digest verify decrypt now host cookie credential code
      fresh token batch codes lim db =
     (case resolved disable_mfa digest now True cookie db of
        Inl e \<Rightarrow> (Inl e, lim)
      | Inr (p, db1) \<Rightarrow>
          (let (allowed, lim1) = rate_allow attempts window
                 (''mfa-confirm:'' @ pp_identity p @ '':'' @ host) now lim
           in (if \<not> allowed then Inl rate_limited
               else case pending_credential db1 (pp_identity p) credential of
                      None \<Rightarrow> Inl invalid_mfa_challenge
                    | Some c \<Rightarrow>
                        if mc_created_at c + ENROLLMENT_LIFETIME < now then Inl invalid_mfa_challenge
                        else bind_result (verify (decrypt (mc_ciphertext c)) code now) (\<lambda>ok.
                          if \<not> ok then Inl invalid_mfa_challenge
                          else rotate_session digest fresh token p now
                                 (store_recovery_codes digest batch codes (pp_identity p) credential
                                   (activate_credential now (pp_identity p) credential db1))), lim1)))"

section \<open>Challenge\<close>

text \<open>\<open>ORDER BY confirmed_at DESC LIMIT 1\<close>: rows without a date come first in PostgreSQL.\<close>

definition latest_key :: "mfa_credential \<Rightarrow> nat \<times> nat" where
  "latest_key c = (case mc_confirmed_at c of None \<Rightarrow> (1, 0) | Some t \<Rightarrow> (0, t))"

definition active_credential :: "auth_db \<Rightarrow> string \<Rightarrow> mfa_credential option" where
  "active_credential db who =
     (case filter (\<lambda>c. mc_identity c = who \<and> mc_status c = ''active'') (credentials db) of
        [] \<Rightarrow> None
      | c # cs \<Rightarrow> Some (max_key latest_key c cs))"

definition code_unused :: "string \<Rightarrow> string \<Rightarrow> string \<Rightarrow> recovery_code \<Rightarrow> bool" where
  "code_unused who credential hash c \<longleftrightarrow>
     rc_identity c = who \<and> rc_credential c = credential \<and> rc_hash c = hash \<and> rc_used_at c = None"

definition check_factor :: "(string \<Rightarrow> string) \<Rightarrow> (string \<Rightarrow> ustr \<Rightarrow> nat \<Rightarrow> (http_error, bool) result)
    \<Rightarrow> (string \<Rightarrow> string) \<Rightarrow> nat \<Rightarrow> string \<Rightarrow> mfa_credential option \<Rightarrow> ustr option \<Rightarrow> string option \<Rightarrow> auth_db
    \<Rightarrow> (http_error, bool \<times> auth_db) result" where
  "check_factor digest verify decrypt now who credential code recovery db =
     (case credential of
        None \<Rightarrow> Inr (False, db)
      | Some c \<Rightarrow>
          (case code of
             Some (x # xs) \<Rightarrow>
               bind_result (verify (decrypt (mc_ciphertext c)) (x # xs) now) (\<lambda>ok. Inr (ok, db))
           | _ \<Rightarrow>
               (case recovery of
                  Some (r # rs) \<Rightarrow>
                    (let P = code_unused who (mc_id c) (digest (r # rs))
                     in Inr (list_ex P (recovery_codes db),
                             db\<lparr>recovery_codes := update_where P (rc_used_at_update (\<lambda>_. Some now)) (recovery_codes db)\<rparr>))
                | _ \<Rightarrow> Inr (False, db))))"

definition challenge_mfa :: "nat \<Rightarrow> nat \<Rightarrow> bool \<Rightarrow> (string \<Rightarrow> string) \<Rightarrow> (string \<Rightarrow> ustr \<Rightarrow> nat \<Rightarrow> (http_error, bool) result)
    \<Rightarrow> (string \<Rightarrow> string) \<Rightarrow> nat \<Rightarrow> string \<Rightarrow> string option \<Rightarrow> ustr option \<Rightarrow> string option \<Rightarrow> string \<Rightarrow> string
    \<Rightarrow> limiter \<Rightarrow> auth_db \<Rightarrow> (http_error, (string \<times> nat) \<times> auth_db) result \<times> limiter" where
  "challenge_mfa attempts window disable_mfa digest verify decrypt now host cookie code recovery fresh token lim db =
     (case resolved disable_mfa digest now True cookie db of
        Inl e \<Rightarrow> (Inl e, lim)
      | Inr (p, db1) \<Rightarrow>
          (let (allowed, lim1) = rate_allow attempts window
                 (''mfa-challenge:'' @ pp_identity p @ '':'' @ host) now lim;
               credential = active_credential db1 (pp_identity p)
           in (if \<not> allowed then Inl rate_limited
               else bind_result (check_factor digest verify decrypt now (pp_identity p) credential code recovery db1)
                      (\<lambda>(verified, db2).
                        case credential of
                          None \<Rightarrow> Inl invalid_mfa_challenge
                        | Some c \<Rightarrow>
                            if \<not> verified then Inl invalid_mfa_challenge
                            else rotate_session digest fresh token p now
                                   (db2\<lparr>credentials := update_where (\<lambda>x. mc_id x = mc_id c)
                                          (mc_last_used_at_update (\<lambda>_. Some now)) (credentials db2)\<rparr>)), lim1)))"

definition regenerate_recovery_codes :: "bool \<Rightarrow> (string \<Rightarrow> string) \<Rightarrow> nat \<Rightarrow> string option \<Rightarrow> string \<Rightarrow> string list
    \<Rightarrow> auth_db \<Rightarrow> (http_error, auth_db) result" where
  "regenerate_recovery_codes disable_mfa digest now cookie batch codes db =
     bind_result (resolved disable_mfa digest now True cookie db) (\<lambda>(p, db1).
       if \<not> has_recent_mfa p now then Inl mfa_required
       else case active_credential db1 (pp_identity p) of
              None \<Rightarrow> Inl (Http 409 ''mfa_not_configured'')
            | Some c \<Rightarrow> Inr (store_recovery_codes digest batch codes (pp_identity p) (mc_id c) db1))"

section \<open>Reset by an administrator\<close>

definition lower_level_target :: "auth_db \<Rightarrow> string \<Rightarrow> string \<Rightarrow> string \<Rightarrow> bool" where
  "lower_level_target db org actor target \<longleftrightarrow>
     list_ex (\<lambda>m. mb_organization m = org \<and> mb_identity m = actor \<and> active_admin m) (memberships (a_org db))
     \<and> list_ex (\<lambda>m. mb_organization m = org \<and> mb_identity m = target
          \<and> mb_role m \<noteq> ''organization_admin'' \<and> mb_status m = ''active'') (memberships (a_org db))"

definition organization_administrator :: "bool \<Rightarrow> (string \<Rightarrow> string) \<Rightarrow> nat \<Rightarrow> string option \<Rightarrow> string \<Rightarrow> string
    \<Rightarrow> auth_db \<Rightarrow> (http_error, principal \<times> auth_db) result" where
  "organization_administrator disable_mfa digest now cookie org target db =
     bind_result (resolved disable_mfa digest now False cookie db) (\<lambda>(p, db1).
       bind_result (require_recent_mfa disable_mfa now p) (\<lambda>_.
         if list_ex (\<lambda>o'. og_id o' = org \<and> og_status o' = ''active''
                \<and> (case og_expires_at o' of None \<Rightarrow> True | Some e \<Rightarrow> e > now)) (organizations (a_org db1))
            \<and> lower_level_target db1 org (pp_identity p) target
         then Inr (p, db1) else Inl forbidden))"

definition erase_mfa :: "nat \<Rightarrow> string \<Rightarrow> auth_db \<Rightarrow> auth_db" where
  "erase_mfa dbnow target db =
     (revoke_all_of dbnow target db)
       \<lparr>recovery_codes := filter (\<lambda>c. rc_identity c \<noteq> target) (recovery_codes db),
        credentials := filter (\<lambda>c. mc_identity c \<noteq> target) (credentials db)\<rparr>"

definition reset_mfa_as_organization_administrator :: "nat \<Rightarrow> string \<Rightarrow> string \<Rightarrow> string \<Rightarrow> auth_db \<Rightarrow> bool \<times> auth_db" where
  "reset_mfa_as_organization_administrator dbnow token_hash target org db =
     (case session_row db token_hash of
        None \<Rightarrow> (False, db)
      | Some (s, g) \<Rightarrow>
          if session_live dbnow s g \<and> recent_mfa (ss_mfa_verified_at s) dbnow \<and> ss_identity s \<noteq> target
             \<and> list_ex (\<lambda>o'. og_id o' = org \<and> og_status o' = ''active'') (organizations (a_org db))
             \<and> lower_level_target db org (ss_identity s) target
          then (True, (erase_mfa dbnow target db)
                 \<lparr>audit_events := audit_events db @
                    [audit_row (Some org) (ss_identity s) ''identity.mfa_reset'' ''global_identity'' (Some target)
                       ''Reset member MFA'']\<rparr>)
          else (False, db))"

definition organization_mfa_reset :: "bool \<Rightarrow> (string \<Rightarrow> string) \<Rightarrow> nat \<Rightarrow> nat \<Rightarrow> string option \<Rightarrow> string \<Rightarrow> string
    \<Rightarrow> auth_db \<Rightarrow> (http_error, auth_db) result" where
  "organization_mfa_reset disable_mfa digest now dbnow cookie org target db =
     bind_result (organization_administrator disable_mfa digest now cookie org target db) (\<lambda>(p, db1).
       case reset_mfa_as_organization_administrator dbnow (pp_token_hash p) target org db1 of
         (False, _) \<Rightarrow> Inl forbidden
       | (True, db2) \<Rightarrow> Inr db2)"

text \<open>The platform administrator, who enrolled a factor before the bootstrap deadline if there is one.\<close>

definition operator_grant_holds :: "auth_db \<Rightarrow> identity \<Rightarrow> operator_grant \<Rightarrow> bool" where
  "operator_grant_holds db g r \<longleftrightarrow>
     gr_identity r = gi_id g \<and> gr_role r = ''platform_admin'' \<and> gr_status r = ''active''
     \<and> (case gr_enrollment_expires_at r of
          None \<Rightarrow> True
        | Some deadline \<Rightarrow>
            list_ex (\<lambda>c. mc_identity c = gi_id g \<and> mc_status c = ''active''
               \<and> (case mc_confirmed_at c of None \<Rightarrow> False | Some t \<Rightarrow> t \<le> deadline)) (credentials db))"

definition platform_administrator :: "auth_db \<Rightarrow> principal \<Rightarrow> (http_error, principal) result" where
  "platform_administrator db p =
     (if list_ex (\<lambda>g. gi_id g = pp_identity p \<and> gi_status g = ''active''
            \<and> gi_security_version g = pp_version p \<and> list_ex (operator_grant_holds db g) (grants db))
         (identities (a_org db))
      then Inr p else Inl forbidden)"

definition reset_mfa_as_platform_administrator :: "nat \<Rightarrow> string \<Rightarrow> string \<Rightarrow> nat \<Rightarrow> string \<Rightarrow> auth_db \<Rightarrow> bool \<times> auth_db" where
  "reset_mfa_as_platform_administrator dbnow correlation actor version target db =
     (if actor \<noteq> target
         \<and> list_ex (\<lambda>g. gi_id g = actor \<and> gi_status g = ''active'' \<and> gi_security_version g = version
              \<and> list_ex (\<lambda>r. gr_identity r = actor \<and> gr_role r = ''platform_admin'' \<and> gr_status r = ''active'')
                   (grants db)) (identities (a_org db))
      then (True, (erase_mfa dbnow target db)
             \<lparr>platform_audit_events := platform_audit_events db @
                [(audit_row None actor ''identity.mfa_reset'' ''global_identity'' (Some target)
                   ''Reset identity MFA'')\<lparr>ae_correlation := correlation\<rparr>]\<rparr>)
      else (False, db))"

end
