(* ===== verification/Administration.thy ===== *)
theory Administration
  imports AuthMfa
begin

text \<open>
  Privileged mutations: \<open>OrganizationAccess.mutation\<close> (\<^verbatim>\<open>organization/access.py\<close>) around the handlers of
  \<^verbatim>\<open>organization/api.py\<close>, and \<open>PlatformAccess.mutation\<close> (\<^verbatim>\<open>platform/access.py\<close>) around those of
  \<^verbatim>\<open>platform/api.py\<close> and the platform MFA reset.  Each finds the principal in a transaction of its own,
  runs the handler in a second one and leaves an audit event; a refusal is recorded in a third.  An
  identifier that does not parse, or a body that does not validate, is \<open>None\<close>.
\<close>

section \<open>Audit events\<close>

definition denied_or_failed :: "http_error \<Rightarrow> string" where
  "denied_or_failed e = (case e of Http code _ \<Rightarrow> if code = 500 then ''failed'' else ''denied'')"

definition mutation_event :: "string option \<Rightarrow> string option \<Rightarrow> string \<Rightarrow> string \<Rightarrow> string option \<Rightarrow> string
    \<Rightarrow> string \<Rightarrow> string \<Rightarrow> audit_event" where
  "mutation_event org actor action target_type target outcome correlation summary =
     \<lparr>ae_organization = org, ae_actor = actor, ae_action = action, ae_target_type = target_type,
      ae_target = target, ae_result = outcome, ae_correlation = take 128 correlation,
      ae_summary = take 500 summary\<rparr>"

text \<open>\<open>OrganizationAccess._record\<close>: nothing is recorded for an organization that does not exist.\<close>

definition record_organization :: "string \<Rightarrow> audit_event \<Rightarrow> auth_db \<Rightarrow> auth_db" where
  "record_organization org ev db =
     (if find_organization (a_org db) org = None then db else db\<lparr>audit_events := audit_events db @ [ev]\<rparr>)"

definition record_platform :: "audit_event \<Rightarrow> auth_db \<Rightarrow> auth_db" where
  "record_platform ev db = db\<lparr>platform_audit_events := platform_audit_events db @ [ev]\<rparr>"

section \<open>Organization administration\<close>

datatype organization_request =
    Create_invitation "(string \<times> string) option"
  | Revoke_invitation "string option"
  | Resend_invitation "string option"
  | Change_role "string option" "string option"
  | Change_status "string option" member_transition

fun transition_name :: "member_transition \<Rightarrow> string" where
  "transition_name Suspend = ''suspend''"
| "transition_name Reactivate = ''reactivate''"
| "transition_name Remove = ''remove''"

fun request_action :: "organization_request \<Rightarrow> string" where
  "request_action (Create_invitation _) = ''organization.invitation.create''"
| "request_action (Revoke_invitation _) = ''organization.invitation.revoke''"
| "request_action (Resend_invitation _) = ''organization.invitation.resend''"
| "request_action (Change_role _ _) = ''organization.member.role_change''"
| "request_action (Change_status _ t) = ''organization.member.'' @ transition_name t"

fun request_target_type :: "organization_request \<Rightarrow> string" where
  "request_target_type (Change_role _ _) = ''organization_membership''"
| "request_target_type (Change_status _ _) = ''organization_membership''"
| "request_target_type _ = ''organization_invitation''"

fun request_target :: "organization_request \<Rightarrow> string option" where
  "request_target (Create_invitation _) = None"
| "request_target (Revoke_invitation i) = i"
| "request_target (Resend_invitation i) = i"
| "request_target (Change_role i _) = i"
| "request_target (Change_status i _) = i"

definition invalid_body :: http_error where
  "invalid_body = Http 422 ''invalid_organization_mutation_request''"

definition invalid_invitation_id :: http_error where
  "invalid_invitation_id = Http 422 ''invalid_invitation_id''"

definition invalid_membership_id :: http_error where
  "invalid_membership_id = Http 422 ''invalid_membership_id''"

text \<open>The handlers: what is done to the tables, and the target and summary the event gets.\<close>

fun perform :: "(string \<Rightarrow> string) \<Rightarrow> nat \<Rightarrow> string \<Rightarrow> string \<Rightarrow> string \<Rightarrow> string \<Rightarrow> organization_request \<Rightarrow> org_db
    \<Rightarrow> (http_error, (string option \<times> string) \<times> org_db) result" where
  "perform digest now fresh token actor org (Create_invitation body) db =
     (case body of
        None \<Rightarrow> Inl invalid_body
      | Some (email, role) \<Rightarrow>
          bind_result (create_invitation digest now fresh token actor org email role db) (\<lambda>(iv, db').
            Inr ((Some (iv_id iv), ''Created organization invitation''), db')))"
| "perform digest now fresh token actor org (Revoke_invitation target) db =
     (case target of
        None \<Rightarrow> Inl invalid_invitation_id
      | Some i \<Rightarrow>
          bind_result (revoke_invitation now org i db) (\<lambda>db'.
            Inr ((Some i, ''Revoked organization invitation''), db')))"
| "perform digest now fresh token actor org (Resend_invitation target) db =
     (case target of
        None \<Rightarrow> Inl invalid_invitation_id
      | Some i \<Rightarrow>
          bind_result (resend_invitation digest now fresh token actor org i db) (\<lambda>(iv, db').
            Inr ((Some (iv_id iv), ''Replaced organization invitation''), db')))"
| "perform digest now fresh token actor org (Change_role target body) db =
     (case target of
        None \<Rightarrow> Inl invalid_membership_id
      | Some i \<Rightarrow>
          (case body of
             None \<Rightarrow> Inl invalid_body
           | Some role \<Rightarrow>
               bind_result (set_role org actor i role db) (\<lambda>db'.
                 Inr ((Some i, ''Changed organization member role''), db'))))"
| "perform digest now fresh token actor org (Change_status target transition) db =
     (case target of
        None \<Rightarrow> Inl invalid_membership_id
      | Some i \<Rightarrow>
          bind_result (set_member_status org actor i transition db) (\<lambda>db'.
            Inr ((Some i, ''Changed organization member status: '' @ transition_name transition), db')))"

definition organization_event :: "string \<Rightarrow> string \<Rightarrow> organization_request \<Rightarrow> string option \<Rightarrow> string option
    \<Rightarrow> string \<Rightarrow> string \<Rightarrow> audit_event" where
  "organization_event org correlation request actor target outcome summary =
     mutation_event (Some org) actor (request_action request) (request_target_type request) target outcome
       correlation summary"

definition refuse_organization :: "string \<Rightarrow> string \<Rightarrow> organization_request \<Rightarrow> string option \<Rightarrow> http_error \<Rightarrow> auth_db
    \<Rightarrow> (http_error, unit) result \<times> auth_db" where
  "refuse_organization org correlation request actor e db =
     (Inl e, record_organization org
        (organization_event org correlation request actor (request_target request) (denied_or_failed e)
           (if denied_or_failed e = ''failed'' then ''Organization mutation failed''
            else ''Organization mutation rejected'')) db)"

definition organization_mutation :: "bool \<Rightarrow> (string \<Rightarrow> string) \<Rightarrow> nat \<Rightarrow> string option \<Rightarrow> string \<Rightarrow> string
    \<Rightarrow> string \<Rightarrow> string \<Rightarrow> organization_request \<Rightarrow> auth_db \<Rightarrow> (http_error, unit) result \<times> auth_db" where
  "organization_mutation disable_mfa digest now cookie correlation org fresh token request db =
     (case resolved disable_mfa digest now False cookie db of
        Inl e \<Rightarrow> refuse_organization org correlation request None e db
      | Inr (p, db1) \<Rightarrow>
          (case require_recent_mfa disable_mfa now p of
             Inl e \<Rightarrow> refuse_organization org correlation request (Some (pp_identity p)) e db1
           | Inr _ \<Rightarrow>
               (case authorize (a_org db1) now (pp_identity p) org of
                  Inl e \<Rightarrow> refuse_organization org correlation request (Some (pp_identity p)) e db1
                | Inr _ \<Rightarrow>
                    (case perform digest now fresh token (pp_identity p) org request (a_org db1) of
                       Inl e \<Rightarrow> refuse_organization org correlation request (Some (pp_identity p)) e db1
                     | Inr ((target, summary), org_db') \<Rightarrow>
                         (Inr (), db1\<lparr>a_org := org_db',
                            audit_events := audit_events db1 @
                              [organization_event org correlation request (Some (pp_identity p)) target
                                 ''allowed'' summary]\<rparr>)))))"

section \<open>Platform administration\<close>

datatype platform_request =
    Open_organization string "organization_opening option"
  | Set_status "string option" bool
  | Set_expiry "string option" "nat option option"
  | Reset_mfa "string option"

fun platform_action :: "platform_request \<Rightarrow> string" where
  "platform_action (Open_organization _ _) = ''platform.organization.create''"
| "platform_action (Set_status _ active) =
     (if active then ''platform.organization.reactivate'' else ''platform.organization.suspend'')"
| "platform_action (Set_expiry _ _) = ''platform.organization.set_expiry''"
| "platform_action (Reset_mfa _) = ''identity.mfa_reset''"

fun platform_target_type :: "platform_request \<Rightarrow> string" where
  "platform_target_type (Reset_mfa _) = ''global_identity''"
| "platform_target_type _ = ''organization''"

fun platform_target :: "platform_request \<Rightarrow> string option" where
  "platform_target (Open_organization _ _) = None"
| "platform_target (Set_status t _) = t"
| "platform_target (Set_expiry t _) = t"
| "platform_target (Reset_mfa t) = t"

definition invalid_platform_body :: http_error where
  "invalid_platform_body = Http 422 ''invalid_platform_mutation_request''"

definition invalid_organization_id :: http_error where
  "invalid_organization_id = Http 422 ''invalid_organization_id''"

definition on_organizations :: "(string option \<times> string) \<Rightarrow> auth_db \<Rightarrow> (http_error, org_db) result
    \<Rightarrow> (http_error, (string option \<times> string) option \<times> auth_db) result" where
  "on_organizations described db outcome =
     bind_result outcome (\<lambda>o'. Inr (Some described, db\<lparr>a_org := o'\<rparr>))"

text \<open>\<open>str.isprintable\<close> on the Latin-1 text of a header.\<close>

definition printable :: "char \<Rightarrow> bool" where
  "printable c \<longleftrightarrow> (let v = of_char c :: nat in 32 \<le> v \<and> v \<le> 126 \<or> 161 \<le> v \<and> v \<noteq> 173)"

text \<open>
  The handlers inside \<open>PlatformAccess.mutation\<close>.  The MFA reset asks for no event of the wrapper
  (\<open>success_audit=False\<close>): the database function writes one.
\<close>

fun perform_platform :: "(organization_opening \<Rightarrow> string) \<Rightarrow> (string \<Rightarrow> string) \<Rightarrow> nat \<Rightarrow> nat \<Rightarrow> string \<Rightarrow> string
    \<Rightarrow> string \<Rightarrow> string \<Rightarrow> principal \<Rightarrow> platform_request \<Rightarrow> auth_db
    \<Rightarrow> (http_error, (string option \<times> string) option \<times> auth_db) result" where
  "perform_platform fingerprint digest now dbnow correlation fresh_org fresh_invitation token p
      (Open_organization key body) db =
     (case body of
        None \<Rightarrow> Inl invalid_platform_body
      | Some offer \<Rightarrow>
          if \<not> (8 \<le> length key \<and> length key \<le> 128)
             \<or> \<not> list_all printable key
          then Inl (Http 422 ''invalid_idempotency_key'')
          else bind_result (open_organization fingerprint digest now fresh_org fresh_invitation token
                              (pp_identity p) key offer (a_org db))
                 (\<lambda>((status, org, _), o').
                   Inr (Some (Some org, if status = 200 then ''idempotent organization creation replayed''
                                        else ''organization and initial administrator invitation created''),
                        db\<lparr>a_org := o'\<rparr>)))"
| "perform_platform fingerprint digest now dbnow correlation fresh_org fresh_invitation token p
      (Set_status target active) db =
     (case target of
        None \<Rightarrow> Inl invalid_organization_id
      | Some org \<Rightarrow>
          on_organizations (Some org, ''organization lifecycle status changed'') db
            (set_organization_status now org (if active then ''active'' else ''suspended'') (a_org db)))"
| "perform_platform fingerprint digest now dbnow correlation fresh_org fresh_invitation token p
      (Set_expiry target body) db =
     (case target of
        None \<Rightarrow> Inl invalid_organization_id
      | Some org \<Rightarrow>
          (case body of
             None \<Rightarrow> Inl invalid_platform_body
           | Some expires \<Rightarrow>
               on_organizations (Some org, ''organization expiry changed'') db
                 (set_organization_expiry org expires (a_org db))))"
| "perform_platform fingerprint digest now dbnow correlation fresh_org fresh_invitation token p
      (Reset_mfa target) db =
     (case target of
        None \<Rightarrow> Inl (Http 422 ''invalid_identity_id'')
      | Some who \<Rightarrow>
          (case reset_mfa_as_platform_administrator dbnow correlation (pp_identity p) (pp_version p) who db of
             (False, _) \<Rightarrow> Inl forbidden
           | (True, db') \<Rightarrow> Inr (None, db')))"

definition platform_event :: "string \<Rightarrow> platform_request \<Rightarrow> string option \<Rightarrow> string option \<Rightarrow> string \<Rightarrow> string
    \<Rightarrow> audit_event" where
  "platform_event correlation request actor target outcome summary =
     mutation_event None actor (platform_action request) (platform_target_type request) target outcome
       correlation summary"

definition refuse_platform :: "string \<Rightarrow> platform_request \<Rightarrow> string option \<Rightarrow> http_error \<Rightarrow> auth_db
    \<Rightarrow> (http_error, unit) result \<times> auth_db" where
  "refuse_platform correlation request actor e db =
     (Inl e, record_platform
        (platform_event correlation request actor (platform_target request) (denied_or_failed e)
           (if denied_or_failed e = ''failed'' then ''privileged platform mutation failed''
            else ''privileged platform mutation rejected'')) db)"

definition platform_mutation :: "bool \<Rightarrow> (organization_opening \<Rightarrow> string) \<Rightarrow> (string \<Rightarrow> string) \<Rightarrow> nat \<Rightarrow> nat
    \<Rightarrow> string option \<Rightarrow> string \<Rightarrow> string \<Rightarrow> string \<Rightarrow> string \<Rightarrow> platform_request \<Rightarrow> auth_db
    \<Rightarrow> (http_error, unit) result \<times> auth_db" where
  "platform_mutation disable_mfa fingerprint digest now dbnow cookie correlation fresh_org fresh_invitation
      token request db =
     (case resolved disable_mfa digest now False cookie db of
        Inl e \<Rightarrow> refuse_platform correlation request None e db
      | Inr (p, db1) \<Rightarrow>
          (case require_recent_mfa disable_mfa now p of
             Inl e \<Rightarrow> refuse_platform correlation request (Some (pp_identity p)) e db1
           | Inr _ \<Rightarrow>
               (case platform_administrator db1 p of
                  Inl e \<Rightarrow> refuse_platform correlation request (Some (pp_identity p)) e db1
                | Inr _ \<Rightarrow>
                    (case perform_platform fingerprint digest now dbnow correlation fresh_org
                            fresh_invitation token p request db1 of
                       Inl e \<Rightarrow> refuse_platform correlation request (Some (pp_identity p)) e db1
                     | Inr (described, db2) \<Rightarrow>
                         (Inr (), case described of
                            None \<Rightarrow> db2
                          | Some (target, summary) \<Rightarrow>
                              record_platform (platform_event correlation request (Some (pp_identity p))
                                target ''allowed'' summary) db2)))))"

end
