(* ===== verification/OrganizationSafety.thy ===== *)
theory OrganizationSafety
  imports Organizations
begin

text \<open>
  What holds in every run of the organization operations: an organization never loses its last
  active administrator, an invitation is used at most once, at most one invitation is pending per
  address, and opening an organization can be repeated safely.
\<close>

section \<open>Steps\<close>

inductive org_step :: "(organization_opening \<Rightarrow> string) \<Rightarrow> (string \<Rightarrow> string) \<Rightarrow> org_db \<Rightarrow> org_db \<Rightarrow> bool"
  for fingerprint digest where
  open_step:
    "open_organization fingerprint digest now fresh_org fresh_invitation token actor key opening db
       = Inr (reply, db') \<Longrightarrow>
     fresh_org \<notin> iv_organization ` set (invitations db) \<Longrightarrow>
     fresh_invitation \<notin> iv_id ` set (invitations db) \<Longrightarrow> org_step fingerprint digest db db'"
| status_step:
    "set_organization_status now org status db = Inr db' \<Longrightarrow> org_step fingerprint digest db db'"
| expiry_step:
    "set_organization_expiry org expires db = Inr db' \<Longrightarrow> org_step fingerprint digest db db'"
| role_step:
    "authorize db now actor org = Inr () \<Longrightarrow> set_role org actor m role db = Inr db' \<Longrightarrow>
     org_step fingerprint digest db db'"
| member_step:
    "authorize db now actor org = Inr () \<Longrightarrow> set_member_status org actor m transition db = Inr db' \<Longrightarrow>
     org_step fingerprint digest db db'"
| create_step:
    "authorize db now actor org = Inr () \<Longrightarrow>
     create_invitation digest now fresh token actor org email role db = Inr (iv, db') \<Longrightarrow>
     fresh \<notin> iv_id ` set (invitations db) \<Longrightarrow> org_step fingerprint digest db db'"
| revoke_step:
    "authorize db now actor org = Inr () \<Longrightarrow> revoke_invitation now org i db = Inr db' \<Longrightarrow>
     org_step fingerprint digest db db'"
| resend_step:
    "authorize db now actor org = Inr () \<Longrightarrow>
     resend_invitation digest now fresh token actor org i db = Inr (iv, db') \<Longrightarrow>
     fresh \<notin> iv_id ` set (invitations db) \<Longrightarrow> org_step fingerprint digest db db'"
| accept_step:
    "accept_invitation now fresh_identity fresh_membership org i token_hash name has_password db = Inr db' \<Longrightarrow>
     fresh_membership \<notin> mb_id ` set (memberships db) \<Longrightarrow> org_step fingerprint digest db db'"

definition empty_org_db :: org_db where
  "empty_org_db = \<lparr>organizations = [], quotas = [], identities = [], memberships = [], invitations = [],
     provisioning_records = [], requests = []\<rparr>"

abbreviation org_reaches :: "(organization_opening \<Rightarrow> string) \<Rightarrow> (string \<Rightarrow> string) \<Rightarrow> org_db \<Rightarrow> org_db \<Rightarrow> bool" where
  "org_reaches fingerprint digest \<equiv> (org_step fingerprint digest)\<^sup>*\<^sup>*"

section \<open>How the operations change the tables\<close>

named_theorems org_ops

lemma set_update_where: "x \<in> set xs \<Longrightarrow> \<not> P x \<Longrightarrow> x \<in> set (update_where P f xs)"
  by (force simp: update_where_def)

lemma create_locked_Inr [org_ops]:
  "create_locked digest now fresh token actor org email role db = Inr (iv, db') \<Longrightarrow>
     \<not> member_with_email db org email
     \<and> \<not> list_ex (\<lambda>x. iv_organization x = org \<and> iv_email x = email \<and> iv_status x = ''pending''
              \<and> iv_expires_at x > now) (invitations (expire_pending now org email db))
     \<and> iv = new_invitation fresh org email role (digest token) actor now
     \<and> db' = (expire_pending now org email db)
          \<lparr>invitations := invitations (expire_pending now org email db) @ [iv]\<rparr>"
  by (auto simp: create_locked_def Let_def member_with_email_def expire_pending_def split: if_splits)

lemma create_invitation_Inr [org_ops]:
  "create_invitation digest now fresh token actor org email role db = Inr (iv, db') \<Longrightarrow>
     create_locked digest now fresh token actor org (lower_text (strip_text email)) role db = Inr (iv, db')"
  by (auto simp: create_invitation_def Let_def split: if_splits)

lemma revoke_invitation_Inr [org_ops]:
  "revoke_invitation now org i db = Inr db' \<Longrightarrow>
     db' = update_invitation org i (\<lambda>x. x\<lparr>iv_status := ''revoked'', iv_revoked_at := Some now\<rparr>) db"
  by (auto simp: revoke_invitation_def split: option.splits if_splits)

definition closing :: "(invitation \<Rightarrow> invitation) \<Rightarrow> bool" where
  "closing f \<longleftrightarrow> (\<forall>x. iv_status (f x) \<noteq> ''pending'' \<and> iv_id (f x) = iv_id x
     \<and> iv_organization (f x) = iv_organization x \<and> iv_email (f x) = iv_email x)"

lemma resend_invitation_Inr [org_ops]:
  assumes "resend_invitation digest now fresh token actor org i db = Inr (iv, db')"
  shows "\<exists>f (old :: invitation). closing f \<and>
    create_locked digest now fresh token actor org (iv_email old) (iv_role old) (update_invitation org i f db) = Inr (iv, db')"
proof -
  obtain old where old: "find_invitation db org i = Some old"
    using assms by (cases "find_invitation db org i") (simp_all add: resend_invitation_def)
  let ?st = "invitation_status now old"
  let ?f = "\<lambda>x. x\<lparr>iv_status := (if ?st = ''expired'' then ''expired'' else ''revoked''),
    iv_revoked_at := (if ?st = ''pending'' then Some now else None)\<rparr>"
  have "closing ?f" by (simp add: closing_def)
  moreover have "create_locked digest now fresh token actor org (iv_email old) (iv_role old)
      (update_invitation org i ?f db) = Inr (iv, db')"
    using assms by (simp add: resend_invitation_def old Let_def split: if_splits)
  ultimately show ?thesis by (intro exI [of _ ?f] exI [of _ old] conjI)
qed

lemma accept_invitation_Inr [org_ops]:
  assumes "accept_invitation now fi fm org i token_hash name has_password db = Inr db'"
  shows "\<exists>iv who db1 db2.
    find (\<lambda>x. iv_organization x = org \<and> iv_id x = i \<and> iv_token_hash x = token_hash) (invitations db) = Some iv
    \<and> iv_status iv = ''pending'' \<and> now < iv_expires_at iv \<and> organization_active db now org
    \<and> accepting_identity fi (iv_email iv) name has_password db = Inr (who, db1)
    \<and> join_organization fm org who (iv_role iv) db1 = Inr db2
    \<and> db' = update_invitation org i (\<lambda>x. x\<lparr>iv_status := ''accepted'', iv_accepted_at := Some now\<rparr>) db2"
  using assms by (auto simp: accept_invitation_def not_le split: option.splits if_splits)

lemma accepting_identity_tables:
  "accepting_identity fi email name pw db = Inr (who, db1) \<Longrightarrow>
     memberships db1 = memberships db \<and> invitations db1 = invitations db \<and> requests db1 = requests db
     \<and> organizations db1 = organizations db"
  by (auto simp: accepting_identity_def Let_def split: option.splits if_splits)

lemma join_organization_tables:
  "join_organization fm org who role db = Inr db' \<Longrightarrow>
     invitations db' = invitations db \<and> requests db' = requests db \<and> organizations db' = organizations db
     \<and> (memberships db' = memberships db @
           [\<lparr>mb_id = fm, mb_organization = org, mb_identity = who, mb_role = role, mb_status = ''active''\<rparr>]
        \<or> (\<exists>m. m \<in> set (memberships db) \<and> mb_organization m = org \<and> mb_status m = ''removed''
             \<and> db' = update_membership org (mb_id m) (\<lambda>x. x\<lparr>mb_role := role, mb_status := ''active''\<rparr>) db))"
proof (cases "membership_of db org who")
  case None
  then show "join_organization fm org who role db = Inr db' \<Longrightarrow> ?thesis" by (auto simp: join_organization_def)
next
  case (Some m)
  then have "m \<in> set (memberships db) \<and> mb_organization m = org"
    by (auto simp: membership_of_def find_Some_iff)
  with Some show "join_organization fm org who role db = Inr db' \<Longrightarrow> ?thesis"
    by (auto simp: join_organization_def update_membership_def split: if_splits)
qed

section \<open>The last administrator\<close>

definition has_admin :: "org_db \<Rightarrow> string \<Rightarrow> bool" where
  "has_admin db org \<longleftrightarrow> active_admins db org \<noteq> []"

lemma has_admin_iff: "has_admin db org \<longleftrightarrow> (\<exists>m \<in> set (memberships db). mb_organization m = org \<and> active_admin m)"
  by (auto simp: has_admin_def active_admins_def filter_empty_conv)

lemma admin_kept:
  assumes "m \<in> set (memberships db)" and "mb_organization m = o'" and "active_admin m"
    and "mb_organization m = org \<and> mb_id m = i \<Longrightarrow> active_admin (f m) \<and> mb_organization (f m) = o'"
  shows "has_admin (update_membership org i f db) o'"
proof -
  let ?P = "\<lambda>m. mb_organization m = org \<and> mb_id m = i"
  have "(if ?P m then f m else m) \<in> set (memberships (update_membership org i f db))"
    using assms(1) by (simp add: update_membership_def update_where_def)
  then show ?thesis using assms(2-) unfolding has_admin_iff by (metis (full_types))
qed

lemma locked_target_Inr:
  "locked_target db org actor i = Inr t \<Longrightarrow> t \<in> set (memberships db) \<and> mb_organization t = org \<and> mb_id t = i"
  by (auto simp: locked_target_def find_Some_iff split: if_splits option.splits)

text \<open>A target the guard lets go leaves another active administrator behind.\<close>

lemma other_admin:
  assumes "distinct (map mb_id (memberships db))" and "locked_target db org actor i = Inr t"
    and "protect_last_admin db org t = Inr ()" and "has_admin db o'"
  shows "\<exists>m \<in> set (memberships db). mb_organization m = o' \<and> active_admin m
    \<and> \<not> (mb_organization m = org \<and> mb_id m = i)"
proof (cases "o' = org \<and> active_admin t")
  case False
  then show ?thesis
    using assms(4) locked_target_Inr [OF assms(2)] assms(1)
    by (auto simp: has_admin_iff distinct_map inj_on_def)
next
  case True
  let ?ids = "map mb_id (active_admins db org)"
  have "2 \<le> length ?ids" using True assms(3) by (auto simp: protect_last_admin_def split: if_splits)
  moreover have "distinct ?ids" using assms(1) by (simp add: active_admins_def distinct_map_filter)
  ultimately have "2 \<le> card (set ?ids)" by (simp only: distinct_card)
  then have "\<not> set ?ids \<subseteq> {i}"
    using card_mono [of "{i}" "set ?ids"] by fastforce
  then show ?thesis using True by (auto simp: active_admins_def)
qed

lemma update_other_admin:
  assumes "\<exists>m \<in> set (memberships db). mb_organization m = o' \<and> active_admin m
    \<and> \<not> (mb_organization m = org \<and> mb_id m = i)"
  shows "has_admin (update_membership org i f db) o'"
  using assms admin_kept by blast

lemma set_role_keeps_admin:
  assumes "distinct (map mb_id (memberships db))" and "has_admin db o'"
    and "set_role org actor i role db = Inr db'"
  shows "has_admin db' o'"
proof -
  obtain t where t: "locked_target db org actor i = Inr t"
      "role \<noteq> ''organization_admin'' \<Longrightarrow> protect_last_admin db org t = Inr ()"
      "db' = update_membership org i (mb_role_update (\<lambda>_. role)) db"
    using assms(3) by (auto simp: set_role_def split: if_splits)
  show ?thesis
  proof (cases "role = ''organization_admin''")
    case True
    then show ?thesis
      using assms(2) admin_kept [of _ db o' org i] unfolding t(3) has_admin_iff [of db]
      by (auto simp: active_admin_def)
  next
    case False
    from update_other_admin [OF other_admin [OF assms(1) t(1) t(2) [OF False] assms(2)]] t(3)
    show ?thesis by simp
  qed
qed

lemma set_member_status_keeps_admin:
  assumes "distinct (map mb_id (memberships db))" and "has_admin db o'"
    and "set_member_status org actor i transition db = Inr db'"
  shows "has_admin db' o'"
proof -
  obtain usual status where tr: "transition_states transition = (usual, status)" by fastforce
  obtain t where t: "locked_target db org actor i = Inr t"
      "status \<noteq> ''active'' \<Longrightarrow> protect_last_admin db org t = Inr ()"
      "db' = update_membership org i (mb_status_update (\<lambda>_. status)) db"
    using assms(3) by (auto simp: set_member_status_def tr Let_def split: if_splits)
  show ?thesis
  proof (cases "status = ''active''")
    case True
    then show ?thesis
      using assms(2) admin_kept [of _ db o' org i] unfolding t(3) has_admin_iff [of db]
      by (auto simp: active_admin_def)
  next
    case False
    from update_other_admin [OF other_admin [OF assms(1) t(1) t(2) [OF False] assms(2)]] t(3)
    show ?thesis by simp
  qed
qed

lemma accept_keeps_admin:
  assumes "distinct (map mb_id (memberships db))" and "has_admin db o'"
    and "accept_invitation now fi fm org i th name pw db = Inr db'"
  shows "has_admin db' o'"
proof -
  obtain iv :: invitation and who db1 db2 where run: "accepting_identity fi (iv_email iv) name pw db = Inr (who, db1)"
      "join_organization fm org who (iv_role iv) db1 = Inr db2" "memberships db' = memberships db2"
    using accept_invitation_Inr [OF assms(3)] unfolding update_invitation_def by fastforce
  have m1: "memberships db1 = memberships db" using accepting_identity_tables [OF run(1)] by simp
  then have "has_admin db1 o'" using assms(2) by (simp add: has_admin_iff)
  moreover have "has_admin db2 o'"
    if "m \<in> set (memberships db1)" "mb_organization m = org" "mb_status m = ''removed''"
      "db2 = update_membership org (mb_id m) f db1" for m f
  proof -
    obtain a where a: "a \<in> set (memberships db1)" "mb_organization a = o'" "active_admin a"
      using calculation by (auto simp: has_admin_iff)
    have "mb_id a \<noteq> mb_id m"
      using a that assms(1) by (auto simp: m1 distinct_map inj_on_def active_admin_def)
    with a show ?thesis unfolding that(4) by (intro update_other_admin bexI [of _ a]) auto
  qed
  ultimately have "has_admin db2 o'"
    using join_organization_tables [OF run(2)] by (auto simp: has_admin_iff)
  then show ?thesis by (simp add: has_admin_iff run(3))
qed

lemma create_locked_memberships:
  "create_locked digest now fresh token actor org email role db = Inr (iv, db') \<Longrightarrow>
     memberships db' = memberships db \<and> requests db' = requests db"
  using create_locked_Inr by (fastforce simp: expire_pending_def)

lemma open_organization_tables:
  assumes "open_organization fingerprint digest now fo fi token actor key opening db = Inr (reply, db')"
  shows "memberships db' = memberships db
    \<and> (db' = db \<or> invitations db' = invitations db @
          [new_invitation fi fo (op_admin_email opening) ''organization_admin'' (digest token) actor now])
    \<and> (\<exists>more. requests db' = requests db @ more)"
  using assms by (auto simp: open_organization_def split: option.splits if_splits)

lemma set_organization_tables:
  "set_organization_status now org status db = Inr db' \<Longrightarrow>
     memberships db' = memberships db \<and> invitations db' = invitations db \<and> requests db' = requests db"
  "set_organization_expiry org expires db = Inr db' \<Longrightarrow>
     memberships db' = memberships db \<and> invitations db' = invitations db \<and> requests db' = requests db"
  by (auto simp: set_organization_status_def set_organization_expiry_def split: option.splits if_splits)

lemma member_operation_tables:
  "set_role org actor i role db = Inr db' \<Longrightarrow>
     \<exists>f. (\<forall>x. mb_id (f x) = mb_id x) \<and> db' = update_membership org i f db"
  "set_member_status org actor i transition db = Inr db' \<Longrightarrow>
     \<exists>f. (\<forall>x. mb_id (f x) = mb_id x) \<and> db' = update_membership org i f db"
proof -
  assume "set_role org actor i role db = Inr db'"
  then have "db' = update_membership org i (mb_role_update (\<lambda>_. role)) db"
    by (auto simp: set_role_def split: if_splits)
  then show "\<exists>f. (\<forall>x. mb_id (f x) = mb_id x) \<and> db' = update_membership org i f db"
    by (intro exI [of _ "mb_role_update (\<lambda>_. role)"]) simp
next
  assume run: "set_member_status org actor i transition db = Inr db'"
  obtain usual status where "transition_states transition = (usual, status)" by fastforce
  with run have "db' = update_membership org i (mb_status_update (\<lambda>_. status)) db"
    by (auto simp: set_member_status_def Let_def split: if_splits)
  then show "\<exists>f. (\<forall>x. mb_id (f x) = mb_id x) \<and> db' = update_membership org i f db"
    by (intro exI [of _ "mb_status_update (\<lambda>_. status)"]) simp
qed

lemma update_membership_tables:
  "(\<forall>x. mb_id (f x) = mb_id x) \<Longrightarrow> map mb_id (memberships (update_membership org i f db)) = map mb_id (memberships db)"
  "invitations (update_membership org i f db) = invitations db"
  "requests (update_membership org i f db) = requests db"
  by (simp_all add: update_membership_def map_update_where)

lemma update_invitation_tables [simp]:
  "memberships (update_invitation org i f db) = memberships db"
  "requests (update_invitation org i f db) = requests db"
  by (simp_all add: update_invitation_def)

lemma resend_tables:
  assumes "resend_invitation digest now fresh token actor org i db = Inr (iv, db')"
  shows "memberships db' = memberships db \<and> requests db' = requests db"
proof -
  obtain f and old :: invitation where
    "create_locked digest now fresh token actor org (iv_email old) (iv_role old) (update_invitation org i f db) = Inr (iv, db')"
    using resend_invitation_Inr [OF assms] by blast
  from create_locked_memberships [OF this] show ?thesis by simp
qed

lemma accept_tables:
  assumes "accept_invitation now fi fm org i th name pw db = Inr db'"
  shows "requests db' = requests db
    \<and> (distinct (map mb_id (memberships db)) \<and> fm \<notin> mb_id ` set (memberships db)
         \<longrightarrow> distinct (map mb_id (memberships db')))
    \<and> (\<exists>f. closing f \<and> invitations db' = update_where (\<lambda>x. iv_organization x = org \<and> iv_id x = i) f (invitations db))"
proof -
  let ?f = "\<lambda>x. x\<lparr>iv_status := ''accepted'', iv_accepted_at := Some now\<rparr>"
  obtain iv :: invitation and who db1 db2 where run: "accepting_identity fi (iv_email iv) name pw db = Inr (who, db1)"
      "join_organization fm org who (iv_role iv) db1 = Inr db2" "db' = update_invitation org i ?f db2"
    using accept_invitation_Inr [OF assms] by blast
  note t1 = accepting_identity_tables [OF run(1)] and t2 = join_organization_tables [OF run(2)]
  have "closing ?f" by (simp add: closing_def)
  moreover have "invitations db' = update_where (\<lambda>x. iv_organization x = org \<and> iv_id x = i) ?f (invitations db)"
    using t1 t2 by (simp add: run(3) update_invitation_def)
  moreover have "requests db' = requests db" using t1 t2 by (simp add: run(3))
  moreover have "distinct (map mb_id (memberships db'))"
    if "distinct (map mb_id (memberships db))" "fm \<notin> mb_id ` set (memberships db)"
    using t1 t2 that by (auto simp: run(3) update_membership_tables(1))
  ultimately show ?thesis by blast
qed

lemma step_memberships:
  assumes "org_step fingerprint digest db db'" and "distinct (map mb_id (memberships db))"
  shows "distinct (map mb_id (memberships db'))"
  using assms(1)
proof (cases rule: org_step.cases)
  case open_step
  with open_organization_tables [OF open_step(1)] assms(2) show ?thesis by simp
next
  case status_step
  with set_organization_tables(1) [OF status_step] assms(2) show ?thesis by simp
next
  case expiry_step
  with set_organization_tables(2) [OF expiry_step] assms(2) show ?thesis by simp
next
  case role_step
  from member_operation_tables(1) [OF role_step(2)] assms(2) show ?thesis
    using update_membership_tables(1) by metis
next
  case member_step
  from member_operation_tables(2) [OF member_step(2)] assms(2) show ?thesis
    using update_membership_tables(1) by metis
next
  case create_step
  from create_locked_memberships [OF create_invitation_Inr [OF create_step(2)]] assms(2)
  show ?thesis by simp
next
  case revoke_step
  from revoke_invitation_Inr [OF revoke_step(2)] assms(2) show ?thesis by simp
next
  case resend_step
  from resend_tables [OF resend_step(2)] assms(2) show ?thesis by simp
next
  case accept_step
  from accept_tables [OF accept_step(1)] accept_step(2) assms(2) show ?thesis by blast
qed

lemma step_keeps_admin:
  assumes "org_step fingerprint digest db db'" and "distinct (map mb_id (memberships db))"
    and "has_admin db o'"
  shows "has_admin db' o'"
  using assms(1)
proof (cases rule: org_step.cases)
  case open_step
  with open_organization_tables [OF open_step(1)] assms(3) show ?thesis by (simp add: has_admin_iff)
next
  case status_step
  with set_organization_tables(1) [OF status_step] assms(3) show ?thesis by (simp add: has_admin_iff)
next
  case expiry_step
  with set_organization_tables(2) [OF expiry_step] assms(3) show ?thesis by (simp add: has_admin_iff)
next
  case role_step
  from set_role_keeps_admin [OF assms(2,3) role_step(2)] show ?thesis .
next
  case member_step
  from set_member_status_keeps_admin [OF assms(2,3) member_step(2)] show ?thesis .
next
  case create_step
  from create_locked_memberships [OF create_invitation_Inr [OF create_step(2)]] assms(3)
  show ?thesis by (simp add: has_admin_iff)
next
  case revoke_step
  from revoke_invitation_Inr [OF revoke_step(2)] assms(3) show ?thesis by (simp add: has_admin_iff)
next
  case resend_step
  from resend_tables [OF resend_step(2)] assms(3) show ?thesis by (simp add: has_admin_iff)
next
  case accept_step
  from accept_keeps_admin [OF assms(2,3) accept_step(1)] show ?thesis .
qed

lemma reaches_memberships:
  "org_reaches fingerprint digest db db' \<Longrightarrow> distinct (map mb_id (memberships db)) \<Longrightarrow>
     distinct (map mb_id (memberships db'))"
  by (induction rule: rtranclp_induct) (auto intro: step_memberships)

text \<open>
  C6: An organization never loses its last active administrator.  From any state the operations have
  built, whatever follows (role changes, suspensions, removals, invitations, expiry), an
  organization that has an active administrator still has one.
\<close>

theorem last_admin_protected:
  assumes "org_reaches fingerprint digest empty_org_db db" and "has_admin db org"
    and "org_reaches fingerprint digest db db'"
  shows "has_admin db' org"
  using assms(3)
proof (induction rule: rtranclp_induct)
  case base
  show ?case by (rule assms(2))
next
  case (step y z)
  have "org_reaches fingerprint digest empty_org_db y" using assms(1) step.hyps(1) by simp
  from reaches_memberships [OF this] have "distinct (map mb_id (memberships y))"
    by (simp add: empty_org_db_def)
  from step_keeps_admin [OF step.hyps(2) this step.IH] show ?case .
qed

section \<open>A run that opens an organization\<close>

definition sample_opening :: organization_opening where
  "sample_opening = \<lparr>op_slug = ''acme'', op_display_name = ''Acme'', op_admin_email = ''a@acme'',
     op_plan_key = ''basic'', op_allowance = 5, op_period_start = 0, op_period_end = 10,
     op_expires_at = None\<rparr>"

definition sample_opened :: org_db where
  "sample_opened = empty_org_db\<lparr>
     organizations := [\<lparr>og_id = ''o'', og_slug = ''acme'', og_display_name = ''Acme'', og_status = ''active'',
                         og_expires_at = None, og_created_by = ''p''\<rparr>],
     quotas := [\<lparr>qu_organization = ''o'', qu_plan_key = ''basic'', qu_allowance = 5, qu_period_start = 0,
                 qu_period_end = 10, qu_status = ''active''\<rparr>],
     invitations := [new_invitation ''i'' ''o'' ''a@acme'' ''organization_admin'' ''t'' ''p'' 0],
     provisioning_records := [\<lparr>po_organization = ''o'', po_invitation = ''i'', po_created_by = ''p'',
                               po_status = ''ready''\<rparr>],
     requests := [\<lparr>pr_actor = ''p'', pr_key = ''k'', pr_fingerprint = ''f'', pr_organization = ''o'',
                   pr_invitation = ''i''\<rparr>]\<rparr>"

lemma sample_opened_run:
  "open_organization (\<lambda>_. ''f'') id 0 ''o'' ''i'' ''t'' ''p'' ''k'' sample_opening empty_org_db
     = Inr ((201, ''o'', Some ''t''), sample_opened)"
  by (simp add: open_organization_def validate_opening_def sample_opening_def empty_org_db_def sample_opened_def)

lemma sample_opened_reached: "org_reaches (\<lambda>_. ''f'') id empty_org_db sample_opened"
  by (rule r_into_rtranclp, rule org_step.open_step [OF sample_opened_run])
    (simp_all add: empty_org_db_def)

definition sample_staffed :: org_db where
  "sample_staffed = sample_opened\<lparr>
     identities := [\<lparr>gi_id = ''g'', gi_email = ''a@acme'', gi_display_name = ''Ann'', gi_status = ''active'',
                     gi_password_hash = Some ''h'', gi_security_version = 1\<rparr>],
     memberships := [\<lparr>mb_id = ''m'', mb_organization = ''o'', mb_identity = ''g'',
                      mb_role = ''organization_admin'', mb_status = ''active''\<rparr>],
     invitations := [(new_invitation ''i'' ''o'' ''a@acme'' ''organization_admin'' ''t'' ''p'' 0)
                       \<lparr>iv_status := ''accepted'', iv_accepted_at := Some 1\<rparr>]\<rparr>"

lemma sample_staffed_run:
  "accept_invitation 1 ''g'' ''m'' ''o'' ''i'' ''t'' (Some ''Ann'') (Some ''h'') sample_opened = Inr sample_staffed"
proof -
  have "strip_text ''Ann'' = ''Ann''" by code_simp
  then show ?thesis
    by (simp add: accept_invitation_def sample_opened_def sample_staffed_def empty_org_db_def new_invitation_def
        INVITATION_LIFETIME_def organization_active_def find_organization_def effective_status_def
        accepting_identity_def join_organization_def membership_of_def update_invitation_def update_where_def)
qed

lemma sample_staffed_reached: "org_reaches (\<lambda>_. ''f'') id empty_org_db sample_staffed"
proof -
  have "org_step (\<lambda>_. ''f'') id sample_opened sample_staffed"
    by (rule org_step.accept_step [OF sample_staffed_run]) (simp add: sample_opened_def empty_org_db_def)
  with sample_opened_reached show ?thesis by simp
qed

theorem last_admin_protected_witness: "has_admin sample_staffed ''o''"
proof -
  have "has_admin sample_staffed ''o''"
    by (simp add: has_admin_def active_admins_def sample_staffed_def active_admin_def)
  from last_admin_protected [OF sample_staffed_reached this rtranclp.rtrancl_refl] show ?thesis .
qed

section \<open>Invitations\<close>

definition invitation_closed :: "org_db \<Rightarrow> string \<Rightarrow> string \<Rightarrow> bool" where
  "invitation_closed db org i \<longleftrightarrow>
     i \<in> iv_id ` set (invitations db)
     \<and> (\<forall>x \<in> set (invitations db). iv_organization x = org \<and> iv_id x = i \<longrightarrow> iv_status x \<noteq> ''pending'')"

lemma closed_update:
  assumes "closing f" and "invitation_closed db org i" and "invitations db' = update_where P f (invitations db)"
  shows "invitation_closed db' org i"
proof -
  have "map iv_id (invitations db') = map iv_id (invitations db)"
    using assms(1) unfolding assms(3) closing_def by (simp add: map_update_where)
  then have "iv_id ` set (invitations db') = iv_id ` set (invitations db)" by (metis set_map)
  then show ?thesis
    using assms(1,2) unfolding invitation_closed_def assms(3)
    by (auto simp: update_where_def closing_def)
qed

lemma closed_append:
  "invitation_closed db org i \<Longrightarrow> invitations db' = invitations db @ [x] \<Longrightarrow> iv_id x \<notin> iv_id ` set (invitations db)
     \<Longrightarrow> invitation_closed db' org i"
  by (auto simp: invitation_closed_def)

lemma closing_expired: "closing (iv_status_update (\<lambda>_. ''expired''))"
  by (simp add: closing_def)

lemma create_locked_closed:
  assumes "create_locked digest now fresh token actor o' email role db = Inr (iv, db')"
    and "fresh \<notin> iv_id ` set (invitations db)" and "invitation_closed db org i"
  shows "invitation_closed db' org i"
proof -
  let ?mid = "expire_pending now o' email db"
  have mid: "invitation_closed ?mid org i"
    by (rule closed_update [OF closing_expired assms(3)]) (simp add: expire_pending_def)
  have ids: "map iv_id (invitations ?mid) = map iv_id (invitations db)"
    by (simp add: expire_pending_def map_update_where)
  then have "iv_id ` set (invitations ?mid) = iv_id ` set (invitations db)" by (metis set_map)
  with create_locked_Inr [OF assms(1)] assms(2) show ?thesis
    by (intro closed_append [OF mid, of _ iv]) (simp_all add: new_invitation_def)
qed

lemma update_invitation_ids:
  "closing f \<Longrightarrow> iv_id ` set (invitations (update_invitation org i f db)) = iv_id ` set (invitations db)"
  unfolding set_map [symmetric] update_invitation_def by (simp add: closing_def map_update_where)

lemma step_keeps_closed:
  assumes "org_step fingerprint digest db db'" and "invitation_closed db org i"
  shows "invitation_closed db' org i"
  using assms(1)
proof (cases rule: org_step.cases)
  case open_step
  with open_organization_tables [OF open_step(1)] assms(2) closed_append [OF assms(2), of db'] show ?thesis
    by (auto simp: new_invitation_def)
next
  case status_step
  with set_organization_tables(1) [OF status_step] assms(2) show ?thesis by (simp add: invitation_closed_def)
next
  case expiry_step
  with set_organization_tables(2) [OF expiry_step] assms(2) show ?thesis by (simp add: invitation_closed_def)
next
  case role_step
  from member_operation_tables(1) [OF role_step(2)] assms(2) show ?thesis
    by (auto simp: invitation_closed_def update_membership_tables)
next
  case member_step
  from member_operation_tables(2) [OF member_step(2)] assms(2) show ?thesis
    by (auto simp: invitation_closed_def update_membership_tables)
next
  case create_step
  from create_locked_closed [OF create_invitation_Inr [OF create_step(2)] create_step(3) assms(2)]
  show ?thesis .
next
  case (revoke_step now actor org' j)
  have "closing (\<lambda>x. x\<lparr>iv_status := ''revoked'', iv_revoked_at := Some now\<rparr>)" by (simp add: closing_def)
  from closed_update [OF this assms(2)] revoke_invitation_Inr [OF revoke_step(2)] show ?thesis
    by (simp add: update_invitation_def)
next
  case (resend_step now actor org' fresh token j iv)
  obtain f and old :: invitation where f: "closing f"
    "create_locked digest now fresh token actor org' (iv_email old) (iv_role old) (update_invitation org' j f db) = Inr (iv, db')"
    using resend_invitation_Inr [OF resend_step(2)] by blast
  have "invitation_closed (update_invitation org' j f db) org i"
    by (rule closed_update [OF f(1) assms(2)]) (simp add: update_invitation_def)
  with create_locked_closed [OF f(2)] resend_step(3) update_invitation_ids [OF f(1)] show ?thesis by simp
next
  case accept_step
  from accept_tables [OF accept_step(1)] closed_update [OF _ assms(2)] show ?thesis by blast
qed

lemma accept_closes:
  assumes "accept_invitation now fi fm org i th name pw db = Inr db'"
  shows "invitation_closed db' org i"
proof -
  obtain iv where "find (\<lambda>x. iv_organization x = org \<and> iv_id x = i \<and> iv_token_hash x = th) (invitations db) = Some iv"
    using accept_invitation_Inr [OF assms] by blast
  then have "iv \<in> set (invitations db)" "iv_organization iv = org" "iv_id iv = i"
    by (auto simp: find_Some_iff)
  moreover obtain f where f: "closing f"
      "invitations db' = update_where (\<lambda>x. iv_organization x = org \<and> iv_id x = i) f (invitations db)"
    using accept_tables [OF assms] by blast
  moreover have "map iv_id (invitations db') = map iv_id (invitations db)"
    using f by (simp add: map_update_where closing_def)
  then have "iv_id ` set (invitations db') = iv_id ` set (invitations db)" by (metis set_map)
  ultimately show ?thesis
    by (auto simp: invitation_closed_def update_where_def closing_def)
qed

lemma closed_refused:
  "invitation_closed db org i \<Longrightarrow>
     accept_invitation now fi fm org i th name pw db
       \<in> {Inl (Http 404 ''invitation_not_found''), Inl (Http 409 ''invitation_not_pending'')}"
  by (auto simp: accept_invitation_def invitation_closed_def find_Some_iff split: option.splits)

text \<open>
  C7: An invitation admits one member once.  Acceptance needs a pending invitation that has not
  expired, in an organization that is active at that moment, and from then on, whatever other operations
  follow, every acceptance of that invitation is refused, with any token and in any circumstances.
\<close>

theorem invitation_single_use:
  assumes "accept_invitation now fi fm org i th name pw db = Inr db'"
    and "org_reaches fingerprint digest db' db''"
  shows "(\<exists>iv \<in> set (invitations db). iv_organization iv = org \<and> iv_id iv = i \<and> iv_token_hash iv = th
            \<and> iv_status iv = ''pending'' \<and> now < iv_expires_at iv)
    \<and> organization_active db now org
    \<and> accept_invitation now2 fi2 fm2 org i th2 name2 pw2 db''
        \<in> {Inl (Http 404 ''invitation_not_found''), Inl (Http 409 ''invitation_not_pending'')}"
proof -
  obtain iv where iv: "find (\<lambda>x. iv_organization x = org \<and> iv_id x = i \<and> iv_token_hash x = th) (invitations db) = Some iv"
      "iv_status iv = ''pending''" "now < iv_expires_at iv" "organization_active db now org"
    using accept_invitation_Inr [OF assms(1)] by blast
  have "invitation_closed db'' org i"
    using assms(2) accept_closes [OF assms(1)]
    by (induction rule: rtranclp_induct) (auto intro: step_keeps_closed)
  from closed_refused [OF this] iv show ?thesis
    by (auto simp: find_Some_iff)
qed

theorem invitation_single_use_witness:
  "accept_invitation 2 ''h'' ''n'' ''o'' ''i'' ''t'' None None sample_staffed
     \<in> {Inl (Http 404 ''invitation_not_found''), Inl (Http 409 ''invitation_not_pending'')}"
  using invitation_single_use [OF sample_staffed_run rtranclp.rtrancl_refl] by blast

definition pending_for :: "string \<Rightarrow> string \<Rightarrow> invitation \<Rightarrow> bool" where
  "pending_for org email x \<longleftrightarrow> iv_organization x = org \<and> iv_email x = email \<and> iv_status x = ''pending''"

definition pending_unique :: "org_db \<Rightarrow> bool" where
  "pending_unique db \<longleftrightarrow> (\<forall>org email. length (filter (pending_for org email) (invitations db)) \<le> 1)"

lemma filter_update_le:
  "(\<And>x. Q (f x) \<Longrightarrow> Q x) \<Longrightarrow> length (filter Q (update_where P f xs)) \<le> length (filter Q xs)"
  by (induction xs) (auto simp: update_where_def)

lemma pending_update:
  assumes "closing f" and "pending_unique db" and "invitations db' = update_where P f (invitations db)"
  shows "pending_unique db'"
  unfolding pending_unique_def assms(3)
proof (intro allI)
  fix org email
  have "length (filter (pending_for org email) (update_where P f (invitations db)))
      \<le> length (filter (pending_for org email) (invitations db))"
    using assms(1) by (intro filter_update_le) (simp add: closing_def pending_for_def)
  then show "length (filter (pending_for org email) (update_where P f (invitations db))) \<le> 1"
    using assms(2) unfolding pending_unique_def by (meson le_trans)
qed

lemma pending_append:
  assumes "pending_unique db" and "invitations db' = invitations db @ [x]"
    and "filter (pending_for (iv_organization x) (iv_email x)) (invitations db) = []"
  shows "pending_unique db'"
  using assms by (auto simp: pending_unique_def pending_for_def)

lemma create_locked_pending:
  assumes "create_locked digest now fresh token actor org email role db = Inr (iv, db')" and "pending_unique db"
  shows "pending_unique db'"
proof -
  let ?mid = "expire_pending now org email db"
  note facts = create_locked_Inr [OF assms(1)]
  have mid: "pending_unique ?mid"
    by (rule pending_update [OF closing_expired assms(2)]) (simp add: expire_pending_def)
  have "\<not> pending_for org email x" if x: "x \<in> set (invitations ?mid)" for x
  proof
    assume p: "pending_for org email x"
    obtain y where y: "y \<in> set (invitations db)" "x = (if pending_for org email y \<and> iv_expires_at y \<le> now
        then iv_status_update (\<lambda>_. ''expired'') y else y)"
      using x by (auto simp: expire_pending_def update_where_def pending_for_def)
    then have "now < iv_expires_at x" using p by (auto simp: pending_for_def split: if_splits)
    moreover have "\<not> list_ex (\<lambda>x. pending_for org email x \<and> iv_expires_at x > now) (invitations ?mid)"
      using facts by (simp add: pending_for_def list_ex_iff)
    ultimately show False using x p by (auto simp: list_ex_iff)
  qed
  then have "filter (pending_for (iv_organization iv) (iv_email iv)) (invitations ?mid) = []"
    using facts by (simp add: filter_empty_conv new_invitation_def)
  with facts show ?thesis by (intro pending_append [OF mid]) simp_all
qed

lemma step_pending:
  assumes "org_step fingerprint digest db db'" and "pending_unique db"
  shows "pending_unique db'"
  using assms(1)
proof (cases rule: org_step.cases)
  case (open_step now fresh_org fresh_invitation token actor key offer reply)
  have "filter (pending_for fresh_org email) (invitations db) = []" for email
    using open_step(2) by (auto simp: filter_empty_conv pending_for_def)
  with open_organization_tables [OF open_step(1)] assms(2) pending_append [OF assms(2), of db']
  show ?thesis by (auto simp: new_invitation_def)
next
  case status_step
  with set_organization_tables(1) [OF status_step] assms(2) show ?thesis by (simp add: pending_unique_def)
next
  case expiry_step
  with set_organization_tables(2) [OF expiry_step] assms(2) show ?thesis by (simp add: pending_unique_def)
next
  case role_step
  from member_operation_tables(1) [OF role_step(2)] assms(2) show ?thesis
    by (auto simp: pending_unique_def update_membership_tables)
next
  case member_step
  from member_operation_tables(2) [OF member_step(2)] assms(2) show ?thesis
    by (auto simp: pending_unique_def update_membership_tables)
next
  case create_step
  from create_locked_pending [OF create_invitation_Inr [OF create_step(2)] assms(2)] show ?thesis .
next
  case (revoke_step now actor org' j)
  have "closing (\<lambda>x. x\<lparr>iv_status := ''revoked'', iv_revoked_at := Some now\<rparr>)" by (simp add: closing_def)
  from pending_update [OF this assms(2)] revoke_invitation_Inr [OF revoke_step(2)] show ?thesis
    by (simp add: update_invitation_def)
next
  case (resend_step now actor org' fresh token j iv)
  obtain f and old :: invitation where f: "closing f"
    "create_locked digest now fresh token actor org' (iv_email old) (iv_role old) (update_invitation org' j f db) = Inr (iv, db')"
    using resend_invitation_Inr [OF resend_step(2)] by blast
  have "pending_unique (update_invitation org' j f db)"
    by (rule pending_update [OF f(1) assms(2)]) (simp add: update_invitation_def)
  from create_locked_pending [OF f(2) this] show ?thesis .
next
  case accept_step
  from accept_tables [OF accept_step(1)] pending_update [OF _ assms(2)] show ?thesis by blast
qed

text \<open>
  At most one invitation per organization and address is pending in any state the operations
  reach: creating and resending first retire what has expired and refuse while one is still open.
\<close>

theorem one_pending_invitation:
  assumes "org_reaches fingerprint digest empty_org_db db"
  shows "length (filter (pending_for org email) (invitations db)) \<le> 1"
proof -
  have "pending_unique db" using assms
  proof (induction rule: rtranclp_induct)
    case base
    show ?case by (simp add: pending_unique_def empty_org_db_def)
  next
    case (step y z)
    from step_pending [OF step.hyps(2) step.IH] show ?case .
  qed
  then show ?thesis by (simp add: pending_unique_def)
qed

theorem one_pending_invitation_witness:
  "length (filter (pending_for ''o'' ''a@acme'') (invitations sample_opened)) \<le> 1 \<and> invitations sample_opened \<noteq> []"
  using one_pending_invitation [OF sample_opened_reached] by (simp add: sample_opened_def)

section \<open>Opening twice\<close>

lemma step_requests:
  assumes "org_step fingerprint digest db db'"
  shows "\<exists>more. requests db' = requests db @ more"
  using assms
proof (cases rule: org_step.cases)
  case open_step
  with open_organization_tables [OF open_step(1)] show ?thesis by blast
next
  case status_step
  with set_organization_tables(1) [OF status_step] show ?thesis by simp
next
  case expiry_step
  with set_organization_tables(2) [OF expiry_step] show ?thesis by simp
next
  case role_step
  from member_operation_tables(1) [OF role_step(2)] show ?thesis by (auto simp: update_membership_tables)
next
  case member_step
  from member_operation_tables(2) [OF member_step(2)] show ?thesis by (auto simp: update_membership_tables)
next
  case create_step
  from create_locked_memberships [OF create_invitation_Inr [OF create_step(2)]] show ?thesis by simp
next
  case revoke_step
  from revoke_invitation_Inr [OF revoke_step(2)] show ?thesis by simp
next
  case resend_step
  from resend_tables [OF resend_step(2)] show ?thesis by simp
next
  case accept_step
  from accept_tables [OF accept_step(1)] show ?thesis by simp
qed

text \<open>
  Opening an organization is idempotent.  After a first opening under some actor and key, a repetition
  at any later time, if it still validates, creates nothing: with the same content it returns the
  organization of the first opening and no token, with other content it is refused.
\<close>

theorem opening_idempotent:
  assumes "open_organization fingerprint digest now fo fi token actor key opening db = Inr ((201, org, tok), db')"
    and "org_reaches fingerprint digest db' db''"
  shows "open_organization fingerprint digest now' fo' fi' token' actor key offer db'' =
    bind_result (validate_opening now' offer) (\<lambda>_.
      if fingerprint offer = fingerprint opening then Inr ((200, org, None), db'')
      else Inl (Http 409 ''idempotency_conflict''))"
proof -
  let ?P = "\<lambda>r. pr_actor r = actor \<and> pr_key r = key"
  let ?r = "\<lparr>pr_actor = actor, pr_key = key, pr_fingerprint = fingerprint opening, pr_organization = org,
    pr_invitation = fi\<rparr>"
  have first: "find ?P (requests db') = Some ?r"
    using assms(1) by (auto simp: open_organization_def find_append split: option.splits if_splits)
  have "find ?P (requests db'') = Some ?r" using assms(2)
  proof (induction rule: rtranclp_induct)
    case base
    show ?case by (rule first)
  next
    case (step y z)
    obtain more where "requests z = requests y @ more" using step_requests [OF step.hyps(2)] by blast
    with step.IH show ?case by (simp add: find_append)
  qed
  then show ?thesis by (auto simp: open_organization_def bind_result_def split: sum.splits)
qed

theorem opening_idempotent_witness:
  "open_organization (\<lambda>_. ''f'') id 5 ''o2'' ''i2'' ''t2'' ''p'' ''k'' sample_opening sample_opened
     = Inr ((200, ''o'', None), sample_opened)"
  using opening_idempotent [OF sample_opened_run rtranclp.rtrancl_refl,
      where now' = 5 and fo' = "''o2''" and fi' = "''i2''" and token' = "''t2''" and offer = sample_opening]
  by (simp add: validate_opening_def sample_opening_def)

end
