(* ===== verification/AuthSafety.thy ===== *)
theory AuthSafety
  imports Administration OrganizationSafety
begin

text \<open>
  What holds in every run of the authentication handlers: a session that has ended never works again,
  a password reset locks out everything that came before it, and a session counts as verified by a
  second factor only if that factor was checked.
\<close>

section \<open>Steps\<close>

definition fresh_session :: "(string \<Rightarrow> string) \<Rightarrow> string \<Rightarrow> string \<Rightarrow> auth_db \<Rightarrow> bool" where
  "fresh_session digest i token db \<longleftrightarrow>
     i \<notin> ss_id ` set (sessions db) \<and> digest token \<notin> ss_token_hash ` set (sessions db)"

inductive auth_step :: "(string \<Rightarrow> string) \<Rightarrow> (string \<Rightarrow> ustr \<Rightarrow> nat \<Rightarrow> (http_error, bool) result) \<Rightarrow> (string \<Rightarrow> string)
    \<Rightarrow> auth_db \<Rightarrow> auth_db \<Rightarrow> bool" for digest verify decrypt where
  resolve_step: "resolved dis digest now lock cookie db = Inr (p, db') \<Longrightarrow> auth_step digest verify decrypt db db'"
| login_step: "login_commit digest now cookie i token row db = Inr (r, db') \<Longrightarrow> fresh_session digest i token db \<Longrightarrow>
    auth_step digest verify decrypt db db'"
| logout_step: "logout dis digest now cookie db = Inr db' \<Longrightarrow> auth_step digest verify decrypt db db'"
| revoke_all_step: "revoke_sessions dis digest now dbnow cookie db = Inr db' \<Longrightarrow> auth_step digest verify decrypt db db'"
| request_step: "request_password_reset n w digest free now host email i token lim db = (Inr db', lim') \<Longrightarrow>
    i \<notin> rt_id ` set (reset_tokens db) \<Longrightarrow> digest token \<notin> rt_hash ` set (reset_tokens db) \<Longrightarrow>
    auth_step digest verify decrypt db db'"
| reset_step: "complete_password_reset dbnow h i who version new_hash db = (Some who', db') \<Longrightarrow>
    auth_step digest verify decrypt db db'"
| enroll_step: "enroll_totp dis digest enc now cookie i secret db = Inr db' \<Longrightarrow> auth_step digest verify decrypt db db'"
| confirm_step: "confirm_totp n w dis digest verify decrypt now host cookie c code i token b codes lim db
      = (Inr (r, db'), lim') \<Longrightarrow> fresh_session digest i token db \<Longrightarrow> auth_step digest verify decrypt db db'"
| challenge_step: "challenge_mfa n w dis digest verify decrypt now host cookie code rec i token lim db
      = (Inr (r, db'), lim') \<Longrightarrow> fresh_session digest i token db \<Longrightarrow> auth_step digest verify decrypt db db'"
| codes_step: "regenerate_recovery_codes dis digest now cookie b codes db = Inr db' \<Longrightarrow>
    auth_step digest verify decrypt db db'"
| member_reset_step: "organization_mfa_reset dis digest now dbnow cookie org target db = Inr db' \<Longrightarrow>
    auth_step digest verify decrypt db db'"
| organization_step: "organization_mutation dis digest now cookie corr org i token q db = (outcome, db') \<Longrightarrow>
    auth_step digest verify decrypt db db'"
| platform_step: "platform_mutation dis fingerprint digest now dbnow cookie corr fo fi token q db = (outcome, db') \<Longrightarrow>
    auth_step digest verify decrypt db db'"
| join_step: "accept_invitation now i fm org iv h name pw (a_org db) = Inr o' \<Longrightarrow>
    i \<notin> gi_id ` set (identities (a_org db)) \<Longrightarrow> auth_step digest verify decrypt db (db\<lparr>a_org := o'\<rparr>)"

abbreviation auth_reaches :: "(string \<Rightarrow> string) \<Rightarrow> (string \<Rightarrow> ustr \<Rightarrow> nat \<Rightarrow> (http_error, bool) result)
    \<Rightarrow> (string \<Rightarrow> string) \<Rightarrow> auth_db \<Rightarrow> auth_db \<Rightarrow> bool" where
  "auth_reaches digest verify decrypt \<equiv> (auth_step digest verify decrypt)\<^sup>*\<^sup>*"

definition empty_auth_db :: auth_db where
  "empty_auth_db = \<lparr>a_org = empty_org_db, sessions = [], credentials = [], recovery_codes = [],
     reset_tokens = [], grants = [], audit_events = [], platform_audit_events = []\<rparr>"

section \<open>How sessions evolve\<close>

text \<open>A change of a session row that a step may make: it may end, and it may be seen.\<close>

definition ageing :: "(user_session \<Rightarrow> user_session) \<Rightarrow> bool" where
  "ageing f \<longleftrightarrow> (\<forall>s. ss_id (f s) = ss_id s \<and> ss_token_hash (f s) = ss_token_hash s
     \<and> ss_identity (f s) = ss_identity s \<and> ss_version (f s) = ss_version s
     \<and> ss_mfa_verified_at (f s) = ss_mfa_verified_at s \<and> ss_expires_at (f s) = ss_expires_at s
     \<and> (ss_revoked_at s \<noteq> None \<longrightarrow> ss_revoked_at (f s) \<noteq> None))"

definition aged :: "auth_db \<Rightarrow> auth_db \<Rightarrow> bool" where
  "aged db db' \<longleftrightarrow> (\<exists>f. ageing f \<and> sessions db' = map f (sessions db))"

named_theorems ageing_rules

lemma ageing_when [ageing_rules]: "ageing f \<Longrightarrow> ageing (\<lambda>s. if P s then f s else s)"
  by (simp add: ageing_def)

lemma ageing_revoked [ageing_rules]: "ageing (revoked now)"
  by (simp add: ageing_def revoked_def)

lemma ageing_seen [ageing_rules]: "ageing (ss_last_seen_at_update g)"
  by (simp add: ageing_def)

lemma ageing_id: "ageing (\<lambda>s. s)"
  by (simp add: ageing_def)

lemma ageing_comp: "ageing f \<Longrightarrow> ageing g \<Longrightarrow> ageing (g \<circ> f)"
  by (simp add: ageing_def)

lemma aged_same: "sessions db' = sessions db \<Longrightarrow> aged db db'"
  unfolding aged_def by (intro exI [of _ "\<lambda>s. s"]) (simp add: ageing_id)

lemma aged_refl [simp, intro]: "aged db db"
  by (rule aged_same) simp

lemma aged_trans [trans]:
  assumes "aged a b" and "aged b c"
  shows "aged a c"
proof -
  obtain f g where "ageing f" "sessions b = map f (sessions a)" "ageing g" "sessions c = map g (sessions b)"
    using assms unfolding aged_def by blast
  then show ?thesis unfolding aged_def by (intro exI [of _ "g \<circ> f"]) (simp add: ageing_comp)
qed

lemma aged_update [ageing_rules]: "ageing f \<Longrightarrow> aged db (update_sessions P f db)"
  unfolding aged_def update_sessions_def update_where_def
  by (intro exI [of _ "\<lambda>s. if P s then f s else s"]) (simp add: ageing_when)

lemma aged_field [simp]:
  "aged db (db'\<lparr>a_org := x1\<rparr>) \<longleftrightarrow> aged db db'"
  "aged db (db'\<lparr>credentials := x2\<rparr>) \<longleftrightarrow> aged db db'"
  "aged db (db'\<lparr>recovery_codes := x3\<rparr>) \<longleftrightarrow> aged db db'"
  "aged db (db'\<lparr>reset_tokens := x4\<rparr>) \<longleftrightarrow> aged db db'"
  "aged db (db'\<lparr>audit_events := x5\<rparr>) \<longleftrightarrow> aged db db'"
  "aged db (db'\<lparr>platform_audit_events := x6\<rparr>) \<longleftrightarrow> aged db db'"
  by (simp_all add: aged_def)

lemma aged_revoke_all [simp]: "aged db (revoke_all_of t who db)"
  unfolding revoke_all_of_def by (intro aged_update ageing_rules)

lemma resolved_Inr:
  assumes "resolved dis digest now lock cookie db = Inr (p, db')"
  shows "\<exists>token s g. cookie = Some token \<and> token \<noteq> [] \<and> session_row db (digest token) = Some (s, g)
    \<and> session_live now s g \<and> pp_session p = ss_id s \<and> pp_identity p = ss_identity s
    \<and> pp_token_hash p = digest token \<and> pp_version p = ss_version s
    \<and> pp_mfa_verified_at p = (if dis then Some now else ss_mfa_verified_at s)
    \<and> db' = update_sessions (\<lambda>x. ss_id x = ss_id s) (ss_last_seen_at_update (\<lambda>_. now)) db"
  using assms
  by (auto simp: resolved_def resolve_def in_transaction_def split: option.splits if_splits prod.splits)

lemma aged_resolved: "resolved dis digest now lock cookie db = Inr (p, db') \<Longrightarrow> aged db db'"
  using resolved_Inr by (metis aged_update ageing_seen)

lemma update_sessions_fields [simp]:
  "a_org (update_sessions P f db) = a_org db"
  "credentials (update_sessions P f db) = credentials db"
  "recovery_codes (update_sessions P f db) = recovery_codes db"
  "reset_tokens (update_sessions P f db) = reset_tokens db"
  "grants (update_sessions P f db) = grants db"
  "audit_events (update_sessions P f db) = audit_events db"
  "platform_audit_events (update_sessions P f db) = platform_audit_events db"
  "identity_of (update_sessions P f db) i = identity_of db i"
  by (simp_all add: update_sessions_def identity_of_def)

lemma resolved_fields:
  assumes "resolved dis digest now lock cookie db = Inr (p, db')"
  shows "a_org db' = a_org db \<and> credentials db' = credentials db \<and> recovery_codes db' = recovery_codes db
    \<and> reset_tokens db' = reset_tokens db \<and> audit_events db' = audit_events db
    \<and> platform_audit_events db' = platform_audit_events db"
  using resolved_Inr [OF assms] by auto

lemma revoke_all_fields [simp]:
  "a_org (revoke_all_of t who db) = a_org db"
  "reset_tokens (revoke_all_of t who db) = reset_tokens db"
  by (simp_all add: revoke_all_of_def)

text \<open>
  The requests that verify a second factor at an instant: the confirmation of an enrolment, with the code that was
  typed for the pending credential; a challenge with the typed code of an active credential; and a challenge with a
  typed recovery code whose digest is stored and unused, and which is used up by it.
\<close>

definition confirmed_with_code :: "(string \<Rightarrow> string) \<Rightarrow> (string \<Rightarrow> ustr \<Rightarrow> nat \<Rightarrow> (http_error, bool) result)
    \<Rightarrow> (string \<Rightarrow> string) \<Rightarrow> nat \<Rightarrow> string \<Rightarrow> auth_db \<Rightarrow> auth_db \<Rightarrow> bool" where
  "confirmed_with_code digest verify decrypt t who db db' \<longleftrightarrow>
     (\<exists>n w dis host cookie cid code i token b codes lim r lim' c.
        confirm_totp n w dis digest verify decrypt t host cookie cid code i token b codes lim db = (Inr (r, db'), lim')
        \<and> c \<in> set (credentials db) \<and> mc_id c = cid \<and> mc_identity c = who \<and> mc_status c = ''pending''
        \<and> t \<le> mc_created_at c + ENROLLMENT_LIFETIME \<and> verify (decrypt (mc_ciphertext c)) code t = Inr True)"

definition challenged_with_code :: "(string \<Rightarrow> string) \<Rightarrow> (string \<Rightarrow> ustr \<Rightarrow> nat \<Rightarrow> (http_error, bool) result)
    \<Rightarrow> (string \<Rightarrow> string) \<Rightarrow> nat \<Rightarrow> string \<Rightarrow> auth_db \<Rightarrow> auth_db \<Rightarrow> bool" where
  "challenged_with_code digest verify decrypt t who db db' \<longleftrightarrow>
     (\<exists>n w dis host cookie code rec i token lim r lim' c.
        challenge_mfa n w dis digest verify decrypt t host cookie (Some code) rec i token lim db = (Inr (r, db'), lim')
        \<and> c \<in> set (credentials db) \<and> mc_identity c = who \<and> mc_status c = ''active''
        \<and> verify (decrypt (mc_ciphertext c)) code t = Inr True)"

definition challenged_with_recovery :: "(string \<Rightarrow> string) \<Rightarrow> (string \<Rightarrow> ustr \<Rightarrow> nat \<Rightarrow> (http_error, bool) result)
    \<Rightarrow> (string \<Rightarrow> string) \<Rightarrow> nat \<Rightarrow> string \<Rightarrow> auth_db \<Rightarrow> auth_db \<Rightarrow> bool" where
  "challenged_with_recovery digest verify decrypt t who db db' \<longleftrightarrow>
     (\<exists>n w dis host cookie code rec i token lim r lim' c.
        challenge_mfa n w dis digest verify decrypt t host cookie code (Some rec) i token lim db = (Inr (r, db'), lim')
        \<and> c \<in> set (credentials db) \<and> mc_identity c = who \<and> mc_status c = ''active''
        \<and> (\<exists>x \<in> set (recovery_codes db). rc_identity x = who \<and> rc_credential x = mc_id c \<and> rc_hash x = digest rec
             \<and> rc_used_at x = None)
        \<and> (\<forall>x \<in> set (recovery_codes db'). rc_identity x = who \<and> rc_credential x = mc_id c \<and> rc_hash x = digest rec
             \<longrightarrow> rc_used_at x \<noteq> None))"

definition factor_presented :: "(string \<Rightarrow> string) \<Rightarrow> (string \<Rightarrow> ustr \<Rightarrow> nat \<Rightarrow> (http_error, bool) result)
    \<Rightarrow> (string \<Rightarrow> string) \<Rightarrow> nat \<Rightarrow> string \<Rightarrow> auth_db \<Rightarrow> auth_db \<Rightarrow> bool" where
  "factor_presented digest verify decrypt t who db db' \<longleftrightarrow>
     confirmed_with_code digest verify decrypt t who db db' \<or> challenged_with_code digest verify decrypt t who db db'
     \<or> challenged_with_recovery digest verify decrypt t who db db'"

text \<open>What is known of a new session row.\<close>

definition opens :: "(string \<Rightarrow> string) \<Rightarrow> (string \<Rightarrow> ustr \<Rightarrow> nat \<Rightarrow> (http_error, bool) result) \<Rightarrow> (string \<Rightarrow> string)
    \<Rightarrow> auth_db \<Rightarrow> auth_db \<Rightarrow> user_session \<Rightarrow> bool" where
  "opens digest verify decrypt db db' n \<longleftrightarrow>
     ss_token_hash n \<notin> ss_token_hash ` set (sessions db)
     \<and> (\<forall>t. ss_mfa_verified_at n = Some t \<longrightarrow> factor_presented digest verify decrypt t (ss_identity n) db db')"

definition evolves :: "(string \<Rightarrow> string) \<Rightarrow> (string \<Rightarrow> ustr \<Rightarrow> nat \<Rightarrow> (http_error, bool) result) \<Rightarrow> (string \<Rightarrow> string)
    \<Rightarrow> auth_db \<Rightarrow> auth_db \<Rightarrow> bool" where
  "evolves digest verify decrypt db db' \<longleftrightarrow>
     aged db db' \<or> (\<exists>mid n. aged db mid \<and> sessions db' = sessions mid @ [n] \<and> opens digest verify decrypt db db' n)"

lemma evolves_aged [intro]: "aged db db' \<Longrightarrow> evolves digest verify decrypt db db'"
  by (simp add: evolves_def)

lemma issue_session_Inr:
  assumes "issue_session digest i token who version now mfa db = Inr (r, db')"
  shows "(\<exists>g. identity_of db who = Some g \<and> gi_status g = ''active'' \<and> gi_security_version g = version)
    \<and> db' = db\<lparr>sessions := sessions db @
        [\<lparr>ss_id = i, ss_identity = who, ss_version = version, ss_token_hash = digest token,
          ss_mfa_verified_at = mfa, ss_expires_at = now + SESSION_LIFETIME, ss_last_seen_at = now,
          ss_revoked_at = None\<rparr>]\<rparr>"
  using assms by (auto simp: issue_session_def split: option.splits if_splits)

lemma issue_evolves:
  assumes "issue_session digest i token who version now mfa mid = Inr (r, db')" and "aged db mid"
    and "fresh_session digest i token db"
    and "\<And>t. mfa = Some t \<Longrightarrow> factor_presented digest verify decrypt t who db db'"
  shows "evolves digest verify decrypt db db'"
  using issue_session_Inr [OF assms(1)] assms(2-) unfolding evolves_def fresh_session_def opens_def
  by (intro disjI2 exI [of _ mid]) auto

lemma rotate_evolves:
  assumes "rotate_session digest i token p now mid = Inr (r, db')" and "aged db mid"
    and "fresh_session digest i token db" and "factor_presented digest verify decrypt now (pp_identity p) db db'"
  shows "evolves digest verify decrypt db db'"
proof -
  have "aged db (update_sessions (\<lambda>s. ss_id s = pp_session p) (revoked now) mid)"
    using assms(2) aged_trans aged_update ageing_revoked by blast
  then show ?thesis
    using issue_evolves [OF assms(1) [unfolded rotate_session_def]] assms(3,4) by blast
qed

lemma aged_presented: "aged db (revoke_valid_presented_session digest now cookie db)"
  unfolding revoke_valid_presented_session_def
  by (auto split: option.splits prod.splits intro: aged_update ageing_revoked)

lemma login_evolves:
  assumes "login_commit digest now cookie i token row db = Inr (r, db')" and "fresh_session digest i token db"
  shows "evolves digest verify decrypt db db'"
proof -
  have "issue_session digest i token (gi_id row) (gi_security_version row) now None
      (revoke_valid_presented_session digest now cookie db) = Inr (r, db')"
    using assms(1) by (auto simp: login_commit_def split: option.splits if_splits)
  from issue_evolves [OF this aged_presented assms(2)] show ?thesis by simp
qed

lemma logout_aged: "logout dis digest now cookie db = Inr db' \<Longrightarrow> aged db db'"
  unfolding logout_def by (auto dest!: aged_resolved intro: aged_trans aged_update ageing_revoked)

lemma revoke_current_aged: "revoke_current_identity_sessions dbnow h who db = Inr db' \<Longrightarrow> aged db db'"
  by (auto simp: revoke_current_identity_sessions_def split: option.splits if_splits)

lemma revoke_sessions_aged: "revoke_sessions dis digest now dbnow cookie db = Inr db' \<Longrightarrow> aged db db'"
  unfolding revoke_sessions_def by (auto dest!: aged_resolved revoke_current_aged intro: aged_trans)

lemma request_aged:
  "request_password_reset n w digest free now host email i token lim db = (Inr db', lim') \<Longrightarrow> aged db db'"
  by (auto simp: request_password_reset_def Let_def split: prod.splits if_splits option.splits)

lemma complete_aged: "complete_password_reset dbnow h i who version new_hash db = (Some w, db') \<Longrightarrow> aged db db'"
  by (auto simp: complete_password_reset_def split: option.splits if_splits)

lemma enroll_aged: "enroll_totp dis digest enc now cookie i secret db = Inr db' \<Longrightarrow> aged db db'"
  unfolding enroll_totp_def by (auto dest!: aged_resolved split: if_splits)

lemma codes_aged: "regenerate_recovery_codes dis digest now cookie b codes db = Inr db' \<Longrightarrow> aged db db'"
  unfolding regenerate_recovery_codes_def
  by (auto dest!: aged_resolved simp: store_recovery_codes_def split: if_splits option.splits)

lemma confirm_totp_Inr:
  assumes "confirm_totp n w dis digest verify decrypt now host cookie c code i token b codes lim db = (Inr (r, db'), lim')"
  shows "\<exists>p db1 cred. resolved dis digest now True cookie db = Inr (p, db1)
    \<and> pending_credential db1 (pp_identity p) c = Some cred
    \<and> now \<le> mc_created_at cred + ENROLLMENT_LIFETIME \<and> verify (decrypt (mc_ciphertext cred)) code now = Inr True
    \<and> rotate_session digest i token p now
        (store_recovery_codes digest b codes (pp_identity p) c (activate_credential now (pp_identity p) c db1))
      = Inr (r, db')"
  using assms
  by (auto simp: confirm_totp_def Let_def not_less split: sum.splits prod.splits if_splits option.splits)

lemma confirm_evolves:
  assumes "confirm_totp n w dis digest verify decrypt now host cookie c code i token b codes lim db = (Inr (r, db'), lim')"
    and "fresh_session digest i token db"
  shows "evolves digest verify decrypt db db'"
proof -
  obtain p db1 cred where run: "resolved dis digest now True cookie db = Inr (p, db1)"
      "pending_credential db1 (pp_identity p) c = Some cred" "verify (decrypt (mc_ciphertext cred)) code now = Inr True"
      and late: "now \<le> mc_created_at cred + ENROLLMENT_LIFETIME"
      and rot: "rotate_session digest i token p now
        (store_recovery_codes digest b codes (pp_identity p) c (activate_credential now (pp_identity p) c db1))
      = Inr (r, db')"
    using confirm_totp_Inr [OF assms(1)] by blast
  have "cred \<in> set (credentials db)" "mc_id cred = c" "mc_identity cred = pp_identity p" "mc_status cred = ''pending''"
    using run(2) resolved_fields [OF run(1)] by (auto simp: pending_credential_def find_Some_iff)
  with run(3) late assms(1) have "confirmed_with_code digest verify decrypt now (pp_identity p) db db'"
    unfolding confirmed_with_code_def by blast
  then have "factor_presented digest verify decrypt now (pp_identity p) db db'" by (simp add: factor_presented_def)
  moreover have "aged db (store_recovery_codes digest b codes (pp_identity p) c
      (activate_credential now (pp_identity p) c db1))"
    using aged_resolved [OF run(1)] by (simp add: store_recovery_codes_def activate_credential_def)
  ultimately show ?thesis using rotate_evolves [OF rot _ assms(2)] by blast
qed

lemma active_credential_mem:
  "active_credential db who = Some c \<Longrightarrow> c \<in> set (credentials db) \<and> mc_identity c = who \<and> mc_status c = ''active''"
proof -
  assume a: "active_credential db who = Some c"
  let ?xs = "filter (\<lambda>c. mc_identity c = who \<and> mc_status c = ''active'') (credentials db)"
  obtain x xs where "?xs = x # xs" "c = max_key latest_key x xs"
    using a by (auto simp: active_credential_def split: list.splits)
  then have "c \<in> set ?xs" using max_key_mem [of latest_key x xs] by simp
  then show ?thesis by simp
qed

lemma challenge_mfa_Inr:
  assumes "challenge_mfa n w dis digest verify decrypt now host cookie code rec i token lim db = (Inr (r, db'), lim')"
  shows "\<exists>p db1 c db2. resolved dis digest now True cookie db = Inr (p, db1)
    \<and> active_credential db1 (pp_identity p) = Some c
    \<and> check_factor digest verify decrypt now (pp_identity p) (Some c) code rec db1 = Inr (True, db2)
    \<and> rotate_session digest i token p now
        (db2\<lparr>credentials := update_where (\<lambda>x. mc_id x = mc_id c) (mc_last_used_at_update (\<lambda>_. Some now))
               (credentials db2)\<rparr>) = Inr (r, db')"
  using assms
  by (auto simp: challenge_mfa_def Let_def split: sum.splits prod.splits if_splits option.splits)

lemma check_factor_Inr:
  assumes "check_factor digest verify decrypt now who (Some c) code rec db = Inr (True, db')"
  shows "aged db db' \<and> ((\<exists>x. code = Some x \<and> verify (decrypt (mc_ciphertext c)) x now = Inr True)
    \<or> (\<exists>x. rec = Some x \<and> (\<exists>r \<in> set (recovery_codes db). code_unused who (mc_id c) (digest x) r)
         \<and> recovery_codes db' = update_where (code_unused who (mc_id c) (digest x)) (rc_used_at_update (\<lambda>_. Some now)) (recovery_codes db)))"
  using assms
  by (auto simp: check_factor_def Let_def list_ex_iff split: option.splits list.splits sum.splits)

lemma rotate_codes: "rotate_session digest i token p now mid = Inr (r, db') \<Longrightarrow> recovery_codes db' = recovery_codes mid"
  unfolding rotate_session_def by (auto dest!: issue_session_Inr)

lemma challenge_evolves:
  assumes "challenge_mfa n w dis digest verify decrypt now host cookie code rec i token lim db = (Inr (r, db'), lim')"
    and "fresh_session digest i token db"
  shows "evolves digest verify decrypt db db'"
proof -
  obtain p db1 c db2 where run: "resolved dis digest now True cookie db = Inr (p, db1)"
      "active_credential db1 (pp_identity p) = Some c"
      "check_factor digest verify decrypt now (pp_identity p) (Some c) code rec db1 = Inr (True, db2)"
      "rotate_session digest i token p now
        (db2\<lparr>credentials := update_where (\<lambda>x. mc_id x = mc_id c) (mc_last_used_at_update (\<lambda>_. Some now))
               (credentials db2)\<rparr>) = Inr (r, db')"
    using challenge_mfa_Inr [OF assms(1)] by blast
  note c = active_credential_mem [OF run(2)] and f = check_factor_Inr [OF run(3)] and t = resolved_fields [OF run(1)]
  have "factor_presented digest verify decrypt now (pp_identity p) db db'"
  proof -
    from f consider (code) x where "code = Some x" "verify (decrypt (mc_ciphertext c)) x now = Inr True"
      | (recovery) x where "rec = Some x" "\<exists>r \<in> set (recovery_codes db1). code_unused (pp_identity p) (mc_id c) (digest x) r"
        "recovery_codes db2 = update_where (code_unused (pp_identity p) (mc_id c) (digest x)) (rc_used_at_update (\<lambda>_. Some now)) (recovery_codes db1)"
      by blast
    then show ?thesis
    proof cases
      case code
      then have "challenged_with_code digest verify decrypt now (pp_identity p) db db'"
        using assms(1) c t unfolding challenged_with_code_def by metis
      then show ?thesis by (simp add: factor_presented_def)
    next
      case recovery
      have "recovery_codes db' = recovery_codes db2" using rotate_codes [OF run(4)] by simp
      then have "\<forall>x' \<in> set (recovery_codes db'). rc_identity x' = pp_identity p \<and> rc_credential x' = mc_id c
          \<and> rc_hash x' = digest x \<longrightarrow> rc_used_at x' \<noteq> None"
        unfolding recovery(3) by (auto simp: update_where_def code_unused_def)
      moreover have "\<exists>x' \<in> set (recovery_codes db). rc_identity x' = pp_identity p \<and> rc_credential x' = mc_id c
          \<and> rc_hash x' = digest x \<and> rc_used_at x' = None"
        using recovery(2) t by (simp add: code_unused_def)
      ultimately have "challenged_with_recovery digest verify decrypt now (pp_identity p) db db'"
        using assms(1) c t recovery(1) unfolding challenged_with_recovery_def by metis
      then show ?thesis by (simp add: factor_presented_def)
    qed
  qed
  moreover have "aged db (db2\<lparr>credentials := update_where (\<lambda>x. mc_id x = mc_id c)
      (mc_last_used_at_update (\<lambda>_. Some now)) (credentials db2)\<rparr>)"
    using aged_trans [OF aged_resolved [OF run(1)]] f by simp
  ultimately show ?thesis using rotate_evolves [OF run(4) _ assms(2)] by blast
qed

lemma erase_aged: "aged db (erase_mfa dbnow target db)"
  by (simp add: erase_mfa_def)

lemma organization_administrator_Inr:
  assumes "organization_administrator dis digest now cookie org target db = Inr (p, db1)"
  shows "resolved dis digest now False cookie db = Inr (p, db1) \<and> (dis \<or> has_recent_mfa p now)
    \<and> lower_level_target db1 org (pp_identity p) target"
proof -
  obtain x where x: "resolved dis digest now False cookie db = Inr x"
    using assms by (cases "resolved dis digest now False cookie db") (auto simp: organization_administrator_def)
  obtain p' db' where "x = (p', db')" by (cases x)
  with assms x show ?thesis
    by (cases "require_recent_mfa dis now p'")
      (auto simp: organization_administrator_def require_recent_mfa_def split: if_splits)
qed

lemma member_reset_Inr:
  assumes "organization_mfa_reset dis digest now dbnow cookie org target db = Inr db'"
  shows "\<exists>p db1. organization_administrator dis digest now cookie org target db = Inr (p, db1)
    \<and> reset_mfa_as_organization_administrator dbnow (pp_token_hash p) target org db1 = (True, db')"
proof -
  obtain x where x: "organization_administrator dis digest now cookie org target db = Inr x"
    using assms
    by (cases "organization_administrator dis digest now cookie org target db") (auto simp: organization_mfa_reset_def)
  then show ?thesis using assms
    by (cases x) (auto simp: organization_mfa_reset_def split: prod.splits bool.splits)
qed

lemma reset_member_aged:
  assumes "reset_mfa_as_organization_administrator dbnow h target org db = (b, db')"
  shows "aged db db'"
proof (cases "session_row db h")
  case (Some x)
  obtain s g where "x = (s, g)" by (cases x)
  with Some assms erase_aged [of db dbnow target] show ?thesis
    by (auto simp: reset_mfa_as_organization_administrator_def split: if_splits)
qed (use assms in \<open>simp add: reset_mfa_as_organization_administrator_def\<close>)

lemma member_reset_aged:
  assumes "organization_mfa_reset dis digest now dbnow cookie org target db = Inr db'"
  shows "aged db db'"
  using member_reset_Inr [OF assms] organization_administrator_Inr aged_resolved reset_member_aged aged_trans
  by metis

lemma record_fields [simp]:
  "sessions (record_organization org ev db) = sessions db"
  "a_org (record_organization org ev db) = a_org db"
  "reset_tokens (record_organization org ev db) = reset_tokens db"
  "sessions (record_platform ev db) = sessions db"
  "a_org (record_platform ev db) = a_org db"
  "reset_tokens (record_platform ev db) = reset_tokens db"
  by (simp_all add: record_organization_def record_platform_def)

lemma aged_record [simp]:
  "aged db (record_organization org ev db') \<longleftrightarrow> aged db db'"
  "aged db (record_platform ev db') \<longleftrightarrow> aged db db'"
  by (simp_all add: aged_def)

text \<open>The two wrappers: a refusal leaves the tables apart from an event, a success ran the handler.\<close>

lemma denied_not_allowed [simp]: "denied_or_failed e \<noteq> ''allowed''"
  by (simp add: denied_or_failed_def split: http_error.split)

lemma require_mfa_Inr: "require_recent_mfa dis now p = Inr q \<Longrightarrow> q = p \<and> (dis \<or> has_recent_mfa p now)"
  by (simp add: require_recent_mfa_def split: if_splits)

lemma organization_mutation_cases [consumes 0, case_names refused performed]:
  obtains (refused) e actor db1 where
      "organization_mutation dis digest now cookie corr org i token q db = refuse_organization org corr q actor e db1"
      "db1 = db \<or> (\<exists>p. resolved dis digest now False cookie db = Inr (p, db1))"
  | (performed) p db1 target summary o' where
      "resolved dis digest now False cookie db = Inr (p, db1)" "dis \<or> has_recent_mfa p now"
      "authorize (a_org db1) now (pp_identity p) org = Inr ()"
      "perform digest now i token (pp_identity p) org q (a_org db1) = Inr ((target, summary), o')"
      "organization_mutation dis digest now cookie corr org i token q db
        = (Inr (), db1\<lparr>a_org := o', audit_events := audit_events db1 @
             [organization_event org corr q (Some (pp_identity p)) target ''allowed'' summary]\<rparr>)"
proof (cases "resolved dis digest now False cookie db")
  case (Inl e)
  then show ?thesis by (intro refused [of None e db]) (simp_all add: organization_mutation_def)
next
  case (Inr x)
  then obtain p db1 where run: "resolved dis digest now False cookie db = Inr (p, db1)" by (cases x) auto
  show ?thesis
  proof (cases "require_recent_mfa dis now p")
    case (Inl e)
    with run show ?thesis by (intro refused [of "Some (pp_identity p)" e db1]) (simp_all add: organization_mutation_def)
  next
    case mfa: (Inr y)
    show ?thesis
    proof (cases "authorize (a_org db1) now (pp_identity p) org")
      case (Inl e)
      with run mfa show ?thesis
        by (intro refused [of "Some (pp_identity p)" e db1]) (simp_all add: organization_mutation_def)
    next
      case a: (Inr z)
      show ?thesis
      proof (cases "perform digest now i token (pp_identity p) org q (a_org db1)")
        case (Inl e)
        with run mfa a show ?thesis
          by (intro refused [of "Some (pp_identity p)" e db1]) (simp_all add: organization_mutation_def)
      next
        case (Inr r)
        obtain target summary o' where "r = ((target, summary), o')" by (metis prod.exhaust)
        with run mfa a Inr require_mfa_Inr [OF mfa] show ?thesis
          by (intro performed [of p db1 target summary o']) (simp_all add: organization_mutation_def)
      qed
    qed
  qed
qed

lemma organization_mutation_aged:
  assumes "organization_mutation dis digest now cookie corr org i token q db = (outcome, db')"
  shows "aged db db'"
  using assms aged_resolved
  by (cases rule: organization_mutation_cases [of dis digest now cookie corr org i token q db])
    (auto simp: refuse_organization_def)

lemma platform_mutation_cases [consumes 0, case_names refused performed]:
  obtains (refused) e actor db1 where
      "platform_mutation dis fingerprint digest now dbnow cookie corr fo fi token q db = refuse_platform corr q actor e db1"
      "db1 = db \<or> (\<exists>p. resolved dis digest now False cookie db = Inr (p, db1))"
  | (performed) p db1 described db2 where
      "resolved dis digest now False cookie db = Inr (p, db1)" "dis \<or> has_recent_mfa p now"
      "platform_administrator db1 p = Inr p"
      "perform_platform fingerprint digest now dbnow corr fo fi token p q db1 = Inr (described, db2)"
      "platform_mutation dis fingerprint digest now dbnow cookie corr fo fi token q db
        = (Inr (), case described of None \<Rightarrow> db2
             | Some (target, summary) \<Rightarrow>
                 record_platform (platform_event corr q (Some (pp_identity p)) target ''allowed'' summary) db2)"
proof (cases "resolved dis digest now False cookie db")
  case (Inl e)
  then show ?thesis by (intro refused [of None e db]) (simp_all add: platform_mutation_def)
next
  case (Inr x)
  then obtain p db1 where run: "resolved dis digest now False cookie db = Inr (p, db1)" by (cases x) auto
  show ?thesis
  proof (cases "require_recent_mfa dis now p")
    case (Inl e)
    with run show ?thesis by (intro refused [of "Some (pp_identity p)" e db1]) (simp_all add: platform_mutation_def)
  next
    case mfa: (Inr y)
    show ?thesis
    proof (cases "platform_administrator db1 p")
      case (Inl e)
      with run mfa show ?thesis
        by (intro refused [of "Some (pp_identity p)" e db1]) (simp_all add: platform_mutation_def)
    next
      case a: (Inr z)
      then have "z = p" by (simp add: platform_administrator_def split: if_splits)
      show ?thesis
      proof (cases "perform_platform fingerprint digest now dbnow corr fo fi token p q db1")
        case (Inl e)
        with run mfa a show ?thesis
          by (intro refused [of "Some (pp_identity p)" e db1]) (simp_all add: platform_mutation_def)
      next
        case (Inr r)
        obtain described db2 where "r = (described, db2)" by (cases r)
        with run mfa a Inr require_mfa_Inr [OF mfa] \<open>z = p\<close> show ?thesis
          by (intro performed [of p db1 described db2]) (simp_all add: platform_mutation_def)
      qed
    qed
  qed
qed

lemma perform_platform_aged:
  "perform_platform fingerprint digest now dbnow corr fo fi token p q db = Inr (d, db') \<Longrightarrow> aged db db'"
proof (cases q)
  case (Open_organization key body)
  assume a: "perform_platform fingerprint digest now dbnow corr fo fi token p q db = Inr (d, db')"
  show ?thesis
  proof (cases body)
    case (Some offer)
    with a Open_organization show ?thesis
      by (cases "open_organization fingerprint digest now fo fi token (pp_identity p) key offer (a_org db)")
        (auto split: if_splits)
  qed (use a Open_organization in simp)
next
  case (Set_status target active)
  assume "perform_platform fingerprint digest now dbnow corr fo fi token p q db = Inr (d, db')"
  with Set_status show ?thesis
    by (cases target;
        cases "set_organization_status now (the target) (if active then ''active'' else ''suspended'') (a_org db)")
      (auto simp: on_organizations_def)
next
  case (Set_expiry target body)
  assume "perform_platform fingerprint digest now dbnow corr fo fi token p q db = Inr (d, db')"
  with Set_expiry show ?thesis
    by (cases target; cases body; cases "set_organization_expiry (the target) (the body) (a_org db)")
      (auto simp: on_organizations_def)
next
  case (Reset_mfa target)
  assume "perform_platform fingerprint digest now dbnow corr fo fi token p q db = Inr (d, db')"
  with Reset_mfa show ?thesis
    by (cases target)
      (auto simp: reset_mfa_as_platform_administrator_def erase_aged split: if_splits)
qed

lemma platform_mutation_aged:
  assumes "platform_mutation dis fingerprint digest now dbnow cookie corr fo fi token q db = (outcome, db')"
  shows "aged db db'"
proof (cases rule: platform_mutation_cases [of dis fingerprint digest now dbnow cookie corr fo fi token q db])
  case (refused e actor db1)
  with assms show ?thesis by (auto simp: refuse_platform_def dest: aged_resolved)
next
  case (performed p db1 described db2)
  then have "aged db db2" using aged_trans [OF aged_resolved perform_platform_aged] by blast
  with performed assms show ?thesis by (auto split: option.splits)
qed

lemma step_evolves:
  assumes "auth_step digest verify decrypt db db'"
  shows "evolves digest verify decrypt db db'"
  using assms
  by (cases rule: auth_step.cases)
    (blast intro: aged_resolved login_evolves logout_aged revoke_sessions_aged request_aged complete_aged
      enroll_aged confirm_evolves challenge_evolves codes_aged member_reset_aged organization_mutation_aged
      platform_mutation_aged evolves_aged, (simp add: aged_same evolves_aged)?)+

section \<open>How identities and reset tokens evolve\<close>

text \<open>Most steps leave the identities and the reset tokens alone.\<close>

definition aside :: "auth_db \<Rightarrow> auth_db \<Rightarrow> bool" where
  "aside db db' \<longleftrightarrow> identities (a_org db') = identities (a_org db) \<and> reset_tokens db' = reset_tokens db"

lemma aside_refl [simp, intro]: "aside db db"
  by (simp add: aside_def)

lemma aside_resolved: "resolved dis digest now lock cookie db = Inr (p, db') \<Longrightarrow> aside db db'"
  using resolved_fields by (fastforce simp: aside_def)

lemma aside_issue: "issue_session digest i token who version now mfa db = Inr (r, db') \<Longrightarrow> aside db db'"
  using issue_session_Inr by (fastforce simp: aside_def)

lemma aside_rotate: "rotate_session digest i token p now db = Inr (r, db') \<Longrightarrow> aside db db'"
  unfolding rotate_session_def using aside_issue by (fastforce simp: aside_def)

lemma aside_presented: "aside db (revoke_valid_presented_session digest now cookie db)"
  by (auto simp: revoke_valid_presented_session_def aside_def split: option.splits)

lemma aside_login:
  assumes "login_commit digest now cookie i token row db = Inr (r, db')"
  shows "aside db db'"
proof -
  have "issue_session digest i token (gi_id row) (gi_security_version row) now None
      (revoke_valid_presented_session digest now cookie db) = Inr (r, db')"
    using assms by (auto simp: login_commit_def split: option.splits if_splits)
  from aside_issue [OF this] aside_presented [of db digest now cookie] show ?thesis by (simp add: aside_def)
qed

lemma aside_logout: "logout dis digest now cookie db = Inr db' \<Longrightarrow> aside db db'"
  unfolding logout_def by (auto dest!: aside_resolved simp: aside_def)

lemma aside_revoke_current: "revoke_current_identity_sessions dbnow h who db = Inr db' \<Longrightarrow> aside db db'"
  by (auto simp: revoke_current_identity_sessions_def aside_def split: option.splits if_splits)

lemma aside_revoke_sessions: "revoke_sessions dis digest now dbnow cookie db = Inr db' \<Longrightarrow> aside db db'"
  unfolding revoke_sessions_def by (auto dest!: aside_resolved aside_revoke_current simp: aside_def)

lemma aside_enroll: "enroll_totp dis digest enc now cookie i secret db = Inr db' \<Longrightarrow> aside db db'"
  unfolding enroll_totp_def by (auto dest!: aside_resolved simp: aside_def split: if_splits)

lemma aside_codes: "regenerate_recovery_codes dis digest now cookie b codes db = Inr db' \<Longrightarrow> aside db db'"
  unfolding regenerate_recovery_codes_def
  by (auto dest!: aside_resolved simp: aside_def store_recovery_codes_def split: if_splits option.splits)

lemma aside_confirm:
  assumes "confirm_totp n w dis digest verify decrypt now host cookie c code i token b codes lim db = (Inr (r, db'), lim')"
  shows "aside db db'"
proof -
  obtain p db1 where run: "resolved dis digest now True cookie db = Inr (p, db1)"
      "rotate_session digest i token p now
        (store_recovery_codes digest b codes (pp_identity p) c (activate_credential now (pp_identity p) c db1))
      = Inr (r, db')"
    using confirm_totp_Inr [OF assms] by blast
  from aside_resolved [OF run(1)] aside_rotate [OF run(2)] show ?thesis
    by (simp add: aside_def store_recovery_codes_def activate_credential_def)
qed

lemma check_factor_aside:
  "check_factor digest verify decrypt now who (Some c) code rec db = Inr (True, db') \<Longrightarrow> aside db db'"
  by (auto simp: check_factor_def Let_def aside_def split: option.splits list.splits sum.splits)

lemma aside_challenge:
  assumes "challenge_mfa n w dis digest verify decrypt now host cookie code rec i token lim db = (Inr (r, db'), lim')"
  shows "aside db db'"
proof -
  obtain p db1 c db2 where run: "resolved dis digest now True cookie db = Inr (p, db1)"
      "check_factor digest verify decrypt now (pp_identity p) (Some c) code rec db1 = Inr (True, db2)"
      "rotate_session digest i token p now
        (db2\<lparr>credentials := update_where (\<lambda>x. mc_id x = mc_id c) (mc_last_used_at_update (\<lambda>_. Some now))
               (credentials db2)\<rparr>) = Inr (r, db')"
    using challenge_mfa_Inr [OF assms] by blast
  from aside_resolved [OF run(1)] check_factor_aside [OF run(2)] aside_rotate [OF run(3)] show ?thesis
    by (simp add: aside_def)
qed

lemma aside_erase: "aside db (erase_mfa dbnow target db)"
  by (simp add: erase_mfa_def aside_def)

lemma aside_member_reset:
  assumes "organization_mfa_reset dis digest now dbnow cookie org target db = Inr db'"
  shows "aside db db'"
proof -
  obtain p db1 where run: "resolved dis digest now False cookie db = Inr (p, db1)"
      "reset_mfa_as_organization_administrator dbnow (pp_token_hash p) target org db1 = (True, db')"
    using member_reset_Inr [OF assms] organization_administrator_Inr by blast
  have "aside db1 db'" using run(2) aside_erase [of db1 dbnow target]
    by (cases "session_row db1 (pp_token_hash p)")
      (auto simp: reset_mfa_as_organization_administrator_def aside_def split: if_splits)
  with aside_resolved [OF run(1)] show ?thesis by (simp add: aside_def)
qed

lemma create_locked_identities:
  "create_locked digest now fresh token actor org email role db = Inr (iv, db') \<Longrightarrow> identities db' = identities db"
  using create_locked_Inr by (fastforce simp: expire_pending_def)

lemma resend_identities:
  assumes "resend_invitation digest now fresh token actor org i db = Inr (iv, db')"
  shows "identities db' = identities db"
proof -
  obtain f and old :: invitation where
    "create_locked digest now fresh token actor org (iv_email old) (iv_role old) (update_invitation org i f db) = Inr (iv, db')"
    using resend_invitation_Inr [OF assms] by blast
  from create_locked_identities [OF this] show ?thesis by (simp add: update_invitation_def)
qed

lemma member_operation_identities:
  "set_role org actor i role db = Inr db' \<Longrightarrow> identities db' = identities db"
  "set_member_status org actor i transition db = Inr db' \<Longrightarrow> identities db' = identities db"
  using member_operation_tables by (fastforce simp: update_membership_def)+

lemma revoke_identities: "revoke_invitation now org i db = Inr db' \<Longrightarrow> identities db' = identities db"
  using revoke_invitation_Inr by (fastforce simp: update_invitation_def)

lemma perform_identities:
  "perform digest now fresh token actor org q db = Inr (d, db') \<Longrightarrow> identities db' = identities db"
  by (cases q)
    (auto split: option.splits dest!: create_invitation_Inr create_locked_identities resend_identities
      member_operation_identities revoke_identities)

lemma set_organization_identities:
  "set_organization_status now org status db = Inr db' \<Longrightarrow> identities db' = identities db"
  "set_organization_expiry org expires db = Inr db' \<Longrightarrow> identities db' = identities db"
  by (auto simp: set_organization_status_def set_organization_expiry_def split: option.splits if_splits)

lemma open_organization_identities:
  "open_organization fingerprint digest now fo fi token actor key offer db = Inr (r, db') \<Longrightarrow>
     identities db' = identities db"
  by (auto simp: open_organization_def split: option.splits if_splits)

lemma aside_organization:
  assumes "organization_mutation dis digest now cookie corr org i token q db = (outcome, db')"
  shows "aside db db'"
proof (cases rule: organization_mutation_cases [of dis digest now cookie corr org i token q db])
  case (refused e actor db1)
  with assms show ?thesis by (auto simp: refuse_organization_def aside_def dest!: aside_resolved)
next
  case (performed p db1 target summary o')
  then show ?thesis using assms aside_resolved [OF performed(1)] perform_identities [OF performed(4)]
    by (auto simp: aside_def)
qed

lemma aside_perform_platform:
  assumes run: "perform_platform fingerprint digest now dbnow corr fo fi token p q db = Inr (d, db')"
  shows "aside db db'"
proof (cases q)
  case (Open_organization key body)
  show ?thesis
  proof (cases body)
    case (Some offer)
    with run Open_organization show ?thesis
      by (cases "open_organization fingerprint digest now fo fi token (pp_identity p) key offer (a_org db)")
        (auto simp: aside_def dest: open_organization_identities split: if_splits)
  qed (use run Open_organization in simp)
next
  case (Set_status target active)
  with run show ?thesis
    by (cases target;
        cases "set_organization_status now (the target) (if active then ''active'' else ''suspended'') (a_org db)")
      (auto simp: on_organizations_def aside_def dest: set_organization_identities)
next
  case (Set_expiry target body)
  with run show ?thesis
    by (cases target; cases body; cases "set_organization_expiry (the target) (the body) (a_org db)")
      (auto simp: on_organizations_def aside_def dest: set_organization_identities)
next
  case (Reset_mfa target)
  with run aside_erase show ?thesis
    by (cases target) (auto simp: reset_mfa_as_platform_administrator_def aside_def erase_mfa_def split: if_splits)
qed

lemma aside_platform:
  assumes "platform_mutation dis fingerprint digest now dbnow cookie corr fo fi token q db = (outcome, db')"
  shows "aside db db'"
proof (cases rule: platform_mutation_cases [of dis fingerprint digest now dbnow cookie corr fo fi token q db])
  case (refused e actor db1)
  with assms show ?thesis by (auto simp: refuse_platform_def aside_def dest!: aside_resolved)
next
  case (performed p db1 described db2)
  have "aside db db2" using aside_resolved [OF performed(1)] aside_perform_platform [OF performed(4)]
    by (simp add: aside_def)
  with performed assms show ?thesis by (auto simp: aside_def split: option.splits)
qed

end
