(* ===== verification/AuthGuarantees.thy ===== *)
theory AuthGuarantees
  imports AuthSafety
begin

text \<open>
  The guarantees of authentication over every run of the handlers: a session that has ended never works
  again, a password reset locks out everything that came before it, a session counts as verified by a
  second factor only if that factor was checked, and every privileged mutation is authorized and audited.
\<close>

section \<open>Security versions and reset tokens\<close>

definition versions_grow :: "auth_db \<Rightarrow> auth_db \<Rightarrow> bool" where
  "versions_grow db db' \<longleftrightarrow> (\<forall>i g. identity_of db i = Some g \<longrightarrow>
     (\<exists>g'. identity_of db' i = Some g' \<and> gi_security_version g \<le> gi_security_version g'))"

definition spent :: "auth_db \<Rightarrow> string \<Rightarrow> bool" where
  "spent db i \<longleftrightarrow> i \<in> rt_id ` set (reset_tokens db) \<and> (\<forall>t \<in> set (reset_tokens db). rt_id t = i \<longrightarrow> rt_used_at t \<noteq> None)"

definition secrets_age :: "auth_db \<Rightarrow> auth_db \<Rightarrow> bool" where
  "secrets_age db db' \<longleftrightarrow> versions_grow db db' \<and> (\<forall>i. spent db i \<longrightarrow> spent db' i)"

lemma secrets_age_refl: "secrets_age db db"
  by (simp add: secrets_age_def versions_grow_def)

lemma secrets_age_trans: "secrets_age a b \<Longrightarrow> secrets_age b c \<Longrightarrow> secrets_age a c"
  unfolding secrets_age_def versions_grow_def by (meson order_trans)

lemma aside_secrets: "aside db db' \<Longrightarrow> secrets_age db db'"
  by (auto simp: aside_def secrets_age_def versions_grow_def spent_def identity_of_def)

lemma find_SomeD: "find P xs = Some x \<Longrightarrow> x \<in> set xs \<and> P x"
  by (auto simp: find_Some_iff)

lemma find_map_key:
  "(\<And>x. P (f x) = P x) \<Longrightarrow> find P (map f xs) = map_option f (find P xs)"
  by (induction xs) auto

lemma find_update_where:
  assumes "\<And>x. P (f x) = P x"
  shows "find P (update_where Q f xs) = map_option (\<lambda>x. if Q x then f x else x) (find P xs)"
  unfolding update_where_def by (rule find_map_key) (simp add: assms)

lemma request_secrets:
  assumes "request_password_reset n w digest free now host email i token lim db = (Inr db', lim')"
    and "i \<notin> rt_id ` set (reset_tokens db)"
  shows "secrets_age db db'"
proof (cases "db' = db")
  case False
  then obtain g :: identity where db': "db' = db\<lparr>reset_tokens :=
      update_where (\<lambda>t. rt_identity t = gi_id g \<and> rt_used_at t = None) (rt_used_at_update (\<lambda>_. Some now)) (reset_tokens db)
      @ [\<lparr>rt_id = i, rt_identity = gi_id g, rt_hash = digest token, rt_expires_at = now + RESET_LIFETIME,
          rt_used_at = None\<rparr>]\<rparr>"
    using assms(1) by (auto simp: request_password_reset_def Let_def split: prod.splits if_splits option.splits)
  have "spent db' j" if "spent db j" for j
    using that assms(2) unfolding spent_def db' update_where_def by (auto simp: image_iff)
  then show ?thesis by (simp add: secrets_age_def versions_grow_def db' identity_of_def)
qed (simp add: secrets_age_refl)

lemma complete_Inr:
  assumes "complete_password_reset dbnow h i who version new_hash db = (Some w, db')"
  shows "\<exists>(t :: reset_token) g. t \<in> set (reset_tokens db) \<and> rt_id t = i \<and> token_usable dbnow h t \<and> rt_identity t = who \<and> w = who
    \<and> identity_of db who = Some g \<and> gi_status g = ''active'' \<and> gi_security_version g = version
    \<and> sessions db' = sessions (revoke_all_of dbnow who db)
    \<and> reset_tokens db' = update_where (\<lambda>t. rt_id t = i) (rt_used_at_update (\<lambda>_. Some dbnow)) (reset_tokens db)
    \<and> identities (a_org db') = update_where (\<lambda>g. gi_id g = who \<and> gi_status g = ''active'' \<and> gi_security_version g = version)
        (\<lambda>g. g\<lparr>gi_password_hash := Some new_hash, gi_security_version := gi_security_version g + 1\<rparr>)
        (identities (a_org db))"
  using assms by (auto simp: complete_password_reset_def dest!: find_SomeD split: option.splits if_splits)

lemma complete_secrets:
  assumes "complete_password_reset dbnow h i who version new_hash db = (Some w, db')"
  shows "secrets_age db db' \<and> spent db' i
    \<and> (\<exists>g. identity_of db' who = Some g \<and> gi_security_version g = version + 1)"
proof -
  note c = complete_Inr [OF assms]
  let ?f = "\<lambda>g. g\<lparr>gi_password_hash := Some new_hash, gi_security_version := gi_security_version g + 1\<rparr>"
  let ?P = "\<lambda>g. gi_id g = who \<and> gi_status g = ''active'' \<and> gi_security_version g = version"
  have id: "identity_of db' j = map_option (\<lambda>g. if ?P g then ?f g else g) (identity_of db j)" for j
  proof -
    have "identities (a_org db') = update_where ?P ?f (identities (a_org db))" using c by blast
    then show ?thesis unfolding identity_of_def by (simp only:) (rule find_update_where, simp)
  qed
  have "versions_grow db db'" by (auto simp: versions_grow_def id)
  moreover have "spent db' j" if "spent db j \<or> j = i" for j
  proof -
    have t: "reset_tokens db' = update_where (\<lambda>t. rt_id t = i) (rt_used_at_update (\<lambda>_. Some dbnow)) (reset_tokens db)"
      and "i \<in> rt_id ` set (reset_tokens db)" using c by blast+
    moreover have "rt_id ` set (reset_tokens db') = rt_id ` set (reset_tokens db)"
      using arg_cong [OF map_update_where [of rt_id "rt_used_at_update (\<lambda>_. Some dbnow)"], of set]
      by (simp add: t)
    ultimately show ?thesis using that by (auto simp: spent_def update_where_def)
  qed
  moreover have "\<exists>g. identity_of db' who = Some g \<and> gi_security_version g = version + 1"
  proof -
    obtain g where g: "identity_of db who = Some g" "gi_status g = ''active''" "gi_security_version g = version"
      using c by blast
    moreover from g(1) have "gi_id g = who" by (simp add: identity_of_def find_Some_iff) blast
    ultimately show ?thesis by (simp add: id)
  qed
  ultimately show ?thesis by (simp add: secrets_age_def)
qed

lemma join_secrets:
  assumes "accept_invitation now i fm org iv h name pw (a_org db) = Inr o'"
  shows "secrets_age db (db\<lparr>a_org := o'\<rparr>)"
proof -
  have "\<exists>more. identities o' = identities (a_org db) @ more"
  proof -
    obtain x :: invitation and who db1 db2 where run: "accepting_identity i (iv_email x) name pw (a_org db) = Inr (who, db1)"
        "join_organization fm org who (iv_role x) db1 = Inr db2"
        "o' = update_invitation org iv (\<lambda>x. x\<lparr>iv_status := ''accepted'', iv_accepted_at := Some now\<rparr>) db2"
      using accept_invitation_Inr [OF assms] by blast
    have "\<exists>more. identities db1 = identities (a_org db) @ more"
      using run(1) by (auto simp: accepting_identity_def Let_def split: option.splits if_splits)
    moreover have "identities db2 = identities db1"
      using run(2) by (auto simp: join_organization_def update_membership_def split: option.splits if_splits)
    ultimately show ?thesis by (simp add: run(3) update_invitation_def)
  qed
  then show ?thesis
    by (auto simp: secrets_age_def versions_grow_def spent_def identity_of_def find_append)
qed

lemma step_secrets: "auth_step digest verify decrypt db db' \<Longrightarrow> secrets_age db db'"
  by (cases rule: auth_step.cases)
    (blast intro: aside_secrets aside_resolved aside_login aside_logout aside_revoke_sessions request_secrets
      aside_enroll aside_confirm aside_challenge aside_codes aside_member_reset aside_organization
      aside_platform join_secrets dest: complete_secrets)+

lemma reaches_secrets: "auth_reaches digest verify decrypt db db' \<Longrightarrow> secrets_age db db'"
  by (induction rule: rtranclp_induct) (blast intro: secrets_age_refl secrets_age_trans step_secrets)+

section \<open>Sessions that have ended\<close>

definition bearer :: "auth_db \<Rightarrow> string \<Rightarrow> user_session option" where
  "bearer db h = find (\<lambda>s. ss_token_hash s = h) (sessions db)"

definition ended :: "auth_db \<Rightarrow> string \<Rightarrow> bool" where
  "ended db h \<longleftrightarrow> (case bearer db h of None \<Rightarrow> False | Some s \<Rightarrow> ss_revoked_at s \<noteq> None)"

lemma aged_bearer:
  assumes "aged db db'" and "bearer db h = Some s"
  shows "\<exists>f. ageing f \<and> bearer db' h = Some (f s)"
proof -
  obtain f where "ageing f" "sessions db' = map f (sessions db)" using assms(1) by (auto simp: aged_def)
  then show ?thesis using assms(2) by (auto simp: bearer_def find_map_key ageing_def)
qed

lemma aged_ended: "aged db db' \<Longrightarrow> ended db h \<Longrightarrow> ended db' h"
  using aged_bearer by (fastforce simp: ended_def ageing_def split: option.splits)

lemma evolves_ended:
  assumes "evolves digest verify decrypt db db'" and "ended db h"
  shows "ended db' h"
proof -
  from assms(1) consider "aged db db'" | mid n where "aged db mid" "sessions db' = sessions mid @ [n]"
    by (auto simp: evolves_def)
  then show ?thesis
  proof cases
    case 1
    then show ?thesis using assms(2) by (rule aged_ended)
  next
    case 2
    then have "ended mid h" using assms(2) aged_ended by blast
    with 2(2) show ?thesis by (auto simp: ended_def bearer_def find_append split: option.splits)
  qed
qed

lemma reaches_ended: "auth_reaches digest verify decrypt db db' \<Longrightarrow> ended db h \<Longrightarrow> ended db' h"
  by (induction rule: rtranclp_induct) (blast intro: evolves_ended step_evolves)+

lemma ended_refused:
  assumes "ended db (digest token)"
  shows "fst (resolve dis digest now lock (Some token) db) = Inl session_required"
proof -
  obtain s where s: "bearer db (digest token) = Some s" "ss_revoked_at s \<noteq> None"
    using assms by (auto simp: ended_def split: option.splits)
  then show ?thesis
    by (cases "identity_of db (ss_identity s)")
      (auto simp: resolve_def session_row_def bearer_def session_live_def)
qed

lemma session_row_bearer: "session_row db h = Some (s, g) \<Longrightarrow> bearer db h = Some s \<and> identity_of db (ss_identity s) = Some g"
  by (auto simp: session_row_def bearer_def split: option.splits)

lemma revoked_bearer:
  assumes "bearer db h = Some s" and "P s"
  shows "ended (update_sessions P (revoked now) db) h"
proof -
  have "bearer (update_sessions P (revoked now) db) h = map_option (\<lambda>s. if P s then revoked now s else s) (bearer db h)"
    unfolding bearer_def update_sessions_def by (simp add: find_update_where revoked_def)
  then show ?thesis using assms by (simp add: ended_def revoked_def)
qed

lemma resolved_bearer:
  assumes "resolved dis digest now lock (Some token) db = Inr (p, db1)" and "bearer db h = Some s"
  shows "\<exists>s'. bearer db1 h = Some s' \<and> ss_id s' = ss_id s \<and> ss_identity s' = ss_identity s
    \<and> (ss_revoked_at s = None \<longrightarrow> ss_revoked_at s' = None)"
proof -
  obtain P g where "db1 = update_sessions P (ss_last_seen_at_update g) db"
    using resolved_Inr [OF assms(1)] by blast
  then show ?thesis using assms(2)
    by (auto simp: bearer_def update_sessions_def find_update_where)
qed

lemma resolved_own:
  assumes "resolved dis digest now lock (Some token) db = Inr (p, db1)"
  shows "\<exists>s'. bearer db1 (digest token) = Some s' \<and> ss_id s' = pp_session p \<and> ss_identity s' = pp_identity p
    \<and> pp_token_hash p = digest token"
proof -
  obtain s g where "session_row db (digest token) = Some (s, g)" "pp_session p = ss_id s"
      "pp_identity p = ss_identity s" "pp_token_hash p = digest token"
    using resolved_Inr [OF assms] by blast
  then show ?thesis using resolved_bearer [OF assms] session_row_bearer by metis
qed

lemma logout_ends: "logout dis digest now (Some token) db = Inr db1 \<Longrightarrow> ended db1 (digest token)"
  unfolding logout_def by (auto dest!: resolved_own intro: revoked_bearer)

lemma rotate_ends:
  assumes "rotate_session digest i token p now db = Inr (r, db')" and "bearer db h = Some s" and "ss_id s = pp_session p"
  shows "ended db' h"
proof -
  have "ended (update_sessions (\<lambda>s. ss_id s = pp_session p) (revoked now) db) h"
    using assms(2,3) by (rule revoked_bearer)
  moreover obtain n where
    "sessions db' = sessions (update_sessions (\<lambda>s. ss_id s = pp_session p) (revoked now) db) @ [n]"
    using issue_session_Inr [OF assms(1) [unfolded rotate_session_def]] by fastforce
  ultimately show ?thesis by (simp add: ended_def bearer_def find_append split: option.splits)
qed

lemma challenge_ends:
  assumes "challenge_mfa n w dis digest verify decrypt now host (Some old) code rec i token lim db = (Inr (r, db'), lim')"
  shows "ended db' (digest old)"
proof -
  obtain p db1 c db2 where run: "resolved dis digest now True (Some old) db = Inr (p, db1)"
      "check_factor digest verify decrypt now (pp_identity p) (Some c) code rec db1 = Inr (True, db2)"
      "rotate_session digest i token p now
        (db2\<lparr>credentials := update_where (\<lambda>x. mc_id x = mc_id c) (mc_last_used_at_update (\<lambda>_. Some now))
               (credentials db2)\<rparr>) = Inr (r, db')"
    using challenge_mfa_Inr [OF assms] by blast
  obtain s where s: "bearer db1 (digest old) = Some s" "ss_id s = pp_session p"
    using resolved_own [OF run(1)] by blast
  then obtain f where "ageing f" "bearer db2 (digest old) = Some (f s)"
    using aged_bearer check_factor_Inr [OF run(2)] by blast
  then show ?thesis using s(2) by (intro rotate_ends [OF run(3), of _ "f s"]) (simp_all add: bearer_def ageing_def)
qed

lemma revoke_all_ends:
  assumes "bearer db h = Some s" and "ss_identity s = who"
  shows "ended (revoke_all_of t who db) h"
proof (cases "ss_revoked_at s")
  case None
  with assms show ?thesis unfolding revoke_all_of_def
    by (intro revoked_bearer [OF assms(1), of "\<lambda>s. ss_identity s = who \<and> ss_revoked_at s = None"]) simp
next
  case (Some r)
  then have "ended db h" using assms(1) by (simp add: ended_def)
  with aged_revoke_all show ?thesis by (rule aged_ended)
qed

lemma revoke_sessions_ends:
  assumes run: "revoke_sessions dis digest now dbnow (Some token) db = Inr db1"
    and "bearer db (digest token) = Some s" and "bearer db h = Some s'" and "ss_identity s' = ss_identity s"
  shows "ended db1 h"
proof -
  obtain p mid where r: "resolved dis digest now True (Some token) db = Inr (p, mid)"
      "revoke_current_identity_sessions dbnow (pp_token_hash p) (pp_identity p) mid = Inr db1"
    using run by (auto simp: revoke_sessions_def)
  have "ss_identity s = pp_identity p" using resolved_own [OF r(1)] resolved_bearer [OF r(1) assms(2)] by auto
  then obtain s2 where "bearer mid h = Some s2" "ss_identity s2 = pp_identity p"
    using resolved_bearer [OF r(1) assms(3)] assms(4) by auto
  from revoke_all_ends [OF this] have "ended (revoke_all_of dbnow (pp_identity p) mid) h" .
  moreover have "sessions db1 = sessions (revoke_all_of dbnow (pp_identity p) mid)"
    using r(2) by (auto simp: revoke_current_identity_sessions_def split: option.splits if_splits)
  ultimately show ?thesis by (simp add: ended_def bearer_def)
qed

section \<open>The guarantees\<close>

text \<open>A small installation: one active identity, one credential, and a session of it.\<close>

definition sample_installation :: auth_db where
  "sample_installation = empty_auth_db\<lparr>
     a_org := empty_org_db\<lparr>identities := [\<lparr>gi_id = ''g'', gi_email = ''a@acme'', gi_display_name = ''Ann'',
       gi_status = ''active'', gi_password_hash = Some ''h1'', gi_security_version = 1\<rparr>]\<rparr>,
     credentials := [\<lparr>mc_id = ''c'', mc_identity = ''g'', mc_ciphertext = ''seed'', mc_status = ''active'',
       mc_confirmed_at = Some 0, mc_last_used_at = None, mc_created_at = 0\<rparr>],
     reset_tokens := [\<lparr>rt_id = ''r'', rt_identity = ''g'', rt_hash = ''mail'', rt_expires_at = 100, rt_used_at = None\<rparr>]\<rparr>"

definition sample_session :: user_session where
  "sample_session = \<lparr>ss_id = ''s'', ss_identity = ''g'', ss_version = 1, ss_token_hash = ''cookie'',
     ss_mfa_verified_at = None, ss_expires_at = 10 + SESSION_LIFETIME, ss_last_seen_at = 10, ss_revoked_at = None\<rparr>"

definition sample_signed_in :: auth_db where
  "sample_signed_in = sample_installation\<lparr>sessions := [sample_session]\<rparr>"

lemmas sample_defs = sample_signed_in_def sample_installation_def sample_session_def empty_auth_db_def
  empty_org_db_def SESSION_LIFETIME_def

text \<open>
  C8: a session that has ended is refused for good.  Once a sign-out, a passed MFA challenge (which
  rotates the session) or a revocation of all sessions of an identity has committed, no sequence of later
  requests of any user makes the old cookie work again.
\<close>

theorem ended_session_never_returns:
  assumes "logout dis digest now (Some token) db = Inr db1 \<and> old = token
      \<or> challenge_mfa n w dis digest verify decrypt now host (Some token) code rec i fresh lim db = (Inr (r, db1), lim')
        \<and> old = token
      \<or> revoke_sessions dis digest now dbnow (Some token) db = Inr db1
        \<and> (\<exists>s s'. bearer db (digest token) = Some s \<and> bearer db (digest old) = Some s'
             \<and> ss_identity s' = ss_identity s)"
    and "auth_reaches digest verify decrypt db1 db2"
  shows "fst (resolve dis' digest now' lock (Some old) db2) = Inl session_required"
proof -
  have "ended db1 (digest old)"
    using assms(1) logout_ends challenge_ends revoke_sessions_ends by metis
  with reaches_ended [OF assms(2)] show ?thesis by (blast intro: ended_refused)
qed

definition sample_signed_out :: auth_db where
  "sample_signed_out = sample_installation\<lparr>sessions :=
     [sample_session\<lparr>ss_last_seen_at := 20, ss_revoked_at := Some 20\<rparr>]\<rparr>"

lemma sample_logout: "logout False id 20 (Some ''cookie'') sample_signed_in = Inr sample_signed_out"
  by (simp add: logout_def resolved_def resolve_def in_transaction_def session_row_def identity_of_def session_live_def
      locked_rows_agree_def update_sessions_def update_where_def revoked_def sample_signed_out_def sample_defs)

theorem ended_session_never_returns_witness:
  "fst (resolve True id 21 True (Some ''cookie'') sample_signed_out) = Inl session_required"
  by (rule ended_session_never_returns [OF _ rtranclp.rtrancl_refl, OF disjI1, OF conjI, OF sample_logout refl])

text \<open>
  C9: a completed password reset locks out everything that came before it.  Whatever happens afterwards,
  no session the identity had works again, a login that was still checking the old password does not
  commit, and the reset token is spent.
\<close>

theorem password_reset_locks_out:
  assumes "complete_password_reset dbnow h i who version new_hash db = (Some w, db1)"
    and "auth_reaches digest verify decrypt db1 db2"
    and "bearer db (digest old) = Some s" and "ss_identity s = who" and "identity_of db who = Some row"
  shows "fst (resolve dis digest now lock (Some old) db2) = Inl session_required
    \<and> login_commit digest now cookie j token row db2 = Inl invalid_credentials
    \<and> fst (complete_password_reset dbnow' h' i who' version' new_hash' db2) = None"
proof (intro conjI)
  note c = complete_Inr [OF assms(1)] and v = complete_secrets [OF assms(1)] and later = reaches_secrets [OF assms(2)]
  have "ended (revoke_all_of dbnow who db) (digest old)" using assms(3,4) by (rule revoke_all_ends)
  then have "ended db1 (digest old)" using c by (auto simp: ended_def bearer_def)
  with reaches_ended [OF assms(2)] show "fst (resolve dis digest now lock (Some old) db2) = Inl session_required"
    by (blast intro: ended_refused)
  have row: "gi_security_version row = version" using c assms(5) by auto
  obtain g1 where "identity_of db1 who = Some g1" "gi_security_version g1 = version + 1" using v by blast
  then obtain g where "identity_of db2 who = Some g" "gi_security_version g1 \<le> gi_security_version g"
    using later unfolding secrets_age_def versions_grow_def by blast
  with row \<open>gi_security_version g1 = version + 1\<close>
  have "identity_of db2 who = Some g" "gi_security_version g \<noteq> gi_security_version row" by simp_all
  moreover have "gi_id row = who" using assms(5) find_SomeD by (fastforce simp: identity_of_def)
  ultimately show "login_commit digest now cookie j token row db2 = Inl invalid_credentials"
    by (simp add: login_commit_def)
  have "spent db2 i" using v later by (simp add: secrets_age_def)
  then have "find (\<lambda>t. rt_id t = i \<and> token_usable dbnow' h' t \<and> rt_identity t = who') (reset_tokens db2) = None"
    by (auto simp: find_None_iff spent_def token_usable_def)
  then show "fst (complete_password_reset dbnow' h' i who' version' new_hash' db2) = None"
    by (simp add: complete_password_reset_def)
qed

definition sample_reset :: auth_db where
  "sample_reset = snd (complete_password_reset 30 ''mail'' ''r'' ''g'' 1 ''h2'' sample_signed_in)"

lemma sample_reset_run:
  "complete_password_reset 30 ''mail'' ''r'' ''g'' 1 ''h2'' sample_signed_in = (Some ''g'', sample_reset)"
  by (simp add: sample_reset_def complete_password_reset_def token_usable_def identity_of_def sample_defs)

theorem password_reset_locks_out_witness:
  "fst (resolve False id 31 False (Some ''cookie'') sample_reset) = Inl session_required"
proof -
  have "identity_of sample_signed_in ''g'' = Some (hd (identities (a_org sample_signed_in)))"
    "bearer sample_signed_in (id ''cookie'') = Some sample_session" "ss_identity sample_session = ''g''"
    by (simp_all add: identity_of_def bearer_def sample_defs)
  from password_reset_locks_out [where digest = id, OF sample_reset_run rtranclp.rtrancl_refl this(2,3,1)] show ?thesis by blast
qed

lemma verified_earned:
  assumes "sessions start = []" and "auth_reaches digest verify decrypt start db"
    and "s \<in> set (sessions db)" and "ss_mfa_verified_at s = Some t"
  shows "\<exists>db0 db1. auth_reaches digest verify decrypt start db0 \<and> auth_step digest verify decrypt db0 db1
    \<and> auth_reaches digest verify decrypt db1 db \<and> factor_presented digest verify decrypt t (ss_identity s) db0 db1"
  using assms(2-)
proof (induction arbitrary: s rule: rtranclp_induct)
  case base
  with assms(1) show ?case by simp
next
  case (step y z)
  have old: ?case if "s0 \<in> set (sessions y)" "ss_mfa_verified_at s0 = Some t" "ss_identity s0 = ss_identity s" for s0
    using step.IH [OF that(1,2)] step.hyps(2) that(3) by (metis rtranclp.rtrancl_into_rtrancl)
  have new: ?case if "opens digest verify decrypt y z s"
    using that step.hyps step.prems(2) by (auto simp: opens_def)
  from step_evolves [OF step.hyps(2)] consider mid where "aged y mid" "sessions z = sessions mid"
    | mid n where "aged y mid" "sessions z = sessions mid @ [n]" "opens digest verify decrypt y z n"
    by (auto simp: evolves_def)
  then show ?case
  proof cases
    case 1
    then obtain f s0 where "ageing f" "s0 \<in> set (sessions y)" "s = f s0" using step.prems(1) by (auto simp: aged_def)
    then show ?thesis using step.prems(2) by (intro old [of s0]) (auto simp: ageing_def)
  next
    case 2
    show ?thesis
    proof (cases "s = n")
      case True
      with 2(3) new show ?thesis by simp
    next
      case False
      with 2 obtain f s0 where "ageing f" "s0 \<in> set (sessions y)" "s = f s0"
        using step.prems(1) by (auto simp: aged_def)
      then show ?thesis using step.prems(2) by (intro old [of s0]) (auto simp: ageing_def)
    qed
  qed
qed

text \<open>
  C10: recent verification is earned.  Starting from tables without sessions, whoever passes the
  recent-MFA guard of a privileged request has, in an earlier request not more than ten minutes ago, presented a
  second factor of their own that was checked there: the typed code verified against the secret of their
  pending or active credential, or the digest of the typed recovery code was among the unused ones of
  their active credential and is used up since.
\<close>

theorem recent_mfa_is_earned:
  assumes "sessions start = []" and "auth_reaches digest verify decrypt start db"
    and "resolved False digest now lock cookie db = Inr (p, db')" and "require_recent_mfa False now p = Inr q"
  shows "\<exists>t db0 db1. now \<le> t + MFA_RECENCY \<and> auth_reaches digest verify decrypt start db0
    \<and> auth_step digest verify decrypt db0 db1 \<and> auth_reaches digest verify decrypt db1 db
    \<and> factor_presented digest verify decrypt t (pp_identity p) db0 db1"
proof -
  obtain token s g where r: "session_row db (digest token) = Some (s, g)" "pp_identity p = ss_identity s"
      "pp_mfa_verified_at p = ss_mfa_verified_at s"
    using resolved_Inr [OF assms(3)] by auto
  have "has_recent_mfa p now" using require_mfa_Inr [OF assms(4)] by simp
  then obtain t where t: "ss_mfa_verified_at s = Some t" "now \<le> t + MFA_RECENCY"
    using r(3) by (auto simp: has_recent_mfa_def recent_mfa_def split: option.splits)
  have "s \<in> set (sessions db)" using session_row_bearer [OF r(1)] find_SomeD by (fastforce simp: bearer_def)
  from verified_earned [OF assms(1,2) this t(1)] t(2) r(2) show ?thesis by auto
qed

definition sample_verified :: auth_db where
  "sample_verified = sample_installation\<lparr>
     sessions := [sample_session\<lparr>ss_last_seen_at := 20, ss_revoked_at := Some 20\<rparr>,
       sample_session\<lparr>ss_id := ''s2'', ss_token_hash := ''cookie2'', ss_mfa_verified_at := Some 20,
         ss_expires_at := 20 + SESSION_LIFETIME, ss_last_seen_at := 20\<rparr>],
     credentials := map (mc_last_used_at_update (\<lambda>_. Some 20)) (credentials sample_installation)\<rparr>"

lemma sample_login: "auth_step id verify decrypt sample_installation sample_signed_in"
proof -
  have "login_commit id 10 None ''s'' ''cookie'' (hd (identities (a_org sample_installation))) sample_installation
      = Inr ((''cookie'', 10 + SESSION_LIFETIME), sample_signed_in)"
    by (simp add: login_commit_def identity_of_def issue_session_def revoke_valid_presented_session_def sample_defs)
  then show ?thesis by (rule login_step) (simp add: fresh_session_def sample_defs)
qed

lemma sample_challenge:
  "challenge_mfa 5 1 False id (\<lambda>_ _ _. Inr True) id 20 ''host'' (Some ''cookie'') (Some [49]) None ''s2'' ''cookie2''
     (\<lambda>_. []) sample_signed_in
   = (Inr ((''cookie2'', 20 + SESSION_LIFETIME), sample_verified), (\<lambda>_. [])(''mfa-challenge:g:host'' := [20]))"
  by (simp add: challenge_mfa_def resolved_def resolve_def in_transaction_def session_row_def identity_of_def
      session_live_def locked_rows_agree_def update_sessions_def update_where_def rate_allow_def active_credential_def
      check_factor_def rotate_session_def issue_session_def revoked_def sample_verified_def sample_defs)

lemma sample_verified_reached:
  "auth_reaches id (\<lambda>_ _ _. Inr True) id sample_installation sample_verified"
proof -
  have "fresh_session id ''s2'' ''cookie2'' sample_signed_in" by (simp add: fresh_session_def sample_defs)
  from challenge_step [OF sample_challenge this] sample_login show ?thesis
    by (meson converse_rtranclp_into_rtranclp rtranclp.rtrancl_refl)
qed

theorem recent_mfa_is_earned_witness:
  "\<exists>t db0 db1. 25 \<le> t + MFA_RECENCY \<and> auth_reaches id (\<lambda>_ _ _. Inr True) id sample_installation db0
    \<and> auth_step id (\<lambda>_ _ _. Inr True) id db0 db1 \<and> auth_reaches id (\<lambda>_ _ _. Inr True) id db1 sample_verified
    \<and> factor_presented id (\<lambda>_ _ _. Inr True) id t ''g'' db0 db1"
proof -
  obtain p db' where p: "resolved False id 25 False (Some ''cookie2'') sample_verified = Inr (p, db')"
      "require_recent_mfa False 25 p = Inr p" "pp_identity p = ''g''"
    by (simp add: resolved_def resolve_def in_transaction_def session_row_def identity_of_def session_live_def
        require_recent_mfa_def has_recent_mfa_def recent_mfa_def MFA_RECENCY_def sample_verified_def sample_defs)
  have "sessions sample_installation = []" by (simp add: sample_defs)
  from recent_mfa_is_earned [OF this sample_verified_reached p(1,2)] p(3) show ?thesis by simp
qed

section \<open>Two findings\<close>

text \<open>
  A session that is no longer valid is marked as revoked and then refused; but the refusal raises inside
  the transaction, so the mark is rolled back with it.
\<close>

lemma resolve_revocation_discarded:
  "let expired = sample_signed_in; late = 10 + SESSION_LIFETIME in
     bearer (snd (resolve False id late False (Some ''cookie'') expired)) ''cookie''
       = Some (sample_session\<lparr>ss_revoked_at := Some late\<rparr>)
     \<and> resolved False id late False (Some ''cookie'') expired = Inl session_required"
  by (simp add: Let_def resolve_def resolved_def in_transaction_def session_row_def identity_of_def session_live_def
      update_sessions_def update_where_def revoked_def bearer_def sample_defs)

text \<open>A six-character code of digits outside ASCII makes the verification raise.\<close>

lemma totp_raises_on_foreign_digits:
  "totp_verify (\<lambda>_. True) hotp secret [1632, 1632, 1632, 1632, 1632, 1632] now = Inl (Http 500 ''TypeError'')"
  by (simp add: totp_verify_def)

text \<open>
  An administrator of one organization resets the factors of a member who administers another one: only
  the role in the first organization counts.
\<close>

lemma member_reset_ignores_other_roles:
  assumes "lower_level_target db org actor target"
  shows "lower_level_target (db\<lparr>a_org := (a_org db)\<lparr>memberships := memberships (a_org db) @
      [\<lparr>mb_id = i, mb_organization = other, mb_identity = target, mb_role = ''organization_admin'',
        mb_status = ''active''\<rparr>]\<rparr>\<rparr>) org actor target"
  using assms by (auto simp: lower_level_target_def list_ex_iff)

end
