(* ===== verification/RateLimit.thy ===== *)
theory RateLimit
  imports AuthModel
begin

text \<open>
  The sliding-window limiter of \<^verbatim>\<open>auth/security.py\<close> over a list of calls: how many calls for one key it
  lets through in any window.
\<close>

fun rate_calls :: "nat \<Rightarrow> nat \<Rightarrow> (string \<times> nat) list \<Rightarrow> limiter \<Rightarrow> bool list \<times> limiter" where
  "rate_calls attempts window [] lim = ([], lim)"
| "rate_calls attempts window ((key, now) # calls) lim =
     (let (ok, lim1) = rate_allow attempts window key now lim;
          (oks, lim2) = rate_calls attempts window calls lim1
      in (ok # oks, lim2))"

text \<open>The instants at which a call for \<open>key\<close> was let through.\<close>

definition passed :: "string \<Rightarrow> (string \<times> nat) list \<Rightarrow> bool list \<Rightarrow> nat list" where
  "passed key calls oks = map (snd \<circ> fst) (filter (\<lambda>((k, _), ok). ok \<and> k = key) (zip calls oks))"

definition in_window :: "nat \<Rightarrow> nat \<Rightarrow> nat list \<Rightarrow> nat" where
  "in_window window from instants = length (filter (\<lambda>t. from \<le> t \<and> t < from + window) instants)"

lemma passed_Nil [simp]: "passed key [] [] = []"
  by (simp add: passed_def)

lemma passed_Cons [simp]:
  "passed key ((k, t) # calls) (ok # oks) = (if ok \<and> k = key then [t] else []) @ passed key calls oks"
  by (simp add: passed_def)

text \<open>
  What the limiter remembers of a key are all the instants it let through that the window still
  reaches, if no call is older than the last one.
\<close>

definition remembers :: "nat \<Rightarrow> nat \<Rightarrow> nat list \<Rightarrow> nat list \<Rightarrow> bool" where
  "remembers window now past kept \<longleftrightarrow> (\<forall>t \<ge> now. filter (\<lambda>e. e + window > t) kept = filter (\<lambda>e. e + window > t) past)"

lemma window_le_recent:
  assumes "list_all (\<lambda>e. e \<le> now) past" and "from \<le> now" and "now < from + window"
  shows "in_window window from past \<le> length (filter (\<lambda>e. e + window > now) past)"
proof -
  have "filter (\<lambda>t. from \<le> t \<and> t < from + window) past
      = filter (\<lambda>t. from \<le> t \<and> t < from + window) (filter (\<lambda>e. e + window > now) past)"
    using assms(3) by (auto simp: filter_filter intro: filter_cong)
  then show ?thesis unfolding in_window_def by (metis length_filter_le)
qed

lemma in_window_snoc:
  "in_window window from (xs @ [t]) = in_window window from xs + (if from \<le> t \<and> t < from + window then 1 else 0)"
  by (simp add: in_window_def)

lemma allowed_bound:
  assumes "\<And>from. in_window window from past \<le> attempts" and "list_all (\<lambda>e. e \<le> now) past"
    and "remembers window now past (lim key)" and "rate_allow attempts window key now lim = (True, lim')"
  shows "in_window window from (past @ [now]) \<le> attempts"
proof (cases "from \<le> now \<and> now < from + window")
  case True
  then have "in_window window from past \<le> length (filter (\<lambda>e. e + window > now) past)"
    using window_le_recent [OF assms(2)] by blast
  also have "\<dots> < attempts"
    using assms(3,4) by (auto simp: remembers_def rate_allow_def Let_def split: if_splits)
  finally show ?thesis by (simp add: in_window_snoc)
qed (use assms(1) in \<open>auto simp: in_window_snoc\<close>)

lemma rate_allow_remembers:
  assumes "remembers window past_now past (lim key)" and "past_now \<le> now"
    and "rate_allow attempts window k now lim = (ok, lim')"
  shows "remembers window now (past @ (if ok \<and> k = key then [now] else [])) (lim' key)"
proof -
  have "filter (\<lambda>e. e + window > t) (filter (\<lambda>e. e + window > now) (lim key)) = filter (\<lambda>e. e + window > t) past"
    if "now \<le> t" for t
  proof -
    have "filter (\<lambda>e. e + window > t) (filter (\<lambda>e. e + window > now) (lim key)) = filter (\<lambda>e. e + window > t) (lim key)"
      using that by (auto simp: filter_filter intro!: filter_cong)
    also have "\<dots> = filter (\<lambda>e. e + window > t) past" using assms(1,2) that by (simp add: remembers_def)
    finally show ?thesis .
  qed
  moreover have "filter (\<lambda>e. e + window > t) (lim key) = filter (\<lambda>e. e + window > t) past" if "now \<le> t" for t
    using assms(1,2) that by (simp add: remembers_def)
  moreover have "lim' key = (if k = key then filter (\<lambda>e. e + window > now) (lim key) @ (if ok then [now] else [])
      else lim key)"
    using assms(3) by (auto simp: rate_allow_def Let_def split: if_splits)
  ultimately show ?thesis by (simp add: remembers_def del: filter_filter)
qed

lemma calls_bound:
  assumes "\<And>from. in_window window from past \<le> attempts" and "list_all (\<lambda>e. e \<le> past_now) past"
    and "remembers window past_now past (lim key)" and "sorted (past_now # map snd calls)"
    and "rate_calls attempts window calls lim = (oks, lim')"
  shows "in_window window from (past @ passed key calls oks) \<le> attempts"
  using assms
proof (induction calls arbitrary: past past_now lim oks)
  case (Cons call calls)
  obtain k now where call: "call = (k, now)" by (cases call)
  obtain ok lim1 where a: "rate_allow attempts window k now lim = (ok, lim1)" by fastforce
  obtain oks' where r: "rate_calls attempts window calls lim1 = (oks', lim')" "oks = ok # oks'"
    using Cons.prems(5) by (auto simp: call a split: prod.splits)
  let ?past = "past @ (if ok \<and> k = key then [now] else [])"
  have le: "past_now \<le> now" and s: "sorted (now # map snd calls)" using Cons.prems(4) by (auto simp: call)
  have old: "list_all (\<lambda>e. e \<le> now) past" using Cons.prems(2) le by (auto simp: list_all_iff)
  have now: "remembers window now past (lim key)" using Cons.prems(3) le by (simp add: remembers_def)
  have "in_window window f ?past \<le> attempts" for f
    using allowed_bound [where lim = lim and key = key and lim' = lim1, OF Cons.prems(1) old now] a Cons.prems(1)
    by (cases "ok \<and> k = key") auto
  moreover have "list_all (\<lambda>e. e \<le> now) ?past" using old by simp
  ultimately have "in_window window from (?past @ passed key calls oks') \<le> attempts"
    using rate_allow_remembers [OF Cons.prems(3) le a] s r(1) by (rule Cons.IH)
  then show ?case by (simp add: call r(2))
qed simp

text \<open>
  C39: the rate limiter bounds every window.  Over any list of calls in the order of time, on keys of any
  kind, no stretch of \<open>window\<close> contains more than \<open>attempts\<close> calls for one key that were let through; the
  calls for other keys make no difference.
\<close>

theorem rate_limiter_bound:
  assumes "sorted (map snd calls)" and "rate_calls attempts window calls (\<lambda>_. []) = (oks, lim)"
  shows "in_window window from (passed key calls oks) \<le> attempts"
proof -
  have "remembers window 0 [] []" by (simp add: remembers_def)
  moreover have "in_window window f [] \<le> attempts" for f by (simp add: in_window_def)
  ultimately show ?thesis
    using calls_bound [of window "[]" attempts 0 "\<lambda>_. []" key calls oks lim "from"] assms by simp
qed

theorem rate_limiter_bound_witness:
  "in_window 10 0 (passed ''k'' [(''k'', 1), (''k'', 2), (''other'', 3), (''k'', 4), (''k'', 12)]
      [True, True, True, False, True]) \<le> 2"
proof -
  have "rate_calls 2 10 [(''k'', 1), (''k'', 2), (''other'', 3), (''k'', 4), (''k'', 12)] (\<lambda>_. [])
      = ([True, True, True, False, True], (\<lambda>_. [])(''k'' := [12], ''other'' := [3]))"
    by (simp add: rate_allow_def Let_def fun_upd_twist)
  then show ?thesis by (rule rate_limiter_bound [rotated]) simp
qed

end
