(* ===== verification/PrivilegedAudit.thy ===== *)
theory PrivilegedAudit
  imports AuthSafety
begin

text \<open>
  The contract of the two mutation wrappers, \<open>OrganizationAccess.mutation\<close> and \<open>PlatformAccess.mutation\<close>:
  the audit log counts the mutations that succeeded, and a refused one changes nothing but the log.  The
  locale states the two laws, its lemmas follow a list of requests, and both wrappers interpret it.
\<close>

section \<open>The interface\<close>

definition succeeded :: "(http_error, unit) result \<Rightarrow> bool" where
  "succeeded r \<longleftrightarrow> (case r of Inl _ \<Rightarrow> False | Inr _ \<Rightarrow> True)"

definition allowed_events :: "audit_event list \<Rightarrow> nat" where
  "allowed_events evs = length (filter (\<lambda>ev. ae_result ev = ''allowed'') evs)"

lemma allowed_events_simps [simp]:
  "allowed_events [] = 0"
  "allowed_events (xs @ ys) = allowed_events xs + allowed_events ys"
  "allowed_events (ev # evs) = (if ae_result ev = ''allowed'' then 1 else 0) + allowed_events evs"
  by (simp_all add: allowed_events_def)

fun run_calls :: "('q \<Rightarrow> 'd \<Rightarrow> (http_error, unit) result \<times> 'd) \<Rightarrow> 'q list \<Rightarrow> 'd \<Rightarrow> (http_error, unit) result list \<times> 'd" where
  "run_calls mutate [] db = ([], db)"
| "run_calls mutate (q # qs) db =
     (let (r, db1) = mutate q db; (rs, db2) = run_calls mutate qs db1 in (r # rs, db2))"

locale audited_mutation =
  fixes mutate :: "'q \<Rightarrow> 'd \<Rightarrow> (http_error, unit) result \<times> 'd"
    and events :: "'d \<Rightarrow> audit_event list"
    and managed :: "'d \<Rightarrow> 'w"
  assumes success_logged: "mutate q db = (Inr x, db') \<Longrightarrow>
      \<exists>ev. events db' = events db @ [ev] \<and> ae_result ev = ''allowed''"
    and refusal_logged: "mutate q db = (Inl e, db') \<Longrightarrow>
      events db' = events db \<or> (\<exists>ev. events db' = events db @ [ev] \<and> ae_result ev \<noteq> ''allowed'')"
    and refusal_managed: "mutate q db = (Inl e, db') \<Longrightarrow> managed db' = managed db"
begin

lemma one_call:
  assumes "mutate q db = (r, db')"
  shows "\<exists>more. events db' = events db @ more \<and> allowed_events more = (if succeeded r then 1 else 0)"
proof (cases r)
  case (Inl e)
  then show ?thesis using refusal_logged [of q db e db'] assms
    by (auto simp: succeeded_def intro: exI [of _ "[]"])
next
  case (Inr x)
  then show ?thesis using success_logged [of q db x db'] assms by (auto simp: succeeded_def)
qed

lemma log_counts:
  "run_calls mutate qs db = (rs, db') \<Longrightarrow>
     \<exists>more. events db' = events db @ more \<and> allowed_events more = length (filter succeeded rs)"
proof (induction qs arbitrary: db rs)
  case (Cons q qs)
  obtain r db1 where q: "mutate q db = (r, db1)" by fastforce
  obtain rs' where qs: "run_calls mutate qs db1 = (rs', db')" "rs = r # rs'"
    using Cons.prems by (auto simp: q split: prod.splits)
  obtain a where a: "events db1 = events db @ a" "allowed_events a = (if succeeded r then 1 else 0)"
    using one_call [OF q] by blast
  obtain b where b: "events db' = events db1 @ b" "allowed_events b = length (filter succeeded rs')"
    using Cons.IH [OF qs(1)] by blast
  show ?case by (intro exI [of _ "a @ b"]) (simp add: a b qs(2))
qed simp

lemma refused_run_changes_nothing:
  "run_calls mutate qs db = (rs, db') \<Longrightarrow> list_all (Not \<circ> succeeded) rs \<Longrightarrow> managed db' = managed db"
proof (induction qs arbitrary: db rs)
  case (Cons q qs)
  obtain r db1 where q: "mutate q db = (r, db1)" by fastforce
  obtain rs' where qs: "run_calls mutate qs db1 = (rs', db')" "rs = r # rs'"
    using Cons.prems by (auto simp: q split: prod.splits)
  then obtain e where "r = Inl e" using Cons.prems by (cases r) (auto simp: succeeded_def)
  with q refusal_managed have "managed db1 = managed db" by blast
  with Cons qs show ?case by simp
qed simp

end

section \<open>Organization mutations\<close>

text \<open>What varies from one request to the next.\<close>

record organization_call =
  oc_now :: nat
  oc_cookie :: "string option"
  oc_correlation :: string
  oc_organization :: string
  oc_fresh :: string
  oc_token :: string
  oc_request :: organization_request

definition call_organization :: "bool \<Rightarrow> (string \<Rightarrow> string) \<Rightarrow> organization_call \<Rightarrow> auth_db
    \<Rightarrow> (http_error, unit) result \<times> auth_db" where
  "call_organization dis digest c db =
     organization_mutation dis digest (oc_now c) (oc_cookie c) (oc_correlation c) (oc_organization c)
       (oc_fresh c) (oc_token c) (oc_request c) db"

lemma event_outcome [simp]:
  "ae_result (organization_event org corr q actor target outcome summary) = outcome"
  "ae_result (platform_event corr pq actor target outcome summary) = outcome"
  by (simp_all add: organization_event_def platform_event_def mutation_event_def)

lemma refuse_organization_effect:
  assumes "refuse_organization org corr q actor e db = (r, db')"
  shows "r = Inl e \<and> a_org db' = a_org db \<and> (audit_events db' = audit_events db
    \<or> (\<exists>ev. audit_events db' = audit_events db @ [ev] \<and> ae_result ev \<noteq> ''allowed''))"
  using assms by (cases "find_organization (a_org db) org") (auto simp: refuse_organization_def record_organization_def)

lemma organization_call_Inr:
  assumes "call_organization dis digest c db = (Inr x, db')"
  shows "\<exists>ev. audit_events db' = audit_events db @ [ev] \<and> ae_result ev = ''allowed''"
proof (cases rule: organization_mutation_cases [of dis digest "oc_now c" "oc_cookie c" "oc_correlation c"
      "oc_organization c" "oc_fresh c" "oc_token c" "oc_request c" db])
  case (refused e actor db1)
  with assms show ?thesis using refuse_organization_effect by (fastforce simp: call_organization_def)
next
  case (performed p db1 target summary o')
  with assms resolved_fields [OF performed(1)] show ?thesis by (auto simp: call_organization_def)
qed

lemma organization_call_Inl:
  assumes "call_organization dis digest c db = (Inl e, db')"
  shows "a_org db' = a_org db \<and> (audit_events db' = audit_events db
    \<or> (\<exists>ev. audit_events db' = audit_events db @ [ev] \<and> ae_result ev \<noteq> ''allowed''))"
proof (cases rule: organization_mutation_cases [of dis digest "oc_now c" "oc_cookie c" "oc_correlation c"
      "oc_organization c" "oc_fresh c" "oc_token c" "oc_request c" db])
  case (refused e' actor db1)
  have "a_org db1 = a_org db" "audit_events db1 = audit_events db" using refused(2) resolved_fields by auto
  moreover have "refuse_organization (oc_organization c) (oc_correlation c) (oc_request c) actor e' db1 = (Inl e, db')"
    using refused(1) assms by (simp add: call_organization_def)
  ultimately show ?thesis using refuse_organization_effect by metis
next
  case (performed p db1 target summary o')
  with assms show ?thesis by (simp add: call_organization_def)
qed

interpretation organization_audit: audited_mutation "call_organization dis digest" audit_events a_org
  by unfold_locales (use organization_call_Inr organization_call_Inl in blast)+

section \<open>Platform mutations\<close>

record platform_call =
  pc_now :: nat
  pc_dbnow :: nat
  pc_cookie :: "string option"
  pc_correlation :: string
  pc_fresh_organization :: string
  pc_fresh_invitation :: string
  pc_token :: string
  pc_request :: platform_request

definition call_platform :: "bool \<Rightarrow> (organization_opening \<Rightarrow> string) \<Rightarrow> (string \<Rightarrow> string) \<Rightarrow> platform_call \<Rightarrow> auth_db
    \<Rightarrow> (http_error, unit) result \<times> auth_db" where
  "call_platform dis fingerprint digest c db =
     platform_mutation dis fingerprint digest (pc_now c) (pc_dbnow c) (pc_cookie c) (pc_correlation c)
       (pc_fresh_organization c) (pc_fresh_invitation c) (pc_token c) (pc_request c) db"

text \<open>The work of the platform: organizations, and the factors that may be reset.\<close>

definition platform_work :: "auth_db \<Rightarrow> org_db \<times> mfa_credential list \<times> recovery_code list" where
  "platform_work db = (a_org db, credentials db, recovery_codes db)"

lemma perform_platform_events:
  assumes run: "perform_platform fingerprint digest now dbnow corr fo fi token p q db = Inr (d, db')"
  shows "case d of None \<Rightarrow> (\<exists>ev. platform_audit_events db' = platform_audit_events db @ [ev] \<and> ae_result ev = ''allowed'')
    | Some _ \<Rightarrow> platform_audit_events db' = platform_audit_events db"
proof (cases q)
  case (Open_organization key body)
  show ?thesis
  proof (cases body)
    case (Some offer)
    with run Open_organization show ?thesis
      by (cases "open_organization fingerprint digest now fo fi token (pp_identity p) key offer (a_org db)")
        (auto split: if_splits)
  qed (use run Open_organization in simp)
next
  case (Set_status target active)
  with run show ?thesis
    by (cases target;
        cases "set_organization_status now (the target) (if active then ''active'' else ''suspended'') (a_org db)")
      (auto simp: on_organizations_def)
next
  case (Set_expiry target body)
  with run show ?thesis
    by (cases target; cases body; cases "set_organization_expiry (the target) (the body) (a_org db)")
      (auto simp: on_organizations_def)
next
  case (Reset_mfa target)
  with run show ?thesis
    by (cases target)
      (auto simp: reset_mfa_as_platform_administrator_def erase_mfa_def revoke_all_of_def audit_row_def split: if_splits)
qed

lemma platform_call_Inr:
  assumes "call_platform dis fingerprint digest c db = (Inr x, db')"
  shows "\<exists>ev. platform_audit_events db' = platform_audit_events db @ [ev] \<and> ae_result ev = ''allowed''"
proof (cases rule: platform_mutation_cases [of dis fingerprint digest "pc_now c" "pc_dbnow c" "pc_cookie c"
      "pc_correlation c" "pc_fresh_organization c" "pc_fresh_invitation c" "pc_token c" "pc_request c" db])
  case (refused e actor db1)
  with assms show ?thesis by (simp add: call_platform_def refuse_platform_def)
next
  case (performed p db1 described db2)
  have "platform_audit_events db1 = platform_audit_events db" using resolved_fields [OF performed(1)] by simp
  with assms performed(5) perform_platform_events [OF performed(4)] show ?thesis
    by (cases described) (auto simp: call_platform_def record_platform_def)
qed

lemma platform_call_Inl:
  assumes "call_platform dis fingerprint digest c db = (Inl e, db')"
  shows "platform_work db' = platform_work db
    \<and> (\<exists>ev. platform_audit_events db' = platform_audit_events db @ [ev] \<and> ae_result ev \<noteq> ''allowed'')"
proof (cases rule: platform_mutation_cases [of dis fingerprint digest "pc_now c" "pc_dbnow c" "pc_cookie c"
      "pc_correlation c" "pc_fresh_organization c" "pc_fresh_invitation c" "pc_token c" "pc_request c" db])
  case (refused e' actor db1)
  have "platform_work db1 = platform_work db" "platform_audit_events db1 = platform_audit_events db"
    using refused(2) resolved_fields by (auto simp: platform_work_def)
  with refused(1) assms show ?thesis
    by (auto simp: call_platform_def refuse_platform_def record_platform_def platform_work_def)
next
  case (performed p db1 described db2)
  with assms show ?thesis by (simp add: call_platform_def)
qed

interpretation platform_audit: audited_mutation "call_platform dis fingerprint digest" platform_audit_events platform_work
  by unfold_locales (use platform_call_Inr platform_call_Inl in blast)+

section \<open>The guarantees\<close>

text \<open>
  C11: a privileged organization mutation is guarded.  It succeeds only for the bearer of a live session
  of an active identity that passed the second factor recently (unless the installation disables it) and
  is an active administrator of that organization, which is active and not expired.
\<close>

theorem organization_mutation_guarded:
  assumes "organization_mutation dis digest now cookie corr org i token q db = (Inr x, db')"
  shows "\<exists>secret s g o' m. cookie = Some secret \<and> session_row db (digest secret) = Some (s, g) \<and> session_live now s g
    \<and> (dis \<or> recent_mfa (ss_mfa_verified_at s) now)
    \<and> find_organization (a_org db) org = Some o' \<and> effective_status (og_status o') (og_expires_at o') now = ''active''
    \<and> membership_of (a_org db) org (ss_identity s) = Some m \<and> active_admin m"
proof (cases rule: organization_mutation_cases [of dis digest now cookie corr org i token q db])
  case (refused e actor db1)
  with assms show ?thesis by (simp add: refuse_organization_def)
next
  case (performed p db1 target summary o')
  obtain secret s g where r: "cookie = Some secret" "session_row db (digest secret) = Some (s, g)"
      "session_live now s g" "pp_identity p = ss_identity s"
      "pp_mfa_verified_at p = (if dis then Some now else ss_mfa_verified_at s)"
    using resolved_Inr [OF performed(1)] by blast
  have "dis \<or> recent_mfa (ss_mfa_verified_at s) now" using performed(2) r(5) by (cases dis) (auto simp: has_recent_mfa_def)
  moreover have "\<exists>o' m. find_organization (a_org db) org = Some o'
      \<and> effective_status (og_status o') (og_expires_at o') now = ''active''
      \<and> membership_of (a_org db) org (ss_identity s) = Some m \<and> active_admin m"
    using performed(3) resolved_fields [OF performed(1)] r(4)
    by (auto simp: authorize_def split: option.splits if_splits)
  ultimately show ?thesis using r(1-3) by blast
qed

text \<open>An administrator with a verified session.\<close>

definition sample_administration :: auth_db where
  "sample_administration = empty_auth_db\<lparr>
     a_org := empty_org_db\<lparr>
       organizations := [\<lparr>og_id = ''o'', og_slug = ''acme'', og_display_name = ''Acme'', og_status = ''active'',
         og_expires_at = None, og_created_by = ''op''\<rparr>],
       identities := [\<lparr>gi_id = ''g'', gi_email = ''a@acme'', gi_display_name = ''Ann'', gi_status = ''active'',
         gi_password_hash = Some ''h1'', gi_security_version = 1\<rparr>],
       memberships := [\<lparr>mb_id = ''m'', mb_organization = ''o'', mb_identity = ''g'',
         mb_role = ''organization_admin'', mb_status = ''active''\<rparr>]\<rparr>,
     sessions := [\<lparr>ss_id = ''s'', ss_identity = ''g'', ss_version = 1, ss_token_hash = ''cookie'',
       ss_mfa_verified_at = Some 10, ss_expires_at = 1000, ss_last_seen_at = 10, ss_revoked_at = None\<rparr>]\<rparr>"

definition sample_revocation :: organization_call where
  "sample_revocation = \<lparr>oc_now = 20, oc_cookie = Some ''cookie'', oc_correlation = ''x'', oc_organization = ''o'',
     oc_fresh = ''i'', oc_token = ''t'', oc_request = Change_role (Some ''m'') (Some ''organization_admin'')\<rparr>"

definition sample_expiry :: platform_call where
  "sample_expiry = \<lparr>pc_now = 20, pc_dbnow = 20, pc_cookie = Some ''cookie'', pc_correlation = ''x'',
     pc_fresh_organization = ''o2'', pc_fresh_invitation = ''i'', pc_token = ''t'',
     pc_request = Set_expiry (Some ''o'') (Some None)\<rparr>"

lemmas sample_administration_run = sample_administration_def empty_auth_db_def empty_org_db_def
  resolved_def resolve_def in_transaction_def session_row_def identity_of_def session_live_def update_sessions_def
  require_recent_mfa_def has_recent_mfa_def recent_mfa_def MFA_RECENCY_def

lemma sample_revocation_succeeds:
  "\<exists>db'. call_organization False id sample_revocation sample_administration = (Inr (), db')"
  by (simp add: call_organization_def sample_revocation_def organization_mutation_def sample_administration_run
      authorize_def find_organization_def effective_status_def membership_of_def active_admin_def set_role_def
      locked_target_def active_admins_def)

lemma sample_expiry_refused:
  "\<exists>e db'. call_platform False (\<lambda>_. ''f'') id sample_expiry sample_administration = (Inl e, db')"
  by (simp add: call_platform_def sample_expiry_def platform_mutation_def sample_administration_run
      platform_administrator_def refuse_platform_def)

theorem organization_mutation_guarded_witness:
  "\<exists>s g. session_row sample_administration ''cookie'' = Some (s, g) \<and> session_live 20 s g"
proof -
  obtain db1 where "organization_mutation False id 20 (Some ''cookie'') ''x'' ''o'' ''i'' ''t''
      (Change_role (Some ''m'') (Some ''organization_admin'')) sample_administration = (Inr (), db1)"
    using sample_revocation_succeeds by (auto simp: call_organization_def sample_revocation_def)
  from organization_mutation_guarded [OF this] show ?thesis by auto
qed

end
