(* ===== verification/Joining.thy ===== *)
theory Joining
  imports PrivilegedAudit
begin

text \<open>
  Joining an organization (\<^verbatim>\<open>organization/invitations.py\<close> around the acceptance, and the invitation
  router of \<^verbatim>\<open>organization/api.py\<close>), and the views of organizations, members, invitations and of the
  signed-in identity.  The preview of an invitation is read in a transaction of its own.
\<close>

section \<open>Views\<close>

definition organization_view :: "nat \<Rightarrow> organization \<Rightarrow> string \<times> string \<times> string \<times> string \<times> nat option" where
  "organization_view now o' =
     (og_id o', og_slug o', og_display_name o', effective_status (og_status o') (og_expires_at o') now, og_expires_at o')"

definition quota_view :: "nat \<Rightarrow> organization \<Rightarrow> quota \<Rightarrow> string \<times> int \<times> nat \<times> nat \<times> string" where
  "quota_view now o' q =
     (qu_plan_key q, qu_allowance q, qu_period_start q, qu_period_end q,
      quota_status (og_status o') (og_expires_at o') (qu_status q) now)"

definition organization_detail where
  "organization_detail now org db =
     (case find_organization db org of
        None \<Rightarrow> None
      | Some o' \<Rightarrow> map_option (\<lambda>q. (organization_view now o', quota_view now o' q))
                    (find (\<lambda>q. qu_organization q = org) (quotas db)))"

definition invitation_detail where
  "invitation_detail now org i db =
     map_option (\<lambda>iv. (iv_id iv, iv_organization iv, iv_email iv, iv_role iv, invitation_status now iv,
                        iv_expires_at iv, iv_accepted_at iv, iv_revoked_at iv))
       (find_invitation db org i)"

text \<open>\<open>collate\<close> is the order of texts of the database.\<close>

definition member_list :: "(string \<Rightarrow> 'k :: linorder) \<Rightarrow> string \<Rightarrow> org_db \<Rightarrow> (membership \<times> identity) list" where
  "member_list collate org db =
     sort_key (\<lambda>(m, g). (collate (gi_email g), mb_id m))
       (concat (map (\<lambda>m. map (\<lambda>g. (m, g)) (filter (\<lambda>g. gi_id g = mb_identity m) (identities db)))
          (filter (\<lambda>m. mb_organization m = org \<and> mb_status m \<noteq> ''removed'') (memberships db))))"

definition current_session where
  "current_session disable_mfa digest now cookie db =
     bind_result (resolved disable_mfa digest now False cookie db) (\<lambda>(p, db1).
       Inr ((pp_identity p, pp_email p, pp_expires_at p, has_recent_mfa p now), db1))"

definition my_memberships :: "(string \<Rightarrow> 'k :: linorder) \<Rightarrow> string \<Rightarrow> org_db \<Rightarrow> (membership \<times> organization) list" where
  "my_memberships collate who db =
     sort_key (\<lambda>(m, o'). (collate (og_display_name o'), mb_id m))
       (concat (map (\<lambda>m. map (\<lambda>o'. (m, o')) (filter (\<lambda>o'. og_id o' = mb_organization m) (organizations db)))
          (filter (\<lambda>m. mb_identity m = who \<and> mb_status m \<noteq> ''removed'') (memberships db))))"

definition is_platform_admin :: "auth_db \<Rightarrow> principal \<Rightarrow> bool" where
  "is_platform_admin db p \<longleftrightarrow>
     list_ex (\<lambda>g. gi_id g = pp_identity p \<and> gi_status g = ''active'' \<and> gi_security_version g = pp_version p
        \<and> list_ex (operator_grant_holds db g) (grants db)) (identities (a_org db))"

definition current_me where
  "current_me collate disable_mfa digest now cookie db =
     bind_result (resolved disable_mfa digest now False cookie db) (\<lambda>(p, db1).
       Inr ((pp_identity p, pp_email p, is_platform_admin db1 p, my_memberships collate (pp_identity p) (a_org db1)), db1))"

section \<open>Accepting an invitation\<close>

record preview =
  pv_id :: string
  pv_organization :: string
  pv_display_name :: string
  pv_email :: string
  pv_role :: string
  pv_status :: string
  pv_identity :: "string option"
  pv_token_hash :: string

definition preview_of :: "(string \<Rightarrow> string) \<Rightarrow> nat \<Rightarrow> string \<Rightarrow> org_db \<Rightarrow> preview option" where
  "preview_of digest now token db =
     (case inspect_invitation digest now token db of
        None \<Rightarrow> None
      | Some (iv, status) \<Rightarrow>
          Some \<lparr>pv_id = iv_id iv, pv_organization = iv_organization iv,
                pv_display_name = (case find_organization db (iv_organization iv) of None \<Rightarrow> [] | Some o' \<Rightarrow> og_display_name o'),
                pv_email = iv_email iv, pv_role = iv_role iv, pv_status = status,
                pv_identity = map_option gi_id (find (\<lambda>g. gi_email g = iv_email iv) (identities db)),
                pv_token_hash = digest token\<rparr>)"

text \<open>\<open>InvitationAcceptance.record\<close>.\<close>

definition acceptance_event :: "preview \<Rightarrow> string \<Rightarrow> string option \<Rightarrow> string \<Rightarrow> audit_event" where
  "acceptance_event pv correlation actor outcome =
     mutation_event (Some (pv_organization pv)) actor ''organization.invitation.accept'' ''organization_invitation''
       (Some (pv_id pv)) outcome correlation
       (if outcome = ''allowed'' then ''Accepted organization invitation''
        else if outcome = ''denied'' then ''Organization invitation acceptance rejected''
        else ''Organization invitation acceptance failed'')"

definition record_acceptance :: "preview \<Rightarrow> string \<Rightarrow> string \<Rightarrow> auth_db \<Rightarrow> auth_db" where
  "record_acceptance pv correlation outcome db =
     db\<lparr>audit_events := audit_events db @ [acceptance_event pv correlation (pv_identity pv) outcome]\<rparr>"

text \<open>The identity that accepted: the one of the email address of the invitation.\<close>

definition accepted_by :: "preview \<Rightarrow> org_db \<Rightarrow> org_db \<Rightarrow> string option" where
  "accepted_by pv before after =
     (case find (\<lambda>x. iv_organization x = pv_organization pv \<and> iv_id x = pv_id pv \<and> iv_token_hash x = pv_token_hash pv)
             (invitations before) of
        None \<Rightarrow> None
      | Some iv \<Rightarrow> map_option gi_id (find (\<lambda>g. gi_email g = iv_email iv) (identities after)))"

definition accept_recorded :: "nat \<Rightarrow> string \<Rightarrow> string \<Rightarrow> string \<Rightarrow> preview \<Rightarrow> string option \<Rightarrow> string option \<Rightarrow> auth_db
    \<Rightarrow> (http_error, unit) result \<times> auth_db" where
  "accept_recorded now fresh_identity fresh_membership correlation pv name password_hash db =
     (case accept_invitation now fresh_identity fresh_membership (pv_organization pv) (pv_id pv) (pv_token_hash pv)
             name password_hash (a_org db) of
        Inl e \<Rightarrow> (Inl e, record_acceptance pv correlation (denied_or_failed e) db)
      | Inr o' \<Rightarrow>
          (Inr (), db\<lparr>a_org := o', audit_events := audit_events db @
             [acceptance_event pv correlation (accepted_by pv (a_org db) o') ''allowed'']\<rparr>))"

text \<open>The route.  A request body is the token, the display name and the password.\<close>

definition accept_route :: "(string \<Rightarrow> string) \<Rightarrow> (ustr \<Rightarrow> string) \<Rightarrow> bool \<Rightarrow> nat \<Rightarrow> string \<Rightarrow> string \<Rightarrow> string
    \<Rightarrow> (string \<times> string option \<times> ustr option) option \<Rightarrow> auth_db \<Rightarrow> (http_error, unit) result \<times> auth_db" where
  "accept_route digest argon2_hash capacity_free now fresh_identity fresh_membership correlation body db =
     (case body of
        None \<Rightarrow> (Inl (Http 422 ''invalid_invitation_acceptance_request''), db)
      | Some (token, name, password) \<Rightarrow>
          (case preview_of digest now token (a_org db) of
             None \<Rightarrow> (Inl (Http 404 ''invitation_not_found''), db)
           | Some pv \<Rightarrow>
               if pv_identity pv \<noteq> None then
                 accept_recorded now fresh_identity fresh_membership correlation pv name None db
               else if name = None \<or> name = Some [] \<or> password = None then
                 (Inl (Http 422 ''new_identity_credentials_required''), record_acceptance pv correlation ''denied'' db)
               else if \<not> capacity_free then
                 (Inl (Http 503 ''authentication_temporarily_unavailable''), record_acceptance pv correlation ''failed'' db)
               else if \<not> password_acceptable (the password) then
                 (Inl (Http 422 ''password_policy_failed''), record_acceptance pv correlation ''denied'' db)
               else accept_recorded now fresh_identity fresh_membership correlation pv name
                      (Some (argon2_hash (the password))) db))"

text \<open>\<open>request_correlation_id\<close>: an acceptable header, or a fresh identifier.\<close>

definition request_correlation_id :: "string \<Rightarrow> string \<Rightarrow> string" where
  "request_correlation_id fresh supplied =
     (if supplied \<noteq> [] \<and> length supplied \<le> 128 \<and> list_all printable supplied then supplied else fresh)"

section \<open>Acceptance keeps the contract of an audited mutation\<close>

record acceptance_call =
  ac_now :: nat
  ac_fresh_identity :: string
  ac_fresh_membership :: string
  ac_correlation :: string
  ac_preview :: preview
  ac_name :: "string option"
  ac_password_hash :: "string option"

definition call_acceptance :: "acceptance_call \<Rightarrow> auth_db \<Rightarrow> (http_error, unit) result \<times> auth_db" where
  "call_acceptance c db =
     accept_recorded (ac_now c) (ac_fresh_identity c) (ac_fresh_membership c) (ac_correlation c) (ac_preview c)
       (ac_name c) (ac_password_hash c) db"

lemma acceptance_event_outcome [simp]: "ae_result (acceptance_event pv correlation actor outcome) = outcome"
  by (simp add: acceptance_event_def mutation_event_def)

interpretation acceptance_audit: audited_mutation call_acceptance audit_events a_org
  by unfold_locales
    (auto simp: call_acceptance_def accept_recorded_def record_acceptance_def split: sum.splits)

text \<open>The view of the signed-in identity and the guards agree.\<close>

lemma me_agrees_with_guard: "is_platform_admin db p \<longleftrightarrow> platform_administrator db p = Inr p"
  by (simp add: is_platform_admin_def platform_administrator_def)

lemma my_memberships_shows_admin:
  assumes "membership_of db org who = Some m" and "active_admin m" and "o' \<in> set (organizations db)" and "og_id o' = org"
  shows "(m, o') \<in> set (my_memberships collate who db)"
proof -
  have "m \<in> set (memberships db)" "mb_organization m = org" "mb_identity m = who"
    using assms(1) by (auto simp: membership_of_def find_Some_iff)
  then show ?thesis using assms(2-4) by (auto simp: my_memberships_def active_admin_def)
qed

text \<open>A refused acceptance always leaves an event; an acceptance route that is refused changes no membership.\<close>

lemma accept_route_refused:
  assumes "accept_route digest argon2_hash free now fi fm correlation body db = (Inl e, db')"
  shows "a_org db' = a_org db \<and> allowed_events (audit_events db') = allowed_events (audit_events db)"
  using assms
  by (auto simp: accept_route_def accept_recorded_def record_acceptance_def split: option.splits if_splits sum.splits)

section \<open>The guarantees\<close>

text \<open>
  C12: the audit log counts privileged mutations.  Over any list of organization requests, and over any
  list of platform requests or of acceptances of invitations, the log grows by exactly one event marked
  allowed for each request that succeeded; and if all of them are refused, the organizations, members, invitations and second factors
  are what they were.
\<close>

theorem privileged_mutations_audited:
  assumes "run_calls (call_organization dis digest) calls db = (outcomes, db1)"
    and "run_calls (call_platform dis fingerprint digest) platform_calls db = (platform_outcomes, db2)"
    and "run_calls call_acceptance acceptances db = (acceptance_outcomes, db3)"
  shows "allowed_events (audit_events db1) = allowed_events (audit_events db) + length (filter succeeded outcomes)
    \<and> allowed_events (platform_audit_events db2)
      = allowed_events (platform_audit_events db) + length (filter succeeded platform_outcomes)
    \<and> allowed_events (audit_events db3)
      = allowed_events (audit_events db) + length (filter succeeded acceptance_outcomes)
    \<and> (list_all (Not \<circ> succeeded) outcomes \<longrightarrow> a_org db1 = a_org db)
    \<and> (list_all (Not \<circ> succeeded) platform_outcomes \<longrightarrow> platform_work db2 = platform_work db)
    \<and> (list_all (Not \<circ> succeeded) acceptance_outcomes \<longrightarrow> a_org db3 = a_org db)"
  using organization_audit.log_counts [OF assms(1)] platform_audit.log_counts [OF assms(2)]
    organization_audit.refused_run_changes_nothing [OF assms(1)]
    platform_audit.refused_run_changes_nothing [OF assms(2)]
    acceptance_audit.log_counts [OF assms(3)] acceptance_audit.refused_run_changes_nothing [OF assms(3)]
  by auto

theorem privileged_mutations_audited_witness:
  "allowed_events (audit_events (snd (run_calls (call_organization False id) [sample_revocation] sample_administration))) = 1
   \<and> platform_work (snd (run_calls (call_platform False (\<lambda>_. ''f'') id) [sample_expiry] sample_administration))
     = platform_work sample_administration"
proof -
  obtain db1 where "call_organization False id sample_revocation sample_administration = (Inr (), db1)"
    using sample_revocation_succeeds by blast
  then have 1: "run_calls (call_organization False id) [sample_revocation] sample_administration = ([Inr ()], db1)"
    by simp
  obtain e db2 where "call_platform False (\<lambda>_. ''f'') id sample_expiry sample_administration = (Inl e, db2)"
    using sample_expiry_refused by blast
  then have 2: "run_calls (call_platform False (\<lambda>_. ''f'') id) [sample_expiry] sample_administration = ([Inl e], db2)"
    by simp
  have 3: "run_calls call_acceptance [] sample_administration = ([], sample_administration)" by simp
  have "allowed_events (audit_events sample_administration) = 0"
    by (simp add: sample_administration_def empty_auth_db_def)
  with privileged_mutations_audited [OF 1 2 3] show ?thesis unfolding 1 2 by (simp add: succeeded_def)
qed

end
