(* ===== verification/Documents.thy ===== *)
theory Documents
  imports PyText
begin

text \<open>
  \<^verbatim>\<open>modules/cases/parser.py\<close>: a document becomes a text and numbered paragraphs with their offsets in it.
  What the libraries read from a file is an argument: the pages of a PDF, the paragraphs (with the name of
  their style) and tables of a DOCX, and the decoding of UTF-8.
\<close>

section \<open>Sentences\<close>

fun split_where :: "('a \<Rightarrow> bool) \<Rightarrow> 'a list \<Rightarrow> 'a list list" where
  "split_where P [] = [[]]"
| "split_where P (c # s) =
     (if P c then [] # split_where P s
      else case split_where P s of [] \<Rightarrow> [[c]] | w # ws \<Rightarrow> (c # w) # ws)"

text \<open>The delimiters: semicolons, the Chinese full stop, the line feed, exclamation and question marks.\<close>

definition sentence_end :: "nat \<Rightarrow> bool" where
  "sentence_end c \<longleftrightarrow> c \<in> {65307, 59, 12290, 10, 65281, 33, 65311, 63}"

definition split_sentences :: "nat \<Rightarrow> ustr \<Rightarrow> ustr list" where
  "split_sentences min_length text =
     map strip (filter (\<lambda>c. length (strip c) \<ge> min_length) (split_where sentence_end text))"

section \<open>Paragraphs\<close>

record paragraph_block =
  pg_id :: string
  pg_index :: nat
  pg_section :: ustr
  pg_text :: ustr
  pg_start :: nat
  pg_end :: nat

record parsed =
  pd_text :: ustr
  pd_paragraphs :: "paragraph_block list"
  pd_sha256 :: string
  pd_scanned :: bool

text \<open>The variables of the parsing loops: paragraphs, chunks of the full text, offset, index.\<close>

record parsing =
  st_paragraphs :: "paragraph_block list"
  st_chunks :: "ustr list"
  st_offset :: nat
  st_index :: nat

definition start_parsing :: parsing where
  "start_parsing = \<lparr>st_paragraphs = [], st_chunks = [], st_offset = 0, st_index = 1\<rparr>"

definition add_block :: "ustr \<Rightarrow> ustr \<Rightarrow> parsing \<Rightarrow> parsing" where
  "add_block block_section text st =
     (let offset_end = st_offset st + length text
      in \<lparr>st_paragraphs = st_paragraphs st @
            [\<lparr>pg_id = ''p'' @ str_nat (st_index st), pg_index = st_index st, pg_section = block_section,
              pg_text = text, pg_start = st_offset st, pg_end = offset_end\<rparr>],
          st_chunks = st_chunks st @ [text], st_offset = offset_end + 1, st_index = st_index st + 1\<rparr>)"

definition full_text :: "parsing \<Rightarrow> ustr" where
  "full_text st = join [10] (st_chunks st)"

definition parsed_from :: "string \<Rightarrow> bool \<Rightarrow> parsing \<Rightarrow> parsed" where
  "parsed_from sha256 scanned st =
     \<lparr>pd_text = full_text st, pd_paragraphs = st_paragraphs st, pd_sha256 = sha256, pd_scanned = scanned\<rparr>"

definition stripped_lines :: "ustr \<Rightarrow> ustr list" where
  "stripped_lines text = filter (\<lambda>l. l \<noteq> []) (map strip (split_on 10 text))"

definition parse_text :: "ustr \<Rightarrow> string \<Rightarrow> parsed" where
  "parse_text text sha256 =
     (let st = fold (add_block [27491, 25991]) (stripped_lines text) start_parsing
      in parsed_from sha256 (strip (full_text st) = []) st)"

text \<open>A PDF: lines are grouped up to one that ends a sentence, and at the end of the page.\<close>

definition ends_paragraph :: "ustr \<Rightarrow> bool" where
  "ends_paragraph line \<longleftrightarrow> line \<noteq> [] \<and> last line \<in> {46, 12290, 65307, 59, 65306, 58, 65281, 33}"

definition pdf_line :: "ustr \<Rightarrow> ustr \<Rightarrow> ustr list \<times> parsing \<Rightarrow> ustr list \<times> parsing" where
  "pdf_line page_section line = (\<lambda>(current, st).
     (let current = current @ [line]
      in if ends_paragraph line then ([], add_block page_section (join [32] current) st) else (current, st)))"

definition pdf_page :: "nat \<times> ustr option \<Rightarrow> parsing \<Rightarrow> parsing" where
  "pdf_page page st =
     (let (number, text) = page;
          page_section = [31532, 32] @ u (str_nat number) @ [32, 39029];
          (current, st) = fold (pdf_line page_section)
            (stripped_lines (case text of None \<Rightarrow> [] | Some t \<Rightarrow> t)) ([], st)
      in if current \<noteq> [] then add_block page_section (join [32] current) st else st)"

definition parse_pdf :: "ustr option list \<Rightarrow> string \<Rightarrow> parsed" where
  "parse_pdf pages sha256 =
     (let st = fold pdf_page (enumerate 1 pages) start_parsing
      in parsed_from sha256 (length (strip (full_text st)) < 50) st)"

text \<open>A DOCX: a heading opens a section; every table with text is a paragraph of its own.\<close>

definition docx_paragraph :: "ustr \<times> ustr option \<Rightarrow> ustr \<times> parsing \<Rightarrow> ustr \<times> parsing" where
  "docx_paragraph p = (\<lambda>(current_section, st).
     (let (text, style) = p; raw_text = strip text
      in if raw_text = [] then (current_section, st)
         else let style_name = (case style of None \<Rightarrow> [] | Some n \<Rightarrow> lower n);
                  current_section = (if occurs_in (u ''heading'') style_name \<or> occurs_in (u ''title'') style_name
                                     then take 64 raw_text else current_section)
              in (current_section, add_block current_section raw_text st)))"

definition table_lines :: "ustr list list \<Rightarrow> ustr list" where
  "table_lines rows =
     filter (\<lambda>r. r \<noteq> []) (map (\<lambda>cells. join (u '' | '') (filter (\<lambda>c. c \<noteq> []) (map strip cells))) rows)"

definition docx_table :: "nat \<times> ustr list list \<Rightarrow> parsing \<Rightarrow> parsing" where
  "docx_table t st =
     (let (number, rows) = t; lines = table_lines rows
      in if lines = [] then st
         else add_block ([34920, 26684, 32] @ u (str_nat number))
                ([91, 34920, 26684, 32] @ u (str_nat number) @ [93, 10] @ join [10] lines) st)"

definition parse_docx :: "(ustr \<times> ustr option) list \<Rightarrow> ustr list list list \<Rightarrow> string \<Rightarrow> parsed" where
  "parse_docx paragraphs tables sha256 =
     (let (_, st) = fold docx_paragraph paragraphs ([27491, 25991], start_parsing);
          st = fold docx_table (enumerate 1 tables) st
      in parsed_from sha256 (length (strip (full_text st)) = 0) st)"

text \<open>The choice of the parser; what is read from the bytes and the drawings found in them are arguments.\<close>

definition parse_bytes :: "('b \<Rightarrow> string) \<Rightarrow> ('b \<Rightarrow> (ustr \<times> ustr option) list \<times> ustr list list list) \<Rightarrow> ('b \<Rightarrow> ustr option list)
    \<Rightarrow> ('b \<Rightarrow> ustr) \<Rightarrow> ('b \<Rightarrow> ustr \<Rightarrow> string option \<Rightarrow> ustr \<Rightarrow> 'd list) \<Rightarrow> 'b \<Rightarrow> ustr \<Rightarrow> string option
    \<Rightarrow> parsed \<times> 'd list" where
  "parse_bytes compute_sha256 read_docx read_pdf decode extract_drawings data filename mime =
     (let sha256 = compute_sha256 data;
          lower_name = lower filename;
          doc_result =
            (if ends_with lower_name (u ''.docx'')
                \<or> mime = Some ''application/vnd.openxmlformats-officedocument.wordprocessingml.document''
             then (case read_docx data of (paragraphs, tables) \<Rightarrow> parse_docx paragraphs tables sha256)
             else if ends_with lower_name (u ''.pdf'') \<or> mime = Some ''application/pdf''
             then parse_pdf (read_pdf data) sha256
             else parse_text (decode data) sha256)
      in (doc_result, extract_drawings data filename mime (pd_text doc_result)))"

section \<open>Offsets\<close>

definition slice :: "nat \<Rightarrow> nat \<Rightarrow> 'a list \<Rightarrow> 'a list" where
  "slice i j xs = take (j - i) (drop i xs)"

text \<open>The invariant of every parsing loop.\<close>

definition parsing_ok :: "parsing \<Rightarrow> bool" where
  "parsing_ok st \<longleftrightarrow> map pg_text (st_paragraphs st) = st_chunks st
     \<and> st_offset st = length (full_text st) + (if st_chunks st = [] then 0 else 1)
     \<and> map pg_index (st_paragraphs st) = [1..<Suc (length (st_chunks st))]
     \<and> st_index st = Suc (length (st_chunks st))
     \<and> (\<forall>p \<in> set (st_paragraphs st). pg_id p = ''p'' @ str_nat (pg_index p)
          \<and> pg_end p = pg_start p + length (pg_text p) \<and> pg_end p \<le> length (full_text st)
          \<and> slice (pg_start p) (pg_end p) (full_text st) = pg_text p)"

lemma join_snoc: "join sep (xs @ [x]) = (if xs = [] then x else join sep xs @ sep @ x)"
  by (induction sep xs rule: join.induct) auto

lemma slice_append: "j \<le> length xs \<Longrightarrow> slice i j (xs @ ys) = slice i j xs"
  by (simp add: slice_def)

lemma start_ok [simp]: "parsing_ok start_parsing"
  by (simp add: parsing_ok_def start_parsing_def full_text_def)

lemma add_block_ok:
  assumes "parsing_ok st"
  shows "parsing_ok (add_block block_section text st)"
proof -
  have t: "full_text (add_block block_section text st)
      = full_text st @ (if st_chunks st = [] then [] else [10]) @ text"
    by (simp add: full_text_def add_block_def Let_def join_snoc)
  have "full_text st = []" if "st_chunks st = []" using that by (simp add: full_text_def)
  with assms show ?thesis
    unfolding parsing_ok_def t by (auto simp: add_block_def Let_def slice_append slice_def)
qed

lemma fold_ok: "(\<And>x st. parsing_ok st \<Longrightarrow> parsing_ok (f x st)) \<Longrightarrow> parsing_ok st \<Longrightarrow> parsing_ok (fold f xs st)"
  by (induction xs arbitrary: st) auto

lemma fold_snd_ok:
  "(\<And>x a st. parsing_ok st \<Longrightarrow> parsing_ok (snd (f x (a, st)))) \<Longrightarrow> parsing_ok st \<Longrightarrow> parsing_ok (snd (fold f xs (a, st)))"
proof (induction xs arbitrary: a st)
  case (Cons x xs)
  obtain a' st' where "f x (a, st) = (a', st')" by fastforce
  moreover have "parsing_ok st'" using Cons.prems(1) [OF Cons.prems(2), of x a] calculation by simp
  ultimately show ?case using Cons.IH [OF Cons.prems(1)] by simp
qed simp

lemma pdf_page_ok: "parsing_ok st \<Longrightarrow> parsing_ok (pdf_page page st)"
proof -
  assume ok: "parsing_ok st"
  obtain number content where page: "page = (number, content)" by (cases page)
  let ?s = "[31532, 32] @ u (str_nat number) @ [32, 39029]"
  obtain current st' where run: "fold (pdf_line ?s) (stripped_lines (case content of None \<Rightarrow> [] | Some t \<Rightarrow> t)) ([], st)
      = (current, st')" by fastforce
  have "parsing_ok (snd (fold (pdf_line ?s) (stripped_lines (case content of None \<Rightarrow> [] | Some t \<Rightarrow> t)) ([], st)))"
    by (rule fold_snd_ok [OF _ ok]) (simp add: pdf_line_def Let_def add_block_ok)
  with run page show ?thesis by (simp add: pdf_page_def Let_def add_block_ok)
qed

lemma docx_paragraph_ok: "parsing_ok st \<Longrightarrow> parsing_ok (snd (docx_paragraph p (sec, st)))"
  by (cases p) (simp add: docx_paragraph_def Let_def add_block_ok)

lemma docx_table_ok: "parsing_ok st \<Longrightarrow> parsing_ok (docx_table t st)"
  by (cases t) (simp add: docx_table_def Let_def add_block_ok)

lemma parse_docx_state: "\<exists>st scanned. parsing_ok st \<and> parse_docx paragraphs tables h = parsed_from h scanned st"
proof -
  obtain sec st where run: "fold docx_paragraph paragraphs ([27491, 25991], start_parsing) = (sec, st)" by fastforce
  have "parsing_ok (snd (fold docx_paragraph paragraphs ([27491, 25991], start_parsing)))"
    by (rule fold_snd_ok [OF _ start_ok]) (rule docx_paragraph_ok)
  then have "parsing_ok (fold docx_table (enumerate 1 tables) st)"
    using run by (intro fold_ok [OF docx_table_ok]) simp_all
  then show ?thesis unfolding parse_docx_def Let_def run by auto
qed

lemma parse_bytes_state:
  assumes "parse_bytes sha docx pdf decode drawings data filename mime = (d, ds)"
  shows "\<exists>st scanned. parsing_ok st \<and> d = parsed_from (sha data) scanned st"
proof -
  have "\<exists>st scanned. parsing_ok st \<and> parse_text t h = parsed_from h scanned st" for t h
    unfolding parse_text_def Let_def by (blast intro: fold_ok add_block_ok start_ok)
  moreover have "\<exists>st scanned. parsing_ok st \<and> parse_pdf ps h = parsed_from h scanned st" for ps h
    unfolding parse_pdf_def Let_def by (blast intro: fold_ok pdf_page_ok start_ok)
  moreover obtain ps ts where "docx data = (ps, ts)" by fastforce
  moreover from this assms have "d = parse_docx ps ts (sha data) \<or> d = parse_pdf (pdf data) (sha data)
      \<or> d = parse_text (decode data) (sha data)"
    by (auto simp: parse_bytes_def Let_def split: if_splits)
  ultimately show ?thesis using parse_docx_state [of ps ts "sha data"] by metis
qed

lemma parsed_slice:
  assumes "parse_bytes sha docx pdf decode drawings data filename mime = (d, ds)" and "p \<in> set (pd_paragraphs d)"
  shows "slice (pg_start p) (pg_end p) (pd_text d) = pg_text p"
proof -
  obtain st scanned where "parsing_ok st" "d = parsed_from (sha data) scanned st"
    using parse_bytes_state [OF assms(1)] by blast
  moreover from this have "\<forall>p \<in> set (st_paragraphs st). slice (pg_start p) (pg_end p) (full_text st) = pg_text p"
    unfolding parsing_ok_def by blast
  ultimately show ?thesis using assms(2) by (simp add: parsed_from_def)
qed

text \<open>
  C37: the offsets of a document are exact.  Whatever the format, the text of every paragraph is the slice
  of the document text that its offsets name, paragraphs are numbered from 1, their identifiers are
  distinct, and the document text is the paragraphs joined by line feeds.
\<close>

theorem paragraph_offsets_exact:
  assumes "parse_bytes sha docx pdf decode drawings data filename mime = (d, ds)"
  shows "(\<forall>p \<in> set (pd_paragraphs d). pg_start p \<le> pg_end p \<and> pg_end p \<le> length (pd_text d)
        \<and> slice (pg_start p) (pg_end p) (pd_text d) = pg_text p)
    \<and> map pg_index (pd_paragraphs d) = [1..<Suc (length (pd_paragraphs d))]
    \<and> distinct (map pg_id (pd_paragraphs d))
    \<and> pd_text d = join [10] (map pg_text (pd_paragraphs d)) \<and> pd_sha256 d = sha data"
proof -
  obtain st scanned where st: "parsing_ok st" "d = parsed_from (sha data) scanned st"
    using parse_bytes_state [OF assms] by blast
  have l: "length (st_paragraphs st) = length (st_chunks st)"
    using st(1) unfolding parsing_ok_def by (metis length_map)
  have idx: "map pg_index (st_paragraphs st) = [1..<Suc (length (st_chunks st))]"
    using st(1) by (simp only: parsing_ok_def)
  have "map pg_id (st_paragraphs st) = map (\<lambda>i. ''p'' @ str_nat i) (map pg_index (st_paragraphs st))"
    unfolding map_map using st(1) by (intro map_cong refl) (simp add: parsing_ok_def del: upt_Suc)
  also have "distinct \<dots>"
    unfolding idx by (auto simp: distinct_map inj_on_def simp del: upt_Suc dest: str_nat_inj)
  finally have "distinct (map pg_id (st_paragraphs st))" .
  with st l show ?thesis by (auto simp: parsing_ok_def parsed_from_def full_text_def simp del: upt_Suc)
qed

definition sample_document :: "parsed \<times> nat list" where
  "sample_document = parse_bytes (\<lambda>_. ''h'') (\<lambda>_. ([], [])) (\<lambda>_. []) id (\<lambda>_ _ _ _. [])
     [97, 10, 32, 98] (u ''a'') None"

lemma sample_document_texts: "map pg_text (pd_paragraphs (fst sample_document)) = [[97], [98]]"
  by (simp add: sample_document_def parse_bytes_def Let_def ends_with_def lower_def lower_cp_def u_def parse_text_def parsed_from_def
      stripped_lines_def strip_def lstrip_def rstrip_def is_space_def add_block_def start_parsing_def)

theorem paragraph_offsets_exact_witness: "pd_text (fst sample_document) = [97, 10, 98]"
proof -
  obtain d ds where r: "sample_document = (d, ds)" by (cases sample_document)
  have "pd_text d = join [10] (map pg_text (pd_paragraphs d))"
    using paragraph_offsets_exact [OF r [unfolded sample_document_def]] by blast
  then show ?thesis using sample_document_texts by (simp add: r)
qed

section \<open>Sentences are pieces of the text\<close>

lemma occurs_in_refl [simp]: "occurs_in s s"
  unfolding occurs_in_iff by (intro exI [of _ "[]"]) simp

lemma occurs_in_trans: "occurs_in a b \<Longrightarrow> occurs_in b c \<Longrightarrow> occurs_in a c"
  unfolding occurs_in_iff by (metis append_assoc)

lemma occurs_in_take: "occurs_in (take n s) s"
  unfolding occurs_in_iff by (intro exI [of _ "[]"] exI [of _ "drop n s"]) simp

lemma occurs_in_drop: "occurs_in (drop n s) s"
  unfolding occurs_in_iff by (intro exI [of _ "take n s"] exI [of _ "[]"]) simp

lemma occurs_in_slice: "occurs_in (slice i j s) s"
  unfolding slice_def using occurs_in_take occurs_in_drop occurs_in_trans by blast

lemma occurs_in_strip: "occurs_in (strip s) s"
proof -
  have "occurs_in (lstrip s) s" unfolding lstrip_def dropWhile_eq_drop by (rule occurs_in_drop)
  moreover have "occurs_in (rstrip t) t" for t
    unfolding rstrip_def dropWhile_eq_drop by (simp add: rev_drop occurs_in_take)
  ultimately show ?thesis unfolding strip_def using occurs_in_trans by blast
qed

lemma split_where_not_Nil [simp]: "split_where P s \<noteq> []"
  by (cases s) (auto split: list.splits)

lemma split_where_pieces: "w \<in> set (split_where P s) \<Longrightarrow> occurs_in w s"
proof -
  have "\<exists>r. s = hd (split_where P s) @ r" for s
    by (induction P s rule: split_where.induct) (auto split: list.splits)
  moreover assume "w \<in> set (split_where P s)"
  ultimately show ?thesis
  proof (induction s arbitrary: w)
    case (Cons c s)
    show ?case
    proof (cases "w \<in> set (split_where P s)")
      case True
      then have "occurs_in w s" using Cons by blast
      then show ?thesis by simp
    next
      case False
      then have "w = hd (split_where P (c # s))" using Cons.prems(2) by (auto split: if_splits list.splits)
      then show ?thesis using Cons.prems(1) [of "c # s"] unfolding occurs_in_iff
        by (metis append_Nil)
    qed
  qed simp
qed

lemma sentence_in_text: "s \<in> set (split_sentences n text) \<Longrightarrow> occurs_in s text"
  using split_where_pieces occurs_in_strip occurs_in_trans by (fastforce simp: split_sentences_def)

end
