(* ===== verification/FeatureExtract.thy ===== *)
theory FeatureExtract
  imports Documents
begin

text \<open>
  \<^verbatim>\<open>modules/features/extractor.py\<close>: drafting technical features from the paragraphs of a document by rules.
  What the language model returns is an argument.  Chinese words are lists of code points; each is
  spelled out in the text before its definition.
\<close>

section \<open>Drafts\<close>

record draft_feature =
  df_code :: string
  df_type :: string
  df_statement :: ustr
  df_paragraph :: "string option"
  df_quote :: "ustr option"
  df_sort :: nat

text \<open>The words for technical field, title of the invention, main text and background.\<close>

definition technical_field :: ustr where "technical_field = [25216, 26415, 39046, 22495]"
definition invention_title :: ustr where "invention_title = [21457, 26126, 21517, 31216]"
definition main_text :: ustr where "main_text = [27491, 25991]"
definition background :: ustr where "background = [32972, 26223, 25216, 26415]"

text \<open>
  The pattern of a preamble: the words for \<open>a kind of\<close>, at least one character that is no line feed, and
  the nearest word for method, system, apparatus, device, medium or component.
\<close>

definition a_kind_of :: ustr where "a_kind_of = [19968, 31181]"

definition subject_words :: "ustr list" where
  "subject_words = [[26041, 27861], [31995, 32479], [35013, 32622], [35774, 22791], [20171, 36136], [26500, 20214]]"

fun lazy_match :: "ustr \<Rightarrow> ustr option" where
  "lazy_match [] = None"
| "lazy_match (c # s) =
     (if c = 10 then None
      else case find (starts_with s) subject_words of
             Some w \<Rightarrow> Some (c # w)
           | None \<Rightarrow> map_option ((#) c) (lazy_match s))"

fun preamble_match :: "ustr \<Rightarrow> ustr option" where
  "preamble_match [] = None"
| "preamble_match (c # s) =
     (case (if starts_with (c # s) a_kind_of then lazy_match (drop 2 (c # s)) else None) of
        Some m \<Rightarrow> Some (a_kind_of @ m)
      | None \<Rightarrow> preamble_match s)"

text \<open>The introduction of a preamble: a technical solution, characterized in that it comprises.\<close>

definition preamble_prefix :: ustr where
  "preamble_prefix = [19968, 31181, 25216, 26415, 26041, 26696, 65292, 20854, 29305, 24449, 22312, 20110, 21253, 25324, 65306]"

text \<open>
  The technical actions: by means of, based on, acquire, compute, process, optimize, execute, configure,
  comprise, construct, step.
\<close>

definition action_words :: "ustr list" where
  "action_words = [[36890, 36807], [22522, 20110], [33719, 21462], [35745, 31639], [22788, 29702], [20248, 21270],
     [25191, 34892], [37197, 32622], [21253, 25324], [26500, 24314], [27493, 39588]]"

section \<open>The rules\<close>

definition draft :: "nat \<Rightarrow> string \<Rightarrow> ustr \<Rightarrow> paragraph_block \<Rightarrow> ustr \<Rightarrow> draft_feature" where
  "draft code_idx kind statement p quote =
     \<lparr>df_code = ''F'' @ str_nat code_idx, df_type = kind, df_statement = statement,
      df_paragraph = Some (pg_id p), df_quote = Some quote, df_sort = code_idx\<rparr>"

fun find_preamble :: "nat \<Rightarrow> paragraph_block list \<Rightarrow> draft_feature option" where
  "find_preamble code_idx [] = None"
| "find_preamble code_idx (p # ps) =
     (if occurs_in technical_field (pg_section p) \<or> occurs_in invention_title (pg_section p)
         \<or> occurs_in main_text (pg_section p)
      then (case preamble_match (strip (pg_text p)) of
              Some statement \<Rightarrow> Some (draft code_idx ''preamble'' (preamble_prefix @ statement) p statement)
            | None \<Rightarrow> find_preamble code_idx ps)
      else find_preamble code_idx ps)"

definition first_sentence :: "ustr \<Rightarrow> ustr" where
  "first_sentence text = hd (split_on 12290 text)"

definition preamble_features :: "paragraph_block list \<Rightarrow> draft_feature list" where
  "preamble_features paragraphs =
     (case find_preamble 1 paragraphs of
        Some f \<Rightarrow> [f]
      | None \<Rightarrow>
          (case paragraphs of
             [] \<Rightarrow> []
           | p0 # _ \<Rightarrow>
               let first = first_sentence (pg_text p0)
               in if first \<noteq> [] then [draft 1 ''preamble'' first p0 first] else []))"

fun sentence_loop :: "paragraph_block \<Rightarrow> ustr list \<Rightarrow> draft_feature list \<times> nat \<Rightarrow> draft_feature list \<times> nat" where
  "sentence_loop p [] (features, code_idx) = (features, code_idx)"
| "sentence_loop p (s # ss) (features, code_idx) =
     (if list_ex (\<lambda>w. occurs_in w s) action_words
      then let features = features @ [draft code_idx ''characterizing'' s p s]; code_idx = code_idx + 1
           in if code_idx > 6 then (features, code_idx) else sentence_loop p ss (features, code_idx)
      else sentence_loop p ss (features, code_idx))"

fun characterizing_loop :: "paragraph_block list \<Rightarrow> draft_feature list \<times> nat \<Rightarrow> draft_feature list \<times> nat" where
  "characterizing_loop [] st = st"
| "characterizing_loop (p # ps) st =
     (if occurs_in technical_field (pg_section p) \<or> occurs_in background (pg_section p)
      then characterizing_loop ps st
      else let st' = sentence_loop p (split_sentences 8 (strip (pg_text p))) st
           in if snd st' > 6 then st' else characterizing_loop ps st')"

fun fallback_loop :: "paragraph_block list \<Rightarrow> draft_feature list \<times> nat \<Rightarrow> draft_feature list \<times> nat" where
  "fallback_loop [] st = st"
| "fallback_loop (p # ps) (features, code_idx) =
     (let text = strip (pg_text p)
      in if length text > 10
         then let features = features @ [draft code_idx ''dependent'' (take 120 text) p (take 80 text)]
              in if length features \<ge> 3 then (features, code_idx + 1) else fallback_loop ps (features, code_idx + 1)
         else fallback_loop ps (features, code_idx))"

definition extract_features :: "paragraph_block list \<Rightarrow> draft_feature list" where
  "extract_features paragraphs =
     (if paragraphs = [] then []
      else let features = preamble_features paragraphs;
               (features, code_idx) = characterizing_loop paragraphs (features, 1 + length features)
           in if length features < 2 \<and> length paragraphs > 1
              then fst (fallback_loop (tl paragraphs) (features, code_idx)) else features)"

text \<open>What the model drafted, if anything, else the rules.\<close>

definition extract_features_with_ai :: "draft_feature list \<Rightarrow> paragraph_block list \<Rightarrow> draft_feature list" where
  "extract_features_with_ai drafts paragraphs = (if drafts \<noteq> [] then drafts else extract_features paragraphs)"

section \<open>Grounding\<close>

text \<open>The loops keep the drafts numbered, and each drawn from a paragraph.\<close>

definition grounded :: "paragraph_block list \<Rightarrow> draft_feature \<Rightarrow> bool" where
  "grounded ps f \<longleftrightarrow> (\<exists>p \<in> set ps. \<exists>q. df_paragraph f = Some (pg_id p) \<and> df_quote f = Some q \<and> occurs_in q (pg_text p))"

definition drafts_ok :: "paragraph_block list \<Rightarrow> draft_feature list \<times> nat \<Rightarrow> bool" where
  "drafts_ok ps st \<longleftrightarrow> list_all (grounded ps) (fst st) \<and> snd st = Suc (length (fst st))
     \<and> map df_sort (fst st) = [1..<Suc (length (fst st))] \<and> map df_code (fst st) = map (\<lambda>i. ''F'' @ str_nat i) [1..<Suc (length (fst st))]"

lemma lazy_match_prefix: "lazy_match s = Some m \<Longrightarrow> \<exists>r. s = m @ r"
proof (induction s arbitrary: m)
  case (Cons c s)
  show ?case
  proof (cases "find (starts_with s) subject_words")
    case None
    with Cons show ?thesis by (auto split: if_splits)
  next
    case (Some w)
    then have "\<exists>r. s = w @ r" by (auto simp: find_Some_iff starts_with_iff)
    with Some Cons.prems show ?thesis by (auto split: if_splits)
  qed
qed simp

lemma preamble_match_occurs: "preamble_match s = Some m \<Longrightarrow> occurs_in m s"
proof (induction s arbitrary: m)
  case (Cons c s)
  show ?case
  proof (cases "if starts_with (c # s) a_kind_of then lazy_match (drop 2 (c # s)) else None")
    case None
    with Cons show ?thesis by simp
  next
    case (Some w)
    then have k: "starts_with (c # s) a_kind_of" and "lazy_match (drop 2 (c # s)) = Some w" by (simp_all split: if_splits)
    then obtain r r' where "c # s = a_kind_of @ r" "drop 2 (c # s) = w @ r'"
      using lazy_match_prefix starts_with_iff by metis
    then have "c # s = (a_kind_of @ w) @ r'" by (simp add: a_kind_of_def)
    moreover have "m = a_kind_of @ w" using Cons.prems Some by simp
    ultimately show ?thesis unfolding occurs_in_iff by (metis append_Nil)
  qed
qed simp

lemma draft_grounded: "p \<in> set ps \<Longrightarrow> occurs_in q (pg_text p) \<Longrightarrow> grounded ps (draft i k s p q)"
  by (auto simp: grounded_def draft_def)

lemma drafts_snoc:
  "drafts_ok ps (fs, i) \<Longrightarrow> p \<in> set ps \<Longrightarrow> occurs_in q (pg_text p) \<Longrightarrow> drafts_ok ps (fs @ [draft i k s p q], Suc i)"
  using draft_grounded [of p ps q i k s] by (auto simp: drafts_ok_def draft_def)

lemma first_sentence_occurs: "occurs_in (first_sentence t) t"
proof -
  have "join [12290] (split_on 12290 t) = t" by (rule join_split_on)
  moreover obtain w ws where "split_on 12290 t = w # ws" using split_on_not_Nil by (metis list.exhaust)
  ultimately have "\<exists>r. t = hd (split_on 12290 t) @ r" by (cases ws) auto
  then show ?thesis unfolding first_sentence_def occurs_in_iff by (metis append_Nil)
qed

lemma find_preamble_ok:
  "find_preamble 1 ps = Some f \<Longrightarrow> set ps \<subseteq> set all \<Longrightarrow> drafts_ok all ([f], 2)"
proof (induction ps)
  case (Cons p ps)
  show ?case
  proof (cases "find_preamble 1 ps = Some f")
    case True
    with Cons show ?thesis by simp
  next
    case False
    then obtain m where "preamble_match (strip (pg_text p)) = Some m" "f = draft 1 ''preamble'' (preamble_prefix @ m) p m"
      using Cons.prems(1) by (auto split: if_splits option.splits)
    moreover from this have "occurs_in m (pg_text p)"
      using preamble_match_occurs occurs_in_strip occurs_in_trans by blast
    ultimately show ?thesis using drafts_snoc [of all "[]" 1 p m] Cons.prems(2) by (simp add: drafts_ok_def)
  qed
qed simp

lemma preamble_ok: "drafts_ok ps (preamble_features ps, Suc (length (preamble_features ps)))"
proof (cases "find_preamble 1 ps")
  case None
  show ?thesis
  proof (cases ps)
    case (Cons p qs)
    have "drafts_ok ps ([] @ [draft 1 ''preamble'' s p (first_sentence (pg_text p))], Suc 1)" for s
      using Cons by (intro drafts_snoc first_sentence_occurs) (simp_all add: drafts_ok_def)
    with None Cons show ?thesis by (simp add: preamble_features_def Let_def drafts_ok_def)
  qed (simp add: preamble_features_def None drafts_ok_def)
next
  case (Some f)
  then show ?thesis using find_preamble_ok [of ps f ps] by (simp add: preamble_features_def numeral_2_eq_2)
qed

lemma sentence_loop_ok:
  "drafts_ok all st \<Longrightarrow> p \<in> set all \<Longrightarrow> (\<And>s. s \<in> set ss \<Longrightarrow> occurs_in s (pg_text p)) \<Longrightarrow> drafts_ok all (sentence_loop p ss st)"
proof (induction p ss st rule: sentence_loop.induct)
  case (2 p s ss features code_idx)
  have "drafts_ok all (features @ [draft code_idx ''characterizing'' s p s], Suc code_idx)"
    using 2 by (intro drafts_snoc) auto
  with 2 show ?case by (simp add: Let_def)
qed simp

lemma characterizing_loop_ok:
  "drafts_ok all st \<Longrightarrow> set ps \<subseteq> set all \<Longrightarrow> drafts_ok all (characterizing_loop ps st)"
proof (induction ps arbitrary: st)
  case (Cons p ps)
  have "occurs_in s (pg_text p)" if "s \<in> set (split_sentences 8 (strip (pg_text p)))" for s
    using that sentence_in_text occurs_in_strip occurs_in_trans by blast
  then have "drafts_ok all (sentence_loop p (split_sentences 8 (strip (pg_text p))) st)"
    using Cons.prems by (intro sentence_loop_ok) auto
  with Cons show ?case by (simp add: Let_def)
qed simp

lemma fallback_loop_ok:
  "drafts_ok all st \<Longrightarrow> set ps \<subseteq> set all \<Longrightarrow> drafts_ok all (fallback_loop ps st)"
proof (induction ps st rule: fallback_loop.induct)
  case (2 p ps features code_idx)
  have "occurs_in (take 80 (strip (pg_text p))) (pg_text p)"
    using occurs_in_take occurs_in_strip occurs_in_trans by blast
  then have "drafts_ok all (features @ [draft code_idx ''dependent'' s p (take 80 (strip (pg_text p)))], Suc code_idx)" for s
    using 2 by (intro drafts_snoc) auto
  with 2 show ?case by (simp add: Let_def)
qed simp

lemma extract_ok: "\<exists>i. drafts_ok ps (extract_features ps, i)"
proof (cases "ps = []")
  case False
  obtain fs i where run: "characterizing_loop ps (preamble_features ps, 1 + length (preamble_features ps)) = (fs, i)"
    by fastforce
  have "drafts_ok ps (characterizing_loop ps (preamble_features ps, 1 + length (preamble_features ps)))"
    using preamble_ok by (intro characterizing_loop_ok) simp_all
  then have ok: "drafts_ok ps (fs, i)" by (simp only: run)
  obtain fs' i' where "fallback_loop (tl ps) (fs, i) = (fs', i')" by fastforce
  moreover have "drafts_ok ps (fallback_loop (tl ps) (fs, i))"
    by (rule fallback_loop_ok [OF ok]) (cases ps, auto)
  ultimately have "\<exists>j. drafts_ok ps (fst (fallback_loop (tl ps) (fs, i)), j)" by auto
  with ok False show ?thesis unfolding extract_features_def Let_def run prod.case by auto
qed (simp add: extract_features_def drafts_ok_def)

lemma drafts_codes: "drafts_ok ps (fs, i) \<Longrightarrow> distinct (map df_code fs)"
  by (simp add: drafts_ok_def distinct_map inj_on_def del: upt_Suc) (metis str_nat_inj)

text \<open>
  Drafted features quote the document.  When the rules draft features from a parsed document, every
  feature names a paragraph of it and quotes a passage that stands, word for word, at that paragraph's
  place in the document text; the features are numbered from 1 and their codes are distinct.
\<close>

theorem drafted_features_quote_document:
  assumes "parse_bytes sha docx pdf decode drawings data filename mime = (d, ds)"
  shows "(\<forall>f \<in> set (extract_features (pd_paragraphs d)). \<exists>p \<in> set (pd_paragraphs d). \<exists>q.
      df_paragraph f = Some (pg_id p) \<and> df_quote f = Some q
      \<and> occurs_in q (slice (pg_start p) (pg_end p) (pd_text d)))
    \<and> map df_sort (extract_features (pd_paragraphs d)) = [1..<Suc (length (extract_features (pd_paragraphs d)))]
    \<and> distinct (map df_code (extract_features (pd_paragraphs d)))"
proof (intro conjI ballI)
  obtain i where ok: "drafts_ok (pd_paragraphs d) (extract_features (pd_paragraphs d), i)" using extract_ok by blast
  show "map df_sort (extract_features (pd_paragraphs d)) = [1..<Suc (length (extract_features (pd_paragraphs d)))]"
    using ok by (simp only: drafts_ok_def fst_conv)
  show "distinct (map df_code (extract_features (pd_paragraphs d)))" using ok by (rule drafts_codes)
  fix f assume "f \<in> set (extract_features (pd_paragraphs d))"
  with ok have "grounded (pd_paragraphs d) f" by (simp add: drafts_ok_def list_all_iff del: upt_Suc)
  then obtain p q where p: "p \<in> set (pd_paragraphs d)" "df_paragraph f = Some (pg_id p)" "df_quote f = Some q"
      "occurs_in q (pg_text p)"
    by (auto simp: grounded_def)
  moreover have "pg_text p = slice (pg_start p) (pg_end p) (pd_text d)"
    using parsed_slice [OF assms p(1)] by simp
  ultimately show "\<exists>p \<in> set (pd_paragraphs d). \<exists>q. df_paragraph f = Some (pg_id p) \<and> df_quote f = Some q
      \<and> occurs_in q (slice (pg_start p) (pg_end p) (pd_text d))" by auto
qed

theorem drafted_features_quote_document_witness:
  "distinct (map df_code (extract_features (pd_paragraphs (fst sample_document))))"
proof -
  obtain d ds where r: "sample_document = (d, ds)" by (cases sample_document)
  from drafted_features_quote_document [OF r [unfolded sample_document_def]] show ?thesis by (simp only: r fst_conv)
qed

end
