(* ===== verification/CaseTables.thy ===== *)
theory CaseTables
  imports Documents
begin

text \<open>
  The tables of cases, source documents, document versions and parse runs of migration 0004, which the services of a case share.  The
  columns \<open>updated_at\<close> are left out.
\<close>

record case_row =
  ca_id :: string
  ca_organization :: string
  ca_number :: ustr
  ca_title :: ustr
  ca_field :: ustr
  ca_jurisdiction :: string
  ca_status :: string
  ca_created_by :: string
  ca_created_at :: nat

record document_version =
  dv_id :: string
  dv_organization :: string
  dv_case :: string
  dv_source :: string
  dv_number :: nat
  dv_parent :: "string option"
  dv_text :: ustr
  dv_paragraphs :: "paragraph_block list"
  dv_sha256 :: string
  dv_confirmed :: bool
  dv_created_by :: "string option"
  dv_created_at :: nat

text \<open>The uploaded files with their security findings (migration 0017), and the runs of the parser.\<close>

record source_document =
  sd_id :: string
  sd_organization :: string
  sd_case :: string
  sd_name :: ustr
  sd_size :: nat
  sd_mime :: string
  sd_sha256_hex :: string
  sd_key :: ustr
  sd_findings :: "string list"
  sd_created_at :: nat

record parse_run =
  pr_id :: string
  pr_organization :: string
  pr_case :: string
  pr_source :: string
  pr_status :: string
  pr_error :: "ustr option"
  pr_started_at :: "nat option"
  pr_finished_at :: "nat option"
  pr_created_at :: nat

text \<open>The drawings of a case (migration 0009): extracted from a document or added by hand.\<close>

record drawing =
  dr_id :: string
  dr_organization :: string
  dr_case :: string
  dr_source :: "string option"
  dr_version :: "string option"
  dr_label :: ustr
  dr_title :: ustr
  dr_marks :: "(ustr, ustr) pydict list"
  dr_key :: ustr
  dr_mime :: ustr
  dr_size :: nat
  dr_sha256 :: string
  dr_page :: "nat option"
  dr_order :: int
  dr_manual :: bool
  dr_created_at :: nat
  dr_updated_at :: nat

section \<open>Queries of one value\<close>

text \<open>\<open>COALESCE(MAX(x), 0) + 1\<close>, and \<open>ORDER BY x DESC LIMIT 1\<close>.\<close>

definition next_after :: "int list \<Rightarrow> int" where
  "next_after xs = (case xs of [] \<Rightarrow> 1 | x # ys \<Rightarrow> max_key id x ys + 1)"

definition latest_by :: "('a \<Rightarrow> 'b::linorder) \<Rightarrow> 'a list \<Rightarrow> 'a option" where
  "latest_by key xs = (case xs of [] \<Rightarrow> None | x # ys \<Rightarrow> Some (max_key key x ys))"

lemma latest_by_mem: "latest_by f xs = Some x \<Longrightarrow> x \<in> set xs"
  using max_key_mem [of f "hd xs" "tl xs"] by (cases xs) (auto simp: latest_by_def)

lemma latest_by_ge: "latest_by f xs = Some x \<Longrightarrow> y \<in> set xs \<Longrightarrow> f y \<le> f x"
  using max_key_ge [of y "hd xs" "tl xs" f] by (cases xs) (simp_all add: latest_by_def)

lemma latest_by_None [simp]: "latest_by f xs = None \<longleftrightarrow> xs = []"
  by (cases xs) (simp_all add: latest_by_def)

lemma next_after_gt: "x \<in> set xs \<Longrightarrow> x < next_after xs"
  using max_key_ge [of x "hd xs" "tl xs" id] by (cases xs) (simp_all add: next_after_def)

end
