(* ===== verification/FeatureSets.thy ===== *)
theory FeatureSets
  imports FeatureExtract Organizations CaseTables
begin

text \<open>
  \<^verbatim>\<open>features/services.py\<close>: versions of the feature set of a case, from a draft that can be edited to a
  confirmed version and its revisions.  Fresh identifiers are a function of a counter, the clock and what
  the language model drafted are arguments.  Column widths are not modelled, and
  texts are ordered by code point where the database has its collation.
\<close>

section \<open>Tables\<close>

record feature_version =
  fv_id :: string
  fv_organization :: string
  fv_case :: string
  fv_document :: string
  fv_number :: int
  fv_parent :: "string option"
  fv_status :: string
  fv_summary :: ustr
  fv_confirmed_by :: "string option"
  fv_confirmed_at :: "nat option"

record feature_row =
  ft_id :: string
  ft_organization :: string
  ft_case :: string
  ft_version :: string
  ft_code :: string
  ft_type :: string
  ft_statement :: ustr
  ft_paragraph :: "string option"
  ft_quote :: "ustr option"
  ft_sort :: int

record feature_db =
  fe_documents :: "document_version list"
  fe_cases :: "case_row list"
  fe_versions :: "feature_version list"
  fe_features :: "feature_row list"

section \<open>Reading\<close>

definition version_not_found :: http_error where
  "version_not_found = Http 404 ''feature_set_version_not_found''"

definition find_version :: "string \<Rightarrow> string \<Rightarrow> string \<Rightarrow> feature_db \<Rightarrow> feature_version option" where
  "find_version org c vid db =
     find (\<lambda>v. fv_id v = vid \<and> fv_case v = c \<and> fv_organization v = org) (fe_versions db)"

definition get_feature_set :: "string \<Rightarrow> string \<Rightarrow> string \<Rightarrow> feature_db
    \<Rightarrow> (http_error, feature_version \<times> feature_row list) result" where
  "get_feature_set org c vid db =
     (case find_version org c vid db of
        None \<Rightarrow> Inl version_not_found
      | Some v \<Rightarrow>
          Inr (v, sort_key (\<lambda>f. (ft_sort f, ft_code f))
                    (filter (\<lambda>f. ft_version f = vid \<and> ft_organization f = org) (fe_features db))))"

definition case_versions :: "string \<Rightarrow> string \<Rightarrow> feature_db \<Rightarrow> feature_version list" where
  "case_versions org c db = filter (\<lambda>v. fv_case v = c \<and> fv_organization v = org) (fe_versions db)"

definition list_versions :: "string \<Rightarrow> string \<Rightarrow> feature_db \<Rightarrow> feature_version list" where
  "list_versions org c db = sort_key (\<lambda>v. - fv_number v) (case_versions org c db)"

text \<open>The draft before the confirmed versions, the highest number first.\<close>

definition get_active_feature_set where
  "get_active_feature_set org c db =
     (case sort_key (\<lambda>v. (if fv_status v = ''draft'' then 1 else 2 :: nat, - fv_number v)) (case_versions org c db) of
        [] \<Rightarrow> Inr None
      | v # _ \<Rightarrow> map_sum id Some (get_feature_set org c (fv_id v) db))"

definition assert_draft_version :: "string \<Rightarrow> string \<Rightarrow> string \<Rightarrow> feature_db \<Rightarrow> (http_error, unit) result" where
  "assert_draft_version org c vid db =
     (case find_version org c vid db of
        None \<Rightarrow> Inl version_not_found
      | Some v \<Rightarrow>
          if fv_status v \<noteq> ''draft''
          then Inl (Http 400 ''version_is_locked_and_immutable_create_revision_to_edit'') else Inr ())"

text \<open>Python's \<open>or\<close> on a count that may be zero.\<close>

definition or_else :: "int \<Rightarrow> int \<Rightarrow> int" where
  "or_else n d = (if n = 0 then d else n)"

definition open_draft :: "string \<Rightarrow> string \<Rightarrow> feature_db \<Rightarrow> feature_version option" where
  "open_draft org c db =
     find (\<lambda>v. fv_case v = c \<and> fv_organization v = org \<and> fv_status v = ''draft'') (fe_versions db)"

definition next_number :: "string \<Rightarrow> feature_db \<Rightarrow> int" where
  "next_number c db = next_after (map fv_number (filter (\<lambda>v. fv_case v = c) (fe_versions db)))"

section \<open>Drafting\<close>

definition latest_document :: "string \<Rightarrow> string \<Rightarrow> feature_db \<Rightarrow> document_version option" where
  "latest_document org c db =
     (case filter (\<lambda>d. dv_case d = c \<and> dv_organization d = org) (fe_documents db) of
        [] \<Rightarrow> None
      | d # ds \<Rightarrow> Some (max_key dv_number d ds))"

definition target_document :: "string \<Rightarrow> string \<Rightarrow> string option \<Rightarrow> feature_db \<Rightarrow> document_version option" where
  "target_document org c wanted db =
     (case wanted of
        Some i \<Rightarrow> find (\<lambda>d. dv_id d = i \<and> dv_case d = c \<and> dv_organization d = org) (fe_documents db)
      | None \<Rightarrow> latest_document org c db)"

text \<open>
  The draft that is made up when nothing was drafted: it states \<open>the main technical solution of this
  invention\<close> and quotes the first paragraph, or the word for \<open>quotation\<close>.
\<close>

definition fallback_draft :: "paragraph_block list \<Rightarrow> draft_feature" where
  "fallback_draft paragraphs =
     \<lparr>df_code = ''F1'', df_type = ''characterizing'',
      df_statement = [26412, 21457, 26126, 30340, 20027, 20307, 25216, 26415, 26041, 26696],
      df_paragraph = Some (case paragraphs of [] \<Rightarrow> ''p1'' | p # _ \<Rightarrow> pg_id p),
      df_quote = Some (case paragraphs of [] \<Rightarrow> [24341, 25991] | p # _ \<Rightarrow> take 60 (pg_text p)), df_sort = 1\<rparr>"

definition drafts_for :: "draft_feature list \<Rightarrow> paragraph_block list \<Rightarrow> draft_feature list" where
  "drafts_for ai paragraphs =
     (let drafts = extract_features_with_ai ai paragraphs
      in if drafts = [] then [fallback_draft paragraphs] else drafts)"

definition feature_of_draft :: "string \<Rightarrow> string \<Rightarrow> string \<Rightarrow> string \<Rightarrow> draft_feature \<Rightarrow> feature_row" where
  "feature_of_draft i org c vid f =
     \<lparr>ft_id = i, ft_organization = org, ft_case = c, ft_version = vid, ft_code = df_code f, ft_type = df_type f,
      ft_statement = df_statement f, ft_paragraph = df_paragraph f, ft_quote = df_quote f, ft_sort = int (df_sort f)\<rparr>"

text \<open>The summaries: drafted automatically, and a draft revision of the previous version.\<close>

definition drafted_summary :: ustr where
  "drafted_summary = [65, 73, 32, 33258, 21160, 25552, 21462, 25216, 26415, 29305, 24449, 33609, 31295]"

definition revision_summary :: ustr where
  "revision_summary = [22522, 20110, 19978, 20010, 29256, 26412, 30340, 26032, 20462, 35746, 33609, 31295]"

definition new_version :: "string \<Rightarrow> string \<Rightarrow> string \<Rightarrow> string \<Rightarrow> int \<Rightarrow> string option \<Rightarrow> ustr \<Rightarrow> feature_version" where
  "new_version i org c doc number parent summary =
     \<lparr>fv_id = i, fv_organization = org, fv_case = c, fv_document = doc, fv_number = number, fv_parent = parent,
      fv_status = ''draft'', fv_summary = summary, fv_confirmed_by = None, fv_confirmed_at = None\<rparr>"

definition answered where
  "answered org c vid db = bind_result (get_feature_set org c vid db) (\<lambda>view. Inr (view, db))"

definition extract_draft_features :: "(nat \<Rightarrow> string) \<Rightarrow> draft_feature list \<Rightarrow> string \<Rightarrow> string \<Rightarrow> string option \<Rightarrow> feature_db
    \<Rightarrow> (http_error, (feature_version \<times> feature_row list) \<times> feature_db) result" where
  "extract_draft_features fresh ai org c wanted db =
     (case target_document org c wanted db of
        None \<Rightarrow> Inl (Http 404 ''no_document_version_available_for_case'')
      | Some doc \<Rightarrow>
          (let drafts = drafts_for ai (dv_paragraphs doc);
               (vid, db1) =
                 (case open_draft org c db of
                    Some v \<Rightarrow>
                      (fv_id v, db\<lparr>fe_features := filter (\<lambda>f. ft_version f \<noteq> fv_id v) (fe_features db),
                                   fe_versions := update_where (\<lambda>x. fv_id x = fv_id v)
                                     (fv_document_update (\<lambda>_. dv_id doc)) (fe_versions db)\<rparr>)
                  | None \<Rightarrow>
                      (fresh 0, db\<lparr>fe_versions := fe_versions db @
                         [new_version (fresh 0) org c (dv_id doc) (or_else (next_number c db) 1) None
                            drafted_summary]\<rparr>))
           in answered org c vid (db1\<lparr>fe_features := fe_features db1 @
                map (\<lambda>(i, f). feature_of_draft (fresh i) org c vid f) (enumerate 1 drafts)\<rparr>)))"

section \<open>Editing a draft\<close>

definition add_feature :: "string \<Rightarrow> string \<Rightarrow> string \<Rightarrow> string \<Rightarrow> string \<Rightarrow> string \<Rightarrow> ustr \<Rightarrow> string option \<Rightarrow> ustr option
    \<Rightarrow> feature_db \<Rightarrow> (http_error, (feature_version \<times> feature_row list) \<times> feature_db) result" where
  "add_feature fresh org c vid code kind statement para quote db =
     bind_result (assert_draft_version org c vid db) (\<lambda>_.
       let max_sort = or_else (next_after (map ft_sort (filter (\<lambda>f. ft_version f = vid) (fe_features db)))) 1
       in answered org c vid (db\<lparr>fe_features := fe_features db @
            [\<lparr>ft_id = fresh, ft_organization = org, ft_case = c, ft_version = vid,
              ft_code = (if strip_text code \<noteq> [] then strip_text code else ''F'' @ str_int max_sort),
              ft_type = (if kind \<noteq> [] then kind else ''characterizing''), ft_statement = strip statement,
              ft_paragraph = para, ft_quote = quote, ft_sort = max_sort\<rparr>]\<rparr>))"

definition non_empty :: "'a list option \<Rightarrow> 'a list option" where
  "non_empty x = (case x of None \<Rightarrow> None | Some s \<Rightarrow> if s = [] then None else Some s)"

definition update_feature :: "string \<Rightarrow> string \<Rightarrow> string \<Rightarrow> string \<Rightarrow> string option \<Rightarrow> string option \<Rightarrow> ustr option
    \<Rightarrow> string option \<Rightarrow> ustr option \<Rightarrow> int option \<Rightarrow> feature_db
    \<Rightarrow> (http_error, (feature_version \<times> feature_row list) \<times> feature_db) result" where
  "update_feature org c vid fid code kind statement para quote order db =
     bind_result (assert_draft_version org c vid db) (\<lambda>_.
       answered org c vid (db\<lparr>fe_features :=
         update_where (\<lambda>f. ft_id f = fid \<and> ft_version f = vid \<and> ft_organization f = org)
           (\<lambda>f. f\<lparr>ft_code := (case non_empty code of None \<Rightarrow> ft_code f | Some x \<Rightarrow> strip_text x),
                  ft_type := (case kind of None \<Rightarrow> ft_type f | Some x \<Rightarrow> x),
                  ft_statement := (case non_empty statement of None \<Rightarrow> ft_statement f | Some x \<Rightarrow> strip x),
                  ft_paragraph := (case para of None \<Rightarrow> ft_paragraph f | Some x \<Rightarrow> Some x),
                  ft_quote := (case quote of None \<Rightarrow> ft_quote f | Some x \<Rightarrow> Some x),
                  ft_sort := (case order of None \<Rightarrow> ft_sort f | Some x \<Rightarrow> x)\<rparr>)
           (fe_features db)\<rparr>))"

definition delete_feature :: "string \<Rightarrow> string \<Rightarrow> string \<Rightarrow> string \<Rightarrow> feature_db
    \<Rightarrow> (http_error, (feature_version \<times> feature_row list) \<times> feature_db) result" where
  "delete_feature org c vid fid db =
     bind_result (assert_draft_version org c vid db) (\<lambda>_.
       answered org c vid (db\<lparr>fe_features :=
         filter (\<lambda>f. \<not> (ft_id f = fid \<and> ft_version f = vid \<and> ft_organization f = org)) (fe_features db)\<rparr>))"

definition part2_code :: "string \<Rightarrow> string" where
  "part2_code code = (if CHR ''.'' \<notin> set code then code @ ''.1'' else code @ ''b'')"

definition split_feature :: "string \<Rightarrow> string \<Rightarrow> string \<Rightarrow> string \<Rightarrow> string \<Rightarrow> ustr \<Rightarrow> ustr \<Rightarrow> feature_db
    \<Rightarrow> (http_error, (feature_version \<times> feature_row list) \<times> feature_db) result" where
  "split_feature fresh org c vid fid part1 part2 db =
     bind_result (assert_draft_version org c vid db) (\<lambda>_.
       case find (\<lambda>f. ft_id f = fid \<and> ft_version f = vid \<and> ft_organization f = org) (fe_features db) of
         None \<Rightarrow> Inl (Http 404 ''feature_not_found'')
       | Some old \<Rightarrow>
           answered org c vid (db\<lparr>fe_features :=
             update_where (\<lambda>f. ft_id f = fid) (ft_statement_update (\<lambda>_. strip part1)) (fe_features db) @
             [\<lparr>ft_id = fresh, ft_organization = org, ft_case = c, ft_version = vid,
               ft_code = part2_code (ft_code old), ft_type = ft_type old, ft_statement = strip part2,
               ft_paragraph = ft_paragraph old, ft_quote = Some (take 80 part2), ft_sort = ft_sort old + 1\<rparr>]\<rparr>))"

definition merge_features :: "string \<Rightarrow> string \<Rightarrow> string \<Rightarrow> string \<Rightarrow> string \<Rightarrow> ustr \<Rightarrow> feature_db
    \<Rightarrow> (http_error, (feature_version \<times> feature_row list) \<times> feature_db) result" where
  "merge_features org c vid fid1 fid2 merged db =
     bind_result (assert_draft_version org c vid db) (\<lambda>_.
       answered org c vid (db\<lparr>fe_features :=
         filter (\<lambda>f. \<not> (ft_id f = fid2 \<and> ft_version f = vid))
           (update_where (\<lambda>f. ft_id f = fid1 \<and> ft_version f = vid) (ft_statement_update (\<lambda>_. strip merged))
             (fe_features db))\<rparr>))"

section \<open>Confirming and revising\<close>

definition confirm_version :: "nat \<Rightarrow> string \<Rightarrow> string \<Rightarrow> string \<Rightarrow> string \<Rightarrow> feature_db
    \<Rightarrow> (http_error, (feature_version \<times> feature_row list) \<times> feature_db) result" where
  "confirm_version now org c vid actor db =
     bind_result (assert_draft_version org c vid db) (\<lambda>_.
       if filter (\<lambda>f. ft_version f = vid) (fe_features db) = []
       then Inl (Http 400 ''cannot_confirm_empty_feature_set'')
       else answered org c vid (db\<lparr>
              fe_versions := update_where (\<lambda>v. fv_id v = vid)
                (\<lambda>v. v\<lparr>fv_status := ''confirmed'', fv_confirmed_by := Some actor, fv_confirmed_at := Some now\<rparr>)
                (fe_versions db),
              fe_cases := update_where (\<lambda>x. ca_id x = c) (ca_status_update (\<lambda>_. ''features_confirmed'')) (fe_cases db)\<rparr>))"

definition copied_feature :: "string \<Rightarrow> string \<Rightarrow> string \<Rightarrow> string \<Rightarrow> feature_row \<Rightarrow> feature_row" where
  "copied_feature i org c vid f = f\<lparr>ft_id := i, ft_organization := org, ft_case := c, ft_version := vid\<rparr>"

definition create_revision :: "(nat \<Rightarrow> string) \<Rightarrow> string \<Rightarrow> string \<Rightarrow> string \<Rightarrow> feature_db
    \<Rightarrow> (http_error, (feature_version \<times> feature_row list) \<times> feature_db) result" where
  "create_revision fresh org c base db =
     (case find_version org c base db of
        None \<Rightarrow> Inl (Http 404 ''base_feature_set_version_not_found'')
      | Some b \<Rightarrow>
          (case open_draft org c db of
             Some v \<Rightarrow> answered org c (fv_id v) db
           | None \<Rightarrow>
               answered org c (fresh 0) (db\<lparr>
                 fe_versions := fe_versions db @
                   [new_version (fresh 0) org c (fv_document b) (or_else (next_number c db) 2) (Some base) revision_summary],
                 fe_features := fe_features db @
                   map (\<lambda>(i, f). copied_feature (fresh i) org c (fresh 0) f)
                     (enumerate 1 (sort_key ft_sort (filter (\<lambda>f. ft_version f = base) (fe_features db))))\<rparr>)))"

end
