(* ===== verification/SealedStore.thy ===== *)
theory SealedStore
  imports Prelude
begin

text \<open>
  A store with drafts that are sealed: once an entry is sealed, no step of the store opens it again or
  changes what it holds.  Services that confirm a version interpret this interface.
\<close>

locale sealed_store =
  fixes step :: "'d \<Rightarrow> 'd \<Rightarrow> bool"
    and well :: "'d \<Rightarrow> bool"
    and sealed :: "'d \<Rightarrow> 'k \<Rightarrow> bool"
    and contents :: "'d \<Rightarrow> 'k \<Rightarrow> 'c"
  assumes step_well: "step d d' \<Longrightarrow> well d \<Longrightarrow> well d'"
    and step_sealed: "step d d' \<Longrightarrow> well d \<Longrightarrow> sealed d k \<Longrightarrow> sealed d' k \<and> contents d' k = contents d k"
begin

lemma run_well: "step\<^sup>*\<^sup>* d d' \<Longrightarrow> well d \<Longrightarrow> well d'"
  by (induction rule: rtranclp_induct) (blast intro: step_well)+

lemma run_sealed: "step\<^sup>*\<^sup>* d d' \<Longrightarrow> well d \<Longrightarrow> sealed d k \<Longrightarrow> sealed d' k \<and> contents d' k = contents d k"
proof (induction rule: rtranclp_induct)
  case (step y z)
  then have "well y" using run_well by blast
  with step step_sealed [of y z k] show ?case by simp
qed simp

lemma sealed_together:
  assumes "step\<^sup>*\<^sup>* d d1" and "step\<^sup>*\<^sup>* d1 d2" and "well d" and "sealed d1 k"
  shows "contents d2 k = contents d1 k"
  using run_sealed [OF assms(2) run_well [OF assms(1,3)] assms(4)] by blast

end

end
