(* ===== verification/FeatureSafety.thy ===== *)
theory FeatureSafety
  imports FeatureSets SealedStore
begin

text \<open>
  The feature service as a step relation: a confirmed version of a feature set is frozen, a case has at
  most one draft, and its versions are numbered.
\<close>

section \<open>Steps\<close>

definition fresh_ids :: "(nat \<Rightarrow> string) \<Rightarrow> feature_db \<Rightarrow> bool" where
  "fresh_ids fresh db \<longleftrightarrow> inj fresh \<and> (\<forall>i. fresh i \<notin> fv_id ` set (fe_versions db) \<and> fresh i \<notin> ft_id ` set (fe_features db))"

inductive feature_step :: "feature_db \<Rightarrow> feature_db \<Rightarrow> bool" where
  extract_step: "extract_draft_features fresh ai org c wanted db = Inr (view, db') \<Longrightarrow> fresh_ids fresh db \<Longrightarrow> feature_step db db'"
| add_step: "add_feature i org c vid code kind s para q db = Inr (view, db') \<Longrightarrow> i \<notin> ft_id ` set (fe_features db) \<Longrightarrow>
    feature_step db db'"
| update_step: "update_feature org c vid fid code kind s para q n db = Inr (view, db') \<Longrightarrow> feature_step db db'"
| delete_step: "delete_feature org c vid fid db = Inr (view, db') \<Longrightarrow> feature_step db db'"
| split_step: "split_feature i org c vid fid p1 p2 db = Inr (view, db') \<Longrightarrow> i \<notin> ft_id ` set (fe_features db) \<Longrightarrow>
    feature_step db db'"
| merge_step: "merge_features org c vid fid1 fid2 s db = Inr (view, db') \<Longrightarrow> feature_step db db'"
| confirm_step: "confirm_version now org c vid actor db = Inr (view, db') \<Longrightarrow> feature_step db db'"
| revise_step: "create_revision fresh org c base db = Inr (view, db') \<Longrightarrow> fresh_ids fresh db \<Longrightarrow> feature_step db db'"
| document_step: "feature_step db (db\<lparr>fe_documents := docs\<rparr>)"
| case_step: "feature_step db (db\<lparr>fe_cases := rows\<rparr>)"

lemma answered_Inr: "answered org c vid db = Inr (view, db') \<Longrightarrow> db' = db"
  by (auto simp: answered_def)

lemma assert_draft_Inr:
  "assert_draft_version org c vid db = Inr x \<Longrightarrow>
     \<exists>v \<in> set (fe_versions db). fv_id v = vid \<and> fv_case v = c \<and> fv_organization v = org \<and> fv_status v = ''draft''"
  by (auto simp: assert_draft_version_def find_version_def find_Some_iff split: option.splits if_splits)

section \<open>The invariant of the versions\<close>

definition versions_ok :: "feature_version list \<Rightarrow> bool" where
  "versions_ok vs \<longleftrightarrow> distinct (map fv_id vs) \<and> distinct (map (\<lambda>v. (fv_case v, fv_number v)) vs)
     \<and> (\<forall>v \<in> set vs. 1 \<le> fv_number v)
     \<and> (\<forall>v \<in> set vs. \<forall>w \<in> set vs. fv_status v = ''draft'' \<and> fv_status w = ''draft'' \<and> fv_case v = fv_case w
          \<and> fv_organization v = fv_organization w \<longrightarrow> v = w)"

text \<open>What a step may do to a row of a version.\<close>

definition settles :: "(feature_version \<Rightarrow> feature_version) \<Rightarrow> bool" where
  "settles f \<longleftrightarrow> (\<forall>v. fv_id (f v) = fv_id v \<and> fv_case (f v) = fv_case v \<and> fv_number (f v) = fv_number v
     \<and> fv_organization (f v) = fv_organization v \<and> (fv_status (f v) = fv_status v \<or> fv_status (f v) = ''confirmed''))"

lemma settles_id: "settles (\<lambda>v. v)"
  by (simp add: settles_def)

lemma settles_when: "settles f \<Longrightarrow> settles (\<lambda>v. if P v then f v else v)"
  by (simp add: settles_def)

lemma settles_draft: "settles f \<Longrightarrow> fv_status (f v) = ''draft'' \<Longrightarrow> fv_status v = ''draft''"
proof -
  assume "settles f" and d: "fv_status (f v) = ''draft''"
  then have "fv_status (f v) = fv_status v \<or> fv_status (f v) = ''confirmed''" unfolding settles_def by blast
  with d show ?thesis by simp
qed

lemma settled_ok:
  assumes "versions_ok vs" and "settles f"
  shows "versions_ok (map f vs)"
  unfolding versions_ok_def
proof (intro conjI ballI impI)
  have "map fv_id (map f vs) = map fv_id vs"
    "map (\<lambda>v. (fv_case v, fv_number v)) (map f vs) = map (\<lambda>v. (fv_case v, fv_number v)) vs"
    using assms(2) by (simp_all add: settles_def)
  then show "distinct (map fv_id (map f vs))" "distinct (map (\<lambda>v. (fv_case v, fv_number v)) (map f vs))"
    using assms(1) unfolding versions_ok_def by (simp_all only:)
  show "1 \<le> fv_number v" if "v \<in> set (map f vs)" for v
    using that assms by (auto simp: versions_ok_def settles_def)
  fix v w
  assume "v \<in> set (map f vs)" "w \<in> set (map f vs)" and d: "fv_status v = ''draft'' \<and> fv_status w = ''draft''
    \<and> fv_case v = fv_case w \<and> fv_organization v = fv_organization w"
  then obtain x y where x: "x \<in> set vs" "y \<in> set vs" "v = f x" "w = f y" by auto
  have "fv_status x = ''draft''" "fv_status y = ''draft''" "fv_case x = fv_case y" "fv_organization x = fv_organization y"
    using d settles_draft [OF assms(2)] assms(2) x(3,4) by (simp_all add: settles_def)
  then have "x = y" using assms(1) x(1,2) unfolding versions_ok_def by blast
  then show "v = w" using x by simp
qed

lemma next_number_above:
  assumes "v \<in> set (fe_versions db)" and "fv_case v = c"
  shows "fv_number v < next_number c db"
proof -
  let ?xs = "map fv_number (filter (\<lambda>v. fv_case v = c) (fe_versions db))"
  have m: "fv_number v \<in> set ?xs" using assms by auto
  then obtain x ys where "?xs = x # ys" by (cases ?xs) auto
  then have "fv_number v \<le> max_key id x ys" using max_key_ge [of "fv_number v" x ys id] m by simp
  with \<open>?xs = x # ys\<close> show ?thesis by (simp add: next_number_def next_after_def)
qed

lemma next_number_positive:
  assumes "versions_ok (fe_versions db)"
  shows "1 \<le> next_number c db"
proof (cases "map fv_number (filter (\<lambda>v. fv_case v = c) (fe_versions db))")
  case (Cons x ys)
  then have "x \<in> set (map fv_number (filter (\<lambda>v. fv_case v = c) (fe_versions db)))" by simp
  then obtain v where v: "v \<in> set (fe_versions db)" "fv_case v = c" by auto
  then have "1 \<le> fv_number v" using assms unfolding versions_ok_def by blast
  with next_number_above [OF v] show ?thesis by simp
qed (simp add: next_number_def next_after_def)

lemma appended_ok:
  assumes "versions_ok (fe_versions db)" and "i \<notin> fv_id ` set (fe_versions db)" and "open_draft org c db = None"
  shows "versions_ok (fe_versions db @ [new_version i org c doc (or_else (next_number c db) d) parent summary])"
proof -
  have n: "or_else (next_number c db) d = next_number c db" and p: "1 \<le> next_number c db"
    using next_number_positive [OF assms(1), of c] by (simp_all add: or_else_def)
  have "(c, next_number c db) \<notin> (\<lambda>v. (fv_case v, fv_number v)) ` set (fe_versions db)"
    using next_number_above by fastforce
  moreover have "\<not> (fv_status v = ''draft'' \<and> fv_case v = c \<and> fv_organization v = org)" if "v \<in> set (fe_versions db)" for v
    using that assms(3) by (auto simp: open_draft_def find_None_iff)
  ultimately show ?thesis using assms(1,2) p unfolding n versions_ok_def
    by (auto simp: new_version_def)
qed

section \<open>What a step touches\<close>

text \<open>Everything outside of one version is left alone.\<close>

definition elsewhere :: "string \<Rightarrow> feature_db \<Rightarrow> feature_db \<Rightarrow> bool" where
  "elsewhere vid db db' \<longleftrightarrow> filter (\<lambda>v. fv_id v \<noteq> vid) (fe_versions db') = filter (\<lambda>v. fv_id v \<noteq> vid) (fe_versions db)
     \<and> filter (\<lambda>f. ft_version f \<noteq> vid) (fe_features db') = filter (\<lambda>f. ft_version f \<noteq> vid) (fe_features db)"

definition well_featured :: "feature_db \<Rightarrow> bool" where
  "well_featured db \<longleftrightarrow> versions_ok (fe_versions db) \<and> distinct (map ft_id (fe_features db))"

text \<open>A step edits a draft, or opens one under a fresh identifier, and keeps the invariant.\<close>

definition edits :: "feature_db \<Rightarrow> feature_db \<Rightarrow> bool" where
  "edits db db' \<longleftrightarrow> well_featured db'
     \<and> (\<exists>vid. elsewhere vid db db'
          \<and> (\<forall>v \<in> set (fe_versions db). fv_id v = vid \<longrightarrow> fv_status v = ''draft''))"

lemma draft_unique:
  assumes "well_featured db" and "assert_draft_version org c vid db = Inr x" and "v \<in> set (fe_versions db)" and "fv_id v = vid"
  shows "fv_status v = ''draft''"
proof -
  obtain w where "w \<in> set (fe_versions db)" "fv_id w = vid" "fv_status w = ''draft''"
    using assert_draft_Inr [OF assms(2)] by blast
  moreover from this have "v = w"
    using assms(1,3,4) unfolding well_featured_def versions_ok_def distinct_map inj_on_def by metis
  ultimately show ?thesis by simp
qed

text \<open>An edit of the features of a draft.\<close>

lemma edits_features:
  assumes "well_featured db" and "assert_draft_version org c vid db = Inr x" and "distinct (map ft_id fs)"
    and "filter (\<lambda>f. ft_version f \<noteq> vid) fs = filter (\<lambda>f. ft_version f \<noteq> vid) (fe_features db)"
  shows "edits db (db\<lparr>fe_features := fs\<rparr>)"
  unfolding edits_def
proof (intro conjI exI [of _ vid])
  show "well_featured (db\<lparr>fe_features := fs\<rparr>)" using assms(1,3) by (simp add: well_featured_def)
  show "elsewhere vid db (db\<lparr>fe_features := fs\<rparr>)" using assms(4) by (simp add: elsewhere_def)
  show "\<forall>v \<in> set (fe_versions db). fv_id v = vid \<longrightarrow> fv_status v = ''draft''"
    using draft_unique [OF assms(1,2)] by blast
qed

lemma edits_refl: "well_featured db \<Longrightarrow> edits db db"
  unfolding edits_def elsewhere_def
proof (intro conjI)
  obtain i where "i \<notin> fv_id ` set (fe_versions db)" using ex_new_if_finite [of "fv_id ` set (fe_versions db)"] infinite_UNIV_listI by blast
  then show "\<exists>vid. (filter (\<lambda>v. fv_id v \<noteq> vid) (fe_versions db) = filter (\<lambda>v. fv_id v \<noteq> vid) (fe_versions db)
      \<and> filter (\<lambda>f. ft_version f \<noteq> vid) (fe_features db) = filter (\<lambda>f. ft_version f \<noteq> vid) (fe_features db))
      \<and> (\<forall>v \<in> set (fe_versions db). fv_id v = vid \<longrightarrow> fv_status v = ''draft'')"
    by (intro exI [of _ i]) auto
qed

section \<open>Every operation\<close>

lemma distinct_update_where: "(\<And>x. g (f x) = g x) \<Longrightarrow> distinct (map g (update_where P f xs)) = distinct (map g xs)"
proof -
  assume "\<And>x. g (f x) = g x"
  then have "map g (update_where P f xs) = map g xs" by (induction xs) (auto simp: update_where_def)
  then show ?thesis by simp
qed

lemma distinct_filter_map: "distinct (map g xs) \<Longrightarrow> distinct (map g (filter P xs))"
  by (induction xs) auto

lemma filter_kept: "filter (\<lambda>f. ft_version f \<noteq> vid) (filter (\<lambda>f. \<not> (P f \<and> ft_version f = vid \<and> Q f)) fs) = filter (\<lambda>f. ft_version f \<noteq> vid) fs"
  by (induction fs) auto

lemma asserted:
  assumes "bind_result (assert_draft_version org c vid db) f = Inr r"
  shows "\<exists>x. assert_draft_version org c vid db = Inr x \<and> f x = Inr r"
  using assms by (cases "assert_draft_version org c vid db") auto

lemma add_edits:
  assumes "well_featured db" and "add_feature i org c vid code kind s para q db = Inr (view, db')"
    and "i \<notin> ft_id ` set (fe_features db)"
  shows "edits db db'"
proof -
  obtain x where a: "assert_draft_version org c vid db = Inr x"
    using asserted [OF assms(2) [unfolded add_feature_def]] by blast
  obtain f where "db' = db\<lparr>fe_features := fe_features db @ [f]\<rparr>" "ft_id f = i" "ft_version f = vid"
    using assms(2) a by (auto simp: add_feature_def Let_def dest: answered_Inr)
  then show ?thesis using edits_features [OF assms(1) a, of "fe_features db @ [f]"] assms(1,3)
    by (simp add: well_featured_def)
qed

lemma update_edits:
  assumes "well_featured db" and "update_feature org c vid fid code kind s para q n db = Inr (view, db')"
  shows "edits db db'"
proof -
  obtain x where a: "assert_draft_version org c vid db = Inr x"
    using asserted [OF assms(2) [unfolded update_feature_def]] by blast
  let ?f = "\<lambda>f. f\<lparr>ft_code := (case non_empty code of None \<Rightarrow> ft_code f | Some x \<Rightarrow> strip_text x),
                  ft_type := (case kind of None \<Rightarrow> ft_type f | Some x \<Rightarrow> x),
                  ft_statement := (case non_empty s of None \<Rightarrow> ft_statement f | Some x \<Rightarrow> strip x),
                  ft_paragraph := (case para of None \<Rightarrow> ft_paragraph f | Some x \<Rightarrow> Some x),
                  ft_quote := (case q of None \<Rightarrow> ft_quote f | Some x \<Rightarrow> Some x),
                  ft_sort := (case n of None \<Rightarrow> ft_sort f | Some x \<Rightarrow> x)\<rparr>"
  let ?fs = "update_where (\<lambda>f. ft_id f = fid \<and> ft_version f = vid \<and> ft_organization f = org) ?f (fe_features db)"
  have "db' = db\<lparr>fe_features := ?fs\<rparr>"
    using assms(2) a by (simp add: update_feature_def) (drule answered_Inr, simp)
  moreover have "distinct (map ft_id ?fs)"
    using assms(1) by (subst distinct_update_where) (simp_all add: well_featured_def)
  moreover have "filter (\<lambda>f. ft_version f \<noteq> vid) ?fs = filter (\<lambda>f. ft_version f \<noteq> vid) (fe_features db)"
    by (rule filter_update_where) simp_all
  ultimately show ?thesis using edits_features [OF assms(1) a] by simp
qed

lemma delete_edits:
  assumes "well_featured db" and "delete_feature org c vid fid db = Inr (view, db')"
  shows "edits db db'"
proof -
  obtain x where a: "assert_draft_version org c vid db = Inr x"
    using asserted [OF assms(2) [unfolded delete_feature_def]] by blast
  have db': "db' = db\<lparr>fe_features := filter (\<lambda>f. \<not> (ft_id f = fid \<and> ft_version f = vid \<and> ft_organization f = org)) (fe_features db)\<rparr>"
    using assms(2) a by (simp add: delete_feature_def) (drule answered_Inr, simp)
  show ?thesis unfolding db' using assms(1)
    by (intro edits_features [OF assms(1) a] filter_kept distinct_filter_map) (simp add: well_featured_def)
qed

lemma split_edits:
  assumes "well_featured db" and "split_feature i org c vid fid p1 p2 db = Inr (view, db')"
    and "i \<notin> ft_id ` set (fe_features db)"
  shows "edits db db'"
proof -
  obtain x where a: "assert_draft_version org c vid db = Inr x"
    using asserted [OF assms(2) [unfolded split_feature_def]] by blast
  let ?fs = "update_where (\<lambda>f. ft_id f = fid) (ft_statement_update (\<lambda>_. strip p1)) (fe_features db)"
  obtain old n where old: "find (\<lambda>f. ft_id f = fid \<and> ft_version f = vid \<and> ft_organization f = org) (fe_features db) = Some old"
      and db': "db' = db\<lparr>fe_features := ?fs @ [n]\<rparr>" and n: "ft_id n = i" "ft_version n = vid"
    using assms(2) a by (auto simp: split_feature_def split: option.splits dest: answered_Inr)
  have "ft_version f = vid" if "f \<in> set (fe_features db)" "ft_id f = fid" for f
  proof -
    have "old \<in> set (fe_features db)" "ft_id old = fid" "ft_version old = vid" using old by (auto simp: find_Some_iff)
    moreover from this that assms(1) have "f = old" unfolding well_featured_def distinct_map inj_on_def by metis
    ultimately show ?thesis by simp
  qed
  then have "filter (\<lambda>f. ft_version f \<noteq> vid) ?fs = filter (\<lambda>f. ft_version f \<noteq> vid) (fe_features db)"
    by (induction "fe_features db") (auto simp: update_where_def filter_map o_def intro!: map_idI)
  moreover have "distinct (map ft_id (?fs @ [n]))"
  proof -
    have "map ft_id ?fs = map ft_id (fe_features db)" by (simp add: update_where_def)
    then have "ft_id ` set ?fs = ft_id ` set (fe_features db)" by (metis list.set_map)
    with \<open>map ft_id ?fs = map ft_id (fe_features db)\<close> assms(1,3) n show ?thesis by (simp add: well_featured_def)
  qed
  ultimately show ?thesis using edits_features [OF assms(1) a, of "?fs @ [n]"] n by (simp add: db')
qed

lemma merge_edits:
  assumes "well_featured db" and "merge_features org c vid fid1 fid2 s db = Inr (view, db')"
  shows "edits db db'"
proof -
  obtain x where a: "assert_draft_version org c vid db = Inr x"
    using asserted [OF assms(2) [unfolded merge_features_def]] by blast
  let ?fs = "update_where (\<lambda>f. ft_id f = fid1 \<and> ft_version f = vid) (ft_statement_update (\<lambda>_. strip s)) (fe_features db)"
  have db': "db' = db\<lparr>fe_features := filter (\<lambda>f. \<not> (ft_id f = fid2 \<and> ft_version f = vid \<and> True)) ?fs\<rparr>"
    using assms(2) a by (simp add: merge_features_def) (drule answered_Inr, simp)
  have "filter (\<lambda>f. ft_version f \<noteq> vid) ?fs = filter (\<lambda>f. ft_version f \<noteq> vid) (fe_features db)"
    by (rule filter_update_where) simp_all
  moreover have "distinct (map ft_id ?fs)"
    using assms(1) by (subst distinct_update_where) (simp_all add: well_featured_def)
  ultimately show ?thesis unfolding db'
    by (intro edits_features [OF assms(1) a] distinct_filter_map) (simp_all only: filter_kept)
qed

lemma confirm_edits:
  assumes "well_featured db" and "confirm_version now org c vid actor db = Inr (view, db')"
  shows "edits db db'"
proof -
  obtain x where a: "assert_draft_version org c vid db = Inr x"
    using asserted [OF assms(2) [unfolded confirm_version_def]] by blast
  let ?f = "\<lambda>v. v\<lparr>fv_status := ''confirmed'', fv_confirmed_by := Some actor, fv_confirmed_at := Some now\<rparr>"
  have db': "fe_versions db' = update_where (\<lambda>v. fv_id v = vid) ?f (fe_versions db)" "fe_features db' = fe_features db"
    using assms(2) a by (auto simp: confirm_version_def split: if_splits dest!: answered_Inr)
  have "settles ?f" by (simp add: settles_def)
  then have "versions_ok (fe_versions db')"
    unfolding db' update_where_def using assms(1) by (intro settled_ok settles_when) (simp_all add: well_featured_def)
  moreover have "filter (\<lambda>v. fv_id v \<noteq> vid) (fe_versions db') = filter (\<lambda>v. fv_id v \<noteq> vid) (fe_versions db)"
    unfolding db' by (rule filter_update_where) simp_all
  ultimately show ?thesis unfolding edits_def elsewhere_def
    using assms(1) db' draft_unique [OF assms(1) a] by (auto simp: well_featured_def)
qed

lemma map_enumerate_fst: "(\<And>i x. g (h (i, x)) = k i) \<Longrightarrow> map g (map h (enumerate n xs)) = map k [n..<n + length xs]"
  by (induction xs arbitrary: n) (simp_all add: upt_rec)

lemma fresh_block:
  assumes "fresh_ids fresh db" and "set fs \<subseteq> set (fe_features db)" and "distinct (map ft_id fs)"
    and "map ft_id new = map fresh [n..<m]"
  shows "distinct (map ft_id (fs @ new))"
proof -
  have "inj_on fresh {n..<m}" using assms(1) by (auto simp: fresh_ids_def intro: inj_on_subset)
  then have "distinct (map ft_id new)" unfolding assms(4) by (simp add: distinct_map)
  moreover have "ft_id ` set new \<subseteq> range fresh" using arg_cong [OF assms(4), of set] by auto
  moreover have "range fresh \<inter> ft_id ` set fs = {}" using assms(1,2) by (auto simp: fresh_ids_def)
  ultimately show ?thesis using assms(3) by (auto simp: distinct_append)
qed

lemma fresh_not_version: "fresh_ids fresh db \<Longrightarrow> v \<in> set (fe_versions db) \<Longrightarrow> fv_id v \<noteq> fresh i"
  unfolding fresh_ids_def by (metis image_eqI)

lemma open_draft_Some:
  assumes "open_draft org c db = Some v"
  shows "v \<in> set (fe_versions db) \<and> fv_status v = ''draft''"
  using assms by (auto simp: open_draft_def find_Some_iff)

lemma extract_edits:
  assumes "well_featured db" and "extract_draft_features fresh ai org c wanted db = Inr (view, db')" and "fresh_ids fresh db"
  shows "edits db db'"
proof -
  obtain doc where doc: "target_document org c wanted db = Some doc"
    using assms(2) by (cases "target_document org c wanted db") (auto simp: extract_draft_features_def)
  let ?ds = "drafts_for ai (dv_paragraphs doc)"
  let ?new = "\<lambda>vid. map (\<lambda>(i, f). feature_of_draft (fresh i) org c vid f) (enumerate 1 ?ds)"
  have ids: "map ft_id (?new vid) = map fresh [1..<1 + length ?ds]" for vid
    by (rule map_enumerate_fst) (simp add: feature_of_draft_def)
  have ver: "filter (\<lambda>f. ft_version f \<noteq> vid) (?new vid) = []" for vid
    by (auto simp: filter_empty_conv feature_of_draft_def)
  show ?thesis
  proof (cases "open_draft org c db")
    case None
    then have db': "db' = db\<lparr>fe_versions := fe_versions db @
        [new_version (fresh 0) org c (dv_id doc) (or_else (next_number c db) 1) None drafted_summary],
        fe_features := fe_features db @ ?new (fresh 0)\<rparr>"
      using assms(2) doc by (simp add: extract_draft_features_def Let_def) (drule answered_Inr, simp)
    have "versions_ok (fe_versions db')"
      unfolding db' using assms(1,3) None by (simp add: appended_ok well_featured_def fresh_ids_def)
    moreover have "distinct (map ft_id (fe_features db @ ?new (fresh 0)))"
      using assms(1) by (intro fresh_block [OF assms(3) _ _ ids]) (simp_all add: well_featured_def)
    ultimately show ?thesis unfolding edits_def elsewhere_def well_featured_def
      using fresh_not_version [OF assms(3)] ver [of "fresh 0"]
      by (intro conjI exI [of _ "fresh 0"]) (auto simp: db' new_version_def)
  next
    case (Some v)
    let ?old = "filter (\<lambda>f. ft_version f \<noteq> fv_id v) (fe_features db)"
    have db': "db' = db\<lparr>fe_features := ?old @ ?new (fv_id v),
        fe_versions := update_where (\<lambda>x. fv_id x = fv_id v) (fv_document_update (\<lambda>_. dv_id doc)) (fe_versions db)\<rparr>"
      using Some assms(2) doc by (simp add: extract_draft_features_def Let_def) (drule answered_Inr, simp)
    have "settles (fv_document_update (\<lambda>_. dv_id doc))" by (simp add: settles_def)
    then have "versions_ok (fe_versions db')"
      unfolding db' using assms(1) by (simp add: update_where_def) (intro settled_ok settles_when, simp_all add: well_featured_def)
    moreover have "distinct (map ft_id (?old @ ?new (fv_id v)))"
      using assms(1) by (intro fresh_block [OF assms(3) _ _ ids] distinct_filter_map) (auto simp: well_featured_def)
    moreover have "filter (\<lambda>x. fv_id x \<noteq> fv_id v) (fe_versions db') = filter (\<lambda>x. fv_id x \<noteq> fv_id v) (fe_versions db)"
      unfolding db' by (simp, rule filter_update_where) simp_all
    moreover have "x = v" if "x \<in> set (fe_versions db)" "fv_id x = fv_id v" for x
      using assms(1) open_draft_Some [OF Some] that
      unfolding well_featured_def versions_ok_def distinct_map inj_on_def by metis
    ultimately show ?thesis unfolding edits_def elsewhere_def well_featured_def
      using open_draft_Some [OF Some] ver [of "fv_id v"] by (intro conjI exI [of _ "fv_id v"]) (auto simp: db')
  qed
qed

lemma revise_edits:
  assumes "well_featured db" and "create_revision fresh org c base db = Inr (view, db')" and "fresh_ids fresh db"
  shows "edits db db'"
proof -
  obtain b where b: "find_version org c base db = Some b"
    using assms(2) by (cases "find_version org c base db") (auto simp: create_revision_def)
  show ?thesis
  proof (cases "open_draft org c db")
    case (Some v)
    then have "db' = db" using assms(2) b by (simp add: create_revision_def answered_Inr)
    then show ?thesis using edits_refl [OF assms(1)] by simp
  next
    case None
    let ?old = "sort_key ft_sort (filter (\<lambda>f. ft_version f = base) (fe_features db))"
    let ?new = "map (\<lambda>(i, f). copied_feature (fresh i) org c (fresh 0) f) (enumerate 1 ?old)"
    have db': "db' = db\<lparr>fe_versions := fe_versions db @
        [new_version (fresh 0) org c (fv_document b) (or_else (next_number c db) 2) (Some base) revision_summary],
        fe_features := fe_features db @ ?new\<rparr>"
      using None assms(2) b by (simp add: create_revision_def) (drule answered_Inr, simp)
    have ids: "map ft_id ?new = map fresh [1..<1 + length ?old]"
      by (rule map_enumerate_fst) (simp add: copied_feature_def)
    have "filter (\<lambda>f. ft_version f \<noteq> fresh 0) ?new = []" by (auto simp: filter_empty_conv copied_feature_def)
    moreover have "versions_ok (fe_versions db')"
      unfolding db' using assms(1,3) None by (simp add: appended_ok well_featured_def fresh_ids_def)
    moreover have "distinct (map ft_id (fe_features db @ ?new))"
      using assms(1) by (intro fresh_block [OF assms(3) _ _ ids]) (simp_all add: well_featured_def)
    ultimately show ?thesis unfolding edits_def elsewhere_def well_featured_def
      using fresh_not_version [OF assms(3)] by (intro conjI exI [of _ "fresh 0"]) (auto simp: db' new_version_def)
  qed
qed

lemma step_edits:
  assumes "feature_step db db'" and "well_featured db"
  shows "edits db db'"
  using assms(1)
proof cases
  case (document_step docs)
  then show ?thesis using edits_refl [OF assms(2)] by (simp add: edits_def elsewhere_def well_featured_def)
next
  case (case_step rows)
  then show ?thesis using edits_refl [OF assms(2)] by (simp add: edits_def elsewhere_def well_featured_def)
next
  case extract_step
  then show ?thesis using assms(2) extract_edits by blast
next
  case add_step
  then show ?thesis using assms(2) add_edits by blast
next
  case update_step
  then show ?thesis using assms(2) update_edits by blast
next
  case delete_step
  then show ?thesis using assms(2) delete_edits by blast
next
  case split_step
  then show ?thesis using assms(2) split_edits by blast
next
  case merge_step
  then show ?thesis using assms(2) merge_edits by blast
next
  case confirm_step
  then show ?thesis using assms(2) confirm_edits by blast
next
  case revise_step
  then show ?thesis using assms(2) revise_edits by blast
qed

section \<open>Sealing\<close>

definition empty_feature_db :: feature_db where
  "empty_feature_db = \<lparr>fe_documents = [], fe_cases = [], fe_versions = [], fe_features = []\<rparr>"

definition locked_version :: "feature_db \<Rightarrow> string \<Rightarrow> bool" where
  "locked_version db vid \<longleftrightarrow> (\<exists>v \<in> set (fe_versions db). fv_id v = vid \<and> fv_status v \<noteq> ''draft'')"

definition version_contents :: "feature_db \<Rightarrow> string \<Rightarrow> feature_version list \<times> feature_row list" where
  "version_contents db vid = (filter (\<lambda>v. fv_id v = vid) (fe_versions db), filter (\<lambda>f. ft_version f = vid) (fe_features db))"

lemma filter_other: "filter P (filter Q xs) = filter P xs" if "\<And>x. P x \<Longrightarrow> Q x"
  using that by (auto intro: filter_cong simp: filter_filter)

lemma edits_keeps_locked:
  assumes "edits db db'" and "locked_version db vid"
  shows "locked_version db' vid \<and> version_contents db' vid = version_contents db vid"
proof -
  obtain w where w: "elsewhere w db db'" "\<forall>v \<in> set (fe_versions db). fv_id v = w \<longrightarrow> fv_status v = ''draft''"
    using assms(1) by (auto simp: edits_def)
  then have ne: "vid \<noteq> w" using assms(2) by (auto simp: locked_version_def)
  have v: "filter (\<lambda>v. fv_id v = vid) xs = filter (\<lambda>v. fv_id v = vid) (filter (\<lambda>v. fv_id v \<noteq> w) xs)" for xs :: "feature_version list"
    using ne by (subst filter_other) auto
  have f: "filter (\<lambda>v. ft_version v = vid) xs = filter (\<lambda>v. ft_version v = vid) (filter (\<lambda>v. ft_version v \<noteq> w) xs)" for xs :: "feature_row list"
    using ne by (subst filter_other) auto
  have "filter (\<lambda>v. fv_id v = vid) (fe_versions db') = filter (\<lambda>v. fv_id v = vid) (filter (\<lambda>v. fv_id v \<noteq> w) (fe_versions db'))"
    by (rule v)
  also have "\<dots> = filter (\<lambda>v. fv_id v = vid) (filter (\<lambda>v. fv_id v \<noteq> w) (fe_versions db))"
    using w(1) by (simp only: elsewhere_def)
  also have "\<dots> = filter (\<lambda>v. fv_id v = vid) (fe_versions db)" by (rule v [symmetric])
  finally have same_v: "filter (\<lambda>v. fv_id v = vid) (fe_versions db') = filter (\<lambda>v. fv_id v = vid) (fe_versions db)" .
  have "filter (\<lambda>f. ft_version f = vid) (fe_features db') = filter (\<lambda>f. ft_version f = vid) (filter (\<lambda>f. ft_version f \<noteq> w) (fe_features db'))"
    by (rule f)
  also have "\<dots> = filter (\<lambda>f. ft_version f = vid) (filter (\<lambda>f. ft_version f \<noteq> w) (fe_features db))"
    using w(1) by (simp only: elsewhere_def)
  also have "\<dots> = filter (\<lambda>f. ft_version f = vid) (fe_features db)" by (rule f [symmetric])
  finally have same: "version_contents db' vid = version_contents db vid" by (simp add: version_contents_def same_v)
  have "locked_version db vid \<longleftrightarrow> (\<exists>v \<in> set (fst (version_contents db vid)). fv_status v \<noteq> ''draft'')" for db
    by (auto simp: locked_version_def version_contents_def)
  then show ?thesis using assms(2) same by simp
qed

interpretation feature_sets: sealed_store feature_step well_featured locked_version version_contents
proof unfold_locales
  fix d d' :: feature_db
  assume "feature_step d d'" and "well_featured d"
  then show "well_featured d'" using step_edits by (auto simp: edits_def)
next
  fix d d' :: feature_db and k
  assume "feature_step d d'" "well_featured d" "locked_version d k"
  then show "locked_version d' k \<and> version_contents d' k = version_contents d k"
    using step_edits edits_keeps_locked by blast
qed

lemma empty_well: "well_featured empty_feature_db"
  by (simp add: well_featured_def versions_ok_def empty_feature_db_def)

lemma reachable_well: "feature_step\<^sup>*\<^sup>* empty_feature_db db \<Longrightarrow> well_featured db"
  using feature_sets.run_well empty_well by blast

text \<open>What is read of a version depends on its contents only.\<close>

lemma find_filter: "(\<And>x. P x \<Longrightarrow> Q x) \<Longrightarrow> find P xs = find P (filter Q xs)"
  by (induction xs) auto

lemma get_from_contents:
  assumes "version_contents db' vid = version_contents db vid"
  shows "get_feature_set org c vid db' = get_feature_set org c vid db"
proof -
  have f: "find P (filter Q xs) = find (\<lambda>x. Q x \<and> P x) xs" for P Q and xs :: "feature_version list"
    by (induction xs) auto
  have "find_version org c vid db = find (\<lambda>v. fv_case v = c \<and> fv_organization v = org) (fst (version_contents db vid))" for db
    by (simp add: find_version_def version_contents_def f)
  then have 1: "find_version org c vid db' = find_version org c vid db" by (simp add: assms)
  have "filter (\<lambda>f. ft_version f = vid \<and> ft_organization f = org) (fe_features db)
      = filter (\<lambda>f. ft_organization f = org) (snd (version_contents db vid))" for db
    by (simp add: version_contents_def conj_commute)
  then have 2: "filter (\<lambda>f. ft_version f = vid \<and> ft_organization f = org) (fe_features db')
      = filter (\<lambda>f. ft_version f = vid \<and> ft_organization f = org) (fe_features db)" by (simp add: assms)
  show ?thesis by (simp only: get_feature_set_def 1 2)
qed

section \<open>The guarantees\<close>

text \<open>
  C13: a confirmed version of a feature set is frozen.  In every run of the service from empty tables,
  once a version is not a draft any more, reading it gives the same version and the same features for
  ever, whatever is extracted, edited, split, merged, confirmed or revised afterwards.
\<close>

theorem confirmed_features_frozen:
  assumes "feature_step\<^sup>*\<^sup>* empty_feature_db db1" and "feature_step\<^sup>*\<^sup>* db1 db2"
    and "get_feature_set org c vid db1 = Inr (v, fs)" and "fv_status v \<noteq> ''draft''"
  shows "get_feature_set org c vid db2 = Inr (v, fs)"
proof -
  have "locked_version db1 vid"
    using assms(3,4) by (auto simp: get_feature_set_def find_version_def locked_version_def find_Some_iff split: option.splits)
  from feature_sets.sealed_together [OF assms(1,2) empty_well this] get_from_contents assms(3) show ?thesis by metis
qed

text \<open>
  Drafts and numbers of feature sets.  In every run from empty tables a case has at most one draft,
  the numbers of its versions are distinct and start at 1, and a new number is above all others.
\<close>

theorem one_draft_per_case:
  assumes "feature_step\<^sup>*\<^sup>* empty_feature_db db" and "v \<in> set (case_versions org c db)" and "w \<in> set (case_versions org c db)"
  shows "(fv_status v = ''draft'' \<and> fv_status w = ''draft'' \<longrightarrow> v = w) \<and> (fv_number v = fv_number w \<longrightarrow> v = w)
    \<and> 1 \<le> fv_number v \<and> fv_number v < next_number c db"
proof -
  have v: "v \<in> set (fe_versions db)" "fv_case v = c" "fv_organization v = org"
    and w: "w \<in> set (fe_versions db)" "fv_case w = c" "fv_organization w = org"
    using assms(2,3) by (auto simp: case_versions_def)
  have ok: "versions_ok (fe_versions db)" using reachable_well [OF assms(1)] by (simp add: well_featured_def)
  have "v = w" if "fv_number v = fv_number w"
    using ok v w that unfolding versions_ok_def distinct_map inj_on_def by metis
  moreover have "v = w" if "fv_status v = ''draft''" "fv_status w = ''draft''"
    using ok v w that unfolding versions_ok_def by metis
  moreover have "1 \<le> fv_number v" using ok v(1) unfolding versions_ok_def by blast
  ultimately show ?thesis using next_number_above [OF v(1,2)] by blast
qed

text \<open>A case with one document, a drafted feature, and its confirmation.\<close>

definition sample_fresh :: "nat \<Rightarrow> string" where
  "sample_fresh i = replicate (Suc i) (CHR ''x'')"

definition sample_document_version :: document_version where
  "sample_document_version =
     \<lparr>dv_id = ''d'', dv_organization = ''o'', dv_case = ''c'', dv_source = ''s'', dv_number = 1, dv_parent = None,
      dv_text = [], dv_paragraphs = [], dv_sha256 = [], dv_confirmed = True, dv_created_by = None, dv_created_at = 0\<rparr>"

definition sample_drafted :: feature_db where
  "sample_drafted = empty_feature_db\<lparr>
     fe_documents := [sample_document_version],
     fe_versions := [new_version ''x'' ''o'' ''c'' ''d'' 1 None drafted_summary],
     fe_features := [\<lparr>ft_id = ''xx'', ft_organization = ''o'', ft_case = ''c'', ft_version = ''x'', ft_code = ''F1'',
       ft_type = ''characterizing'', ft_statement = [97], ft_paragraph = Some ''p1'', ft_quote = Some [97], ft_sort = 1\<rparr>]\<rparr>"

definition sample_confirmed :: feature_db where
  "sample_confirmed = sample_drafted\<lparr>fe_versions :=
     [(new_version ''x'' ''o'' ''c'' ''d'' 1 None drafted_summary)
        \<lparr>fv_status := ''confirmed'', fv_confirmed_by := Some ''a'', fv_confirmed_at := Some 9\<rparr>]\<rparr>"

lemmas feature_run = empty_feature_db_def find_version_def get_feature_set_def answered_def new_version_def
  update_where_def assert_draft_version_def

lemma sample_fresh_ids: "fresh_ids sample_fresh (empty_feature_db\<lparr>fe_documents := docs\<rparr>)"
  by (auto simp: fresh_ids_def empty_feature_db_def sample_fresh_def inj_on_def dest: arg_cong [of _ _ length])

lemma sample_drafted_reached: "feature_step\<^sup>*\<^sup>* empty_feature_db sample_drafted"
proof -
  let ?docs = "[sample_document_version]"
  let ?ai = "[\<lparr>df_code = ''F1'', df_type = ''characterizing'', df_statement = [97], df_paragraph = Some ''p1'',
    df_quote = Some [97], df_sort = 1\<rparr>]"
  have "\<exists>view. extract_draft_features sample_fresh ?ai ''o'' ''c'' None (empty_feature_db\<lparr>fe_documents := ?docs\<rparr>)
      = Inr (view, sample_drafted)"
    by (simp add: extract_draft_features_def target_document_def latest_document_def drafts_for_def
        extract_features_with_ai_def open_draft_def next_number_def next_after_def or_else_def feature_of_draft_def
        sample_fresh_def sample_drafted_def sample_document_version_def feature_run)
  then have "feature_step (empty_feature_db\<lparr>fe_documents := ?docs\<rparr>) sample_drafted"
    using extract_step sample_fresh_ids by blast
  with document_step [of empty_feature_db ?docs] show ?thesis
    by (meson converse_rtranclp_into_rtranclp rtranclp.rtrancl_refl)
qed

lemma sample_confirmed_reached: "feature_step\<^sup>*\<^sup>* empty_feature_db sample_confirmed"
proof -
  have "\<exists>view. confirm_version 9 ''o'' ''c'' ''x'' ''a'' sample_drafted = Inr (view, sample_confirmed)"
    by (simp add: confirm_version_def sample_confirmed_def sample_drafted_def feature_run)
  then have "feature_step sample_drafted sample_confirmed" using confirm_step by blast
  with sample_drafted_reached show ?thesis by (rule rtranclp.rtrancl_into_rtrancl)
qed

theorem confirmed_features_frozen_witness:
  "\<exists>v fs. fv_status v = ''confirmed'' \<and> get_feature_set ''o'' ''c'' ''x'' sample_confirmed = Inr (v, fs)"
proof -
  obtain v fs where "get_feature_set ''o'' ''c'' ''x'' sample_confirmed = Inr (v, fs)" "fv_status v = ''confirmed''"
    by (simp add: sample_confirmed_def sample_drafted_def feature_run)
  with confirmed_features_frozen [OF sample_confirmed_reached rtranclp.rtrancl_refl this(1)] show ?thesis by auto
qed

theorem one_draft_per_case_witness: "1 < next_number ''c'' sample_drafted"
proof -
  let ?v = "new_version ''x'' ''o'' ''c'' ''d'' 1 None drafted_summary"
  have "?v \<in> set (case_versions ''o'' ''c'' sample_drafted)"
    by (simp add: case_versions_def sample_drafted_def new_version_def)
  from one_draft_per_case [OF sample_drafted_reached this this] show ?thesis by (simp add: new_version_def)
qed

text \<open>
  C40: splitting and merging are inverse.  When a feature of a draft is split in two and the two parts are
  merged again under the original statement, the features of every version are what they were, provided
  the statement has no outer white space and the new identifier is fresh.
\<close>

theorem split_merge_roundtrip:
  assumes "distinct (map ft_id (fe_features db))" and "i \<notin> ft_id ` set (fe_features db)"
    and "f \<in> set (fe_features db)" and "strip (ft_statement f) = ft_statement f"
    and "split_feature i org c vid (ft_id f) p1 p2 db = Inr (view1, db1)"
    and "merge_features org c vid (ft_id f) i (ft_statement f) db1 = Inr (view2, db2)"
  shows "fe_features db2 = fe_features db"
proof -
  obtain x where a: "assert_draft_version org c vid db = Inr x"
    using asserted [OF assms(5) [unfolded split_feature_def]] by blast
  let ?fs = "update_where (\<lambda>g. ft_id g = ft_id f) (ft_statement_update (\<lambda>_. strip p1)) (fe_features db)"
  obtain old n where old: "find (\<lambda>g. ft_id g = ft_id f \<and> ft_version g = vid \<and> ft_organization g = org) (fe_features db) = Some old"
      and db1: "fe_features db1 = ?fs @ [n]" and n: "ft_id n = i" "ft_version n = vid"
    using assms(5) a by (auto simp: split_feature_def split: option.splits dest: answered_Inr)
  have same: "g = f" if "g \<in> set (fe_features db)" "ft_id g = ft_id f" for g
    using that assms(1,3) unfolding distinct_map inj_on_def by blast
  have restored: "g\<lparr>ft_statement := ft_statement f\<rparr> = g" if "g \<in> set (fe_features db)" "ft_id g = ft_id f" for g
    using same [OF that] by simp
  have "old = f" using old same by (auto simp: find_Some_iff)
  then have v: "ft_version f = vid" using old by (auto simp: find_Some_iff)
  obtain y where b: "assert_draft_version org c vid db1 = Inr y"
    using asserted [OF assms(6) [unfolded merge_features_def]] by blast
  have "fe_features db2 = filter (\<lambda>g. \<not> (ft_id g = i \<and> ft_version g = vid))
      (update_where (\<lambda>g. ft_id g = ft_id f \<and> ft_version g = vid) (ft_statement_update (\<lambda>_. ft_statement f)) (?fs @ [n]))"
    using assms(6) b db1 by (auto simp: merge_features_def assms(4) dest: answered_Inr)
  also have "\<dots> = filter (\<lambda>g. \<not> (ft_id g = i \<and> ft_version g = vid)) (map (\<lambda>g. g) (fe_features db))"
  proof -
    have "update_where (\<lambda>g. ft_id g = ft_id f \<and> ft_version g = vid) (ft_statement_update (\<lambda>_. ft_statement f)) ?fs
        = map (\<lambda>g. g) (fe_features db)"
      unfolding update_where_def map_map using restored v by (intro map_cong refl) (auto dest: same)
    moreover have "i \<noteq> ft_id f" using assms(2,3) by auto
    ultimately show ?thesis using n by (simp add: update_where_def)
  qed
  also have "\<dots> = fe_features db" using assms(2) by (auto intro!: filter_True)
  finally show ?thesis .
qed

theorem split_merge_roundtrip_witness:
  "\<exists>view1 view2 db1 db2. split_feature ''y'' ''o'' ''c'' ''x'' ''xx'' [98] [99] sample_drafted = Inr (view1, db1)
     \<and> merge_features ''o'' ''c'' ''x'' ''xx'' ''y'' [97] db1 = Inr (view2, db2) \<and> fe_features db2 = fe_features sample_drafted"
proof -
  let ?f = "hd (fe_features sample_drafted)"
  have f: "ft_id ?f = ''xx''" "ft_statement ?f = [97]" by (simp_all add: sample_drafted_def)
  obtain view1 db1 where 1: "split_feature ''y'' ''o'' ''c'' ''x'' ''xx'' [98] [99] sample_drafted = Inr (view1, db1)"
    by (simp add: split_feature_def sample_drafted_def feature_run)
  then have db1: "db1 = snd (projr (split_feature ''y'' ''o'' ''c'' ''x'' ''xx'' [98] [99] sample_drafted))" by simp
  obtain view2 db2 where 2: "merge_features ''o'' ''c'' ''x'' ''xx'' ''y'' [97] db1 = Inr (view2, db2)"
    unfolding db1 by (simp add: merge_features_def split_feature_def sample_drafted_def feature_run)
  have "fe_features db2 = fe_features sample_drafted"
    by (rule split_merge_roundtrip [OF _ _ _ _ 1 [folded f(1)] 2 [folded f]])
      (simp_all add: sample_drafted_def strip_def lstrip_def rstrip_def is_space_def)
  with 1 2 show ?thesis by blast
qed

text \<open>Merging a feature with itself deletes it, and the answer is a success.\<close>

lemma merge_with_itself_deletes:
  assumes "assert_draft_version org c vid db = Inr x" and "merge_features org c vid i i s db = Inr (view, db')"
  shows "\<forall>f \<in> set (fe_features db'). \<not> (ft_id f = i \<and> ft_version f = vid)"
  using assms by (auto simp: merge_features_def dest!: answered_Inr)

end
