(* ===== verification/ComparisonEngine.thy ===== *)
theory ComparisonEngine
  imports Complex_Main Documents
begin

text \<open>
  \<^verbatim>\<open>modules/comparison/engine.py\<close> and \<^verbatim>\<open>evaluator.py\<close>: comparing one feature with one reference document, by rules
  or by the language model, and the counts over a whole matrix.  The word characters of Unicode and the
  answer of the language model are arguments.  The ratios of the code are quotients of two counts that are
  compared with 0.60, 0.50 and 0.25; here both sides are multiplied out.
\<close>

section \<open>Words\<close>

text \<open>The pattern of the words: two to six word characters, as many as there are.\<close>

definition in_word :: "(nat \<Rightarrow> bool) \<Rightarrow> nat \<Rightarrow> bool" where
  "in_word word_char c \<longleftrightarrow> word_char c \<or> 19968 \<le> c \<and> c \<le> 40869"

function find_words :: "(nat \<Rightarrow> bool) \<Rightarrow> ustr \<Rightarrow> ustr list" where
  "find_words word_char s =
     (if s = [] then []
      else let w = takeWhile (in_word word_char) (take 6 s)
           in if length w \<ge> 2 then w # find_words word_char (drop (length w) s) else find_words word_char (tl s))"
  by pat_completeness auto
termination find_words
  by (relation "measure (length \<circ> snd)") (auto simp: Let_def length_greater_0_conv [symmetric] simp del: length_greater_0_conv)

declare find_words.simps [simp del]

section \<open>Results\<close>

text \<open>The texts of the reasoning, and one written by the language model or by a person.\<close>

datatype reasoning =
    Nothing_disclosed ustr string
  | Same_means ustr ustr string ustr
  | Equivalent_means ustr string ustr
  | Feature_absent ustr string ustr
  | Written ustr

record comparison_result =
  cr_judgment :: string
  cr_confidence :: rat
  cr_location :: ustr
  cr_quote :: ustr
  cr_reasoning :: reasoning

definition EQUIVALENCE_SYNONYMS :: "(ustr, ustr list) pydict" where
  "EQUIVALENCE_SYNONYMS =
     [([22823, 27169, 22411], [[22823, 35821, 35328, 27169, 22411], [76, 76, 77], [39044, 35757, 32451, 27169, 22411], [28145, 24230, 31070, 32463, 32593, 32476]]),
      ([37327, 21270], [[28151, 21512, 31934, 24230], [20302, 20301, 23485], [27169, 22411, 21387, 32553], [23450, 28857, 21270], [26435, 37325, 37327, 21270]]),
      ([22855, 24322, 20540, 20998, 35299], [[83, 86, 68], [20302, 31209, 20998, 35299], [30697, 38453, 20998, 35299], [29305, 24449, 20540, 20998, 35299]]),
      ([31232, 30095], [[31232, 30095, 21270], [21098, 26525], [38750, 38646, 20803, 32032, 20248, 21270], [26597, 25214, 34920]]),
      ([25512, 29702], [[39044, 27979], [21069, 21521, 35745, 31639], [35299, 30721], [73, 110, 102, 101, 114, 101, 110, 99, 101]]),
      ([21521, 37327], [[69, 109, 98, 101, 100, 100, 105, 110, 103], [29305, 24449, 21521, 37327], [34920, 24449], [38544, 31354, 38388]])]"

section \<open>The rules\<close>

text \<open>The place named when there is no text at all: the whole document.\<close>

definition whole_document :: ustr where "whole_document = [20840, 25991]"

definition equivalent_word :: "ustr \<Rightarrow> ustr \<Rightarrow> bool" where
  "equivalent_word text w \<longleftrightarrow>
     list_ex (\<lambda>(root, syns). (w = root \<or> w \<in> set syns) \<and> list_ex (\<lambda>s. occurs_in s text) syns) EQUIVALENCE_SYNONYMS"

definition direct_matches :: "ustr list \<Rightarrow> ustr \<Rightarrow> nat" where
  "direct_matches ws text = length (filter (\<lambda>w. occurs_in w text) ws)"

definition equiv_matches :: "ustr list \<Rightarrow> ustr \<Rightarrow> nat" where
  "equiv_matches ws text = length (filter (\<lambda>w. \<not> occurs_in w text \<and> equivalent_word text w) ws)"

fun best_loop :: "ustr list \<Rightarrow> ustr list \<Rightarrow> ustr \<times> nat \<Rightarrow> ustr \<times> nat" where
  "best_loop ws [] st = st"
| "best_loop ws (s # ss) (best, n) =
     best_loop ws ss (if direct_matches ws s > n then (s, direct_matches ws s) else (best, n))"

text \<open>The estimated paragraph: the words for the description, and a number between 12 and 48.\<close>

definition est_paragraph :: "nat \<Rightarrow> ustr" where
  "est_paragraph n = [35828, 26126, 20070, 31532, 91, 48, 48] @ u (str_nat (min (max (n * 6 + 10) 12) 48)) @ [93, 27573]"

definition feature_words :: "(nat \<Rightarrow> bool) \<Rightarrow> ustr \<Rightarrow> ustr list" where
  "feature_words word_char statement =
     (let ws = filter (\<lambda>w. length w \<ge> 2) (find_words word_char statement) in if ws = [] then [statement] else ws)"

definition compare_feature_with_candidate ::
  "(nat \<Rightarrow> bool) \<Rightarrow> string \<Rightarrow> ustr \<Rightarrow> ustr \<Rightarrow> ustr \<Rightarrow> ustr \<Rightarrow> comparison_result" where
  "compare_feature_with_candidate word_char code statement pub title abstract =
     (let cand_text = strip (title @ [32] @ abstract)
      in if cand_text = []
         then \<lparr>cr_judgment = ''different'', cr_confidence = 90, cr_location = whole_document, cr_quote = [],
               cr_reasoning = Nothing_disclosed pub code\<rparr>
         else
           let ws = feature_words word_char statement;
               direct = direct_matches ws cand_text;
               equivalents = equiv_matches ws cand_text;
               total_words = max (length ws) 1;
               (best, n) = best_loop ws (split_sentences 6 abstract) (title, 0)
           in if 5 * (direct + equivalents) \<ge> 3 * total_words \<or> 2 * direct \<ge> total_words \<and> direct \<ge> 2
              then \<lparr>cr_judgment = ''identical'',
                    cr_confidence = min (85 + of_nat direct / of_nat total_words * 15) 98,
                    cr_location = est_paragraph n, cr_quote = best,
                    cr_reasoning = Same_means pub (est_paragraph n) code (take 40 best)\<rparr>
              else if 4 * (direct + equivalents) \<ge> total_words \<or> equivalents > 0
              then \<lparr>cr_judgment = ''equivalent'', cr_confidence = 78, cr_location = est_paragraph n, cr_quote = best,
                    cr_reasoning = Equivalent_means pub code (take 35 best)\<rparr>
              else \<lparr>cr_judgment = ''different'', cr_confidence = 88, cr_location = est_paragraph n, cr_quote = best,
                    cr_reasoning = Feature_absent pub code (hd ws)\<rparr>)"

section \<open>With the language model\<close>

record chunk =
  ck_id :: string
  ck_text :: ustr

record llm_comparison =
  lc_judgment :: string
  lc_location :: ustr
  lc_quote :: ustr
  lc_reasoning :: ustr

definition candidate_chunks :: "chunk list \<Rightarrow> ustr \<Rightarrow> ustr \<Rightarrow> chunk list" where
  "candidate_chunks chunks title abstract =
     (if chunks = []
      then map (\<lambda>(i, s). \<lparr>ck_id = ''00'' @ str_nat (i + 10), ck_text = s\<rparr>)
             (enumerate 0 (take 6 (split_sentences 8 (title @ [32] @ abstract))))
      else chunks)"

definition top_chunks :: "(nat \<Rightarrow> bool) \<Rightarrow> ustr \<Rightarrow> chunk list \<Rightarrow> chunk list" where
  "top_chunks word_char statement chunks =
     take 4 (sort_key (\<lambda>c. - int (length (filter (\<lambda>w. occurs_in w (ck_text c)) (remdups (find_words word_char statement))))) chunks)"

text \<open>\<open>ai\<close> answers nothing when the client is not configured or raises.\<close>

definition compare_feature_with_ai ::
  "(nat \<Rightarrow> bool) \<Rightarrow> (string \<Rightarrow> ustr \<Rightarrow> ustr \<Rightarrow> ustr \<Rightarrow> chunk list \<Rightarrow> llm_comparison option)
    \<Rightarrow> string \<Rightarrow> ustr \<Rightarrow> ustr \<Rightarrow> ustr \<Rightarrow> ustr \<Rightarrow> chunk list \<Rightarrow> comparison_result" where
  "compare_feature_with_ai word_char ai code statement pub title abstract chunks =
     (case ai code statement pub title (top_chunks word_char statement (candidate_chunks chunks title abstract)) of
        Some res \<Rightarrow>
          \<lparr>cr_judgment = lc_judgment res, cr_confidence = (if lc_judgment res = ''identical'' then 95 else 85),
           cr_location = lc_location res, cr_quote = lc_quote res, cr_reasoning = Written (lc_reasoning res)\<rparr>
      | None \<Rightarrow> compare_feature_with_candidate word_char code statement pub title abstract)"

section \<open>The evaluation of a matrix\<close>

record matrix_item =
  mi_feature :: string
  mi_candidate :: string
  mi_judgment :: string

datatype risk_level = Risk_unknown | High_novelty_risk | Inventiveness_risk | Clear_difference

datatype covering_note =
    Fully_disclosed ustr
  | Covered_by_equivalents ustr
  | Partly_disclosed ustr nat nat

datatype matrix_summary =
    Incomplete_data
  | Novelty_check_needed "covering_note list"
  | Inventiveness_argument_needed "covering_note list"
  | No_covering_document

record matrix_evaluation =
  me_risk :: risk_level
  me_summary :: matrix_summary
  me_high :: "covering_note list"
  me_partial :: "covering_note list"
  me_features :: nat
  me_candidates :: "nat option"

definition count_judgment :: "string \<Rightarrow> matrix_item list \<Rightarrow> nat" where
  "count_judgment j items = length (filter (\<lambda>c. mi_judgment c = j) items)"

definition comparisons_of :: "(string, matrix_item list) pydict \<Rightarrow> string \<Rightarrow> matrix_item list" where
  "comparisons_of cand_map cid = (case map_of cand_map cid of None \<Rightarrow> [] | Some items \<Rightarrow> items)"

fun rate_candidates :: "nat \<Rightarrow> (string, matrix_item list) pydict \<Rightarrow> (string \<times> ustr) list
    \<Rightarrow> covering_note list \<times> covering_note list \<Rightarrow> covering_note list \<times> covering_note list" where
  "rate_candidates n cand_map [] st = st"
| "rate_candidates n cand_map ((cid, pub) # cands) (high, partial) =
     (let items = comparisons_of cand_map cid;
          identical_count = count_judgment ''identical'' items;
          equiv_count = count_judgment ''equivalent'' items
      in rate_candidates n cand_map cands
           (if identical_count = n then (high @ [Fully_disclosed pub], partial)
            else if identical_count + equiv_count = n then (high @ [Covered_by_equivalents pub], partial)
            else if identical_count + equiv_count > 0
            then (high, partial @ [Partly_disclosed pub (identical_count + equiv_count) n])
            else (high, partial)))"

definition evaluate_matrix :: "nat \<Rightarrow> (string \<times> ustr) list \<Rightarrow> matrix_item list \<Rightarrow> matrix_evaluation" where
  "evaluate_matrix total_features candidates comparisons =
     (if total_features = 0 \<or> candidates = [] \<or> comparisons = []
      then \<lparr>me_risk = Risk_unknown, me_summary = Incomplete_data, me_high = [], me_partial = [],
            me_features = total_features, me_candidates = None\<rparr>
      else
        let cand_map = group_by mi_candidate comparisons;
            (high, partial) = rate_candidates total_features cand_map candidates ([], [])
        in \<lparr>me_risk = (if high \<noteq> [] then High_novelty_risk else if partial \<noteq> [] then Inventiveness_risk
                       else Clear_difference),
            me_summary = (if high \<noteq> [] then Novelty_check_needed high
                          else if partial \<noteq> [] then Inventiveness_argument_needed (take 3 partial)
                          else No_covering_document),
            me_high = high, me_partial = partial, me_features = total_features,
            me_candidates = Some (length candidates)\<rparr>)"

section \<open>What the counts mean\<close>

text \<open>A document discloses a feature when the matrix calls the feature identical or equivalent there.\<close>

definition discloses :: "matrix_item list \<Rightarrow> string \<Rightarrow> string \<Rightarrow> bool" where
  "discloses items cid f \<longleftrightarrow>
     (\<exists>i \<in> set items. mi_feature i = f \<and> mi_candidate i = cid \<and> mi_judgment i \<in> {''identical'', ''equivalent''})"

definition disclosing :: "matrix_item list \<Rightarrow> string \<Rightarrow> matrix_item list" where
  "disclosing items cid = filter (\<lambda>i. mi_candidate i = cid \<and> mi_judgment i \<in> {''identical'', ''equivalent''}) items"

definition matrix_ok :: "string list \<Rightarrow> matrix_item list \<Rightarrow> bool" where
  "matrix_ok features items \<longleftrightarrow> distinct features \<and> distinct (map (\<lambda>i. (mi_feature i, mi_candidate i)) items)
     \<and> mi_feature ` set items \<subseteq> set features"

lemma comparisons_of_group: "comparisons_of (group_by mi_candidate items) cid = filter (\<lambda>i. mi_candidate i = cid) items"
  by (cases "cid \<in> mi_candidate ` set items")
    (auto simp: comparisons_of_def map_of_group_by intro: filter_False [symmetric])

lemma counts_disclosing:
  "count_judgment ''identical'' (filter (\<lambda>i. mi_candidate i = cid) items)
     + count_judgment ''equivalent'' (filter (\<lambda>i. mi_candidate i = cid) items) = length (disclosing items cid)"
  unfolding count_judgment_def disclosing_def by (induction items) auto

lemma disclosing_features:
  assumes "matrix_ok features items"
  shows "length (disclosing items cid) = card {f \<in> set features. discloses items cid f}"
proof -
  have "distinct (map (\<lambda>i. (mi_feature i, mi_candidate i)) (disclosing items cid))"
    using assms unfolding matrix_ok_def disclosing_def by (simp add: distinct_map inj_on_def)
  then have "inj_on mi_feature (set (disclosing items cid))"
    by (auto simp: distinct_map inj_on_def disclosing_def)
  moreover have "distinct (disclosing items cid)"
    using assms unfolding matrix_ok_def disclosing_def by (simp add: distinct_map)
  moreover have "mi_feature ` set (disclosing items cid) = {f \<in> set features. discloses items cid f}"
    using assms unfolding matrix_ok_def disclosing_def discloses_def by (fastforce simp: image_iff)
  ultimately show ?thesis by (metis card_image distinct_card)
qed

lemma disclosing_all:
  assumes "matrix_ok features items"
  shows "length (disclosing items cid) = length features \<longleftrightarrow> (\<forall>f \<in> set features. discloses items cid f)"
proof -
  have "length features = card (set features)"
    using assms by (simp add: matrix_ok_def distinct_card)
  then have "length (disclosing items cid) = length features \<longleftrightarrow> {f \<in> set features. discloses items cid f} = set features"
    unfolding disclosing_features [OF assms]
    using card_subset_eq [of "set features" "{f \<in> set features. discloses items cid f}"] by auto
  then show ?thesis by blast
qed

lemma disclosing_none: "length (disclosing items cid) = 0 \<longleftrightarrow> \<not> (\<exists>f. discloses items cid f)"
  by (auto simp: disclosing_def discloses_def filter_empty_conv)

lemma identical_at_most:
  assumes "matrix_ok features items"
  shows "count_judgment ''identical'' (filter (\<lambda>i. mi_candidate i = cid) items) = length features
    \<Longrightarrow> length (disclosing items cid) = length features"
proof -
  assume a: "count_judgment ''identical'' (filter (\<lambda>i. mi_candidate i = cid) items) = length features"
  have "length (disclosing items cid) \<le> card (set features)"
    unfolding disclosing_features [OF assms] by (intro card_mono) auto
  also have "\<dots> = length features" using assms by (simp add: matrix_ok_def distinct_card)
  finally show ?thesis using a counts_disclosing [of cid items] by linarith
qed

lemma rate_candidates_lists:
  assumes "matrix_ok features items"
  shows "(fst (rate_candidates (length features) (group_by mi_candidate items) cands (high, partial)) = []
      \<longleftrightarrow> high = [] \<and> (\<forall>c \<in> set cands. length (disclosing items (fst c)) \<noteq> length features))
    \<and> (snd (rate_candidates (length features) (group_by mi_candidate items) cands (high, partial)) = []
      \<longleftrightarrow> partial = [] \<and> (\<forall>c \<in> set cands. length (disclosing items (fst c)) \<in> {0, length features}))"
proof (induction cands arbitrary: high partial)
  case (Cons c cands)
  obtain cid pub where c: "c = (cid, pub)" by (cases c)
  show ?case
    unfolding c rate_candidates.simps Let_def comparisons_of_group counts_disclosing
    using Cons identical_at_most [OF assms, of cid] by auto
qed simp

text \<open>
  The matrix verdict means what it counts.  When every feature of the matrix is compared with every
  document at most once, the risk is called high exactly if some document discloses every feature, identically or
  by equivalents; it is called a matter of inventiveness exactly if no document does but some document discloses some
  feature; otherwise the difference is called clear.
\<close>

theorem matrix_risk_exact:
  assumes "matrix_ok features items" and "features \<noteq> []" and "cands \<noteq> []" and "items \<noteq> []"
  shows "me_risk (evaluate_matrix (length features) cands items) =
    (if \<exists>c \<in> set cands. \<forall>f \<in> set features. discloses items (fst c) f then High_novelty_risk
     else if \<exists>c \<in> set cands. \<exists>f \<in> set features. discloses items (fst c) f then Inventiveness_risk
     else Clear_difference)"
proof -
  obtain high partial where run:
      "rate_candidates (length features) (group_by mi_candidate items) cands ([], []) = (high, partial)" by fastforce
  have some: "(\<exists>f \<in> set features. discloses items cid f) \<longleftrightarrow> length (disclosing items cid) \<noteq> 0" for cid
    using assms(1) unfolding disclosing_none matrix_ok_def by (auto simp: discloses_def)
  have "high = [] \<longleftrightarrow> \<not> (\<exists>c \<in> set cands. \<forall>f \<in> set features. discloses items (fst c) f)"
    using rate_candidates_lists [OF assms(1), of cands "[]" "[]"] run disclosing_all [OF assms(1)] by simp
  moreover have "partial = [] \<longleftrightarrow> (\<forall>c \<in> set cands. length (disclosing items (fst c)) \<in> {0, length features})"
    using rate_candidates_lists [OF assms(1), of cands "[]" "[]"] run by simp
  ultimately show ?thesis
    using assms(2,3,4) some disclosing_all [OF assms(1)]
    by (auto simp: evaluate_matrix_def run)
qed

theorem matrix_risk_exact_witness:
  "me_risk (evaluate_matrix 2 [(''d'', []), (''e'', [])]
     [\<lparr>mi_feature = ''f'', mi_candidate = ''d'', mi_judgment = ''identical''\<rparr>,
      \<lparr>mi_feature = ''g'', mi_candidate = ''e'', mi_judgment = ''equivalent''\<rparr>]) = Inventiveness_risk"
  using matrix_risk_exact [of "[''f'', ''g'']"
      "[\<lparr>mi_feature = ''f'', mi_candidate = ''d'', mi_judgment = ''identical''\<rparr>,
        \<lparr>mi_feature = ''g'', mi_candidate = ''e'', mi_judgment = ''equivalent''\<rparr>]" "[(''d'', []), (''e'', [])]"]
  by (simp add: matrix_ok_def discloses_def numeral_2_eq_2)

section \<open>What the rules quote\<close>

lemma best_loop_matches:
  "snd (best_loop ws ss st) \<ge> snd st \<and> (\<forall>s \<in> set ss. direct_matches ws s \<le> snd (best_loop ws ss st))"
proof (induction ws ss st rule: best_loop.induct)
  case (2 ws s ss best n)
  show ?case using "2.IH" by (cases "direct_matches ws s > n") fastforce+
qed simp

lemma best_loop_cases:
  "best_loop ws ss st = st
   \<or> fst (best_loop ws ss st) \<in> set ss \<and> direct_matches ws (fst (best_loop ws ss st)) = snd (best_loop ws ss st)"
  by (induction ws ss st rule: best_loop.induct) (auto split: if_splits)

lemma feature_words_not_Nil: "feature_words word_char statement \<noteq> []"
  by (simp add: feature_words_def Let_def)

lemma matches_bound: "direct_matches ws text + equiv_matches ws text \<le> length ws"
  unfolding direct_matches_def equiv_matches_def by (induction ws) auto

text \<open>The two outcomes of a comparison by rules: without any text, and with a quotation.\<close>

lemma compare_cases:
  fixes r :: comparison_result
  assumes "r = compare_feature_with_candidate word_char code statement pub title abstract"
  obtains "strip (title @ [32] @ abstract) = []" "cr_judgment r = ''different''" "cr_quote r = []" "cr_confidence r = 90"
  | n where "strip (title @ [32] @ abstract) \<noteq> []"
      "(cr_quote r, n) = best_loop (feature_words word_char statement) (split_sentences 6 abstract) (title, 0)"
      "cr_judgment r \<in> {''identical'', ''equivalent'', ''different''}"
      "78 \<le> cr_confidence r \<and> cr_confidence r \<le> 98"
proof (cases "strip (title @ [32] @ abstract) = []")
  case True
  then show ?thesis using that(1) assms by (simp add: compare_feature_with_candidate_def)
next
  case False
  obtain best n where b: "best_loop (feature_words word_char statement) (split_sentences 6 abstract) (title, 0) = (best, n)"
    by fastforce
  have "0 \<le> (of_nat d / of_nat m :: rat)" for d m by simp
  then have "78 \<le> min (85 + of_nat d / of_nat m * 15) (98 :: rat)" for d m by simp
  with False b assms show ?thesis
    by (intro that(2) [of n]) (simp_all add: compare_feature_with_candidate_def Let_def del: min_less_iff_conj)
qed

text \<open>
  A comparison by rules quotes the reference.  The quotation is the title of the document or a sentence that
  occurs in its abstract, and no sentence of the abstract contains more words of the feature; the judgment
  is one of the three values of the chart and the confidence lies between 78 and 98.  A
  document without any text is different from every feature and quotes nothing.
\<close>

theorem rule_comparison_quotes_reference:
  assumes "r = compare_feature_with_candidate word_char code statement pub title abstract"
  shows "cr_judgment r \<in> {''identical'', ''equivalent'', ''different''} \<and> 78 \<le> cr_confidence r \<and> cr_confidence r \<le> 98
    \<and> (if strip (title @ [32] @ abstract) = [] then cr_judgment r = ''different'' \<and> cr_quote r = []
       else cr_quote r = title \<and> (\<forall>s \<in> set (split_sentences 6 abstract). direct_matches (feature_words word_char statement) s = 0)
         \<or> occurs_in (cr_quote r) abstract
           \<and> (\<forall>s \<in> set (split_sentences 6 abstract). direct_matches (feature_words word_char statement) s
                \<le> direct_matches (feature_words word_char statement) (cr_quote r)))"
  using assms
proof (cases rule: compare_cases)
  case (2 n)
  let ?ws = "feature_words word_char statement" and ?ss = "split_sentences 6 abstract"
  have n: "\<forall>s \<in> set ?ss. direct_matches ?ws s \<le> n"
    using best_loop_matches [where ws = ?ws and ss = ?ss and st = "(title, 0)"] 2(2) by (metis snd_conv)
  have "best_loop ?ws ?ss (title, 0) = (title, 0)
      \<or> fst (best_loop ?ws ?ss (title, 0)) \<in> set ?ss
        \<and> direct_matches ?ws (fst (best_loop ?ws ?ss (title, 0))) = snd (best_loop ?ws ?ss (title, 0))"
    using best_loop_cases by blast
  with 2 n sentence_in_text show ?thesis by (metis fst_conv le_zero_eq snd_conv)
qed simp

theorem rule_comparison_quotes_reference_witness:
  "occurs_in (cr_quote (compare_feature_with_candidate (\<lambda>_. False) ''F1'' [23545, 22823, 27169, 22411, 36827, 34892, 37327, 21270] [] [] [23545, 22823, 35821, 35328, 27169, 22411, 20570, 20302, 20301, 23485, 21387, 32553]))
     [23545, 22823, 35821, 35328, 27169, 22411, 20570, 20302, 20301, 23485, 21387, 32553]"
proof -
  define r where "r = compare_feature_with_candidate (\<lambda>_. False) ''F1'' [23545, 22823, 27169, 22411, 36827, 34892, 37327, 21270] [] []
    [23545, 22823, 35821, 35328, 27169, 22411, 20570, 20302, 20301, 23485, 21387, 32553]"
  have "strip ([] @ [32] @ [23545, 22823, 35821, 35328, 27169, 22411, 20570, 20302, 20301, 23485, 21387, 32553]) \<noteq> []"
    by (simp add: strip_empty_iff is_space_def)
  then have "cr_quote r = [] \<or> occurs_in (cr_quote r) [23545, 22823, 35821, 35328, 27169, 22411, 20570, 20302, 20301, 23485, 21387, 32553]"
    using rule_comparison_quotes_reference [OF r_def] by auto
  then show ?thesis unfolding r_def [symmetric] occurs_in_iff by (metis append_Nil)
qed

text \<open>
  Synonyms alone make a feature identical: when no word of the feature occurs in the document, but each has an
  equivalent there, the judgment is \<open>identical\<close> and not \<open>equivalent\<close>.
\<close>

lemma synonyms_alone_identical:
  assumes "strip (title @ [32] @ abstract) \<noteq> []"
    and "equiv_matches (feature_words word_char statement) (strip (title @ [32] @ abstract))
      = length (feature_words word_char statement)"
  shows "direct_matches (feature_words word_char statement) (strip (title @ [32] @ abstract)) = 0
    \<and> cr_judgment (compare_feature_with_candidate word_char code statement pub title abstract) = ''identical''"
proof -
  have "length (feature_words word_char statement) \<noteq> 0" using feature_words_not_Nil by simp
  then have p: "length (feature_words word_char statement) > 0" by blast
  then have m: "max (length (feature_words word_char statement)) (Suc 0) = length (feature_words word_char statement)"
    by (intro max_absorb1) (simp only: Suc_le_eq)
  show ?thesis
    using assms matches_bound [of "feature_words word_char statement" "strip (title @ [32] @ abstract)"]
    using p by (auto simp: compare_feature_with_candidate_def Let_def m simp del: length_greater_0_conv split: prod.splits)
qed

lemma synonyms_alone_example:
  "equiv_matches (feature_words (\<lambda>_. False) [37327, 21270]) (strip ([20302, 20301, 23485] @ [32] @ [])) = length (feature_words (\<lambda>_. False) [37327, 21270])"
  by (simp add: feature_words_def find_words.simps in_word_def equiv_matches_def equivalent_word_def EQUIVALENCE_SYNONYMS_def
      strip_def lstrip_def rstrip_def is_space_def)

text \<open>The quotation of the language model is taken as it comes.\<close>

lemma ai_quote_unchecked:
  "cr_quote (compare_feature_with_ai word_char (\<lambda>_ _ _ _ _. Some res) code statement pub title abstract chunks) = lc_quote res"
  by (simp add: compare_feature_with_ai_def)

end
