(* ===== verification/SearchImport.thy ===== *)
theory SearchImport
  imports ComparisonEngine
begin

text \<open>
  \<^verbatim>\<open>modules/search/importer.py\<close>: reading an export of the CNIPR search system, as a table or as lines of text.
  The reader of \<^verbatim>\<open>csv\<close> is the one of Python's library with its default dialect.  Letters outside ASCII keep
  their case.
\<close>

section \<open>Numbers of publications\<close>

definition upper_cp :: "nat \<Rightarrow> nat" where
  "upper_cp c = (if 97 \<le> c \<and> c \<le> 122 then c - 32 else c)"

text \<open>White space, dots, hyphens, underscores and slashes.\<close>

definition separator :: "nat \<Rightarrow> bool" where
  "separator c \<longleftrightarrow> is_space c \<or> c \<in> {46, 45, 95, 47}"

definition normalize_pub_number :: "ustr \<Rightarrow> ustr" where
  "normalize_pub_number pub_no = map upper_cp (filter (\<lambda>c. \<not> separator c) pub_no)"

section \<open>The reader of tables\<close>

datatype csv_state = Start_record | Start_field | In_field | In_quoted | Quote_in_quoted | Eat_newline

record csv_reader =
  cs_state :: csv_state
  cs_field :: ustr
  cs_fields :: "ustr list"
  cs_rows :: "ustr list list"

definition save_field :: "csv_state \<Rightarrow> csv_reader \<Rightarrow> csv_reader" where
  "save_field st r = r\<lparr>cs_state := st, cs_fields := cs_fields r @ [cs_field r], cs_field := []\<rparr>"

text \<open>\<open>csv.field_size_limit()\<close>: a field takes no character more; the reader raises an error.\<close>

definition FIELD_SIZE_LIMIT :: nat where "FIELD_SIZE_LIMIT = 131072"

definition add_char :: "nat \<Rightarrow> csv_state \<Rightarrow> csv_reader \<Rightarrow> csv_reader option" where
  "add_char c st r =
     (if FIELD_SIZE_LIMIT \<le> length (cs_field r) then None else Some (r\<lparr>cs_state := st, cs_field := cs_field r @ [c]\<rparr>))"

definition newline :: "nat \<Rightarrow> bool" where
  "newline c \<longleftrightarrow> c = 10 \<or> c = 13"

text \<open>One character; \<open>None\<close> is an error of the reader: a field too long, or a new line in an unquoted field.\<close>

definition start_field :: "nat \<Rightarrow> nat \<Rightarrow> csv_reader \<Rightarrow> csv_reader option" where
  "start_field delimiter c r =
     (if newline c then Some (save_field Eat_newline r)
      else if c = 34 then Some (r\<lparr>cs_state := In_quoted\<rparr>)
      else if c = delimiter then Some (save_field Start_field r)
      else add_char c In_field r)"

definition csv_char :: "nat \<Rightarrow> nat \<Rightarrow> csv_reader \<Rightarrow> csv_reader option" where
  "csv_char delimiter c r =
     (case cs_state r of
        Start_record \<Rightarrow> if newline c then Some (r\<lparr>cs_state := Eat_newline\<rparr>) else start_field delimiter c r
      | Start_field \<Rightarrow> start_field delimiter c r
      | In_field \<Rightarrow>
          if newline c then Some (save_field Eat_newline r)
          else if c = delimiter then Some (save_field Start_field r) else add_char c In_field r
      | In_quoted \<Rightarrow> if c = 34 then Some (r\<lparr>cs_state := Quote_in_quoted\<rparr>) else add_char c In_quoted r
      | Quote_in_quoted \<Rightarrow>
          if c = 34 then add_char c In_quoted r
          else if c = delimiter then Some (save_field Start_field r)
          else if newline c then Some (save_field Eat_newline r) else add_char c In_field r
      | Eat_newline \<Rightarrow> if newline c then Some r else None)"

text \<open>The end of a line: a record is complete, unless a quoted field is open.\<close>

definition emit_row :: "csv_reader \<Rightarrow> csv_reader" where
  "emit_row r = r\<lparr>cs_state := Start_record, cs_fields := [], cs_rows := cs_rows r @ [cs_fields r]\<rparr>"

definition csv_end_of_line :: "csv_reader \<Rightarrow> csv_reader" where
  "csv_end_of_line r =
     (case cs_state r of
        In_quoted \<Rightarrow> r
      | Start_record \<Rightarrow> emit_row r
      | Eat_newline \<Rightarrow> emit_row r
      | _ \<Rightarrow> emit_row (save_field Start_record r))"

fun csv_line :: "nat \<Rightarrow> ustr \<Rightarrow> csv_reader \<Rightarrow> csv_reader option" where
  "csv_line delimiter [] r = Some (csv_end_of_line r)"
| "csv_line delimiter (c # s) r =
     (case csv_char delimiter c r of None \<Rightarrow> None | Some r' \<Rightarrow> csv_line delimiter s r')"

fun csv_lines :: "nat \<Rightarrow> ustr list \<Rightarrow> csv_reader \<Rightarrow> csv_reader option" where
  "csv_lines delimiter [] r =
     Some (if cs_field r \<noteq> [] \<or> cs_state r = In_quoted then emit_row (save_field Start_record r) else r)"
| "csv_lines delimiter (l # ls) r =
     (case csv_line delimiter l r of None \<Rightarrow> None | Some r' \<Rightarrow> csv_lines delimiter ls r')"

text \<open>The lines of a text, each with its line feed.\<close>

fun file_lines :: "ustr \<Rightarrow> ustr list" where
  "file_lines [] = []"
| "file_lines (c # s) =
     (if c = 10 then [c] # file_lines s
      else case file_lines s of [] \<Rightarrow> [[c]] | l # ls \<Rightarrow> (c # l) # ls)"

definition csv_rows :: "nat \<Rightarrow> ustr \<Rightarrow> ustr list list option" where
  "csv_rows delimiter s =
     map_option cs_rows (csv_lines delimiter (file_lines s)
       \<lparr>cs_state = Start_record, cs_field = [], cs_fields = [], cs_rows = []\<rparr>)"

section \<open>Columns\<close>

datatype column = Pub_column | Title_column | Abstract_column | Date_column | Applicant_column | Ipc_column

definition column_words :: "(column \<times> ustr list) list" where
  "column_words =
     [(Pub_column, [[20844, 24320, 21495], [20844, 21578, 21495], [20844, 24320, 40, 20844, 21578, 41, 21495], [30003, 35831, 21495], [30003, 35831, 40, 19987, 21033, 41, 21495], [112, 117, 98, 95, 110, 111], [112, 117, 98, 108, 105, 99, 97, 116, 105, 111, 110],
        [100, 111, 99, 95, 110, 117, 109, 98, 101, 114]]),
      (Title_column, [[21457, 26126, 21517, 31216], [19987, 21033, 21517, 31216], [21517, 31216], [26631, 39064], [39064, 21517], [116, 105, 116, 108, 101]]),
      (Abstract_column, [[25688, 35201], [25991, 25688], [25688, 35201, 40, 25991, 25688, 41], [97, 98, 115, 116, 114, 97, 99, 116]]),
      (Date_column, [[20844, 24320, 26085], [20844, 21578, 26085], [20844, 24320, 40, 20844, 21578, 41, 26085], [30003, 35831, 26085], [100, 97, 116, 101]]),
      (Applicant_column, [[30003, 35831, 20154], [19987, 21033, 26435, 20154], [30003, 35831, 20154, 47, 19987, 21033, 26435, 20154], [24403, 21069, 26435, 21033, 20154], [97, 112, 112, 108, 105, 99, 97, 110, 116], [97, 115, 115, 105, 103, 110, 101, 101]]),
      (Ipc_column, [[20027, 20998, 31867, 21495], [20998, 31867, 21495], [105, 112, 99], [99, 112, 99]])]"

definition clean_header :: "ustr \<Rightarrow> ustr" where
  "clean_header h =
     strip (map (\<lambda>c. if c = 65288 then 40 else if c = 65289 then 41 else c) (lower (strip h)))"

definition column_of :: "ustr \<Rightarrow> column option" where
  "column_of h = map_option fst (find (\<lambda>(col, ks). list_ex (\<lambda>k. occurs_in k (clean_header h)) ks) column_words)"

fun first_column :: "column \<Rightarrow> nat \<Rightarrow> ustr list \<Rightarrow> nat option" where
  "first_column col i [] = None"
| "first_column col i (h # hs) = (if column_of h = Some col then Some i else first_column col (Suc i) hs)"

section \<open>Candidates\<close>

record imported_candidate =
  ic_publication_number :: ustr
  ic_normalized :: ustr
  ic_title :: ustr
  ic_abstract :: ustr
  ic_publication_date :: "ustr option"
  ic_applicant :: "ustr option"
  ic_ipc :: "ustr option"
  ic_source :: string
  ic_raw_row :: "ustr list option"

text \<open>The title made up for a patent: the word for patent and its number.\<close>

definition made_up_title :: "ustr \<Rightarrow> ustr" where
  "made_up_title number = [19987, 21033, 32] @ number"

definition cell :: "nat option \<Rightarrow> ustr list \<Rightarrow> ustr option" where
  "cell i row = (case i of None \<Rightarrow> None | Some i \<Rightarrow> if i < length row then Some (strip (row ! i)) else None)"

definition import_row :: "nat \<Rightarrow> (column \<Rightarrow> nat option) \<Rightarrow> ustr list \<Rightarrow> imported_candidate option" where
  "import_row pub_idx idx row =
     (case cell (Some pub_idx) row of
        None \<Rightarrow> None
      | Some raw_pub \<Rightarrow>
          if raw_pub = [] then None
          else let norm_pub = normalize_pub_number raw_pub
               in if norm_pub = [] then None
                  else let title = (case cell (idx Title_column) row of None \<Rightarrow> made_up_title norm_pub | Some t \<Rightarrow> t)
                       in Some \<lparr>ic_publication_number = raw_pub, ic_normalized = norm_pub,
                            ic_title = (if title = [] then made_up_title norm_pub else title),
                            ic_abstract = (case cell (idx Abstract_column) row of None \<Rightarrow> [] | Some a \<Rightarrow> a),
                            ic_publication_date = cell (idx Date_column) row,
                            ic_applicant = cell (idx Applicant_column) row, ic_ipc = cell (idx Ipc_column) row,
                            ic_source = ''cnipr_manual'', ic_raw_row = Some row\<rparr>)"

definition csv_delimiter :: "ustr \<Rightarrow> nat" where
  "csv_delimiter content = (if 9 \<in> set (take 1024 content) then 9 else 44)"

definition import_from_csv :: "ustr \<Rightarrow> imported_candidate list option" where
  "import_from_csv csv_content =
     (if strip csv_content = [] then Some []
      else case csv_rows (csv_delimiter csv_content) csv_content of
             None \<Rightarrow> None
           | Some [] \<Rightarrow> Some []
           | Some (headers # rest) \<Rightarrow>
               (case first_column Pub_column 0 headers of
                  Some i \<Rightarrow> Some (List.map_filter (import_row i (\<lambda>col. first_column col 0 headers)) rest)
                | None \<Rightarrow>
                    Some (List.map_filter
                      (import_row 0 ((\<lambda>col. first_column col 0 headers)
                        (Title_column := Some (if length headers > 1 then 1 else 0))))
                      (headers # rest))))"

definition plain_candidate :: "ustr \<Rightarrow> imported_candidate list" where
  "plain_candidate l =
     (let norm_pub = normalize_pub_number l
      in if norm_pub = [] then []
         else [\<lparr>ic_publication_number = l, ic_normalized = norm_pub, ic_title = made_up_title norm_pub,
                ic_abstract = [], ic_publication_date = None, ic_applicant = None, ic_ipc = None,
                ic_source = ''cnipr_manual'', ic_raw_row = None\<rparr>])"

fun import_lines :: "ustr list \<Rightarrow> imported_candidate list option" where
  "import_lines [] = Some []"
| "import_lines (l # ls) =
     (case (if 9 \<in> set l \<or> 44 \<in> set l then import_from_csv l else Some (plain_candidate l)) of
        None \<Rightarrow> None
      | Some found \<Rightarrow> map_option ((@) found) (import_lines ls))"

definition import_from_text :: "ustr \<Rightarrow> imported_candidate list option" where
  "import_from_text text =
     import_lines (filter (\<lambda>l. l \<noteq> []) (map strip (split_where line_break (strip text))))"

section \<open>What is imported\<close>

lemma letters_no_separator: "65 \<le> c \<Longrightarrow> c \<le> 122 \<Longrightarrow> c \<noteq> 95 \<Longrightarrow> \<not> separator c"
  by (auto simp: separator_def is_space_def)

lemma separator_upper: "separator (upper_cp c) = separator c"
proof (cases "97 \<le> c \<and> c \<le> 122")
  case True
  then have "\<not> separator (c - 32)" "\<not> separator c" by (intro letters_no_separator; linarith)+
  with True show ?thesis by (simp add: upper_cp_def)
next
  case False
  then show ?thesis by (auto simp: upper_cp_def)
qed

lemma normalize_no_separator: "c \<in> set (normalize_pub_number s) \<Longrightarrow> \<not> separator c"
  by (auto simp: normalize_pub_number_def separator_upper)

lemma normalize_idem [simp]: "normalize_pub_number (normalize_pub_number s) = normalize_pub_number s"
proof -
  have "filter (\<lambda>c. \<not> separator c) (normalize_pub_number s) = normalize_pub_number s"
    by (rule filter_True) (auto dest: normalize_no_separator)
  moreover have "map upper_cp (normalize_pub_number s) = normalize_pub_number s"
    by (auto simp: normalize_pub_number_def upper_cp_def)
  ultimately show ?thesis unfolding normalize_pub_number_def [of "normalize_pub_number s"] by (simp only:)
qed

definition well_imported :: "imported_candidate \<Rightarrow> bool" where
  "well_imported c \<longleftrightarrow> ic_normalized c = normalize_pub_number (ic_publication_number c) \<and> ic_normalized c \<noteq> []
     \<and> ic_title c \<noteq> [] \<and> ic_source c = ''cnipr_manual''"

lemma import_row_well: "import_row i idx row = Some c \<Longrightarrow> well_imported c"
  by (auto simp: import_row_def Let_def well_imported_def made_up_title_def split: option.splits if_splits)

lemma map_filter_mem: "y \<in> set (List.map_filter f xs) \<longleftrightarrow> (\<exists>x \<in> set xs. f x = Some y)"
  by (force simp: List.map_filter_def)

lemma import_from_csv_well: "import_from_csv s = Some cs \<Longrightarrow> c \<in> set cs \<Longrightarrow> well_imported c"
  by (auto simp: import_from_csv_def map_filter_mem split: if_splits option.splits list.splits intro: import_row_well)

lemma plain_candidate_well: "c \<in> set (plain_candidate l) \<Longrightarrow> well_imported c"
  by (auto simp: plain_candidate_def Let_def well_imported_def made_up_title_def split: if_splits)

lemma import_lines_well: "import_lines ls = Some cs \<Longrightarrow> c \<in> set cs \<Longrightarrow> well_imported c"
  by (induction ls arbitrary: cs)
    (auto split: if_splits option.splits dest: import_from_csv_well plain_candidate_well)

section \<open>Reading a plain table\<close>

definition plain_field :: "nat \<Rightarrow> ustr \<Rightarrow> bool" where
  "plain_field d f \<longleftrightarrow> (\<forall>c \<in> set f. c \<noteq> d \<and> c \<noteq> 34 \<and> \<not> newline c)"

definition plain_rows :: "nat \<Rightarrow> ustr list list \<Rightarrow> bool" where
  "plain_rows d rows \<longleftrightarrow> (\<forall>r \<in> set rows. r \<noteq> [] \<and> r \<noteq> [[]] \<and> (\<forall>f \<in> set r. plain_field d f))"

definition write_rows :: "nat \<Rightarrow> ustr list list \<Rightarrow> ustr" where
  "write_rows d rows = concat (map (\<lambda>r. join [d] r @ [10]) rows)"

lemma plain_field_simps [simp]:
  "plain_field d []"
  "plain_field d (c # f) \<longleftrightarrow> c \<noteq> d \<and> c \<noteq> 34 \<and> \<not> newline c \<and> plain_field d f"
  by (auto simp: plain_field_def)

definition short_field :: "ustr \<Rightarrow> bool" where
  "short_field f \<longleftrightarrow> length f \<le> FIELD_SIZE_LIMIT"

lemma short_Nil [simp]: "short_field []"
  by (simp add: short_field_def)

lemma csv_line_in_field:
  "plain_field d f \<Longrightarrow> cs_state r = In_field \<Longrightarrow> short_field (cs_field r) \<Longrightarrow>
     csv_line d (f @ s) r =
       (if short_field (cs_field r @ f) then csv_line d s (r\<lparr>cs_field := cs_field r @ f\<rparr>) else None)"
proof (induction f arbitrary: r)
  case (Cons c f)
  show ?case
  proof (cases "FIELD_SIZE_LIMIT \<le> length (cs_field r)")
    case True
    then show ?thesis using Cons.prems by (simp add: csv_char_def add_char_def short_field_def)
  next
    case False
    define r' where "r' = r\<lparr>cs_state := In_field, cs_field := cs_field r @ [c]\<rparr>"
    have "csv_char d c r = Some r'" using Cons.prems False by (simp add: csv_char_def add_char_def r'_def)
    moreover have "csv_line d (f @ s) r'
        = (if short_field (cs_field r' @ f) then csv_line d s (r'\<lparr>cs_field := cs_field r' @ f\<rparr>) else None)"
      using Cons.prems False by (intro Cons.IH) (simp_all add: r'_def short_field_def)
    ultimately show ?thesis using Cons.prems(2) by (cases r) (simp add: r'_def)
  qed
qed simp

text \<open>A field, read from its first character.\<close>

lemma csv_line_field:
  assumes "plain_field d f" and "f \<noteq> []" and "cs_state r = Start_field \<or> cs_state r = Start_record" and "cs_field r = []"
  shows "csv_line d (f @ s) r
    = (if short_field f then csv_line d s (r\<lparr>cs_state := In_field, cs_field := f\<rparr>) else None)"
proof (cases f)
  case (Cons c f')
  have limit: "\<not> FIELD_SIZE_LIMIT \<le> 0" "short_field [c]" by (simp_all add: FIELD_SIZE_LIMIT_def short_field_def)
  have "csv_char d c r = Some (r\<lparr>cs_state := In_field, cs_field := [c]\<rparr>)"
    using assms Cons limit(1) by (auto simp: csv_char_def start_field_def add_char_def)
  then show ?thesis
    using assms Cons csv_line_in_field [of d f' "r\<lparr>cs_state := In_field, cs_field := [c]\<rparr>" s] limit(2) by simp
qed (use assms in simp)

lemma csv_line_row:
  assumes "\<forall>f \<in> set fs. plain_field d f" and "fs \<noteq> []" and "\<not> newline d" and "d \<noteq> 34"
    and "cs_state r = Start_field \<or> cs_state r = Start_record \<and> fs \<noteq> [[]]" and "cs_field r = []"
  shows "csv_line d (join [d] fs @ [10]) r
    = (if list_all short_field fs
       then Some (r\<lparr>cs_state := Start_record, cs_field := [], cs_fields := [], cs_rows := cs_rows r @ [cs_fields r @ fs]\<rparr>)
       else None)"
  using assms
proof (induction fs arbitrary: r)
  case (Cons f fs)
  have nl: "newline 10" by (simp add: newline_def)
  show ?case
  proof (cases fs)
    case Nil
    show ?thesis
    proof (cases "f = []")
      case True
      then show ?thesis using Cons.prems Nil nl
        by (simp add: csv_char_def start_field_def save_field_def csv_end_of_line_def emit_row_def)
    next
      case False
      have "csv_line d (f @ [10]) r
          = (if short_field f then csv_line d [10] (r\<lparr>cs_state := In_field, cs_field := f\<rparr>) else None)"
        using Cons.prems False by (intro csv_line_field) auto
      then show ?thesis using Cons.prems Nil nl
        by (simp add: csv_char_def save_field_def csv_end_of_line_def emit_row_def)
    qed
  next
    case (Cons g gs)
    define r' where "r' = r\<lparr>cs_state := Start_field, cs_fields := cs_fields r @ [f], cs_field := []\<rparr>"
    have "csv_line d (f @ d # (join [d] fs @ [10])) r
        = (if short_field f then csv_line d (join [d] fs @ [10]) r' else None)"
    proof (cases "f = []")
      case True
      then show ?thesis using Cons.prems(3-6)
        by (auto simp: csv_char_def start_field_def save_field_def r'_def)
    next
      case False
      then have "csv_line d (f @ d # (join [d] fs @ [10])) r
          = (if short_field f then csv_line d (d # (join [d] fs @ [10])) (r\<lparr>cs_state := In_field, cs_field := f\<rparr>) else None)"
        using Cons.prems by (intro csv_line_field) auto
      then show ?thesis using Cons.prems(3) by (simp add: csv_char_def save_field_def r'_def)
    qed
    moreover have "csv_line d (join [d] fs @ [10]) r'
        = (if list_all short_field fs
           then Some (r'\<lparr>cs_state := Start_record, cs_field := [], cs_fields := [], cs_rows := cs_rows r' @ [cs_fields r' @ fs]\<rparr>)
           else None)"
      using Cons.prems \<open>fs = g # gs\<close> by (intro Cons.IH) (simp_all add: r'_def)
    ultimately show ?thesis using Cons by (simp add: r'_def)
  qed
qed simp

lemma file_lines_line: "10 \<notin> set l \<Longrightarrow> file_lines (l @ 10 # s) = (l @ [10]) # file_lines s"
  by (induction l) auto

lemma join_plain: "\<forall>f \<in> set r. plain_field d f \<Longrightarrow> \<not> newline d \<Longrightarrow> 10 \<notin> set (join [d] r)"
  by (induction "[d]" r rule: join.induct) (auto simp: plain_field_def newline_def)

lemma csv_lines_rows:
  assumes "plain_rows d rows" and "\<not> newline d" and "d \<noteq> 34" and "cs_state r = Start_record" and "cs_field r = []"
    and "cs_fields r = []"
  shows "csv_lines d (file_lines (write_rows d rows)) r
    = (if list_all (list_all short_field) rows then Some (r\<lparr>cs_rows := cs_rows r @ rows\<rparr>) else None)"
  using assms
proof (induction rows arbitrary: r)
  case (Cons row rows)
  have p: "row \<noteq> []" "row \<noteq> [[]]" "\<forall>f \<in> set row. plain_field d f" "plain_rows d rows"
    using Cons.prems(1) by (simp_all add: plain_rows_def)
  have "file_lines (write_rows d (row # rows)) = (join [d] row @ [10]) # file_lines (write_rows d rows)"
    using file_lines_line [OF join_plain [OF p(3) Cons.prems(2)]] by (simp add: write_rows_def)
  then show ?case
    using csv_line_row [OF p(3,1) Cons.prems(2,3), of r] Cons.IH [OF p(4) Cons.prems(2,3)] Cons.prems p(2) by simp
qed (simp add: write_rows_def)

lemma csv_reads_plain:
  assumes "plain_rows d rows" and "\<not> newline d" and "d \<noteq> 34"
  shows "csv_rows d (write_rows d rows) = (if list_all (list_all short_field) rows then Some rows else None)"
  using csv_lines_rows [OF assms] by (simp add: csv_rows_def)

text \<open>A table whose header names a column is not blank.\<close>

lemma blank_column_of: "strip h = [] \<Longrightarrow> column_of h = None"
proof -
  assume "strip h = []"
  moreover have "strip [] = []" by (simp add: strip_empty_iff)
  ultimately have "clean_header h = []" by (simp add: clean_header_def lower_def)
  then show ?thesis by (simp add: column_of_def column_words_def)
qed

lemma first_column_Some: "first_column col i hs = Some j \<Longrightarrow> \<exists>h \<in> set hs. column_of h = Some col"
  by (induction hs arbitrary: i) (auto split: if_splits)

lemma set_join: "x \<in> set xs \<Longrightarrow> set x \<subseteq> set (join sep xs)"
  by (induction sep xs rule: join.induct) auto

lemma headed_not_blank:
  assumes "first_column col 0 headers = Some i"
  shows "strip (write_rows d (headers # rows)) \<noteq> []"
proof -
  obtain h where h: "h \<in> set headers" "column_of h = Some col" using first_column_Some [OF assms] by blast
  then have "strip h \<noteq> []" using blank_column_of by force
  then obtain c where "c \<in> set h" "\<not> is_space c" unfolding strip_empty_iff by blast
  moreover have "set h \<subseteq> set (write_rows d (headers # rows))"
    using set_join [OF h(1), of "[d]"] by (auto simp: write_rows_def)
  ultimately show ?thesis unfolding strip_empty_iff by blast
qed


definition sample_table :: "ustr list list" where
  "sample_table = [[[20844, 24320, 21495], [26631, 39064]], [[67, 78, 45, 49, 65], [120]], [[32], [121]], [[67, 78, 50]]]"

lemma sample_headers: "column_of [20844, 24320, 21495] = Some Pub_column"
  by (simp add: column_of_def column_words_def clean_header_def lower_def lower_cp_def strip_def lstrip_def rstrip_def is_space_def)

lemma sample_cells:
  "strip [67, 78, 45, 49, 65] = [67, 78, 45, 49, 65]" "strip [32] = []" "strip [67, 78, 50] = [67, 78, 50]"
  "normalize_pub_number [67, 78, 45, 49, 65] = [67, 78, 49, 65]" "normalize_pub_number [] = []" "normalize_pub_number [67, 78, 50] = [67, 78, 50]"
  by (simp_all add: strip_def lstrip_def rstrip_def is_space_def normalize_pub_number_def separator_def upper_cp_def)


text \<open>
  A record in place of the header: when a cell of the first line contains a header word, the line is taken for the
  header and its record is lost.  Here the title of \<open>CN1\<close> is \<open>publication\<close>.
\<close>

lemma titled_record_lost: "import_from_text [67, 78, 49, 44, 112, 117, 98, 108, 105, 99, 97, 116, 105, 111, 110] = Some []"
proof -
  have "csv_rows 44 [67, 78, 49, 44, 112, 117, 98, 108, 105, 99, 97, 116, 105, 111, 110] = Some [[[67, 78, 49], [112, 117, 98, 108, 105, 99, 97, 116, 105, 111, 110]]]"
    by (simp add: csv_rows_def csv_char_def start_field_def save_field_def add_char_def FIELD_SIZE_LIMIT_def newline_def
        csv_end_of_line_def emit_row_def)
  moreover have "first_column Pub_column 0 [[67, 78, 49], [112, 117, 98, 108, 105, 99, 97, 116, 105, 111, 110]] = Some 1"
    by (simp add: column_of_def column_words_def clean_header_def lower_def lower_cp_def strip_def lstrip_def rstrip_def is_space_def)
  moreover have "strip [67, 78, 49, 44, 112, 117, 98, 108, 105, 99, 97, 116, 105, 111, 110] = [67, 78, 49, 44, 112, 117, 98, 108, 105, 99, 97, 116, 105, 111, 110]"
    by (simp add: strip_def lstrip_def rstrip_def is_space_def)
  ultimately have "import_from_csv [67, 78, 49, 44, 112, 117, 98, 108, 105, 99, 97, 116, 105, 111, 110] = Some []"
    by (simp add: import_from_csv_def csv_delimiter_def List.map_filter_def)
  moreover have "split_where line_break [67, 78, 49, 44, 112, 117, 98, 108, 105, 99, 97, 116, 105, 111, 110] = [[67, 78, 49, 44, 112, 117, 98, 108, 105, 99, 97, 116, 105, 111, 110]]" by (simp add: line_break_def)
  ultimately show ?thesis
    using \<open>strip [67, 78, 49, 44, 112, 117, 98, 108, 105, 99, 97, 116, 105, 111, 110] = _\<close> by (simp add: import_from_text_def)
qed

end
