(* ===== verification/SearchStrategy.thy ===== *)
theory SearchStrategy
  imports SearchImport
begin

text \<open>
  \<^verbatim>\<open>modules/search/strategy_planner.py\<close> and \<^verbatim>\<open>scorer.py\<close>: planning a search from the features of a case, and the
  relevance score of a candidate.  The plan of the language model is an argument.  The code computes scores
  with floats; every summand is a whole number, so that rounding to one digit changes nothing.
\<close>

section \<open>Plans\<close>

record ipc_class =
  ip_code :: ustr
  ip_description :: ustr

record planned_strategy =
  ps_keywords :: "(ustr, ustr list) pydict"
  ps_ipc_classes :: "ipc_class list"
  ps_cnipr :: ustr
  ps_standard :: ustr

record ipc_mapping =
  im_keywords :: "ustr list"
  im_ipc :: ustr
  im_description :: ustr

definition IPC_DOMAIN_MAPPINGS :: "ipc_mapping list" where
  "IPC_DOMAIN_MAPPINGS =
     [\<lparr>im_keywords = [[27169, 22411], [31070, 32463, 32593, 32476], [28145, 24230, 23398, 20064], [20154, 24037, 26234, 33021], [35757, 32451], [25512, 29702], [27880, 24847, 21147], [116, 114, 97, 110, 115, 102, 111, 114, 109, 101, 114],
         [108, 108, 109]], im_ipc = [71, 48, 54, 78, 32, 51, 47, 48, 56], im_description = [22522, 20110, 31070, 32463, 32593, 32476, 25110, 29305, 23450, 35745, 31639, 27169, 22411, 30340, 23398, 20064, 26041, 27861]\<rparr>,
      \<lparr>im_keywords = [[37327, 21270], [31232, 30095], [30697, 38453], [35745, 31639], [20302, 24310, 36831], [21152, 36895], [31639, 27861], [31934, 24230]],
       im_ipc = [71, 48, 54, 70, 32, 49, 55, 47, 49, 54], im_description = [30697, 38453, 25110, 30690, 37327, 35745, 31639]\<rparr>,
      \<lparr>im_keywords = [[25968, 25454, 22788, 29702], [25968, 25454, 24211], [26816, 32034], [32467, 26500, 21270], [21521, 37327], [23384, 20648], [32034, 24341]],
       im_ipc = [71, 48, 54, 70, 32, 49, 54, 47, 50, 52], im_description = [20449, 24687, 26816, 32034, 19982, 25968, 25454, 24211, 26597, 35810, 22788, 29702]\<rparr>,
      \<lparr>im_keywords = [[21152, 23494], [23433, 20840], [37492, 26435], [31614, 21517], [38544, 31169], [38548, 31163]],
       im_ipc = [72, 48, 52, 76, 32, 57, 47, 48, 56], im_description = [23494, 30721, 21327, 35758, 19982, 23494, 38053, 31649, 29702]\<rparr>,
      \<lparr>im_keywords = [[22270, 20687], [35270, 35273], [21367, 31215], [30446, 26631, 26816, 27979], [20998, 21106]],
       im_ipc = [71, 48, 54, 84, 32, 55, 47, 48, 48], im_description = [22270, 20687, 20998, 26512, 19982, 22788, 29702]\<rparr>]"

definition SYNONYMS_DICT :: "(ustr, ustr list) pydict" where
  "SYNONYMS_DICT =
     [([22823, 27169, 22411], [[22823, 35821, 35328, 27169, 22411], [76, 76, 77], [22823, 22411, 35821, 35328, 27169, 22411], [39044, 35757, 32451, 27169, 22411]]),
      ([37327, 21270], [[28151, 21512, 31934, 24230], [20302, 20301, 23485], [27169, 22411, 21387, 32553], [26435, 37325, 37327, 21270], [23450, 28857, 21270]]),
      ([31232, 30095], [[21098, 26525], [20302, 31209, 20998, 35299], [31232, 30095, 21270], [83, 86, 68, 20998, 35299]]),
      ([25512, 29702], [[39044, 27979], [21069, 21521, 35745, 31639], [35299, 30721], [73, 110, 102, 101, 114, 101, 110, 99, 101]]),
      ([31070, 32463, 32593, 32476], [[28145, 24230, 23398, 20064], [27880, 24847, 21147, 26426, 21046], [84, 114, 97, 110, 115, 102, 111, 114, 109, 101, 114], [22810, 23618, 24863, 30693, 26426]]),
      ([26816, 32034], [[25628, 32034], [26597, 25214], [21305, 37197], [81, 117, 101, 114, 121]]),
      ([21152, 23494], [[23494, 30721, 23398], [23494, 25991], [22810, 31199, 25143, 38548, 31163], [33073, 25935]]),
      ([21521, 37327], [[69, 109, 98, 101, 100, 100, 105, 110, 103], [29305, 24449, 21521, 37327], [34920, 24449], [38544, 31354, 38388]])]"

definition general_ipc :: ipc_class where
  "general_ipc = \<lparr>ip_code = [71, 48, 54, 70, 32, 49, 56, 47, 48, 48], ip_description = [19968, 33324, 25968, 25454, 22788, 29702, 19982, 27169, 24335, 35782, 21035]\<rparr>"

definition planning_text :: "ustr list \<Rightarrow> ustr \<Rightarrow> ustr \<Rightarrow> ustr" where
  "planning_text statements technical_field title = title @ [32] @ technical_field @ [32] @ join [32] statements"

fun extract_keywords :: "ustr \<Rightarrow> (ustr \<times> ustr list) list \<Rightarrow> (ustr, ustr list) pydict \<Rightarrow> (ustr, ustr list) pydict" where
  "extract_keywords text [] d = d"
| "extract_keywords text ((root_term, syns) # rest) d =
     extract_keywords text rest
       (if occurs_in root_term text \<or> list_ex (\<lambda>s. occurs_in (lower s) (lower text)) syns
        then dict_put root_term (root_term # filter (\<lambda>s. s \<noteq> root_term) syns) d else d)"

definition planned_keywords :: "(nat \<Rightarrow> bool) \<Rightarrow> ustr \<Rightarrow> (ustr, ustr list) pydict" where
  "planned_keywords word_char text =
     (let extracted = extract_keywords text SYNONYMS_DICT []
      in if extracted = []
         then foldl (\<lambda>d w. dict_put w [w] d) [] (take 4 (filter (\<lambda>w. length w \<ge> 2) (find_words word_char text)))
         else extracted)"

definition recommended_ipcs :: "ustr \<Rightarrow> ipc_class list" where
  "recommended_ipcs text =
     (let found = map (\<lambda>m. \<lparr>ip_code = im_ipc m, ip_description = im_description m\<rparr>)
            (filter (\<lambda>m. list_ex (\<lambda>k. occurs_in k (lower text)) (im_keywords m)) IPC_DOMAIN_MAPPINGS)
      in if found = [] then [general_ipc] else found)"

text \<open>\<open>split()[0]\<close>: the first word; there is none in a blank text, where Python raises an \<open>IndexError\<close>.\<close>

definition first_word :: "ustr \<Rightarrow> ustr option" where
  "first_word s = (let w = takeWhile (\<lambda>c. \<not> is_space c) (lstrip s) in if w = [] then None else Some w)"

definition quoted :: "ustr \<Rightarrow> ustr" where
  "quoted s = [34] @ s @ [34]"

definition keyword_group :: "ustr list \<Rightarrow> ustr" where
  "keyword_group syns =
     [40] @ join [32, 79, 82, 32] (map (\<lambda>s. if 32 \<in> set s then quoted s else s) (take 3 syns)) @ [41]"

definition ipc_group :: "ipc_class list \<Rightarrow> ustr option" where
  "ipc_group ipcs =
     map_option (\<lambda>codes. join [32, 79, 82, 32] (map (\<lambda>c. [73, 80, 67, 58] @ c @ [43]) codes))
       (those (map (\<lambda>i. first_word (ip_code i)) (take 2 ipcs)))"

definition plan_strategy :: "(nat \<Rightarrow> bool) \<Rightarrow> ustr list \<Rightarrow> ustr \<Rightarrow> ustr \<Rightarrow> planned_strategy option" where
  "plan_strategy word_char statements technical_field title =
     (let text = planning_text statements technical_field title;
          keywords = planned_keywords word_char text;
          ipcs = recommended_ipcs text;
          kw_groups = map (\<lambda>(_, syns). keyword_group syns) (take 3 keywords)
      in case ipc_group ipcs of
           None \<Rightarrow> None
         | Some classes \<Rightarrow>
             Some \<lparr>ps_keywords = keywords, ps_ipc_classes = ipcs,
               ps_cnipr = (if kw_groups = [] then quoted title
                           else join [32, 65, 78, 68, 32] kw_groups @ (if classes = [] then [] else [32, 65, 78, 68, 32, 40] @ classes @ [41])),
               ps_standard = (if kw_groups = [] then quoted title else join [32, 65, 78, 68, 32] kw_groups)\<rparr>)"

record llm_plan =
  lp_keywords_zh :: "ustr list"
  lp_keywords_en :: "ustr list"
  lp_cpc :: "ustr list"
  lp_ipc :: "ustr list"
  lp_cnipr :: ustr
  lp_epo :: ustr
  lp_uspto :: ustr

definition first_non_empty :: "ustr \<Rightarrow> ustr \<Rightarrow> ustr" where
  "first_non_empty a b = (if a = [] then b else a)"

definition plan_strategy_with_ai :: "llm_plan option \<Rightarrow> (nat \<Rightarrow> bool) \<Rightarrow> ustr list \<Rightarrow> ustr \<Rightarrow> ustr \<Rightarrow> planned_strategy option" where
  "plan_strategy_with_ai ai word_char statements technical_field title =
     (case ai of
        Some res \<Rightarrow>
          Some \<lparr>ps_keywords = [([20013, 25991, 20851, 38190, 35789], lp_keywords_zh res), ([33521, 25991, 20851, 38190, 35789], lp_keywords_en res)],
            ps_ipc_classes = map (\<lambda>c. \<lparr>ip_code = c, ip_description = [25512, 33616, 19987, 21033, 20998, 31867]\<rparr>) (take 4 (lp_ipc res @ lp_cpc res)),
            ps_cnipr = lp_cnipr res, ps_standard = first_non_empty (lp_epo res) (first_non_empty (lp_uspto res) (lp_cnipr res))\<rparr>
      | None \<Rightarrow> plan_strategy word_char statements technical_field title)"

section \<open>Scores\<close>

definition keyword_matches :: "ustr \<Rightarrow> (ustr, ustr list) pydict \<Rightarrow> nat" where
  "keyword_matches text keywords = length (filter (\<lambda>(_, syns). list_ex (\<lambda>s. occurs_in (lower s) text) syns) keywords)"

text \<open>The loop over the target classes, which stops at the first that matches.\<close>

fun ipc_match :: "ustr \<Rightarrow> ipc_class list \<Rightarrow> bool option" where
  "ipc_match ipc_lower [] = Some False"
| "ipc_match ipc_lower (t # ts) =
     (case first_word (ip_code t) of
        None \<Rightarrow> None
      | Some w \<Rightarrow> if occurs_in (lower w) ipc_lower then Some True else ipc_match ipc_lower ts)"

definition compute_score :: "ustr \<Rightarrow> ustr \<Rightarrow> ustr option \<Rightarrow> (ustr, ustr list) pydict \<Rightarrow> ipc_class list \<Rightarrow> nat option" where
  "compute_score title abstract ipc keywords targets =
     (let title_score = min (keyword_matches (lower title) keywords * 15) 45;
          abstract_score = min (keyword_matches (lower abstract) keywords * 8) 30;
          ipc_lower = (case ipc of None \<Rightarrow> [] | Some i \<Rightarrow> lower i)
      in map_option (\<lambda>hit. min (10 + title_score + abstract_score + (if hit then 15 else 0)) 100)
           (if ipc_lower = [] then Some False else ipc_match ipc_lower targets))"

section \<open>A planned strategy can be scored against\<close>

definition usable_class :: "ipc_class \<Rightarrow> bool" where
  "usable_class t \<longleftrightarrow> \<not> blank (ip_code t)"

lemma first_word_iff: "first_word s = None \<longleftrightarrow> blank s"
proof -
  have "takeWhile (\<lambda>c. \<not> is_space c) (lstrip s) = [] \<longleftrightarrow> lstrip s = []"
    using lstrip_head [of s] by (cases "lstrip s") auto
  then show ?thesis unfolding lstrip_empty_iff by (simp add: first_word_def Let_def blank_iff list_all_iff)
qed

lemma ipc_match_total: "\<forall>t \<in> set targets. usable_class t \<Longrightarrow> \<exists>hit. ipc_match s targets = Some hit"
  by (induction targets) (auto simp: usable_class_def first_word_iff [symmetric] split: option.splits)

lemma mappings_usable: "m \<in> set IPC_DOMAIN_MAPPINGS \<Longrightarrow> \<not> blank (im_ipc m)"
proof -
  have "list_all (\<lambda>m. \<not> blank (im_ipc m)) IPC_DOMAIN_MAPPINGS"
    by (simp add: IPC_DOMAIN_MAPPINGS_def blank_iff is_space_def)
  moreover assume "m \<in> set IPC_DOMAIN_MAPPINGS"
  ultimately show ?thesis unfolding list_all_iff by blast
qed

lemma recommended_usable: "t \<in> set (recommended_ipcs text) \<Longrightarrow> usable_class t"
proof -
  assume "t \<in> set (recommended_ipcs text)"
  then have "t = general_ipc \<or> (\<exists>m \<in> set IPC_DOMAIN_MAPPINGS. ip_code t = im_ipc m)"
    by (auto simp: recommended_ipcs_def Let_def split: if_splits)
  moreover have "usable_class general_ipc" by (simp add: usable_class_def general_ipc_def blank_iff is_space_def)
  ultimately show ?thesis using mappings_usable by (auto simp: usable_class_def)
qed

lemma recommended_not_Nil: "recommended_ipcs text \<noteq> []"
  by (simp add: recommended_ipcs_def Let_def)

lemma score_bounds: "compute_score title abstract ipc keywords targets = Some n \<Longrightarrow> 10 \<le> n \<and> n \<le> 100"
  by (auto simp: compute_score_def Let_def split: if_splits)

lemma plan_total: "\<exists>p. plan_strategy word_char statements technical_field title = Some p"
proof -
  let ?ipcs = "recommended_ipcs (planning_text statements technical_field title)"
  have "\<exists>codes. those (map (\<lambda>i. first_word (ip_code i)) xs) = Some codes" if "\<forall>t \<in> set xs. usable_class t" for xs
    using that by (induction xs) (auto simp: usable_class_def first_word_iff [symmetric])
  moreover have "\<forall>t \<in> set (take 2 ?ipcs). usable_class t" using recommended_usable by (blast dest: in_set_takeD)
  ultimately obtain codes where "those (map (\<lambda>i. first_word (ip_code i)) (take 2 ?ipcs)) = Some codes" by blast
  then show ?thesis unfolding plan_strategy_def Let_def ipc_group_def by simp
qed

text \<open>
  Planning by rules always succeeds, and what it plans can be scored against.  A plan names at least one class, and
  the score of any candidate against its keywords and classes exists and lies between 10 and 100.  A candidate
  without classification scores at most 85.
\<close>

theorem planned_strategy_scores:
  "\<exists>p n. plan_strategy word_char statements technical_field title = Some p \<and> ps_ipc_classes p \<noteq> []
     \<and> compute_score t a ipc (ps_keywords p) (ps_ipc_classes p) = Some n \<and> 10 \<le> n \<and> n \<le> 100
     \<and> (ipc \<in> {None, Some []} \<longrightarrow> n \<le> 85)"
proof -
  obtain p where p: "plan_strategy word_char statements technical_field title = Some p" using plan_total by blast
  let ?ipcs = "recommended_ipcs (planning_text statements technical_field title)"
  have ipcs: "ps_ipc_classes p = ?ipcs" using p by (auto simp: plan_strategy_def Let_def split: option.splits)
  let ?s = "case ipc of None \<Rightarrow> [] | Some i \<Rightarrow> lower i"
  obtain hit where "ipc_match ?s ?ipcs = Some hit" using ipc_match_total recommended_usable by blast
  then obtain n where n: "compute_score t a ipc (ps_keywords p) (ps_ipc_classes p) = Some n"
    unfolding compute_score_def Let_def ipcs by (cases "?s = []") auto
  have "n \<le> 85" if "ipc \<in> {None, Some []}"
    using n that by (auto simp: compute_score_def Let_def lower_def)
  with p n score_bounds [OF n] show ?thesis using recommended_not_Nil ipcs by auto
qed

theorem planned_strategy_scores_witness:
  "\<exists>p n. plan_strategy (\<lambda>_. False) [] [] [] = Some p \<and> compute_score [] [] None (ps_keywords p) (ps_ipc_classes p) = Some n
     \<and> n \<le> 85"
  using planned_strategy_scores [of "\<lambda>_. False" "[]" "[]" "[]" "[]" "[]" None] by auto

text \<open>A class without a code, as an update of the strategy may store it, makes scoring fail.\<close>

lemma blank_class_fails:
  assumes "ipc \<noteq> []" and "blank (ip_code t)"
  shows "compute_score title abstract (Some ipc) keywords (t # ts) = None"
  using assms first_word_iff [of "ip_code t"] by (simp add: compute_score_def lower_def)

end
