(* ===== verification/SearchCandidates.thy ===== *)
theory SearchCandidates
  imports SearchStrategy FeatureSets
begin

text \<open>
  \<^verbatim>\<open>search/services.py\<close>: strategies, the execution of a public search, the import of candidates and their triage,
  over the tables of migrations 0006 and 0012.  What a search adapter returns, the digest of a payload and
  fresh identifiers are arguments; raw metadata of a candidate is left out, and a transaction that raises leaves
  the tables alone.
\<close>

section \<open>Tables\<close>

record strategy_row =
  sg_id :: string
  sg_organization :: string
  sg_case :: string
  sg_version :: string
  sg_plan :: planned_strategy
  sg_status :: string
  sg_created_at :: nat

record job_row =
  jb_id :: string
  jb_organization :: string
  jb_case :: string
  jb_strategy :: "string option"
  jb_source :: string
  jb_query :: ustr
  jb_status :: string
  jb_results :: nat
  jb_finished_at :: "nat option"

record candidate_row =
  sc_id :: string
  sc_organization :: string
  sc_case :: string
  sc_publication :: ustr
  sc_normalized :: ustr
  sc_title :: ustr
  sc_abstract :: ustr
  sc_date :: "ustr option"
  sc_applicant :: "ustr option"
  sc_ipc :: "ustr option"
  sc_source :: string
  sc_score :: nat
  sc_created_at :: nat

record triage_row =
  tr_id :: string
  tr_organization :: string
  tr_case :: string
  tr_candidate :: string
  tr_status :: string
  tr_reason :: "string option"
  tr_notes :: "ustr option"
  tr_by :: string
  tr_at :: nat

record provider_snapshot =
  pv_source :: string
  pv_identifier :: ustr
  pv_url :: "ustr option"
  pv_payload :: ustr
  pv_retrieved_at :: nat

record source_snapshot =
  ss_id :: string
  ss_organization :: string
  ss_case :: string
  ss_job :: string
  ss_candidate :: string
  ss_provider :: provider_snapshot
  ss_sha256 :: string

record search_db =
  se_features :: feature_db
  se_strategies :: "strategy_row list"
  se_jobs :: "job_row list"
  se_candidates :: "candidate_row list"
  se_triage :: "triage_row list"
  se_snapshots :: "source_snapshot list"

section \<open>Strategies\<close>

text \<open>The version that a search and a comparison work on: a confirmed one before a draft, the highest number first.\<close>

definition working_version :: "string \<Rightarrow> string \<Rightarrow> feature_db \<Rightarrow> feature_version option" where
  "working_version org c db =
     (case sort_key (\<lambda>v. (if fv_status v = ''confirmed'' then 1 else if fv_status v = ''draft'' then 2 else 3 :: nat,
             - fv_number v)) (case_versions org c db) of
        [] \<Rightarrow> None
      | v # _ \<Rightarrow> Some v)"

definition version_features :: "string \<Rightarrow> string \<Rightarrow> feature_db \<Rightarrow> feature_row list" where
  "version_features org vid db =
     sort_key ft_sort (filter (\<lambda>f. ft_version f = vid \<and> ft_organization f = org) (fe_features db))"

definition find_case :: "string \<Rightarrow> string \<Rightarrow> feature_db \<Rightarrow> case_row option" where
  "find_case org c db = find (\<lambda>x. ca_id x = c \<and> ca_organization x = org) (fe_cases db)"

definition generate_strategy :: "llm_plan option \<Rightarrow> (nat \<Rightarrow> bool) \<Rightarrow> string \<Rightarrow> nat \<Rightarrow> string \<Rightarrow> string \<Rightarrow> search_db
    \<Rightarrow> (http_error, strategy_row \<times> search_db) result" where
  "generate_strategy ai word_char fresh now org c db =
     (case find_case org c (se_features db) of
        None \<Rightarrow> Inl (Http 404 ''case_not_found'')
      | Some row \<Rightarrow>
          (case working_version org c (se_features db) of
             None \<Rightarrow> Inl (Http 400 ''no_features_available_extract_features_first'')
           | Some v \<Rightarrow>
               (case plan_strategy_with_ai ai word_char (map ft_statement (version_features org (fv_id v) (se_features db)))
                       (ca_field row) (ca_title row) of
                  None \<Rightarrow> Inl (Http 500 ''IndexError'')
                | Some plan \<Rightarrow>
                    let s = \<lparr>sg_id = fresh, sg_organization = org, sg_case = c, sg_version = fv_id v, sg_plan = plan,
                             sg_status = ''confirmed'', sg_created_at = now\<rparr>
                    in Inr (s, db\<lparr>se_strategies := se_strategies db @ [s]\<rparr>))))"

text \<open>\<open>ORDER BY created_at DESC LIMIT 1\<close>.\<close>

definition get_active_strategy :: "string \<Rightarrow> string \<Rightarrow> search_db \<Rightarrow> strategy_row option" where
  "get_active_strategy org c db =
     (case filter (\<lambda>s. sg_case s = c \<and> sg_organization s = org) (se_strategies db) of
        [] \<Rightarrow> None
      | s # ss \<Rightarrow> Some (max_key sg_created_at s ss))"

definition given :: "'a option \<Rightarrow> 'a \<Rightarrow> 'a" where
  "given x old = (case x of None \<Rightarrow> old | Some y \<Rightarrow> y)"

definition update_strategy :: "string \<Rightarrow> string \<Rightarrow> string \<Rightarrow> (ustr, ustr list) pydict option \<Rightarrow> ipc_class list option
    \<Rightarrow> ustr option \<Rightarrow> ustr option \<Rightarrow> search_db \<Rightarrow> (http_error, strategy_row option \<times> search_db) result" where
  "update_strategy org c sid keywords ipcs cnipr standard db =
     (case get_active_strategy org c db of
        None \<Rightarrow> Inl (Http 404 ''strategy_not_found'')
      | Some existing \<Rightarrow>
          if sg_id existing \<noteq> sid then Inl (Http 404 ''strategy_not_found'')
          else
            let old = sg_plan existing;
                plan = \<lparr>ps_keywords = given keywords (ps_keywords old), ps_ipc_classes = given ipcs (ps_ipc_classes old),
                        ps_cnipr = given cnipr (ps_cnipr old), ps_standard = given standard (ps_standard old)\<rparr>;
                db' = db\<lparr>se_strategies := update_where (\<lambda>s. sg_id s = sid \<and> sg_organization s = org \<and> sg_case s = c)
                          (sg_plan_update (\<lambda>_. plan)) (se_strategies db)\<rparr>
            in Inr (get_active_strategy org c db', db'))"

section \<open>Candidates\<close>

record found_item =
  fi_publication :: ustr
  fi_normalized :: ustr
  fi_title :: ustr
  fi_abstract :: ustr
  fi_date :: "ustr option"
  fi_applicant :: "ustr option"
  fi_ipc :: "ustr option"
  fi_source :: string
  fi_snapshot :: "provider_snapshot option"

text \<open>
  \<open>INSERT ... ON CONFLICT (organization_id, case_id, publication_number_normalized) DO UPDATE ... RETURNING id\<close>; the
  update is the argument \<open>refresh\<close>.
\<close>

definition same_candidate :: "string \<Rightarrow> string \<Rightarrow> ustr \<Rightarrow> candidate_row \<Rightarrow> bool" where
  "same_candidate org c pub_norm x \<longleftrightarrow> sc_organization x = org \<and> sc_case x = c \<and> sc_normalized x = pub_norm"

definition upsert_candidate :: "(candidate_row \<Rightarrow> candidate_row) \<Rightarrow> candidate_row \<Rightarrow> search_db \<Rightarrow> string \<times> search_db" where
  "upsert_candidate refresh row db =
     (let same = same_candidate (sc_organization row) (sc_case row) (sc_normalized row)
      in case find same (se_candidates db) of
           Some old \<Rightarrow> (sc_id old, db\<lparr>se_candidates := update_where same refresh (se_candidates db)\<rparr>)
         | None \<Rightarrow> (sc_id row, db\<lparr>se_candidates := se_candidates db @ [row]\<rparr>))"

text \<open>\<open>INSERT ... ON CONFLICT (candidate_id) DO NOTHING\<close>.\<close>

definition start_triage :: "string \<Rightarrow> string \<Rightarrow> string \<Rightarrow> string \<Rightarrow> string \<Rightarrow> nat \<Rightarrow> search_db \<Rightarrow> search_db" where
  "start_triage fresh org c cand actor now db =
     (if cand \<in> tr_candidate ` set (se_triage db) then db
      else db\<lparr>se_triage := se_triage db @
             [\<lparr>tr_id = fresh, tr_organization = org, tr_case = c, tr_candidate = cand, tr_status = ''pending'',
               tr_reason = None, tr_notes = None, tr_by = actor, tr_at = now\<rparr>]\<rparr>)"

definition candidate_of :: "string \<Rightarrow> string \<Rightarrow> string \<Rightarrow> nat \<Rightarrow> nat \<Rightarrow> found_item \<Rightarrow> candidate_row" where
  "candidate_of i org c score now item =
     \<lparr>sc_id = i, sc_organization = org, sc_case = c, sc_publication = fi_publication item,
      sc_normalized = fi_normalized item, sc_title = fi_title item, sc_abstract = fi_abstract item,
      sc_date = fi_date item, sc_applicant = fi_applicant item, sc_ipc = fi_ipc item, sc_source = fi_source item,
      sc_score = score, sc_created_at = now\<rparr>"

section \<open>Public search\<close>

text \<open>The source snapshot of a result; \<open>None\<close> without one.\<close>

definition add_snapshot :: "(ustr \<Rightarrow> string) \<Rightarrow> string \<Rightarrow> string \<Rightarrow> string \<Rightarrow> string \<Rightarrow> string \<Rightarrow> found_item \<Rightarrow> search_db \<Rightarrow> search_db" where
  "add_snapshot sha256 fresh org c job cand item db =
     (case fi_snapshot item of
        None \<Rightarrow> db
      | Some p \<Rightarrow> db\<lparr>se_snapshots := se_snapshots db @
          [\<lparr>ss_id = fresh, ss_organization = org, ss_case = c, ss_job = job, ss_candidate = cand, ss_provider = p,
            ss_sha256 = sha256 (pv_payload p)\<rparr>]\<rparr>)"

definition score_item :: "planned_strategy \<Rightarrow> found_item \<Rightarrow> (http_error, nat) result" where
  "score_item plan item =
     (case compute_score (fi_title item) (fi_abstract item) (fi_ipc item) (ps_keywords plan) (ps_ipc_classes plan) of
        None \<Rightarrow> Inl (Http 500 ''IndexError'')
      | Some n \<Rightarrow> Inr n)"

text \<open>Identifiers are used in this order: the candidate, its snapshot, its triage record.\<close>

fun store_results :: "(ustr \<Rightarrow> string) \<Rightarrow> (nat \<Rightarrow> string) \<Rightarrow> nat \<Rightarrow> string \<Rightarrow> string \<Rightarrow> string \<Rightarrow> string \<Rightarrow> planned_strategy
    \<Rightarrow> nat \<Rightarrow> found_item list \<Rightarrow> search_db \<Rightarrow> (http_error, search_db) result" where
  "store_results sha256 fresh k org c actor job plan now [] db = Inr db"
| "store_results sha256 fresh k org c actor job plan now (item # items) db =
     bind_result (score_item plan item) (\<lambda>score.
       let (cand, db1) = upsert_candidate (sc_score_update (\<lambda>_. score)) (candidate_of (fresh k) org c score now item) db;
           db2 = add_snapshot sha256 (fresh (k + 1)) org c job cand item db1;
           db3 = start_triage (fresh (k + 2)) org c cand actor now db2
       in store_results sha256 fresh (k + 3) org c actor job plan now items db3)"

text \<open>
  \<open>search\<close> is what the adapter returns for the query, \<open>None\<close> an exception of it.  The record of a failed
  job is written in the transaction that the raised error ends.  Without an active strategy the handler
  passes \<open>None\<close>, on which the service fails.
\<close>

definition execute_public_search :: "(ustr \<Rightarrow> string) \<Rightarrow> (nat \<Rightarrow> string) \<Rightarrow> (ustr \<Rightarrow> found_item list option) \<Rightarrow> nat \<Rightarrow> nat \<Rightarrow> nat
    \<Rightarrow> string \<Rightarrow> string \<Rightarrow> string \<Rightarrow> string \<Rightarrow> strategy_row option \<Rightarrow> search_db
    \<Rightarrow> (http_error, (string \<times> nat) \<times> search_db) result" where
  "execute_public_search sha256 fresh search now received finished org c actor source strategy db =
     (case strategy of
        None \<Rightarrow> Inl (Http 500 ''AttributeError'')
      | Some s \<Rightarrow>
          let query = ps_standard (sg_plan s);
              job = \<lparr>jb_id = fresh 0, jb_organization = org, jb_case = c, jb_strategy = Some (sg_id s), jb_source = source,
                     jb_query = query, jb_status = ''running'', jb_results = 0, jb_finished_at = None\<rparr>;
              db1 = db\<lparr>se_jobs := se_jobs db @ [job]\<rparr>
          in case search query of
               None \<Rightarrow> Inl (Http 502 ''search_adapter_failed'')
             | Some found \<Rightarrow>
                 let items = map (\<lambda>i. i\<lparr>fi_normalized := normalize_pub_number (fi_publication i)\<rparr>) found
                 in bind_result (store_results sha256 fresh 1 org c actor (fresh 0) (sg_plan s) received items db1) (\<lambda>db2.
                      Inr ((fresh 0, length found),
                           db2\<lparr>se_jobs := update_where (\<lambda>j. jb_id j = fresh 0)
                             (\<lambda>j. j\<lparr>jb_status := ''completed'', jb_results := length found, jb_finished_at := Some finished\<rparr>)
                             (se_jobs db2)\<rparr>)))"

section \<open>Import and triage\<close>

definition item_of_import :: "imported_candidate \<Rightarrow> found_item" where
  "item_of_import i =
     \<lparr>fi_publication = ic_publication_number i, fi_normalized = ic_normalized i, fi_title = ic_title i,
      fi_abstract = ic_abstract i, fi_date = ic_publication_date i, fi_applicant = ic_applicant i, fi_ipc = ic_ipc i,
      fi_source = ic_source i, fi_snapshot = None\<rparr>"

definition no_plan :: planned_strategy where
  "no_plan = \<lparr>ps_keywords = [], ps_ipc_classes = [], ps_cnipr = [], ps_standard = []\<rparr>"

definition read_upload :: "ustr \<Rightarrow> (http_error, imported_candidate list) result" where
  "read_upload raw =
     (let csv_error = Inl (Http 500 ''csv.Error'')
      in case import_from_csv raw of
           None \<Rightarrow> csv_error
         | Some [] \<Rightarrow> (case import_from_text raw of
               None \<Rightarrow> csv_error
             | Some [] \<Rightarrow> Inl (Http 422 ''no_valid_patents_found_in_upload'')
             | Some cs \<Rightarrow> Inr cs)
         | Some cs \<Rightarrow> Inr cs)"

fun store_imports :: "(nat \<Rightarrow> string) \<Rightarrow> nat \<Rightarrow> string \<Rightarrow> string \<Rightarrow> string \<Rightarrow> planned_strategy \<Rightarrow> nat \<Rightarrow> found_item list
    \<Rightarrow> search_db \<Rightarrow> (http_error, search_db) result" where
  "store_imports fresh k org c actor plan now [] db = Inr db"
| "store_imports fresh k org c actor plan now (item # items) db =
     bind_result (score_item plan item) (\<lambda>score.
       let (cand, db1) = upsert_candidate
             (\<lambda>x. x\<lparr>sc_score := score, sc_title := fi_title item, sc_abstract := fi_abstract item\<rparr>)
             (candidate_of (fresh k) org c score now item) db
       in store_imports fresh (k + 2) org c actor plan now items (start_triage (fresh (k + 1)) org c cand actor now db1))"

definition import_cnipr_candidates :: "(nat \<Rightarrow> string) \<Rightarrow> nat \<Rightarrow> string \<Rightarrow> string \<Rightarrow> string \<Rightarrow> ustr \<Rightarrow> strategy_row option
    \<Rightarrow> search_db \<Rightarrow> (http_error, nat \<times> search_db) result" where
  "import_cnipr_candidates fresh now org c actor raw strategy db =
     bind_result (read_upload raw) (\<lambda>cs.
       let plan = (case strategy of None \<Rightarrow> no_plan | Some s \<Rightarrow> sg_plan s)
       in bind_result (store_imports fresh 0 org c actor plan now (map item_of_import cs) db) (\<lambda>db'.
            Inr (length cs, db')))"

definition triage_of :: "string \<Rightarrow> search_db \<Rightarrow> triage_row option" where
  "triage_of cand db = find (\<lambda>t. tr_candidate t = cand) (se_triage db)"

definition triage_status_of :: "string \<Rightarrow> search_db \<Rightarrow> string" where
  "triage_status_of cand db = (case triage_of cand db of None \<Rightarrow> ''pending'' | Some t \<Rightarrow> tr_status t)"

text \<open>\<open>ORDER BY relevance_score DESC, created_at DESC\<close>.\<close>

definition list_candidates :: "string \<Rightarrow> string \<Rightarrow> string option \<Rightarrow> search_db \<Rightarrow> (candidate_row \<times> triage_row option) list" where
  "list_candidates org c wanted db =
     map (\<lambda>x. (x, triage_of (sc_id x) db))
       (sort_key (\<lambda>x. (- int (sc_score x), - int (sc_created_at x)))
         (filter (\<lambda>x. sc_case x = c \<and> sc_organization x = org
              \<and> (case wanted of None \<Rightarrow> True
                 | Some w \<Rightarrow> w = [] \<or> w = ''all'' \<or> triage_status_of (sc_id x) db = w)) (se_candidates db)))"

text \<open>\<open>ORDER BY retrieved_at DESC, id DESC\<close>, from the ascending order.\<close>

definition list_source_snapshots :: "string \<Rightarrow> string \<Rightarrow> string \<Rightarrow> search_db \<Rightarrow> source_snapshot list" where
  "list_source_snapshots org c cand db =
     rev (sort_key (\<lambda>s. (pv_retrieved_at (ss_provider s), ss_id s))
       (filter (\<lambda>s. ss_organization s = org \<and> ss_case s = c \<and> ss_candidate s = cand) (se_snapshots db)))"

definition set_triage :: "triage_row \<Rightarrow> search_db \<Rightarrow> search_db" where
  "set_triage row db =
     db\<lparr>se_triage :=
       (if tr_candidate row \<in> tr_candidate ` set (se_triage db)
        then update_where (\<lambda>t. tr_candidate t = tr_candidate row)
               (\<lambda>t. t\<lparr>tr_status := tr_status row, tr_reason := tr_reason row, tr_notes := tr_notes row,
                      tr_by := tr_by row, tr_at := tr_at row\<rparr>) (se_triage db)
        else se_triage db @ [row])\<rparr>"

definition update_triage :: "string \<Rightarrow> nat \<Rightarrow> string \<Rightarrow> string \<Rightarrow> string \<Rightarrow> string \<Rightarrow> string option \<Rightarrow> ustr option \<Rightarrow> string
    \<Rightarrow> search_db \<Rightarrow> (http_error, (candidate_row \<times> triage_row option) \<times> search_db) result" where
  "update_triage fresh now org c cand status reason notes actor db =
     (if status \<notin> {''pending'', ''included'', ''excluded''} then Inl (Http 422 ''invalid_triage_status'')
      else
        let db' = set_triage \<lparr>tr_id = fresh, tr_organization = org, tr_case = c, tr_candidate = cand, tr_status = status,
              tr_reason = reason, tr_notes = notes, tr_by = actor, tr_at = now\<rparr> db
        in case find (\<lambda>(x, _). sc_id x = cand) (list_candidates org c None db') of
             None \<Rightarrow> Inl (Http 404 ''candidate_not_found'')
           | Some view \<Rightarrow> Inr (view, db'))"

end
