(* ===== verification/SearchSafety.thy ===== *)
theory SearchSafety
  imports SearchCandidates
begin

text \<open>
  Candidates and their triage under repeated searches and imports: a publication has one candidate, a
  candidate one triage record, and no search or import changes a decision of the triage.
\<close>

section \<open>The invariant\<close>

definition candidate_key :: "candidate_row \<Rightarrow> string \<times> string \<times> ustr" where
  "candidate_key x = (sc_organization x, sc_case x, sc_normalized x)"

definition well_searched :: "search_db \<Rightarrow> bool" where
  "well_searched db \<longleftrightarrow> distinct (map sc_id (se_candidates db)) \<and> distinct (map candidate_key (se_candidates db))
     \<and> distinct (map tr_candidate (se_triage db))"

text \<open>What a search or an import may do to a candidate: score, title and abstract are refreshed.\<close>

definition kept :: "candidate_row \<Rightarrow> candidate_row \<Rightarrow> bool" where
  "kept x y \<longleftrightarrow> (\<exists>n t a. y = x\<lparr>sc_score := n, sc_title := t, sc_abstract := a\<rparr>)"

lemma kept_refl [simp]: "kept x x"
  unfolding kept_def by (intro exI [of _ "sc_score x"] exI [of _ "sc_title x"] exI [of _ "sc_abstract x"]) simp

lemma kept_trans: "kept x y \<Longrightarrow> kept y z \<Longrightarrow> kept x z"
  by (auto simp: kept_def) blast

lemma kept_fields: "kept x y \<Longrightarrow> sc_id y = sc_id x" "kept x y \<Longrightarrow> candidate_key y = candidate_key x"
  by (auto simp: kept_def candidate_key_def)

text \<open>The tables only grow: decisions stay, new triage records are pending, and no candidate is lost.\<close>

definition grows :: "search_db \<Rightarrow> search_db \<Rightarrow> bool" where
  "grows db db' \<longleftrightarrow> (\<exists>new. se_triage db' = se_triage db @ new \<and> (\<forall>t \<in> set new. tr_status t = ''pending''))
     \<and> (\<forall>x \<in> set (se_candidates db). \<exists>y \<in> set (se_candidates db'). kept x y)"

lemma grows_same: "se_triage db' = se_triage db \<Longrightarrow> se_candidates db' = se_candidates db \<Longrightarrow> grows db db'"
  by (auto simp: grows_def intro: kept_refl)

lemma grows_trans: "grows db db1 \<Longrightarrow> grows db1 db2 \<Longrightarrow> grows db db2"
  unfolding grows_def
proof (intro conjI, goal_cases)
  case 1
  then obtain new1 new2 where "se_triage db1 = se_triage db @ new1" "\<forall>t \<in> set new1. tr_status t = ''pending''"
      "se_triage db2 = se_triage db1 @ new2" "\<forall>t \<in> set new2. tr_status t = ''pending''" by blast
  then show ?case by (intro exI [of _ "new1 @ new2"]) auto
next
  case 2
  then show ?case by (meson kept_trans)
qed

definition unused :: "(nat \<Rightarrow> string) \<Rightarrow> nat \<Rightarrow> search_db \<Rightarrow> bool" where
  "unused fresh k db \<longleftrightarrow> inj fresh \<and> (\<forall>i \<ge> k. fresh i \<notin> sc_id ` set (se_candidates db))"

lemma unused_less: "unused fresh k db \<Longrightarrow> k \<le> m \<Longrightarrow> unused fresh m db"
  by (auto simp: unused_def)

definition tracked :: "string \<Rightarrow> string \<Rightarrow> ustr \<Rightarrow> search_db \<Rightarrow> bool" where
  "tracked org c pub_norm db \<longleftrightarrow> (\<exists>y \<in> set (se_candidates db). candidate_key y = (org, c, pub_norm)
     \<and> sc_id y \<in> tr_candidate ` set (se_triage db))"

lemma tracked_grows: "tracked org c n db \<Longrightarrow> grows db db' \<Longrightarrow> tracked org c n db'"
  unfolding tracked_def grows_def by (metis (no_types, lifting) UnI1 image_Un kept_fields set_append)

section \<open>One result\<close>

lemma same_candidate_key: "same_candidate org c n x \<longleftrightarrow> candidate_key x = (org, c, n)"
  by (simp add: same_candidate_def candidate_key_def)

lemma upsert_keeps:
  assumes "well_searched db" and "upsert_candidate refresh row db = (cand, db1)" and "\<And>x. kept x (refresh x)"
    and "sc_id row \<notin> sc_id ` set (se_candidates db)"
  shows "well_searched db1 \<and> grows db db1 \<and> (\<exists>y \<in> set (se_candidates db1). sc_id y = cand \<and> candidate_key y = candidate_key row)
    \<and> sc_id ` set (se_candidates db1) \<subseteq> insert (sc_id row) (sc_id ` set (se_candidates db))
    \<and> se_triage db1 = se_triage db"
proof (cases "find (same_candidate (sc_organization row) (sc_case row) (sc_normalized row)) (se_candidates db)")
  case None
  then have "candidate_key row \<notin> candidate_key ` set (se_candidates db)"
    by (auto simp: find_None_iff same_candidate_key candidate_key_def)
  with None assms show ?thesis
    by (auto simp: upsert_candidate_def well_searched_def grows_def intro: kept_refl)
next
  case (Some old)
  let ?P = "same_candidate (sc_organization row) (sc_case row) (sc_normalized row)"
  have db1: "db1 = db\<lparr>se_candidates := update_where ?P refresh (se_candidates db)\<rparr>" and "cand = sc_id old"
    using assms(2) Some by (simp_all add: upsert_candidate_def)
  have f: "sc_id (refresh x) = sc_id x" "candidate_key (refresh x) = candidate_key x" for x
    using kept_fields [OF assms(3)] by simp_all
  have ids: "map sc_id (se_candidates db1) = map sc_id (se_candidates db)"
      "map candidate_key (se_candidates db1) = map candidate_key (se_candidates db)"
    unfolding db1 by (simp_all add: map_update_where f)
  then have "well_searched db1" using assms(1) unfolding well_searched_def by (simp add: db1)
  moreover have old: "old \<in> set (se_candidates db)" "?P old" using Some by (auto simp: find_Some_iff)
  moreover have "\<exists>y \<in> set (se_candidates db1). kept x y" if "x \<in> set (se_candidates db)" for x
    using that assms(3) by (intro bexI [of _ "if ?P x then refresh x else x"]) (auto simp: db1 update_where_def)
  moreover have "\<exists>y \<in> set (se_candidates db1). sc_id y = cand \<and> candidate_key y = candidate_key row"
  proof (intro bexI [of _ "refresh old"] conjI)
    show "refresh old \<in> set (se_candidates db1)" using old by (force simp: db1 update_where_def)
  qed (use f old \<open>cand = sc_id old\<close> in \<open>simp_all add: same_candidate_key candidate_key_def [of row]\<close>)
  moreover have "sc_id ` set (se_candidates db1) = sc_id ` set (se_candidates db)"
    using arg_cong [OF ids(1), of set] by simp
  ultimately show ?thesis by (auto simp: db1 grows_def)
qed

lemma start_triage_keeps:
  assumes "well_searched db"
  shows "well_searched (start_triage i org c cand actor now db) \<and> grows db (start_triage i org c cand actor now db)
    \<and> cand \<in> tr_candidate ` set (se_triage (start_triage i org c cand actor now db))
    \<and> se_candidates (start_triage i org c cand actor now db) = se_candidates db"
  using assms by (auto simp: start_triage_def well_searched_def grows_def intro: kept_refl)

lemma add_snapshot_keeps:
  "se_triage (add_snapshot h i org c job cand item db) = se_triage db"
  "se_candidates (add_snapshot h i org c job cand item db) = se_candidates db"
  by (simp_all add: add_snapshot_def split: option.splits)

text \<open>A result that is stored: its candidate is refreshed or added, and its triage started.\<close>

lemma stored_keeps:
  assumes "well_searched db" and "unused fresh k db" and "upsert_candidate refresh row db = (cand, db1)"
    and "\<And>x. kept x (refresh x)" and "sc_id row = fresh k" and "k < m"
    and "se_triage db2 = se_triage db1" and "se_candidates db2 = se_candidates db1"
    and "db3 = start_triage i org c cand actor now db2" and "candidate_key row = (org, c, n)"
  shows "well_searched db3 \<and> unused fresh m db3 \<and> grows db db3 \<and> tracked org c n db3"
proof -
  have up: "well_searched db1 \<and> grows db db1 \<and> (\<exists>y \<in> set (se_candidates db1). sc_id y = cand \<and> candidate_key y = candidate_key row)
      \<and> sc_id ` set (se_candidates db1) \<subseteq> insert (sc_id row) (sc_id ` set (se_candidates db)) \<and> se_triage db1 = se_triage db"
    using assms(2,5) by (intro upsert_keeps [OF assms(1,3,4)]) (auto simp: unused_def)
  then have "well_searched db2" using assms(7,8) unfolding well_searched_def by metis
  from start_triage_keeps [OF this, of i org c cand actor now]
  have st: "well_searched db3" "grows db2 db3" "cand \<in> tr_candidate ` set (se_triage db3)"
      "se_candidates db3 = se_candidates db1"
    using assms(8,9) by simp_all
  have "grows db db3" using up st(2) grows_same [OF assms(7,8)] grows_trans by blast
  moreover have "unused fresh m db3"
    unfolding unused_def
  proof (intro conjI allI impI)
    show inj: "inj fresh" using assms(2) by (simp add: unused_def)
    fix i assume "m \<le> i"
    then have "fresh i \<noteq> fresh k" using inj assms(6) by (auto dest: injD)
    moreover have "fresh i \<notin> sc_id ` set (se_candidates db)"
      using \<open>m \<le> i\<close> assms(2,6) unfolding unused_def by simp
    ultimately show "fresh i \<notin> sc_id ` set (se_candidates db3)" using up st(4) assms(5) by auto
  qed
  moreover have "tracked org c n db3" using up st(3,4) assms(10) unfolding tracked_def by auto
  ultimately show ?thesis using st(1) by blast
qed

section \<open>A whole search or import\<close>

lemma store_imports_keeps:
  assumes "store_imports fresh k org c actor plan now items db = Inr db'" and "well_searched db" and "unused fresh k db"
  shows "well_searched db' \<and> grows db db' \<and> (\<forall>i \<in> set items. tracked org c (fi_normalized i) db')"
  using assms
proof (induction items arbitrary: db k)
  case Nil
  then show ?case using grows_same [of db db] by simp
next
  case (Cons item items)
  obtain score where score: "score_item plan item = Inr score" using Cons.prems(1) by auto
  let ?f = "\<lambda>x. x\<lparr>sc_score := score, sc_title := fi_title item, sc_abstract := fi_abstract item\<rparr>"
  let ?row = "candidate_of (fresh k) org c score now item"
  obtain cand db1 where up: "upsert_candidate ?f ?row db = (cand, db1)" by fastforce
  define db3 where "db3 = start_triage (fresh (k + 1)) org c cand actor now db1"
  have "store_imports fresh (k + 2) org c actor plan now items db3 = Inr db'"
    using Cons.prems(1) score up by (simp add: db3_def)
  moreover have st: "well_searched db3 \<and> unused fresh (k + 2) db3 \<and> grows db db3 \<and> tracked org c (fi_normalized item) db3"
    by (rule stored_keeps [OF Cons.prems(2,3) up _ _ _ refl refl db3_def])
      (auto simp: kept_def candidate_of_def candidate_key_def)
  ultimately have "well_searched db' \<and> grows db3 db' \<and> (\<forall>i \<in> set items. tracked org c (fi_normalized i) db')"
    using Cons.IH by blast
  with st show ?case using grows_trans tracked_grows by (metis set_ConsD)
qed

lemma store_results_keeps:
  assumes "store_results h fresh k org c actor job plan now items db = Inr db'" and "well_searched db" and "unused fresh k db"
  shows "well_searched db' \<and> grows db db' \<and> (\<forall>i \<in> set items. tracked org c (fi_normalized i) db')"
  using assms
proof (induction items arbitrary: db k)
  case Nil
  then show ?case using grows_same [of db db] by simp
next
  case (Cons item items)
  obtain score where score: "score_item plan item = Inr score" using Cons.prems(1) by auto
  let ?row = "candidate_of (fresh k) org c score now item"
  obtain cand db1 where up: "upsert_candidate (sc_score_update (\<lambda>_. score)) ?row db = (cand, db1)" by fastforce
  define db3 where "db3 = start_triage (fresh (k + 2)) org c cand actor now
    (add_snapshot h (fresh (k + 1)) org c job cand item db1)"
  have "store_results h fresh (k + 3) org c actor job plan now items db3 = Inr db'"
    using Cons.prems(1) score up by (simp add: db3_def)
  moreover have st: "well_searched db3 \<and> unused fresh (k + 3) db3 \<and> grows db db3 \<and> tracked org c (fi_normalized item) db3"
  proof (rule stored_keeps [OF Cons.prems(2,3) up _ _ _ add_snapshot_keeps db3_def])
    show "kept x (sc_score_update (\<lambda>_. score) x)" for x
      unfolding kept_def by (intro exI [of _ score] exI [of _ "sc_title x"] exI [of _ "sc_abstract x"]) simp
  qed (simp_all add: candidate_of_def candidate_key_def)
  ultimately have "well_searched db' \<and> grows db3 db' \<and> (\<forall>i \<in> set items. tracked org c (fi_normalized i) db')"
    using Cons.IH by blast
  with st show ?case using grows_trans tracked_grows by (metis set_ConsD)
qed

text \<open>What a search or an import collects: the normalized numbers of its results.\<close>

inductive collects :: "string \<Rightarrow> string \<Rightarrow> ustr set \<Rightarrow> search_db \<Rightarrow> search_db \<Rightarrow> bool" where
  imported: "import_cnipr_candidates fresh now org c actor raw strategy db = Inr (n, db') \<Longrightarrow> read_upload raw = Inr cs \<Longrightarrow>
    unused fresh 0 db \<Longrightarrow> collects org c (ic_normalized ` set cs) db db'"
| searched: "execute_public_search h fresh search now received finished org c actor source (Some s) db = Inr (r, db') \<Longrightarrow>
    search (ps_standard (sg_plan s)) = Some found \<Longrightarrow> unused fresh 0 db \<Longrightarrow>
    collects org c ((\<lambda>i. normalize_pub_number (fi_publication i)) ` set found) db db'"

lemma collects_keeps:
  assumes "collects org c numbers db db'" and "well_searched db"
  shows "well_searched db' \<and> grows db db' \<and> (\<forall>n \<in> numbers. tracked org c n db')"
  using assms
proof (cases rule: collects.cases)
  case (imported fresh now actor raw strategy n cs)
  let ?plan = "case strategy of None \<Rightarrow> no_plan | Some s \<Rightarrow> sg_plan s"
  have "store_imports fresh 0 org c actor ?plan now (map item_of_import cs) db = Inr db'"
    using imported(2,3) by (auto simp: import_cnipr_candidates_def Let_def)
  from store_imports_keeps [OF this assms(2) imported(4)] imported(1) show ?thesis
    by (auto simp: item_of_import_def)
next
  case (searched h fresh search now received finished actor source s r found)
  let ?items = "map (\<lambda>i. i\<lparr>fi_normalized := normalize_pub_number (fi_publication i)\<rparr>) found"
  obtain job where job: "job = \<lparr>jb_id = fresh 0, jb_organization = org, jb_case = c, jb_strategy = Some (sg_id s),
      jb_source = source, jb_query = ps_standard (sg_plan s), jb_status = ''running'', jb_results = 0, jb_finished_at = None\<rparr>"
    by blast
  define db1 where "db1 = db\<lparr>se_jobs := se_jobs db @ [job]\<rparr>"
  obtain db2 where db2: "store_results h fresh 1 org c actor (fresh 0) (sg_plan s) received ?items db1 = Inr db2"
      and db': "se_triage db' = se_triage db2" "se_candidates db' = se_candidates db2"
    using searched(2,3) by (auto simp: execute_public_search_def Let_def db1_def job)
  have 1: "well_searched db1" "unused fresh 1 db1" "grows db db1"
    using assms(2) searched(4) by (auto simp: db1_def well_searched_def unused_def intro: grows_same)
  from store_results_keeps [OF db2 1(1,2)]
  have 2: "well_searched db2" "grows db1 db2" "\<forall>i \<in> set ?items. tracked org c (fi_normalized i) db2" by blast+
  moreover have 3: "grows db2 db'" using db' by (rule grows_same)
  moreover have "well_searched db'" using 2(1) db' by (simp add: well_searched_def)
  moreover have "\<forall>n \<in> numbers. tracked org c n db2" using 2(3) searched(1) by auto
  ultimately show ?thesis using 1(3) grows_trans tracked_grows by metis
qed

inductive search_step :: "search_db \<Rightarrow> search_db \<Rightarrow> bool" where
  collect_step: "collects org c numbers db db' \<Longrightarrow> search_step db db'"
| plan_step: "generate_strategy ai word_char fresh now org c db = Inr (s, db') \<Longrightarrow> search_step db db'"
| replan_step: "update_strategy org c sid kws ipcs cnipr standard db = Inr (view, db') \<Longrightarrow> search_step db db'"
| triage_step: "update_triage fresh now org c cand status reason remarks actor db = Inr (view, db') \<Longrightarrow> search_step db db'"
| feature_change: "search_step db (db\<lparr>se_features := features\<rparr>)"

lemma set_triage_well: "well_searched db \<Longrightarrow> well_searched (set_triage row db)"
  by (auto simp: set_triage_def well_searched_def map_update_where)

lemma search_step_well: "search_step db db' \<Longrightarrow> well_searched db \<Longrightarrow> well_searched db'"
proof (induction rule: search_step.induct)
  case (collect_step org c numbers db db')
  then show ?case using collects_keeps by blast
next
  case (plan_step ai word_char fresh now org c db s db')
  then have "se_candidates db' = se_candidates db" "se_triage db' = se_triage db"
    by (auto simp: generate_strategy_def Let_def split: option.splits)
  then show ?case using plan_step by (simp add: well_searched_def)
next
  case (replan_step org c sid kws ipcs cnipr standard db view db')
  then have "se_candidates db' = se_candidates db" "se_triage db' = se_triage db"
    by (auto simp: update_strategy_def Let_def split: option.splits if_splits)
  then show ?case using replan_step by (simp add: well_searched_def)
next
  case (triage_step fresh now org c cand status reason remarks actor db view db')
  then show ?case by (auto simp: update_triage_def Let_def set_triage_well split: option.splits if_splits)
next
  case (feature_change db features)
  then show ?case by (simp add: well_searched_def)
qed

definition empty_search_db :: search_db where
  "empty_search_db = \<lparr>se_features = \<lparr>fe_documents = [], fe_cases = [], fe_versions = [], fe_features = []\<rparr>,
     se_strategies = [], se_jobs = [], se_candidates = [], se_triage = [], se_snapshots = []\<rparr>"

lemma search_run_well: "search_step\<^sup>*\<^sup>* empty_search_db db \<Longrightarrow> well_searched db"
proof (induction rule: rtranclp_induct)
  case base
  show ?case by (simp add: empty_search_db_def well_searched_def)
next
  case (step y z)
  then show ?case using search_step_well by blast
qed

text \<open>
  C35: searches never undo the triage.  In every run, after one more search or import, every triage record is as
  it was and new ones are pending, every candidate is still there under its identifier and
  number, and each number that was found has exactly one candidate in the case, which has a triage record.
\<close>

theorem searches_keep_decisions:
  assumes "search_step\<^sup>*\<^sup>* empty_search_db db" and "collects org c numbers db db'"
  shows "(\<exists>new. se_triage db' = se_triage db @ new \<and> (\<forall>t \<in> set new. tr_status t = ''pending''))
    \<and> (\<forall>x \<in> set (se_candidates db). \<exists>y \<in> set (se_candidates db'). sc_id y = sc_id x \<and> candidate_key y = candidate_key x)
    \<and> (\<forall>n \<in> numbers. \<exists>!y. y \<in> set (se_candidates db') \<and> candidate_key y = (org, c, n))
    \<and> (\<forall>n \<in> numbers. \<exists>y \<in> set (se_candidates db'). candidate_key y = (org, c, n)
         \<and> (\<exists>t \<in> set (se_triage db'). tr_candidate t = sc_id y))"
proof -
  have k: "well_searched db'" "grows db db'" "\<forall>n \<in> numbers. tracked org c n db'"
    using collects_keeps [OF assms(2) search_run_well [OF assms(1)]] by blast+
  have u: "x = y" if "x \<in> set (se_candidates db')" "y \<in> set (se_candidates db')" "candidate_key x = candidate_key y" for x y
    using k(1) that unfolding well_searched_def distinct_map inj_on_def by blast
  have A: "\<exists>new. se_triage db' = se_triage db @ new \<and> (\<forall>t \<in> set new. tr_status t = ''pending'')"
    using k(2) unfolding grows_def by blast
  have B: "\<exists>y \<in> set (se_candidates db'). sc_id y = sc_id x \<and> candidate_key y = candidate_key x"
    if "x \<in> set (se_candidates db)" for x
  proof -
    obtain y where "y \<in> set (se_candidates db')" "kept x y" using k(2) \<open>x \<in> set (se_candidates db)\<close> unfolding grows_def by blast
    then show ?thesis using kept_fields [of x y] by blast
  qed
  have C: "\<exists>!y. y \<in> set (se_candidates db') \<and> candidate_key y = (org, c, n)" if "n \<in> numbers" for n
  proof -
    obtain y where y: "y \<in> set (se_candidates db')" "candidate_key y = (org, c, n)" using bspec [OF k(3) \<open>n \<in> numbers\<close>] by (auto simp: tracked_def)
    show ?thesis
    proof (rule ex1I [of _ y])
      fix z assume "z \<in> set (se_candidates db') \<and> candidate_key z = (org, c, n)"
      with y show "z = y" by (intro u) simp_all
    qed (use y in simp)
  qed
  have D: "\<exists>y \<in> set (se_candidates db'). candidate_key y = (org, c, n) \<and> (\<exists>t \<in> set (se_triage db'). tr_candidate t = sc_id y)"
    if "n \<in> numbers" for n
  proof -
    obtain y where y: "y \<in> set (se_candidates db')" "candidate_key y = (org, c, n)" "sc_id y \<in> tr_candidate ` set (se_triage db')"
      using bspec [OF k(3) \<open>n \<in> numbers\<close>] by (auto simp: tracked_def)
    from y(3) obtain t where "t \<in> set (se_triage db')" "tr_candidate t = sc_id y" by auto
    with y show ?thesis by blast
  qed
  show ?thesis by (intro conjI ballI A B C D)
qed

definition sample_found :: found_item where
  "sample_found = \<lparr>fi_publication = [67, 32, 49], fi_normalized = [], fi_title = [97], fi_abstract = [], fi_date = None,
     fi_applicant = None, fi_ipc = None, fi_source = ''epo'', fi_snapshot = None\<rparr>"

definition sample_strategy :: strategy_row where
  "sample_strategy = \<lparr>sg_id = ''s'', sg_organization = ''o'', sg_case = ''c'', sg_version = ''v'', sg_plan = no_plan,
     sg_status = ''confirmed'', sg_created_at = 1\<rparr>"

theorem searches_keep_decisions_witness:
  "\<exists>db' y. collects ''o'' ''c'' {[67, 49]} empty_search_db db' \<and> y \<in> set (se_candidates db')
     \<and> candidate_key y = (''o'', ''c'', [67, 49])"
proof -
  let ?fresh = "\<lambda>i. replicate i (CHR ''x'')" and ?search = "\<lambda>q. Some [sample_found]"
  have norm: "normalize_pub_number (fi_publication sample_found) = [67, 49]"
    by (simp add: sample_found_def normalize_pub_number_def separator_def is_space_def upper_cp_def)
  have "\<exists>r db'. execute_public_search (\<lambda>_. []) ?fresh ?search 1 2 3 ''o'' ''c'' ''a'' ''epo'' (Some sample_strategy) empty_search_db
      = Inr (r, db')"
    by (simp add: execute_public_search_def sample_strategy_def norm)
      (simp add: sample_found_def score_item_def compute_score_def upsert_candidate_def empty_search_db_def no_plan_def)
  then obtain r db' where "execute_public_search (\<lambda>_. []) ?fresh ?search 1 2 3 ''o'' ''c'' ''a'' ''epo'' (Some sample_strategy)
      empty_search_db = Inr (r, db')" by blast
  moreover have "unused ?fresh 0 empty_search_db"
    by (auto simp: unused_def empty_search_db_def inj_def dest: arg_cong [of _ _ length])
  ultimately have c: "collects ''o'' ''c'' {[67, 49]} empty_search_db db'"
    using searched [of "\<lambda>_. []" ?fresh ?search 1 2 3 "''o''" "''c''" "''a''" "''epo''" sample_strategy empty_search_db r db'
        "[sample_found]"] norm by simp
  with searches_keep_decisions [OF rtranclp.rtrancl_refl c] show ?thesis by blast
qed

text \<open>A failed search leaves no record of its job, because the error that is raised ends the transaction.\<close>

lemma failed_search_unrecorded:
  assumes "search (ps_standard (sg_plan s)) = None"
  shows "execute_public_search h fresh search now received finished org c actor source (Some s) db
    = Inl (Http 502 ''search_adapter_failed'')"
  using assms by (simp add: execute_public_search_def Let_def)

end
