(* ===== verification/ComparisonMatrix.thy ===== *)
theory ComparisonMatrix
  imports SearchCandidates
begin

text \<open>
  \<^verbatim>\<open>comparison/services.py\<close>: the comparison matrix of a case over the tables of migration 0007: generating and
  rebuilding it, editing a cell, confirming it.  The answer of the language model to each comparison is an
  argument, as are fresh identifiers and the clock.
\<close>

section \<open>Tables\<close>

record matrix_row =
  mx_id :: string
  mx_organization :: string
  mx_case :: string
  mx_version :: string
  mx_status :: string
  mx_summary :: "matrix_summary option"
  mx_confirmed_by :: "string option"
  mx_confirmed_at :: "nat option"
  mx_created_at :: nat

record cell_row =
  cl_id :: string
  cl_organization :: string
  cl_case :: string
  cl_matrix :: string
  cl_feature :: string
  cl_candidate :: string
  cl_result :: comparison_result
  cl_edited :: bool
  cl_created_at :: nat

record matrix_db =
  mt_search :: search_db
  mt_matrices :: "matrix_row list"
  mt_cells :: "cell_row list"

abbreviation mt_features :: "matrix_db \<Rightarrow> feature_db" where
  "mt_features db \<equiv> se_features (mt_search db)"

section \<open>Reading\<close>

text \<open>The latest matrix of a case: \<open>ORDER BY created_at DESC LIMIT 1\<close>.\<close>

definition active_matrix :: "string \<Rightarrow> string \<Rightarrow> matrix_db \<Rightarrow> matrix_row option" where
  "active_matrix org c db =
     (case filter (\<lambda>m. mx_case m = c \<and> mx_organization m = org) (mt_matrices db) of
        [] \<Rightarrow> None
      | m # ms \<Rightarrow> Some (max_key mx_created_at m ms))"

text \<open>The cells of a matrix whose candidate exists, in the order of their creation.\<close>

definition matrix_cells :: "string \<Rightarrow> string \<Rightarrow> matrix_db \<Rightarrow> cell_row list" where
  "matrix_cells org mid db =
     sort_key cl_created_at (filter (\<lambda>x. cl_matrix x = mid \<and> cl_organization x = org
       \<and> cl_candidate x \<in> sc_id ` set (se_candidates (mt_search db))) (mt_cells db))"

definition publication_of :: "matrix_db \<Rightarrow> string \<Rightarrow> ustr" where
  "publication_of db cand =
     (case find (\<lambda>x. sc_id x = cand) (se_candidates (mt_search db)) of None \<Rightarrow> [] | Some x \<Rightarrow> sc_publication x)"

definition item_of_cell :: "cell_row \<Rightarrow> matrix_item" where
  "item_of_cell x = \<lparr>mi_feature = cl_feature x, mi_candidate = cl_candidate x, mi_judgment = cr_judgment (cl_result x)\<rparr>"

record matrix_view =
  vw_matrix :: matrix_row
  vw_evaluation :: matrix_evaluation
  vw_features :: "feature_row list"
  vw_candidates :: "(string \<times> ustr) list"
  vw_cells :: "cell_row list"

definition get_active_matrix :: "string \<Rightarrow> string \<Rightarrow> matrix_db \<Rightarrow> matrix_view option" where
  "get_active_matrix org c db =
     (case active_matrix org c db of
        None \<Rightarrow> None
      | Some m \<Rightarrow>
          let features = version_features org (mx_version m) (mt_features db);
              cells = matrix_cells org (mx_id m) db;
              candidates = map (\<lambda>cand. (cand, publication_of db cand)) (dedup (map cl_candidate cells))
          in Some \<lparr>vw_matrix = m, vw_evaluation = evaluate_matrix (length features) candidates (map item_of_cell cells),
                   vw_features = features, vw_candidates = candidates, vw_cells = cells\<rparr>)"

section \<open>Generating\<close>

text \<open>The ten best candidates, included ones first; of those the included ones, or else the first four.\<close>

definition matrix_candidates :: "string \<Rightarrow> string \<Rightarrow> search_db \<Rightarrow> candidate_row list" where
  "matrix_candidates org c db =
     take 10 (sort_key (\<lambda>x. (if triage_status_of (sc_id x) db = ''included'' then 1 else 2 :: nat, - int (sc_score x)))
       (filter (\<lambda>x. sc_case x = c \<and> sc_organization x = org) (se_candidates db)))"

definition active_candidates :: "string \<Rightarrow> string \<Rightarrow> search_db \<Rightarrow> candidate_row list" where
  "active_candidates org c db =
     (let candidates = matrix_candidates org c db;
          included = filter (\<lambda>x. triage_status_of (sc_id x) db = ''included'') candidates
      in if included \<noteq> [] then included else take 4 candidates)"

text \<open>
  \<open>INSERT ... ON CONFLICT (case_id, feature_set_version_id) DO UPDATE SET status = 'draft' RETURNING id\<close>.
\<close>

definition upsert_matrix :: "string \<Rightarrow> nat \<Rightarrow> string \<Rightarrow> string \<Rightarrow> string \<Rightarrow> matrix_db \<Rightarrow> string \<times> matrix_db" where
  "upsert_matrix fresh now org c vid db =
     (let same = (\<lambda>m. mx_case m = c \<and> mx_version m = vid)
      in case find same (mt_matrices db) of
           Some m \<Rightarrow> (mx_id m, db\<lparr>mt_matrices := update_where same (mx_status_update (\<lambda>_. ''draft'')) (mt_matrices db)\<rparr>)
         | None \<Rightarrow> (fresh, db\<lparr>mt_matrices := mt_matrices db @
             [\<lparr>mx_id = fresh, mx_organization = org, mx_case = c, mx_version = vid, mx_status = ''draft'', mx_summary = None,
               mx_confirmed_by = None, mx_confirmed_at = None, mx_created_at = now\<rparr>]\<rparr>))"

text \<open>
  \<open>ON CONFLICT (matrix_id, claim_feature_id, candidate_id) DO UPDATE ... WHERE is_manually_edited = false\<close>.
\<close>

definition same_cell :: "string \<Rightarrow> string \<Rightarrow> string \<Rightarrow> cell_row \<Rightarrow> bool" where
  "same_cell mid feat cand x \<longleftrightarrow> cl_matrix x = mid \<and> cl_feature x = feat \<and> cl_candidate x = cand"

definition upsert_cell :: "cell_row \<Rightarrow> cell_row list \<Rightarrow> cell_row list" where
  "upsert_cell row cells =
     (let same = same_cell (cl_matrix row) (cl_feature row) (cl_candidate row)
      in if list_ex same cells
         then update_where (\<lambda>x. same x \<and> \<not> cl_edited x) (cl_result_update (\<lambda>_. cl_result row)) cells
         else cells @ [row])"

definition cell_of :: "string \<Rightarrow> nat \<Rightarrow> string \<Rightarrow> string \<Rightarrow> string \<Rightarrow> feature_row \<Rightarrow> candidate_row \<Rightarrow> comparison_result \<Rightarrow> cell_row" where
  "cell_of i now org c mid feat cand res =
     \<lparr>cl_id = i, cl_organization = org, cl_case = c, cl_matrix = mid, cl_feature = ft_id feat, cl_candidate = sc_id cand,
      cl_result = res, cl_edited = False, cl_created_at = now\<rparr>"

text \<open>The loop over the features and, inside, the candidates; \<open>compare\<close> is the comparison of one pair.\<close>

fun compare_pairs :: "(feature_row \<Rightarrow> candidate_row \<Rightarrow> comparison_result) \<Rightarrow> (nat \<Rightarrow> string) \<Rightarrow> nat \<Rightarrow> nat \<Rightarrow> string \<Rightarrow> string
    \<Rightarrow> string \<Rightarrow> (feature_row \<times> candidate_row) list \<Rightarrow> cell_row list \<times> matrix_item list \<Rightarrow> cell_row list \<times> matrix_item list" where
  "compare_pairs compare fresh k now org c mid [] st = st"
| "compare_pairs compare fresh k now org c mid ((feat, cand) # pairs) (cells, items) =
     (let res = compare feat cand
      in compare_pairs compare fresh (k + 1) now org c mid pairs
           (upsert_cell (cell_of (fresh k) now org c mid feat cand res) cells,
            items @ [\<lparr>mi_feature = ft_id feat, mi_candidate = sc_id cand, mi_judgment = cr_judgment res\<rparr>]))"

definition no_candidates :: http_error where
  "no_candidates = Http 400 ''no_search_candidates_available_execute_search_first''"

definition generate_or_rebuild_matrix :: "(feature_row \<Rightarrow> candidate_row \<Rightarrow> comparison_result) \<Rightarrow> (nat \<Rightarrow> string) \<Rightarrow> nat
    \<Rightarrow> string \<Rightarrow> string \<Rightarrow> matrix_db \<Rightarrow> (http_error, matrix_view option \<times> matrix_db) result" where
  "generate_or_rebuild_matrix compare fresh now org c db =
     (case working_version org c (mt_features db) of
        None \<Rightarrow> Inl (Http 400 ''no_feature_version_available'')
      | Some v \<Rightarrow>
          let features = version_features org (fv_id v) (mt_features db)
          in if features = [] then Inl (Http 400 ''no_claim_features_found'')
             else if matrix_candidates org c (mt_search db) = [] then Inl no_candidates
             else
               let active = active_candidates org c (mt_search db);
                   (mid, db1) = upsert_matrix (fresh 0) now org c (fv_id v) db;
                   (cells, items) = compare_pairs compare fresh 1 now org c mid (List.product features active) (mt_cells db1, []);
                   evaluation = evaluate_matrix (length features) (map (\<lambda>x. (sc_id x, sc_publication x)) active) items;
                   db2 = db1\<lparr>mt_cells := cells,
                     mt_matrices := update_where (\<lambda>m. mx_id m = mid) (mx_summary_update (\<lambda>_. Some (me_summary evaluation)))
                       (mt_matrices db1)\<rparr>
               in Inr (get_active_matrix org c db2, db2))"

text \<open>The comparison of the code: the language model, and the rules where it does not answer.\<close>

definition compare_pair :: "(nat \<Rightarrow> bool) \<Rightarrow> (string \<Rightarrow> ustr \<Rightarrow> ustr \<Rightarrow> ustr \<Rightarrow> chunk list \<Rightarrow> llm_comparison option)
    \<Rightarrow> feature_row \<Rightarrow> candidate_row \<Rightarrow> comparison_result" where
  "compare_pair word_char ai feat cand =
     compare_feature_with_ai word_char ai (ft_code feat) (ft_statement feat) (sc_publication cand) (sc_title cand)
       (sc_abstract cand) []"

section \<open>Editing and confirming\<close>

definition set_field :: "('b option) \<Rightarrow> 'b \<Rightarrow> 'b" where
  "set_field x old = (case x of None \<Rightarrow> old | Some y \<Rightarrow> y)"

definition update_comparison_item :: "string \<Rightarrow> string \<Rightarrow> string \<Rightarrow> string option \<Rightarrow> ustr option \<Rightarrow> ustr option \<Rightarrow> ustr option
    \<Rightarrow> matrix_db \<Rightarrow> (http_error, matrix_view option \<times> matrix_db) result" where
  "update_comparison_item org c cid new_judgment location quote reason db =
     (case find (\<lambda>x. cl_id x = cid \<and> cl_organization x = org \<and> cl_case x = c \<and> cl_matrix x \<in> mx_id ` set (mt_matrices db))
             (mt_cells db) of
        None \<Rightarrow> Inl (Http 404 ''comparison_item_not_found'')
      | Some x \<Rightarrow>
          if \<exists>m \<in> set (mt_matrices db). mx_id m = cl_matrix x \<and> mx_status m = ''confirmed''
          then Inl (Http 400 ''matrix_is_confirmed_and_locked'')
          else if new_judgment \<noteq> None \<and> the new_judgment \<notin> {''identical'', ''equivalent'', ''different''}
          then Inl (Http 422 ''invalid_judgment_value'')
          else
            let edit = (\<lambda>r. r\<lparr>cr_judgment := set_field new_judgment (cr_judgment r),
                              cr_location := set_field location (cr_location r),
                              cr_quote := set_field quote (cr_quote r),
                              cr_reasoning := set_field (map_option Written reason) (cr_reasoning r)\<rparr>);
                db' = db\<lparr>mt_cells := update_where (\<lambda>y. cl_id y = cid \<and> cl_organization y = org)
                        (\<lambda>y. y\<lparr>cl_edited := True, cl_result := edit (cl_result y)\<rparr>) (mt_cells db)\<rparr>
            in Inr (get_active_matrix org c db', db'))"

definition set_case_status :: "string \<Rightarrow> string \<Rightarrow> string \<Rightarrow> feature_db \<Rightarrow> feature_db" where
  "set_case_status org c status db =
     db\<lparr>fe_cases := update_where (\<lambda>x. ca_id x = c \<and> ca_organization x = org) (ca_status_update (\<lambda>_. status)) (fe_cases db)\<rparr>"

definition confirm_matrix :: "nat \<Rightarrow> string \<Rightarrow> string \<Rightarrow> string \<Rightarrow> string \<Rightarrow> matrix_db \<Rightarrow> matrix_view option \<times> matrix_db" where
  "confirm_matrix now org c mid actor db =
     (let db' = db\<lparr>mt_matrices := update_where (\<lambda>m. mx_id m = mid \<and> mx_organization m = org \<and> mx_case m = c)
                     (\<lambda>m. m\<lparr>mx_status := ''confirmed'', mx_confirmed_at := Some now, mx_confirmed_by := Some actor\<rparr>)
                     (mt_matrices db),
                   mt_search := se_features_update (set_case_status org c ''comparisons_confirmed'') (mt_search db)\<rparr>
      in (get_active_matrix org c db', db'))"

end
