(* ===== verification/ComparisonSafety.thy ===== *)
theory ComparisonSafety
  imports ComparisonMatrix SearchSafety FeatureSafety
begin

text \<open>
  The comparison matrix as a step relation, together with the searches and the feature sets it is built
  from: rebuilding a matrix keeps what people edited, and the verdict on the active matrix is exact.
\<close>

section \<open>The features a step keeps\<close>

text \<open>A feature that a step keeps stays in its version and its organization.\<close>

definition same_home :: "feature_row list \<Rightarrow> feature_row list \<Rightarrow> bool" where
  "same_home fs fs' \<longleftrightarrow> (\<forall>f' \<in> set fs'. ft_id f' \<in> ft_id ` set fs \<longrightarrow>
     (\<exists>f \<in> set fs. ft_id f = ft_id f' \<and> ft_version f = ft_version f' \<and> ft_organization f = ft_organization f'))"

lemma same_home_refl: "same_home fs fs"
  by (auto simp: same_home_def)

lemma same_home_filter: "same_home fs fs' \<Longrightarrow> same_home fs (filter P fs')"
  by (auto simp: same_home_def)

lemma same_home_update:
  "(\<And>f. ft_id (g f) = ft_id f \<and> ft_version (g f) = ft_version f \<and> ft_organization (g f) = ft_organization f) \<Longrightarrow>
     same_home fs (update_where P g fs)"
  by (auto simp: same_home_def update_where_def)

lemma same_home_append: "same_home fs fs' \<Longrightarrow> ft_id ` set new \<inter> ft_id ` set fs = {} \<Longrightarrow> same_home fs (fs' @ new)"
  by (auto simp: same_home_def)

lemma fresh_features:
  assumes "fresh_ids fresh db" and "\<And>i f. ft_id (h (i, f)) = fresh i"
  shows "ft_id ` set (map h ps) \<inter> ft_id ` set (fe_features db) = {}"
proof -
  have "ft_id (h p) \<notin> ft_id ` set (fe_features db)" for p
    using assms by (cases p) (simp add: fresh_ids_def)
  then show ?thesis by auto
qed

lemma answeredE: "answered org c vid d = Inr (view, db') \<Longrightarrow> (db' = d \<Longrightarrow> P) \<Longrightarrow> P"
  by (simp add: answered_Inr)

lemma same_home_step:
  assumes "feature_step db db'"
  shows "same_home (fe_features db) (fe_features db')"
  using assms
proof cases
  case (extract_step fresh ai org c wanted view)
  obtain doc where doc: "target_document org c wanted db = Some doc"
    using extract_step(1) by (cases "target_document org c wanted db") (auto simp: extract_draft_features_def)
  let ?h = "\<lambda>vid (i, f). feature_of_draft (fresh i) org c vid f"
  have "ft_id ` set (map (?h vid) ps) \<inter> ft_id ` set (fe_features db) = {}" for vid ps
    by (rule fresh_features [OF extract_step(2)]) (simp add: feature_of_draft_def)
  moreover have "\<exists>fs vid. fe_features db' = fs @ map (?h vid) (enumerate 1 (drafts_for ai (dv_paragraphs doc)))
      \<and> same_home (fe_features db) fs"
  proof (cases "open_draft org c db")
    case None
    with extract_step(1) doc show ?thesis
      by (intro exI [of _ "fe_features db"] exI [of _ "fresh 0"])
        (auto simp: extract_draft_features_def Let_def same_home_refl elim: answeredE)
  next
    case (Some v)
    with extract_step(1) doc show ?thesis
      by (intro exI [of _ "filter (\<lambda>f. ft_version f \<noteq> fv_id v) (fe_features db)"] exI [of _ "fv_id v"])
        (auto simp: extract_draft_features_def Let_def same_home_filter same_home_refl elim: answeredE)
  qed
  ultimately show ?thesis using same_home_append by metis
next
  case (add_step i org c vid code kind s para q view)
  obtain x where "assert_draft_version org c vid db = Inr x"
    using asserted [OF add_step(1) [unfolded add_feature_def]] by blast
  with add_step show ?thesis
    by (auto simp: add_feature_def Let_def elim!: answeredE intro!: same_home_append same_home_refl)
next
  case (update_step org c vid fid code kind s para q n view)
  obtain x where "assert_draft_version org c vid db = Inr x"
    using asserted [OF update_step [unfolded update_feature_def]] by blast
  with update_step show ?thesis by (auto simp: update_feature_def elim!: answeredE intro!: same_home_update)
next
  case (delete_step org c vid fid view)
  obtain x where "assert_draft_version org c vid db = Inr x"
    using asserted [OF delete_step [unfolded delete_feature_def]] by blast
  with delete_step show ?thesis by (auto simp: delete_feature_def elim!: answeredE intro!: same_home_filter same_home_refl)
next
  case (split_step i org c vid fid p1 p2 view)
  obtain x where "assert_draft_version org c vid db = Inr x"
    using asserted [OF split_step(1) [unfolded split_feature_def]] by blast
  with split_step show ?thesis
    by (auto simp: split_feature_def elim!: answeredE split: option.splits intro!: same_home_append same_home_update)
next
  case (merge_step org c vid fid1 fid2 s view)
  obtain x where "assert_draft_version org c vid db = Inr x"
    using asserted [OF merge_step [unfolded merge_features_def]] by blast
  with merge_step show ?thesis
    by (auto simp: merge_features_def elim!: answeredE intro!: same_home_filter same_home_update)
next
  case (confirm_step now org c vid actor view)
  obtain x where "assert_draft_version org c vid db = Inr x"
    using asserted [OF confirm_step [unfolded confirm_version_def]] by blast
  with confirm_step show ?thesis
    by (auto simp: confirm_version_def same_home_refl elim!: answeredE split: if_splits)
next
  case (revise_step fresh org c base view)
  obtain b where b: "find_version org c base db = Some b"
    using revise_step(1) by (cases "find_version org c base db") (auto simp: create_revision_def)
  let ?h = "\<lambda>(i, f). copied_feature (fresh i) org c (fresh 0) f"
  have "ft_id ` set (map ?h ps) \<inter> ft_id ` set (fe_features db) = {}" for ps
    by (rule fresh_features [OF revise_step(2)]) (simp add: copied_feature_def)
  then have "same_home (fe_features db) (fe_features db @ map ?h ps)" for ps
    by (intro same_home_append same_home_refl)
  with revise_step(1) b show ?thesis
    by (auto simp: create_revision_def same_home_refl elim!: answeredE split: option.splits)
qed (simp_all add: same_home_refl)

section \<open>Steps\<close>

text \<open>
  The feature sets change with the foreign key of the cells: \<open>ON DELETE CASCADE\<close> takes the cells of a feature
  that is gone.
\<close>

inductive matrix_step :: "matrix_db \<Rightarrow> matrix_db \<Rightarrow> bool" where
  generate_step: "generate_or_rebuild_matrix compare fresh now org c db = Inr (view, db') \<Longrightarrow>
    fresh 0 \<notin> mx_id ` set (mt_matrices db) \<Longrightarrow> matrix_step db db'"
| edit_step: "update_comparison_item org c cid new_judgment location q reason db = Inr (view, db') \<Longrightarrow> matrix_step db db'"
| approve_step: "confirm_matrix now org c mid actor db = (view, db') \<Longrightarrow> matrix_step db db'"
| triage_change: "search_step (mt_search db) s \<Longrightarrow> se_features s = mt_features db \<Longrightarrow> matrix_step db (db\<lparr>mt_search := s\<rparr>)"
| features_change: "feature_step (mt_features db) fs \<Longrightarrow>
    matrix_step db (db\<lparr>mt_search := (mt_search db)\<lparr>se_features := fs\<rparr>,
                       mt_cells := filter (\<lambda>x. cl_feature x \<in> ft_id ` set (fe_features fs)) (mt_cells db)\<rparr>)"

definition cell_key :: "cell_row \<Rightarrow> string \<times> string \<times> string" where
  "cell_key x = (cl_matrix x, cl_feature x, cl_candidate x)"

text \<open>A cell belongs to a feature of the version its matrix compares.\<close>

definition grounded :: "matrix_db \<Rightarrow> cell_row \<Rightarrow> bool" where
  "grounded db x \<longleftrightarrow> (\<exists>m \<in> set (mt_matrices db). \<exists>f \<in> set (fe_features (mt_features db)).
     mx_id m = cl_matrix x \<and> ft_id f = cl_feature x \<and> ft_version f = mx_version m \<and> ft_organization f = cl_organization x)"

definition well_compared :: "matrix_db \<Rightarrow> bool" where
  "well_compared db \<longleftrightarrow> well_featured (mt_features db) \<and> well_searched (mt_search db)
     \<and> distinct (map mx_id (mt_matrices db)) \<and> distinct (map (\<lambda>m. (mx_case m, mx_version m)) (mt_matrices db))
     \<and> distinct (map cell_key (mt_cells db)) \<and> (\<forall>x \<in> set (mt_cells db). grounded db x)"

section \<open>Writing cells\<close>

lemma same_cell_key: "same_cell mid feat cand x \<longleftrightarrow> cell_key x = (mid, feat, cand)"
  by (simp add: same_cell_def cell_key_def)

lemma upsert_cell_keys:
  "map cell_key (upsert_cell row cells) =
     (if cell_key row \<in> cell_key ` set cells then map cell_key cells else map cell_key cells @ [cell_key row])"
proof -
  have "list_ex (same_cell (cl_matrix row) (cl_feature row) (cl_candidate row)) cells \<longleftrightarrow> cell_key row \<in> cell_key ` set cells"
    unfolding list_ex_iff same_cell_key image_iff by (metis cell_key_def)
  then show ?thesis
    by (simp add: upsert_cell_def Let_def map_update_where cell_key_def)
qed

lemma upsert_cell_keeps:
  assumes "x \<in> set cells" and "cl_edited x \<or> cell_key x \<noteq> cell_key row"
  shows "x \<in> set (upsert_cell row cells)"
  using assms by (auto simp: upsert_cell_def Let_def update_where_def same_cell_def cell_key_def image_iff)

lemma upsert_cell_from:
  assumes "y \<in> set (upsert_cell row cells)"
  shows "\<exists>x \<in> insert row (set cells). cell_key y = cell_key x \<and> cl_organization y = cl_organization x"
  using assms by (auto simp: upsert_cell_def Let_def update_where_def cell_key_def split: if_splits)

lemma upsert_cell_elsewhere: "cl_matrix row = mid \<Longrightarrow>
    filter (\<lambda>x. cl_matrix x \<noteq> mid) (upsert_cell row cells) = filter (\<lambda>x. cl_matrix x \<noteq> mid) cells"
  by (auto simp: upsert_cell_def Let_def same_cell_def intro!: filter_update_where)

lemma upsert_cell_writes:
  "\<exists>x \<in> set (upsert_cell row cells). cell_key x = cell_key row \<and> (cl_edited x \<or> cl_result x = cl_result row)"
proof (cases "list_ex (same_cell (cl_matrix row) (cl_feature row) (cl_candidate row)) cells")
  case True
  then obtain x where x: "x \<in> set cells" "cell_key x = cell_key row" by (auto simp: list_ex_iff same_cell_key cell_key_def)
  show ?thesis
  proof (cases "cl_edited x")
    case True
    then show ?thesis using x upsert_cell_keeps [OF x(1)] by blast
  next
    case False
    then have "cl_result_update (\<lambda>_. cl_result row) x \<in> set (upsert_cell row cells)"
      using True x by (auto simp: upsert_cell_def Let_def update_where_def same_cell_key cell_key_def image_iff intro!: bexI [of _ x])
    then show ?thesis using x by (intro bexI) (auto simp: cell_key_def)
  qed
qed (auto simp: upsert_cell_def Let_def)

text \<open>The loop over the pairs writes one row after the other.\<close>

definition pair_rows :: "(feature_row \<Rightarrow> candidate_row \<Rightarrow> comparison_result) \<Rightarrow> (nat \<Rightarrow> string) \<Rightarrow> nat \<Rightarrow> nat \<Rightarrow> string \<Rightarrow> string
    \<Rightarrow> string \<Rightarrow> (feature_row \<times> candidate_row) list \<Rightarrow> cell_row list" where
  "pair_rows compare fresh k now org c mid pairs =
     map (\<lambda>(i, feat, cand). cell_of (fresh i) now org c mid feat cand (compare feat cand)) (enumerate k pairs)"

lemma compare_pairs_fold:
  "compare_pairs compare fresh k now org c mid pairs (cells, items) =
     (fold upsert_cell (pair_rows compare fresh k now org c mid pairs) cells,
      items @ map (\<lambda>(feat, cand). \<lparr>mi_feature = ft_id feat, mi_candidate = sc_id cand, mi_judgment = cr_judgment (compare feat cand)\<rparr>) pairs)"
  by (induction pairs arbitrary: k cells items) (auto simp: pair_rows_def Let_def)

lemma pair_rows_keys:
  "map cell_key (pair_rows compare fresh k now org c mid pairs) = map (\<lambda>(feat, cand). (mid, ft_id feat, sc_id cand)) pairs"
  by (induction pairs arbitrary: k) (auto simp: pair_rows_def cell_key_def cell_of_def)

lemma pair_rows_of:
  assumes "row \<in> set (pair_rows compare fresh k now org c mid pairs)"
  shows "\<exists>feat cand. (feat, cand) \<in> set pairs \<and> cell_key row = (mid, ft_id feat, sc_id cand) \<and> cl_organization row = org
    \<and> cl_matrix row = mid"
  using assms by (auto simp: pair_rows_def cell_key_def cell_of_def enumerate_eq_zip) (metis set_zip_rightD)

lemma pair_rows_has:
  assumes "(feat, cand) \<in> set pairs"
  shows "\<exists>row \<in> set (pair_rows compare fresh k now org c mid pairs).
    cell_key row = (mid, ft_id feat, sc_id cand) \<and> cl_result row = compare feat cand"
  using assms
proof (induction pairs arbitrary: k)
  case (Cons p pairs)
  then show ?case by (cases p) (fastforce simp: pair_rows_def cell_key_def cell_of_def)
qed simp

lemma fold_upsert_keeps:
  "x \<in> set cells \<Longrightarrow> cl_edited x \<or> cell_key x \<notin> cell_key ` set rows \<Longrightarrow> x \<in> set (fold upsert_cell rows cells)"
proof (induction rows arbitrary: cells)
  case (Cons row rows)
  have "x \<in> set (upsert_cell row cells)" using Cons.prems by (intro upsert_cell_keeps) auto
  then show ?case using Cons by auto
qed simp

lemma fold_upsert_distinct: "distinct (map cell_key cells) \<Longrightarrow> distinct (map cell_key (fold upsert_cell rows cells))"
proof (induction rows arbitrary: cells)
  case (Cons row rows)
  have "distinct (map cell_key (upsert_cell row cells))" using Cons.prems unfolding upsert_cell_keys by simp
  then show ?case using Cons.IH by simp
qed simp

lemma fold_upsert_from:
  "y \<in> set (fold upsert_cell rows cells) \<Longrightarrow>
     \<exists>x \<in> set rows \<union> set cells. cell_key y = cell_key x \<and> cl_organization y = cl_organization x"
proof (induction rows arbitrary: cells)
  case (Cons row rows)
  then obtain x where "x \<in> set rows \<union> set (upsert_cell row cells)" "cell_key y = cell_key x" "cl_organization y = cl_organization x"
    by fastforce
  then show ?case using upsert_cell_from [of x row cells] by fastforce
qed auto

lemma fold_upsert_elsewhere:
  "(\<And>row. row \<in> set rows \<Longrightarrow> cl_matrix row = mid) \<Longrightarrow>
     filter (\<lambda>x. cl_matrix x \<noteq> mid) (fold upsert_cell rows cells) = filter (\<lambda>x. cl_matrix x \<noteq> mid) cells"
  by (induction rows arbitrary: cells) (simp_all add: upsert_cell_elsewhere)

lemma fold_upsert_writes:
  "distinct (map cell_key rows) \<Longrightarrow> row \<in> set rows \<Longrightarrow>
     \<exists>x \<in> set (fold upsert_cell rows cells). cell_key x = cell_key row \<and> (cl_edited x \<or> cl_result x = cl_result row)"
proof (induction rows arbitrary: cells)
  case (Cons r rows)
  show ?case
  proof (cases "row = r")
    case True
    obtain x where x: "x \<in> set (upsert_cell r cells)" "cell_key x = cell_key r" "cl_edited x \<or> cl_result x = cl_result r"
      using upsert_cell_writes by blast
    moreover have "cell_key x \<notin> cell_key ` set rows" using x(2) Cons.prems(1) by simp
    ultimately have "x \<in> set (fold upsert_cell rows (upsert_cell r cells))" by (intro fold_upsert_keeps) simp_all
    with x True show ?thesis by auto
  next
    case False
    then show ?thesis using Cons by simp
  qed
qed simp

section \<open>A rebuild\<close>

definition matrix_key :: "matrix_row \<Rightarrow> string \<times> string \<times> string" where
  "matrix_key m = (mx_id m, mx_case m, mx_version m)"

lemma upsert_matrix_keys:
  assumes "upsert_matrix fresh now org c vid db = (mid, db1)" and "fresh \<notin> mx_id ` set (mt_matrices db)"
    and "distinct (map mx_id (mt_matrices db))" and "distinct (map (\<lambda>m. (mx_case m, mx_version m)) (mt_matrices db))"
  shows "mt_search db1 = mt_search db" and "mt_cells db1 = mt_cells db"
    and "matrix_key ` set (mt_matrices db1) = insert (mid, c, vid) (matrix_key ` set (mt_matrices db))"
    and "distinct (map mx_id (mt_matrices db1))" and "distinct (map (\<lambda>m. (mx_case m, mx_version m)) (mt_matrices db1))"
    and "m \<in> set (mt_matrices db1) \<Longrightarrow> mx_id m = mid \<Longrightarrow> mx_status m = ''draft''"
    and "filter (\<lambda>m. mx_id m \<noteq> mid) (mt_matrices db1) = filter (\<lambda>m. mx_id m \<noteq> mid) (mt_matrices db)"
proof -
  let ?same = "\<lambda>m. mx_case m = c \<and> mx_version m = vid"
  have "mt_search db1 = mt_search db \<and> mt_cells db1 = mt_cells db
    \<and> matrix_key ` set (mt_matrices db1) = insert (mid, c, vid) (matrix_key ` set (mt_matrices db))
    \<and> distinct (map mx_id (mt_matrices db1)) \<and> distinct (map (\<lambda>m. (mx_case m, mx_version m)) (mt_matrices db1))
    \<and> (\<forall>m \<in> set (mt_matrices db1). mx_id m = mid \<longrightarrow> mx_status m = ''draft'')
    \<and> filter (\<lambda>m. mx_id m \<noteq> mid) (mt_matrices db1) = filter (\<lambda>m. mx_id m \<noteq> mid) (mt_matrices db)"
  proof (cases "find ?same (mt_matrices db)")
    case None
    then have db1: "mid = fresh" "db1 = db\<lparr>mt_matrices := mt_matrices db @
        [\<lparr>mx_id = fresh, mx_organization = org, mx_case = c, mx_version = vid, mx_status = ''draft'', mx_summary = None,
          mx_confirmed_by = None, mx_confirmed_at = None, mx_created_at = now\<rparr>]\<rparr>"
      using assms(1) by (auto simp: upsert_matrix_def)
    moreover have "\<not> ?same m" if "m \<in> set (mt_matrices db)" for m using None that by (auto simp: find_None_iff)
    ultimately show ?thesis using assms(2-4) by (auto simp: matrix_key_def image_iff)
  next
    case (Some m)
    then have db1: "mid = mx_id m" "db1 = db\<lparr>mt_matrices := update_where ?same (mx_status_update (\<lambda>_. ''draft'')) (mt_matrices db)\<rparr>"
      using assms(1) by (auto simp: upsert_matrix_def)
    have m: "m \<in> set (mt_matrices db)" "?same m" using Some by (auto simp: find_Some_iff)
    have one: "?same x \<longleftrightarrow> mx_id x = mid" if "x \<in> set (mt_matrices db)" for x
      using that m assms(3,4) db1(1) unfolding distinct_map inj_on_def by auto
    have k: "map g (mt_matrices db1) = map g (mt_matrices db)" if "\<And>x. g (mx_status_update (\<lambda>_. ''draft'') x) = g x" for g
      unfolding db1(2) using that by (simp add: map_update_where)
    have keys: "map matrix_key (mt_matrices db1) = map matrix_key (mt_matrices db)"
      by (rule k) (simp add: matrix_key_def)
    have "matrix_key ` set (mt_matrices db1) = matrix_key ` set (mt_matrices db)" using arg_cong [OF keys, of set] by simp
    moreover have "(mid, c, vid) \<in> matrix_key ` set (mt_matrices db)" using m db1(1) by (force simp: matrix_key_def)
    moreover have "\<forall>x \<in> set (mt_matrices db1). mx_id x = mid \<longrightarrow> mx_status x = ''draft''"
    proof (intro ballI impI)
      fix x assume x: "x \<in> set (mt_matrices db1)" "mx_id x = mid"
      from x(1) obtain y where y: "y \<in> set (mt_matrices db)"
          "x = (if ?same y then mx_status_update (\<lambda>_. ''draft'') y else y)"
        unfolding db1(2) update_where_def by fastforce
      have "mx_id y = mx_id x" by (simp add: y(2))
      then have "?same y" using one [OF y(1)] x(2) by simp
      with y(2) show "mx_status x = ''draft''" by simp
    qed
    moreover have "filter (\<lambda>m. mx_id m \<noteq> mid) (mt_matrices db1) = filter (\<lambda>m. mx_id m \<noteq> mid) (mt_matrices db)"
    proof -
      have "update_where ?same f (mt_matrices db) = update_where (\<lambda>x. mx_id x = mid) f (mt_matrices db)" for f
        unfolding update_where_def using one by (intro map_cong) auto
      then show ?thesis unfolding db1(2) by (simp add: filter_update_where)
    qed
    ultimately show ?thesis using assms(3,4) k [of mx_id] k [of "\<lambda>m. (mx_case m, mx_version m)"] db1(2)
      by (simp add: insert_absorb)
  qed
  then show "mt_search db1 = mt_search db" "mt_cells db1 = mt_cells db"
    "matrix_key ` set (mt_matrices db1) = insert (mid, c, vid) (matrix_key ` set (mt_matrices db))"
    "distinct (map mx_id (mt_matrices db1))" "distinct (map (\<lambda>m. (mx_case m, mx_version m)) (mt_matrices db1))"
    "m \<in> set (mt_matrices db1) \<Longrightarrow> mx_id m = mid \<Longrightarrow> mx_status m = ''draft''"
    "filter (\<lambda>m. mx_id m \<noteq> mid) (mt_matrices db1) = filter (\<lambda>m. mx_id m \<noteq> mid) (mt_matrices db)"
    by blast+
qed

definition pairs_of :: "string \<Rightarrow> string \<Rightarrow> string \<Rightarrow> matrix_db \<Rightarrow> (feature_row \<times> candidate_row) list" where
  "pairs_of org c vid db = List.product (version_features org vid (mt_features db)) (active_candidates org c (mt_search db))"

text \<open>A successful rebuild, as the cells and the matrices it leaves.\<close>

definition rebuilt :: "(feature_row \<Rightarrow> candidate_row \<Rightarrow> comparison_result) \<Rightarrow> (nat \<Rightarrow> string) \<Rightarrow> nat \<Rightarrow> string \<Rightarrow> string
    \<Rightarrow> matrix_db \<Rightarrow> matrix_db \<Rightarrow> feature_version \<Rightarrow> string \<Rightarrow> bool" where
  "rebuilt compare fresh now org c db db' v mid \<longleftrightarrow>
     working_version org c (mt_features db) = Some v \<and> mt_search db' = mt_search db
     \<and> mt_cells db' = fold upsert_cell (pair_rows compare fresh 1 now org c mid (pairs_of org c (fv_id v) db)) (mt_cells db)
     \<and> matrix_key ` set (mt_matrices db') = insert (mid, c, fv_id v) (matrix_key ` set (mt_matrices db))
     \<and> distinct (map mx_id (mt_matrices db')) \<and> distinct (map (\<lambda>m. (mx_case m, mx_version m)) (mt_matrices db'))
     \<and> (\<forall>m \<in> set (mt_matrices db'). mx_id m = mid \<longrightarrow> mx_status m = ''draft'')
     \<and> filter (\<lambda>m. mx_id m \<noteq> mid) (mt_matrices db') = filter (\<lambda>m. mx_id m \<noteq> mid) (mt_matrices db)"

lemma generated:
  assumes "generate_or_rebuild_matrix compare fresh now org c db = Inr (view, db')"
    and "fresh 0 \<notin> mx_id ` set (mt_matrices db)"
    and "distinct (map mx_id (mt_matrices db))" and "distinct (map (\<lambda>m. (mx_case m, mx_version m)) (mt_matrices db))"
  shows "\<exists>v mid. rebuilt compare fresh now org c db db' v mid"
proof -
  obtain v where v: "working_version org c (mt_features db) = Some v"
    using assms(1) by (cases "working_version org c (mt_features db)") (auto simp: generate_or_rebuild_matrix_def)
  have ne: "version_features org (fv_id v) (mt_features db) \<noteq> []" "matrix_candidates org c (mt_search db) \<noteq> []"
    using assms(1) v by (auto simp: generate_or_rebuild_matrix_def Let_def split: if_splits)
  obtain mid db1 where up: "upsert_matrix (fresh 0) now org c (fv_id v) db = (mid, db1)" by fastforce
  note k = upsert_matrix_keys [OF up assms(2,3,4)]
  obtain cells items where run: "compare_pairs compare fresh 1 now org c mid (pairs_of org c (fv_id v) db) (mt_cells db1, []) = (cells, items)"
    by fastforce
  have "\<exists>summary. db' = db1\<lparr>mt_cells := cells, mt_matrices := update_where (\<lambda>m. mx_id m = mid)
      (mx_summary_update (\<lambda>_. Some summary)) (mt_matrices db1)\<rparr>"
    using assms(1) v ne up run unfolding generate_or_rebuild_matrix_def pairs_of_def
    by (simp add: Let_def) (elim conjE, intro exI, erule sym)
  then obtain summary where db': "db' = db1\<lparr>mt_cells := cells, mt_matrices := update_where (\<lambda>m. mx_id m = mid)
      (mx_summary_update (\<lambda>_. Some summary)) (mt_matrices db1)\<rparr>" by blast
  have same: "map g (mt_matrices db') = map g (mt_matrices db1)" if "\<And>x. g (mx_summary_update (\<lambda>_. Some summary) x) = g x" for g
    unfolding db' using that by (simp add: map_update_where)
  have "map matrix_key (mt_matrices db') = map matrix_key (mt_matrices db1)" by (rule same) (simp add: matrix_key_def)
  then have keys: "matrix_key ` set (mt_matrices db') = matrix_key ` set (mt_matrices db1)" by (metis list.set_map)
  have cells: "cells = fold upsert_cell (pair_rows compare fresh 1 now org c mid (pairs_of org c (fv_id v) db)) (mt_cells db)"
    using run k(2) by (simp add: compare_pairs_fold)
  have "rebuilt compare fresh now org c db db' v mid"
    unfolding rebuilt_def
  proof (intro conjI ballI impI)
    show "working_version org c (mt_features db) = Some v" by (rule v)
    show "mt_search db' = mt_search db" using k(1) by (simp add: db')
    show "mt_cells db' = fold upsert_cell (pair_rows compare fresh 1 now org c mid (pairs_of org c (fv_id v) db)) (mt_cells db)"
      using cells by (simp add: db')
    show "matrix_key ` set (mt_matrices db') = insert (mid, c, fv_id v) (matrix_key ` set (mt_matrices db))"
      using keys k(3) by simp
    show "distinct (map mx_id (mt_matrices db'))" using same [of mx_id] k(4) by simp
    show "distinct (map (\<lambda>m. (mx_case m, mx_version m)) (mt_matrices db'))"
      using same [of "\<lambda>m. (mx_case m, mx_version m)"] k(5) by simp
    show "mx_status x = ''draft''" if x: "x \<in> set (mt_matrices db')" "mx_id x = mid" for x
    proof -
      obtain y where y: "y \<in> set (mt_matrices db1)" "mx_id x = mx_id y" "mx_status x = mx_status y"
        using x(1) by (auto simp: db' update_where_def)
      then show ?thesis using k(6) [of y] x(2) by simp
    qed
    show "filter (\<lambda>m. mx_id m \<noteq> mid) (mt_matrices db') = filter (\<lambda>m. mx_id m \<noteq> mid) (mt_matrices db)"
      using k(7) by (simp add: db' filter_update_where)
  qed
  then show ?thesis by blast
qed

lemma grounded_mono:
  assumes "grounded db x" and "mt_features db' = mt_features db" and "matrix_key ` set (mt_matrices db) \<subseteq> matrix_key ` set (mt_matrices db')"
    and "cl_matrix y = cl_matrix x" and "cl_feature y = cl_feature x" and "cl_organization y = cl_organization x"
  shows "grounded db' y"
proof -
  obtain m f where m: "m \<in> set (mt_matrices db)" "f \<in> set (fe_features (mt_features db))" "mx_id m = cl_matrix x"
      "ft_id f = cl_feature x" "ft_version f = mx_version m" "ft_organization f = cl_organization x"
    using assms(1) unfolding grounded_def by blast
  have "matrix_key m \<in> matrix_key ` set (mt_matrices db')" using m(1) assms(3) by blast
  then obtain m' where "m' \<in> set (mt_matrices db')" "matrix_key m' = matrix_key m" by force
  then show ?thesis unfolding grounded_def using m assms(2,4,5,6)
    by (intro bexI [of _ m'] bexI [of _ f]) (auto simp: matrix_key_def)
qed

lemma working_pairs:
  assumes "well_compared db"
  shows "distinct (map (\<lambda>(feat, cand). (mid, ft_id feat, sc_id cand)) (pairs_of org c vid db))"
proof -
  have "distinct (map ft_id (version_features org vid (mt_features db)))"
    using assms by (auto simp: version_features_def well_compared_def well_featured_def distinct_map
      intro: inj_on_subset)
  moreover have "distinct (map sc_id (active_candidates org c (mt_search db)))"
    using assms unfolding active_candidates_def matrix_candidates_def well_compared_def well_searched_def
    by (auto simp: Let_def distinct_map intro: inj_on_subset dest!: in_set_takeD)
  ultimately show ?thesis unfolding pairs_of_def distinct_map by (auto simp: distinct_product inj_on_def)
qed

lemma generated_well:
  assumes "generate_or_rebuild_matrix compare fresh now org c db = Inr (view, db')"
    and "fresh 0 \<notin> mx_id ` set (mt_matrices db)" and "well_compared db"
  shows "well_compared db'"
proof -
  have d: "distinct (map mx_id (mt_matrices db))" "distinct (map (\<lambda>m. (mx_case m, mx_version m)) (mt_matrices db))"
    using assms(3) by (simp_all add: well_compared_def)
  obtain v mid where r: "rebuilt compare fresh now org c db db' v mid" using generated [OF assms(1,2) d] by blast
  have g: "mt_search db' = mt_search db"
      "mt_cells db' = fold upsert_cell (pair_rows compare fresh 1 now org c mid (pairs_of org c (fv_id v) db)) (mt_cells db)"
      "matrix_key ` set (mt_matrices db') = insert (mid, c, fv_id v) (matrix_key ` set (mt_matrices db))"
      "distinct (map mx_id (mt_matrices db'))" "distinct (map (\<lambda>m. (mx_case m, mx_version m)) (mt_matrices db'))"
    using r unfolding rebuilt_def by blast+
  have "grounded db' y" if y: "y \<in> set (mt_cells db')" for y
  proof -
    obtain x where x: "x \<in> set (pair_rows compare fresh 1 now org c mid (pairs_of org c (fv_id v) db)) \<union> set (mt_cells db)"
        "cell_key y = cell_key x" "cl_organization y = cl_organization x"
      using fold_upsert_from [OF y [unfolded g(2)]] by blast
    show ?thesis
    proof (cases "x \<in> set (mt_cells db)")
      case True
      then have "grounded db x" using assms(3) by (simp add: well_compared_def)
      then show ?thesis by (rule grounded_mono) (use g x in \<open>auto simp: cell_key_def\<close>)
    next
      case False
      then obtain feat cand where f: "(feat, cand) \<in> set (pairs_of org c (fv_id v) db)" "cell_key x = (mid, ft_id feat, sc_id cand)"
          "cl_organization x = org" using pair_rows_of x(1) by blast
      have "(mid, c, fv_id v) \<in> matrix_key ` set (mt_matrices db')" using g(3) by simp
      then obtain m where "m \<in> set (mt_matrices db')" "mx_id m = mid" "mx_version m = fv_id v" by (auto simp: matrix_key_def)
      moreover have "feat \<in> set (fe_features (mt_features db))" "ft_version feat = fv_id v" "ft_organization feat = org"
        using f(1) by (auto simp: pairs_of_def version_features_def)
      ultimately show ?thesis unfolding grounded_def using f x g(1)
        by (intro bexI [of _ m] bexI [of _ feat]) (auto simp: cell_key_def)
    qed
  qed
  then show ?thesis using assms(3) g fold_upsert_distinct unfolding well_compared_def by simp
qed

lemma matrix_step_well:
  assumes "matrix_step db db'" and "well_compared db"
  shows "well_compared db'"
  using assms(1)
proof cases
  case (generate_step compare fresh now org c view)
  then show ?thesis using generated_well assms(2) by blast
next
  case (edit_step org c cid new_judgment location q reason view)
  then obtain P f where db': "db' = db\<lparr>mt_cells := update_where P (\<lambda>y. y\<lparr>cl_edited := True, cl_result := f (cl_result y)\<rparr>) (mt_cells db)\<rparr>"
    unfolding update_comparison_item_def by (auto simp: Let_def split: option.splits if_splits)
  have "grounded db' y" if y: "y \<in> set (mt_cells db')" for y
  proof -
    obtain z where z: "z \<in> set (mt_cells db)" "y = z \<or> y = z\<lparr>cl_edited := True, cl_result := f (cl_result z)\<rparr>"
      using y by (auto simp: db' update_where_def split: if_splits)
    then obtain x where x: "x \<in> set (mt_cells db)" "cl_matrix y = cl_matrix x" "cl_feature y = cl_feature x"
      "cl_organization y = cl_organization x" by auto
    then have "grounded db x" using assms(2) by (simp add: well_compared_def)
    then show ?thesis by (rule grounded_mono) (use x in \<open>auto simp: db'\<close>)
  qed
  moreover have "map cell_key (mt_cells db') = map cell_key (mt_cells db)"
    unfolding db' by (simp add: map_update_where cell_key_def)
  ultimately show ?thesis using assms(2) unfolding well_compared_def by (simp add: db')
next
  case (approve_step now org c mid actor view)
  then obtain P cases where db': "mt_cells db' = mt_cells db" "se_candidates (mt_search db') = se_candidates (mt_search db)"
      "se_triage (mt_search db') = se_triage (mt_search db)"
      "mt_features db' = (mt_features db)\<lparr>fe_cases := cases\<rparr>"
      "mt_matrices db' = update_where P (\<lambda>m. m\<lparr>mx_status := ''confirmed'', mx_confirmed_at := Some now, mx_confirmed_by := Some actor\<rparr>)
         (mt_matrices db)"
    by (auto simp: confirm_matrix_def set_case_status_def Let_def)
  have same: "map g (mt_matrices db') = map g (mt_matrices db)"
    if "\<And>m. g (m\<lparr>mx_status := ''confirmed'', mx_confirmed_at := Some now, mx_confirmed_by := Some actor\<rparr>) = g m" for g
    unfolding db' using that by (simp add: map_update_where)
  have "map matrix_key (mt_matrices db') = map matrix_key (mt_matrices db)" by (rule same) (simp add: matrix_key_def)
  then have keys: "matrix_key ` set (mt_matrices db') = matrix_key ` set (mt_matrices db)" by (metis list.set_map)
  have "grounded db' x" if x: "x \<in> set (mt_cells db)" for x
  proof -
    obtain m f where m: "m \<in> set (mt_matrices db)" "f \<in> set (fe_features (mt_features db))" "mx_id m = cl_matrix x"
        "ft_id f = cl_feature x" "ft_version f = mx_version m" "ft_organization f = cl_organization x"
      using x assms(2) unfolding well_compared_def grounded_def by blast
    then obtain m' where "m' \<in> set (mt_matrices db')" "matrix_key m' = matrix_key m" using keys by force
    then show ?thesis unfolding grounded_def using m db'(4) by (intro bexI [of _ m'] bexI [of _ f]) (auto simp: matrix_key_def)
  qed
  then show ?thesis using assms(2) db' same [of mx_id] same [of "\<lambda>m. (mx_case m, mx_version m)"]
    unfolding well_compared_def well_featured_def well_searched_def by simp
next
  case (triage_change s)
  then show ?thesis using assms(2) search_step_well
    by (auto simp: well_compared_def grounded_def)
next
  case (features_change fs)
  have "well_featured fs" using step_edits features_change(2) assms(2) by (auto simp: well_compared_def edits_def)
  moreover have "grounded db' x" if x: "x \<in> set (mt_cells db')" for x
  proof -
    obtain m f where m: "m \<in> set (mt_matrices db)" "f \<in> set (fe_features (mt_features db))" "mx_id m = cl_matrix x"
        "ft_id f = cl_feature x" "ft_version f = mx_version m" "ft_organization f = cl_organization x"
      using x assms(2) unfolding well_compared_def grounded_def features_change(1) by auto
    obtain f' where f': "f' \<in> set (fe_features fs)" "ft_id f' = cl_feature x" using x by (auto simp: features_change(1))
    obtain f2 where f2: "f2 \<in> set (fe_features (mt_features db))" "ft_id f2 = ft_id f'" "ft_version f2 = ft_version f'"
        "ft_organization f2 = ft_organization f'"
      using same_home_step [OF features_change(2)] f' m(2,4) unfolding same_home_def by (metis image_eqI)
    have "inj_on ft_id (set (fe_features (mt_features db)))"
      using assms(2) by (simp add: well_compared_def well_featured_def distinct_map)
    then have "f2 = f" using f2(1,2) m(2,4) f'(2) by (simp add: inj_on_def)
    then show ?thesis unfolding grounded_def using m f' f2 by (intro bexI [of _ m] bexI [of _ f']) (auto simp: features_change(1))
  qed
  moreover have "distinct (map cell_key (mt_cells db'))"
    using assms(2) by (auto simp: features_change(1) well_compared_def intro: distinct_filter_map)
  ultimately show ?thesis using assms(2) by (auto simp: well_compared_def well_searched_def features_change(1))
qed

definition empty_matrix_db :: matrix_db where
  "empty_matrix_db = \<lparr>mt_search = empty_search_db, mt_matrices = [], mt_cells = []\<rparr>"

lemma matrix_run_well: "matrix_step\<^sup>*\<^sup>* empty_matrix_db db \<Longrightarrow> well_compared db"
proof (induction rule: rtranclp_induct)
  case base
  show ?case
    by (simp add: well_compared_def empty_matrix_db_def empty_search_db_def well_featured_def versions_ok_def well_searched_def)
next
  case (step y z)
  then show ?case using matrix_step_well by blast
qed

lemma filter_single_key:
  assumes "distinct (map g xs)" and "x \<in> set xs"
  shows "filter (\<lambda>y. g y = g x) xs = [x]"
proof -
  obtain ys zs where xs: "xs = ys @ x # zs" using assms(2) by (auto simp: in_set_conv_decomp)
  have "g y \<noteq> g x" if "y \<in> set ys \<union> set zs" for y using assms(1) that xs by (auto simp: image_iff)
  then have "filter (\<lambda>y. g y = g x) ys = []" "filter (\<lambda>y. g y = g x) zs = []" by (auto simp: filter_empty_conv)
  then show ?thesis by (simp add: xs)
qed

lemma filter_within: "filter P xs = filter P ys \<Longrightarrow> (\<And>x. Q x \<Longrightarrow> P x) \<Longrightarrow> filter Q xs = filter Q ys"
proof -
  assume e: "filter P xs = filter P ys" and i: "\<And>x. Q x \<Longrightarrow> P x"
  have "filter Q zs = filter Q (filter P zs)" for zs
    unfolding filter_filter by (rule filter_cong [OF refl]) (use i in blast)
  then show ?thesis using e by metis
qed

text \<open>A rebuild leaves every matrix alone that is not the one of the working feature set.\<close>

lemma rebuilt_other:
  assumes r: "rebuilt compare fresh now org c db db' v mid" and k: "k \<in> set (mt_matrices db)"
    and other: "\<not> (mx_case k = c \<and> mx_version k = fv_id v)"
  shows "k \<in> set (mt_matrices db')
    \<and> filter (\<lambda>x. cl_matrix x = mx_id k) (mt_cells db') = filter (\<lambda>x. cl_matrix x = mx_id k) (mt_cells db)"
proof -
  have keys: "matrix_key ` set (mt_matrices db') = insert (mid, c, fv_id v) (matrix_key ` set (mt_matrices db))"
    and ids: "distinct (map mx_id (mt_matrices db'))"
    and rest: "filter (\<lambda>m. mx_id m \<noteq> mid) (mt_matrices db') = filter (\<lambda>m. mx_id m \<noteq> mid) (mt_matrices db)"
    and cells: "mt_cells db' = fold upsert_cell (pair_rows compare fresh 1 now org c mid (pairs_of org c (fv_id v) db)) (mt_cells db)"
    using r unfolding rebuilt_def by blast+
  have inj: "inj_on mx_id (set (mt_matrices db'))" using ids by (simp add: distinct_map)
  have "mx_id k \<noteq> mid"
  proof
    assume e: "mx_id k = mid"
    have "(mid, c, fv_id v) \<in> matrix_key ` set (mt_matrices db')" "matrix_key k \<in> matrix_key ` set (mt_matrices db')"
      unfolding keys using k by simp_all
    then obtain a b where a: "(mid, c, fv_id v) = matrix_key a" "a \<in> set (mt_matrices db')"
      and b: "matrix_key k = matrix_key b" "b \<in> set (mt_matrices db')" by (elim imageE)
    have "mx_id a = mx_id b" using a(1) b(1) e by (simp add: matrix_key_def)
    then have "a = b" using inj a(2) b(2) by (simp add: inj_on_eq_iff)
    with a(1) b(1) other show False by (simp add: matrix_key_def)
  qed
  then have "k \<in> set (filter (\<lambda>m. mx_id m \<noteq> mid) (mt_matrices db'))" unfolding rest using k by simp
  moreover have "filter (\<lambda>x. cl_matrix x \<noteq> mid) (mt_cells db') = filter (\<lambda>x. cl_matrix x \<noteq> mid) (mt_cells db)"
    unfolding cells by (rule fold_upsert_elsewhere) (use pair_rows_of in blast)
  then have "filter (\<lambda>x. cl_matrix x = mx_id k) (mt_cells db') = filter (\<lambda>x. cl_matrix x = mx_id k) (mt_cells db)"
    by (rule filter_within) (use \<open>mx_id k \<noteq> mid\<close> in simp)
  ultimately show ?thesis by simp
qed

text \<open>
  C33: rebuilding an unconfirmed matrix keeps the edits of people and touches no confirmed matrix.  In every run of
  the case in which no confirmed matrix belongs to the working feature set, after a rebuild the matrix of that set is
  a draft, every cell a person edited is as it was, the cells of other matrices are as they were, every confirmed
  matrix is still there with all its cells unchanged, and each feature has for each active candidate exactly one
  cell, which is edited by a person or holds the fresh comparison of the two.
\<close>

theorem rebuild_keeps_edits:
  assumes "matrix_step\<^sup>*\<^sup>* empty_matrix_db db"
    and "generate_or_rebuild_matrix compare fresh now org c db = Inr (view, db')" and "fresh 0 \<notin> mx_id ` set (mt_matrices db)"
    and "\<And>v k. working_version org c (mt_features db) = Some v \<Longrightarrow> k \<in> set (mt_matrices db) \<Longrightarrow> mx_case k = c
           \<Longrightarrow> mx_version k = fv_id v \<Longrightarrow> mx_status k \<noteq> ''confirmed''"
  shows "\<exists>v m. working_version org c (mt_features db) = Some v
    \<and> m \<in> set (mt_matrices db') \<and> mx_case m = c \<and> mx_version m = fv_id v \<and> mx_status m = ''draft''
    \<and> (\<forall>x \<in> set (mt_cells db). cl_edited x \<longrightarrow> x \<in> set (mt_cells db'))
    \<and> filter (\<lambda>x. cl_matrix x \<noteq> mx_id m) (mt_cells db') = filter (\<lambda>x. cl_matrix x \<noteq> mx_id m) (mt_cells db)
    \<and> (\<forall>k \<in> set (mt_matrices db). mx_status k = ''confirmed'' \<longrightarrow> k \<in> set (mt_matrices db')
         \<and> filter (\<lambda>x. cl_matrix x = mx_id k) (mt_cells db') = filter (\<lambda>x. cl_matrix x = mx_id k) (mt_cells db))
    \<and> (\<forall>f \<in> set (version_features org (fv_id v) (mt_features db)). \<forall>cand \<in> set (active_candidates org c (mt_search db)).
         \<exists>x. filter (same_cell (mx_id m) (ft_id f) (sc_id cand)) (mt_cells db') = [x]
           \<and> (cl_edited x \<or> cl_result x = compare f cand))"
proof -
  have well: "well_compared db" by (rule matrix_run_well [OF assms(1)])
  then have d: "distinct (map mx_id (mt_matrices db))" "distinct (map (\<lambda>m. (mx_case m, mx_version m)) (mt_matrices db))"
    by (simp_all add: well_compared_def)
  obtain v mid where r: "rebuilt compare fresh now org c db db' v mid" using generated [OF assms(2,3) d] by blast
  let ?rows = "pair_rows compare fresh 1 now org c mid (pairs_of org c (fv_id v) db)"
  have g: "working_version org c (mt_features db) = Some v" "mt_cells db' = fold upsert_cell ?rows (mt_cells db)"
      "(mid, c, fv_id v) \<in> matrix_key ` set (mt_matrices db')" "\<forall>m \<in> set (mt_matrices db'). mx_id m = mid \<longrightarrow> mx_status m = ''draft''"
    using r unfolding rebuilt_def by blast+
  obtain m where m: "m \<in> set (mt_matrices db')" "mx_id m = mid" "mx_case m = c" "mx_version m = fv_id v"
    using g(3) by (auto simp: matrix_key_def)
  have dk: "distinct (map cell_key (mt_cells db'))" using generated_well [OF assms(2,3) well] by (simp add: well_compared_def)
  have dr: "distinct (map cell_key ?rows)" unfolding pair_rows_keys by (rule working_pairs [OF well])
  have "\<exists>x. filter (same_cell mid (ft_id f) (sc_id cand)) (mt_cells db') = [x] \<and> (cl_edited x \<or> cl_result x = compare f cand)"
    if "f \<in> set (version_features org (fv_id v) (mt_features db))" "cand \<in> set (active_candidates org c (mt_search db))" for f cand
  proof -
    have "(f, cand) \<in> set (pairs_of org c (fv_id v) db)" using that by (simp add: pairs_of_def)
    from pair_rows_has [OF this] obtain row where row: "row \<in> set ?rows" "cell_key row = (mid, ft_id f, sc_id cand)"
      "cl_result row = compare f cand" by blast
    obtain x where x: "x \<in> set (mt_cells db')" "cell_key x = cell_key row" "cl_edited x \<or> cl_result x = cl_result row"
      using fold_upsert_writes [OF dr row(1), of "mt_cells db"] unfolding g(2) by blast
    have "filter (same_cell mid (ft_id f) (sc_id cand)) (mt_cells db') = [x]"
      using filter_single_key [OF dk x(1)] x(2) row(2) by (simp add: same_cell_key [abs_def])
    with x(3) row(3) show ?thesis by simp
  qed
  moreover have "x \<in> set (mt_cells db')" if "x \<in> set (mt_cells db)" "cl_edited x" for x
    unfolding g(2) using that by (intro fold_upsert_keeps) simp_all
  moreover have others: "filter (\<lambda>x. cl_matrix x \<noteq> mid) (mt_cells db') = filter (\<lambda>x. cl_matrix x \<noteq> mid) (mt_cells db)"
    unfolding g(2) by (rule fold_upsert_elsewhere) (use pair_rows_of in blast)
  moreover have "k \<in> set (mt_matrices db')
      \<and> filter (\<lambda>x. cl_matrix x = mx_id k) (mt_cells db') = filter (\<lambda>x. cl_matrix x = mx_id k) (mt_cells db)"
    if "k \<in> set (mt_matrices db)" "mx_status k = ''confirmed''" for k
    by (rule rebuilt_other [OF r that(1)]) (use assms(4) [OF g(1) that(1)] that(2) in blast)
  ultimately show ?thesis using g m by (intro exI [of _ v] exI [of _ m] conjI) simp_all
qed

section \<open>The verdict on the active matrix\<close>

lemma active_matrix_ok:
  assumes "well_compared db" and "get_active_matrix org c db = Some vw"
  shows "matrix_ok (map ft_id (vw_features vw)) (map item_of_cell (vw_cells vw))"
proof -
  obtain m where m: "active_matrix org c db = Some m"
    using assms(2) by (cases "active_matrix org c db") (auto simp: get_active_matrix_def)
  have vw: "vw_features vw = version_features org (mx_version m) (mt_features db)" "vw_cells vw = matrix_cells org (mx_id m) db"
    using assms(2) m by (auto simp: get_active_matrix_def Let_def)
  have mem: "m \<in> set (mt_matrices db)"
  proof -
    obtain y ys where ys: "filter (\<lambda>m. mx_case m = c \<and> mx_organization m = org) (mt_matrices db) = y # ys"
        "m = max_key mx_created_at y ys"
      using m by (auto simp: active_matrix_def split: list.splits)
    then have "m \<in> set (filter (\<lambda>m. mx_case m = c \<and> mx_organization m = org) (mt_matrices db))"
      using max_key_mem [of mx_created_at y ys] by simp
    then show ?thesis by simp
  qed
  have inj: "inj_on ft_id (set (fe_features (mt_features db)))" "inj_on mx_id (set (mt_matrices db))"
      "inj_on cell_key (set (mt_cells db))" "distinct (fe_features (mt_features db))" "distinct (mt_cells db)"
    using assms(1) by (simp_all add: well_compared_def well_featured_def distinct_map)
  have "distinct (map ft_id (vw_features vw))"
    using inj(1,4) by (auto simp: vw version_features_def distinct_map intro: inj_on_subset)
  moreover have "distinct (map (\<lambda>i. (mi_feature i, mi_candidate i)) (map item_of_cell (vw_cells vw)))"
  proof -
    have "inj_on (\<lambda>x. (cl_feature x, cl_candidate x)) (set (matrix_cells org (mx_id m) db))"
      using inj(3) by (auto simp: inj_on_def cell_key_def matrix_cells_def)
    then show ?thesis using inj(5) by (simp add: vw item_of_cell_def o_def distinct_map matrix_cells_def)
  qed
  moreover have "cl_feature x \<in> ft_id ` set (vw_features vw)" if x: "x \<in> set (vw_cells vw)" for x
  proof -
    have "x \<in> set (mt_cells db)" "cl_matrix x = mx_id m" "cl_organization x = org" using x by (auto simp: vw matrix_cells_def)
    moreover from this obtain m' f where f: "m' \<in> set (mt_matrices db)" "f \<in> set (fe_features (mt_features db))" "mx_id m' = cl_matrix x"
        "ft_id f = cl_feature x" "ft_version f = mx_version m'" "ft_organization f = cl_organization x"
      using assms(1) unfolding well_compared_def grounded_def by blast
    ultimately have "m' = m" using inj(2) mem by (simp add: inj_on_def)
    with f \<open>cl_organization x = org\<close> have "f \<in> set (vw_features vw)" by (simp add: vw version_features_def)
    with f(4) show ?thesis by force
  qed
  ultimately show ?thesis unfolding matrix_ok_def by (auto simp: item_of_cell_def)
qed

text \<open>
  C34: the verdict that is shown for a case is exact.  In every run, for an active matrix whose version has a feature
  and which has a cell (an empty matrix has the verdict unknown), the risk is high
  exactly when one of its candidates discloses, identically or equivalently, every feature of the compared version; it
  is a matter of inventiveness when none does but one discloses a feature; otherwise the features differ.
\<close>

theorem active_matrix_exact:
  assumes "matrix_step\<^sup>*\<^sup>* empty_matrix_db db" and "get_active_matrix org c db = Some vw"
    and "vw_features vw \<noteq> []" and "vw_cells vw \<noteq> []"
  shows "me_risk (vw_evaluation vw) =
    (if \<exists>cand \<in> set (vw_candidates vw). \<forall>f \<in> set (vw_features vw). discloses (map item_of_cell (vw_cells vw)) (fst cand) (ft_id f)
     then High_novelty_risk
     else if \<exists>cand \<in> set (vw_candidates vw). \<exists>f \<in> set (vw_features vw). discloses (map item_of_cell (vw_cells vw)) (fst cand) (ft_id f)
     then Inventiveness_risk else Clear_difference)"
proof -
  have ok: "matrix_ok (map ft_id (vw_features vw)) (map item_of_cell (vw_cells vw))"
    by (rule active_matrix_ok [OF matrix_run_well [OF assms(1)] assms(2)])
  have vw: "vw_evaluation vw = evaluate_matrix (length (map ft_id (vw_features vw))) (vw_candidates vw) (map item_of_cell (vw_cells vw))"
    "vw_candidates vw = map (\<lambda>cand. (cand, publication_of db cand)) (dedup (map cl_candidate (vw_cells vw)))"
    using assms(2) by (auto simp: get_active_matrix_def Let_def split: option.splits)
  have "vw_candidates vw \<noteq> []" using assms(4) unfolding vw(2) by (metis map_is_Nil_conv set_dedup set_empty)
  then show ?thesis using matrix_risk_exact [OF ok] assms(3,4) unfolding vw(1) by simp
qed

section \<open>What is left as it was\<close>

text \<open>Confirming a matrix that does not exist advances the case all the same.\<close>

lemma unknown_matrix_confirms_case:
  assumes "mid \<notin> mx_id ` set (mt_matrices db)" and "confirm_matrix now org c mid actor db = (view, db')"
  shows "mt_matrices db' = mt_matrices db"
    and "x \<in> set (fe_cases (mt_features db')) \<Longrightarrow> ca_id x = c \<Longrightarrow> ca_organization x = org \<Longrightarrow> ca_status x = ''comparisons_confirmed''"
proof -
  have "update_where (\<lambda>m. mx_id m = mid \<and> Q m) f (mt_matrices db) = mt_matrices db" for Q f
    unfolding update_where_def using assms(1) by (intro map_idI) auto
  then show "mt_matrices db' = mt_matrices db" using assms(2) by (auto simp: confirm_matrix_def Let_def)
  show "ca_status x = ''comparisons_confirmed''"
    if x: "x \<in> set (fe_cases (mt_features db'))" "ca_id x = c" "ca_organization x = org"
  proof -
    have "mt_features db' = set_case_status org c ''comparisons_confirmed'' (mt_features db)"
      using assms(2) by (auto simp: confirm_matrix_def Let_def)
    with x(1) have "x \<in> (\<lambda>y. if ca_id y = c \<and> ca_organization y = org then y\<lparr>ca_status := ''comparisons_confirmed''\<rparr> else y) `
        set (fe_cases (mt_features db))"
      by (simp add: set_case_status_def update_where_def)
    then obtain y where "x = (if ca_id y = c \<and> ca_organization y = org then y\<lparr>ca_status := ''comparisons_confirmed''\<rparr> else y)"
      by (rule imageE)
    with x(2,3) show ?thesis by (cases "ca_id y = c \<and> ca_organization y = org") auto
  qed
qed

text \<open>Editing a cell leaves the stored summary of the matrix as the last rebuild wrote it.\<close>

lemma edit_keeps_summary:
  assumes "update_comparison_item org c cid new_judgment location q reason db = Inr (view, db')"
  shows "mt_matrices db' = mt_matrices db"
  using assms unfolding update_comparison_item_def by (auto simp: Let_def split: option.splits if_splits)

section \<open>A run\<close>

lemma matrix_features_run:
  assumes "feature_step\<^sup>*\<^sup>* fs fs'"
  shows "matrix_step\<^sup>*\<^sup>* (empty_matrix_db\<lparr>mt_search := empty_search_db\<lparr>se_features := fs\<rparr>\<rparr>)
    (empty_matrix_db\<lparr>mt_search := empty_search_db\<lparr>se_features := fs'\<rparr>\<rparr>)"
  using assms
proof (induction rule: rtranclp_induct)
  case (step y z)
  have "matrix_step (empty_matrix_db\<lparr>mt_search := empty_search_db\<lparr>se_features := y\<rparr>\<rparr>)
    (empty_matrix_db\<lparr>mt_search := empty_search_db\<lparr>se_features := z\<rparr>\<rparr>)"
    using features_change [of "empty_matrix_db\<lparr>mt_search := empty_search_db\<lparr>se_features := y\<rparr>\<rparr>" z] step(2)
    by (simp add: empty_matrix_db_def)
  with step.IH show ?case by simp
qed simp

lemma sample_search_finds:
  "\<exists>db x t. search_step (empty_search_db\<lparr>se_features := fs\<rparr>) db \<and> se_features db = fs \<and> se_candidates db = [x]
     \<and> se_triage db = [t] \<and> sc_id x = ''x'' \<and> sc_organization x = ''o'' \<and> sc_case x = ''c''"
proof -
  let ?fresh = "\<lambda>i. replicate i (CHR ''x'')" and ?search = "\<lambda>q. Some [sample_found]"
  have norm: "normalize_pub_number (fi_publication sample_found) = [67, 49]"
    by (simp add: sample_found_def normalize_pub_number_def separator_def is_space_def upper_cp_def)
  have "\<exists>r db x t. execute_public_search (\<lambda>_. []) ?fresh ?search 1 2 3 ''o'' ''c'' ''a'' ''epo'' (Some sample_strategy)
      (empty_search_db\<lparr>se_features := fs\<rparr>) = Inr (r, db) \<and> se_features db = fs \<and> se_candidates db = [x] \<and> se_triage db = [t]
        \<and> sc_id x = ''x'' \<and> sc_organization x = ''o'' \<and> sc_case x = ''c''"
    by (simp add: execute_public_search_def sample_strategy_def norm)
      (simp add: sample_found_def score_item_def compute_score_def upsert_candidate_def empty_search_db_def no_plan_def
        candidate_of_def add_snapshot_def start_triage_def)
  then obtain r db x t where e: "execute_public_search (\<lambda>_. []) ?fresh ?search 1 2 3 ''o'' ''c'' ''a'' ''epo'' (Some sample_strategy)
      (empty_search_db\<lparr>se_features := fs\<rparr>) = Inr (r, db)" and db: "se_features db = fs" "se_candidates db = [x]"
      "se_triage db = [t]" "sc_id x = ''x''" "sc_organization x = ''o''" "sc_case x = ''c''" by blast
  have "unused ?fresh 0 (empty_search_db\<lparr>se_features := fs\<rparr>)"
    by (auto simp: unused_def empty_search_db_def inj_def dest: arg_cong [of _ _ length])
  then have "collects ''o'' ''c'' ((\<lambda>i. normalize_pub_number (fi_publication i)) ` set [sample_found]) (empty_search_db\<lparr>se_features := fs\<rparr>) db"
    by (intro searched [OF e]) simp_all
  then have "search_step (empty_search_db\<lparr>se_features := fs\<rparr>) db" by (rule collect_step)
  with db show ?thesis by blast
qed

definition sample_result :: comparison_result where
  "sample_result = \<lparr>cr_judgment = ''identical'', cr_confidence = 95, cr_location = [], cr_quote = [], cr_reasoning = Written []\<rparr>"

lemma sample_matrix_run:
  "\<exists>db db' view vw. matrix_step\<^sup>*\<^sup>* empty_matrix_db db
     \<and> generate_or_rebuild_matrix (\<lambda>_ _. sample_result) sample_fresh 1 ''o'' ''c'' db = Inr (view, db')
     \<and> mt_matrices db = [] \<and> get_active_matrix ''o'' ''c'' db' = Some vw
     \<and> vw_features vw \<noteq> [] \<and> vw_cells vw \<noteq> []"
proof -
  obtain s x t where s: "search_step (empty_search_db\<lparr>se_features := sample_drafted\<rparr>) s" "se_features s = sample_drafted"
      "se_candidates s = [x]" "se_triage s = [t]" "sc_id x = ''x''" "sc_organization x = ''o''" "sc_case x = ''c''"
    using sample_search_finds [of sample_drafted] by blast
  define db where "db = empty_matrix_db\<lparr>mt_search := s\<rparr>"
  have "matrix_step\<^sup>*\<^sup>* empty_matrix_db (empty_matrix_db\<lparr>mt_search := empty_search_db\<lparr>se_features := sample_drafted\<rparr>\<rparr>)"
    using matrix_features_run [OF sample_drafted_reached] by (simp add: empty_matrix_db_def empty_search_db_def empty_feature_db_def)
  moreover have "matrix_step (empty_matrix_db\<lparr>mt_search := empty_search_db\<lparr>se_features := sample_drafted\<rparr>\<rparr>) db"
    using triage_change [of "empty_matrix_db\<lparr>mt_search := empty_search_db\<lparr>se_features := sample_drafted\<rparr>\<rparr>" s] s(1,2)
    by (simp add: db_def)
  ultimately have run: "matrix_step\<^sup>*\<^sup>* empty_matrix_db db" by simp
  have v: "working_version ''o'' ''c'' (mt_features db) = Some (new_version ''x'' ''o'' ''c'' ''d'' 1 None drafted_summary)"
    by (simp add: db_def s working_version_def case_versions_def sample_drafted_def new_version_def)
  have f: "version_features ''o'' ''x'' (mt_features db) = fe_features sample_drafted"
    by (simp add: db_def s version_features_def sample_drafted_def)
  have c: "matrix_candidates ''o'' ''c'' (mt_search db) = [x]" "active_candidates ''o'' ''c'' (mt_search db) = [x]"
    by (simp_all add: db_def s matrix_candidates_def active_candidates_def)
  have "\<exists>view db' vw. generate_or_rebuild_matrix (\<lambda>_ _. sample_result) sample_fresh 1 ''o'' ''c'' db = Inr (view, db')
     \<and> get_active_matrix ''o'' ''c'' db' = Some vw \<and> vw_features vw \<noteq> [] \<and> vw_cells vw \<noteq> []"
    using v f c
    by (simp add: generate_or_rebuild_matrix_def new_version_def)
      (simp add: db_def empty_matrix_db_def upsert_matrix_def sample_drafted_def upsert_cell_def
        get_active_matrix_def active_matrix_def update_where_def matrix_cells_def s cell_of_def Let_def)
  then show ?thesis using run by (auto simp: db_def empty_matrix_db_def)
qed

theorem rebuild_keeps_edits_witness:
  "\<exists>db view db' m. generate_or_rebuild_matrix (\<lambda>_ _. sample_result) sample_fresh 1 ''o'' ''c'' db = Inr (view, db')
     \<and> m \<in> set (mt_matrices db') \<and> mx_case m = ''c'' \<and> mx_status m = ''draft''"
proof -
  obtain db view db' where run: "matrix_step\<^sup>*\<^sup>* empty_matrix_db db"
      "generate_or_rebuild_matrix (\<lambda>_ _. sample_result) sample_fresh 1 ''o'' ''c'' db = Inr (view, db')"
      "mt_matrices db = []"
    using sample_matrix_run by blast
  from rebuild_keeps_edits [OF run(1,2)] run(3) obtain m where "m \<in> set (mt_matrices db')" "mx_case m = ''c''" "mx_status m = ''draft''"
    by auto
  with run(2) show ?thesis by blast
qed

theorem active_matrix_exact_witness:
  "\<exists>db vw. get_active_matrix ''o'' ''c'' db = Some vw
     \<and> me_risk (vw_evaluation vw) \<in> {High_novelty_risk, Inventiveness_risk, Clear_difference}"
proof -
  obtain db view db' vw where run: "matrix_step\<^sup>*\<^sup>* empty_matrix_db db"
      "generate_or_rebuild_matrix (\<lambda>_ _. sample_result) sample_fresh 1 ''o'' ''c'' db = Inr (view, db')"
      "mt_matrices db = []" and vw: "get_active_matrix ''o'' ''c'' db' = Some vw"
      "vw_features vw \<noteq> []" "vw_cells vw \<noteq> []"
    using sample_matrix_run by blast
  have "matrix_step\<^sup>*\<^sup>* empty_matrix_db db'" using run(1) generate_step [OF run(2)] run(3) by simp
  from active_matrix_exact [OF this vw] vw(1) show ?thesis by (intro exI [of _ db'] exI [of _ vw]) simp
qed

end
