(* ===== verification/EvidenceReports.thy ===== *)
theory EvidenceReports
  imports Delivery ComparisonMatrix
begin

text \<open>
  \<^verbatim>\<open>reports/services.py\<close> and \<^verbatim>\<open>modules/reports/sealer.py\<close>: freezing the evidence of a case under a root hash, with
  the report that is rendered from it, over the tables of migration 0008; a snapshot is created at the instant it is sealed.  The hash of the canonical text of a payload,
  the rendering, the year and the text of an instant are arguments.
\<close>

section \<open>What is sealed\<close>

record sealed_document =
  sd_document :: string
  sd_number :: "nat option"
  sd_filename :: "ustr option"
  sd_sha256 :: "string option"

record sealed_feature =
  sf_code :: string
  sf_type :: string
  sf_statement :: ustr
  sf_paragraph :: "string option"
  sf_sort :: int

record sealed_search =
  sh_strategy :: string
  sh_keywords :: "(ustr, ustr list) pydict"
  sh_ipcs :: "ipc_class list"
  sh_cnipr :: ustr

record sealed_candidate =
  sk_publication :: ustr
  sk_title :: ustr
  sk_triage :: string
  sk_reason :: "string option"
  sk_notes :: "ustr option"

record sealed_comparison =
  sx_code :: string
  sx_publication :: ustr
  sx_result :: comparison_result
  sx_edited :: bool

record sealed_payload =
  sp_case :: "string \<times> ustr \<times> ustr \<times> ustr"
  sp_document :: sealed_document
  sp_features :: "string \<times> sealed_feature list"
  sp_search :: sealed_search
  sp_candidates :: "sealed_candidate list"
  sp_matrix :: string
  sp_risk_level :: string
  sp_summary :: "matrix_summary option"
  sp_comparisons :: "sealed_comparison list"
  sp_assessment :: assessment_summary
  sp_sealed_at :: string
  sp_sealed_by :: ustr

record evidence_snapshot =
  es_id :: string
  es_organization :: string
  es_case :: string
  es_number :: string
  es_status :: string
  es_root :: string
  es_payload :: sealed_payload
  es_sealed_by :: string
  es_sealed_at :: nat

record report_row =
  rp_id :: string
  rp_organization :: string
  rp_case :: string
  rp_snapshot :: string
  rp_title :: ustr
  rp_content :: ustr
  rp_generated_by :: string
  rp_created_at :: nat

record report_db =
  rd_matrix :: matrix_db
  rd_assessment :: assessment_db
  rd_sources :: "source_document list"
  rd_snapshots :: "evidence_snapshot list"
  rd_reports :: "report_row list"

abbreviation rd_features :: "report_db \<Rightarrow> feature_db" where
  "rd_features db \<equiv> mt_features (rd_matrix db)"

section \<open>Reading the parts\<close>

text \<open>The document version, the confirmed before the others; \<open>str(None)\<close> without one.\<close>

definition document_data :: "string \<Rightarrow> string \<Rightarrow> report_db \<Rightarrow> sealed_document" where
  "document_data org c db =
     (case sort_key (\<lambda>(d, s). (if dv_confirmed d then 1 else 2 :: nat, - int (dv_number d)))
        [(d, s). d \<leftarrow> fe_documents (rd_features db), dv_case d = c \<and> dv_organization d = org,
                 s \<leftarrow> rd_sources db, sd_id s = dv_source d] of
        [] \<Rightarrow> \<lparr>sd_document = ''None'', sd_number = None, sd_filename = None, sd_sha256 = None\<rparr>
      | (d, s) # _ \<Rightarrow> \<lparr>sd_document = dv_id d, sd_number = Some (dv_number d), sd_filename = Some (sd_name s),
                       sd_sha256 = Some (dv_sha256 d)\<rparr>)"

definition confirmed_version :: "string \<Rightarrow> string \<Rightarrow> feature_db \<Rightarrow> feature_version option" where
  "confirmed_version org c db =
     (case filter (\<lambda>v. fv_case v = c \<and> fv_organization v = org \<and> fv_status v = ''confirmed'') (fe_versions db) of
        [] \<Rightarrow> None
      | v # vs \<Rightarrow> Some (max_key fv_number v vs))"

definition sealed_feature_of :: "feature_row \<Rightarrow> sealed_feature" where
  "sealed_feature_of f = \<lparr>sf_code = ft_code f, sf_type = ft_type f, sf_statement = ft_statement f,
     sf_paragraph = ft_paragraph f, sf_sort = ft_sort f\<rparr>"

definition search_data :: "string \<Rightarrow> string \<Rightarrow> search_db \<Rightarrow> sealed_search" where
  "search_data org c db =
     (case get_active_strategy org c db of
        None \<Rightarrow> \<lparr>sh_strategy = ''None'', sh_keywords = [], sh_ipcs = [], sh_cnipr = []\<rparr>
      | Some s \<Rightarrow> \<lparr>sh_strategy = sg_id s, sh_keywords = ps_keywords (sg_plan s), sh_ipcs = ps_ipc_classes (sg_plan s),
                    sh_cnipr = ps_cnipr (sg_plan s)\<rparr>)"

definition candidates_data :: "string \<Rightarrow> string \<Rightarrow> search_db \<Rightarrow> sealed_candidate list" where
  "candidates_data org c db =
     map (\<lambda>x. let t = triage_of (sc_id x) db
              in \<lparr>sk_publication = sc_publication x, sk_title = sc_title x, sk_triage = triage_status_of (sc_id x) db,
                  sk_reason = (case t of None \<Rightarrow> None | Some r \<Rightarrow> tr_reason r),
                  sk_notes = (case t of None \<Rightarrow> None | Some r \<Rightarrow> tr_notes r)\<rparr>)
       (sort_key sc_created_at (filter (\<lambda>x. sc_case x = c \<and> sc_organization x = org) (se_candidates db)))"

text \<open>A confirmed matrix before the others, then the newest.\<close>

definition sealable_matrix :: "string \<Rightarrow> string \<Rightarrow> matrix_db \<Rightarrow> matrix_row option" where
  "sealable_matrix org c db =
     (case sort_key (\<lambda>m. (if mx_status m = ''confirmed'' then 1 else 2 :: nat, - int (mx_created_at m)))
             (filter (\<lambda>m. mx_case m = c \<and> mx_organization m = org) (mt_matrices db)) of
        [] \<Rightarrow> None
      | m # _ \<Rightarrow> Some m)"

definition comparisons_data :: "string \<Rightarrow> string \<Rightarrow> matrix_db \<Rightarrow> sealed_comparison list" where
  "comparisons_data org mid db =
     map (\<lambda>(x, f, cand). \<lparr>sx_code = ft_code f, sx_publication = sc_publication cand, sx_result = cl_result x, sx_edited = cl_edited x\<rparr>)
       (sort_key (\<lambda>(x, f, cand). (ft_sort f, sc_publication cand))
         [(x, f, cand). x \<leftarrow> mt_cells db, cl_matrix x = mid \<and> cl_organization x = org,
                        f \<leftarrow> fe_features (mt_features db), ft_id f = cl_feature x,
                        cand \<leftarrow> se_candidates (mt_search db), sc_id cand = cl_candidate x])"

text \<open>
  The facts of the newest assessment version.  For a version that exists, the decisions are selected by a column
  \<open>version_id\<close>, which the table of migration 0014 does not have.
\<close>

definition missing_column :: http_error where
  "missing_column = Http 500 ''UndefinedColumnError''"

definition latest_assessment_facts :: "string \<Rightarrow> string \<Rightarrow> assessment_db \<Rightarrow> (http_error, assessment_summary) result" where
  "latest_assessment_facts org c db =
     (case AssessService.list_versions db org c of
        [] \<Rightarrow> Inr no_summary
      | v # _ \<Rightarrow> Inl missing_column)"

section \<open>Sealing\<close>

definition upper_char :: "char \<Rightarrow> char" where
  "upper_char ch = (if CHR ''a'' \<le> ch \<and> ch \<le> CHR ''z'' then char_of (of_char ch - 32 :: nat) else ch)"

text \<open>The running number of a snapshot: two digits at least.\<close>

definition sequence_text :: "nat \<Rightarrow> string" where
  "sequence_text n = pad 2 (str_nat n)"

definition snapshot_number :: "nat \<Rightarrow> string \<Rightarrow> nat \<Rightarrow> string" where
  "snapshot_number year c n =
     ''SNAP-'' @ str_nat year @ ''-'' @ map upper_char (take 8 c) @ ''-'' @ sequence_text n"

text \<open>The title: the name of the report and the number of the case in parentheses.\<close>

definition report_title :: "ustr \<Rightarrow> ustr" where
  "report_title number =
     [19987, 21033, 35777, 25454, 20998, 26512, 19982, 27861, 24459, 35780, 20272, 25253, 21578, 32, 40] @ number @ [41]"

definition get_active_snapshot :: "string \<Rightarrow> string \<Rightarrow> report_db \<Rightarrow> (evidence_snapshot \<times> report_row option) option" where
  "get_active_snapshot org c db =
     (case filter (\<lambda>s. es_case s = c \<and> es_organization s = org) (rd_snapshots db) of
        [] \<Rightarrow> None
      | s # ss \<Rightarrow> let t = max_key es_sealed_at s ss
                  in Some (t, find (\<lambda>r. rp_snapshot r = es_id t) (rd_reports db)))"

definition set_status :: "string \<Rightarrow> string \<Rightarrow> string \<Rightarrow> report_db \<Rightarrow> report_db" where
  "set_status org c status db =
     db\<lparr>rd_matrix := (rd_matrix db)\<lparr>mt_search := se_features_update (set_case_status org c status) (mt_search (rd_matrix db))\<rparr>\<rparr>"

definition seal :: "(sealed_payload \<Rightarrow> string) \<Rightarrow> sealed_payload \<Rightarrow> sealed_payload \<times> string" where
  "seal digest payload = (payload, digest payload)"

definition seal_evidence_snapshot :: "(sealed_payload \<Rightarrow> string) \<Rightarrow> (sealed_payload \<Rightarrow> string \<Rightarrow> ustr) \<Rightarrow> (nat \<Rightarrow> nat) \<Rightarrow> (nat \<Rightarrow> string)
    \<Rightarrow> string \<Rightarrow> string \<Rightarrow> nat \<Rightarrow> string \<Rightarrow> string \<Rightarrow> string \<Rightarrow> ustr \<Rightarrow> report_db
    \<Rightarrow> (http_error, (evidence_snapshot \<times> report_row option) option \<times> report_db) result" where
  "seal_evidence_snapshot digest render year_of iso_time fresh_snapshot fresh_report now org c actor email db =
     (case find_case org c (rd_features db) of
        None \<Rightarrow> Inl (Http 404 ''case_not_found'')
      | Some row \<Rightarrow>
          (case confirmed_version org c (rd_features db) of
             None \<Rightarrow> Inl (Http 400 ''no_confirmed_feature_version'')
           | Some v \<Rightarrow>
               (case sealable_matrix org c (rd_matrix db) of
                  None \<Rightarrow> Inl (Http 400 ''no_comparison_matrix_available_generate_first'')
                | Some m \<Rightarrow>
                    bind_result (latest_assessment_facts org c (rd_assessment db)) (\<lambda>facts.
                      let (payload, root) = seal digest
                            \<lparr>sp_case = (ca_id row, ca_number row, ca_title row, ca_field row),
                             sp_document = document_data org c db,
                             sp_features = (fv_id v, map sealed_feature_of (version_features org (fv_id v) (rd_features db))),
                             sp_search = search_data org c (mt_search (rd_matrix db)),
                             sp_candidates = candidates_data org c (mt_search (rd_matrix db)),
                             sp_matrix = mx_id m, sp_risk_level = [], sp_summary = mx_summary m,
                             sp_comparisons = comparisons_data org (mx_id m) (rd_matrix db),
                             sp_assessment = facts, sp_sealed_at = iso_time now, sp_sealed_by = email\<rparr>;
                          n = length (filter (\<lambda>s. es_case s = c \<and> es_organization s = org) (rd_snapshots db)) + 1;
                          snapshot = \<lparr>es_id = fresh_snapshot, es_organization = org, es_case = c,
                            es_number = snapshot_number (year_of now) c n, es_status = ''sealed'', es_root = root,
                            es_payload = payload, es_sealed_by = actor, es_sealed_at = now\<rparr>;
                          report = \<lparr>rp_id = fresh_report, rp_organization = org, rp_case = c, rp_snapshot = fresh_snapshot,
                            rp_title = report_title (ca_number row), rp_content = render payload root,
                            rp_generated_by = actor, rp_created_at = now\<rparr>;
                          db' = (set_status org c ''completed'' db)\<lparr>rd_snapshots := rd_snapshots db @ [snapshot],
                            rd_reports := rd_reports db @ [report]\<rparr>
                      in Inr (get_active_snapshot org c db', db')))))"

end
