(* ===== verification/CaseReview.thy ===== *)
theory CaseReview
  imports EvidenceReports
begin

text \<open>
  \<^verbatim>\<open>review/services.py\<close>, \<^verbatim>\<open>review/api.py\<close> and \<^verbatim>\<open>modules/review/workflow.py\<close>: rounds of review of a case, their
  decisions, delivery to the client and the difference of two rounds, over the tables of migration 0010.  The hash
  function, the random part of a token, fresh identifiers and the text of an instant are arguments.
\<close>

section \<open>Tables\<close>

record review_submission =
  sb_id :: string
  sb_organization :: string
  sb_case :: string
  sb_round :: nat
  sb_snapshot :: "string option"
  sb_report :: "string option"
  sb_submitter :: "string option"
  sb_notes :: ustr
  sb_status :: string
  sb_created_at :: nat

record feedback_item =
  fb_feature :: string
  fb_code :: string
  fb_comment :: ustr
  fb_suggested :: "string option"

record review_decision =
  dc_id :: string
  dc_organization :: string
  dc_submission :: string
  dc_case :: string
  dc_reviewer :: "string option"
  dc_decision :: string
  dc_comments :: ustr
  dc_feedback :: "feedback_item list"
  dc_self_audit :: bool
  dc_signature :: string
  dc_created_at :: nat

record delivery_record =
  dy_id :: string
  dy_organization :: string
  dy_case :: string
  dy_submission :: "string option"
  dy_snapshot :: "string option"
  dy_report :: "string option"
  dy_delivered_by :: "string option"
  dy_client :: ustr
  dy_token :: string
  dy_delivered_at :: nat

record review_db =
  rw_reports :: report_db
  rw_submissions :: "review_submission list"
  rw_decisions :: "review_decision list"
  rw_deliveries :: "delivery_record list"

section \<open>The workflow engine\<close>

definition decision_text :: "string \<Rightarrow> string \<Rightarrow> string \<Rightarrow> string \<Rightarrow> string \<Rightarrow> string \<Rightarrow> string" where
  "decision_text submission c reviewer decision root_hash decided_at =
     ''submission:'' @ submission @ ''|case:'' @ c @ ''|reviewer:'' @ reviewer @ ''|decision:'' @ decision
     @ ''|merkle_root:'' @ root_hash @ ''|timestamp:'' @ decided_at"

definition generate_decision_signature :: "(string \<Rightarrow> string) \<Rightarrow> string \<Rightarrow> string \<Rightarrow> string \<Rightarrow> string \<Rightarrow> string \<Rightarrow> string \<Rightarrow> string" where
  "generate_decision_signature sha256 submission c reviewer decision root_hash decided_at =
     sha256 (decision_text submission c reviewer decision root_hash decided_at)"

definition generate_download_token :: "(string \<Rightarrow> string) \<Rightarrow> string \<Rightarrow> string \<Rightarrow> string \<Rightarrow> string" where
  "generate_download_token sha256 random c org = ''dlv_'' @ take 48 (sha256 (c @ '':'' @ org @ '':'' @ random))"

text \<open>
  An item of a comparison as the difference reads it; a missing key reads as \<open>None\<close>.  At least one of its keys is
  present, because an empty dict would count as no item.
\<close>

record revision_item =
  ri_feature :: "string option"
  ri_candidate :: "string option"
  ri_judgment :: "string option"
  ri_citation_text :: "ustr option"

datatype revision_change =
    Item_added "string option" "string option" "string option"
  | Judgment_modified "string option" "string option" "string option" "string option"
  | Citation_modified "string option" "string option" "ustr option" "ustr option"

definition none_text :: "string option \<Rightarrow> string" where
  "none_text x = (case x of None \<Rightarrow> ''None'' | Some s \<Rightarrow> s)"

definition revision_key :: "revision_item \<Rightarrow> string" where
  "revision_key i = none_text (ri_feature i) @ ''_'' @ none_text (ri_candidate i)"

text \<open>A later item of the earlier round replaces one under the same key.\<close>

definition previous_item :: "revision_item list \<Rightarrow> string \<Rightarrow> revision_item option" where
  "previous_item previous key = find (\<lambda>i. revision_key i = key) (rev previous)"

definition item_changes :: "revision_item list \<Rightarrow> revision_item \<Rightarrow> revision_change list" where
  "item_changes previous cur =
     (case previous_item previous (revision_key cur) of
        None \<Rightarrow> [Item_added (ri_feature cur) (ri_candidate cur) (ri_judgment cur)]
      | Some prev \<Rightarrow>
          (if ri_judgment prev \<noteq> ri_judgment cur
           then [Judgment_modified (ri_feature cur) (ri_candidate cur) (ri_judgment prev) (ri_judgment cur)] else []) @
          (if ri_citation_text prev \<noteq> ri_citation_text cur
           then [Citation_modified (ri_feature cur) (ri_candidate cur) (ri_citation_text prev) (ri_citation_text cur)] else []))"

definition compute_revision_diff :: "revision_item list \<Rightarrow> revision_item list \<Rightarrow> revision_change list" where
  "compute_revision_diff previous current = concat (map (item_changes previous) current)"

section \<open>Submitting and reading\<close>

definition case_snapshots :: "string \<Rightarrow> string \<Rightarrow> report_db \<Rightarrow> evidence_snapshot list" where
  "case_snapshots org c db = filter (\<lambda>s. es_case s = c \<and> es_organization s = org) (rd_snapshots db)"

definition case_reports :: "string \<Rightarrow> string \<Rightarrow> report_db \<Rightarrow> report_row list" where
  "case_reports org c db = filter (\<lambda>r. rp_case r = c \<and> rp_organization r = org) (rd_reports db)"

text \<open>\<open>ORDER BY ... DESC LIMIT 1\<close>.\<close>

definition case_submissions :: "string \<Rightarrow> string \<Rightarrow> review_db \<Rightarrow> review_submission list" where
  "case_submissions org c db = filter (\<lambda>s. sb_case s = c \<and> sb_organization s = org) (rw_submissions db)"

definition next_round :: "string \<Rightarrow> string \<Rightarrow> review_db \<Rightarrow> nat" where
  "next_round org c db =
     (case latest_by (\<lambda>n. n) (map sb_round (case_submissions org c db)) of None \<Rightarrow> 1 | Some n \<Rightarrow> n + 1)"

definition submit_case_for_review :: "string \<Rightarrow> nat \<Rightarrow> string \<Rightarrow> string \<Rightarrow> string \<Rightarrow> ustr \<Rightarrow> review_db
    \<Rightarrow> (http_error, review_submission \<times> review_db) result" where
  "submit_case_for_review fresh now org c actor remarks db =
     (case find_case org c (rd_features (rw_reports db)) of
        None \<Rightarrow> Inl (Http 404 ''case_not_found'')
      | Some _ \<Rightarrow>
          let s = \<lparr>sb_id = fresh, sb_organization = org, sb_case = c, sb_round = next_round org c db,
                sb_snapshot = map_option es_id (latest_by es_sealed_at (case_snapshots org c (rw_reports db))),
                sb_report = map_option rp_id (latest_by rp_created_at (case_reports org c (rw_reports db))),
                sb_submitter = Some actor, sb_notes = remarks, sb_status = ''pending'', sb_created_at = now\<rparr>
          in Inr (s, db\<lparr>rw_submissions := rw_submissions db @ [s],
                       rw_reports := set_status org c ''in_review'' (rw_reports db)\<rparr>))"

definition snapshot_root :: "string option \<Rightarrow> report_db \<Rightarrow> string option" where
  "snapshot_root snapshot db =
     (case snapshot of
        None \<Rightarrow> None
      | Some i \<Rightarrow> map_option es_root (find (\<lambda>s. es_id s = i) (rd_snapshots db)))"

definition decisions_on :: "review_submission \<Rightarrow> review_db \<Rightarrow> review_decision list" where
  "decisions_on s db = filter (\<lambda>d. dc_submission d = sb_id s) (rw_decisions db)"

definition get_current_review :: "string \<Rightarrow> string \<Rightarrow> review_db
    \<Rightarrow> (review_submission \<times> review_decision option \<times> string option) option" where
  "get_current_review org c db =
     map_option (\<lambda>s. (s, (case decisions_on s db of [] \<Rightarrow> None | d # _ \<Rightarrow> Some d), snapshot_root (sb_snapshot s) (rw_reports db)))
       (latest_by sb_round (case_submissions org c db))"

definition list_review_history :: "string \<Rightarrow> string \<Rightarrow> review_db \<Rightarrow> (review_submission \<times> review_decision option) list" where
  "list_review_history org c db =
     concat (map (\<lambda>s. case decisions_on s db of [] \<Rightarrow> [(s, None)] | ds \<Rightarrow> map (\<lambda>d. (s, Some d)) ds)
       (sort_key sb_round (case_submissions org c db)))"

section \<open>Deciding\<close>

definition zero_root :: string where
  "zero_root = replicate 64 (CHR ''0'')"

text \<open>\<open>root or zeros\<close>: an empty root counts as none.\<close>

definition signed_root :: "string option \<Rightarrow> string" where
  "signed_root sealed = (case sealed of None \<Rightarrow> zero_root | Some r \<Rightarrow> if r = [] then zero_root else r)"

definition decided_status :: "string \<Rightarrow> string" where
  "decided_status decision =
     (if decision = ''approved'' then ''approved''
      else if decision = ''changes_requested'' then ''changes_requested'' else ''draft'')"

definition record_review_decision :: "(string \<Rightarrow> string) \<Rightarrow> (nat \<Rightarrow> string) \<Rightarrow> string \<Rightarrow> nat \<Rightarrow> string \<Rightarrow> string \<Rightarrow> string
    \<Rightarrow> string \<Rightarrow> string \<Rightarrow> ustr \<Rightarrow> feedback_item list \<Rightarrow> bool \<Rightarrow> review_db
    \<Rightarrow> (http_error, review_decision \<times> review_db) result" where
  "record_review_decision sha256 iso_time fresh now org c sid actor decision comments feedback self_audit db =
     (if decision \<notin> {''approved'', ''changes_requested'', ''rejected''} then Inl (Http 422 ''invalid_decision_type'')
      else
        (case find (\<lambda>s. sb_id s = sid \<and> sb_case s = c \<and> sb_organization s = org) (rw_submissions db) of
           None \<Rightarrow> Inl (Http 404 ''review_submission_not_found'')
         | Some s \<Rightarrow>
             let d = \<lparr>dc_id = fresh, dc_organization = org, dc_submission = sid, dc_case = c, dc_reviewer = Some actor,
                   dc_decision = decision, dc_comments = comments, dc_feedback = feedback,
                   dc_self_audit = (self_audit \<or> sb_submitter s = Some actor),
                   dc_signature = generate_decision_signature sha256 sid c actor decision
                     (signed_root (snapshot_root (sb_snapshot s) (rw_reports db))) (iso_time now),
                   dc_created_at = now\<rparr>
             in Inr (d, db\<lparr>rw_decisions := rw_decisions db @ [d],
                          rw_submissions := update_where (\<lambda>x. sb_id x = sid \<and> sb_organization x = org)
                            (sb_status_update (\<lambda>_. decision)) (rw_submissions db),
                          rw_reports := set_status org c (decided_status decision) (rw_reports db)\<rparr>)))"

text \<open>The route decides on the newest submission, which it reads in a transaction of its own.\<close>

definition record_case_review_decision where
  "record_case_review_decision sha256 iso_time fresh now org c actor decision comments feedback self_audit db =
     (case get_current_review org c db of
        None \<Rightarrow> Inl (Http 404 ''no_active_review_submission'')
      | Some (s, _) \<Rightarrow>
          record_review_decision sha256 iso_time fresh now org c (sb_id s) actor decision comments feedback self_audit db)"

section \<open>Delivering\<close>

definition deliver_case :: "(string \<Rightarrow> string) \<Rightarrow> string \<Rightarrow> string \<Rightarrow> nat \<Rightarrow> string \<Rightarrow> string \<Rightarrow> string \<Rightarrow> ustr \<Rightarrow> review_db
    \<Rightarrow> (http_error, delivery_record \<times> review_db) result" where
  "deliver_case sha256 random fresh now org c actor client db =
     (case find_case org c (rd_features (rw_reports db)) of
        None \<Rightarrow> Inl (Http 404 ''case_not_found'')
      | Some _ \<Rightarrow>
          let sub = latest_by sb_round (case_submissions org c db);
              y = \<lparr>dy_id = fresh, dy_organization = org, dy_case = c, dy_submission = map_option sb_id sub,
                   dy_snapshot = Option.bind sub sb_snapshot, dy_report = Option.bind sub sb_report,
                   dy_delivered_by = Some actor, dy_client = client,
                   dy_token = generate_download_token sha256 random c org, dy_delivered_at = now\<rparr>
          in Inr (y, db\<lparr>rw_deliveries := rw_deliveries db @ [y],
                       rw_reports := set_status org c ''delivered'' (rw_reports db)\<rparr>))"

definition as_http :: "service_error \<Rightarrow> http_error" where
  "as_http e = (case e of Http_error n s \<Rightarrow> Http n s | _ \<Rightarrow> Http 500 [])"

text \<open>The route: the gate, then the delivery, in one transaction.\<close>

definition deliver_case_route where
  "deliver_case_route sha256 random fresh now org c actor client db =
     (case assert_delivery_gate (rd_assessment (rw_reports db)) org c of
        Inl e \<Rightarrow> Inl (as_http e)
      | Inr _ \<Rightarrow> deliver_case sha256 random fresh now org c actor client db)"

end
