(* ===== verification/ReviewSafety.thy ===== *)
theory ReviewSafety
  imports CaseReview DeliveryGate
begin

text \<open>
  Sealing, review and delivery of a case as a step relation beside the assessment service: what a snapshot
  proves, what a decision records, and what reaches a client.
\<close>

section \<open>Steps\<close>

text \<open>
  The fixed arguments: the hash of a sealed payload, the rendering, the year and text of an instant, the hash of a
  text, and the digest of an assessment package.  \<open>work_step\<close> stands for everything else that happens to a case.
\<close>

record review_env =
  en_digest :: "sealed_payload \<Rightarrow> string"
  en_render :: "sealed_payload \<Rightarrow> string \<Rightarrow> ustr"
  en_year :: "nat \<Rightarrow> nat"
  en_iso :: "nat \<Rightarrow> string"
  en_sha256 :: "string \<Rightarrow> string"
  en_package :: "assessment_package \<Rightarrow> string"

inductive review_step :: "review_env \<Rightarrow> review_db \<Rightarrow> review_db \<Rightarrow> bool" for env where
  seal_step: "seal_evidence_snapshot (en_digest env) (en_render env) (en_year env) (en_iso env) i j now org c actor email
      (rw_reports db) = Inr (view, r) \<Longrightarrow>
    i \<notin> es_id ` set (rd_snapshots (rw_reports db)) \<Longrightarrow> j \<notin> rp_id ` set (rd_reports (rw_reports db)) \<Longrightarrow>
    review_step env db (db\<lparr>rw_reports := r\<rparr>)"
| round_step: "submit_case_for_review i now org c actor remarks db = Inr (s, db') \<Longrightarrow> i \<notin> sb_id ` set (rw_submissions db) \<Longrightarrow>
    review_step env db db'"
| decision_step: "record_review_decision (en_sha256 env) (en_iso env) i now org c sid actor decision comments feedback self_audit db
      = Inr (d, db') \<Longrightarrow> review_step env db db'"
| delivery_step: "deliver_case_route (en_sha256 env) random i now org c actor client db = Inr (y, db') \<Longrightarrow> review_step env db db'"
| assessment_step: "service_step (en_package env) (en_sha256 env) (rd_assessment (rw_reports db)) a \<Longrightarrow>
    review_step env db (db\<lparr>rw_reports := (rw_reports db)\<lparr>rd_assessment := a\<rparr>\<rparr>)"
| work_step: "review_step env db (db\<lparr>rw_reports := (rw_reports db)\<lparr>rd_matrix := m, rd_sources := ss\<rparr>\<rparr>)"

definition empty_review_db :: "(string \<times> string) list \<Rightarrow> matrix_db \<Rightarrow> review_db" where
  "empty_review_db cases m =
     \<lparr>rw_reports = \<lparr>rd_matrix = m, rd_assessment = initial_db cases, rd_sources = [], rd_snapshots = [], rd_reports = []\<rparr>,
      rw_submissions = [], rw_decisions = [], rw_deliveries = []\<rparr>"

definition review_run :: "review_env \<Rightarrow> review_db \<Rightarrow> bool" where
  "review_run env db \<longleftrightarrow> (\<exists>cases m. (review_step env)\<^sup>*\<^sup>* (empty_review_db cases m) db)"

section \<open>The invariant\<close>

text \<open>A report is the rendering of its snapshot, whose root is the hash of its payload.\<close>

definition renders :: "review_env \<Rightarrow> evidence_snapshot \<Rightarrow> report_row \<Rightarrow> bool" where
  "renders env s r \<longleftrightarrow> rp_snapshot r = es_id s \<and> rp_organization r = es_organization s \<and> rp_case r = es_case s
     \<and> rp_created_at r = es_sealed_at s \<and> es_root s = en_digest env (es_payload s)
     \<and> rp_content r = en_render env (es_payload s) (es_root s) \<and> sp_assessment (es_payload s) = no_summary"

definition reports_ok :: "review_env \<Rightarrow> report_db \<Rightarrow> bool" where
  "reports_ok env db \<longleftrightarrow> list_all2 (renders env) (rd_snapshots db) (rd_reports db)
     \<and> distinct (map es_id (rd_snapshots db)) \<and> distinct (map rp_id (rd_reports db))"

text \<open>Nothing at all, or a snapshot of the case with its own report.\<close>

definition sealed_pair :: "report_db \<Rightarrow> string \<Rightarrow> string \<Rightarrow> string option \<Rightarrow> string option \<Rightarrow> bool" where
  "sealed_pair db org c snapshot report \<longleftrightarrow> snapshot = None \<and> report = None
     \<or> (\<exists>s r. (s, r) \<in> set (zip (rd_snapshots db) (rd_reports db)) \<and> snapshot = Some (es_id s) \<and> report = Some (rp_id r)
          \<and> es_organization s = org \<and> es_case s = c)"

definition signed :: "review_env \<Rightarrow> review_db \<Rightarrow> review_decision \<Rightarrow> bool" where
  "signed env db d \<longleftrightarrow> (\<exists>s \<in> set (rw_submissions db). \<exists>actor decided_at.
     sb_id s = dc_submission d \<and> sb_organization s = dc_organization d \<and> sb_case s = dc_case d
     \<and> dc_reviewer d = Some actor \<and> (sb_submitter s = Some actor \<longrightarrow> dc_self_audit d)
     \<and> dc_decision d \<in> {''approved'', ''changes_requested'', ''rejected''}
     \<and> dc_signature d = en_sha256 env (decision_text (dc_submission d) (dc_case d) actor (dc_decision d)
          (signed_root (snapshot_root (sb_snapshot s) (rw_reports db))) (en_iso env decided_at)) \<and> dc_created_at d = decided_at)"

definition rounds_ok :: "review_db \<Rightarrow> bool" where
  "rounds_ok db \<longleftrightarrow> (\<forall>org c. map sb_round (case_submissions org c db) = [1..<Suc (length (case_submissions org c db))])"

text \<open>A version of the case without a blocker for which an approval is on record.\<close>

definition approved_clean :: "assessment_db \<Rightarrow> string \<Rightarrow> string \<Rightarrow> bool" where
  "approved_clean a org c \<longleftrightarrow> (\<exists>v \<in> set (versions_table a). vr_organization_id v = org \<and> vr_case_id v = c \<and> vr_blockers v = []
     \<and> (\<exists>r \<in> set (reviews_table a). rr_organization_id r = org \<and> dr_version_id (rr_decision r) = vr_id v
          \<and> dr_decision (rr_decision r) = ''approved''))"

definition delivered_ok :: "review_db \<Rightarrow> delivery_record \<Rightarrow> bool" where
  "delivered_ok db y \<longleftrightarrow> sealed_pair (rw_reports db) (dy_organization y) (dy_case y) (dy_snapshot y) (dy_report y)
     \<and> approved_clean (rd_assessment (rw_reports db)) (dy_organization y) (dy_case y)"

definition review_inv :: "review_env \<Rightarrow> review_db \<Rightarrow> bool" where
  "review_inv env db \<longleftrightarrow> reports_ok env (rw_reports db)
     \<and> reachable (en_package env) (en_sha256 env) (rd_assessment (rw_reports db))
     \<and> (\<forall>s \<in> set (rw_submissions db). sealed_pair (rw_reports db) (sb_organization s) (sb_case s) (sb_snapshot s) (sb_report s))
     \<and> distinct (map sb_id (rw_submissions db)) \<and> rounds_ok db
     \<and> (\<forall>d \<in> set (rw_decisions db). signed env db d)
     \<and> (\<forall>y \<in> set (rw_deliveries db). delivered_ok db y)"

section \<open>What only grows\<close>

definition extends :: "report_db \<Rightarrow> report_db \<Rightarrow> bool" where
  "extends db db' \<longleftrightarrow> (\<exists>xs ys. rd_snapshots db' = rd_snapshots db @ xs \<and> rd_reports db' = rd_reports db @ ys
     \<and> length (rd_snapshots db) = length (rd_reports db))
     \<and> set (versions_table (rd_assessment db)) \<subseteq> set (versions_table (rd_assessment db'))
     \<and> set (reviews_table (rd_assessment db)) \<subseteq> set (reviews_table (rd_assessment db'))"

lemma sealed_pair_extends: "extends db db' \<Longrightarrow> sealed_pair db org c s r \<Longrightarrow> sealed_pair db' org c s r"
  unfolding extends_def sealed_pair_def by fastforce

lemma approved_clean_extends:
  "extends db db' \<Longrightarrow> approved_clean (rd_assessment db) org c \<Longrightarrow> approved_clean (rd_assessment db') org c"
  unfolding extends_def approved_clean_def by blast

lemma service_step_grows:
  assumes "service_step digest hash a a'"
  shows "set (versions_table a) \<subseteq> set (versions_table a') \<and> set (reviews_table a) \<subseteq> set (reviews_table a')"
  using assms
proof cases
  case (create_step fresh now org case_id payload extra row)
  then show ?thesis by (auto simp: create_version_def Let_def)
next
  case (submit_step now created org case_id number actor d)
  then show ?thesis by (auto simp: submit_version_Inr insert_decision_def)
next
  case (decide_step now created org case_id number decision reviewer comments accepts d)
  then show ?thesis by (auto simp: decide_version_Inr insert_decision_def)
qed

lemma sealed_facts:
  assumes "seal_evidence_snapshot (en_digest env) (en_render env) (en_year env) (en_iso env) i j now org c actor email db = Inr (view, r)"
  shows "\<exists>s p. rd_snapshots r = rd_snapshots db @ [s] \<and> rd_reports r = rd_reports db @ [p] \<and> renders env s p
    \<and> es_id s = i \<and> rp_id p = j \<and> rd_assessment r = rd_assessment db"
proof -
  obtain row where row: "find_case org c (rd_features db) = Some row"
    using assms by (cases "find_case org c (rd_features db)") (auto simp: seal_evidence_snapshot_def)
  obtain v where v: "confirmed_version org c (rd_features db) = Some v"
    using assms row by (cases "confirmed_version org c (rd_features db)") (auto simp: seal_evidence_snapshot_def)
  obtain m where m: "sealable_matrix org c (rd_matrix db) = Some m"
    using assms row v by (cases "sealable_matrix org c (rd_matrix db)") (auto simp: seal_evidence_snapshot_def)
  have "latest_assessment_facts org c (rd_assessment db) = Inr no_summary"
    using assms row v m
    by (cases "AssessService.list_versions (rd_assessment db) org c") (auto simp: seal_evidence_snapshot_def latest_assessment_facts_def)
  then show ?thesis using assms row v m
    by (auto simp: seal_evidence_snapshot_def seal_def Let_def set_status_def renders_def)
qed

lemma extends_same: "length (rd_snapshots db) = length (rd_reports db) \<Longrightarrow> rd_snapshots db' = rd_snapshots db \<Longrightarrow>
    rd_reports db' = rd_reports db \<Longrightarrow> rd_assessment db' = rd_assessment db \<Longrightarrow> extends db db'"
  by (simp add: extends_def)

lemma set_status_fields [simp]:
  "rd_snapshots (set_status org c st db) = rd_snapshots db" "rd_reports (set_status org c st db) = rd_reports db"
  "rd_assessment (set_status org c st db) = rd_assessment db" "rd_sources (set_status org c st db) = rd_sources db"
  by (simp_all add: set_status_def)

section \<open>A submission pairs a snapshot with its report\<close>

lemma latest_parallel:
  assumes "list_all2 (renders env) ss rs"
  shows "case latest_by es_sealed_at (filter (\<lambda>s. es_case s = c \<and> es_organization s = org) ss) of
      None \<Rightarrow> latest_by rp_created_at (filter (\<lambda>r. rp_case r = c \<and> rp_organization r = org) rs) = None
    | Some s \<Rightarrow> (\<exists>r. latest_by rp_created_at (filter (\<lambda>r. rp_case r = c \<and> rp_organization r = org) rs) = Some r
        \<and> (s, r) \<in> set (zip ss rs) \<and> es_organization s = org \<and> es_case s = c)"
proof -
  let ?ps = "filter (\<lambda>(s, r). es_case s = c \<and> es_organization s = org) (zip ss rs)"
  have len: "length ss = length rs" using assms by (rule list_all2_lengthD)
  have r: "renders env s r" if "(s, r) \<in> set (zip ss rs)" for s r
    using assms that by (auto simp: list_all2_iff)
  have a: "filter (\<lambda>s. es_case s = c \<and> es_organization s = org) ss = map fst ?ps" using len
    by (induction ss rs rule: list_induct2) auto
  have b: "filter (\<lambda>r. rp_case r = c \<and> rp_organization r = org) rs = map snd ?ps" using assms
    by (induction ss rs rule: list_all2_induct) (auto simp: renders_def)
  have best: "max_key es_sealed_at (fst p) (map fst ps) = fst q \<and> max_key rp_created_at (snd p) (map snd ps) = snd q"
    if "q = max_key (\<lambda>(s, r). es_sealed_at s) p ps" "\<And>s r. (s, r) \<in> set (p # ps) \<Longrightarrow> rp_created_at r = es_sealed_at s" for p q ps
    using that
  proof (induction ps arbitrary: p)
    case (Cons y ps)
    obtain s r where p: "p = (s, r)" by fastforce
    obtain s' r' where y: "y = (s', r')" by fastforce
    have e: "rp_created_at r = es_sealed_at s" "rp_created_at r' = es_sealed_at s'" using Cons.prems(2) p y by auto
    let ?b = "if es_sealed_at s < es_sealed_at s' then y else p"
    have "max_key es_sealed_at (fst ?b) (map fst ps) = fst q \<and> max_key rp_created_at (snd ?b) (map snd ps) = snd q"
    proof (rule Cons.IH)
      show "q = max_key (\<lambda>(s, r). es_sealed_at s) ?b ps" using Cons.prems(1) p y by simp
      show "rp_created_at b = es_sealed_at a" if "(a, b) \<in> set (?b # ps)" for a b
        using that Cons.prems(2) by (auto split: if_splits)
    qed
    then show ?case using e p y by (simp split: if_splits)
  qed simp
  show ?thesis
  proof (cases ?ps)
    case Nil
    then show ?thesis unfolding a b by (simp add: latest_by_def)
  next
    case (Cons p ps)
    let ?q = "max_key (\<lambda>(s, r). es_sealed_at s) p ps"
    have "?q \<in> set ?ps" unfolding Cons by (rule max_key_mem)
    then have q: "(fst ?q, snd ?q) \<in> set (zip ss rs)" "es_case (fst ?q) = c" "es_organization (fst ?q) = org" by auto
    have "rp_created_at r = es_sealed_at s" if "(s, r) \<in> set (p # ps)" for s r
    proof -
      have "(s, r) \<in> set (zip ss rs)" using that Cons by (metis filter_is_subset subsetD)
      then show ?thesis using r by (simp add: renders_def)
    qed
    from best [OF refl this] have "latest_by es_sealed_at (map fst ?ps) = Some (fst ?q)"
        "latest_by rp_created_at (map snd ?ps) = Some (snd ?q)"
      unfolding Cons by (simp_all add: latest_by_def)
    then show ?thesis unfolding a b using q by simp
  qed
qed

lemma latest_sealed_pair:
  assumes "reports_ok env db"
  shows "sealed_pair db org c (map_option es_id (latest_by es_sealed_at (case_snapshots org c db)))
    (map_option rp_id (latest_by rp_created_at (case_reports org c db)))"
proof -
  have "list_all2 (renders env) (rd_snapshots db) (rd_reports db)" using assms by (simp add: reports_ok_def)
  from latest_parallel [OF this, of c org] show ?thesis
    unfolding sealed_pair_def case_snapshots_def case_reports_def by (auto split: option.splits)
qed

section \<open>Rounds\<close>

lemma next_round_length:
  assumes "rounds_ok db"
  shows "next_round org c db = Suc (length (case_submissions org c db))"
proof (cases "case_submissions org c db")
  case Nil
  then show ?thesis by (simp add: next_round_def latest_by_def)
next
  case (Cons s ss)
  have eq: "map sb_round (case_submissions org c db) = [1..<Suc (length (case_submissions org c db))]"
    using assms by (simp add: rounds_ok_def)
  let ?m = "max_key (\<lambda>n. n) (sb_round s) (map sb_round ss)"
  have "?m \<in> set (map sb_round (case_submissions org c db))" unfolding Cons using max_key_mem [of "\<lambda>n. n" "sb_round s" "map sb_round ss"] by simp
  then have "?m \<le> length (case_submissions org c db)" unfolding eq by auto
  moreover have "length (case_submissions org c db) \<in> set (map sb_round (case_submissions org c db))"
    unfolding eq using Cons by auto
  then have "length (case_submissions org c db) \<le> ?m"
    unfolding Cons using max_key_ge [of _ "sb_round s" "map sb_round ss" "\<lambda>n. n"] by simp
  ultimately show ?thesis by (simp add: next_round_def latest_by_def Cons)
qed

lemma rounds_ok_submit:
  assumes "rounds_ok db" and "rw_submissions db' = rw_submissions db @ [s]" and "sb_round s = next_round (sb_organization s) (sb_case s) db"
  shows "rounds_ok db'"
  unfolding rounds_ok_def
proof (intro allI)
  fix org c
  have "case_submissions org c db' = case_submissions org c db @ (if sb_case s = c \<and> sb_organization s = org then [s] else [])"
    by (simp add: case_submissions_def assms(2))
  moreover have "map sb_round (case_submissions org c db) = [1..<Suc (length (case_submissions org c db))]"
    using assms(1) by (simp add: rounds_ok_def)
  ultimately show "map sb_round (case_submissions org c db') = [1..<Suc (length (case_submissions org c db'))]"
    using next_round_length [OF assms(1)] assms(3) by auto
qed

section \<open>Every step keeps the invariant\<close>

lemma snapshot_root_stable:
  assumes "extends db db'" and "sealed_pair db org c snapshot report"
  shows "snapshot_root snapshot db' = snapshot_root snapshot db"
proof (cases snapshot)
  case None
  then show ?thesis by (simp add: snapshot_root_def)
next
  case (Some i)
  obtain s r where s: "(s, r) \<in> set (zip (rd_snapshots db) (rd_reports db))" "es_id s = i"
    using assms(2) Some unfolding sealed_pair_def by auto
  then have "s \<in> set (rd_snapshots db)" by (auto dest: set_zip_leftD)
  then have "find (\<lambda>s. es_id s = i) (rd_snapshots db) \<noteq> None" using s(2) by (auto simp: find_None_iff)
  moreover obtain xs where "rd_snapshots db' = rd_snapshots db @ xs" using assms(1) unfolding extends_def by blast
  ultimately show ?thesis by (auto simp: snapshot_root_def Some find_append)
qed

definition same_submission :: "review_submission \<Rightarrow> review_submission \<Rightarrow> bool" where
  "same_submission s s' \<longleftrightarrow> sb_id s' = sb_id s \<and> sb_organization s' = sb_organization s \<and> sb_case s' = sb_case s
     \<and> sb_submitter s' = sb_submitter s \<and> sb_snapshot s' = sb_snapshot s \<and> sb_report s' = sb_report s \<and> sb_round s' = sb_round s"

lemma signed_carry:
  assumes "signed env db d" and "extends (rw_reports db) (rw_reports db')"
    and "\<And>s. s \<in> set (rw_submissions db) \<Longrightarrow> sealed_pair (rw_reports db) (sb_organization s) (sb_case s) (sb_snapshot s) (sb_report s)"
    and "\<And>s. s \<in> set (rw_submissions db) \<Longrightarrow> \<exists>s' \<in> set (rw_submissions db'). same_submission s s'"
  shows "signed env db' d"
proof -
  obtain s actor t where s: "s \<in> set (rw_submissions db)" "sb_id s = dc_submission d" "sb_organization s = dc_organization d"
      "sb_case s = dc_case d" "dc_reviewer d = Some actor" "sb_submitter s = Some actor \<longrightarrow> dc_self_audit d"
      "dc_decision d \<in> {''approved'', ''changes_requested'', ''rejected''}"
      "dc_signature d = en_sha256 env (decision_text (dc_submission d) (dc_case d) actor (dc_decision d)
        (signed_root (snapshot_root (sb_snapshot s) (rw_reports db))) (en_iso env t))" "dc_created_at d = t"
    using assms(1) unfolding signed_def by blast
  obtain s' where s': "s' \<in> set (rw_submissions db')" "same_submission s s'" using assms(4) [OF s(1)] by blast
  have "snapshot_root (sb_snapshot s) (rw_reports db') = snapshot_root (sb_snapshot s) (rw_reports db)"
    by (rule snapshot_root_stable [OF assms(2) assms(3) [OF s(1)]])
  with s s'(2) show ?thesis unfolding signed_def same_submission_def
    by (intro bexI [OF _ s'(1)] exI [of _ actor] exI [of _ t]) simp
qed

lemma review_inv_carry:
  assumes "review_inv env db" and "extends (rw_reports db) (rw_reports db')"
    and "\<And>s. s \<in> set (rw_submissions db) \<Longrightarrow> \<exists>s' \<in> set (rw_submissions db'). same_submission s s'"
  shows "d \<in> set (rw_decisions db) \<Longrightarrow> signed env db' d"
    and "y \<in> set (rw_deliveries db) \<Longrightarrow> delivered_ok db' y"
    and "s \<in> set (rw_submissions db) \<Longrightarrow> sealed_pair (rw_reports db') (sb_organization s) (sb_case s) (sb_snapshot s) (sb_report s)"
proof -
  have p: "sealed_pair (rw_reports db) (sb_organization s) (sb_case s) (sb_snapshot s) (sb_report s)"
    if "s \<in> set (rw_submissions db)" for s
    using that assms(1) by (simp add: review_inv_def)
  show "signed env db' d" if "d \<in> set (rw_decisions db)"
    using that assms(1) by (intro signed_carry [OF _ assms(2) p assms(3)]) (simp_all add: review_inv_def)
  show "delivered_ok db' y" if "y \<in> set (rw_deliveries db)"
    using that assms(1) sealed_pair_extends [OF assms(2)] approved_clean_extends [OF assms(2)]
    by (auto simp: review_inv_def delivered_ok_def)
  show "sealed_pair (rw_reports db') (sb_organization s) (sb_case s) (sb_snapshot s) (sb_report s)"
    if "s \<in> set (rw_submissions db)"
    using p [OF that] by (rule sealed_pair_extends [OF assms(2)])
qed

lemma same_submission_refl: "s \<in> set ss \<Longrightarrow> \<exists>s' \<in> set ss. same_submission s s'"
  by (auto simp: same_submission_def)

text \<open>A step that touches only the reports.\<close>

lemma review_inv_reports:
  assumes "review_inv env db" and "extends (rw_reports db) r" and "reports_ok env r"
    and "reachable (en_package env) (en_sha256 env) (rd_assessment r)"
  shows "review_inv env (db\<lparr>rw_reports := r\<rparr>)"
proof -
  let ?db' = "db\<lparr>rw_reports := r\<rparr>"
  have "extends (rw_reports db) (rw_reports ?db')" using assms(2) by simp
  note carry = review_inv_carry [OF assms(1) this]
  show ?thesis unfolding review_inv_def
  proof (intro conjI ballI)
    show "signed env ?db' d" if "d \<in> set (rw_decisions ?db')" for d
      using that by (intro carry(1)) (simp_all add: same_submission_refl)
    show "delivered_ok ?db' y" if "y \<in> set (rw_deliveries ?db')" for y
      using that by (intro carry(2)) (simp_all add: same_submission_refl)
    show "sealed_pair (rw_reports ?db') (sb_organization s) (sb_case s) (sb_snapshot s) (sb_report s)"
      if "s \<in> set (rw_submissions ?db')" for s
      using that by (intro carry(3)) (simp_all add: same_submission_refl)
    show "rounds_ok ?db'" using assms(1) by (simp add: review_inv_def rounds_ok_def case_submissions_def)
  qed (use assms in \<open>simp_all add: review_inv_def\<close>)
qed

lemma reports_length: "review_inv env db \<Longrightarrow> length (rd_snapshots (rw_reports db)) = length (rd_reports (rw_reports db))"
  by (auto simp: review_inv_def reports_ok_def dest: list_all2_lengthD)

lemma reports_ok_status [simp]: "reports_ok env (set_status org c st db) = reports_ok env db"
  by (simp add: reports_ok_def)

lemma gate_approved:
  assumes "reachable digest hash a" and "assert_delivery_gate a org c = Inr ()"
  shows "approved_clean a org c"
proof -
  obtain v where v: "find (gate_ok a org) (AssessService.list_versions a org c) = Some v"
    using assms(2) latest_gate_find [OF reachable_inv [OF assms(1)], of org c]
    by (auto simp: assert_delivery_gate_def split: option.splits)
  then have mem: "v \<in> set (AssessService.case_versions a org c)" "gate_ok a org v"
    using find_Some_mem [OF v] by (simp_all add: AssessService.list_versions_def)
  have "''approved'' \<in> set (decision_sequence a org (vr_id v))"
    using mem(2) by (auto simp: gate_ok_def version_status_def derive_status_def dest: last_in_set split: if_splits)
  then obtain r where "r \<in> set (reviews_table a)" "rr_organization_id r = org" "dr_version_id (rr_decision r) = vr_id v"
      "dr_decision (rr_decision r) = ''approved''"
    by (auto simp: decision_sequence_def version_reviews_def)
  then show ?thesis using mem unfolding approved_clean_def gate_ok_def AssessService.case_versions_def by auto
qed

lemma filter_update_comm:
  "(\<And>x. Q (f x) = Q x) \<Longrightarrow> filter Q (update_where P f xs) = update_where P f (filter Q xs)"
  by (induction xs) (auto simp: update_where_def)

lemma review_step_inv:
  assumes "review_step env db db'" and "review_inv env db"
  shows "review_inv env db'"
  using assms(1)
proof cases
  case (seal_step i j now org c actor email view r)
  obtain s p where s: "rd_snapshots r = rd_snapshots (rw_reports db) @ [s]" "rd_reports r = rd_reports (rw_reports db) @ [p]"
      "renders env s p" "es_id s = i" "rp_id p = j" "rd_assessment r = rd_assessment (rw_reports db)"
    using sealed_facts [OF seal_step(2)] by blast
  have "extends (rw_reports db) r" using s reports_length [OF assms(2)] by (simp add: extends_def)
  moreover have "reports_ok env r"
    using assms(2) s seal_step(3,4) unfolding review_inv_def reports_ok_def by (auto intro: list_all2_appendI)
  ultimately show ?thesis unfolding seal_step(1) using assms(2) s(6)
    by (intro review_inv_reports) (simp_all add: review_inv_def)
next
  case (round_step i now org c actor remarks s)
  have s: "s = \<lparr>sb_id = i, sb_organization = org, sb_case = c, sb_round = next_round org c db,
        sb_snapshot = map_option es_id (latest_by es_sealed_at (case_snapshots org c (rw_reports db))),
        sb_report = map_option rp_id (latest_by rp_created_at (case_reports org c (rw_reports db))),
        sb_submitter = Some actor, sb_notes = remarks, sb_status = ''pending'', sb_created_at = now\<rparr>"
    and db': "db' = db\<lparr>rw_submissions := rw_submissions db @ [s], rw_reports := set_status org c ''in_review'' (rw_reports db)\<rparr>"
    using round_step(1) by (auto simp: submit_case_for_review_def Let_def split: option.splits)
  have ext: "extends (rw_reports db) (rw_reports db')"
    using reports_length [OF assms(2)] by (simp add: db' extends_same)
  have keep: "\<exists>x' \<in> set (rw_submissions db'). same_submission x x'" if "x \<in> set (rw_submissions db)" for x
    using that by (intro bexI [of _ x]) (auto simp: same_submission_def db')
  note carry = review_inv_carry [OF assms(2) ext keep]
  have ok: "reports_ok env (rw_reports db)" using assms(2) by (simp add: review_inv_def)
  have new: "sealed_pair (rw_reports db') org c (sb_snapshot s) (sb_report s)"
    using sealed_pair_extends [OF ext latest_sealed_pair [OF ok, of org c]] by (simp add: s)
  have "rounds_ok db'"
    by (rule rounds_ok_submit [of db _ s]) (use assms(2) in \<open>simp_all add: review_inv_def db' s\<close>)
  moreover have "sealed_pair (rw_reports db') (sb_organization x) (sb_case x) (sb_snapshot x) (sb_report x)"
    if "x \<in> set (rw_submissions db')" for x
    using that carry(3) new by (auto simp: db' s)
  moreover have "distinct (map sb_id (rw_submissions db'))" using assms(2) round_step(2) by (simp add: review_inv_def db' s)
  ultimately show ?thesis unfolding review_inv_def using assms(2) carry(1,2) ok
    by (auto simp: db' review_inv_def)
next
  case (decision_step i now org c sid actor decision comments feedback self_audit d)
  obtain s where s: "s \<in> set (rw_submissions db)" "sb_id s = sid" "sb_case s = c" "sb_organization s = org"
    and ok: "decision \<in> {''approved'', ''changes_requested'', ''rejected''}"
    and d: "d = \<lparr>dc_id = i, dc_organization = org, dc_submission = sid, dc_case = c, dc_reviewer = Some actor,
                 dc_decision = decision, dc_comments = comments, dc_feedback = feedback,
                 dc_self_audit = (self_audit \<or> sb_submitter s = Some actor),
                 dc_signature = generate_decision_signature (en_sha256 env) sid c actor decision
                   (signed_root (snapshot_root (sb_snapshot s) (rw_reports db))) (en_iso env now),
                 dc_created_at = now\<rparr>"
    and db': "db' = db\<lparr>rw_decisions := rw_decisions db @ [d],
                rw_submissions := update_where (\<lambda>x. sb_id x = sid \<and> sb_organization x = org)
                  (sb_status_update (\<lambda>_. decision)) (rw_submissions db),
                rw_reports := set_status org c (decided_status decision) (rw_reports db)\<rparr>"
    using decision_step unfolding record_review_decision_def
    by (auto simp: find_Some_iff Let_def split: option.splits if_splits dest: nth_mem)
  have ext: "extends (rw_reports db) (rw_reports db')"
    using reports_length [OF assms(2)] by (simp add: db' extends_same)
  have keep: "\<exists>x' \<in> set (rw_submissions db'). same_submission x x'" if "x \<in> set (rw_submissions db)" for x
    using that
    by (intro bexI [of _ "if sb_id x = sid \<and> sb_organization x = org then sb_status_update (\<lambda>_. decision) x else x"])
      (auto simp: same_submission_def db' update_where_def)
  have origin: "\<exists>x \<in> set (rw_submissions db). same_submission x x'" if "x' \<in> set (rw_submissions db')" for x'
    using that by (auto simp: same_submission_def db' update_where_def)
  note carry = review_inv_carry [OF assms(2) ext keep]
  have map_same: "map g (rw_submissions db') = map g (rw_submissions db)" if "\<And>x. g (sb_status_update (\<lambda>_. decision) x) = g x" for g
    unfolding db' using that by (simp add: map_update_where)
  have root_same: "snapshot_root x (rw_reports db') = snapshot_root x (rw_reports db)" for x
    by (cases x) (simp_all add: snapshot_root_def db')
  have "signed env db' d"
  proof -
    obtain s' where s': "s' \<in> set (rw_submissions db')" "same_submission s s'" using keep [OF s(1)] by blast
    then show ?thesis unfolding signed_def
      by (intro bexI [OF _ s'(1)] exI [of _ actor] exI [of _ now])
        (use s ok in \<open>simp add: d same_submission_def root_same generate_decision_signature_def\<close>)
  qed
  moreover have "rounds_ok db'"
  proof -
    have "case_submissions o' c' db' = update_where (\<lambda>x. sb_id x = sid \<and> sb_organization x = org)
        (sb_status_update (\<lambda>_. decision)) (case_submissions o' c' db)" for o' c'
      by (simp add: case_submissions_def db' filter_update_comm)
    then have "map sb_round (case_submissions o' c' db') = map sb_round (case_submissions o' c' db)
        \<and> length (case_submissions o' c' db') = length (case_submissions o' c' db)" for o' c'
      by (simp add: map_update_where) (simp add: update_where_def)
    then show ?thesis using assms(2) by (simp add: review_inv_def rounds_ok_def)
  qed
  moreover have "sealed_pair (rw_reports db') (sb_organization x') (sb_case x') (sb_snapshot x') (sb_report x')"
    if "x' \<in> set (rw_submissions db')" for x'
    using origin [OF that] carry(3) by (auto simp: same_submission_def)
  moreover have "distinct (map sb_id (rw_submissions db'))" using assms(2) by (subst map_same) (simp_all add: review_inv_def)
  ultimately show ?thesis unfolding review_inv_def using assms(2) carry(1,2) by (auto simp: db' review_inv_def)
next
  case (delivery_step random i now org c actor client y)
  have gate: "assert_delivery_gate (rd_assessment (rw_reports db)) org c = Inr ()"
    and del: "deliver_case (en_sha256 env) random i now org c actor client db = Inr (y, db')"
    using delivery_step by (auto simp: deliver_case_route_def split: sum.splits)
  obtain sub where sub: "sub = latest_by sb_round (case_submissions org c db)" by blast
  have y: "dy_organization y = org" "dy_case y = c" "dy_snapshot y = Option.bind sub sb_snapshot" "dy_report y = Option.bind sub sb_report"
    and db': "db' = db\<lparr>rw_deliveries := rw_deliveries db @ [y], rw_reports := set_status org c ''delivered'' (rw_reports db)\<rparr>"
    using del by (auto simp: deliver_case_def Let_def sub split: option.splits)
  have ext: "extends (rw_reports db) (rw_reports db')"
    using reports_length [OF assms(2)] by (simp add: db' extends_same)
  have keep: "\<exists>x' \<in> set (rw_submissions db'). same_submission x x'" if "x \<in> set (rw_submissions db)" for x
    using that by (simp add: db' same_submission_refl)
  note carry = review_inv_carry [OF assms(2) ext keep]
  have "sealed_pair (rw_reports db') org c (dy_snapshot y) (dy_report y)"
  proof (cases "case_submissions org c db")
    case Nil
    then show ?thesis by (simp add: y sub latest_by_def sealed_pair_def)
  next
    case (Cons x xs)
    let ?m = "max_key sb_round x xs"
    have "?m \<in> set (case_submissions org c db)" unfolding Cons by (rule max_key_mem)
    then have "?m \<in> set (rw_submissions db)" "sb_organization ?m = org" "sb_case ?m = c" by (auto simp: case_submissions_def)
    with carry(3) [of ?m] show ?thesis by (simp add: y sub latest_by_def Cons)
  qed
  moreover have "approved_clean (rd_assessment (rw_reports db)) org c"
    using assms(2) by (intro gate_approved [OF _ gate]) (auto simp: review_inv_def)
  ultimately have "delivered_ok db' y" using y by (simp add: delivered_ok_def db')
  moreover have "rounds_ok db'" using assms(2) by (simp add: review_inv_def rounds_ok_def case_submissions_def db')
  ultimately show ?thesis unfolding review_inv_def using assms(2) carry by (auto simp: db' review_inv_def)
next
  case (assessment_step a)
  have "extends (rw_reports db) ((rw_reports db)\<lparr>rd_assessment := a\<rparr>)"
    using service_step_grows [OF assessment_step(2)] reports_length [OF assms(2)] by (simp add: extends_def)
  moreover have "reachable (en_package env) (en_sha256 env) a"
    using assms(2) assessment_step(2) reachable.step by (auto simp: review_inv_def)
  ultimately show ?thesis unfolding assessment_step(1) using assms(2)
    by (intro review_inv_reports) (simp_all add: review_inv_def reports_ok_def)
next
  case (work_step ss m)
  have "extends (rw_reports db) ((rw_reports db)\<lparr>rd_matrix := m, rd_sources := ss\<rparr>)"
    using reports_length [OF assms(2)] by (simp add: extends_def)
  then show ?thesis unfolding work_step using assms(2)
    by (intro review_inv_reports) (simp_all add: review_inv_def reports_ok_def)
qed

lemma review_run_inv: "review_run env db \<Longrightarrow> review_inv env db"
proof -
  assume "review_run env db"
  then obtain cases m where run: "(review_step env)\<^sup>*\<^sup>* (empty_review_db cases m) db" unfolding review_run_def by blast
  then show ?thesis
  proof (induction rule: rtranclp_induct)
    case base
    show ?case using reachable.start [of "en_package env" "en_sha256 env" cases]
      by (simp add: review_inv_def empty_review_db_def reports_ok_def rounds_ok_def case_submissions_def)
  next
    case (step y z)
    then show ?case using review_step_inv by blast
  qed
qed

section \<open>What reaches a client\<close>

text \<open>
  C31: what is delivered was approved, and is what was sealed.  In every run, for each delivery the case has an
  assessment version without a blocker whose approval is on record; and the delivery names either nothing, or a
  snapshot of that case and the report that was rendered from it, the root of the snapshot being the hash of its
  payload.
\<close>

theorem delivered_is_approved_and_sealed:
  assumes "review_run env db" and "y \<in> set (rw_deliveries db)"
  shows "(\<exists>v \<in> set (versions_table (rd_assessment (rw_reports db))).
      vr_organization_id v = dy_organization y \<and> vr_case_id v = dy_case y \<and> vr_blockers v = []
      \<and> (\<exists>r \<in> set (reviews_table (rd_assessment (rw_reports db))). rr_organization_id r = dy_organization y
           \<and> dr_version_id (rr_decision r) = vr_id v \<and> dr_decision (rr_decision r) = ''approved''))
    \<and> (dy_snapshot y = None \<and> dy_report y = None
       \<or> (\<exists>s \<in> set (rd_snapshots (rw_reports db)). \<exists>r \<in> set (rd_reports (rw_reports db)).
            dy_snapshot y = Some (es_id s) \<and> dy_report y = Some (rp_id r) \<and> rp_snapshot r = es_id s
            \<and> es_organization s = dy_organization y \<and> es_case s = dy_case y
            \<and> es_root s = en_digest env (es_payload s) \<and> rp_content r = en_render env (es_payload s) (es_root s)))"
proof -
  have inv: "review_inv env db" by (rule review_run_inv [OF assms(1)])
  then have ok: "delivered_ok db y" and all: "list_all2 (renders env) (rd_snapshots (rw_reports db)) (rd_reports (rw_reports db))"
    using assms(2) by (auto simp: review_inv_def reports_ok_def)
  have "\<exists>s \<in> set (rd_snapshots (rw_reports db)). \<exists>r \<in> set (rd_reports (rw_reports db)).
            dy_snapshot y = Some (es_id s) \<and> dy_report y = Some (rp_id r) \<and> rp_snapshot r = es_id s
            \<and> es_organization s = dy_organization y \<and> es_case s = dy_case y
            \<and> es_root s = en_digest env (es_payload s) \<and> rp_content r = en_render env (es_payload s) (es_root s)"
    if some: "\<not> (dy_snapshot y = None \<and> dy_report y = None)"
  proof -
    obtain s r where s: "(s, r) \<in> set (zip (rd_snapshots (rw_reports db)) (rd_reports (rw_reports db)))"
        "dy_snapshot y = Some (es_id s)" "dy_report y = Some (rp_id r)" "es_organization s = dy_organization y" "es_case s = dy_case y"
      using ok some unfolding delivered_ok_def sealed_pair_def by blast
    have "renders env s r" using all s(1) by (auto simp: list_all2_iff)
    with s show ?thesis
      by (intro bexI [of _ s] bexI [of _ r]) (auto simp: renders_def dest: set_zip_leftD set_zip_rightD)
  qed
  with ok show ?thesis unfolding delivered_ok_def approved_clean_def by blast
qed

text \<open>
  The sealing reads the decisions of an assessment by a column that migration 0014 does not have, so it fails once a case
  has an assessment version: what could be sealed holds no facts of an assessment, which the reports are meant to show.
\<close>

lemma sealed_without_assessment:
  assumes "review_run env db" and "s \<in> set (rd_snapshots (rw_reports db))"
  shows "\<not> has_version (sp_assessment (es_payload s))"
proof -
  have "list_all2 (renders env) (rd_snapshots (rw_reports db)) (rd_reports (rw_reports db))"
    using review_run_inv [OF assms(1)] by (simp add: review_inv_def reports_ok_def)
  then obtain r where "renders env s r" using assms(2) by (metis in_set_conv_nth list_all2_conv_all_nth)
  then show ?thesis by (simp add: renders_def no_summary_def)
qed

text \<open>
  C32: the record of a review.  In every run, the rounds of a case are numbered one, two and so on; every decision
  belongs to a submission of its case, is one of the three, is marked as a self-audit when the reviewer is the
  submitter, and carries a signature that can be recomputed from the rows: it is the hash over the submission, the
  case, the reviewer, the decision, the root of the submitted snapshot and the time.
\<close>

theorem review_record_recomputable:
  assumes "review_run env db"
  shows "map sb_round (case_submissions org c db) = [1..<Suc (length (case_submissions org c db))]
    \<and> (\<forall>d \<in> set (rw_decisions db). \<exists>s \<in> set (rw_submissions db). \<exists>actor.
         sb_id s = dc_submission d \<and> sb_organization s = dc_organization d \<and> sb_case s = dc_case d \<and> dc_reviewer d = Some actor
         \<and> dc_decision d \<in> {''approved'', ''changes_requested'', ''rejected''}
         \<and> (sb_submitter s = Some actor \<longrightarrow> dc_self_audit d)
         \<and> dc_signature d = generate_decision_signature (en_sha256 env) (dc_submission d) (dc_case d) actor (dc_decision d)
              (signed_root (snapshot_root (sb_snapshot s) (rw_reports db))) (en_iso env (dc_created_at d)))"
proof -
  have inv: "review_inv env db" by (rule review_run_inv [OF assms])
  then show ?thesis unfolding review_inv_def rounds_ok_def signed_def generate_decision_signature_def by blast
qed

section \<open>The difference of two rounds\<close>

definition item_pair :: "revision_item \<Rightarrow> string option \<times> string option" where
  "item_pair i = (ri_feature i, ri_candidate i)"

definition plain_item :: "revision_item \<Rightarrow> bool" where
  "plain_item i \<longleftrightarrow> (case (ri_feature i, ri_candidate i) of
     (Some f, Some c) \<Rightarrow> CHR ''_'' \<notin> set f \<and> CHR ''_'' \<notin> set c | _ \<Rightarrow> False)"

lemma split_at_sign: "x \<notin> set a \<Longrightarrow> x \<notin> set b \<Longrightarrow> a @ x # c = b @ x # d \<Longrightarrow> a = b \<and> c = d"
proof (induction a arbitrary: b)
  case Nil
  then show ?case by (cases b) auto
next
  case (Cons y a)
  then show ?case by (cases b) auto
qed

lemma revision_key_pair:
  assumes "plain_item i" and "plain_item j"
  shows "revision_key i = revision_key j \<longleftrightarrow> item_pair i = item_pair j"
proof -
  obtain f c where i: "ri_feature i = Some f" "ri_candidate i = Some c" "CHR ''_'' \<notin> set f"
    using assms(1) unfolding plain_item_def by (auto split: option.splits)
  obtain g d where j: "ri_feature j = Some g" "ri_candidate j = Some d" "CHR ''_'' \<notin> set g"
    using assms(2) unfolding plain_item_def by (auto split: option.splits)
  show ?thesis using split_at_sign [OF i(3) j(3)] i j by (auto simp: revision_key_def item_pair_def none_text_def)
qed

lemma previous_item_iff:
  assumes "\<forall>i \<in> set previous. plain_item i" and "plain_item cur" and "distinct (map item_pair previous)"
  shows "previous_item previous (revision_key cur) = Some prev \<longleftrightarrow> prev \<in> set previous \<and> item_pair prev = item_pair cur"
proof
  assume "previous_item previous (revision_key cur) = Some prev"
  then have "prev \<in> set previous" "revision_key prev = revision_key cur"
    unfolding previous_item_def using find_Some_mem [of "\<lambda>i. revision_key i = revision_key cur" "rev previous" prev] by simp_all
  then show "prev \<in> set previous \<and> item_pair prev = item_pair cur" using assms revision_key_pair by blast
next
  assume p: "prev \<in> set previous \<and> item_pair prev = item_pair cur"
  then have k: "revision_key prev = revision_key cur" using assms(1,2) revision_key_pair by blast
  have "find (\<lambda>i. revision_key i = revision_key cur) (rev previous) = Some prev"
  proof -
    have "distinct (map revision_key (rev previous))"
      using assms(1,3) revision_key_pair by (auto simp: distinct_map inj_on_def rev_map [symmetric])
    then show ?thesis using find_unique [of revision_key "rev previous" prev] p k by simp
  qed
  then show "previous_item previous (revision_key cur) = Some prev" by (simp add: previous_item_def)
qed

text \<open>
  The difference of two rounds.  When identifiers contain no underscore and the earlier round has each pair
  of feature and document once, the difference reports exactly the pairs that are new, with their judgment, and
  for the pairs of both rounds every change of the judgment and of the citation text.
\<close>

theorem revision_diff_exact:
  assumes "\<forall>i \<in> set previous \<union> set current. plain_item i" and "distinct (map item_pair previous)"
  shows "set (compute_revision_diff previous current) =
     {Item_added (ri_feature i) (ri_candidate i) (ri_judgment i) | i. i \<in> set current \<and> item_pair i \<notin> item_pair ` set previous}
     \<union> {Judgment_modified (ri_feature i) (ri_candidate i) (ri_judgment p) (ri_judgment i) | i p.
          i \<in> set current \<and> p \<in> set previous \<and> item_pair p = item_pair i \<and> ri_judgment p \<noteq> ri_judgment i}
     \<union> {Citation_modified (ri_feature i) (ri_candidate i) (ri_citation_text p) (ri_citation_text i) | i p.
          i \<in> set current \<and> p \<in> set previous \<and> item_pair p = item_pair i \<and> ri_citation_text p \<noteq> ri_citation_text i}"
    (is "_ = ?A \<union> ?B \<union> ?C")
proof -
  have some: "previous_item previous (revision_key i) = Some p \<longleftrightarrow> p \<in> set previous \<and> item_pair p = item_pair i"
    if "i \<in> set current" for i p
    using previous_item_iff [of previous i p] assms that by auto
  have none: "previous_item previous (revision_key i) = None \<longleftrightarrow> item_pair i \<notin> item_pair ` set previous"
    if "i \<in> set current" for i
  proof -
    have "(\<exists>p. previous_item previous (revision_key i) = Some p) \<longleftrightarrow> (\<exists>p \<in> set previous. item_pair p = item_pair i)"
      using some [OF that] by blast
    then show ?thesis unfolding image_iff by (metis not_Some_eq)
  qed
  have each: "set (item_changes previous i) =
      (if item_pair i \<notin> item_pair ` set previous then {Item_added (ri_feature i) (ri_candidate i) (ri_judgment i)} else {})
      \<union> {Judgment_modified (ri_feature i) (ri_candidate i) (ri_judgment p) (ri_judgment i) | p.
           p \<in> set previous \<and> item_pair p = item_pair i \<and> ri_judgment p \<noteq> ri_judgment i}
      \<union> {Citation_modified (ri_feature i) (ri_candidate i) (ri_citation_text p) (ri_citation_text i) | p.
           p \<in> set previous \<and> item_pair p = item_pair i \<and> ri_citation_text p \<noteq> ri_citation_text i}"
    if i: "i \<in> set current" for i
  proof (cases "previous_item previous (revision_key i)")
    case None
    then have "item_pair i \<notin> item_pair ` set previous" using none [OF i] by blast
    then show ?thesis using None by (auto simp: item_changes_def image_iff)
  next
    case (Some p)
    then have p: "p \<in> set previous" "item_pair p = item_pair i" using some [OF i] by blast+
    have only: "q = p" if "q \<in> set previous" "item_pair q = item_pair i" for q
      using that some [OF i, of q] Some by simp
    have "item_pair i \<in> item_pair ` set previous" using p by (metis image_eqI)
    then show ?thesis using Some p by (auto simp: item_changes_def dest: only)
  qed
  have "set (compute_revision_diff previous current) = (\<Union>i \<in> set current. set (item_changes previous i))"
    by (simp add: compute_revision_diff_def)
  also have "\<dots> = ?A \<union> ?B \<union> ?C" using each by (auto split: if_splits)
  finally show ?thesis .
qed

text \<open>Pairs that the later round dropped are not reported.\<close>

lemma dropped_items_unseen: "compute_revision_diff previous [] = []"
  by (simp add: compute_revision_diff_def)

section \<open>Deciding again\<close>

text \<open>A decision is accepted whatever the status of its submission.\<close>

lemma decided_again:
  assumes "record_review_decision sha256 iso_time i now org c sid actor decision comments feedback self_audit db = Inr (d, db')"
    and "again \<in> {''approved'', ''changes_requested'', ''rejected''}"
  shows "\<exists>d2 db2. record_review_decision sha256 iso_time j later org c sid actor again comments feedback self_audit db' = Inr (d2, db2)"
proof -
  obtain s where "s \<in> set (rw_submissions db)" "sb_id s = sid" "sb_case s = c" "sb_organization s = org"
    and subs: "rw_submissions db' = update_where (\<lambda>x. sb_id x = sid \<and> sb_organization x = org)
      (sb_status_update (\<lambda>_. decision)) (rw_submissions db)"
    using assms(1) unfolding record_review_decision_def
    by (auto simp: find_Some_iff Let_def split: option.splits if_splits dest: nth_mem)
  then have "\<exists>x \<in> set (rw_submissions db'). sb_id x = sid \<and> sb_case x = c \<and> sb_organization x = org"
    by (intro bexI [of _ "sb_status_update (\<lambda>_. decision) s"]) (auto simp: update_where_def image_iff intro!: bexI [of _ s])
  then have "find (\<lambda>s. sb_id s = sid \<and> sb_case s = c \<and> sb_organization s = org) (rw_submissions db') \<noteq> None"
    by (auto simp: find_None_iff)
  then show ?thesis using assms(2) by (auto simp: record_review_decision_def Let_def)
qed

section \<open>Runs\<close>

definition sample_env :: review_env where
  "sample_env = \<lparr>en_digest = \<lambda>_. [], en_render = \<lambda>_ _. [], en_year = \<lambda>n. n, en_iso = \<lambda>_. [], en_sha256 = id, en_package = \<lambda>_. []\<rparr>"

definition sample_row :: case_row where
  "sample_row = \<lparr>ca_id = ''c'', ca_organization = ''o'', ca_number = [49], ca_title = [97], ca_field = [97], ca_jurisdiction = ''CN'',
     ca_status = ''draft'', ca_created_by = ''a'', ca_created_at = 0\<rparr>"

definition sample_work :: matrix_db where
  "sample_work = \<lparr>mt_search = \<lparr>se_features = \<lparr>fe_documents = [], fe_cases = [sample_row], fe_versions = [], fe_features = []\<rparr>,
     se_strategies = [], se_jobs = [], se_candidates = [], se_triage = [], se_snapshots = []\<rparr>, mt_matrices = [], mt_cells = []\<rparr>"

lemma assessment_runs:
  assumes "reachable (en_package env) (en_sha256 env) a"
  shows "\<exists>cases db. (review_step env)\<^sup>*\<^sup>* (empty_review_db cases m) db \<and> rd_assessment (rw_reports db) = a
    \<and> rd_matrix (rw_reports db) = m \<and> rw_submissions db = [] \<and> rw_deliveries db = []"
  using assms
proof (induction rule: reachable.induct)
  case (start cases)
  show ?case by (intro exI [of _ cases] exI [of _ "empty_review_db cases m"]) (simp add: empty_review_db_def)
next
  case (step a a')
  then obtain cases db where db: "(review_step env)\<^sup>*\<^sup>* (empty_review_db cases m) db" "rd_assessment (rw_reports db) = a"
    "rd_matrix (rw_reports db) = m" "rw_submissions db = []" "rw_deliveries db = []" by blast
  let ?db' = "db\<lparr>rw_reports := (rw_reports db)\<lparr>rd_assessment := a'\<rparr>\<rparr>"
  have "review_step env db ?db'" using step.hyps(2) db(2) by (intro assessment_step) simp
  with db show ?case by (intro exI [of _ cases] exI [of _ ?db']) auto
qed

theorem delivered_is_approved_and_sealed_witness:
  "\<exists>(db :: review_db) y. y \<in> set (rw_deliveries db) \<and> dy_case y = ''c'' \<and> (\<exists>v \<in> set (versions_table (rd_assessment (rw_reports db))). vr_blockers v = [])"
proof -
  obtain a v where a: "reachable (\<lambda>_. []) id a" "get_version a ''o'' ''c'' 1 = Inr v"
      "current_status a ''o'' ''c'' 1 = Inr ''approved''" "vr_blockers v = []"
    using sample_approved by blast
  obtain cases db where db: "(review_step sample_env)\<^sup>*\<^sup>* (empty_review_db cases sample_work) db" "rd_assessment (rw_reports db) = a"
      "rd_matrix (rw_reports db) = sample_work" "rw_submissions db = []" "rw_deliveries db = []"
    using assessment_runs [of sample_env a sample_work] a(1) by (auto simp: sample_env_def)
  have mem: "v \<in> set (AssessService.case_versions a ''o'' ''c'')" "vr_version_number v = 1"
    using get_version_mem [OF a(2)] by (simp_all add: AssessService.case_versions_def)
  have "gate_ok a ''o'' v"
    using a(3,4) current_status_own [OF reachable_inv [OF a(1)] mem(1)] mem(2) by (simp add: gate_ok_def)
  then have "find (gate_ok a ''o'') (AssessService.list_versions a ''o'' ''c'') \<noteq> None"
    using mem(1) by (auto simp: find_None_iff AssessService.list_versions_def)
  then have gate: "assert_delivery_gate a ''o'' ''c'' = Inr ()"
    by (auto simp: assert_delivery_gate_def latest_gate_find [OF reachable_inv [OF a(1)]])
  have "find_case ''o'' ''c'' (rd_features (rw_reports db)) = Some sample_row"
    by (simp add: db(3) sample_work_def find_case_def sample_row_def)
  then obtain y db' where del: "deliver_case_route (en_sha256 sample_env) [] ''y'' 1 ''o'' ''c'' ''a'' [] db = Inr (y, db')"
      "y \<in> set (rw_deliveries db')" "dy_case y = ''c''" "dy_organization y = ''o''"
    using gate db(2) by (auto simp: deliver_case_route_def deliver_case_def Let_def)
  have run: "review_run sample_env db'"
    unfolding review_run_def using db(1) delivery_step [OF del(1)] by (meson rtranclp.rtrancl_into_rtrancl)
  from delivered_is_approved_and_sealed [OF run del(2)]
  obtain w where "w \<in> set (versions_table (rd_assessment (rw_reports db')))" "vr_blockers w = []" by blast
  with del(2,3) show ?thesis by blast
qed

lemma sample_review_run:
  "\<exists>db d. review_run sample_env db \<and> rw_decisions db = [d] \<and> dc_decision d = ''approved'' \<and> dc_self_audit d
     \<and> length (case_submissions ''o'' ''c'' db) = 1"
proof -
  let ?db0 = "empty_review_db [] sample_work"
  have case0: "find_case ''o'' ''c'' (rd_features (rw_reports ?db0)) = Some sample_row"
    by (simp add: empty_review_db_def sample_work_def find_case_def sample_row_def)
  then obtain s db1 where s: "submit_case_for_review ''s'' 1 ''o'' ''c'' ''a'' [] ?db0 = Inr (s, db1)"
      "rw_submissions db1 = [s]" "rw_decisions db1 = []" "sb_id s = ''s''" "sb_case s = ''c''" "sb_organization s = ''o''"
      "sb_submitter s = Some ''a''"
    by (auto simp: submit_case_for_review_def Let_def empty_review_db_def)
  obtain d db2 where d: "record_review_decision id (\<lambda>_. []) ''d'' 2 ''o'' ''c'' ''s'' ''a'' ''approved'' [] [] False db1 = Inr (d, db2)"
      "rw_decisions db2 = [d]" "dc_decision d = ''approved''" "dc_self_audit d"
      "rw_submissions db2 = update_where (\<lambda>x. sb_id x = ''s'' \<and> sb_organization x = ''o'') (sb_status_update (\<lambda>_. ''approved'')) [s]"
    using s by (simp add: record_review_decision_def Let_def)
  have "review_step sample_env ?db0 db1" using s(1) by (rule round_step) (simp add: empty_review_db_def)
  moreover have "review_step sample_env db1 db2" using d(1) by (intro decision_step [of sample_env]) (simp add: sample_env_def)
  ultimately have "review_run sample_env db2" unfolding review_run_def by (meson rtranclp.rtrancl_into_rtrancl rtranclp.rtrancl_refl)
  moreover have "length (case_submissions ''o'' ''c'' db2) = 1" using d(5) s by (simp add: case_submissions_def update_where_def)
  ultimately show ?thesis using d by blast
qed

theorem review_record_recomputable_witness:
  "\<exists>(db :: review_db) d (s :: review_submission). rw_decisions db = [d] \<and> sb_id s = dc_submission d \<and> map sb_round (case_submissions ''o'' ''c'' db) = [1]"
proof -
  obtain db d where db: "review_run sample_env db" "rw_decisions db = [d]" "length (case_submissions ''o'' ''c'' db) = 1"
    using sample_review_run by blast
  note facts = review_record_recomputable [OF db(1), of "''o''" "''c''"]
  have "map sb_round (case_submissions ''o'' ''c'' db) = [1]" using conjunct1 [OF facts] by (simp add: db(3))
  moreover obtain s :: review_submission where "sb_id s = dc_submission d" using bspec [OF conjunct2 [OF facts], of d] db(2) by auto
  ultimately show ?thesis using db(2) by (intro exI [of _ db] exI [of _ d] exI [of _ s] conjI)
qed

definition sample_item :: "string \<Rightarrow> string \<Rightarrow> revision_item" where
  "sample_item f j = \<lparr>ri_feature = Some f, ri_candidate = Some ''D1'', ri_judgment = Some j, ri_citation_text = None\<rparr>"

theorem revision_diff_exact_witness:
  "Judgment_modified (Some ''F1'') (Some ''D1'') (Some ''different'') (Some ''identical'') \<in>
     set (compute_revision_diff [sample_item ''F1'' ''different''] [sample_item ''F1'' ''identical'', sample_item ''F2'' ''different''])"
proof -
  let ?previous = "[sample_item ''F1'' ''different'']" and ?current = "[sample_item ''F1'' ''identical'', sample_item ''F2'' ''different'']"
  have p: "\<forall>i \<in> set ?previous \<union> set ?current. plain_item i" "distinct (map item_pair ?previous)"
    by (simp_all add: sample_item_def plain_item_def)
  show ?thesis unfolding revision_diff_exact [OF p]
    by (intro UnI1 UnI2 CollectI exI [of _ "sample_item ''F1'' ''identical''"] exI [of _ "sample_item ''F1'' ''different''"])
      (simp add: sample_item_def item_pair_def)
qed

end
