(* ===== verification/UploadGuard.thy ===== *)
theory UploadGuard
  imports PyText
begin

text \<open>
  \<^verbatim>\<open>modules/cases/upload_guard.py\<close>: the inspection of an uploaded file.  A file is a list of byte values.  What
  the zip, XML and PDF libraries read from the bytes, lower case, and the order of a Python set are arguments: a
  reader gives \<open>None\<close> where the library raises one of the errors that the code catches.
\<close>

section \<open>What the libraries read\<close>

record zip_info =
  zi_name :: ustr
  zi_size :: nat
  zi_compressed :: nat

record relationship =
  rl_mode :: "ustr option"
  rl_type :: "ustr option"
  rl_target :: "ustr option"

datatype pdf_object =
    Pdf_dictionary "(ustr \<times> pdf_object) list"
  | Pdf_array "pdf_object list"
  | Pdf_name ustr
  | Pdf_other

record pdf_reading =
  pf_encrypted :: bool
  pf_opens_empty :: bool
  pf_objects :: "pdf_object option list"

record readers =
  rd_zip :: "ustr \<Rightarrow> zip_info list option"
  rd_member :: "ustr \<Rightarrow> ustr \<Rightarrow> ustr option"
  rd_relations :: "ustr \<Rightarrow> relationship list option"
  rd_pdf :: "ustr \<Rightarrow> pdf_reading option"
  rd_low :: "ustr \<Rightarrow> ustr"
  rd_order :: "ustr list \<Rightarrow> ustr list"

definition MAX_FILE_SIZE :: nat where "MAX_FILE_SIZE = 30 * 1024 * 1024"
definition MAX_ZIP_ENTRIES :: nat where "MAX_ZIP_ENTRIES = 5000"
definition MAX_UNCOMPRESSED_TOTAL :: nat where "MAX_UNCOMPRESSED_TOTAL = 300 * 1024 * 1024"
definition MAX_COMPRESSION_RATIO :: nat where "MAX_COMPRESSION_RATIO = 200"
definition RATIO_CHECK_MIN_SIZE :: nat where "RATIO_CHECK_MIN_SIZE = 1024 * 1024"
definition MAX_PDF_OBJECTS :: nat where "MAX_PDF_OBJECTS = 500000"

section \<open>Archives\<close>

definition path_parts :: "ustr \<Rightarrow> ustr list" where
  "path_parts name = split_on 47 name"

definition unsafe_name :: "ustr \<Rightarrow> bool" where
  "unsafe_name name \<longleftrightarrow> starts_with name [47] \<or> 92 \<in> set name \<or> u ''..'' \<in> set (path_parts name)"

definition unsafe_ratio :: "zip_info \<Rightarrow> bool" where
  "unsafe_ratio i \<longleftrightarrow> RATIO_CHECK_MIN_SIZE \<le> zi_size i \<and> MAX_COMPRESSION_RATIO * max (zi_compressed i) 1 < zi_size i"

definition suspicious :: "string" where "suspicious = ''suspicious_archive_structure''"
definition mismatch :: "string" where "mismatch = ''file_content_does_not_match_extension''"

text \<open>The loop over the entries: the total so far.\<close>

fun check_entries :: "nat \<Rightarrow> zip_info list \<Rightarrow> (string, unit) result" where
  "check_entries so_far [] = Inr ()"
| "check_entries so_far (i # infos) =
     (if unsafe_name (zi_name i) then Inl suspicious
      else if MAX_UNCOMPRESSED_TOTAL < so_far + zi_size i then Inl suspicious
      else if unsafe_ratio i then Inl suspicious
      else check_entries (so_far + zi_size i) infos)"

definition read_member :: "readers \<Rightarrow> ustr \<Rightarrow> ustr \<Rightarrow> (string, ustr) result" where
  "read_member rd data name = (case rd_member rd data name of None \<Rightarrow> Inl suspicious | Some x \<Rightarrow> Inr x)"

definition DOCX_MAIN_CONTENT_TYPE :: ustr where
  "DOCX_MAIN_CONTENT_TYPE = u ''application/vnd.openxmlformats-officedocument.wordprocessingml.document.main+xml''"

definition MACRO_CONTENT_TYPE_MARKER :: ustr where "MACRO_CONTENT_TYPE_MARKER = u ''macroEnabled''"

definition REJECTED_EMBEDDING_SUFFIXES :: "ustr list" where
  "REJECTED_EMBEDDING_SUFFIXES = map u [''.xlsm'', ''.docm'', ''.pptm'', ''.xlsb'', ''.exe'', ''.dll'', ''.js'', ''.vbs'',
     ''.scr'', ''.bat'', ''.cmd'', ''.ps1'']"

definition macro_name :: "ustr \<Rightarrow> bool" where
  "macro_name low \<longleftrightarrow> ends_with low (u ''vbaproject.bin'') \<or> starts_with low (u ''word/vba'')"

definition embedding_name :: "ustr \<Rightarrow> bool" where
  "embedding_name low \<longleftrightarrow> starts_with low (u ''word/embeddings/'')"

definition rejected_embedding :: "ustr \<Rightarrow> bool" where
  "rejected_embedding low \<longleftrightarrow> embedding_name low \<and> list_ex (ends_with low) REJECTED_EMBEDDING_SUFFIXES"

definition name_findings :: "ustr \<Rightarrow> string list" where
  "name_findings low =
     (if embedding_name low \<and> ends_with low (u ''.bin'') then [''docx_ole_embedding''] else [])
     @ (if starts_with low (u ''word/activex/'') then [''docx_activex_control''] else [])"

fun check_names :: "readers \<Rightarrow> ustr list \<Rightarrow> (string, string list) result" where
  "check_names rd [] = Inr []"
| "check_names rd (name # names) =
     (let low = rd_low rd name
      in if macro_name low then Inl ''macros_not_allowed''
         else if rejected_embedding low then Inl ''embedded_active_content_not_allowed''
         else bind_result (check_names rd names) (\<lambda>fs. Inr (name_findings low @ fs)))"

section \<open>Relationships\<close>

definition DANGEROUS_EXTERNAL_RELATIONSHIPS :: "ustr list" where
  "DANGEROUS_EXTERNAL_RELATIONSHIPS = map u [''attachedTemplate'', ''oleObject'', ''frame'', ''subDocument'', ''externalLinkPath'']"

definition ascii_letter :: "nat \<Rightarrow> bool" where
  "ascii_letter c \<longleftrightarrow> 65 \<le> c \<and> c \<le> 90 \<or> 97 \<le> c \<and> c \<le> 122"

text \<open>
  A pattern over text that ignores case takes four more letters for \<open>[a-z]\<close>: the dotted capital i, the dotless i,
  the long s and the sign of the kelvin.
\<close>

definition scheme_letter :: "nat \<Rightarrow> bool" where
  "scheme_letter c \<longleftrightarrow> ascii_letter c \<or> c \<in> {304, 305, 383, 8490}"

definition scheme_char :: "nat \<Rightarrow> bool" where
  "scheme_char c \<longleftrightarrow> scheme_letter c \<or> 48 \<le> c \<and> c \<le> 57 \<or> c \<in> {43, 45, 46}"

text \<open>The scheme before the first colon, and what follows it.\<close>

definition url_scheme :: "ustr \<Rightarrow> (ustr \<times> ustr) option" where
  "url_scheme s =
     (case s of
        [] \<Rightarrow> None
      | c # cs \<Rightarrow>
          if scheme_letter c \<and> dropWhile scheme_char cs \<noteq> [] \<and> hd (dropWhile scheme_char cs) = 58
          then Some (c # takeWhile scheme_char cs, tl (dropWhile scheme_char cs)) else None)"

definition drive_path :: "ustr \<Rightarrow> bool" where
  "drive_path s \<longleftrightarrow> (case s of c # d # _ \<Rightarrow> scheme_letter c \<and> d = 58 | _ \<Rightarrow> False)"

definition separator_char :: "nat \<Rightarrow> bool" where
  "separator_char c \<longleftrightarrow> c = 47 \<or> c = 92"

definition is_network_target :: "ustr \<Rightarrow> bool" where
  "is_network_target target =
     (let value = strip target
      in case url_scheme value of
           Some (scheme, path) \<Rightarrow>
             if drive_path value then starts_with value [92, 92] \<or> starts_with value [47, 47]
             else if lower scheme \<noteq> u ''file'' then True
             else let slashes = length (takeWhile separator_char path) in slashes = 2 \<or> 4 \<le> slashes
         | None \<Rightarrow> starts_with value [92, 92] \<or> starts_with value [47, 47])"

text \<open>\<open>(x or "").rsplit("/", 1)[-1]\<close>.\<close>

definition or_empty :: "ustr option \<Rightarrow> ustr" where
  "or_empty x = (case x of None \<Rightarrow> [] | Some s \<Rightarrow> s)"

definition last_segment :: "ustr \<Rightarrow> ustr" where
  "last_segment s = last (split_on 47 s)"

definition dangerous_relationship :: "relationship \<Rightarrow> bool" where
  "dangerous_relationship r \<longleftrightarrow> rl_mode r = Some (u ''External'')
     \<and> last_segment (or_empty (rl_type r)) \<in> set DANGEROUS_EXTERNAL_RELATIONSHIPS
     \<and> is_network_target (or_empty (rl_target r))"

definition check_relationships :: "readers \<Rightarrow> ustr \<Rightarrow> (string, unit) result" where
  "check_relationships rd xml =
     (case rd_relations rd xml of
        None \<Rightarrow> Inl suspicious
      | Some rels \<Rightarrow> if list_ex dangerous_relationship rels then Inl ''external_resource_reference_not_allowed'' else Inr ())"

fun check_rels :: "readers \<Rightarrow> ustr \<Rightarrow> ustr list \<Rightarrow> (string, unit) result" where
  "check_rels rd data [] = Inr ()"
| "check_rels rd data (name # names) =
     (if ends_with name (u ''.rels'')
      then bind_result (read_member rd data name) (\<lambda>xml. bind_result (check_relationships rd xml) (\<lambda>_. check_rels rd data names))
      else check_rels rd data names)"

section \<open>DDE fields\<close>

text \<open>The pattern over bytes, whatever the case of its letters: after the word no letter, digit or underscore.\<close>

definition word_byte :: "nat \<Rightarrow> bool" where
  "word_byte c \<longleftrightarrow> ascii_letter c \<or> 48 \<le> c \<and> c \<le> 57 \<or> c = 95"

definition space_byte :: "nat \<Rightarrow> bool" where
  "space_byte c \<longleftrightarrow> 9 \<le> c \<and> c \<le> 13 \<or> c = 32"

definition after_text :: "ustr \<Rightarrow> ustr \<Rightarrow> ustr option" where
  "after_text p s = (if length p \<le> length s \<and> lower (take (length p) s) = p then Some (drop (length p) s) else None)"

definition at_boundary :: "ustr \<Rightarrow> bool" where
  "at_boundary s \<longleftrightarrow> s = [] \<or> \<not> word_byte (hd s)"

definition dde_word :: "ustr \<Rightarrow> bool" where
  "dde_word s \<longleftrightarrow>
     (case after_text (u ''dde'') (dropWhile space_byte s) of
        None \<Rightarrow> False
      | Some r \<Rightarrow> at_boundary r \<or> (case after_text (u ''auto'') r of None \<Rightarrow> False | Some t \<Rightarrow> at_boundary t))"

definition dde_here :: "ustr \<Rightarrow> bool" where
  "dde_here s \<longleftrightarrow>
     (case after_text (u ''<w:instrtext'') s of
        Some r \<Rightarrow> dropWhile (\<lambda>c. c \<noteq> 62) r \<noteq> [] \<and> dde_word (tl (dropWhile (\<lambda>c. c \<noteq> 62) r))
      | None \<Rightarrow> False)
     \<or> (case after_text (u ''w:instr='' @ [34]) s of Some r \<Rightarrow> dde_word r | None \<Rightarrow> False)"

fun has_dde :: "ustr \<Rightarrow> bool" where
  "has_dde [] = False"
| "has_dde (c # s) = (dde_here (c # s) \<or> has_dde s)"

fun check_fields :: "readers \<Rightarrow> ustr \<Rightarrow> ustr list \<Rightarrow> (string, unit) result" where
  "check_fields rd data [] = Inr ()"
| "check_fields rd data (name # names) =
     (if starts_with name (u ''word/'') \<and> ends_with name (u ''.xml'')
      then bind_result (read_member rd data name) (\<lambda>xml.
             if has_dde xml then Inl ''dde_field_not_allowed'' else check_fields rd data names)
      else check_fields rd data names)"

definition inspect_docx :: "readers \<Rightarrow> ustr \<Rightarrow> (string, string list) result" where
  "inspect_docx rd data =
     (if \<not> starts_with data [80, 75, 3, 4] then Inl mismatch
      else
        (case rd_zip rd data of
           None \<Rightarrow> Inl mismatch
         | Some infos \<Rightarrow>
             if MAX_ZIP_ENTRIES < length infos then Inl suspicious
             else
               bind_result (check_entries 0 infos) (\<lambda>_.
               let names = rd_order rd (map zi_name infos)
               in if u ''[Content_Types].xml'' \<notin> set names \<or> u ''word/document.xml'' \<notin> set names then Inl mismatch
                  else
                    bind_result (read_member rd data (u ''[Content_Types].xml'')) (\<lambda>types.
                    if occurs_in MACRO_CONTENT_TYPE_MARKER types then Inl ''macros_not_allowed''
                    else if \<not> occurs_in DOCX_MAIN_CONTENT_TYPE types then Inl mismatch
                    else
                      bind_result (check_names rd names) (\<lambda>findings.
                      bind_result (check_rels rd data names) (\<lambda>_.
                      bind_result (check_fields rd data names) (\<lambda>_.
                      Inr (sort (remdups findings)))))))))"

section \<open>PDF\<close>

definition PDF_REJECTED_NAMES :: "ustr list" where
  "PDF_REJECTED_NAMES = map u [''Launch'', ''SubmitForm'', ''ImportData'']"

definition PDF_RECORDED_NAMES :: "(ustr, string) pydict" where
  "PDF_RECORDED_NAMES =
     [(u ''JavaScript'', ''pdf_javascript''), (u ''JS'', ''pdf_javascript''), (u ''EmbeddedFile'', ''pdf_embedded_files''),
      (u ''EmbeddedFiles'', ''pdf_embedded_files''), (u ''RichMedia'', ''pdf_rich_media''), (u ''XFA'', ''pdf_xfa_form'')]"

text \<open>A stream begins with a line end after its keyword and runs to the next end keyword.\<close>

definition stream_body :: "ustr \<Rightarrow> ustr option" where
  "stream_body s =
     (let r = drop 6 s; t = (if starts_with r [13] then tl r else r)
      in if starts_with s (u ''stream'') \<and> starts_with t [10] then Some (tl t) else None)"

fun after_first :: "ustr \<Rightarrow> ustr \<Rightarrow> ustr option" where
  "after_first p [] = (if p = [] then Some [] else None)"
| "after_first p (c # s) = (if starts_with (c # s) p then Some (drop (length p) (c # s)) else after_first p s)"

lemma after_first_length: "after_first p s = Some r \<Longrightarrow> length r \<le> length s"
  by (induction p s rule: after_first.induct) (auto split: if_splits)

lemma stream_body_length: "stream_body s = Some r \<Longrightarrow> length r < length s"
proof -
  assume "stream_body s = Some r"
  then have "r = tl (if starts_with (drop 6 s) [13] then tl (drop 6 s) else drop 6 s)" "starts_with s (u ''stream'')"
    by (auto simp: stream_body_def Let_def split: if_splits)
  then have "length r \<le> length (drop 6 s)" "s \<noteq> []" by (auto simp: u_def)
  then show ?thesis by (cases s) auto
qed

text \<open>\<open>sub\<close>: every stream is replaced by its two keywords, from the left.\<close>

function strip_streams :: "ustr \<Rightarrow> ustr" where
  "strip_streams s =
     (case s of
        [] \<Rightarrow> []
      | c # cs \<Rightarrow>
          (case Option.bind (stream_body s) (after_first (u ''endstream'')) of
             Some r \<Rightarrow> u ''stream endstream'' @ strip_streams r
           | None \<Rightarrow> c # strip_streams cs))"
  by pat_completeness auto
termination strip_streams
  by (relation "measure length") (auto simp: bind_eq_Some_conv dest!: stream_body_length after_first_length)

declare strip_streams.simps [simp del]

definition name_byte :: "nat \<Rightarrow> bool" where
  "name_byte c \<longleftrightarrow> ascii_letter c \<or> 48 \<le> c \<and> c \<le> 57 \<or> c = 35"

text \<open>The names that follow a slash; what follows a name begins with no name character.\<close>

fun raw_names :: "ustr \<Rightarrow> ustr list" where
  "raw_names [] = []"
| "raw_names (c # s) =
     (if c = 47 \<and> takeWhile name_byte s \<noteq> [] then takeWhile name_byte s # raw_names s else raw_names s)"

definition hex_value :: "nat \<Rightarrow> nat option" where
  "hex_value c =
     (if 48 \<le> c \<and> c \<le> 57 then Some (c - 48) else if 65 \<le> c \<and> c \<le> 70 then Some (c - 55)
      else if 97 \<le> c \<and> c \<le> 102 then Some (c - 87) else None)"

fun normalize_pdf_name :: "ustr \<Rightarrow> ustr" where
  "normalize_pdf_name (c # a # b # s) =
     (case (hex_value a, hex_value b) of
        (Some x, Some y) \<Rightarrow> if c = 35 then (16 * x + y) # normalize_pdf_name s else c # normalize_pdf_name (a # b # s)
      | _ \<Rightarrow> c # normalize_pdf_name (a # b # s))"
| "normalize_pdf_name s = s"

definition pdf_name_verdict :: "ustr \<Rightarrow> (string, string list) result" where
  "pdf_name_verdict name =
     (if name \<in> set PDF_REJECTED_NAMES then Inl ''pdf_active_content_not_allowed''
      else Inr (case map_of PDF_RECORDED_NAMES name of None \<Rightarrow> [] | Some f \<Rightarrow> [f]))"

fun pdf_name_verdicts :: "ustr list \<Rightarrow> (string, string list) result" where
  "pdf_name_verdicts [] = Inr []"
| "pdf_name_verdicts (name # names) =
     bind_result (pdf_name_verdict name) (\<lambda>f. bind_result (pdf_name_verdicts names) (\<lambda>fs. Inr (f @ fs)))"

definition strip_slashes :: "ustr \<Rightarrow> ustr" where
  "strip_slashes s = dropWhile (\<lambda>c. c = 47) s"

fun object_names :: "pdf_object \<Rightarrow> ustr list" where
  "object_names (Pdf_dictionary entries) = concat (map (\<lambda>(k, v). strip_slashes k # object_names v) entries)"
| "object_names (Pdf_array xs) = concat (map object_names xs)"
| "object_names (Pdf_name n) = [strip_slashes n]"
| "object_names Pdf_other = []"

definition unreadable :: string where "unreadable = ''unreadable_pdf''"

fun scan_objects :: "pdf_object option list \<Rightarrow> (string, string list) result" where
  "scan_objects [] = Inr []"
| "scan_objects (None # objects) = Inl unreadable"
| "scan_objects (Some x # objects) =
     bind_result (pdf_name_verdicts (object_names x)) (\<lambda>f. bind_result (scan_objects objects) (\<lambda>fs. Inr (f @ fs)))"

definition inspect_pdf :: "readers \<Rightarrow> ustr \<Rightarrow> (string, string list) result" where
  "inspect_pdf rd data =
     (if \<not> starts_with data (u ''%PDF-'') then Inl mismatch
      else
        bind_result (pdf_name_verdicts (map normalize_pdf_name (raw_names (strip_streams data)))) (\<lambda>fs.
          case rd_pdf rd data of
            None \<Rightarrow> Inl unreadable
          | Some r \<Rightarrow>
              if pf_encrypted r \<and> \<not> pf_opens_empty r then Inl ''password_protected_pdf_not_supported''
              else if MAX_PDF_OBJECTS < length (pf_objects r) then Inl ''suspicious_pdf_structure''
              else bind_result (scan_objects (pf_objects r)) (\<lambda>gs. Inr (sort (remdups (fs @ gs))))))"

section \<open>The verdict\<close>

record upload_verdict =
  uv_kind :: string
  uv_mime :: string
  uv_findings :: "string list"

definition DOCX_MIME :: string where
  "DOCX_MIME = ''application/vnd.openxmlformats-officedocument.wordprocessingml.document''"

definition PDF_MIME :: string where "PDF_MIME = ''application/pdf''"

text \<open>What follows the last dot, with the dot, in lower case.\<close>

definition extension :: "readers \<Rightarrow> ustr \<Rightarrow> ustr" where
  "extension rd filename = (if 46 \<in> set filename then rd_low rd (46 # last (split_on 46 filename)) else [])"

definition inspect_upload :: "readers \<Rightarrow> ustr \<Rightarrow> ustr \<Rightarrow> (string, upload_verdict) result" where
  "inspect_upload rd filename data =
     (if data = [] then Inl ''empty_file''
      else if MAX_FILE_SIZE < length data then Inl ''file_size_exceeds_30mb_limit''
      else
        let ext = extension rd filename
        in if ext = u ''.docx'' then bind_result (inspect_docx rd data) (\<lambda>fs. Inr \<lparr>uv_kind = ''docx'', uv_mime = DOCX_MIME, uv_findings = fs\<rparr>)
           else if ext = u ''.pdf'' then bind_result (inspect_pdf rd data) (\<lambda>fs. Inr \<lparr>uv_kind = ''pdf'', uv_mime = PDF_MIME, uv_findings = fs\<rparr>)
           else Inl ''unsupported_file_format_only_docx_and_pdf'')"

section \<open>The checks without their order\<close>

definition safe_relations :: "readers \<Rightarrow> ustr \<Rightarrow> bool" where
  "safe_relations rd xml \<longleftrightarrow> (\<exists>rels. rd_relations rd xml = Some rels \<and> (\<forall>r \<in> set rels. \<not> dangerous_relationship r))"

definition safe_member :: "readers \<Rightarrow> ustr \<Rightarrow> ustr \<Rightarrow> bool" where
  "safe_member rd data name \<longleftrightarrow>
     \<not> macro_name (rd_low rd name) \<and> \<not> rejected_embedding (rd_low rd name)
     \<and> (ends_with name (u ''.rels'') \<longrightarrow> (\<exists>xml. rd_member rd data name = Some xml \<and> safe_relations rd xml))
     \<and> (starts_with name (u ''word/'') \<and> ends_with name (u ''.xml'') \<longrightarrow> (\<exists>xml. rd_member rd data name = Some xml \<and> \<not> has_dde xml))"

definition docx_clean :: "readers \<Rightarrow> ustr \<Rightarrow> zip_info list \<Rightarrow> bool" where
  "docx_clean rd data infos \<longleftrightarrow>
     starts_with data [80, 75, 3, 4] \<and> rd_zip rd data = Some infos \<and> length infos \<le> MAX_ZIP_ENTRIES
     \<and> sum_list (map zi_size infos) \<le> MAX_UNCOMPRESSED_TOTAL
     \<and> (\<forall>i \<in> set infos. \<not> unsafe_name (zi_name i) \<and> \<not> unsafe_ratio i \<and> safe_member rd data (zi_name i))
     \<and> u ''word/document.xml'' \<in> zi_name ` set infos \<and> u ''[Content_Types].xml'' \<in> zi_name ` set infos
     \<and> (\<exists>types. rd_member rd data (u ''[Content_Types].xml'') = Some types \<and> \<not> occurs_in MACRO_CONTENT_TYPE_MARKER types
          \<and> occurs_in DOCX_MAIN_CONTENT_TYPE types)"

definition docx_findings :: "readers \<Rightarrow> zip_info list \<Rightarrow> string set" where
  "docx_findings rd infos = (\<Union>i \<in> set infos. set (name_findings (rd_low rd (zi_name i))))"

text \<open>All names of a PDF: in its bytes outside of the streams, and in its objects.\<close>

definition pdf_names :: "ustr \<Rightarrow> pdf_reading \<Rightarrow> ustr set" where
  "pdf_names data r = normalize_pdf_name ` set (raw_names (strip_streams data))
     \<union> (\<Union>x \<in> {x. Some x \<in> set (pf_objects r)}. set (object_names x))"

definition pdf_clean :: "readers \<Rightarrow> ustr \<Rightarrow> pdf_reading \<Rightarrow> bool" where
  "pdf_clean rd data r \<longleftrightarrow>
     starts_with data (u ''%PDF-'') \<and> rd_pdf rd data = Some r \<and> (pf_encrypted r \<longrightarrow> pf_opens_empty r)
     \<and> length (pf_objects r) \<le> MAX_PDF_OBJECTS \<and> None \<notin> set (pf_objects r)
     \<and> (\<forall>n \<in> pdf_names data r. n \<notin> set PDF_REJECTED_NAMES)"

definition pdf_findings :: "ustr \<Rightarrow> pdf_reading \<Rightarrow> string set" where
  "pdf_findings data r = {f. \<exists>n \<in> pdf_names data r. map_of PDF_RECORDED_NAMES n = Some f}"

lemma check_entries_Inr:
  "so_far \<le> MAX_UNCOMPRESSED_TOTAL \<Longrightarrow> check_entries so_far infos = Inr () \<longleftrightarrow>
     so_far + sum_list (map zi_size infos) \<le> MAX_UNCOMPRESSED_TOTAL
     \<and> (\<forall>i \<in> set infos. \<not> unsafe_name (zi_name i) \<and> \<not> unsafe_ratio i)"
proof (induction infos arbitrary: so_far)
  case (Cons i infos)
  show ?case
  proof (cases "so_far + zi_size i \<le> MAX_UNCOMPRESSED_TOTAL")
    case True
    then show ?thesis using Cons.IH [OF True] by (auto simp: add.assoc)
  next
    case False
    then show ?thesis by auto
  qed
qed simp

lemma check_names_Inr:
  "check_names rd names = Inr fs \<longleftrightarrow>
     (\<forall>n \<in> set names. \<not> macro_name (rd_low rd n) \<and> \<not> rejected_embedding (rd_low rd n))
     \<and> fs = concat (map (\<lambda>n. name_findings (rd_low rd n)) names)"
  by (induction names arbitrary: fs) (auto simp: Let_def)

lemma read_member_Inr: "read_member rd data name = Inr xml \<longleftrightarrow> rd_member rd data name = Some xml"
  by (simp add: read_member_def split: option.splits)

lemma check_relationships_Inr: "check_relationships rd xml = Inr () \<longleftrightarrow> safe_relations rd xml"
  by (auto simp: check_relationships_def safe_relations_def list_ex_iff split: option.splits)

lemma check_rels_Inr:
  "check_rels rd data names = Inr () \<longleftrightarrow>
     (\<forall>n \<in> set names. ends_with n (u ''.rels'') \<longrightarrow> (\<exists>xml. rd_member rd data n = Some xml \<and> safe_relations rd xml))"
  by (induction names) (auto simp: read_member_Inr check_relationships_Inr)

lemma check_fields_Inr:
  "check_fields rd data names = Inr () \<longleftrightarrow>
     (\<forall>n \<in> set names. starts_with n (u ''word/'') \<and> ends_with n (u ''.xml'') \<longrightarrow>
        (\<exists>xml. rd_member rd data n = Some xml \<and> \<not> has_dde xml))"
  by (induction names) (auto simp: read_member_Inr)

lemma pdf_name_verdicts_Inr:
  "pdf_name_verdicts names = Inr fs \<longleftrightarrow>
     (\<forall>n \<in> set names. n \<notin> set PDF_REJECTED_NAMES)
     \<and> fs = concat (map (\<lambda>n. case map_of PDF_RECORDED_NAMES n of None \<Rightarrow> [] | Some f \<Rightarrow> [f]) names)"
  by (induction names arbitrary: fs) (auto simp: pdf_name_verdict_def)

lemma scan_objects_Inr:
  "(\<exists>fs. scan_objects objects = Inr fs) \<longleftrightarrow>
     None \<notin> set objects \<and> (\<forall>x. Some x \<in> set objects \<longrightarrow> (\<forall>n \<in> set (object_names x). n \<notin> set PDF_REJECTED_NAMES))"
  "scan_objects objects = Inr fs \<Longrightarrow>
     set fs = {f. \<exists>x n. Some x \<in> set objects \<and> n \<in> set (object_names x) \<and> map_of PDF_RECORDED_NAMES n = Some f}"
proof (induction objects arbitrary: fs rule: scan_objects.induct)
  case 1
  { case 1 then show ?case by simp
  next case 2 then show ?case by simp }
next
  case (2 objects)
  { case 1 then show ?case by simp
  next case 2 then show ?case by simp }
next
  case (3 x objects)
  { case 1 then show ?case using 3(1) by (auto simp: pdf_name_verdicts_Inr)
  next
    case 2
    then obtain f gs where f: "pdf_name_verdicts (object_names x) = Inr f" "scan_objects objects = Inr gs" "fs = f @ gs" by auto
    have "set f = {g. \<exists>n \<in> set (object_names x). map_of PDF_RECORDED_NAMES n = Some g}"
      using f(1) unfolding pdf_name_verdicts_Inr by (auto split: option.splits)
    then show ?case using 3(2) [OF f(1) f(2)] f(3) by auto
  }
qed

lemma inspect_docx_Inr:
  assumes "\<And>xs. set (rd_order rd xs) = set xs"
  shows "inspect_docx rd data = Inr fs \<longleftrightarrow>
    (\<exists>infos. docx_clean rd data infos \<and> fs = sorted_list_of_set (docx_findings rd infos))"
proof (cases "rd_zip rd data")
  case None
  then show ?thesis by (auto simp: inspect_docx_def docx_clean_def)
next
  case (Some infos)
  let ?names = "rd_order rd (map zi_name infos)"
  have n: "set ?names = zi_name ` set infos" using assms by simp
  have sorted: "sort (remdups (concat (map (\<lambda>n. name_findings (rd_low rd n)) ?names))) = sorted_list_of_set (docx_findings rd infos)"
    unfolding sorted_list_of_set_sort_remdups [symmetric] docx_findings_def by (simp add: n)
  have "inspect_docx rd data = Inr fs \<longleftrightarrow> docx_clean rd data infos \<and> fs = sorted_list_of_set (docx_findings rd infos)"
    unfolding inspect_docx_def docx_clean_def safe_member_def sorted [symmetric]
    using check_entries_Inr [of 0 infos] n Some
    by (auto simp: Let_def read_member_Inr check_names_Inr check_rels_Inr check_fields_Inr not_less)
  then show ?thesis using Some by (auto simp: docx_clean_def)
qed

lemma inspect_pdf_Inr:
  "inspect_pdf rd data = Inr fs \<longleftrightarrow> (\<exists>r. pdf_clean rd data r \<and> fs = sorted_list_of_set (pdf_findings data r))"
proof (cases "rd_pdf rd data")
  case None
  then show ?thesis by (auto simp: inspect_pdf_def pdf_clean_def)
next
  case (Some r)
  let ?raw = "map normalize_pdf_name (raw_names (strip_streams data))"
  have both: "set f \<union> set g = pdf_findings data r"
    if "pdf_name_verdicts ?raw = Inr f" "scan_objects (pf_objects r) = Inr g" for f g
  proof -
    have "set f = {h. \<exists>n \<in> set ?raw. map_of PDF_RECORDED_NAMES n = Some h}"
      using that(1) unfolding pdf_name_verdicts_Inr by (auto split: option.splits)
    then show ?thesis using scan_objects_Inr(2) [OF that(2)] by (auto simp: pdf_findings_def pdf_names_def)
  qed
  have sorted: "sort (remdups (f @ g)) = sorted_list_of_set (pdf_findings data r)"
    if "pdf_name_verdicts ?raw = Inr f" "scan_objects (pf_objects r) = Inr g" for f g
    unfolding sorted_list_of_set_sort_remdups [symmetric] both [OF that, symmetric] by simp
  have "inspect_pdf rd data = Inr fs \<longleftrightarrow>
      starts_with data (u ''%PDF-'') \<and> (pf_encrypted r \<longrightarrow> pf_opens_empty r) \<and> length (pf_objects r) \<le> MAX_PDF_OBJECTS
      \<and> (\<exists>f g. pdf_name_verdicts ?raw = Inr f \<and> scan_objects (pf_objects r) = Inr g \<and> fs = sort (remdups (f @ g)))"
    using Some by (auto simp: inspect_pdf_def)
  also have "\<dots> \<longleftrightarrow> starts_with data (u ''%PDF-'') \<and> (pf_encrypted r \<longrightarrow> pf_opens_empty r) \<and> length (pf_objects r) \<le> MAX_PDF_OBJECTS
      \<and> (\<exists>f. pdf_name_verdicts ?raw = Inr f) \<and> (\<exists>g. scan_objects (pf_objects r) = Inr g)
      \<and> fs = sorted_list_of_set (pdf_findings data r)"
    using sorted by metis
  also have "\<dots> \<longleftrightarrow> pdf_clean rd data r \<and> fs = sorted_list_of_set (pdf_findings data r)"
    unfolding scan_objects_Inr(1) pdf_name_verdicts_Inr pdf_clean_def pdf_names_def using Some by auto
  finally show ?thesis using Some by (auto simp: pdf_clean_def)
qed

lemma inspect_upload_Inr:
  assumes "\<And>xs. set (rd_order rd xs) = set xs"
  shows "inspect_upload rd filename data = Inr v \<longleftrightarrow>
    data \<noteq> [] \<and> length data \<le> MAX_FILE_SIZE
    \<and> (extension rd filename = u ''.docx''
         \<and> (\<exists>infos. docx_clean rd data infos
              \<and> v = \<lparr>uv_kind = ''docx'', uv_mime = DOCX_MIME, uv_findings = sorted_list_of_set (docx_findings rd infos)\<rparr>)
       \<or> extension rd filename = u ''.pdf''
         \<and> (\<exists>r. pdf_clean rd data r
              \<and> v = \<lparr>uv_kind = ''pdf'', uv_mime = PDF_MIME, uv_findings = sorted_list_of_set (pdf_findings data r)\<rparr>))"
proof -
  have "u ''.docx'' \<noteq> u ''.pdf''" by (simp add: u_def)
  then show ?thesis unfolding inspect_upload_def
    by (auto simp: Let_def inspect_docx_Inr [OF assms] inspect_pdf_Inr not_less)
qed

definition sample_readers :: readers where
  "sample_readers = \<lparr>rd_zip = (\<lambda>_. None), rd_member = (\<lambda>_ _. None), rd_relations = (\<lambda>_. None),
     rd_pdf = (\<lambda>_. Some \<lparr>pf_encrypted = True, pf_opens_empty = True, pf_objects = [Some Pdf_other]\<rparr>),
     rd_low = lower, rd_order = id\<rparr>"

lemma strip_streams_Nil: "strip_streams [] = []"
  and strip_streams_Cons: "strip_streams (c # cs) =
          (case Option.bind (stream_body (c # cs)) (after_first (u ''endstream'')) of
             Some r \<Rightarrow> u ''stream endstream'' @ strip_streams r
           | None \<Rightarrow> c # strip_streams cs)"
  by (subst strip_streams.simps, simp)+

lemmas guard_eval = u_def inspect_upload_def inspect_pdf_def extension_def Let_def lower_def lower_cp_def strip_streams_Nil
  strip_streams_Cons stream_body_def pdf_name_verdict_def PDF_REJECTED_NAMES_def PDF_RECORDED_NAMES_def
  name_byte_def ascii_letter_def hex_value_def MAX_FILE_SIZE_def MAX_PDF_OBJECTS_def

lemma sample_upload_accepted:
  "inspect_upload sample_readers (u ''A.PDF'') (u ''%PDF-/J#53'')
    = Inr \<lparr>uv_kind = ''pdf'', uv_mime = PDF_MIME, uv_findings = [''pdf_javascript'']\<rparr>"
  by (simp add: guard_eval sample_readers_def)

section \<open>Escapes and references\<close>

text \<open>
  A launching action is found however its name is written in the file: with any of its letters as a hexadecimal
  escape.
\<close>

lemma escaped_launch_rejected:
  "inspect_upload sample_readers (u ''a.pdf'') (u ''%PDF- /L#61unc#68'') = Inl ''pdf_active_content_not_allowed''"
  by (simp add: guard_eval sample_readers_def)

text \<open>
  A target without a scheme counts as remote only with two equal separators at its start, while the branch of
  \<open>file:\<close> counts separators of either kind.  So a path with mixed separators passes as local.
\<close>

lemma mixed_separators_pass:
  "is_network_target [47, 47, 104]" "is_network_target [92, 92, 104]"
  "\<not> is_network_target [92, 47, 104]" "\<not> is_network_target [47, 92, 104]"
  by (simp_all add: is_network_target_def strip_def lstrip_def rstrip_def is_space_def url_scheme_def scheme_letter_def
      ascii_letter_def Let_def)

end
