(* ===== verification/ObjectStorage.thy ===== *)
theory ObjectStorage
  imports PyText
begin

text \<open>
  \<^verbatim>\<open>adapters/object_storage/client.py\<close>: file names made safe, the key of a source file, and the store of
  objects in memory or in the file system.  A path is the list of its segments from the root.  A file system
  without symbolic links resolves a path by its segments; directories that are missing are made on the way.
\<close>

section \<open>Names and keys\<close>

text \<open>\<open>Path(filename).name\<close>: the last segment that is neither empty nor the current directory.\<close>

definition path_segments :: "ustr \<Rightarrow> ustr list" where
  "path_segments s = [p \<leftarrow> split_on 47 s. p \<noteq> [] \<and> p \<noteq> [46]]"

definition path_name :: "ustr \<Rightarrow> ustr" where
  "path_name s = (if path_segments s = [] then [] else last (path_segments s))"

definition safe_char :: "nat \<Rightarrow> bool" where
  "safe_char c \<longleftrightarrow> 97 \<le> c \<and> c \<le> 122 \<or> 65 \<le> c \<and> c \<le> 90 \<or> 48 \<le> c \<and> c \<le> 57 \<or> c \<in> {95, 46, 45} \<or> 19968 \<le> c \<and> c \<le> 40869"

definition sanitize_filename :: "ustr \<Rightarrow> ustr" where
  "sanitize_filename filename =
     (let cleaned = map (\<lambda>c. if safe_char c then c else 95) (path_name filename)
      in if cleaned \<noteq> [] then take 128 cleaned else u ''document'')"

definition build_source_key :: "string \<Rightarrow> string \<Rightarrow> string \<Rightarrow> ustr \<Rightarrow> ustr" where
  "build_source_key org c sha256 filename =
     u ''org/'' @ u org @ u ''/case/'' @ u c @ u ''/source/'' @ u sha256 @ u ''_'' @ sanitize_filename filename"

section \<open>The store\<close>

type_synonym path = "ustr list"

record storage =
  sg_memory :: bool
  sg_base :: path
  sg_objects :: "ustr \<rightharpoonup> ustr"
  sg_files :: "path \<rightharpoonup> ustr"

text \<open>A parent segment leaves the directory before it; the root is its own parent.\<close>

definition enter :: "path \<Rightarrow> ustr \<Rightarrow> path" where
  "enter dir seg = (if seg = u ''..'' then butlast dir else dir @ [seg])"

text \<open>\<open>base_dir / storage_key\<close>: a key that begins with a separator replaces the base.\<close>

definition target_file :: "path \<Rightarrow> ustr \<Rightarrow> path" where
  "target_file base key = foldl enter (if starts_with key [47] then [] else base) (path_segments key)"

definition put_object :: "ustr \<Rightarrow> ustr \<Rightarrow> storage \<Rightarrow> storage" where
  "put_object key data st =
     (if sg_memory st then st\<lparr>sg_objects := (sg_objects st)(key \<mapsto> data)\<rparr>
      else st\<lparr>sg_files := (sg_files st)(target_file (sg_base st) key \<mapsto> data)\<rparr>)"

definition get_object :: "ustr \<Rightarrow> storage \<Rightarrow> ustr option" where
  "get_object key st = (if sg_memory st then sg_objects st key else sg_files st (target_file (sg_base st) key))"

definition delete_object :: "ustr \<Rightarrow> storage \<Rightarrow> storage" where
  "delete_object key st =
     (if sg_memory st then st\<lparr>sg_objects := (sg_objects st)(key := None)\<rparr>
      else st\<lparr>sg_files := (sg_files st)(target_file (sg_base st) key := None)\<rparr>)"

text \<open>The place of a key in the store that is in use; keys with one place share an object.\<close>

definition place :: "storage \<Rightarrow> ustr \<Rightarrow> path" where
  "place st key = (if sg_memory st then [key] else target_file (sg_base st) key)"

lemma get_put: "get_object k (put_object k' d st) = (if place st k = place st k' then Some d else get_object k st)"
  by (simp add: get_object_def put_object_def place_def)

lemma get_delete: "get_object k (delete_object k' st) = (if place st k = place st k' then None else get_object k st)"
  by (simp add: get_object_def delete_object_def place_def)

lemma place_put [simp]: "place (put_object k d st) = place st"
  by (simp add: place_def put_object_def fun_eq_iff)

lemma place_delete [simp]: "place (delete_object k st) = place st"
  by (simp add: place_def delete_object_def fun_eq_iff)

section \<open>Source keys stay in their case\<close>

text \<open>A word that may stand between separators: an identifier or a digest.\<close>

definition plain_word :: "string \<Rightarrow> bool" where
  "plain_word s \<longleftrightarrow> s \<noteq> [] \<and> CHR ''/'' \<notin> set s \<and> CHR ''.'' \<notin> set s"

lemma sanitized_safe: "c \<in> set (sanitize_filename f) \<Longrightarrow> safe_char c"
proof -
  have "c \<in> set (u ''document'') \<Longrightarrow> safe_char c" by (auto simp: u_def safe_char_def)
  moreover have "c \<in> set (take 128 (map (\<lambda>c. if safe_char c then c else 95) xs)) \<Longrightarrow> safe_char c" for xs
    by (auto dest!: in_set_takeD simp: safe_char_def split: if_splits)
  ultimately show "c \<in> set (sanitize_filename f) \<Longrightarrow> safe_char c"
    by (auto simp: sanitize_filename_def Let_def split: if_splits)
qed

lemma sanitized_length: "sanitize_filename f \<noteq> [] \<and> length (sanitize_filename f) \<le> 128"
  by (auto simp: sanitize_filename_def Let_def u_def)

lemma u_append: "u (s @ t) = u s @ u t"
  by (simp add: u_def)

lemma u_inj: "u s = u t \<longleftrightarrow> s = t"
  by (auto simp: u_def dest!: map_injective intro!: injI)

lemma u_code: "of_char c \<notin> set (u s) \<longleftrightarrow> c \<notin> set s"
  by (auto simp: u_def)

lemma plain_word_free: "plain_word s \<Longrightarrow> u s \<noteq> [] \<and> 47 \<notin> set (u s) \<and> 46 \<notin> set (u s)"
  using u_code [of "CHR ''/''" s] u_code [of "CHR ''.''" s] by (simp add: plain_word_def u_def)

definition source_path :: "string \<Rightarrow> string \<Rightarrow> string \<Rightarrow> ustr \<Rightarrow> path" where
  "source_path org c sha256 filename =
     [u ''org'', u org, u ''case'', u c, u ''source'', u sha256 @ 95 # sanitize_filename filename]"

lemma source_key_join: "build_source_key org c h f = join [47] (source_path org c h f)"
  by (simp add: build_source_key_def source_path_def u_def)

lemma source_key_segments:
  assumes "plain_word org" "plain_word c" "plain_word h"
  shows "path_segments (build_source_key org c h f) = source_path org c h f"
proof -
  have n: "47 \<notin> set (sanitize_filename f)" using sanitized_safe [of 47 f] by (auto simp: safe_char_def)
  have free: "\<And>x. x \<in> set (source_path org c h f) \<Longrightarrow> 47 \<notin> set x"
    using assms [THEN plain_word_free] n by (auto simp: source_path_def u_def)
  have "split_on 47 (build_source_key org c h f) = source_path org c h f"
    unfolding source_key_join by (rule split_on_join) (simp add: source_path_def, rule free)
  moreover have "\<forall>x \<in> set (source_path org c h f). x \<noteq> [] \<and> x \<noteq> [46]"
    using assms [THEN plain_word_free] by (auto simp: source_path_def u_def append_eq_Cons_conv)
  ultimately show ?thesis by (simp add: path_segments_def)
qed

lemma foldl_enter: "u ''..'' \<notin> set ps \<Longrightarrow> foldl enter dir ps = dir @ ps"
  by (induction ps arbitrary: dir) (auto simp: enter_def)

lemma source_key_place:
  assumes "plain_word org" "plain_word c" "plain_word h" "\<not> sg_memory st"
  shows "place st (build_source_key org c h f) = sg_base st @ source_path org c h f"
proof -
  have "46 \<notin> set (u org)" "46 \<notin> set (u c)" "u h \<noteq> []" "46 \<notin> set (u h)"
    using assms(1-3) [THEN plain_word_free] by auto
  then have "u ''..'' \<notin> set (source_path org c h f)"
    by (auto simp: source_path_def u_def Cons_eq_append_conv)
  moreover have "\<not> starts_with (build_source_key org c h f) [47]"
    by (simp add: build_source_key_def u_def)
  ultimately show ?thesis
    using assms by (simp add: place_def target_file_def source_key_segments foldl_enter)
qed

text \<open>Two source keys with one place belong to one case and one digest.\<close>

lemma source_keys_apart:
  assumes "plain_word org" "plain_word c" "plain_word h" "plain_word org'" "plain_word c'" "plain_word h'"
    and "length h = length h'" "place st (build_source_key org c h f) = place st (build_source_key org' c' h' f')"
  shows "org = org' \<and> c = c' \<and> h = h'"
proof -
  have "source_path org c h f = source_path org' c' h' f'"
  proof (cases "sg_memory st")
    case True
    then show ?thesis using assms source_key_segments by (metis place_def list.inject)
  next
    case False
    then show ?thesis using assms source_key_place by auto
  qed
  then show ?thesis using assms(7) by (auto simp: source_path_def u_inj) (simp add: u_def append_eq_append_conv u_inj [unfolded u_def])
qed

text \<open>The columns of a source document are wide enough for its key.\<close>

lemma source_key_length:
  assumes "length org = 36" "length c = 36" "length h = 64"
  shows "length (build_source_key org c h f) \<le> 283"
  using assms sanitized_length [of f] by (simp add: build_source_key_def u_def)

end
