(* ===== verification/CaseService.thy ===== *)
theory CaseService
  imports UploadGuard ObjectStorage Organizations CaseTables
begin

text \<open>
  \<^verbatim>\<open>cases/services.py\<close>: cases within the monthly allowance, the upload of a source document, the confirmation
  of a document version, and the drawings of a case.  The functions work inside the authorized transaction of their
  route, which holds the lock of the organization.  Clock, fresh identifiers (a function of a counter), the
  digest, the readers of the upload guard and the extraction of drawings are arguments.  Column widths and the
  columns \<open>updated_at\<close> of a case are left out; rows of equal time keep the order of the table.
\<close>

section \<open>Tables\<close>

record case_db =
  cs_quotas :: "quota list"
  cs_cases :: "case_row list"
  cs_documents :: "source_document list"
  cs_runs :: "parse_run list"
  cs_versions :: "document_version list"
  cs_drawings :: "drawing list"

section \<open>Cases\<close>

definition cases_in_period :: "string \<Rightarrow> quota \<Rightarrow> case_db \<Rightarrow> nat" where
  "cases_in_period org q db =
     length (filter (\<lambda>r. ca_organization r = org \<and> qu_period_start q \<le> ca_created_at r \<and> ca_created_at r < qu_period_end q)
               (cs_cases db))"

definition quota_used :: "string \<Rightarrow> case_db \<Rightarrow> quota option" where
  "quota_used org db =
     (case find (\<lambda>q. qu_organization q = org) (cs_quotas db) of
        None \<Rightarrow> None
      | Some q \<Rightarrow> if qu_allowance q \<le> int (cases_in_period org q db) then Some q else None)"

definition case_number_taken :: "string \<Rightarrow> ustr \<Rightarrow> case_db \<Rightarrow> bool" where
  "case_number_taken org number db \<longleftrightarrow> list_ex (\<lambda>r. ca_organization r = org \<and> ca_number r = number) (cs_cases db)"

definition create_case :: "(nat \<Rightarrow> string) \<Rightarrow> nat \<Rightarrow> string \<Rightarrow> string \<Rightarrow> ustr \<Rightarrow> ustr \<Rightarrow> ustr \<Rightarrow> string \<Rightarrow> case_db
    \<Rightarrow> (http_error, case_row \<times> case_db) result" where
  "create_case fresh now org actor number title field jurisdiction db =
     (let clean_number = strip number; clean_title = strip title; clean_field = strip field
      in if clean_number = [] \<or> clean_title = [] \<or> clean_field = [] then Inl (Http 422 ''missing_case_required_fields'')
         else
           (case quota_used org db of
              Some q \<Rightarrow> Inl (Http 422 (''monthly_case_quota_exceeded_limit_'' @ str_int (qu_allowance q)))
            | None \<Rightarrow>
                if case_number_taken org clean_number db then Inl (Http 409 ''case_number_already_exists'')
                else
                  let row = \<lparr>ca_id = fresh 0, ca_organization = org, ca_number = clean_number, ca_title = clean_title,
                             ca_field = clean_field, ca_jurisdiction = jurisdiction, ca_status = ''draft'',
                             ca_created_by = actor, ca_created_at = now\<rparr>
                  in Inr (row, db\<lparr>cs_cases := cs_cases db @ [row]\<rparr>)))"

definition list_cases :: "string \<Rightarrow> case_db \<Rightarrow> case_row list" where
  "list_cases org db = sort_key (\<lambda>r. - int (ca_created_at r)) (filter (\<lambda>r. ca_organization r = org) (cs_cases db))"

record case_detail =
  cd_case :: case_row
  cd_document :: "source_document option"
  cd_run :: "parse_run option"
  cd_version :: "document_version option"

definition get_case :: "string \<Rightarrow> string \<Rightarrow> case_db \<Rightarrow> case_detail option" where
  "get_case org c db =
     map_option (\<lambda>row.
         \<lparr>cd_case = row,
          cd_document = latest_by sd_created_at (filter (\<lambda>d. sd_case d = c \<and> sd_organization d = org) (cs_documents db)),
          cd_run = latest_by pr_created_at (filter (\<lambda>r. pr_case r = c \<and> pr_organization r = org) (cs_runs db)),
          cd_version = latest_by dv_number (filter (\<lambda>v. dv_case v = c \<and> dv_organization v = org) (cs_versions db))\<rparr>)
       (find (\<lambda>r. ca_id r = c \<and> ca_organization r = org) (cs_cases db))"

definition confirm_document_version :: "string \<Rightarrow> string \<Rightarrow> string \<Rightarrow> string \<Rightarrow> case_db
    \<Rightarrow> (http_error, (string \<times> string \<times> string) \<times> case_db) result" where
  "confirm_document_version org c vid actor db =
     (case find (\<lambda>v. dv_id v = vid \<and> dv_case v = c \<and> dv_organization v = org) (cs_versions db) of
        None \<Rightarrow> Inl (Http 404 ''document_version_not_found'')
      | Some _ \<Rightarrow>
          Inr ((''confirmed'', vid, ''document_ready''),
               db\<lparr>cs_versions := update_where (\<lambda>v. dv_id v = vid) (\<lambda>v. v\<lparr>dv_confirmed := True, dv_created_by := Some actor\<rparr>) (cs_versions db),
                  cs_cases := update_where (\<lambda>r. ca_id r = c) (\<lambda>r. r\<lparr>ca_status := ''document_ready''\<rparr>) (cs_cases db)\<rparr>))"

section \<open>Uploads\<close>

text \<open>The object is stored before the rows are written.\<close>

definition upload_document :: "readers \<Rightarrow> (ustr \<Rightarrow> string) \<Rightarrow> (nat \<Rightarrow> string) \<Rightarrow> nat \<Rightarrow> string \<Rightarrow> string \<Rightarrow> ustr \<Rightarrow> ustr
    \<Rightarrow> case_db \<times> storage \<Rightarrow> (http_error, (source_document \<times> parse_run) \<times> case_db \<times> storage) result" where
  "upload_document rd sha256 fresh now org c filename data st =
     (case inspect_upload rd filename data of
        Inl code \<Rightarrow> Inl (Http 422 code)
      | Inr verdict \<Rightarrow>
          let key = build_source_key org c (sha256 data) filename;
              doc = \<lparr>sd_id = fresh 0, sd_organization = org, sd_case = c, sd_name = filename, sd_size = length data,
                     sd_mime = uv_mime verdict, sd_sha256_hex = sha256 data, sd_key = key,
                     sd_findings = uv_findings verdict, sd_created_at = now\<rparr>;
              run = \<lparr>pr_id = fresh 1, pr_organization = org, pr_case = c, pr_source = fresh 0, pr_status = ''queued'',
                     pr_error = None, pr_started_at = None, pr_finished_at = None, pr_created_at = now\<rparr>
          in Inr ((doc, run),
                  (fst st)\<lparr>cs_documents := cs_documents (fst st) @ [doc], cs_runs := cs_runs (fst st) @ [run]\<rparr>,
                  put_object key data (snd st)))"

definition list_versions :: "string \<Rightarrow> string \<Rightarrow> case_db \<Rightarrow> document_version list" where
  "list_versions org c db = sort_key dv_number (filter (\<lambda>v. dv_case v = c \<and> dv_organization v = org) (cs_versions db))"

section \<open>Drawings\<close>

definition drawing_key :: "string \<Rightarrow> string \<Rightarrow> string \<Rightarrow> ustr \<Rightarrow> ustr" where
  "drawing_key org c sha256 filename =
     u ''org/'' @ u org @ u ''/case/'' @ u c @ u ''/drawings/'' @ u sha256 @ u ''_'' @ filename"

definition case_drawings :: "string \<Rightarrow> string \<Rightarrow> case_db \<Rightarrow> drawing list" where
  "case_drawings org c db = filter (\<lambda>d. dr_case d = c \<and> dr_organization d = org) (cs_drawings db)"

definition list_drawings :: "string \<Rightarrow> string \<Rightarrow> case_db \<Rightarrow> drawing list" where
  "list_drawings org c db = sort_key (\<lambda>d. (dr_order d, dr_created_at d)) (case_drawings org c db)"

definition get_drawing :: "string \<Rightarrow> string \<Rightarrow> string \<Rightarrow> case_db \<Rightarrow> drawing option" where
  "get_drawing org c did db = find (\<lambda>d. dr_id d = did \<and> dr_case d = c \<and> dr_organization d = org) (cs_drawings db)"

definition next_order :: "string \<Rightarrow> string \<Rightarrow> case_db \<Rightarrow> int" where
  "next_order org c db = (let n = next_after (map dr_order (case_drawings org c db)) in if n = 0 then 1 else n)"

definition add_drawing :: "(ustr \<Rightarrow> string) \<Rightarrow> (nat \<Rightarrow> string) \<Rightarrow> nat \<Rightarrow> string \<Rightarrow> string \<Rightarrow> ustr \<Rightarrow> ustr \<Rightarrow> ustr \<Rightarrow> ustr
    \<Rightarrow> (ustr, ustr) pydict list \<Rightarrow> ustr \<Rightarrow> case_db \<times> storage \<Rightarrow> drawing \<times> case_db \<times> storage" where
  "add_drawing sha256 fresh now org c data filename label title marks mime st =
     (let key = drawing_key org c (sha256 data) filename;
          d = \<lparr>dr_id = fresh 0, dr_organization = org, dr_case = c, dr_source = None, dr_version = None, dr_label = label,
               dr_title = title, dr_marks = marks, dr_key = key, dr_mime = mime, dr_size = length data,
               dr_sha256 = sha256 data, dr_page = None, dr_order = next_order org c (fst st), dr_manual = True,
               dr_created_at = now, dr_updated_at = now\<rparr>
      in (d, (fst st)\<lparr>cs_drawings := cs_drawings (fst st) @ [d]\<rparr>, put_object key data (snd st)))"

definition or_old :: "'a option \<Rightarrow> 'a \<Rightarrow> 'a" where
  "or_old x old = (case x of None \<Rightarrow> old | Some y \<Rightarrow> y)"

definition drawing_not_found :: http_error where
  "drawing_not_found = Http 404 ''drawing_not_found''"

definition update_drawing_metadata :: "nat \<Rightarrow> string \<Rightarrow> string \<Rightarrow> string \<Rightarrow> ustr option \<Rightarrow> ustr option
    \<Rightarrow> (ustr, ustr) pydict list option \<Rightarrow> int option \<Rightarrow> case_db \<Rightarrow> (http_error, drawing \<times> case_db) result" where
  "update_drawing_metadata now org c did label title marks order db =
     (case get_drawing org c did db of
        None \<Rightarrow> Inl drawing_not_found
      | Some old \<Rightarrow>
          let new = (\<lambda>d. d\<lparr>dr_label := or_old label (dr_label old), dr_title := or_old title (dr_title old),
                       dr_marks := or_old marks (dr_marks old), dr_order := or_old order (dr_order old), dr_updated_at := now\<rparr>)
          in Inr (new old,
                  db\<lparr>cs_drawings := update_where (\<lambda>d. dr_id d = did \<and> dr_case d = c \<and> dr_organization d = org) new
                                      (cs_drawings db)\<rparr>))"

definition delete_drawing :: "string \<Rightarrow> string \<Rightarrow> string \<Rightarrow> case_db \<Rightarrow> (http_error, case_db) result" where
  "delete_drawing org c did db =
     (case get_drawing org c did db of
        None \<Rightarrow> Inl drawing_not_found
      | Some _ \<Rightarrow> Inr (db\<lparr>cs_drawings := filter (\<lambda>d. \<not> (dr_id d = did \<and> dr_case d = c \<and> dr_organization d = org))
                                       (cs_drawings db)\<rparr>))"

text \<open>What the extractor finds in the bytes of a document.\<close>

record extracted_drawing =
  ed_data :: ustr
  ed_name :: ustr
  ed_mime :: ustr
  ed_label :: ustr
  ed_title :: ustr
  ed_marks :: "(ustr, ustr) pydict list"
  ed_sha256 :: string
  ed_page :: "nat option"
  ed_order :: int

definition drawing_of :: "string \<Rightarrow> nat \<Rightarrow> string \<Rightarrow> string \<Rightarrow> string \<Rightarrow> string option \<Rightarrow> extracted_drawing \<Rightarrow> drawing" where
  "drawing_of i now org c doc version e =
     \<lparr>dr_id = i, dr_organization = org, dr_case = c, dr_source = Some doc, dr_version = version, dr_label = ed_label e,
      dr_title = ed_title e, dr_marks = ed_marks e, dr_key = drawing_key org c (ed_sha256 e) (ed_name e), dr_mime = ed_mime e,
      dr_size = length (ed_data e), dr_sha256 = ed_sha256 e, dr_page = ed_page e, dr_order = ed_order e, dr_manual = False,
      dr_created_at = now, dr_updated_at = now\<rparr>"

text \<open>One extracted drawing: its image is stored, its row only when the case has no drawing with the same digest.\<close>

definition take_drawing :: "(nat \<Rightarrow> string) \<Rightarrow> nat \<Rightarrow> string \<Rightarrow> string \<Rightarrow> string \<Rightarrow> extracted_drawing
    \<Rightarrow> nat \<times> case_db \<times> storage \<Rightarrow> nat \<times> case_db \<times> storage" where
  "take_drawing fresh now org c doc e = (\<lambda>(n, db, st).
     let st = put_object (drawing_key org c (ed_sha256 e) (ed_name e)) (ed_data e) st
     in if \<exists>d \<in> set (case_drawings org c db). dr_sha256 d = ed_sha256 e then (n, db, st)
        else (Suc n, db\<lparr>cs_drawings := cs_drawings db @ [drawing_of (fresh n) now org c doc None e]\<rparr>, st))"

definition take_document :: "(ustr \<Rightarrow> ustr \<Rightarrow> string \<Rightarrow> ustr \<Rightarrow> extracted_drawing list) \<Rightarrow> (nat \<Rightarrow> string) \<Rightarrow> nat \<Rightarrow> string
    \<Rightarrow> string \<Rightarrow> ustr \<Rightarrow> source_document \<Rightarrow> nat \<times> case_db \<times> storage \<Rightarrow> nat \<times> case_db \<times> storage" where
  "take_document extractor fresh now org c latest_text doc = (\<lambda>(n, db, st).
     case get_object (sd_key doc) st of
       None \<Rightarrow> (n, db, st)
     | Some raw \<Rightarrow>
         if raw = [] then (n, db, st)
         else fold (take_drawing fresh now org c (sd_id doc)) (extractor raw (sd_name doc) (sd_mime doc) latest_text) (n, db, st))"

definition latest_text :: "string \<Rightarrow> string \<Rightarrow> case_db \<Rightarrow> ustr" where
  "latest_text org c db =
     (case latest_by dv_number (filter (\<lambda>v. dv_case v = c \<and> dv_organization v = org) (cs_versions db)) of
        None \<Rightarrow> [] | Some v \<Rightarrow> dv_text v)"

definition documents_to_process :: "string \<Rightarrow> string \<Rightarrow> string option \<Rightarrow> case_db \<Rightarrow> source_document list" where
  "documents_to_process org c wanted db =
     filter (\<lambda>d. sd_case d = c \<and> sd_organization d = org
               \<and> (case wanted of None \<Rightarrow> True | Some i \<Rightarrow> sd_id d = i)) (cs_documents db)"

definition re_extract_drawings :: "(ustr \<Rightarrow> ustr \<Rightarrow> string \<Rightarrow> ustr \<Rightarrow> extracted_drawing list) \<Rightarrow> (nat \<Rightarrow> string) \<Rightarrow> nat
    \<Rightarrow> string \<Rightarrow> string \<Rightarrow> string option \<Rightarrow> case_db \<times> storage \<Rightarrow> drawing list \<times> case_db \<times> storage" where
  "re_extract_drawings extractor fresh now org c wanted st =
     (let docs = documents_to_process org c wanted (fst st)
      in if docs = [] then ([], st)
         else
           case fold (take_document extractor fresh now org c (latest_text org c (fst st))) docs (0, st) of
             (_, db, sg) \<Rightarrow> (list_drawings org c db, db, sg))"

end
