(* ===== verification/ParseWorker.thy ===== *)
theory ParseWorker
  imports CaseService
begin

text \<open>
  \<^verbatim>\<open>apps/worker\<close>: the worker that takes queued parse runs (\<open>parse_worker.py\<close>) and its loop (\<open>main.py\<close>), and the system of
  several workers beside the services of the cases.  The parser with its readers, the clock, fresh identifiers and
  the text of a database error are arguments.
\<close>

section \<open>One task\<close>

record parse_task =
  pt_run :: string
  pt_organization :: string
  pt_case :: string
  pt_source :: string
  pt_name :: ustr
  pt_mime :: string
  pt_key :: ustr

text \<open>\<open>parse_bytes\<close> of the parser, or the text of the exception that it raises.\<close>

type_synonym document_reader = "ustr \<Rightarrow> ustr \<Rightarrow> string \<Rightarrow> (ustr, parsed \<times> extracted_drawing list) result"

text \<open>The queued runs with their documents, in the order of the table.\<close>

definition queued_tasks :: "case_db \<Rightarrow> (parse_run \<times> source_document) list" where
  "queued_tasks db = [(r, d). r \<leftarrow> cs_runs db, pr_status r = ''queued'', d \<leftarrow> cs_documents db, sd_id d = pr_source r]"

definition set_run :: "string \<Rightarrow> (parse_run \<Rightarrow> parse_run) \<Rightarrow> case_db \<Rightarrow> case_db" where
  "set_run run f db = db\<lparr>cs_runs := update_where (\<lambda>r. pr_id r = run) f (cs_runs db)\<rparr>"

definition start_run :: "nat \<Rightarrow> parse_run \<Rightarrow> parse_run" where
  "start_run now r = r\<lparr>pr_status := ''running'', pr_started_at := Some now\<rparr>"

definition complete_run :: "nat \<Rightarrow> parse_run \<Rightarrow> parse_run" where
  "complete_run now r = r\<lparr>pr_status := ''completed'', pr_finished_at := Some now\<rparr>"

definition fail_run :: "nat \<Rightarrow> ustr \<Rightarrow> parse_run \<Rightarrow> parse_run" where
  "fail_run now err r = r\<lparr>pr_status := ''failed'', pr_error := Some (take 500 err), pr_finished_at := Some now\<rparr>"

text \<open>The oldest queued run is claimed; the row lock makes this one step.\<close>

definition claim_task :: "nat \<Rightarrow> case_db \<Rightarrow> (parse_task \<times> case_db) option" where
  "claim_task now db =
     (case queued_tasks db of
        [] \<Rightarrow> None
      | p # ps \<Rightarrow>
          (case min_key (pr_created_at \<circ> fst) p ps of
             (r, d) \<Rightarrow>
               Some (\<lparr>pt_run = pr_id r, pt_organization = pr_organization r, pt_case = pr_case r, pt_source = pr_source r,
                      pt_name = sd_name d, pt_mime = sd_mime d, pt_key = sd_key d\<rparr>,
                     set_run (pr_id r) (start_run now) db)))"

definition read_and_parse :: "document_reader \<Rightarrow> storage \<Rightarrow> parse_task \<Rightarrow> (ustr, parsed \<times> extracted_drawing list) result" where
  "read_and_parse parser st t =
     (case get_object (pt_key t) st of
        None \<Rightarrow> Inl (u ''source file not found in storage at '' @ pt_key t)
      | Some raw \<Rightarrow> parser raw (pt_name t) (pt_mime t))"

definition next_version :: "string \<Rightarrow> case_db \<Rightarrow> nat" where
  "next_version c db = nat (next_after (map (int \<circ> dv_number) (filter (\<lambda>v. dv_case v = c) (cs_versions db))))"

fun store_drawings :: "(nat \<Rightarrow> string) \<Rightarrow> (nat \<Rightarrow> nat) \<Rightarrow> parse_task \<Rightarrow> string \<Rightarrow> nat \<Rightarrow> extracted_drawing list
    \<Rightarrow> case_db \<times> storage \<Rightarrow> case_db \<times> storage" where
  "store_drawings fresh clock t version n [] st = st"
| "store_drawings fresh clock t version n (e # es) (db, st) =
     store_drawings fresh clock t version (Suc n) es
       (db\<lparr>cs_drawings := cs_drawings db @
             [drawing_of (fresh n) (clock n) (pt_organization t) (pt_case t) (pt_source t) (Some version) e]\<rparr>,
        put_object (drawing_key (pt_organization t) (pt_case t) (ed_sha256 e) (ed_name e)) (ed_data e) st)"

text \<open>
  The transaction that writes a result with the version number read before.  The index over case and number refuses
  a number that another transaction has committed meanwhile.
\<close>

definition store_result :: "ustr \<Rightarrow> (nat \<Rightarrow> string) \<Rightarrow> (nat \<Rightarrow> nat) \<Rightarrow> parse_task \<Rightarrow> nat \<Rightarrow> parsed \<Rightarrow> extracted_drawing list
    \<Rightarrow> case_db \<times> storage \<Rightarrow> (ustr, case_db \<times> storage) result" where
  "store_result conflict fresh clock t number doc drawings st =
     (if list_ex (\<lambda>v. dv_case v = pt_case t \<and> dv_number v = number) (cs_versions (fst st)) then Inl conflict
      else
        let version = \<lparr>dv_id = fresh 0, dv_organization = pt_organization t, dv_case = pt_case t, dv_source = pt_source t,
                       dv_number = number, dv_parent = None, dv_text = pd_text doc, dv_paragraphs = pd_paragraphs doc,
                       dv_sha256 = pd_sha256 doc, dv_confirmed = False, dv_created_by = None, dv_created_at = clock 0\<rparr>
        in case store_drawings fresh clock t (fresh 0) 1 drawings ((fst st)\<lparr>cs_versions := cs_versions (fst st) @ [version]\<rparr>, snd st) of
             (db, sg) \<Rightarrow> Inr (set_run (pt_run t) (complete_run (clock (Suc (length drawings)))) db, sg))"

definition fail_task :: "nat \<Rightarrow> ustr \<Rightarrow> parse_task \<Rightarrow> case_db \<Rightarrow> case_db" where
  "fail_task now err t db = set_run (pt_run t) (fail_run now err) db"

section \<open>A worker alone\<close>

definition run_once :: "document_reader \<Rightarrow> ustr \<Rightarrow> (nat \<Rightarrow> string) \<Rightarrow> (nat \<Rightarrow> nat) \<Rightarrow> case_db \<times> storage \<Rightarrow> bool \<times> case_db \<times> storage" where
  "run_once parser conflict fresh clock st =
     (case claim_task (clock 0) (fst st) of
        None \<Rightarrow> (False, st)
      | Some (t, db) \<Rightarrow>
          (case read_and_parse parser (snd st) t of
             Inl err \<Rightarrow> (True, fail_task (clock 1) err t db, snd st)
           | Inr (doc, drawings) \<Rightarrow>
               (case store_result conflict fresh (clock \<circ> Suc) t (next_version (pt_case t) db) doc drawings (db, snd st) of
                  Inl err \<Rightarrow> (True, fail_task (clock 1) err t db, snd st)
                | Inr st' \<Rightarrow> (True, st'))))"

text \<open>The loop of the service over a number of rounds; it sleeps when there was nothing to do.\<close>

fun worker_loop :: "document_reader \<Rightarrow> ustr \<Rightarrow> (nat \<Rightarrow> nat \<Rightarrow> string) \<Rightarrow> (nat \<Rightarrow> nat \<Rightarrow> nat) \<Rightarrow> nat \<Rightarrow> case_db \<times> storage
    \<Rightarrow> bool list \<times> case_db \<times> storage" where
  "worker_loop parser conflict fresh clock 0 st = ([], st)"
| "worker_loop parser conflict fresh clock (Suc n) st =
     (case run_once parser conflict (fresh n) (clock n) st of
        (worked, st') \<Rightarrow> map_prod (\<lambda>ws. worked # ws) id (worker_loop parser conflict fresh clock n st'))"

section \<open>Several workers beside the services\<close>

datatype worker =
    Idle
  | Claimed parse_task
  | Numbered parse_task nat parsed "extracted_drawing list"

record parse_system =
  sy_db :: case_db
  sy_store :: storage
  sy_workers :: "nat \<Rightarrow> worker"

definition used_ids :: "case_db \<Rightarrow> string set" where
  "used_ids db = ca_id ` set (cs_cases db) \<union> sd_id ` set (cs_documents db) \<union> pr_id ` set (cs_runs db)
     \<union> dv_id ` set (cs_versions db) \<union> dr_id ` set (cs_drawings db)"

definition unused :: "(nat \<Rightarrow> string) \<Rightarrow> case_db \<Rightarrow> bool" where
  "unused fresh db \<longleftrightarrow> inj fresh \<and> range fresh \<inter> used_ids db = {}"

text \<open>
  A step of the services, or of one worker: a claim; the read of the next version number after parsing; the end of the
  task, which commits a result or writes the failure; or the loss of a worker with its task.
\<close>

inductive sys_step :: "document_reader \<Rightarrow> parse_system \<Rightarrow> parse_system \<Rightarrow> bool" for parser where
  create: "create_case fresh now org actor number title field jurisdiction (sy_db s) = Inr (row, db)
     \<Longrightarrow> unused fresh (sy_db s) \<Longrightarrow> sys_step parser s (s\<lparr>sy_db := db\<rparr>)"
| confirm: "confirm_document_version org c vid actor (sy_db s) = Inr (out, db) \<Longrightarrow> sys_step parser s (s\<lparr>sy_db := db\<rparr>)"
| upload: "upload_document rd sha256 fresh now org c filename data (sy_db s, sy_store s) = Inr (out, db, st)
     \<Longrightarrow> unused fresh (sy_db s) \<Longrightarrow> get_case org c (sy_db s) \<noteq> None
     \<Longrightarrow> sys_step parser s (s\<lparr>sy_db := db, sy_store := st\<rparr>)"
| add: "add_drawing sha256 fresh now org c data filename label title marks mime (sy_db s, sy_store s) = (d, db, st)
     \<Longrightarrow> unused fresh (sy_db s) \<Longrightarrow> sys_step parser s (s\<lparr>sy_db := db, sy_store := st\<rparr>)"
| update: "update_drawing_metadata now org c did label title marks order (sy_db s) = Inr (d, db)
     \<Longrightarrow> sys_step parser s (s\<lparr>sy_db := db\<rparr>)"
| delete: "delete_drawing org c did (sy_db s) = Inr db \<Longrightarrow> sys_step parser s (s\<lparr>sy_db := db\<rparr>)"
| re_extract: "re_extract_drawings extractor fresh now org c wanted (sy_db s, sy_store s) = (ds, db, st)
     \<Longrightarrow> unused fresh (sy_db s) \<Longrightarrow> sys_step parser s (s\<lparr>sy_db := db, sy_store := st\<rparr>)"
| claim: "sy_workers s w = Idle \<Longrightarrow> claim_task now (sy_db s) = Some (t, db)
     \<Longrightarrow> sys_step parser s (s\<lparr>sy_db := db, sy_workers := (sy_workers s)(w := Claimed t)\<rparr>)"
| number: "sy_workers s w = Claimed t \<Longrightarrow> read_and_parse parser (sy_store s) t = Inr (doc, drawings)
     \<Longrightarrow> sys_step parser s (s\<lparr>sy_workers := (sy_workers s)(w := Numbered t (next_version (pt_case t) (sy_db s)) doc drawings)\<rparr>)"
| unread: "sy_workers s w = Claimed t \<Longrightarrow> read_and_parse parser (sy_store s) t = Inl err
     \<Longrightarrow> sys_step parser s (s\<lparr>sy_db := fail_task now err t (sy_db s), sy_workers := (sy_workers s)(w := Idle)\<rparr>)"
| store: "sy_workers s w = Numbered t n doc drawings
     \<Longrightarrow> store_result conflict fresh clock t n doc drawings (sy_db s, sy_store s) = Inr (db, st) \<Longrightarrow> unused fresh (sy_db s)
     \<Longrightarrow> sys_step parser s (s\<lparr>sy_db := db, sy_store := st, sy_workers := (sy_workers s)(w := Idle)\<rparr>)"
| conflict: "sy_workers s w = Numbered t n doc drawings
     \<Longrightarrow> store_result conflict fresh clock t n doc drawings (sy_db s, sy_store s) = Inl err
     \<Longrightarrow> sys_step parser s (s\<lparr>sy_db := fail_task now err t (sy_db s), sy_workers := (sy_workers s)(w := Idle)\<rparr>)"
| crash: "sys_step parser s (s\<lparr>sy_workers := (sy_workers s)(w := Idle)\<rparr>)"

definition new_system :: "quota list \<Rightarrow> storage \<Rightarrow> parse_system" where
  "new_system qs st =
     \<lparr>sy_db = \<lparr>cs_quotas = qs, cs_cases = [], cs_documents = [], cs_runs = [], cs_versions = [], cs_drawings = []\<rparr>,
      sy_store = st, sy_workers = (\<lambda>_. Idle)\<rparr>"

inductive sys_reachable :: "document_reader \<Rightarrow> quota list \<Rightarrow> parse_system \<Rightarrow> bool" for parser qs where
  init: "sys_reachable parser qs (new_system qs st)"
| step: "sys_reachable parser qs s \<Longrightarrow> sys_step parser s s' \<Longrightarrow> sys_reachable parser qs s'"

end
