(* ===== verification/CaseSafety.thy ===== *)
theory CaseSafety
  imports ParseWorker
begin

text \<open>
  What the services of the cases and the parse workers keep: the monthly allowance, the states of the runs, one worker
  per run, consecutive version numbers, and a queue that drains.
\<close>

section \<open>Runs\<close>

text \<open>The columns of a run fit its state.\<close>

definition run_typed :: "parse_run \<Rightarrow> bool" where
  "run_typed r \<longleftrightarrow>
     pr_status r = ''queued'' \<and> pr_started_at r = None \<and> pr_finished_at r = None \<and> pr_error r = None
   \<or> pr_status r = ''running'' \<and> pr_started_at r \<noteq> None \<and> pr_finished_at r = None \<and> pr_error r = None
   \<or> pr_status r = ''completed'' \<and> pr_started_at r \<noteq> None \<and> pr_finished_at r \<noteq> None \<and> pr_error r = None
   \<or> pr_status r = ''failed'' \<and> pr_started_at r \<noteq> None \<and> pr_finished_at r \<noteq> None
       \<and> (\<exists>e. pr_error r = Some e \<and> length e \<le> 500)"

definition task_of :: "worker \<Rightarrow> parse_task option" where
  "task_of w = (case w of Idle \<Rightarrow> None | Claimed t \<Rightarrow> Some t | Numbered t _ _ _ \<Rightarrow> Some t)"

lemma task_of_simps [simp]: "task_of Idle = None" "task_of (Claimed t) = Some t" "task_of (Numbered t n d ds) = Some t"
  by (simp_all add: task_of_def)

text \<open>A task that a worker holds belongs to a running run, and to no other worker.\<close>

definition tasks_held :: "parse_run list \<Rightarrow> (nat \<Rightarrow> worker) \<Rightarrow> bool" where
  "tasks_held runs ws \<longleftrightarrow>
     (\<forall>w t. task_of (ws w) = Some t \<longrightarrow>
        (\<exists>r \<in> set runs. pr_id r = pt_run t \<and> pr_status r = ''running'' \<and> pr_case r = pt_case t)
        \<and> (\<forall>w' t'. task_of (ws w') = Some t' \<and> pt_run t' = pt_run t \<longrightarrow> w' = w))"

type_synonym numbering = "(string \<times> nat) list"

definition numbers :: "string \<Rightarrow> numbering \<Rightarrow> nat list" where
  "numbers c vs = map snd (filter (\<lambda>v. fst v = c) vs)"

definition completed_runs :: "string \<Rightarrow> parse_run list \<Rightarrow> parse_run list" where
  "completed_runs c runs = filter (\<lambda>r. pr_case r = c \<and> pr_status r = ''completed'') runs"

text \<open>The versions of a case are numbered from one, one for each completed run.\<close>

definition versions_numbered :: "parse_run list \<Rightarrow> numbering \<Rightarrow> (nat \<Rightarrow> worker) \<Rightarrow> bool" where
  "versions_numbered runs vs ws \<longleftrightarrow>
     (\<forall>c. numbers c vs = [1..<Suc (length (numbers c vs))] \<and> length (numbers c vs) = length (completed_runs c runs))
   \<and> (\<forall>w t n d ds. ws w = Numbered t n d ds \<longrightarrow> 1 \<le> n \<and> n \<le> Suc (length (numbers (pt_case t) vs)))"

definition runs_ok :: "parse_run list \<Rightarrow> numbering \<Rightarrow> (nat \<Rightarrow> worker) \<Rightarrow> bool" where
  "runs_ok runs vs ws \<longleftrightarrow> distinct (map pr_id runs) \<and> list_all run_typed runs \<and> tasks_held runs ws \<and> versions_numbered runs vs ws"

definition numbering_of :: "case_db \<Rightarrow> numbering" where
  "numbering_of db = map (\<lambda>v. (dv_case v, dv_number v)) (cs_versions db)"

lemma map_id_update: "(\<And>r. pr_id (f r) = pr_id r) \<Longrightarrow> map pr_id (update_where P f runs) = map pr_id runs"
  by (simp add: update_where_def)

lemma mem_update: "x \<in> set (update_where P f xs) \<longleftrightarrow> (\<exists>y \<in> set xs. x = (if P y then f y else y))"
  by (auto simp: update_where_def)

lemma other_stays: "x \<in> set xs \<Longrightarrow> \<not> P x \<Longrightarrow> x \<in> set (update_where P f xs)"
  unfolding mem_update by force

lemma changed_mem: "x \<in> set xs \<Longrightarrow> P x \<Longrightarrow> f x \<in> set (update_where P f xs)"
  unfolding mem_update by force

lemma length_filter_update:
  assumes "distinct (map pr_id runs)" "r \<in> set runs" "pr_id r = i"
  shows "length (filter P (update_where (\<lambda>x. pr_id x = i) f runs)) + of_bool (P r)
    = length (filter P runs) + of_bool (P (f r))"
  using assms(1,2) unfolding assms(3) [symmetric]
proof (induction runs)
  case (Cons x runs)
  show ?case
  proof (cases "x = r")
    case True
    then have "\<forall>y \<in> set runs. pr_id y \<noteq> pr_id r" using Cons.prems(1) by (force simp: image_iff)
    then have "update_where (\<lambda>x. pr_id x = pr_id r) f runs = runs"
      by (simp add: update_where_def map_idI)
    then show ?thesis using True by (simp add: update_where_def)
  next
    case False
    then have "pr_id x \<noteq> pr_id r" "r \<in> set runs" using Cons.prems by auto
    then show ?thesis using Cons by (simp add: update_where_def)
  qed
qed simp

lemma same_run: "distinct (map pr_id runs) \<Longrightarrow> x \<in> set runs \<Longrightarrow> y \<in> set runs \<Longrightarrow> pr_id x = pr_id y \<Longrightarrow> x = y"
  by (simp add: distinct_map inj_on_def)

lemma runs_okD:
  assumes "runs_ok runs vs ws"
  shows "distinct (map pr_id runs)" "list_all run_typed runs" "tasks_held runs ws" "versions_numbered runs vs ws"
  using assms by (simp_all add: runs_ok_def)

lemma held_run:
  assumes "tasks_held runs ws" "task_of (ws w) = Some t"
  obtains r where "r \<in> set runs" "pr_id r = pt_run t" "pr_status r = ''running''" "pr_case r = pt_case t"
  using assms unfolding tasks_held_def by blast

lemma held_alone: "tasks_held runs ws \<Longrightarrow> task_of (ws w) = Some t \<Longrightarrow> task_of (ws w') = Some t' \<Longrightarrow> pt_run t' = pt_run t \<Longrightarrow> w' = w"
  unfolding tasks_held_def by blast

text \<open>A change of one run leaves the tasks of the other workers held.\<close>

lemma held_update:
  assumes "tasks_held runs ws" "\<And>r. pr_id (f r) = pr_id r"
    and "\<And>w' t'. w' \<noteq> w \<Longrightarrow> task_of (ws w') = Some t' \<Longrightarrow> pt_run t' \<noteq> i"
  shows "tasks_held (update_where (\<lambda>x. pr_id x = i) f runs) (ws(w := Idle))"
  unfolding tasks_held_def
proof (intro allI impI)
  fix w' t'
  assume "task_of ((ws(w := Idle)) w') = Some t'"
  then have w: "w' \<noteq> w" "task_of (ws w') = Some t'" by (auto split: if_splits)
  obtain r where "r \<in> set runs" "pr_id r = pt_run t'" "pr_status r = ''running''" "pr_case r = pt_case t'"
    using held_run [OF assms(1) w(2)] .
  with assms(3) [OF w] have "\<exists>r \<in> set (update_where (\<lambda>x. pr_id x = i) f runs).
      pr_id r = pt_run t' \<and> pr_status r = ''running'' \<and> pr_case r = pt_case t'"
    by (intro bexI [of _ r]) (auto intro: other_stays)
  then show "(\<exists>r \<in> set (update_where (\<lambda>x. pr_id x = i) f runs).
        pr_id r = pt_run t' \<and> pr_status r = ''running'' \<and> pr_case r = pt_case t')
    \<and> (\<forall>w'' t''. task_of ((ws(w := Idle)) w'') = Some t'' \<and> pt_run t'' = pt_run t' \<longrightarrow> w'' = w')"
    using held_alone [OF assms(1) w(2)] by (auto split: if_splits)
qed

lemma typed_update:
  assumes "list_all run_typed runs" "distinct (map pr_id runs)" "r \<in> set runs" "pr_id r = i" "run_typed r \<Longrightarrow> run_typed (f r)"
  shows "list_all run_typed (update_where (\<lambda>x. pr_id x = i) f runs)"
  unfolding list_all_iff
proof
  fix x
  assume "x \<in> set (update_where (\<lambda>x. pr_id x = i) f runs)"
  then obtain y where y: "y \<in> set runs" "x = (if pr_id y = i then f y else y)" unfolding mem_update by blast
  show "run_typed x"
  proof (cases "pr_id y = i")
    case True
    then have "y = r" using same_run [OF assms(2) y(1) assms(3)] assms(4) by simp
    then show ?thesis using y True assms(1,5) by (simp add: list_all_iff)
  next
    case False
    then show ?thesis using y assms(1) by (simp add: list_all_iff)
  qed
qed

lemma completed_update:
  assumes "distinct (map pr_id runs)" "r \<in> set runs" "pr_id r = i"
  shows "length (completed_runs c (update_where (\<lambda>x. pr_id x = i) f runs)) + of_bool (pr_case r = c \<and> pr_status r = ''completed'')
    = length (completed_runs c runs) + of_bool (pr_case (f r) = c \<and> pr_status (f r) = ''completed'')"
  unfolding completed_runs_def by (rule length_filter_update [OF assms])

lemma numbered_cong:
  assumes "versions_numbered runs vs ws" "\<And>c. length (completed_runs c runs') = length (completed_runs c runs)"
    and "\<And>w. ws' w = ws w \<or> (\<forall>t n d ds. ws' w = Numbered t n d ds \<longrightarrow> n = Suc (length (numbers (pt_case t) vs)))"
  shows "versions_numbered runs' vs ws'"
  unfolding versions_numbered_def
proof (intro conjI allI impI)
  fix c
  have "numbers c vs = [1..<Suc (length (numbers c vs))] \<and> length (numbers c vs) = length (completed_runs c runs)"
    using assms(1) unfolding versions_numbered_def by blast
  then show "numbers c vs = [1..<Suc (length (numbers c vs))]" "length (numbers c vs) = length (completed_runs c runs')"
    unfolding assms(2) by blast+
next
  fix w t n d ds
  assume "ws' w = Numbered t n d ds"
  then have "1 \<le> n \<and> n \<le> Suc (length (numbers (pt_case t) vs))"
    using assms(3) [of w] assms(1) unfolding versions_numbered_def by fastforce
  then show "1 \<le> n" "n \<le> Suc (length (numbers (pt_case t) vs))" by auto
qed

section \<open>The steps keep the runs\<close>

lemma runs_ok_append:
  assumes "runs_ok runs vs ws" "pr_id r \<notin> pr_id ` set runs" "run_typed r" "pr_status r = ''queued''"
  shows "runs_ok (runs @ [r]) vs ws"
proof -
  note ok = runs_okD [OF assms(1)]
  have "tasks_held (runs @ [r]) ws" using ok(3) unfolding tasks_held_def by (simp add: bex_Un)
  moreover have "versions_numbered (runs @ [r]) vs ws"
    by (rule numbered_cong [OF ok(4)]) (simp_all add: completed_runs_def assms(4))
  ultimately show ?thesis using ok assms(2,3) by (simp add: runs_ok_def)
qed

lemma held_claim:
  assumes "tasks_held runs (ws(w := Idle))" "r \<in> set runs"
    and "\<And>w' t'. w' \<noteq> w \<Longrightarrow> task_of (ws w') = Some t' \<Longrightarrow> pt_run t' \<noteq> pt_run t"
    and "pr_id r = pt_run t" "pr_status r = ''running''" "pr_case r = pt_case t"
  shows "tasks_held runs (ws(w := Claimed t))"
  unfolding tasks_held_def
proof (intro allI impI)
  fix w' t'
  assume h: "task_of ((ws(w := Claimed t)) w') = Some t'"
  show "(\<exists>r \<in> set runs. pr_id r = pt_run t' \<and> pr_status r = ''running'' \<and> pr_case r = pt_case t')
    \<and> (\<forall>w'' t''. task_of ((ws(w := Claimed t)) w'') = Some t'' \<and> pt_run t'' = pt_run t' \<longrightarrow> w'' = w')"
  proof (cases "w' = w")
    case True
    then have "t' = t" using h by simp
    then show ?thesis using True assms(2-6) by (metis fun_upd_other)
  next
    case False
    then have i: "task_of ((ws(w := Idle)) w') = Some t'" using h by simp
    have "\<forall>w'' t''. task_of ((ws(w := Claimed t)) w'') = Some t'' \<and> pt_run t'' = pt_run t' \<longrightarrow> w'' = w'"
      using held_alone [OF assms(1) i] assms(3) [OF False] h False by (auto split: if_splits)
    then show ?thesis using held_run [OF assms(1) i] by blast
  qed
qed

lemma runs_ok_claim:
  assumes "runs_ok runs vs ws" "r \<in> set runs" "pr_status r = ''queued''" "ws w = Idle" "pt_run t = pr_id r" "pt_case t = pr_case r"
  shows "runs_ok (update_where (\<lambda>x. pr_id x = pr_id r) (start_run now) runs) vs (ws(w := Claimed t))"
proof -
  note ok = runs_okD [OF assms(1)]
  let ?runs = "update_where (\<lambda>x. pr_id x = pr_id r) (start_run now) runs"
  have other: "pt_run t' \<noteq> pr_id r" if "task_of (ws w') = Some t'" for w' t'
  proof
    assume "pt_run t' = pr_id r"
    with held_run [OF ok(3) that] same_run [OF ok(1) _ assms(2)] have "pr_status r = ''running''" by metis
    then show False using assms(3) by simp
  qed
  have "tasks_held ?runs (ws(w := Idle))"
    by (rule held_update [OF ok(3)]) (use other in \<open>simp_all add: start_run_def\<close>)
  moreover have "start_run now r \<in> set ?runs" by (rule changed_mem [OF assms(2)]) simp
  ultimately have "tasks_held ?runs (ws(w := Claimed t))"
    by (rule held_claim) (use other assms(5,6) in \<open>simp_all add: start_run_def\<close>)
  moreover have "list_all run_typed ?runs"
    by (rule typed_update [OF ok(2,1) assms(2) refl]) (simp add: run_typed_def start_run_def assms(3))
  moreover have "versions_numbered ?runs vs (ws(w := Claimed t))"
    by (rule numbered_cong [OF ok(4)])
      (use completed_update [OF ok(1) assms(2) refl, of _ "start_run now"] assms(3) in \<open>auto simp: start_run_def\<close>)
  moreover have "map pr_id ?runs = map pr_id runs" by (rule map_id_update) (simp add: start_run_def)
  ultimately show ?thesis using ok(1) by (simp add: runs_ok_def)
qed

lemma runs_ok_number:
  assumes "runs_ok runs vs ws" "ws w = Claimed t" "n = Suc (length (numbers (pt_case t) vs))"
  shows "runs_ok runs vs (ws(w := Numbered t n d ds))"
proof -
  note ok = runs_okD [OF assms(1)]
  have t: "task_of ((ws(w := Numbered t n d ds)) w') = task_of (ws w')" for w' using assms(2) by simp
  have "tasks_held runs (ws(w := Numbered t n d ds))" using ok(3) unfolding tasks_held_def t .
  moreover have "versions_numbered runs vs (ws(w := Numbered t n d ds))"
    by (rule numbered_cong [OF ok(4)]) (auto simp: assms(3))
  ultimately show ?thesis using ok(1,2) by (simp add: runs_ok_def)
qed

lemma runs_ok_fail:
  assumes "runs_ok runs vs ws" "task_of (ws w) = Some t"
  shows "runs_ok (update_where (\<lambda>x. pr_id x = pt_run t) (fail_run now err) runs) vs (ws(w := Idle))"
proof -
  note ok = runs_okD [OF assms(1)]
  let ?runs = "update_where (\<lambda>x. pr_id x = pt_run t) (fail_run now err) runs"
  obtain r where r: "r \<in> set runs" "pr_id r = pt_run t" "pr_status r = ''running''" using held_run [OF ok(3) assms(2)] .
  have "tasks_held ?runs (ws(w := Idle))"
    by (rule held_update [OF ok(3)]) (use held_alone [OF ok(3) assms(2)] in \<open>auto simp: fail_run_def\<close>)
  moreover have "list_all run_typed ?runs"
    by (rule typed_update [OF ok(2,1) r(1,2)]) (simp add: run_typed_def fail_run_def r(3))
  moreover have "versions_numbered ?runs vs (ws(w := Idle))"
    by (rule numbered_cong [OF ok(4)])
      (use completed_update [OF ok(1) r(1,2), of _ "fail_run now err"] r in \<open>auto simp: fail_run_def\<close>)
  moreover have "map pr_id ?runs = map pr_id runs" by (rule map_id_update) (simp add: fail_run_def)
  ultimately show ?thesis using ok(1) by (simp add: runs_ok_def)
qed

lemma runs_ok_crash:
  assumes "runs_ok runs vs ws"
  shows "runs_ok runs vs (ws(w := Idle))"
proof -
  note ok = runs_okD [OF assms]
  have "tasks_held runs (ws(w := Idle))" using ok(3) unfolding tasks_held_def by auto
  moreover have "versions_numbered runs vs (ws(w := Idle))" by (rule numbered_cong [OF ok(4)]) auto
  ultimately show ?thesis using ok(1,2) by (simp add: runs_ok_def)
qed

lemma runs_ok_store:
  assumes "runs_ok runs vs ws" "ws w = Numbered t n d ds" "n \<notin> set (numbers (pt_case t) vs)"
  shows "runs_ok (update_where (\<lambda>x. pr_id x = pt_run t) (complete_run now) runs) (vs @ [(pt_case t, n)]) (ws(w := Idle))"
proof -
  note ok = runs_okD [OF assms(1)]
  let ?runs = "update_where (\<lambda>x. pr_id x = pt_run t) (complete_run now) runs"
  let ?len = "\<lambda>c. length (numbers c vs)"
  have held: "task_of (ws w) = Some t" using assms(2) by simp
  obtain r where r: "r \<in> set runs" "pr_id r = pt_run t" "pr_status r = ''running''" "pr_case r = pt_case t"
    using held_run [OF ok(3) held] .
  have nums: "numbers c vs = [1..<Suc (?len c)]" "?len c = length (completed_runs c runs)" for c
    using ok(4) unfolding versions_numbered_def by blast+
  have bound: "1 \<le> m \<and> m \<le> Suc (?len (pt_case t'))" if "ws w' = Numbered t' m d' ds'" for w' t' m d' ds'
    using ok(4) that unfolding versions_numbered_def by blast
  have n: "n = Suc (?len (pt_case t))"
  proof (rule ccontr)
    assume "n \<noteq> Suc (?len (pt_case t))"
    then have "n \<in> set [1..<Suc (?len (pt_case t))]" using bound [OF assms(2)] by auto
    then show False using assms(3) nums(1) by metis
  qed
  have new: "numbers c (vs @ [(pt_case t, n)]) = numbers c vs @ (if c = pt_case t then [n] else [])" for c
    by (simp add: numbers_def)
  have "tasks_held ?runs (ws(w := Idle))"
    by (rule held_update [OF ok(3)]) (use held_alone [OF ok(3) held] in \<open>auto simp: complete_run_def\<close>)
  moreover have "list_all run_typed ?runs"
    by (rule typed_update [OF ok(2,1) r(1,2)]) (simp add: run_typed_def complete_run_def r(3))
  moreover have "versions_numbered ?runs (vs @ [(pt_case t, n)]) (ws(w := Idle))"
    unfolding versions_numbered_def new
  proof (intro conjI allI impI)
    fix c
    show "numbers c vs @ (if c = pt_case t then [n] else [])
        = [1..<Suc (length (numbers c vs @ (if c = pt_case t then [n] else [])))]"
      using nums(1) [of c] by (cases "c = pt_case t") (simp_all add: n)
    show "length (numbers c vs @ (if c = pt_case t then [n] else [])) = length (completed_runs c ?runs)"
      using completed_update [OF ok(1) r(1,2), of c "complete_run now"] nums(2) [of c] r by (auto simp: complete_run_def)
  next
    fix w' t' m d' ds'
    assume "(ws(w := Idle)) w' = Numbered t' m d' ds'"
    then have "ws w' = Numbered t' m d' ds'" by (auto split: if_splits)
    from bound [OF this] show "1 \<le> m"
      "m \<le> Suc (length (numbers (pt_case t') vs @ (if pt_case t' = pt_case t then [n] else [])))" by auto
  qed
  moreover have "map pr_id ?runs = map pr_id runs" by (rule map_id_update) (simp add: complete_run_def)
  ultimately show ?thesis using ok(1) by (simp add: runs_ok_def)
qed

section \<open>What the operations change\<close>

text \<open>What the quota and the unique numbers of cases depend on.\<close>

type_synonym case_keys = "(string \<times> ustr \<times> nat) list"

definition keys_of :: "case_db \<Rightarrow> case_keys" where
  "keys_of db = map (\<lambda>r. (ca_organization r, ca_number r, ca_created_at r)) (cs_cases db)"

definition keys_in_period :: "string \<Rightarrow> quota \<Rightarrow> case_keys \<Rightarrow> nat" where
  "keys_in_period org q ks = length (filter (\<lambda>(o', n, t). o' = org \<and> qu_period_start q \<le> t \<and> t < qu_period_end q) ks)"

lemma cases_in_period_keys: "cases_in_period org q db = keys_in_period org q (keys_of db)"
  by (simp add: cases_in_period_def keys_in_period_def keys_of_def filter_map comp_def)

definition frame :: "case_db \<Rightarrow> case_db \<Rightarrow> bool" where
  "frame db db' \<longleftrightarrow> cs_quotas db' = cs_quotas db \<and> keys_of db' = keys_of db \<and> cs_runs db' = cs_runs db \<and> numbering_of db' = numbering_of db"

lemma frame_refl [simp]: "frame db db"
  by (simp add: frame_def)

lemma frame_trans: "frame a b \<Longrightarrow> frame b c \<Longrightarrow> frame a c"
  by (simp add: frame_def)

lemma frame_drawings [simp]: "frame db (db\<lparr>cs_drawings := ds\<rparr>)"
  by (simp add: frame_def keys_of_def numbering_of_def)

lemma confirm_frame: "confirm_document_version org c vid actor db = Inr (out, db') \<Longrightarrow> frame db db'"
  by (auto simp: confirm_document_version_def frame_def keys_of_def numbering_of_def update_where_def split: option.splits)

lemma add_drawing_frame: "add_drawing sha fresh now org c data f l ti m mi (db, st) = (d, db', st') \<Longrightarrow> frame db db'"
  by (auto simp: add_drawing_def Let_def)

lemma update_drawing_frame: "update_drawing_metadata now org c did l ti m od db = Inr (d, db') \<Longrightarrow> frame db db'"
  by (auto simp: update_drawing_metadata_def Let_def split: option.splits)

lemma delete_drawing_frame: "delete_drawing org c did db = Inr db' \<Longrightarrow> frame db db'"
  by (auto simp: delete_drawing_def split: option.splits)

lemma fold_frame:
  assumes "\<And>x n db st. frame db (fst (snd (g x (n, db, st))))"
  shows "frame (fst (snd s)) (fst (snd (fold g xs s)))"
proof (induction xs arbitrary: s)
  case (Cons x xs)
  show ?case using Cons.IH [of "g x s"] assms [of "fst (snd s)" x "fst s" "snd (snd s)"] by (auto intro: frame_trans)
qed simp

lemma take_drawing_frame: "frame db (fst (snd (take_drawing fresh now org c doc e (n, db, st))))"
  by (simp add: take_drawing_def Let_def)

lemma take_document_frame: "frame db (fst (snd (take_document ex fresh now org c txt doc (n, db, st))))"
  using fold_frame [of "take_drawing fresh now org c (sd_id doc)" "(n, db, st)", OF take_drawing_frame]
  by (auto simp: take_document_def split: option.splits)

lemma re_extract_frame: "re_extract_drawings ex fresh now org c wanted (db, st) = (ds, db', st') \<Longrightarrow> frame db db'"
  using fold_frame [of "take_document ex fresh now org c (latest_text org c db)" "(0, db, st)" "documents_to_process org c wanted db",
      OF take_document_frame]
  by (auto simp: re_extract_drawings_def Let_def split: if_splits prod.splits)

lemma store_drawings_frame: "store_drawings fresh clock t v n es (db, st) = (db', st') \<Longrightarrow> frame db db'"
proof (induction es arbitrary: n db st)
  case (Cons e es)
  show ?case by (rule frame_trans [OF frame_drawings Cons.IH [OF Cons.prems [unfolded store_drawings.simps]]])
qed simp

lemma create_case_Inr:
  assumes "create_case fresh now org actor number title field jurisdiction db = Inr (row, db')"
  shows "db' = db\<lparr>cs_cases := cs_cases db @ [row]\<rparr> \<and> ca_organization row = org \<and> ca_number row = strip number
    \<and> strip number \<noteq> [] \<and> ca_created_at row = now \<and> quota_used org db = None \<and> \<not> case_number_taken org (strip number) db"
  using assms by (auto simp: create_case_def Let_def split: option.splits if_splits)

lemma claim_task_Some:
  assumes "claim_task now db = Some (t, db')"
  obtains r d where "r \<in> set (cs_runs db)" "pr_status r = ''queued''" "d \<in> set (cs_documents db)" "sd_id d = pr_source r"
    "\<forall>p \<in> set (queued_tasks db). pr_created_at r \<le> pr_created_at (fst p)"
    "t = \<lparr>pt_run = pr_id r, pt_organization = pr_organization r, pt_case = pr_case r, pt_source = pr_source r,
         pt_name = sd_name d, pt_mime = sd_mime d, pt_key = sd_key d\<rparr>" "db' = set_run (pr_id r) (start_run now) db"
proof -
  obtain p ps where q: "queued_tasks db = p # ps"
    using assms by (cases "queued_tasks db") (auto simp: claim_task_def)
  obtain r d where m: "min_key (pr_created_at \<circ> fst) p ps = (r, d)" by fastforce
  have "(r, d) \<in> set (queued_tasks db)" using min_key_mem [of "pr_created_at \<circ> fst" p ps] q m by simp
  moreover have "\<forall>x \<in> set (queued_tasks db). pr_created_at r \<le> pr_created_at (fst x)"
    using min_key_le [of _ p ps "pr_created_at \<circ> fst"] q m by simp
  ultimately show ?thesis using that assms q m by (auto simp: claim_task_def queued_tasks_def)
qed

lemma set_run_frame:
  "cs_quotas (set_run i f db) = cs_quotas db" "keys_of (set_run i f db) = keys_of db"
  "numbering_of (set_run i f db) = numbering_of db" "cs_runs (set_run i f db) = update_where (\<lambda>r. pr_id r = i) f (cs_runs db)"
  by (simp_all add: set_run_def keys_of_def numbering_of_def)

lemma store_result_Inr:
  assumes "store_result conflict fresh clock t n doc drawings (db, st) = Inr (db', st')"
  shows "n \<notin> set (numbers (pt_case t) (numbering_of db))"
    "cs_quotas db' = cs_quotas db" "keys_of db' = keys_of db" "numbering_of db' = numbering_of db @ [(pt_case t, n)]"
    "cs_runs db' = update_where (\<lambda>r. pr_id r = pt_run t) (complete_run (clock (Suc (length drawings)))) (cs_runs db)"
proof -
  let ?v = "\<lparr>dv_id = fresh 0, dv_organization = pt_organization t, dv_case = pt_case t, dv_source = pt_source t,
    dv_number = n, dv_parent = None, dv_text = pd_text doc, dv_paragraphs = pd_paragraphs doc,
    dv_sha256 = pd_sha256 doc, dv_confirmed = False, dv_created_by = None, dv_created_at = clock 0\<rparr>"
  obtain db1 st1 where s: "store_drawings fresh clock t (fresh 0) 1 drawings (db\<lparr>cs_versions := cs_versions db @ [?v]\<rparr>, st) = (db1, st1)"
    by fastforce
  with assms have r: "\<forall>v \<in> set (cs_versions db). \<not> (dv_case v = pt_case t \<and> dv_number v = n)"
      "db' = set_run (pt_run t) (complete_run (clock (Suc (length drawings)))) db1"
    by (auto simp: store_result_def Let_def list_ex_iff split: if_splits)
  show "n \<notin> set (numbers (pt_case t) (numbering_of db))" using r(1) by (auto simp: numbers_def numbering_of_def)
  have "frame (db\<lparr>cs_versions := cs_versions db @ [?v]\<rparr>) db1" by (rule store_drawings_frame [OF s])
  then show "cs_quotas db' = cs_quotas db" "keys_of db' = keys_of db" "numbering_of db' = numbering_of db @ [(pt_case t, n)]"
    "cs_runs db' = update_where (\<lambda>r. pr_id r = pt_run t) (complete_run (clock (Suc (length drawings)))) (cs_runs db)"
    unfolding r(2) set_run_frame frame_def by (simp_all add: keys_of_def numbering_of_def)
qed

section \<open>Reachable systems\<close>

definition cases_ok :: "quota list \<Rightarrow> case_keys \<Rightarrow> bool" where
  "cases_ok qs ks \<longleftrightarrow>
     (\<forall>org q. find (\<lambda>q. qu_organization q = org) qs = Some q \<longrightarrow> int (keys_in_period org q ks) \<le> max 0 (qu_allowance q))
     \<and> distinct (map (\<lambda>(o', n, t). (o', n)) ks) \<and> (\<forall>(o', n, t) \<in> set ks. n \<noteq> [])"

definition sys_ok :: "quota list \<Rightarrow> parse_system \<Rightarrow> bool" where
  "sys_ok qs s \<longleftrightarrow> cs_quotas (sy_db s) = qs \<and> cases_ok qs (keys_of (sy_db s))
     \<and> runs_ok (cs_runs (sy_db s)) (numbering_of (sy_db s)) (sy_workers s)"

lemma cases_ok_create:
  assumes "cases_ok (cs_quotas db) (keys_of db)" "create_case fresh now org actor number title field jurisdiction db = Inr (row, db')"
  shows "cases_ok (cs_quotas db) (keys_of db')"
proof -
  note c = create_case_Inr [OF assms(2)]
  then have k: "keys_of db' = keys_of db @ [(org, strip number, now)]" by (auto simp: keys_of_def)
  have "int (keys_in_period org' q (keys_of db')) \<le> max 0 (qu_allowance q)"
    if q: "find (\<lambda>q. qu_organization q = org') (cs_quotas db) = Some q" for org' q
  proof -
    have old: "int (keys_in_period org' q (keys_of db)) \<le> max 0 (qu_allowance q)"
      using assms(1) q by (auto simp: cases_ok_def)
    show ?thesis
    proof (cases "org' = org")
      case True
      then have "int (keys_in_period org q (keys_of db)) < qu_allowance q"
        using c q by (auto simp: quota_used_def cases_in_period_keys split: if_splits)
      then show ?thesis unfolding k True by (simp add: keys_in_period_def)
    next
      case False
      then show ?thesis using old by (simp add: k keys_in_period_def)
    qed
  qed
  moreover have "(org, strip number) \<notin> (\<lambda>(o', n, t). (o', n)) ` set (keys_of db)"
    using c by (auto simp: case_number_taken_def list_ex_iff keys_of_def)
  ultimately show ?thesis using assms(1) c unfolding cases_ok_def k by auto
qed

lemma sys_ok_frame:
  "sys_ok qs s \<Longrightarrow> frame (sy_db s) db \<Longrightarrow> sys_ok qs (s\<lparr>sy_db := db\<rparr>)"
  "sys_ok qs s \<Longrightarrow> frame (sy_db s) db \<Longrightarrow> sys_ok qs (s\<lparr>sy_db := db, sy_store := st\<rparr>)"
  by (simp_all add: sys_ok_def frame_def)

lemma next_version_numbers:
  assumes "numbers c (numbering_of db) = [1..<Suc (length (numbers c (numbering_of db)))]"
  shows "next_version c db = Suc (length (numbers c (numbering_of db)))"
proof -
  let ?xs = "map (int \<circ> dv_number) (filter (\<lambda>v. dv_case v = c) (cs_versions db))"
  let ?n = "length (numbers c (numbering_of db))"
  have xs: "?xs = map int (numbers c (numbering_of db))"
    by (simp add: numbers_def numbering_of_def filter_map comp_def)
  show ?thesis
  proof (cases "?n = 0")
    case True
    then have "?xs = []" unfolding xs by simp
    then show ?thesis using True by (simp only: next_version_def next_after_def) simp
  next
    case False
    then obtain y ys where y: "?xs = y # ys" using xs by (cases ?xs) auto
    have set: "set (y # ys) = int ` {1..?n}"
      unfolding y [symmetric] xs set_map by (subst assms) (auto simp del: upt_Suc)
    have "max_key id y ys \<in> int ` {1..?n}" using max_key_mem [of id y ys] unfolding set .
    moreover have "int ?n \<in> set (y # ys)" unfolding set using False by (intro imageI) (simp add: Suc_le_eq)
    then have "int ?n \<le> max_key id y ys" using max_key_ge [of "int ?n" y ys id] by simp
    ultimately have "max_key id y ys = int ?n" by auto
    then show ?thesis unfolding next_version_def y next_after_def by simp
  qed
qed

lemma upload_document_Inr:
  assumes "upload_document rd sha fresh now org c f data (db, st) = Inr ((doc, run), db', st')"
  shows "db' = db\<lparr>cs_documents := cs_documents db @ [doc], cs_runs := cs_runs db @ [run]\<rparr>"
    "st' = put_object (sd_key doc) data st" "sd_key doc = build_source_key org c (sha data) f"
    "\<exists>v. inspect_upload rd f data = Inr v \<and> sd_mime doc = uv_mime v \<and> sd_findings doc = uv_findings v"
    "sd_id doc = fresh 0" "sd_organization doc = org" "sd_case doc = c" "sd_name doc = f" "sd_size doc = length data"
    "sd_sha256_hex doc = sha data" "pr_id run = fresh 1" "pr_organization run = org" "pr_case run = c" "pr_source run = fresh 0"
    "pr_status run = ''queued''" "pr_created_at run = now" "run_typed run"
  using assms by (auto simp: upload_document_def Let_def run_typed_def split: sum.splits)

lemma sys_ok_step:
  assumes "sys_ok qs s" "sys_step parser s s'"
  shows "sys_ok qs s'"
  using assms(2,1)
proof (induction rule: sys_step.cases)
  case (create fresh now org actor number title field jurisdiction s row db)
  then have ok: "sys_ok qs s" by simp
  have "cases_ok qs (keys_of db)" using cases_ok_create [OF _ create(3)] ok by (auto simp: sys_ok_def)
  then show ?case using ok create_case_Inr [OF create(3)] create(2) by (simp add: sys_ok_def numbering_of_def)
next
  case (upload rd sha fresh now org c f data s out db st)
  obtain doc run where out: "out = (doc, run)" by fastforce
  note up = upload_document_Inr [OF upload(3) [unfolded out]]
  have new: "fresh 1 \<notin> pr_id ` set (cs_runs (sy_db s))" using upload(4) by (auto simp: unused_def used_ids_def)
  show ?case using upload(1,2,6) runs_ok_append [of "cs_runs (sy_db s)" "numbering_of (sy_db s)" "sy_workers s" run] up new
    by (simp add: sys_ok_def keys_of_def numbering_of_def)
next
  case (claim s w now t db)
  obtain r d where r: "r \<in> set (cs_runs (sy_db s))" "pr_status r = ''queued''" "pt_run t = pr_id r" "pt_case t = pr_case r"
      "db = set_run (pr_id r) (start_run now) (sy_db s)"
    using claim_task_Some [OF claim(4)] by (metis parse_task.select_convs(1,3))
  show ?case using claim(1,2,5) runs_ok_claim [of _ _ "sy_workers s" r w t now, OF _ r(1,2) claim(3) r(3,4)]
    by (simp add: sys_ok_def r(5) set_run_frame)
next
  case (number s w t doc drawings)
  have "numbers (pt_case t) (numbering_of (sy_db s)) = [1..<Suc (length (numbers (pt_case t) (numbering_of (sy_db s))))]"
    using number(1,5) unfolding sys_ok_def runs_ok_def versions_numbered_def by blast
  then show ?case using number(1,2,5) runs_ok_number [of _ _ "sy_workers s" w t _ doc drawings, OF _ number(3) next_version_numbers]
    by (simp add: sys_ok_def del: upt_Suc)
next
  case (unread s w t err now)
  then show ?case using runs_ok_fail [of _ _ "sy_workers s" w t now err] by (simp add: sys_ok_def fail_task_def set_run_frame)
next
  case (conflict s w t n doc drawings conflict fresh clock err now)
  then show ?case using runs_ok_fail [of _ _ "sy_workers s" w t now err] by (simp add: sys_ok_def fail_task_def set_run_frame)
next
  case (store s w t n doc drawings conflict fresh clock db st)
  show ?case using store(1,2,6) store_result_Inr [OF store(4)] runs_ok_store [of _ _ "sy_workers s" w t n doc drawings "clock (Suc (length drawings))", OF _ store(3)]
    by (simp add: sys_ok_def)
next
  case (crash s w)
  then show ?case using runs_ok_crash by (simp add: sys_ok_def)
qed (auto intro: sys_ok_frame confirm_frame add_drawing_frame update_drawing_frame delete_drawing_frame re_extract_frame)

lemma sys_reachable_ok: "sys_reachable parser qs s \<Longrightarrow> sys_ok qs s"
proof (induction rule: sys_reachable.induct)
  case (init st)
  show ?case by (simp add: sys_ok_def new_system_def cases_ok_def keys_of_def keys_in_period_def runs_ok_def numbering_of_def
      tasks_held_def versions_numbered_def numbers_def completed_runs_def)
next
  case (step s s')
  then show ?case by (blast intro: sys_ok_step)
qed

end
