(* ===== verification/ParseQueue.thy ===== *)
theory ParseQueue
  imports CaseSafety
begin

text \<open>
  The properties of the cases and the queue of parse runs: in every reachable system of workers and services, and for a
  worker alone, whose queue drains.
\<close>

section \<open>Every reachable system\<close>

lemma reachable_runs:
  assumes "sys_reachable parser qs s"
  shows "distinct (map pr_id (cs_runs (sy_db s)))" "list_all run_typed (cs_runs (sy_db s))"
    "tasks_held (cs_runs (sy_db s)) (sy_workers s)"
    "versions_numbered (cs_runs (sy_db s)) (numbering_of (sy_db s)) (sy_workers s)"
  using sys_reachable_ok [OF assms] by (auto simp: sys_ok_def dest: runs_okD)

text \<open>
  C29: the columns of a parse run always fit its state, whatever the order in which the services and the workers act.  A
  queued run has no times and no error, a running one a start, a finished one both times; only a failed run has an
  error, of at most 500 characters.
\<close>

theorem run_states_typed:
  assumes "sys_reachable parser qs s" and "r \<in> set (cs_runs (sy_db s))"
  shows "run_typed r"
  using reachable_runs(2) [OF assms(1)] assms(2) by (simp add: list_all_iff)

text \<open>
  C27: a run is worked on once.  In every interleaving, a worker that holds a task holds a running run that no other worker
  holds, and the versions of a case are numbered from one without a gap, one for each completed run of the case.
\<close>

theorem runs_parsed_once:
  assumes "sys_reachable parser qs s"
  shows "(\<forall>w t. task_of (sy_workers s w) = Some t \<longrightarrow>
        (\<exists>r \<in> set (cs_runs (sy_db s)). pr_id r = pt_run t \<and> pr_status r = ''running'')
        \<and> (\<forall>w' t'. task_of (sy_workers s w') = Some t' \<and> pt_run t' = pt_run t \<longrightarrow> w' = w))
    \<and> numbers c (numbering_of (sy_db s)) = [1..<Suc (length (completed_runs c (cs_runs (sy_db s))))]"
proof (intro conjI allI impI)
  fix w t
  assume "task_of (sy_workers s w) = Some t"
  then show "(\<exists>r \<in> set (cs_runs (sy_db s)). pr_id r = pt_run t \<and> pr_status r = ''running'')"
    using reachable_runs(3) [OF assms] unfolding tasks_held_def by blast
next
  fix w t w' t'
  assume "task_of (sy_workers s w) = Some t" "task_of (sy_workers s w') = Some t' \<and> pt_run t' = pt_run t"
  then show "w' = w" using held_alone [OF reachable_runs(3) [OF assms]] by blast
next
  show "numbers c (numbering_of (sy_db s)) = [1..<Suc (length (completed_runs c (cs_runs (sy_db s))))]"
    using reachable_runs(4) [OF assms] unfolding versions_numbered_def by metis
qed

text \<open>
  C30: the monthly allowance is kept.  In every reachable system an organization has no more cases of its current period
  than its quota allows, the numbers of its cases are distinct, and none is blank.
\<close>

theorem quota_kept:
  assumes "sys_reachable parser qs s"
  shows "(\<forall>org q. find (\<lambda>q. qu_organization q = org) qs = Some q \<longrightarrow> int (cases_in_period org q (sy_db s)) \<le> max 0 (qu_allowance q))
    \<and> distinct (map (\<lambda>r. (ca_organization r, ca_number r)) (cs_cases (sy_db s))) \<and> [] \<notin> ca_number ` set (cs_cases (sy_db s))"
proof -
  have ok: "cases_ok qs (keys_of (sy_db s))" using sys_reachable_ok [OF assms] by (simp add: sys_ok_def)
  have "distinct (map (\<lambda>r. (ca_organization r, ca_number r)) (cs_cases (sy_db s))) \<and> [] \<notin> ca_number ` set (cs_cases (sy_db s))"
    using ok by (auto simp: cases_ok_def keys_of_def comp_def)
  moreover have "\<forall>org q. find (\<lambda>q. qu_organization q = org) qs = Some q \<longrightarrow> int (cases_in_period org q (sy_db s)) \<le> max 0 (qu_allowance q)"
    using ok unfolding cases_ok_def cases_in_period_keys by blast
  ultimately show ?thesis by blast
qed

section \<open>A queue that drains\<close>

text \<open>The runs that a worker can claim.\<close>

definition waiting :: "source_document list \<Rightarrow> parse_run \<Rightarrow> bool" where
  "waiting docs r \<longleftrightarrow> pr_status r = ''queued'' \<and> pr_source r \<in> sd_id ` set docs"

definition waiting_runs :: "case_db \<Rightarrow> parse_run list" where
  "waiting_runs db = filter (waiting (cs_documents db)) (cs_runs db)"

definition settled :: "parse_run \<Rightarrow> bool" where
  "settled r \<longleftrightarrow> pr_status r = ''completed'' \<or> pr_status r = ''failed''"

lemma queued_tasks_runs: "fst ` set (queued_tasks db) = set (waiting_runs db)"
  unfolding queued_tasks_def waiting_runs_def waiting_def by (force simp: image_iff)

lemma queued_tasks_empty: "queued_tasks db = [] \<longleftrightarrow> waiting_runs db = []"
  using queued_tasks_runs [of db] by (metis image_is_empty set_empty)

lemma store_drawings_documents:
  "store_drawings fresh clock t v n es (db, st) = (db', st') \<Longrightarrow> cs_documents db' = cs_documents db \<and> cs_runs db' = cs_runs db"
  by (induction es arbitrary: n db st) auto

lemma update_where_comp:
  "(\<And>r. pr_id (g r) = pr_id r) \<Longrightarrow> update_where (\<lambda>r. pr_id r = i) f (update_where (\<lambda>r. pr_id r = i) g rs) = update_where (\<lambda>r. pr_id r = i) (f \<circ> g) rs"
  by (simp add: update_where_def)

lemma store_result_documents:
  "store_result conflict fresh clock t n doc drawings (db, st) = Inr (db', st') \<Longrightarrow>
     cs_documents db' = cs_documents db \<and> cs_runs db' = update_where (\<lambda>r. pr_id r = pt_run t) (complete_run (clock (Suc (length drawings)))) (cs_runs db)"
  by (auto simp: store_result_def Let_def set_run_def split: if_splits prod.splits dest!: store_drawings_documents)

text \<open>After a claim the task ends, completed or failed.\<close>

lemma run_once_ends:
  assumes "claim_task (clock 0) db = Some (t, db1)"
  obtains f db' st' where "run_once parser conflict fresh clock (db, st) = (True, db', st')"
    "cs_documents db' = cs_documents db1" "cs_runs db' = update_where (\<lambda>r. pr_id r = pt_run t) f (cs_runs db1)"
    "(\<exists>now. f = complete_run now) \<or> (\<exists>now err. f = fail_run now err)"
proof -
  let ?run = "run_once parser conflict fresh clock (db, st)"
  have "(\<exists>err. ?run = (True, fail_task (clock 1) err t db1, st))
    \<or> (\<exists>doc drawings st'. store_result conflict fresh (clock \<circ> Suc) t (next_version (pt_case t) db1) doc drawings (db1, st) = Inr st'
         \<and> ?run = (True, st'))"
    by (auto simp: run_once_def assms split: sum.splits)
  then show thesis
  proof (elim disjE exE conjE)
    fix err
    assume "?run = (True, fail_task (clock 1) err t db1, st)"
    then show thesis by (rule that) (auto simp: fail_task_def set_run_def)
  next
    fix doc drawings st'
    assume s: "store_result conflict fresh (clock \<circ> Suc) t (next_version (pt_case t) db1) doc drawings (db1, st) = Inr st'"
      and "?run = (True, st')"
    then show thesis using store_result_documents [of _ _ _ _ _ _ _ db1 st "fst st'" "snd st'"]
      by (intro that [of "fst st'" "snd st'"]) auto
  qed
qed

text \<open>One round claims the oldest waiting run and settles it.\<close>

lemma run_once_settles:
  assumes "waiting_runs db \<noteq> []"
  obtains r g db' st' where "run_once parser conflict fresh clock (db, st) = (True, db', st')"
    "r \<in> set (waiting_runs db)" "\<forall>x \<in> set (waiting_runs db). pr_created_at r \<le> pr_created_at x"
    "cs_documents db' = cs_documents db" "cs_runs db' = update_where (\<lambda>x. pr_id x = pr_id r) g (cs_runs db)"
    "\<And>x. pr_id (g x) = pr_id x \<and> settled (g x)"
proof -
  have "claim_task (clock 0) db \<noteq> None"
    using assms queued_tasks_empty [of db] by (auto simp: claim_task_def split: list.splits prod.splits)
  then obtain t db1 where c: "claim_task (clock 0) db = Some (t, db1)" by auto
  obtain r d where r: "r \<in> set (cs_runs db)" "pr_status r = ''queued''" "d \<in> set (cs_documents db)" "sd_id d = pr_source r"
      "\<forall>p \<in> set (queued_tasks db). pr_created_at r \<le> pr_created_at (fst p)" "pt_run t = pr_id r"
      "db1 = set_run (pr_id r) (start_run (clock 0)) db"
    using claim_task_Some [OF c] by (metis parse_task.select_convs(1))
  have w: "r \<in> set (waiting_runs db)" using r(1-3) by (auto simp: waiting_runs_def waiting_def r(4) [symmetric])
  have o: "\<forall>x \<in> set (waiting_runs db). pr_created_at r \<le> pr_created_at x"
    using r(5) unfolding queued_tasks_runs [symmetric] by blast
  obtain f db' st' where e: "run_once parser conflict fresh clock (db, st) = (True, db', st')"
      "cs_documents db' = cs_documents db1" "cs_runs db' = update_where (\<lambda>r. pr_id r = pt_run t) f (cs_runs db1)"
      "(\<exists>now. f = complete_run now) \<or> (\<exists>now err. f = fail_run now err)"
    using run_once_ends [of clock db t db1 parser conflict fresh st, OF c] .
  have "cs_runs db' = update_where (\<lambda>x. pr_id x = pr_id r) (f \<circ> start_run (clock 0)) (cs_runs db)"
    unfolding e(3) r(6,7) set_run_frame by (rule update_where_comp) (simp add: start_run_def)
  moreover have "cs_documents db' = cs_documents db" by (simp add: e(2) r(7) set_run_def)
  moreover have "pr_id ((f \<circ> start_run (clock 0)) x) = pr_id x \<and> settled ((f \<circ> start_run (clock 0)) x)" for x
    using e(4) by (auto simp: settled_def complete_run_def fail_run_def start_run_def)
  ultimately show thesis using that e(1) w o by blast
qed

lemma run_once_idle: "waiting_runs db = [] \<Longrightarrow> run_once parser conflict fresh clock (db, st) = (False, db, st)"
  using queued_tasks_empty [of db] by (simp add: run_once_def claim_task_def)

lemma worker_loop_idle:
  "waiting_runs db = [] \<Longrightarrow> worker_loop parser conflict fresh clock k (db, st) = (replicate k False, db, st)"
  by (induction k) (simp_all add: run_once_idle)

text \<open>
  C28: the queue drains.  A worker alone that finds \<open>n\<close> waiting runs does work in the next \<open>n\<close> rounds and in no round
  after them; then no run waits, every run that waited is completed or failed, and the other runs are as before.
\<close>

theorem queue_drains:
  assumes "distinct (map pr_id (cs_runs db))"
  shows "\<exists>db' st'. worker_loop parser conflict fresh clock (length (waiting_runs db) + k) (db, st)
      = (replicate (length (waiting_runs db)) True @ replicate k False, db', st')
    \<and> waiting_runs db' = []
    \<and> (\<forall>r \<in> set (waiting_runs db). \<exists>r' \<in> set (cs_runs db'). pr_id r' = pr_id r \<and> settled r')
    \<and> (\<forall>r \<in> set (cs_runs db). r \<notin> set (waiting_runs db) \<longrightarrow> r \<in> set (cs_runs db'))"
  using assms
proof (induction "length (waiting_runs db)" arbitrary: db st)
  case 0
  then show ?case using worker_loop_idle [of db] by (simp add: waiting_runs_def)
next
  case (Suc n)
  let ?rest = "length (waiting_runs db) + k"
  have ne: "waiting_runs db \<noteq> []" using Suc.hyps(2) by auto
  obtain r g db1 st1 where r: "run_once parser conflict (fresh (n + k)) (clock (n + k)) (db, st) = (True, db1, st1)"
      "r \<in> set (waiting_runs db)" "\<forall>x \<in> set (waiting_runs db). pr_created_at r \<le> pr_created_at x"
      "cs_documents db1 = cs_documents db" "cs_runs db1 = update_where (\<lambda>x. pr_id x = pr_id r) g (cs_runs db)" "\<And>x. pr_id (g x) = pr_id x \<and> settled (g x)"
    by (rule run_once_settles [of db parser conflict "fresh (n + k)" "clock (n + k)" st, OF ne]) (rule that)
  have mem: "r \<in> set (cs_runs db)" using r(2) by (simp add: waiting_runs_def)
  have len: "length (waiting_runs db1) = n"
    using length_filter_update [OF Suc.prems mem refl, of "waiting (cs_documents db)" g] r(2) r(6) [of r] Suc.hyps(2)
    by (auto simp: waiting_runs_def r(4,5) waiting_def settled_def)
  have d: "distinct (map pr_id (cs_runs db1))" using Suc.prems r(6) by (simp add: r(5) map_id_update)
  obtain db' st' where IH: "worker_loop parser conflict fresh clock (n + k) (db1, st1) = (replicate n True @ replicate k False, db', st')"
      "waiting_runs db' = []" "\<forall>r \<in> set (waiting_runs db1). \<exists>r' \<in> set (cs_runs db'). pr_id r' = pr_id r \<and> settled r'"
      "\<forall>r \<in> set (cs_runs db1). r \<notin> set (waiting_runs db1) \<longrightarrow> r \<in> set (cs_runs db')"
    using Suc.hyps(1) [OF len [symmetric] d, of st1] unfolding len by blast
  have rd: "g r \<in> set (cs_runs db')"
    using IH(4) r(6) [of r] changed_mem [of r "cs_runs db" "\<lambda>x. pr_id x = pr_id r" g] mem
    by (auto simp: r(5) waiting_runs_def waiting_def settled_def)
  have other: "x \<in> set (cs_runs db1)" if "x \<in> set (cs_runs db)" "x \<noteq> r" for x
    unfolding r(5) by (rule other_stays [OF that(1)]) (use same_run [OF Suc.prems that(1) mem] that(2) in blast)
  have "\<exists>r' \<in> set (cs_runs db'). pr_id r' = pr_id x \<and> settled r'" if "x \<in> set (waiting_runs db)" for x
  proof (cases "x = r")
    case True
    then show ?thesis using rd r(6) by blast
  next
    case False
    then have "x \<in> set (waiting_runs db1)" using that other by (simp add: waiting_runs_def r(4))
    then show ?thesis using IH(3) by blast
  qed
  moreover have "x \<in> set (cs_runs db')" if "x \<in> set (cs_runs db)" "x \<notin> set (waiting_runs db)" for x
  proof -
    have "x \<noteq> r" using that r(2) by blast
    then have "x \<in> set (cs_runs db1)" by (rule other [OF that(1)])
    moreover have "x \<notin> set (waiting_runs db1)" using that by (simp add: waiting_runs_def r(4))
    ultimately show ?thesis using IH(4) by blast
  qed
  moreover have "worker_loop parser conflict fresh clock ?rest (db, st)
      = (replicate (length (waiting_runs db)) True @ replicate k False, db', st')"
    unfolding Suc.hyps(2) [symmetric] add_Suc worker_loop.simps r(1) by (simp add: IH(1))
  ultimately show ?case using IH(2) by blast
qed

section \<open>Lost runs and late numbers\<close>

text \<open>A running run that no worker holds any more.\<close>

definition lost_run :: "parse_system \<Rightarrow> parse_run \<Rightarrow> bool" where
  "lost_run s r \<longleftrightarrow> r \<in> set (cs_runs (sy_db s)) \<and> pr_status r = ''running''
     \<and> (\<forall>w t. task_of (sy_workers s w) = Some t \<longrightarrow> pt_run t \<noteq> pr_id r)"

lemma lost_run_idle: "lost_run s r \<Longrightarrow> task_of (((sy_workers s)(w := Idle)) w') = Some t \<Longrightarrow> pt_run t \<noteq> pr_id r"
  by (auto simp: lost_run_def split: if_splits)

lemma lost_run_end:
  assumes "lost_run s r" "task_of (sy_workers s w) = Some t" "cs_runs db = update_where (\<lambda>r. pr_id r = pt_run t) f (cs_runs (sy_db s))"
  shows "lost_run (s\<lparr>sy_db := db, sy_store := st, sy_workers := (sy_workers s)(w := Idle)\<rparr>) r"
proof -
  have "pr_id r \<noteq> pt_run t" "r \<in> set (cs_runs (sy_db s))" using assms(1,2) unfolding lost_run_def by metis+
  then have "r \<in> set (cs_runs db)" unfolding assms(3) by (intro other_stays) auto
  then show ?thesis using assms(1) lost_run_idle [OF assms(1)] by (simp add: lost_run_def)
qed

lemma lost_run_frame: "lost_run s r \<Longrightarrow> frame (sy_db s) db \<Longrightarrow> lost_run (s\<lparr>sy_db := db, sy_store := st\<rparr>) r"
  by (simp add: lost_run_def frame_def)

lemma same_store: "s\<lparr>sy_db := db, sy_store := sy_store s\<rparr> = s\<lparr>sy_db := db\<rparr>"
  by (cases s) simp

lemma same_store': "s\<lparr>sy_db := db, sy_store := sy_store s, sy_workers := ws\<rparr> = s\<lparr>sy_db := db, sy_workers := ws\<rparr>"
  by (cases s) simp

lemma lost_run_step:
  assumes "sys_ok qs s" "lost_run s r" "sys_step parser s s'"
  shows "lost_run s' r"
  using assms(3,1,2)
proof (induction rule: sys_step.cases)
  case (create fresh now org actor number title field jurisdiction s row db)
  then show ?case by (auto dest!: create_case_Inr simp: lost_run_def)
next
  case (upload rd sha fresh now org c f data s out db st)
  then show ?case by (cases out) (auto dest!: upload_document_Inr(1) simp: lost_run_def)
next
  case (claim s w now t db)
  obtain r' where r': "r' \<in> set (cs_runs (sy_db s))" "pr_status r' = ''queued''" "pt_run t = pr_id r'"
      "db = set_run (pr_id r') (start_run now) (sy_db s)"
    using claim_task_Some [OF claim(4)] by (metis parse_task.select_convs(1))
  have l: "lost_run s r" and d: "distinct (map pr_id (cs_runs (sy_db s)))"
    using claim(1,5,6) by (auto simp: sys_ok_def runs_ok_def)
  have "pr_id r \<noteq> pr_id r'"
  proof
    assume "pr_id r = pr_id r'"
    then have "r = r'" using l by (intro same_run [OF d _ r'(1)]) (simp_all add: lost_run_def)
    then show False using l r'(2) by (simp add: lost_run_def)
  qed
  moreover from this have "r \<in> set (cs_runs db)"
    using l unfolding r'(4) set_run_frame by (intro other_stays) (auto simp: lost_run_def)
  ultimately show ?case using claim(2) l r'(3) by (auto simp: lost_run_def)
next
  case (number s w t doc drawings)
  have l: "lost_run s r" using number(1,6) by simp
  then have "pt_run t \<noteq> pr_id r" using number(3) unfolding lost_run_def by (metis task_of_simps(2))
  then show ?case using number(2) l by (simp add: lost_run_def)
next
  case (unread s w t err now)
  have "lost_run (s\<lparr>sy_db := fail_task now err t (sy_db s), sy_store := sy_store s, sy_workers := (sy_workers s)(w := Idle)\<rparr>) r"
    by (rule lost_run_end) (use unread in \<open>auto simp: fail_task_def set_run_frame\<close>)
  then show ?case using unread(2) by (simp only: same_store')
next
  case (conflict s w t n doc drawings conflict fresh clock err now)
  have "lost_run (s\<lparr>sy_db := fail_task now err t (sy_db s), sy_store := sy_store s, sy_workers := (sy_workers s)(w := Idle)\<rparr>) r"
    by (rule lost_run_end) (use conflict in \<open>auto simp: fail_task_def set_run_frame\<close>)
  then show ?case using conflict(2) by (simp only: same_store')
next
  case (store s w t n doc drawings conflict fresh clock db st)
  have t: "task_of (sy_workers s w) = Some t" using store(3) by simp
  show ?case using lost_run_end [OF _ t store_result_Inr(5) [OF store(4)]] store(1,2,7) by simp
next
  case (crash s w)
  then show ?case using lost_run_idle by (simp add: lost_run_def split: if_splits)
next
  case (confirm org c vid actor s out db)
  then show ?case using lost_run_frame [OF _ confirm_frame] by (metis same_store)
next
  case (update now org c did label title marks order s d db)
  then show ?case using lost_run_frame [OF _ update_drawing_frame] by (metis same_store)
next
  case (delete org c did s db)
  then show ?case using lost_run_frame [OF _ delete_drawing_frame] by (metis same_store)
qed (blast intro: lost_run_frame add_drawing_frame re_extract_frame)+

text \<open>
  A run whose worker is lost never ends.  No operation of the services and no other worker changes a running run
  that nobody holds, so its state stays \<open>running\<close> for ever: there is no lease that expires.
\<close>

theorem lost_run_stays_running:
  assumes "sys_reachable parser qs s" and "lost_run s r" and "(sys_step parser)\<^sup>*\<^sup>* s s'"
  shows "r \<in> set (cs_runs (sy_db s')) \<and> pr_status r = ''running''"
proof -
  have "sys_ok qs s' \<and> lost_run s' r"
    using assms(3) sys_reachable_ok [OF assms(1)] assms(2)
    by (induction rule: rtranclp_induct) (auto intro: sys_ok_step lost_run_step)
  then show ?thesis by (simp add: lost_run_def)
qed

text \<open>
  Of two workers that have read the same next number for a case, the one that commits later is refused by the index, and its
  run fails although its document was read.
\<close>

lemma late_number_refused:
  assumes "store_result conflict fresh clock t n doc drawings (db, st) = Inr (db', st')" "pt_case t' = pt_case t"
  shows "store_result conflict' fresh' clock' t' n doc' drawings' (db', st'') = Inl conflict'"
proof -
  have "(pt_case t, n) \<in> set (numbering_of db')" using store_result_Inr(4) [OF assms(1)] by simp
  then show ?thesis using assms(2) by (auto simp: store_result_def list_ex_iff numbering_of_def)
qed

text \<open>Cases created after the period do not count, and no code begins a new period.\<close>

lemma after_period_unlimited:
  assumes "create_case fresh now org actor number title field jurisdiction db = Inr (row, db')"
    and "find (\<lambda>q. qu_organization q = org) (cs_quotas db) = Some q" and "qu_period_end q \<le> now"
  shows "quota_used org db' = None"
proof -
  note c = create_case_Inr [OF assms(1)]
  then have "cases_in_period org q db' = cases_in_period org q db" using assms(3) by (simp add: cases_in_period_def)
  then show ?thesis using c assms(2) by (auto simp: quota_used_def split: if_splits)
qed

section \<open>A sample\<close>

text \<open>An organization with an allowance of one case uploads a file, which a worker claims; then the worker is lost.\<close>

definition sample_quota :: quota where
  "sample_quota = \<lparr>qu_organization = ''o'', qu_plan_key = ''basic'', qu_allowance = 1, qu_period_start = 0,
     qu_period_end = 10, qu_status = ''active''\<rparr>"

definition sample_ids :: "char \<Rightarrow> nat \<Rightarrow> string" where
  "sample_ids c n = c # replicate n CHR ''x''"

definition sample_case :: case_row where
  "sample_case = \<lparr>ca_id = ''a'', ca_organization = ''o'', ca_number = [65], ca_title = [66], ca_field = [67],
     ca_jurisdiction = ''CN'', ca_status = ''draft'', ca_created_by = ''p'', ca_created_at = 1\<rparr>"

definition sample_file :: ustr where "sample_file = u ''%PDF-/J#53''"

definition sample_source :: source_document where
  "sample_source = \<lparr>sd_id = ''b'', sd_organization = ''o'', sd_case = ''a'', sd_name = u ''A.PDF'', sd_size = length sample_file,
     sd_mime = PDF_MIME, sd_sha256_hex = ''h'', sd_key = build_source_key ''o'' ''a'' ''h'' (u ''A.PDF''),
     sd_findings = [''pdf_javascript''], sd_created_at = 2\<rparr>"

definition sample_run :: parse_run where
  "sample_run = \<lparr>pr_id = ''bx'', pr_organization = ''o'', pr_case = ''a'', pr_source = ''b'', pr_status = ''queued'',
     pr_error = None, pr_started_at = None, pr_finished_at = None, pr_created_at = 2\<rparr>"

definition sample_db :: case_db where
  "sample_db = \<lparr>cs_quotas = [sample_quota], cs_cases = [sample_case], cs_documents = [sample_source], cs_runs = [sample_run],
     cs_versions = [], cs_drawings = []\<rparr>"

definition empty_store :: storage where
  "empty_store = \<lparr>sg_memory = True, sg_base = [], sg_objects = Map.empty, sg_files = Map.empty\<rparr>"

definition sample_task :: parse_task where
  "sample_task = \<lparr>pt_run = ''bx'', pt_organization = ''o'', pt_case = ''a'', pt_source = ''b'', pt_name = u ''A.PDF'',
     pt_mime = PDF_MIME, pt_key = sd_key sample_source\<rparr>"

definition no_reader :: document_reader where
  "no_reader raw name mime = Inl (u ''unreadable'')"

lemma sample_case_created:
  "create_case (sample_ids CHR ''a'') 1 ''o'' ''p'' [32, 65] [66] [67] ''CN'' (sy_db (new_system [sample_quota] empty_store))
    = Inr (sample_case, sample_db\<lparr>cs_documents := [], cs_runs := []\<rparr>)"
  by (simp add: create_case_def Let_def strip_def lstrip_def rstrip_def is_space_def new_system_def quota_used_def
      sample_quota_def cases_in_period_def case_number_taken_def sample_case_def sample_db_def sample_ids_def)

lemma sample_uploaded:
  "upload_document sample_readers (\<lambda>_. ''h'') (sample_ids CHR ''b'') 2 ''o'' ''a'' (u ''A.PDF'') sample_file
      (sample_db\<lparr>cs_documents := [], cs_runs := []\<rparr>, st)
    = Inr ((sample_source, sample_run), sample_db, put_object (sd_key sample_source) sample_file st)"
  by (simp add: upload_document_def sample_upload_accepted sample_file_def Let_def sample_source_def sample_run_def sample_db_def
      sample_ids_def)

lemma sample_claimed:
  "claim_task 3 sample_db = Some (sample_task, sample_db\<lparr>cs_runs := [start_run 3 sample_run]\<rparr>)"
  by (simp add: claim_task_def queued_tasks_def sample_db_def sample_run_def sample_source_def sample_task_def set_run_def
      update_where_def)

lemma sample_unused:
  "unused (sample_ids CHR ''a'') (sy_db (new_system qs st))"
  "unused (sample_ids CHR ''b'') (sample_db\<lparr>cs_documents := [], cs_runs := []\<rparr>)"
  by (auto simp: unused_def inj_def sample_ids_def used_ids_def new_system_def sample_db_def sample_case_def)

definition sample_system :: "(nat \<Rightarrow> worker) \<Rightarrow> parse_run \<Rightarrow> parse_system" where
  "sample_system ws r = \<lparr>sy_db = sample_db\<lparr>cs_runs := [r]\<rparr>, sy_store = put_object (sd_key sample_source) sample_file empty_store,
     sy_workers = ws\<rparr>"

lemma sample_reachable:
  "sys_reachable no_reader [sample_quota] (sample_system (\<lambda>_. Idle) sample_run)"
  "sys_reachable no_reader [sample_quota] (sample_system ((\<lambda>_. Idle)(0 := Claimed sample_task)) (start_run 3 sample_run))"
  "sys_reachable no_reader [sample_quota] (sample_system (\<lambda>_. Idle) (start_run 3 sample_run))"
proof -
  let ?s0 = "new_system [sample_quota] empty_store"
  let ?s1 = "?s0\<lparr>sy_db := sample_db\<lparr>cs_documents := [], cs_runs := []\<rparr>\<rparr>"
  have 1: "sys_reachable no_reader [sample_quota] ?s1"
    by (rule sys_reachable.step [OF sys_reachable.init sys_step.create [OF sample_case_created sample_unused(1)]])
  have up: "upload_document sample_readers (\<lambda>_. ''h'') (sample_ids CHR ''b'') 2 ''o'' ''a'' (u ''A.PDF'') sample_file
      (sy_db ?s1, sy_store ?s1) = Inr ((sample_source, sample_run), sample_db, put_object (sd_key sample_source) sample_file empty_store)"
    using sample_uploaded by (simp add: new_system_def)
  have "get_case ''o'' ''a'' (sy_db ?s1) \<noteq> None" by (simp add: get_case_def sample_db_def sample_case_def)
  then have "sys_step no_reader ?s1 (?s1\<lparr>sy_db := sample_db, sy_store := put_object (sd_key sample_source) sample_file empty_store\<rparr>)"
    using sys_step.upload [OF up] sample_unused(2) by simp
  moreover have "?s1\<lparr>sy_db := sample_db, sy_store := put_object (sd_key sample_source) sample_file empty_store\<rparr>
      = sample_system (\<lambda>_. Idle) sample_run"
    by (simp add: sample_system_def new_system_def) (simp add: sample_db_def)
  ultimately show 2: "sys_reachable no_reader [sample_quota] (sample_system (\<lambda>_. Idle) sample_run)"
    using sys_reachable.step [OF 1] by simp
  have db: "sy_db (sample_system (\<lambda>_. Idle) sample_run) = sample_db" by (simp add: sample_system_def) (simp add: sample_db_def)
  have "sys_step no_reader (sample_system (\<lambda>_. Idle) sample_run)
      (sample_system ((\<lambda>_. Idle)(0 := Claimed sample_task)) (start_run 3 sample_run))"
    using sys_step.claim [of "sample_system (\<lambda>_. Idle) sample_run" 0 3 sample_task, unfolded db, OF _ sample_claimed]
    by (simp add: sample_system_def)
  then show 3: "sys_reachable no_reader [sample_quota] (sample_system ((\<lambda>_. Idle)(0 := Claimed sample_task)) (start_run 3 sample_run))"
    by (rule sys_reachable.step [OF 2])
  have lost: "(sample_system ((\<lambda>_. Idle)(0 := Claimed sample_task)) (start_run 3 sample_run))
      \<lparr>sy_workers := (sy_workers (sample_system ((\<lambda>_. Idle)(0 := Claimed sample_task)) (start_run 3 sample_run)))(0 := Idle)\<rparr>
    = sample_system (\<lambda>_. Idle) (start_run 3 sample_run)"
    by (simp add: sample_system_def fun_eq_iff)
  have "sys_step no_reader (sample_system ((\<lambda>_. Idle)(0 := Claimed sample_task)) (start_run 3 sample_run))
      (sample_system (\<lambda>_. Idle) (start_run 3 sample_run))"
    using sys_step.crash [of no_reader "sample_system ((\<lambda>_. Idle)(0 := Claimed sample_task)) (start_run 3 sample_run)" 0]
    unfolding lost .
  then show "sys_reachable no_reader [sample_quota] (sample_system (\<lambda>_. Idle) (start_run 3 sample_run))"
    by (rule sys_reachable.step [OF 3])
qed

theorem run_states_typed_witness: "run_typed (start_run 3 sample_run)"
  by (rule run_states_typed [OF sample_reachable(2)]) (simp add: sample_system_def)

theorem runs_parsed_once_witness:
  "\<exists>r \<in> set [start_run 3 sample_run]. pr_id r = pt_run sample_task \<and> pr_status r = ''running''"
proof -
  let ?s = "sample_system ((\<lambda>_. Idle)(0 := Claimed sample_task)) (start_run 3 sample_run)"
  have "task_of (sy_workers ?s 0) = Some sample_task" by (simp add: sample_system_def)
  then have "\<exists>r \<in> set (cs_runs (sy_db ?s)). pr_id r = pt_run sample_task \<and> pr_status r = ''running''"
    using runs_parsed_once [OF sample_reachable(2), of "''a''"] by blast
  then show ?thesis by (simp add: sample_system_def)
qed

theorem quota_kept_witness: "int (cases_in_period ''o'' sample_quota sample_db) \<le> 1"
proof -
  have "find (\<lambda>q. qu_organization q = ''o'') [sample_quota] = Some sample_quota" by (simp add: sample_quota_def)
  then have "int (cases_in_period ''o'' sample_quota (sy_db (sample_system (\<lambda>_. Idle) sample_run))) \<le> max 0 (qu_allowance sample_quota)"
    using quota_kept [OF sample_reachable(1)] by blast
  then show ?thesis by (simp add: sample_system_def sample_quota_def cases_in_period_def)
qed

theorem lost_run_stays_running_witness: "start_run 3 sample_run \<in> set [start_run 3 sample_run]"
proof -
  have "lost_run (sample_system (\<lambda>_. Idle) (start_run 3 sample_run)) (start_run 3 sample_run)"
    by (simp add: lost_run_def sample_system_def start_run_def)
  from lost_run_stays_running [OF sample_reachable(3) this rtranclp.rtrancl_refl] show ?thesis
    by (simp add: sample_system_def)
qed

theorem queue_drains_witness:
  "fst (worker_loop no_reader [] (\<lambda>_. sample_ids CHR ''d'') (\<lambda>n k. n + k) 3 (sample_db, empty_store)) = [True, False, False]"
proof -
  have "waiting_runs sample_db = [sample_run]"
    by (simp add: waiting_runs_def waiting_def sample_db_def sample_run_def sample_source_def)
  moreover have "distinct (map pr_id (cs_runs sample_db))" by (simp add: sample_db_def)
  ultimately show ?thesis
    using queue_drains [of sample_db no_reader "[]" "\<lambda>_. sample_ids CHR ''d''" "\<lambda>n k. n + k" 2 empty_store]
    by (auto simp: eval_nat_numeral)
qed

end
