(* ===== verification/SourceSafety.thy ===== *)
theory SourceSafety
  imports ParseQueue
begin

text \<open>
  The objects of a case: uploaded files stay as they were inspected, drawings with plain names do not touch them, and
  what a name with separators can reach.
\<close>

section \<open>Places of drawings\<close>

definition drawing_path :: "string \<Rightarrow> string \<Rightarrow> string \<Rightarrow> ustr \<Rightarrow> path" where
  "drawing_path org c h filename = [u ''org'', u org, u ''case'', u c, u ''drawings'', u h @ 95 # filename]"

lemma drawing_key_join: "drawing_key org c h f = join [47] (drawing_path org c h f)"
  by (simp add: drawing_key_def drawing_path_def u_def)

lemma drawing_path_segments:
  assumes "plain_word org" "plain_word c" "plain_word h" "x \<in> set (drawing_path org c h f)" "47 \<notin> set f"
  shows "47 \<notin> set x \<and> x \<noteq> [] \<and> x \<noteq> [46] \<and> x \<noteq> u ''..''"
  using assms(4,5) assms(1-3) [THEN plain_word_free]
  by (auto simp: drawing_path_def u_def append_eq_Cons_conv Cons_eq_append_conv)

lemma drawing_key_segments:
  assumes "plain_word org" "plain_word c" "plain_word h" "47 \<notin> set f"
  shows "path_segments (drawing_key org c h f) = drawing_path org c h f"
proof -
  note seg = drawing_path_segments [OF assms(1-3) _ assms(4)]
  have "split_on 47 (drawing_key org c h f) = drawing_path org c h f"
    unfolding drawing_key_join by (rule split_on_join) (simp add: drawing_path_def, use seg in blast)
  then show ?thesis unfolding path_segments_def using seg by (simp add: filter_id_conv)
qed

lemma drawing_key_place:
  assumes "plain_word org" "plain_word c" "plain_word h" "47 \<notin> set f" "\<not> sg_memory st"
  shows "place st (drawing_key org c h f) = sg_base st @ drawing_path org c h f"
proof -
  have "u ''..'' \<notin> set (drawing_path org c h f)" using drawing_path_segments [OF assms(1-3) _ assms(4)] by blast
  moreover have "\<not> starts_with (drawing_key org c h f) [47]" by (simp add: drawing_key_def u_def)
  ultimately show ?thesis using assms by (simp add: place_def target_file_def drawing_key_segments foldl_enter)
qed

text \<open>A drawing with a plain name never shares the place of a source file.\<close>

lemma drawing_apart:
  assumes "plain_word org" "plain_word c" "plain_word h" "47 \<notin> set f" "plain_word org'" "plain_word c'" "plain_word h'"
  shows "place st (build_source_key org' c' h' f') \<noteq> place st (drawing_key org c h f)"
proof
  assume e: "place st (build_source_key org' c' h' f') = place st (drawing_key org c h f)"
  have "source_path org' c' h' f' = drawing_path org c h f"
  proof (cases "sg_memory st")
    case True
    then have "build_source_key org' c' h' f' = drawing_key org c h f" using e by (simp add: place_def)
    then show ?thesis using source_key_segments [OF assms(5-7)] drawing_key_segments [OF assms(1-4)] by metis
  next
    case False
    then show ?thesis using e source_key_place [OF assms(5-7)] drawing_key_place [OF assms(1-4)] by simp
  qed
  then show False by (simp add: source_path_def drawing_path_def u_inj)
qed

section \<open>Source files stay\<close>

text \<open>A hexadecimal digest of 64 digits.\<close>

definition hex_digest :: "(ustr \<Rightarrow> string) \<Rightarrow> bool" where
  "hex_digest sha256 \<longleftrightarrow> (\<forall>x. plain_word (sha256 x) \<and> length (sha256 x) = 64)"

definition sources_ok :: "(ustr \<Rightarrow> string) \<Rightarrow> case_db \<Rightarrow> storage \<Rightarrow> bool" where
  "sources_ok sha256 db st \<longleftrightarrow>
     (\<forall>d \<in> set (cs_documents db). plain_word (sd_organization d) \<and> plain_word (sd_case d)
        \<and> sd_key d = build_source_key (sd_organization d) (sd_case d) (sd_sha256_hex d) (sd_name d)
        \<and> (\<exists>b. get_object (sd_key d) st = Some b \<and> sha256 b = sd_sha256_hex d))"

lemma sources_ok_put:
  assumes "sources_ok sha256 db st"
    and "\<And>d. d \<in> set (cs_documents db) \<Longrightarrow> place st (sd_key d) = place st key \<Longrightarrow> sha256 data = sd_sha256_hex d"
  shows "sources_ok sha256 db (put_object key data st)"
  using assms unfolding sources_ok_def get_put by (metis (no_types, lifting))

lemma sources_ok_drawing:
  assumes "hex_digest sha256" "sources_ok sha256 db st" "plain_word org" "plain_word c" "plain_word h" "47 \<notin> set f"
  shows "sources_ok sha256 db (put_object (drawing_key org c h f) data st)"
proof (rule sources_ok_put [OF assms(2)])
  fix d
  assume "d \<in> set (cs_documents db)" and e: "place st (sd_key d) = place st (drawing_key org c h f)"
  then have d: "plain_word (sd_organization d)" "plain_word (sd_case d)" "plain_word (sd_sha256_hex d)"
      "sd_key d = build_source_key (sd_organization d) (sd_case d) (sd_sha256_hex d) (sd_name d)"
    using assms(1,2) unfolding sources_ok_def hex_digest_def by metis+
  have False using drawing_apart [OF assms(3-6) d(1-3)] e unfolding d(4) by blast
  then show "sha256 data = sd_sha256_hex d" ..
qed

text \<open>
  C26: an uploaded file stays as it was inspected.  An upload stores its own bytes under a key of its case, and neither
  a later upload, of whatever name, nor a drawing with a name without separators changes the object of any
  source document: every document of the database still has the object whose digest its row records.
\<close>

theorem sources_stay_intact:
  assumes "hex_digest sha256" and "sources_ok sha256 db st" and "plain_word org" and "plain_word c"
  shows "(upload_document rd sha256 fresh now org c filename data (db, st) = Inr ((doc, run), db', st') \<longrightarrow>
      sources_ok sha256 db' st' \<and> get_object (sd_key doc) st' = Some data)
    \<and> (add_drawing sha256 fresh now org c data filename label title marks mime (db, st) = (d, db', st') \<longrightarrow>
      47 \<notin> set filename \<longrightarrow> sources_ok sha256 db' st')"
proof (intro conjI [of "_ \<longrightarrow> _"] impI)
  assume "upload_document rd sha256 fresh now org c filename data (db, st) = Inr ((doc, run), db', st')"
  note up = upload_document_Inr [OF this]
  have h: "plain_word (sha256 data)" "length (sha256 data) = 64" for data using assms(1) unfolding hex_digest_def by blast+
  have stored: "get_object (sd_key doc) st' = Some data" by (simp add: up(2) get_put)
  have "sources_ok sha256 db st'" unfolding up(2)
  proof (rule sources_ok_put [OF assms(2)])
    fix d
    assume "d \<in> set (cs_documents db)" and e: "place st (sd_key d) = place st (sd_key doc)"
    then have d: "plain_word (sd_organization d)" "plain_word (sd_case d)" "\<exists>b. sha256 b = sd_sha256_hex d"
        "sd_key d = build_source_key (sd_organization d) (sd_case d) (sd_sha256_hex d) (sd_name d)"
      using assms(2) unfolding sources_ok_def by metis+
    obtain b where b: "sha256 b = sd_sha256_hex d" using d(3) ..
    have "place st (build_source_key (sd_organization d) (sd_case d) (sd_sha256_hex d) (sd_name d))
        = place st (build_source_key org c (sha256 data) filename)"
      using e unfolding d(4) [symmetric] up(3) [symmetric] .
    from source_keys_apart [OF d(1,2) h(1) [of b, unfolded b] assms(3,4) h(1) [of data] _ this] h(2) [of b, unfolded b] h(2) [of data]
    show "sha256 data = sd_sha256_hex d" by simp
  qed
  then show "sources_ok sha256 db' st' \<and> get_object (sd_key doc) st' = Some data"
    using stored assms(3,4) up unfolding sources_ok_def by auto
next
  assume a: "add_drawing sha256 fresh now org c data filename label title marks mime (db, st) = (d, db', st')" "47 \<notin> set filename"
  have "plain_word (sha256 data)" using assms(1) unfolding hex_digest_def by blast
  from sources_ok_drawing [OF assms(1-4) this a(2), of data] show "sources_ok sha256 db' st'"
    using a(1) by (auto simp: add_drawing_def Let_def sources_ok_def)
qed

section \<open>Names with separators\<close>

text \<open>
  The name of a drawing is put into its key as the client sent it.  In the file system, with parent segments it
  reaches any file: for every path there is a name whose drawing is written there.
\<close>

lemma foldl_parents: "length dir \<le> n \<Longrightarrow> foldl enter dir (replicate n (u ''..'')) = []"
proof (induction n arbitrary: dir)
  case (Suc n)
  have "enter dir (u ''..'') = butlast dir" by (simp add: enter_def)
  then show ?case using Suc.IH [of "butlast dir"] Suc.prems by simp
qed simp

theorem drawing_name_escapes:
  assumes "plain_word org" and "plain_word c" and "plain_word h" and "\<not> sg_memory st"
    and "target \<noteq> []" and "\<And>x. x \<in> set target \<Longrightarrow> 47 \<notin> set x \<and> x \<noteq> [] \<and> x \<noteq> [46] \<and> x \<noteq> u ''..''"
  shows "\<exists>filename. place st (drawing_key org c h filename) = target"
proof -
  let ?rest = "replicate (length (sg_base st) + 6) (u ''..'') @ target"
  let ?name = "join [47] ([120] # ?rest)"
  let ?segs = "drawing_path org c h [120] @ ?rest"
  have free: "47 \<notin> set x \<and> x \<noteq> [] \<and> x \<noteq> [46]" if "x \<in> set ?segs" for x
    using that drawing_path_segments [OF assms(1-3), of x "[120]"] assms(6) by (auto simp: u_def)
  obtain y ys where "?rest = y # ys" using assms(5) by (cases ?rest) auto
  then have key: "drawing_key org c h ?name = join [47] ?segs"
    by (simp add: drawing_key_def drawing_path_def u_def)
  have "split_on 47 (join [47] ?segs) = ?segs" by (rule split_on_join) (simp add: drawing_path_def, use free in blast)
  then have segs: "path_segments (drawing_key org c h ?name) = ?segs"
    unfolding key path_segments_def using free by (simp add: filter_id_conv)
  have up: "u ''..'' \<notin> set (drawing_path org c h [120])" "u ''..'' \<notin> set target"
    using drawing_path_segments [OF assms(1-3), of _ "[120]"] assms(6) by auto
  have "\<not> starts_with (drawing_key org c h ?name) [47]" by (simp add: drawing_key_def u_def)
  then have "place st (drawing_key org c h ?name) = foldl enter (sg_base st) ?segs"
    using assms(4) unfolding place_def target_file_def segs by simp
  also have "\<dots> = target"
  proof -
    have "length (drawing_path org c h [120]) = 6" by (simp add: drawing_path_def)
    then have "foldl enter (sg_base st @ drawing_path org c h [120]) (replicate (length (sg_base st) + 6) (u ''..'')) = []"
      by (intro foldl_parents) simp
    then show ?thesis by (simp only: foldl_append foldl_enter [OF up(1)] foldl_enter [OF up(2)] append_Nil)
  qed
  finally show ?thesis by blast
qed

theorem drawing_name_escapes_witness:
  "\<exists>filename. place \<lparr>sg_memory = False, sg_base = [u ''srv''], sg_objects = Map.empty, sg_files = Map.empty\<rparr>
     (drawing_key ''o'' ''c'' ''h'' filename) = [[101], [102]]"
  by (rule drawing_name_escapes) (auto simp: plain_word_def u_def)

section \<open>Samples\<close>

definition sample_digest :: "ustr \<Rightarrow> string" where
  "sample_digest data = replicate 64 (if data = sample_file then CHR ''1'' else CHR ''0'')"

lemma sample_upload:
  "\<exists>doc run db'. upload_document sample_readers sample_digest (sample_ids CHR ''b'') 2 ''o'' ''a'' (u ''A.PDF'') sample_file
     (sample_db\<lparr>cs_documents := [], cs_runs := []\<rparr>, empty_store) = Inr ((doc, run), db', put_object (sd_key doc) sample_file empty_store)"
  by (simp add: upload_document_def sample_upload_accepted sample_file_def Let_def)

theorem sources_stay_intact_witness:
  "\<exists>(doc :: source_document) st'. get_object (sd_key doc) st' = Some sample_file \<and> sd_sha256_hex doc = replicate 64 CHR ''1''"
proof -
  obtain doc run db' where up: "upload_document sample_readers sample_digest (sample_ids CHR ''b'') 2 ''o'' ''a'' (u ''A.PDF'') sample_file
     (sample_db\<lparr>cs_documents := [], cs_runs := []\<rparr>, empty_store) = Inr ((doc, run), db', put_object (sd_key doc) sample_file empty_store)"
    using sample_upload by blast
  have "hex_digest sample_digest" by (simp add: hex_digest_def sample_digest_def plain_word_def)
  moreover have "sources_ok sample_digest (sample_db\<lparr>cs_documents := [], cs_runs := []\<rparr>) empty_store" by (simp add: sources_ok_def)
  ultimately have "get_object (sd_key doc) (put_object (sd_key doc) sample_file empty_store) = Some sample_file"
    using sources_stay_intact [THEN conjunct1, THEN mp, OF _ _ _ _ up] by (simp add: plain_word_def)
  moreover have "sd_sha256_hex doc = replicate 64 CHR ''1''" using upload_document_Inr(10) [OF up] by (simp add: sample_digest_def)
  ultimately show ?thesis by blast
qed

end
