(* ===== verification/CaseRoutes.thy ===== *)
theory CaseRoutes
  imports SourceSafety
begin

text \<open>
  \<^verbatim>\<open>cases/api.py\<close>: the routes of the cases.  What a route reads from its request comes first, then the authorization of
  \<open>OrganizationAccess\<close>, whose outcome is an argument (the actor, or the error), then the service in the same
  transaction.  Arguments are also the parsed forms and bodies, the decoding of base64 and JSON, and the encoding to
  UTF-8; the audit events belong to the wrapper.
\<close>

section \<open>Cases\<close>

type_synonym access = "(http_error, string) result"

record case_create_body =
  cb_number :: ustr
  cb_title :: ustr
  cb_field :: ustr
  cb_jurisdiction :: string

definition within :: "nat \<Rightarrow> nat \<Rightarrow> 'a list \<Rightarrow> bool" where
  "within lo hi s \<longleftrightarrow> lo \<le> length s \<and> length s \<le> hi"

definition valid_create_body :: "case_create_body \<Rightarrow> bool" where
  "valid_create_body b \<longleftrightarrow> within 1 128 (cb_number b) \<and> within 1 256 (cb_title b) \<and> within 1 128 (cb_field b)
     \<and> within 2 32 (cb_jurisdiction b)"

definition invalid_request :: http_error where "invalid_request = Http 422 ''invalid_request''"

definition case_not_found :: http_error where "case_not_found = Http 404 ''case_not_found''"

definition create_case_route :: "access \<Rightarrow> (nat \<Rightarrow> string) \<Rightarrow> nat \<Rightarrow> string \<Rightarrow> case_create_body option \<Rightarrow> case_db
    \<Rightarrow> (http_error, case_row \<times> case_db) result" where
  "create_case_route access fresh now org body db =
     bind_result access (\<lambda>actor.
       case body of
         None \<Rightarrow> Inl invalid_request
       | Some b \<Rightarrow>
           if valid_create_body b
           then create_case fresh now org actor (cb_number b) (cb_title b) (cb_field b) (cb_jurisdiction b) db
           else Inl invalid_request)"

definition get_case_route :: "access \<Rightarrow> string \<Rightarrow> string \<Rightarrow> case_db \<Rightarrow> (http_error, case_detail) result" where
  "get_case_route access org c db =
     bind_result access (\<lambda>_. case get_case org c db of None \<Rightarrow> Inl case_not_found | Some d \<Rightarrow> Inr d)"

definition confirm_route :: "access \<Rightarrow> string \<Rightarrow> string \<Rightarrow> string \<Rightarrow> case_db
    \<Rightarrow> (http_error, (string \<times> string \<times> string) \<times> case_db) result" where
  "confirm_route access org c vid db = bind_result access (\<lambda>actor. confirm_document_version org c vid actor db)"

section \<open>Uploads\<close>

definition MAX_UPLOAD_REQUEST_BYTES :: nat where
  "MAX_UPLOAD_REQUEST_BYTES = MAX_FILE_SIZE * 4 div 3 + 1024 * 1024"

record direct_upload_body =
  db_filename :: ustr
  db_base64 :: "ustr option"
  db_text :: "ustr option"

text \<open>The declared length, a form with its file, or a body that is \<open>None\<close> when it is not valid.\<close>

record upload_request =
  ur_length :: "nat option"
  ur_multipart :: bool
  ur_file :: "(ustr option \<times> ustr) option"
  ur_body :: "direct_upload_body option"

definition named :: "ustr option \<Rightarrow> ustr \<Rightarrow> ustr" where
  "named x standard = (case x of None \<Rightarrow> standard | Some s \<Rightarrow> if s = [] then standard else s)"

definition given :: "ustr option \<Rightarrow> ustr option" where
  "given x = (case x of None \<Rightarrow> None | Some s \<Rightarrow> if s = [] then None else Some s)"

definition invalid_upload :: http_error where "invalid_upload = Http 422 ''invalid_upload_body''"

definition decoded :: "ustr \<Rightarrow> ustr option \<Rightarrow> (http_error, ustr \<times> ustr) result" where
  "decoded name x = (case x of None \<Rightarrow> Inl invalid_upload | Some data \<Rightarrow> Inr (name, data))"

definition direct_upload :: "(ustr \<Rightarrow> ustr option) \<Rightarrow> (ustr \<Rightarrow> ustr option) \<Rightarrow> direct_upload_body option
    \<Rightarrow> (http_error, ustr \<times> ustr) result" where
  "direct_upload base64 utf8 body =
     (case body of
        None \<Rightarrow> Inl invalid_upload
      | Some b \<Rightarrow>
          (case given (db_base64 b) of
             Some s \<Rightarrow> decoded (db_filename b) (base64 s)
           | None \<Rightarrow>
               (case given (db_text b) of
                  Some s \<Rightarrow> decoded (db_filename b) (utf8 s)
                | None \<Rightarrow> Inl (Http 422 ''missing_file_content''))))"

definition read_upload_request :: "(ustr \<Rightarrow> ustr option) \<Rightarrow> (ustr \<Rightarrow> ustr option) \<Rightarrow> upload_request
    \<Rightarrow> (http_error, ustr \<times> ustr) result" where
  "read_upload_request base64 utf8 rq =
     (case ur_length rq of
        None \<Rightarrow> Inl (Http 411 ''content_length_required'')
      | Some n \<Rightarrow>
          if MAX_UPLOAD_REQUEST_BYTES < n then Inl (Http 413 ''file_size_exceeds_30mb_limit'')
          else if ur_multipart rq
          then (case ur_file rq of
                  None \<Rightarrow> Inl (Http 422 ''missing_file_in_form'')
                | Some (name, data) \<Rightarrow> Inr (named name (u ''document.docx''), take (MAX_FILE_SIZE + 1) data))
          else direct_upload base64 utf8 (ur_body rq))"

definition upload_route :: "access \<Rightarrow> readers \<Rightarrow> (ustr \<Rightarrow> string) \<Rightarrow> (ustr \<Rightarrow> ustr option) \<Rightarrow> (ustr \<Rightarrow> ustr option)
    \<Rightarrow> (nat \<Rightarrow> string) \<Rightarrow> nat \<Rightarrow> string \<Rightarrow> string \<Rightarrow> upload_request \<Rightarrow> case_db \<times> storage
    \<Rightarrow> (http_error, (source_document \<times> parse_run) \<times> case_db \<times> storage) result" where
  "upload_route access rd sha256 base64 utf8 fresh now org c rq st =
     bind_result (read_upload_request base64 utf8 rq) (\<lambda>(filename, data).
     bind_result access (\<lambda>_.
       case get_case org c (fst st) of
         None \<Rightarrow> Inl case_not_found
       | Some _ \<Rightarrow> upload_document rd sha256 fresh now org c filename data st))"

section \<open>Drawings\<close>

type_synonym marks = "(ustr, ustr) pydict list"

record drawing_form =
  df_file :: "(ustr option \<times> ustr option \<times> ustr) option"
  df_label :: "ustr option"
  df_title :: "ustr option"
  df_marks :: "ustr option"

record drawing_body =
  dw_filename :: ustr
  dw_label :: ustr
  dw_title :: ustr
  dw_marks :: marks
  dw_base64 :: "ustr option"
  dw_mime :: ustr

definition figure :: ustr where "figure = [38468, 22270]"

text \<open>Name, type, label, title, marks and bytes.  Marks of a form that are not JSON are dropped.\<close>

definition read_form :: "(ustr \<Rightarrow> marks option) \<Rightarrow> drawing_form \<Rightarrow> (http_error, ustr \<times> ustr \<times> ustr \<times> ustr \<times> marks \<times> ustr) result" where
  "read_form json f =
     (case df_file f of
        None \<Rightarrow> Inl (Http 422 ''missing_file_in_form'')
      | Some (name, mime, data) \<Rightarrow>
          Inr (named name (u ''drawing.png''), named mime (u ''image/png''), named (df_label f) figure, named (df_title f) [],
               (case given (df_marks f) of None \<Rightarrow> [] | Some s \<Rightarrow> or_old (json s) []), data))"

definition read_body :: "(ustr \<Rightarrow> ustr option) \<Rightarrow> drawing_body option \<Rightarrow> (http_error, ustr \<times> ustr \<times> ustr \<times> ustr \<times> marks \<times> ustr) result" where
  "read_body base64 body =
     (case body of
        None \<Rightarrow> Inl invalid_request
      | Some b \<Rightarrow>
          (case given (dw_base64 b) of
             None \<Rightarrow> Inl (Http 422 ''missing_image_content'')
           | Some s \<Rightarrow>
               (case base64 s of
                  None \<Rightarrow> Inl (Http 500 ''internal_server_error'')
                | Some data \<Rightarrow> Inr (dw_filename b, dw_mime b, dw_label b, dw_title b, dw_marks b, data))))"

definition create_drawing_route :: "access \<Rightarrow> (ustr \<Rightarrow> string) \<Rightarrow> (ustr \<Rightarrow> ustr option) \<Rightarrow> (ustr \<Rightarrow> marks option) \<Rightarrow> (nat \<Rightarrow> string)
    \<Rightarrow> nat \<Rightarrow> string \<Rightarrow> string \<Rightarrow> drawing_form + drawing_body option \<Rightarrow> case_db \<times> storage
    \<Rightarrow> (http_error, drawing \<times> case_db \<times> storage) result" where
  "create_drawing_route access sha256 base64 json fresh now org c rq st =
     bind_result (case rq of Inl form \<Rightarrow> read_form json form | Inr body \<Rightarrow> read_body base64 body)
       (\<lambda>(filename, mime, label, title, marks, data).
     bind_result access (\<lambda>_. Inr (add_drawing sha256 fresh now org c data filename label title marks mime st)))"

record drawing_update_body =
  du_label :: "ustr option"
  du_title :: "ustr option"
  du_marks :: "marks option"
  du_order :: "int option"

definition update_drawing_route :: "access \<Rightarrow> nat \<Rightarrow> string \<Rightarrow> string \<Rightarrow> string \<Rightarrow> drawing_update_body option \<Rightarrow> case_db
    \<Rightarrow> (http_error, drawing \<times> case_db) result" where
  "update_drawing_route access now org c did body db =
     (case body of
        None \<Rightarrow> Inl invalid_request
      | Some b \<Rightarrow> bind_result access (\<lambda>_.
          update_drawing_metadata now org c did (du_label b) (du_title b) (du_marks b) (du_order b) db))"

definition delete_drawing_route :: "access \<Rightarrow> string \<Rightarrow> string \<Rightarrow> string \<Rightarrow> case_db \<Rightarrow> (http_error, case_db) result" where
  "delete_drawing_route access org c did db = bind_result access (\<lambda>_. delete_drawing org c did db)"

definition re_extract_route :: "access \<Rightarrow> (ustr \<Rightarrow> ustr \<Rightarrow> string \<Rightarrow> ustr \<Rightarrow> extracted_drawing list) \<Rightarrow> (nat \<Rightarrow> string) \<Rightarrow> nat
    \<Rightarrow> string \<Rightarrow> string \<Rightarrow> case_db \<times> storage \<Rightarrow> (http_error, drawing list \<times> case_db \<times> storage) result" where
  "re_extract_route access extractor fresh now org c st =
     bind_result access (\<lambda>_. Inr (re_extract_drawings extractor fresh now org c None st))"

text \<open>The image with the type that its row names.\<close>

definition drawing_file_route :: "access \<Rightarrow> string \<Rightarrow> string \<Rightarrow> string \<Rightarrow> case_db \<times> storage \<Rightarrow> (http_error, ustr \<times> ustr) result" where
  "drawing_file_route access org c did st =
     bind_result access (\<lambda>_.
       case get_drawing org c did (fst st) of
         None \<Rightarrow> Inl drawing_not_found
       | Some d \<Rightarrow>
           (case get_object (dr_key d) (snd st) of
              None \<Rightarrow> Inl (Http 404 ''drawing_file_not_found'')
            | Some raw \<Rightarrow> Inr (raw, dr_mime d)))"

section \<open>What the routes let in\<close>

lemma read_upload_bound: "read_upload_request base64 utf8 rq = Inr (name, data) \<Longrightarrow> ur_multipart rq \<Longrightarrow> length data \<le> MAX_FILE_SIZE + 1"
  by (auto simp: read_upload_request_def split: option.splits if_splits)

lemma upload_route_Inr:
  assumes "upload_route access rd sha256 base64 utf8 fresh now org c rq (db, st) = Inr out"
  shows "\<exists>filename data actor v. read_upload_request base64 utf8 rq = Inr (filename, data) \<and> access = Inr actor
    \<and> get_case org c db \<noteq> None \<and> inspect_upload rd filename data = Inr v"
proof -
  obtain filename data actor where r: "read_upload_request base64 utf8 rq = Inr (filename, data)" "access = Inr actor"
    using assms by (auto simp: upload_route_def)
  obtain detail where "get_case org c db = Some detail" using assms by (auto simp: upload_route_def r split: option.splits)
  then show ?thesis using assms r
    by (cases "inspect_upload rd filename data") (simp_all add: upload_route_def upload_document_def)
qed

text \<open>
  What an upload through the route adds.  It needs an authorized actor, an existing case of the organization and a
  file that the guard accepts; then exactly one document and one queued run are added, the document has between
  one and 30 MiB of bytes and the type found in them, and a retrieval of its key gives these bytes.  After any error
  nothing is added.
\<close>

theorem upload_route_exact:
  "upload_route access rd sha256 base64 utf8 fresh now org c rq (db, st) = Inr ((doc, run), db', st') \<longleftrightarrow>
    (\<exists>filename data v. read_upload_request base64 utf8 rq = Inr (filename, data) \<and> (\<exists>actor. access = Inr actor)
      \<and> get_case org c db \<noteq> None \<and> inspect_upload rd filename data = Inr v
      \<and> doc = \<lparr>sd_id = fresh 0, sd_organization = org, sd_case = c, sd_name = filename, sd_size = length data,
               sd_mime = uv_mime v, sd_sha256_hex = sha256 data, sd_key = build_source_key org c (sha256 data) filename,
               sd_findings = uv_findings v, sd_created_at = now\<rparr>
      \<and> run = \<lparr>pr_id = fresh 1, pr_organization = org, pr_case = c, pr_source = fresh 0, pr_status = ''queued'',
               pr_error = None, pr_started_at = None, pr_finished_at = None, pr_created_at = now\<rparr>
      \<and> db' = db\<lparr>cs_documents := cs_documents db @ [doc], cs_runs := cs_runs db @ [run]\<rparr>
      \<and> st' = put_object (sd_key doc) data st \<and> get_object (sd_key doc) st' = Some data
      \<and> 0 < sd_size doc \<and> sd_size doc \<le> MAX_FILE_SIZE)"
proof -
  have size: "0 < length data \<and> length data \<le> MAX_FILE_SIZE" if "inspect_upload rd f data = Inr v" for f data v
    using that by (auto simp: inspect_upload_def split: if_splits)
  show ?thesis
  proof (cases "\<exists>filename data actor v. read_upload_request base64 utf8 rq = Inr (filename, data) \<and> access = Inr actor
      \<and> get_case org c db \<noteq> None \<and> inspect_upload rd filename data = Inr v")
    case True
    then obtain filename data actor detail v where ok: "read_upload_request base64 utf8 rq = Inr (filename, data)"
        "access = Inr actor" "get_case org c db = Some detail" "inspect_upload rd filename data = Inr v" by blast
    show ?thesis using size [OF ok(4)] ok(4)
      by (auto simp: upload_route_def upload_document_def Let_def get_put ok)
  next
    case False
    then have "upload_route access rd sha256 base64 utf8 fresh now org c rq (db, st) \<noteq> Inr ((doc, run), db', st')"
      using upload_route_Inr by metis
    then show ?thesis using False by blast
  qed
qed

text \<open>The type that the client names for a drawing is the type with which its bytes are served.\<close>

lemma served_with_client_type:
  assumes "create_drawing_route (Inr actor) sha256 base64 json fresh now org c (Inr (Some b)) (db, st) = Inr (d, db', st')"
    and "fresh 0 \<notin> dr_id ` set (cs_drawings db)"
  shows "\<exists>raw. drawing_file_route (Inr actor') org c (dr_id d) (db', st') = Inr (raw, dw_mime b)"
proof -
  obtain data where a: "add_drawing sha256 fresh now org c data (dw_filename b) (dw_label b) (dw_title b) (dw_marks b) (dw_mime b) (db, st)
      = (d, db', st')"
    using assms(1) by (auto simp: create_drawing_route_def read_body_def split: option.splits)
  have "find (\<lambda>x. dr_id x = fresh 0 \<and> dr_case x = c \<and> dr_organization x = org) (cs_drawings db) = None"
    using assms(2) unfolding find_None_iff by (metis imageI)
  then show ?thesis using a
    by (auto simp: drawing_file_route_def get_drawing_def add_drawing_def Let_def find_append get_put)
qed

text \<open>A drawing is added to any case, also to one that the organization does not have.\<close>

lemma drawing_of_any_case:
  "\<exists>(d :: drawing) db' st'. create_drawing_route (Inr actor) sha256 base64 json fresh now org c (Inl \<lparr>df_file = Some (None, None, data),
     df_label = None, df_title = None, df_marks = None\<rparr>) (db, st) = Inr (d, db', st') \<and> dr_case d = c"
  by (simp add: create_drawing_route_def read_form_def add_drawing_def Let_def)

text \<open>A case without documents is answered with no drawing, whatever drawings it has.\<close>

lemma re_extract_hides_drawings:
  "documents_to_process org c None db = [] \<Longrightarrow> re_extract_route (Inr actor) ex fresh now org c (db, st) = Inr ([], db, st)"
  by (simp add: re_extract_route_def re_extract_drawings_def)

text \<open>A confirmation sets the state of its case, whatever it was.\<close>

lemma confirmation_resets_state:
  assumes "confirm_document_version org c vid actor db = Inr (out, db')" "r \<in> set (cs_cases db')" "ca_id r = c"
  shows "ca_status r = ''document_ready''"
proof -
  have db: "cs_cases db' = update_where (\<lambda>r. ca_id r = c) (\<lambda>r. r\<lparr>ca_status := ''document_ready''\<rparr>) (cs_cases db)"
    using assms(1) by (auto simp: confirm_document_version_def split: option.splits)
  from iffD1 [OF mem_update assms(2) [unfolded db]]
  obtain y where "r = (if ca_id y = c then y\<lparr>ca_status := ''document_ready''\<rparr> else y)" ..
  then show ?thesis using assms(3) by (cases "ca_id y = c") simp_all
qed

section \<open>Extracting again\<close>

definition drawing_digests :: "string \<Rightarrow> string \<Rightarrow> case_db \<Rightarrow> string list" where
  "drawing_digests org c db = map dr_sha256 (case_drawings org c db)"

lemma take_drawing_distinct:
  "distinct (drawing_digests org c db) \<Longrightarrow> distinct (drawing_digests org c (fst (snd (take_drawing fresh now org c doc e (n, db, st)))))"
  by (auto simp: take_drawing_def Let_def drawing_digests_def case_drawings_def drawing_of_def)

lemma fold_keeps:
  assumes "\<And>x n db st. P db \<Longrightarrow> P (fst (snd (g x (n, db, st))))" "P (fst (snd s))"
  shows "P (fst (snd (fold g xs s)))"
  using assms(2)
proof (induction xs arbitrary: s)
  case (Cons x xs)
  then show ?case using Cons.IH [of "g x s"] assms(1) [of "fst (snd s)" x "fst s" "snd (snd s)"] by simp
qed simp

lemma take_document_distinct:
  assumes "distinct (drawing_digests org c db)"
  shows "distinct (drawing_digests org c (fst (snd (take_document ex fresh now org c txt doc (n, db, st)))))"
  using assms fold_keeps [of "\<lambda>db. distinct (drawing_digests org c db)" "take_drawing fresh now org c (sd_id doc)" "(n, db, st)",
      OF take_drawing_distinct]
  by (auto simp: take_document_def split: option.splits)

text \<open>Extracting again adds no drawing whose digest the case has.\<close>

theorem re_extraction_adds_no_duplicate:
  assumes "re_extract_drawings ex fresh now org c wanted (db, st) = (ds, db', st')" and "distinct (drawing_digests org c db)"
  shows "distinct (drawing_digests org c db')"
  using fold_keeps [of "\<lambda>db. distinct (drawing_digests org c db)" "take_document ex fresh now org c (latest_text org c db)"
      "(0, db, st)" "documents_to_process org c wanted db", OF take_document_distinct] assms
  by (auto simp: re_extract_drawings_def Let_def split: if_splits prod.splits)

end
