(* ===== verification/UploadSpec.thy ===== *)
theory UploadSpec
  imports UploadGuard
begin

text \<open>
  What the upload guard promises, said without its scanners: a path, a reference, a field, a name is described by how
  it can be taken apart.  The lemmas show that each scanner of \<^verbatim>\<open>modules/cases/upload_guard.py\<close> finds exactly
  what is described; the theorem puts them together.
\<close>

section \<open>Taking a text apart\<close>

lemma span_iff:
  "takeWhile P s = a \<and> dropWhile P s = b \<longleftrightarrow> s = a @ b \<and> (\<forall>c \<in> set a. P c) \<and> (b = [] \<or> \<not> P (hd b))"
proof
  assume "takeWhile P s = a \<and> dropWhile P s = b"
  then show "s = a @ b \<and> (\<forall>c \<in> set a. P c) \<and> (b = [] \<or> \<not> P (hd b))"
    using takeWhile_dropWhile_id [of P s] hd_dropWhile [of P s] set_takeWhileD [of _ P s] by metis
next
  assume "s = a @ b \<and> (\<forall>c \<in> set a. P c) \<and> (b = [] \<or> \<not> P (hd b))"
  then show "takeWhile P s = a \<and> dropWhile P s = b" by (cases b) simp_all
qed

lemma join_Cons: "xs \<noteq> [] \<Longrightarrow> join [d] (x # xs) = x @ d # join [d] xs"
  by (cases xs) simp_all

lemma split_on_at: "split_on d (p @ d # t) = split_on d p @ split_on d t"
proof (induction p)
  case (Cons c p)
  then show ?case by (cases "split_on d p") auto
qed simp

lemma split_on_mem:
  "w \<in> set (split_on d s) \<longleftrightarrow>
     d \<notin> set w \<and> (\<exists>pre post. s = pre @ w @ post \<and> (pre = [] \<or> last pre = d) \<and> (post = [] \<or> hd post = d))"
  (is "_ \<longleftrightarrow> ?R s")
proof (cases "d \<in> set w")
  case True
  then show ?thesis by (auto dest: split_on_no_sep)
next
  case free: False
  show ?thesis
  proof
    assume "w \<in> set (split_on d s)"
    then obtain xs ys where parts: "split_on d s = xs @ w # ys" by (auto simp: in_set_conv_decomp)
    have "\<exists>pre. join [d] (xs @ w # ys) = pre @ join [d] (w # ys) \<and> (pre = [] \<or> last pre = d)" for xs
    proof (induction xs)
      case (Cons x xs)
      then obtain pre where "join [d] (xs @ w # ys) = pre @ join [d] (w # ys)" "pre = [] \<or> last pre = d" by blast
      then show ?case by (intro exI [of _ "x @ d # pre"]) (auto simp: join_Cons)
    qed simp
    then obtain pre where pre: "s = pre @ join [d] (w # ys)" "pre = [] \<or> last pre = d"
      using parts join_split_on [of d s] by metis
    obtain post where "join [d] (w # ys) = w @ post" "post = [] \<or> hd post = d" by (cases ys) simp_all
    with pre free show "?R s" by auto
  next
    assume "?R s"
    then obtain pre post where s: "s = pre @ w @ post" "pre = [] \<or> last pre = d" "post = [] \<or> hd post = d" by blast
    have "w \<in> set (split_on d (w @ post))"
    proof (cases post)
      case Nil
      then show ?thesis using split_on_free [OF free] by simp
    next
      case (Cons c p)
      then show ?thesis using s(3) split_on_sep_free [OF free] by simp
    qed
    then show "w \<in> set (split_on d s)"
    proof (cases pre rule: rev_cases)
      case (snoc p c)
      then have "s = p @ d # w @ post" using s(1,2) by simp
      then have "split_on d s = split_on d p @ split_on d (w @ post)" by (simp only: split_on_at)
      then show ?thesis using \<open>w \<in> set (split_on d (w @ post))\<close> by simp
    qed (use s(1) in simp)
  qed
qed

section \<open>Remote targets\<close>

definition url_letters :: "nat set" where
  "url_letters = {65..90} \<union> {97..122} \<union> {304, 305, 383, 8490}"

definition url_word :: "ustr \<Rightarrow> bool" where
  "url_word s \<longleftrightarrow> s \<noteq> [] \<and> hd s \<in> url_letters \<and> set s \<subseteq> url_letters \<union> {48..57} \<union> {43, 45, 46}"

text \<open>
  A target is remote when it has a scheme of two letters or more other than \<open>file\<close>, when it has the scheme
  \<open>file\<close> and then two separators or at least four, or when it begins with two equal separators.
\<close>

definition remote_target :: "ustr \<Rightarrow> bool" where
  "remote_target t \<longleftrightarrow>
     (\<exists>scheme path. strip t = scheme @ 58 # path \<and> url_word scheme \<and> 2 \<le> length scheme
        \<and> (lower scheme \<noteq> u ''file''
           \<or> (\<exists>seps rest. path = seps @ rest \<and> set seps \<subseteq> {47, 92} \<and> (rest = [] \<or> hd rest \<notin> {47, 92})
                \<and> (length seps = 2 \<or> 4 \<le> length seps))))
     \<or> (\<exists>rest. strip t = [47, 47] @ rest \<or> strip t = [92, 92] @ rest)"

lemma scheme_letter_iff: "scheme_letter c \<longleftrightarrow> c \<in> url_letters"
  by (auto simp: scheme_letter_def ascii_letter_def url_letters_def)

lemma scheme_char_iff: "scheme_char c \<longleftrightarrow> c \<in> url_letters \<union> {48..57} \<union> {43, 45, 46}"
  by (auto simp: scheme_char_def scheme_letter_iff)

lemma colon_no_scheme_char: "\<not> scheme_char 58"
  by (simp add: scheme_char_def scheme_letter_def ascii_letter_def)

lemma url_scheme_iff: "url_scheme s = Some (a, b) \<longleftrightarrow> s = a @ 58 # b \<and> url_word a"
proof (cases s)
  case (Cons c cs)
  have w: "url_word a \<longleftrightarrow> (\<exists>a'. a = hd a # a' \<and> scheme_letter (hd a) \<and> (\<forall>x \<in> set a'. scheme_char x))" for a
    by (cases a) (auto simp: url_word_def scheme_letter_iff scheme_char_iff)
  have "url_scheme s = Some (a, b) \<longleftrightarrow>
      scheme_letter c \<and> (\<exists>a'. a = c # a' \<and> takeWhile scheme_char cs = a' \<and> dropWhile scheme_char cs = 58 # b)"
    using Cons by (cases "dropWhile scheme_char cs") (auto simp: url_scheme_def simp del: dropWhile_eq_Nil_conv)
  also have "\<dots> \<longleftrightarrow> s = a @ 58 # b \<and> url_word a"
    unfolding span_iff w using Cons by (cases a) (auto simp: colon_no_scheme_char)
  finally show ?thesis .
qed (simp add: url_scheme_def)

lemma drive_path_iff: "url_word a \<Longrightarrow> drive_path (a @ 58 # b) \<longleftrightarrow> length a = 1"
proof -
  assume a: "url_word a"
  have "\<not> 58 \<in> set a" using a colon_no_scheme_char by (auto simp: url_word_def scheme_char_iff)
  then show ?thesis using a
    by (cases a; cases "tl a") (auto simp: drive_path_def url_word_def scheme_letter_iff)
qed

lemma separators_iff:
  "(let slashes = length (takeWhile separator_char path) in slashes = 2 \<or> 4 \<le> slashes) \<longleftrightarrow>
     (\<exists>seps rest. path = seps @ rest \<and> set seps \<subseteq> {47, 92} \<and> (rest = [] \<or> hd rest \<notin> {47, 92})
        \<and> (length seps = 2 \<or> 4 \<le> length seps))"
proof -
  have c: "separator_char c \<longleftrightarrow> c \<in> {47, 92}" for c by (auto simp: separator_char_def)
  have "takeWhile separator_char path = seps \<and> dropWhile separator_char path = rest
      \<longleftrightarrow> path = seps @ rest \<and> set seps \<subseteq> {47, 92} \<and> (rest = [] \<or> hd rest \<notin> {47, 92})" for seps rest
    unfolding span_iff c by blast
  then show ?thesis unfolding Let_def by metis
qed

lemma slashes_no_scheme: "url_word a \<Longrightarrow> c \<in> {47, 92} \<Longrightarrow> a @ s \<noteq> c # t"
  by (cases a) (auto simp: url_word_def url_letters_def)

lemma is_network_target_iff: "is_network_target t \<longleftrightarrow> remote_target t"
proof (cases "url_scheme (strip t)")
  case None
  then have "\<not> (strip t = a @ 58 # b \<and> url_word a)" for a b using url_scheme_iff [of "strip t" a b] by simp
  then show ?thesis using None
    by (auto simp: is_network_target_def remote_target_def Let_def starts_with_iff)
next
  case (Some p)
  then obtain scheme path where p: "url_scheme (strip t) = Some (scheme, path)" by (cases p) simp
  then have s: "strip t = scheme @ 58 # path" "url_word scheme" using url_scheme_iff by blast+
  have unique: "strip t = a @ 58 # b \<and> url_word a \<longleftrightarrow> a = scheme \<and> b = path" for a b
    using url_scheme_iff [of "strip t" a b] p by auto
  have ne: "strip t \<noteq> [47, 47] @ rest" "strip t \<noteq> [92, 92] @ rest" for rest
    using slashes_no_scheme [OF s(2)] s(1) by auto
  have len: "2 \<le> length scheme \<longleftrightarrow> \<not> drive_path (strip t)"
    using drive_path_iff [OF s(2)] s by (cases scheme) (auto simp: url_word_def Suc_le_eq)
  have "remote_target t \<longleftrightarrow> \<not> drive_path (strip t) \<and> (lower scheme \<noteq> u ''file''
        \<or> (let slashes = length (takeWhile separator_char path) in slashes = 2 \<or> 4 \<le> slashes))"
    unfolding remote_target_def separators_iff using unique ne len by metis
  then show ?thesis using p ne
    by (auto simp: is_network_target_def Let_def starts_with_iff)
qed

section \<open>Members of an archive\<close>

text \<open>A path that stays below its folder: not absolute, without a backslash and without a parent segment.\<close>

definition contained_path :: "ustr \<Rightarrow> bool" where
  "contained_path name \<longleftrightarrow> (\<nexists>r. name = 47 # r) \<and> 92 \<notin> set name
     \<and> \<not> (\<exists>pre post. name = pre @ [46, 46] @ post \<and> (pre = [] \<or> last pre = 47) \<and> (post = [] \<or> hd post = 47))"

lemma unsafe_name_iff: "unsafe_name name \<longleftrightarrow> \<not> contained_path name"
  by (auto simp: unsafe_name_def contained_path_def path_parts_def split_on_mem starts_with_iff u_def)

definition harmful_reference :: "relationship \<Rightarrow> bool" where
  "harmful_reference r \<longleftrightarrow> rl_mode r = Some (u ''External'')
     \<and> (\<exists>pre kind. rl_type r = Some (pre @ kind) \<and> (pre = [] \<or> last pre = 47)
          \<and> kind \<in> {u ''attachedTemplate'', u ''oleObject'', u ''frame'', u ''subDocument'', u ''externalLinkPath''})
     \<and> (\<exists>target. rl_target r = Some target \<and> remote_target target)"

lemma last_segment_iff: "47 \<notin> set kind \<Longrightarrow> last_segment s = kind \<longleftrightarrow> (\<exists>pre. s = pre @ kind \<and> (pre = [] \<or> last pre = 47))"
proof
  assume k: "47 \<notin> set kind" and l: "last_segment s = kind"
  obtain ws where ws: "split_on 47 s = ws @ [kind]"
    using l append_butlast_last_id [OF split_on_not_Nil, of 47 s] unfolding last_segment_def by metis
  show "\<exists>pre. s = pre @ kind \<and> (pre = [] \<or> last pre = 47)"
  proof (cases "ws = []")
    case True
    then show ?thesis using join_split_on [of 47 s] ws by auto
  next
    case False
    have "join [d] (xs @ [x]) = join [d] xs @ d # x" if "xs \<noteq> []" for d :: nat and xs x
      using that by (induction "[d]" xs rule: join.induct) auto
    then have "s = (join [47] ws @ [47]) @ kind" using join_split_on [of 47 s] ws False by simp
    then show ?thesis by (intro exI [of _ "join [47] ws @ [47]"]) simp
  qed
next
  assume k: "47 \<notin> set kind" and "\<exists>pre. s = pre @ kind \<and> (pre = [] \<or> last pre = 47)"
  then obtain pre where pre: "s = pre @ kind" "pre = [] \<or> last pre = 47" by blast
  show "last_segment s = kind"
  proof (cases pre rule: rev_cases)
    case (snoc p c)
    then have "s = p @ 47 # kind" using pre by simp
    then show ?thesis unfolding last_segment_def by (simp only: split_on_at split_on_free [OF k]) simp
  qed (use pre k in \<open>simp add: last_segment_def split_on_free\<close>)
qed

lemma remote_target_Nil: "\<not> remote_target []"
  by (simp add: remote_target_def strip_def lstrip_def rstrip_def)

lemma dangerous_relationship_iff: "dangerous_relationship r \<longleftrightarrow> harmful_reference r"
proof -
  let ?kinds = "{u ''attachedTemplate'', u ''oleObject'', u ''frame'', u ''subDocument'', u ''externalLinkPath''}"
  have free: "47 \<notin> set kind" "kind \<noteq> []" if "kind \<in> ?kinds" for kind using that by (auto simp: u_def)
  have "last_segment (or_empty ty) \<in> set DANGEROUS_EXTERNAL_RELATIONSHIPS \<longleftrightarrow>
      (\<exists>pre kind. ty = Some (pre @ kind) \<and> (pre = [] \<or> last pre = 47) \<and> kind \<in> ?kinds)" for ty
  proof -
    have "last_segment (or_empty ty) \<in> set DANGEROUS_EXTERNAL_RELATIONSHIPS
        \<longleftrightarrow> (\<exists>kind \<in> ?kinds. last_segment (or_empty ty) = kind)"
      unfolding DANGEROUS_EXTERNAL_RELATIONSHIPS_def list.map list.set by blast
    also have "\<dots> \<longleftrightarrow> (\<exists>kind \<in> ?kinds. \<exists>pre. or_empty ty = pre @ kind \<and> (pre = [] \<or> last pre = 47))"
      by (intro bex_cong refl last_segment_iff free(1))
    also have "\<dots> \<longleftrightarrow> (\<exists>pre kind. ty = Some (pre @ kind) \<and> (pre = [] \<or> last pre = 47) \<and> kind \<in> ?kinds)"
    proof (cases ty)
      case None
      then show ?thesis using free(2) by (force simp: or_empty_def)
    next
      case (Some t)
      then show ?thesis unfolding or_empty_def Some option.case option.inject by blast
    qed
    finally show ?thesis .
  qed
  moreover have "is_network_target (or_empty t) \<longleftrightarrow> (\<exists>target. t = Some target \<and> remote_target target)" for t
    by (cases t) (simp_all add: is_network_target_iff or_empty_def remote_target_Nil)
  ultimately show ?thesis by (simp add: dangerous_relationship_def harmful_reference_def)
qed

section \<open>DDE fields\<close>

definition word_bytes :: "nat set" where
  "word_bytes = {65..90} \<union> {97..122} \<union> {48..57} \<union> {95}"

text \<open>
  The tag of a field instruction with its attributes, or the attribute of a simple field; white space; then the word
  DDE or DDEAUTO in any case, and no further word character.
\<close>

definition dde_keyword :: "ustr \<Rightarrow> bool" where
  "dde_keyword s \<longleftrightarrow> (\<exists>gap w post. s = gap @ w @ post \<and> set gap \<subseteq> {9..13} \<union> {32}
     \<and> lower w \<in> {u ''dde'', u ''ddeauto''} \<and> (post = [] \<or> hd post \<notin> word_bytes))"

definition field_start :: "ustr \<Rightarrow> bool" where
  "field_start s \<longleftrightarrow> (\<exists>a attrs. s = a @ attrs @ [62] \<and> lower a = u ''<w:instrtext'' \<and> 62 \<notin> set attrs)
     \<or> lower s = u ''w:instr='' @ [34]"

definition dde_field :: "ustr \<Rightarrow> bool" where
  "dde_field xml \<longleftrightarrow> (\<exists>pre start rest. xml = pre @ start @ rest \<and> field_start start \<and> dde_keyword rest)"

lemma word_byte_iff: "word_byte c \<longleftrightarrow> c \<in> word_bytes"
  by (auto simp: word_byte_def word_bytes_def ascii_letter_def)

lemma space_byte_iff: "space_byte c \<longleftrightarrow> c \<in> {9..13} \<union> {32}"
  by (auto simp: space_byte_def)

lemma after_text_iff: "after_text p s = Some r \<longleftrightarrow> (\<exists>a. s = a @ r \<and> lower a = p)"
proof
  assume "after_text p s = Some r"
  then show "\<exists>a. s = a @ r \<and> lower a = p"
    by (intro exI [of _ "take (length p) s"]) (auto simp: after_text_def split: if_splits)
qed (auto simp: after_text_def lower_def)

lemma at_boundary_iff: "at_boundary s \<longleftrightarrow> s = [] \<or> hd s \<notin> word_bytes"
  by (simp add: at_boundary_def word_byte_iff)

lemma lower_append [simp]: "lower (a @ b) = lower a @ lower b"
  by (simp add: lower_def)

lemma lower_split: "lower w = p @ q \<Longrightarrow> \<exists>a b. w = a @ b \<and> lower a = p \<and> lower b = q"
  unfolding lower_def map_eq_append_conv by blast

lemma ex_gap:
  "(\<And>w post. W w \<Longrightarrow> A w post \<longleftrightarrow> (\<exists>g. F g w post \<and> G g)) \<Longrightarrow>
     (\<exists>w post. A w post \<and> W w \<and> B post) \<longleftrightarrow> (\<exists>g w post. F g w post \<and> G g \<and> W w \<and> B post)"
  by blast

lemma dde_word_iff: "dde_word s \<longleftrightarrow> dde_keyword s"
proof -
  let ?r = "dropWhile space_byte s"
  have "dde_word s \<longleftrightarrow> (\<exists>w post. ?r = w @ post \<and> lower w \<in> {u ''dde'', u ''ddeauto''} \<and> at_boundary post)" (is "_ \<longleftrightarrow> ?M")
  proof
    assume "dde_word s"
    then obtain a r where a: "?r = a @ r" "lower a = u ''dde''"
        "at_boundary r \<or> (\<exists>t. after_text (u ''auto'') r = Some t \<and> at_boundary t)"
      unfolding dde_word_def by (auto split: option.splits simp: after_text_iff)
    from a(3) show ?M
    proof
      assume "\<exists>t. after_text (u ''auto'') r = Some t \<and> at_boundary t"
      then obtain b t where b: "r = b @ t" "lower b = u ''auto''" "at_boundary t" by (auto simp: after_text_iff)
      have "lower (a @ b) = u ''ddeauto''" using a(2) b(2) by (simp add: u_def)
      then show ?M using a(1) b by (intro exI [of _ "a @ b"] exI [of _ t]) simp
    qed (use a in blast)
  next
    assume ?M
    then obtain w post where w: "?r = w @ post" "lower w = u ''dde'' \<or> lower w = u ''ddeauto''" "at_boundary post" by blast
    from w(2) show "dde_word s"
    proof
      assume "lower w = u ''dde''"
      then have "after_text (u ''dde'') ?r = Some post" using w(1) by (auto simp: after_text_iff)
      then show ?thesis using w(3) by (simp add: dde_word_def)
    next
      assume "lower w = u ''ddeauto''"
      moreover have "u ''ddeauto'' = u ''dde'' @ u ''auto''" by (simp add: u_def)
      ultimately obtain a b where ab: "w = a @ b" "lower a = u ''dde''" "lower b = u ''auto''" using lower_split by metis
      have "after_text (u ''dde'') ?r = Some (b @ post)" "after_text (u ''auto'') (b @ post) = Some post"
        unfolding after_text_iff using w(1) ab by auto
      then show ?thesis using w(3) by (simp add: dde_word_def)
    qed
  qed
  also have "\<dots> \<longleftrightarrow> dde_keyword s"
  proof -
    have "?r = w @ post \<longleftrightarrow> (\<exists>gap. s = gap @ w @ post \<and> set gap \<subseteq> {9..13} \<union> {32})"
      if "lower w \<in> {u ''dde'', u ''ddeauto''}" for w post
    proof -
      have "lower w \<noteq> []" "hd (lower w) = 100" using that by (auto simp: u_def)
      then obtain c w' where c: "w = c # w'" "lower_cp c = 100" by (cases w) (simp_all add: lower_def)
      then have n: "w @ post \<noteq> []" "\<not> space_byte (hd (w @ post))" by (auto simp: space_byte_def lower_cp_def split: if_splits)
      have "?r = w @ post \<longleftrightarrow> (\<exists>gap. takeWhile space_byte s = gap \<and> dropWhile space_byte s = w @ post)" by simp
      also have "\<dots> \<longleftrightarrow> (\<exists>gap. s = gap @ w @ post \<and> set gap \<subseteq> {9..13} \<union> {32})"
        unfolding span_iff space_byte_iff [symmetric] using n by (auto simp: space_byte_iff subset_iff)
      finally show ?thesis .
    qed
    then show ?thesis unfolding dde_keyword_def at_boundary_iff by (rule ex_gap)
  qed
  finally show ?thesis .
qed

lemma dde_here_iff: "dde_here s \<longleftrightarrow> (\<exists>start rest. s = start @ rest \<and> field_start start \<and> dde_word rest)"
proof -
  have tag: "dropWhile (\<lambda>c. c \<noteq> 62) r \<noteq> [] \<and> dde_word (tl (dropWhile (\<lambda>c. c \<noteq> 62) r))
      \<longleftrightarrow> (\<exists>attrs rest. r = attrs @ 62 # rest \<and> 62 \<notin> set attrs \<and> dde_word rest)" for r :: ustr
  proof -
    have "dropWhile (\<lambda>c. c \<noteq> 62) r \<noteq> [] \<and> dde_word (tl (dropWhile (\<lambda>c. c \<noteq> 62) r))
        \<longleftrightarrow> (\<exists>attrs c rest. (takeWhile (\<lambda>c. c \<noteq> 62) r = attrs \<and> dropWhile (\<lambda>c. c \<noteq> 62) r = c # rest) \<and> dde_word rest)"
      by (cases "dropWhile (\<lambda>c. c \<noteq> 62) r") (simp_all del: dropWhile_eq_Nil_conv)
    also have "\<dots> \<longleftrightarrow> (\<exists>attrs rest. r = attrs @ 62 # rest \<and> 62 \<notin> set attrs \<and> dde_word rest)"
      unfolding span_iff by auto
    finally show ?thesis .
  qed
  have first: "(case after_text (u ''<w:instrtext'') s of
        Some r \<Rightarrow> dropWhile (\<lambda>c. c \<noteq> 62) r \<noteq> [] \<and> dde_word (tl (dropWhile (\<lambda>c. c \<noteq> 62) r)) | None \<Rightarrow> False)
      \<longleftrightarrow> (\<exists>a attrs rest. s = (a @ attrs @ [62]) @ rest \<and> lower a = u ''<w:instrtext'' \<and> 62 \<notin> set attrs \<and> dde_word rest)"
  proof -
    have "(case after_text (u ''<w:instrtext'') s of
        Some r \<Rightarrow> dropWhile (\<lambda>c. c \<noteq> 62) r \<noteq> [] \<and> dde_word (tl (dropWhile (\<lambda>c. c \<noteq> 62) r)) | None \<Rightarrow> False)
      \<longleftrightarrow> (\<exists>r. after_text (u ''<w:instrtext'') s = Some r \<and> (\<exists>attrs rest. r = attrs @ 62 # rest \<and> 62 \<notin> set attrs \<and> dde_word rest))"
      unfolding tag by (cases "after_text (u ''<w:instrtext'') s") simp_all
    then show ?thesis unfolding after_text_iff by auto
  qed
  have second: "(case after_text (u ''w:instr='' @ [34]) s of Some r \<Rightarrow> dde_word r | None \<Rightarrow> False)
      \<longleftrightarrow> (\<exists>start rest. s = start @ rest \<and> lower start = u ''w:instr='' @ [34] \<and> dde_word rest)"
  proof -
    have "(case after_text (u ''w:instr='' @ [34]) s of Some r \<Rightarrow> dde_word r | None \<Rightarrow> False)
      \<longleftrightarrow> (\<exists>r. after_text (u ''w:instr='' @ [34]) s = Some r \<and> dde_word r)"
      by (cases "after_text (u ''w:instr='' @ [34]) s") simp_all
    then show ?thesis unfolding after_text_iff by auto
  qed
  show ?thesis unfolding dde_here_def first second field_start_def by blast
qed

lemma has_dde_iff: "has_dde xml \<longleftrightarrow> dde_field xml"
proof -
  have "has_dde xml \<longleftrightarrow> (\<exists>pre s. xml = pre @ s \<and> dde_here s)"
  proof (induction xml)
    case Nil
    have "\<not> dde_here []" by (simp add: dde_here_def after_text_def u_def)
    then show ?case by simp
  next
    case (Cons c s)
    have "(\<exists>pre t. c # s = pre @ t \<and> dde_here t) \<longleftrightarrow> dde_here (c # s) \<or> (\<exists>pre t. s = pre @ t \<and> dde_here t)"
      unfolding Cons_eq_append_conv by auto
    then show ?case using Cons by simp
  qed
  also have "\<dots> \<longleftrightarrow> dde_field xml"
    unfolding dde_here_iff dde_word_iff dde_field_def by blast
  finally show ?thesis .
qed

section \<open>Names of a PDF\<close>

text \<open>A stream: its keyword, a line end, and all up to the first end keyword.\<close>

definition stream_then :: "ustr \<Rightarrow> ustr \<Rightarrow> bool" where
  "stream_then s rest \<longleftrightarrow>
     (\<exists>eol body. s = u ''stream'' @ eol @ body @ u ''endstream'' @ rest \<and> eol \<in> {[10], [13, 10]}
        \<and> (\<forall>p q. body @ u ''endstream'' @ rest = p @ u ''endstream'' @ q \<longrightarrow> length body \<le> length p))"

inductive without_streams :: "ustr \<Rightarrow> ustr \<Rightarrow> bool" where
  end_of_bytes: "without_streams [] []"
| whole_stream: "stream_then s rest \<Longrightarrow> without_streams rest t \<Longrightarrow> without_streams s (u ''stream endstream'' @ t)"
| other_byte: "(\<nexists>rest. stream_then (c # s) rest) \<Longrightarrow> without_streams s t \<Longrightarrow> without_streams (c # s) (c # t)"

definition hex_digit :: "nat \<Rightarrow> nat \<Rightarrow> bool" where
  "hex_digit c x \<longleftrightarrow> x < 10 \<and> c = 48 + x \<or> 10 \<le> x \<and> x < 16 \<and> (c = 55 + x \<or> c = 87 + x)"

text \<open>A spelling of a name: each of its characters plainly, or as a number sign and two hexadecimal digits.\<close>

inductive spells :: "ustr \<Rightarrow> ustr \<Rightarrow> bool" where
  nothing_left: "spells [] []"
| escaped: "hex_digit a x \<Longrightarrow> hex_digit b y \<Longrightarrow> spells s n \<Longrightarrow> spells (35 # a # b # s) ((16 * x + y) # n)"
| plainly: "\<not> (\<exists>a b r x y. c # s = 35 # a # b # r \<and> hex_digit a x \<and> hex_digit b y) \<Longrightarrow> spells s n \<Longrightarrow> spells (c # s) (c # n)"

definition name_bytes :: "nat set" where
  "name_bytes = {65..90} \<union> {97..122} \<union> {48..57} \<union> {35}"

text \<open>A name that the bytes of a file spell outside of its streams.\<close>

definition written_name :: "ustr \<Rightarrow> ustr \<Rightarrow> bool" where
  "written_name data n \<longleftrightarrow>
     (\<exists>bytes pre raw post. without_streams data bytes \<and> bytes = pre @ 47 # raw @ post \<and> raw \<noteq> [] \<and> set raw \<subseteq> name_bytes
        \<and> (post = [] \<or> hd post \<notin> name_bytes) \<and> spells raw n)"

text \<open>A name in an object: a key, a name, or a name in a part of it.\<close>

definition after_slashes :: "ustr \<Rightarrow> ustr \<Rightarrow> bool" where
  "after_slashes k n \<longleftrightarrow> (\<exists>j. k = replicate j 47 @ n) \<and> (n = [] \<or> hd n \<noteq> 47)"

inductive has_name :: "pdf_object \<Rightarrow> ustr \<Rightarrow> bool" where
  is_name: "after_slashes k n \<Longrightarrow> has_name (Pdf_name k) n"
| is_key: "(k, v) \<in> set entries \<Longrightarrow> after_slashes k n \<Longrightarrow> has_name (Pdf_dictionary entries) n"
| in_value: "(k, v) \<in> set entries \<Longrightarrow> has_name v n \<Longrightarrow> has_name (Pdf_dictionary entries) n"
| in_array: "v \<in> set vs \<Longrightarrow> has_name v n \<Longrightarrow> has_name (Pdf_array vs) n"

lemma strip_slashes_iff: "strip_slashes k = n \<longleftrightarrow> after_slashes k n"
proof -
  have "strip_slashes k = n \<longleftrightarrow> (\<exists>a. takeWhile (\<lambda>c. c = 47) k = a \<and> dropWhile (\<lambda>c. c = 47) k = n)"
    by (simp add: strip_slashes_def)
  also have "\<dots> \<longleftrightarrow> (\<exists>a. k = a @ n \<and> (\<forall>c \<in> set a. c = 47)) \<and> (n = [] \<or> hd n \<noteq> 47)" unfolding span_iff by blast
  also have "\<dots> \<longleftrightarrow> after_slashes k n"
  proof -
    have "(\<forall>c \<in> set a. c = 47) \<longleftrightarrow> (\<exists>j. a = replicate j 47)" for a :: ustr
      by (metis in_set_replicate replicate_length_same)
    then show ?thesis unfolding after_slashes_def by blast
  qed
  finally show ?thesis .
qed

lemma object_names_iff: "n \<in> set (object_names x) \<longleftrightarrow> has_name x n"
proof
  show "n \<in> set (object_names x) \<Longrightarrow> has_name x n"
    by (induction x rule: object_names.induct) (auto simp: strip_slashes_iff [symmetric] intro: has_name.intros)
  show "has_name x n \<Longrightarrow> n \<in> set (object_names x)"
    by (induction rule: has_name.induct) (force simp: strip_slashes_iff [symmetric])+
qed

lemma hex_value_iff: "hex_value c = Some x \<longleftrightarrow> hex_digit c x"
  by (auto simp: hex_value_def hex_digit_def)

lemma normalize_step:
  "normalize_pdf_name (c # s) =
     (case s of a # b # r \<Rightarrow>
        (case (hex_value a, hex_value b) of
           (Some x, Some y) \<Rightarrow> if c = 35 then (16 * x + y) # normalize_pdf_name r else c # normalize_pdf_name s
         | _ \<Rightarrow> c # normalize_pdf_name s)
      | _ \<Rightarrow> c # normalize_pdf_name s)"
  by (cases s; cases "tl s") (auto split: option.splits)

lemma spells_normalized: "spells s (normalize_pdf_name s)"
proof (induction "length s" arbitrary: s rule: less_induct)
  case less
  show ?case
  proof (cases s)
    case (Cons c t)
    show ?thesis
    proof (cases "\<exists>a b r x y. s = 35 # a # b # r \<and> hex_digit a x \<and> hex_digit b y")
      case True
      then obtain a b r x y where e: "s = 35 # a # b # r" "hex_digit a x" "hex_digit b y" by blast
      then have "normalize_pdf_name s = (16 * x + y) # normalize_pdf_name r" by (simp flip: hex_value_iff)
      then show ?thesis using e less [of r] by (simp add: escaped)
    next
      case False
      then have "normalize_pdf_name s = c # normalize_pdf_name t"
        unfolding Cons normalize_step by (auto simp: hex_value_iff split: list.splits option.splits)
      then show ?thesis using False Cons less [of t] by (simp add: plainly)
    qed
  qed (simp add: nothing_left)
qed

lemma hex_digit_unique: "hex_digit c x \<Longrightarrow> hex_digit c y \<Longrightarrow> x = y"
  unfolding hex_value_iff [symmetric] by simp

lemma spells_iff: "spells s n \<longleftrightarrow> normalize_pdf_name s = n"
proof
  show "spells s n \<Longrightarrow> normalize_pdf_name s = n"
  proof (induction rule: spells.induct)
    case (escaped a x b y s n)
    then show ?case by (simp flip: hex_value_iff)
  next
    case (plainly c s n)
    then show ?case unfolding normalize_step by (auto simp: hex_value_iff split: list.splits option.splits)
  qed simp
qed (use spells_normalized in blast)

lemma ex_suffix_Cons:
  "(\<exists>pre post. c # s = pre @ d # w @ post \<and> R post) \<longleftrightarrow>
     c = d \<and> (\<exists>post. s = w @ post \<and> R post) \<or> (\<exists>pre post. s = pre @ d # w @ post \<and> R post)"
  (is "?L \<longleftrightarrow> ?M \<or> ?N")
proof
  assume ?L
  then obtain pre post where p: "c # s = pre @ d # w @ post" "R post" by blast
  then show "?M \<or> ?N" by (cases pre) auto
next
  assume "?M \<or> ?N"
  then show ?L
  proof
    assume ?M
    then obtain post where "c = d" "s = w @ post" "R post" by blast
    then show ?L by (intro exI [of _ "[]"] exI [of _ post]) simp
  next
    assume ?N
    then obtain pre post where "s = pre @ d # w @ post" "R post" by blast
    then show ?L by (intro exI [of _ "c # pre"] exI [of _ post]) simp
  qed
qed

lemma raw_names_iff:
  "raw \<in> set (raw_names s) \<longleftrightarrow>
     (\<exists>pre post. s = pre @ 47 # raw @ post \<and> raw \<noteq> [] \<and> set raw \<subseteq> name_bytes \<and> (post = [] \<or> hd post \<notin> name_bytes))"
proof (induction s)
  case (Cons c s)
  have b: "name_byte x \<longleftrightarrow> x \<in> name_bytes" for x by (auto simp: name_byte_def name_bytes_def ascii_letter_def)
  have here: "takeWhile name_byte s = raw \<longleftrightarrow> (\<exists>post. s = raw @ post \<and> set raw \<subseteq> name_bytes \<and> (post = [] \<or> hd post \<notin> name_bytes))"
  proof -
    have "takeWhile name_byte s = raw \<longleftrightarrow> (\<exists>post. takeWhile name_byte s = raw \<and> dropWhile name_byte s = post)" by simp
    then show ?thesis unfolding span_iff b by blast
  qed
  have "raw \<in> set (raw_names (c # s)) \<longleftrightarrow> c = 47 \<and> raw \<noteq> [] \<and> takeWhile name_byte s = raw \<or> raw \<in> set (raw_names s)"
    by (auto simp del: takeWhile_eq_Nil_iff)
  then show ?case unfolding here Cons.IH ex_suffix_Cons by blast
qed simp

lemma stream_body_iff: "stream_body s = Some r \<longleftrightarrow> (\<exists>eol \<in> {[10], [13, 10]}. s = u ''stream'' @ eol @ r)"
proof
  assume b: "stream_body s = Some r"
  then obtain t where t: "s = u ''stream'' @ t"
    by (auto simp: stream_body_def Let_def starts_with_iff split: if_splits)
  have "length (u ''stream'') = 6" by (simp add: u_def)
  then have "drop 6 s = t" using t by simp
  then have "t = [10] @ r \<or> t = [13, 10] @ r"
    using b by (auto simp: stream_body_def Let_def starts_with_iff split: if_splits)
  then show "\<exists>eol \<in> {[10], [13, 10]}. s = u ''stream'' @ eol @ r" using t by blast
next
  assume "\<exists>eol \<in> {[10], [13, 10]}. s = u ''stream'' @ eol @ r"
  then have "s = u ''stream'' @ [10] @ r \<or> s = u ''stream'' @ [13, 10] @ r" by blast
  then show "stream_body s = Some r" by (auto simp: stream_body_def Let_def u_def)
qed

lemma after_first_iff:
  "p \<noteq> [] \<Longrightarrow> after_first p s = Some r \<longleftrightarrow>
     (\<exists>body. s = body @ p @ r \<and> (\<forall>a b. s = a @ p @ b \<longrightarrow> length body \<le> length a))"
proof (induction p s rule: after_first.induct)
  case (2 p c s)
  show ?case
  proof (cases "starts_with (c # s) p")
    case True
    then obtain t where t: "c # s = p @ t" by (auto simp: starts_with_iff)
    have "(\<exists>body. c # s = body @ p @ r \<and> (\<forall>a b. c # s = a @ p @ b \<longrightarrow> length body \<le> length a)) \<longleftrightarrow> t = r"
    proof
      assume "\<exists>body. c # s = body @ p @ r \<and> (\<forall>a b. c # s = a @ p @ b \<longrightarrow> length body \<le> length a)"
      then obtain body where "c # s = body @ p @ r" "length body \<le> length ([] :: ustr)" using t by (metis append_Nil)
      then show "t = r" using t by simp
    qed (use t in auto)
    moreover have "drop (length p) (c # s) = t" unfolding t by simp
    then have "after_first p (c # s) = Some t" using True by simp
    ultimately show ?thesis by simp
  next
    case False
    then have no: "c # s \<noteq> p @ b" for b by (auto simp: starts_with_iff)
    have "(\<exists>body. c # s = body @ p @ r \<and> (\<forall>a b. c # s = a @ p @ b \<longrightarrow> length body \<le> length a))
        \<longleftrightarrow> (\<exists>body. s = body @ p @ r \<and> (\<forall>a b. s = a @ p @ b \<longrightarrow> length body \<le> length a))" (is "?L \<longleftrightarrow> ?R")
    proof
      assume ?L
      then obtain body where b: "c # s = body @ p @ r" "\<And>a b. c # s = a @ p @ b \<Longrightarrow> length body \<le> length a" by blast
      then obtain body' where b': "body = c # body'" "s = body' @ p @ r" using no by (cases body) auto
      have "length body' \<le> length a" if "s = a @ p @ b" for a b using b(2) [of "c # a" b] that b'(1) by simp
      then show ?R using b'(2) by blast
    next
      assume ?R
      then obtain body where b: "s = body @ p @ r" "\<And>a b. s = a @ p @ b \<Longrightarrow> length body \<le> length a" by blast
      have "length (c # body) \<le> length a" if "c # s = a @ p @ b" for a b
      proof (cases a)
        case Nil
        then show ?thesis using no [of b] that by simp
      next
        case (Cons d a')
        then show ?thesis using b(2) [of a' b] that by simp
      qed
      then show ?L using b(1) by (intro exI [of _ "c # body"]) simp
    qed
    then show ?thesis using False 2 by simp
  qed
qed simp

lemma stream_then_iff: "Option.bind (stream_body s) (after_first (u ''endstream'')) = Some rest \<longleftrightarrow> stream_then s rest"
proof -
  have "u ''endstream'' \<noteq> []" by (simp add: u_def)
  then show ?thesis
    unfolding bind_eq_Some_conv stream_body_iff after_first_iff [OF \<open>u ''endstream'' \<noteq> []\<close>] stream_then_def by blast
qed

lemma strip_streams_stream: "stream_then s rest \<Longrightarrow> strip_streams s = u ''stream endstream'' @ strip_streams rest"
proof -
  assume t: "stream_then s rest"
  then obtain c cs where s: "s = c # cs" by (cases s) (auto simp: stream_then_def u_def)
  from t have "Option.bind (stream_body (c # cs)) (after_first (u ''endstream'')) = Some rest"
    unfolding s by (simp only: stream_then_iff)
  then show ?thesis unfolding s strip_streams_Cons by simp
qed

lemma strip_streams_byte: "(\<nexists>rest. stream_then (c # s) rest) \<Longrightarrow> strip_streams (c # s) = c # strip_streams s"
proof -
  assume no: "\<nexists>rest. stream_then (c # s) rest"
  have "Option.bind (stream_body (c # s)) (after_first (u ''endstream'')) = None"
  proof (rule ccontr)
    assume "Option.bind (stream_body (c # s)) (after_first (u ''endstream'')) \<noteq> None"
    then obtain rest where "Option.bind (stream_body (c # s)) (after_first (u ''endstream'')) = Some rest" by blast
    then show False using no unfolding stream_then_iff by blast
  qed
  then show ?thesis unfolding strip_streams_Cons by simp
qed

lemma stream_then_shorter: "stream_then s rest \<Longrightarrow> length rest < length s"
  by (auto simp: stream_then_def u_def)

lemma without_streams_iff: "without_streams s t \<longleftrightarrow> strip_streams s = t"
proof
  show "without_streams s t \<Longrightarrow> strip_streams s = t"
    by (induction rule: without_streams.induct) (simp_all add: strip_streams_Nil strip_streams_stream strip_streams_byte)
  have "without_streams s (strip_streams s)"
  proof (induction "length s" arbitrary: s rule: less_induct)
    case less
    show ?case
    proof (cases "\<exists>rest. stream_then s rest")
      case True
      then obtain rest where r: "stream_then s rest" by blast
      show ?thesis unfolding strip_streams_stream [OF r]
        by (rule whole_stream [OF r]) (rule less [OF stream_then_shorter [OF r]])
    next
      case False
      show ?thesis
      proof (cases s)
        case (Cons c cs)
        then have no: "\<nexists>rest. stream_then (c # cs) rest" using False by simp
        show ?thesis unfolding Cons strip_streams_byte [OF no] using less [of cs] Cons by (intro other_byte [OF no]) simp
      qed (simp add: strip_streams_Nil end_of_bytes)
    qed
  qed
  then show "strip_streams s = t \<Longrightarrow> without_streams s t" by blast
qed

lemma pdf_names_iff: "n \<in> pdf_names data r \<longleftrightarrow> written_name data n \<or> (\<exists>x. Some x \<in> set (pf_objects r) \<and> has_name x n)"
proof -
  have "n \<in> normalize_pdf_name ` set (raw_names (strip_streams data)) \<longleftrightarrow> written_name data n"
  proof -
    have "n \<in> normalize_pdf_name ` set (raw_names (strip_streams data))
        \<longleftrightarrow> (\<exists>bytes raw. without_streams data bytes \<and> raw \<in> set (raw_names bytes) \<and> spells raw n)"
      by (auto simp: without_streams_iff spells_iff)
    then show ?thesis unfolding raw_names_iff written_name_def by blast
  qed
  then show ?thesis by (auto simp: pdf_names_def object_names_iff)
qed

section \<open>The verdict\<close>

definition harmless_member :: "readers \<Rightarrow> ustr \<Rightarrow> ustr \<Rightarrow> bool" where
  "harmless_member rd data name \<longleftrightarrow>
     \<not> ends_with (rd_low rd name) (u ''vbaproject.bin'') \<and> \<not> starts_with (rd_low rd name) (u ''word/vba'')
     \<and> \<not> (starts_with (rd_low rd name) (u ''word/embeddings/'')
          \<and> (\<exists>e \<in> {''.xlsm'', ''.docm'', ''.pptm'', ''.xlsb'', ''.exe'', ''.dll'', ''.js'', ''.vbs'', ''.scr'', ''.bat'', ''.cmd'', ''.ps1''}.
                ends_with (rd_low rd name) (u e)))
     \<and> (ends_with name (u ''.rels'') \<longrightarrow>
          (\<exists>xml rels. rd_member rd data name = Some xml \<and> rd_relations rd xml = Some rels \<and> (\<forall>r \<in> set rels. \<not> harmful_reference r)))
     \<and> (starts_with name (u ''word/'') \<and> ends_with name (u ''.xml'') \<longrightarrow>
          (\<exists>xml. rd_member rd data name = Some xml \<and> \<not> dde_field xml))"

definition acceptable_docx :: "readers \<Rightarrow> ustr \<Rightarrow> zip_info list \<Rightarrow> bool" where
  "acceptable_docx rd data infos \<longleftrightarrow>
     (\<exists>r. data = [80, 75, 3, 4] @ r) \<and> rd_zip rd data = Some infos \<and> length infos \<le> 5000
     \<and> sum_list (map zi_size infos) \<le> 300 * 1024 * 1024
     \<and> (\<forall>i \<in> set infos. contained_path (zi_name i)
          \<and> (1024 * 1024 \<le> zi_size i \<longrightarrow> zi_size i \<le> 200 * max (zi_compressed i) 1)
          \<and> harmless_member rd data (zi_name i))
     \<and> (\<exists>i \<in> set infos. zi_name i = u ''word/document.xml'') \<and> (\<exists>i \<in> set infos. zi_name i = u ''[Content_Types].xml'')
     \<and> (\<exists>types. rd_member rd data (u ''[Content_Types].xml'') = Some types \<and> \<not> occurs_in (u ''macroEnabled'') types
          \<and> occurs_in (u ''application/vnd.openxmlformats-officedocument.wordprocessingml.document.main+xml'') types)"

definition docx_finding :: "readers \<Rightarrow> zip_info list \<Rightarrow> string \<Rightarrow> bool" where
  "docx_finding rd infos f \<longleftrightarrow> (\<exists>i \<in> set infos.
     f = ''docx_ole_embedding'' \<and> starts_with (rd_low rd (zi_name i)) (u ''word/embeddings/'') \<and> ends_with (rd_low rd (zi_name i)) (u ''.bin'')
     \<or> f = ''docx_activex_control'' \<and> starts_with (rd_low rd (zi_name i)) (u ''word/activex/''))"

definition names_of_pdf :: "ustr \<Rightarrow> pdf_reading \<Rightarrow> ustr \<Rightarrow> bool" where
  "names_of_pdf data r n \<longleftrightarrow> written_name data n \<or> (\<exists>x. Some x \<in> set (pf_objects r) \<and> has_name x n)"

definition acceptable_pdf :: "readers \<Rightarrow> ustr \<Rightarrow> pdf_reading \<Rightarrow> bool" where
  "acceptable_pdf rd data r \<longleftrightarrow>
     (\<exists>s. data = u ''%PDF-'' @ s) \<and> rd_pdf rd data = Some r \<and> (pf_encrypted r \<longrightarrow> pf_opens_empty r)
     \<and> length (pf_objects r) \<le> 500000 \<and> None \<notin> set (pf_objects r)
     \<and> \<not> names_of_pdf data r (u ''Launch'') \<and> \<not> names_of_pdf data r (u ''SubmitForm'') \<and> \<not> names_of_pdf data r (u ''ImportData'')"

definition recorded_content :: "(string \<times> string) set" where
  "recorded_content =
     {(''JavaScript'', ''pdf_javascript''), (''JS'', ''pdf_javascript''), (''EmbeddedFile'', ''pdf_embedded_files''),
      (''EmbeddedFiles'', ''pdf_embedded_files''), (''RichMedia'', ''pdf_rich_media''), (''XFA'', ''pdf_xfa_form'')}"

definition pdf_finding :: "ustr \<Rightarrow> pdf_reading \<Rightarrow> string \<Rightarrow> bool" where
  "pdf_finding data r f \<longleftrightarrow> (\<exists>n. (n, f) \<in> recorded_content \<and> names_of_pdf data r (u n))"

definition has_extension :: "readers \<Rightarrow> ustr \<Rightarrow> string \<Rightarrow> bool" where
  "has_extension rd filename ext \<longleftrightarrow> (\<exists>base e. filename = base @ 46 # e \<and> 46 \<notin> set e \<and> rd_low rd (46 # e) = u ext)"

lemma extension_iff: "ext \<noteq> [] \<Longrightarrow> extension rd filename = u ext \<longleftrightarrow> has_extension rd filename ext"
proof -
  assume ext: "ext \<noteq> []"
  show ?thesis
  proof (cases "46 \<in> set filename")
    case True
    then obtain base e where f: "filename = base @ 46 # e" "46 \<notin> set e" by (meson split_list_last)
    have last: "last (split_on 46 (b @ 46 # e')) = e'" if "46 \<notin> set e'" for b e' :: ustr
      unfolding split_on_at split_on_free [OF that] by simp
    have "e' = e" if "filename = b @ 46 # e'" "46 \<notin> set e'" for b e'
      using last [OF that(2), of b] last [OF f(2), of base] that(1) f(1) by simp
    then show ?thesis using True f last [OF f(2), of base] unfolding extension_def has_extension_def by auto
  next
    case False
    then show ?thesis using ext by (auto simp: extension_def has_extension_def u_def)
  qed
qed

lemma harmless_member_iff: "safe_member rd data name \<longleftrightarrow> harmless_member rd data name"
proof -
  have "rejected_embedding low \<longleftrightarrow> starts_with low (u ''word/embeddings/'')
      \<and> (\<exists>e \<in> {''.xlsm'', ''.docm'', ''.pptm'', ''.xlsb'', ''.exe'', ''.dll'', ''.js'', ''.vbs'', ''.scr'', ''.bat'', ''.cmd'', ''.ps1''}.
            ends_with low (u e))" for low
    by (simp add: rejected_embedding_def embedding_name_def REJECTED_EMBEDDING_SUFFIXES_def)
  then show ?thesis
    unfolding safe_member_def harmless_member_def macro_name_def safe_relations_def has_dde_iff dangerous_relationship_iff
    by (simp only: ex_simps de_Morgan_disj conj_assoc)
qed

lemma acceptable_docx_iff: "docx_clean rd data infos \<longleftrightarrow> acceptable_docx rd data infos"
proof -
  have ratio: "\<not> unsafe_ratio i \<longleftrightarrow> (1024 * 1024 \<le> zi_size i \<longrightarrow> zi_size i \<le> 200 * max (zi_compressed i) 1)" for i
    by (auto simp: unsafe_ratio_def RATIO_CHECK_MIN_SIZE_def MAX_COMPRESSION_RATIO_def not_less)
  have member: "n \<in> zi_name ` set infos \<longleftrightarrow> (\<exists>i \<in> set infos. zi_name i = n)" for n by auto
  show ?thesis
    unfolding docx_clean_def acceptable_docx_def harmless_member_iff unsafe_name_iff ratio member starts_with_iff
      MAX_ZIP_ENTRIES_def MAX_UNCOMPRESSED_TOTAL_def MACRO_CONTENT_TYPE_MARKER_def DOCX_MAIN_CONTENT_TYPE_def not_not ..
qed

lemma docx_findings_iff: "docx_findings rd infos = {f. docx_finding rd infos f}"
  by (auto simp: docx_findings_def docx_finding_def name_findings_def embedding_name_def split: if_splits)

lemma names_of_pdf_iff: "pdf_names data r = {n. names_of_pdf data r n}"
  by (auto simp: pdf_names_iff names_of_pdf_def)

lemma acceptable_pdf_iff: "pdf_clean rd data r \<longleftrightarrow> acceptable_pdf rd data r"
proof -
  have "(\<forall>n \<in> {n. N n}. n \<notin> set (map u [a, b, c])) \<longleftrightarrow> \<not> N (u a) \<and> \<not> N (u b) \<and> \<not> N (u c)" for N a b c by auto
  then show ?thesis
    unfolding pdf_clean_def acceptable_pdf_def names_of_pdf_iff PDF_REJECTED_NAMES_def MAX_PDF_OBJECTS_def starts_with_iff
    by (simp only:)
qed

lemma pdf_findings_iff: "pdf_findings data r = {f. pdf_finding data r f}"
proof -
  have "distinct (map fst PDF_RECORDED_NAMES)" by (simp add: PDF_RECORDED_NAMES_def u_def)
  then have "map_of PDF_RECORDED_NAMES n = Some f \<longleftrightarrow> (n, f) \<in> set PDF_RECORDED_NAMES" for n f by (rule map_of_eq_Some_iff)
  moreover have "set PDF_RECORDED_NAMES = (\<lambda>(m, g). (u m, g)) ` recorded_content"
    unfolding PDF_RECORDED_NAMES_def recorded_content_def by (simp only: list.set image_insert image_empty prod.case)
  then have "(n, f) \<in> set PDF_RECORDED_NAMES \<longleftrightarrow> (\<exists>m. (m, f) \<in> recorded_content \<and> n = u m)" for n f by auto
  ultimately show ?thesis unfolding pdf_findings_def names_of_pdf_iff pdf_finding_def by auto
qed



end
