(* ===== verification/ProductSplit.thy ===== *)
theory ProductSplit
  imports Documents
begin

text \<open>
  \<^verbatim>\<open>modules/fto/product.py\<close>: the description of a product is cut into candidate features with exact spans.  The digits
  and the word characters of Unicode are arguments.
\<close>

section \<open>Lines and markers\<close>

text \<open>\<open>splitlines(keepends=True)\<close>.\<close>

fun first_line :: "ustr \<Rightarrow> ustr \<times> ustr" where
  "first_line [] = ([], [])"
| "first_line (c # s) =
     (if c = 13 \<and> starts_with s [10] then ([13, 10], tl s)
      else if line_break c then ([c], s)
      else case first_line s of (l, r) \<Rightarrow> (c # l, r))"

lemma first_line_append: "fst (first_line s) @ snd (first_line s) = s"
  by (induction s rule: first_line.induct) (auto split: prod.splits simp: starts_with_iff)

lemma first_line_length: "s \<noteq> [] \<Longrightarrow> length (snd (first_line s)) < length s"
  using arg_cong [OF first_line_append [of s], of length]
  by (cases s rule: first_line.cases) (auto split: prod.splits)

function keep_lines :: "ustr \<Rightarrow> ustr list" where
  "keep_lines s = (if s = [] then [] else fst (first_line s) # keep_lines (snd (first_line s)))"
  by pat_completeness auto
termination keep_lines
  by (relation "measure length") (auto simp: first_line_length)

declare keep_lines.simps [simp del]

text \<open>The alternatives of the list marker, each with what follows it; a look-ahead ends at the end of the line.\<close>

definition blank_char :: "nat \<Rightarrow> bool" where
  "blank_char c \<longleftrightarrow> c = 32 \<or> c = 9"

definition before_space :: "ustr \<Rightarrow> bool" where
  "before_space s \<longleftrightarrow> s \<noteq> [] \<and> is_space (hd s)"

definition after_char :: "nat list \<Rightarrow> ustr \<Rightarrow> ustr option" where
  "after_char cs s = (case s of [] \<Rightarrow> None | c # r \<Rightarrow> if c \<in> set cs then Some r else None)"

text \<open>One to three digits that end there.\<close>

definition after_digits :: "(nat \<Rightarrow> bool) \<Rightarrow> ustr \<Rightarrow> ustr option" where
  "after_digits digit s =
     (let n = length (takeWhile digit s) in if 1 \<le> n \<and> n \<le> 3 then Some (dropWhile digit s) else None)"

definition cjk_numerals :: "nat list" where
  "cjk_numerals = [19968, 20108, 19977, 22235, 20116, 20845, 19971, 20843, 20061, 21313]"

definition bullet_marker :: "ustr \<Rightarrow> ustr option" where
  "bullet_marker s =
     (case after_char [45, 42] s of
        Some r \<Rightarrow> if before_space r then Some r else None
      | None \<Rightarrow> after_char [8226, 183, 9642] s)"

definition number_marker :: "(nat \<Rightarrow> bool) \<Rightarrow> ustr \<Rightarrow> ustr option" where
  "number_marker digit s =
     (let t = (if starts_with s [40] then tl s else s)
      in case Option.bind (after_digits digit t) (after_char [46, 41, 12289]) of
           Some r \<Rightarrow> if r \<noteq> [] \<and> digit (hd r) then None else Some r
         | None \<Rightarrow> None)"

definition bracketed_marker :: "(nat \<Rightarrow> bool) \<Rightarrow> nat \<Rightarrow> nat \<Rightarrow> ustr \<Rightarrow> ustr option" where
  "bracketed_marker digit left right s =
     Option.bind (after_char [left] s) (\<lambda>t. Option.bind (after_digits digit t) (after_char [right]))"

definition cjk_marker :: "ustr \<Rightarrow> ustr option" where
  "cjk_marker s =
     (if takeWhile (\<lambda>c. c \<in> set cjk_numerals) s = [] then None
      else after_char [12289] (dropWhile (\<lambda>c. c \<in> set cjk_numerals) s))"

definition latin_letter :: "nat \<Rightarrow> bool" where
  "latin_letter c \<longleftrightarrow> 65 \<le> c \<and> c \<le> 90 \<or> 97 \<le> c \<and> c \<le> 122"

definition letter_marker :: "ustr \<Rightarrow> ustr option" where
  "letter_marker s =
     (case s of
        c # d # r \<Rightarrow> if latin_letter c \<and> (d = 46 \<or> d = 41) \<and> before_space r then Some r else None
      | _ \<Rightarrow> None)"

definition or_try :: "'a option \<Rightarrow> 'a option \<Rightarrow> 'a option" where
  "or_try x y = (case x of None \<Rightarrow> y | Some _ \<Rightarrow> x)"

definition after_marker :: "(nat \<Rightarrow> bool) \<Rightarrow> ustr \<Rightarrow> ustr option" where
  "after_marker digit line =
     (let s = dropWhile blank_char line
      in map_option (dropWhile blank_char)
           (or_try (bullet_marker s) (or_try (number_marker digit s) (or_try (bracketed_marker digit 65288 65289 s)
              (or_try (bracketed_marker digit 40 41 s) (or_try (cjk_marker s) (letter_marker s)))))))"

section \<open>Cuts\<close>

definition hard_end :: "nat \<Rightarrow> bool" where
  "hard_end c \<longleftrightarrow> c \<in> {12290, 65307, 59, 65281, 65311, 33, 63}"

definition sentence_start :: "nat \<Rightarrow> bool" where
  "sentence_start c \<longleftrightarrow> 65 \<le> c \<and> c \<le> 90 \<or> 19968 \<le> c \<and> c \<le> 40959"

definition ABBREVIATIONS :: "ustr list" where
  "ABBREVIATIONS = map u [''e.g.'', ''i.e.'', ''etc.'', ''fig.'', ''no.'', ''approx.'', ''vs.'', ''mr.'', ''dr.'']"

text \<open>The text up to and with the dot ends in an abbreviation; the window has at most eight characters.\<close>

definition is_abbreviation :: "ustr \<Rightarrow> nat \<Rightarrow> bool" where
  "is_abbreviation text dot = list_ex (ends_with (lower (slice (dot - 7) (dot + 1) text))) ABBREVIATIONS"

definition english_end :: "ustr \<Rightarrow> nat \<Rightarrow> nat \<Rightarrow> bool" where
  "english_end text e dot \<longleftrightarrow>
     (let r = slice (dot + 1) e text; t = dropWhile is_space r
      in text ! dot = 46 \<and> t \<noteq> r \<and> t \<noteq> [] \<and> sentence_start (hd t))"

definition cut_after :: "ustr \<Rightarrow> nat \<Rightarrow> nat \<Rightarrow> bool" where
  "cut_after text e i \<longleftrightarrow> hard_end (text ! i) \<or> english_end text e i \<and> \<not> is_abbreviation text i"

definition cut_points :: "ustr \<Rightarrow> nat \<Rightarrow> nat \<Rightarrow> nat list" where
  "cut_points text start e = map Suc (filter (cut_after text e) [start..<e])"

section \<open>Features\<close>

datatype feature_origin = Split_origin | Manual_origin | Edited_origin

record product_feature =
  pf_id :: string
  pf_text :: ustr
  pf_spans :: "(nat \<times> nat) list"
  pf_origin :: feature_origin

text \<open>The piece without white space at its ends, when it has a word character.\<close>

definition trimmed :: "(nat \<Rightarrow> bool) \<Rightarrow> ustr \<Rightarrow> nat \<times> nat \<Rightarrow> (nat \<times> nat) option" where
  "trimmed word text = (\<lambda>(start, e).
     let piece = slice start e text;
         left = length piece - length (lstrip piece);
         right = length (rstrip piece)
     in if right \<le> left then None
        else if list_ex word (slice (start + left) (start + right) text) then Some (start + left, start + right) else None)"

definition line_pieces :: "(nat \<Rightarrow> bool) \<Rightarrow> ustr \<Rightarrow> nat \<times> nat \<Rightarrow> (nat \<times> nat) list" where
  "line_pieces digit text = (\<lambda>(line_start, line_end).
     let line = slice line_start line_end text;
         content_start = (case after_marker digit line of None \<Rightarrow> line_start | Some r \<Rightarrow> line_end - length r);
         bounds = content_start # cut_points text content_start line_end @ [line_end]
     in zip bounds (tl bounds))"

fun line_spans :: "nat \<Rightarrow> ustr list \<Rightarrow> (nat \<times> nat) list" where
  "line_spans position [] = []"
| "line_spans position (l # ls) = (position, position + length l) # line_spans (position + length l) ls"

definition feature_spans_of :: "(nat \<Rightarrow> bool) \<Rightarrow> (nat \<Rightarrow> bool) \<Rightarrow> ustr \<Rightarrow> (nat \<times> nat) list" where
  "feature_spans_of digit word text =
     List.map_filter (trimmed word text) (concat (map (line_pieces digit text) (line_spans 0 (keep_lines text))))"

definition LONG_FEATURE_CHARS :: nat where "LONG_FEATURE_CHARS = 120"

definition split_feature_of :: "ustr \<Rightarrow> nat \<times> nat \<times> nat \<Rightarrow> product_feature" where
  "split_feature_of text = (\<lambda>(n, s, e).
     \<lparr>pf_id = ''P'' @ str_nat n, pf_text = slice s e text, pf_spans = [(s, e)], pf_origin = Split_origin\<rparr>)"

text \<open>The features and their warnings: the long features, or that there is none.\<close>

datatype split_warning = Long_feature string nat | No_features

definition split_description :: "(nat \<Rightarrow> bool) \<Rightarrow> (nat \<Rightarrow> bool) \<Rightarrow> ustr \<Rightarrow> product_feature list \<times> split_warning list" where
  "split_description digit word text =
     (let spans = feature_spans_of digit word text;
          features = map (split_feature_of text) (zip [1..<Suc (length spans)] spans)
      in (features,
          [Long_feature (pf_id f) (length (pf_text f)). f \<leftarrow> features, LONG_FEATURE_CHARS < length (pf_text f)]
          @ (if features = [] then [No_features] else [])))"

end
