(* ===== verification/ProductFeatures.thy ===== *)
theory ProductFeatures
  imports ProductSplit CaseRoutes Dates
begin

text \<open>
  \<^verbatim>\<open>fto/product_features.py\<close> with the routes of \<^verbatim>\<open>fto/api.py\<close> and the tables of migration 0021: descriptions of a product,
  and the sets of its technical features, from a draft that is cut from a description, over the edits of a person,
  to a confirmed set and its revisions.  Fresh identifiers, the clock and the hash of a text are arguments.
  Column widths are not modelled, and codes are ordered by code point.
\<close>

section \<open>Tables\<close>

record product_description =
  pn_id :: string
  pn_organization :: string
  pn_case :: string
  pn_number :: int
  pn_text :: ustr
  pn_sha256 :: string
  pn_created_by :: string
  pn_created_at :: nat

record product_set =
  ps_id :: string
  ps_organization :: string
  ps_case :: string
  ps_description :: string
  ps_number :: int
  ps_parent :: "string option"
  ps_status :: string
  ps_splitter :: string
  ps_created_by :: string
  ps_confirmed_by :: "string option"
  ps_confirmed_at :: "nat option"

record product_row =
  pt_id :: string
  pt_organization :: string
  pt_case :: string
  pt_set :: string
  pt_code :: string
  pt_text :: ustr
  pt_spans :: "(nat \<times> nat) list"
  pt_origin :: feature_origin
  pt_order :: int

record product_db =
  pd_cases :: "case_row list"
  pd_descriptions :: "product_description list"
  pd_sets :: "product_set list"
  pd_features :: "product_row list"

definition MAX_DESCRIPTION_CHARS :: nat where "MAX_DESCRIPTION_CHARS = 50000"

definition SPLITTER_VERSION :: string where "SPLITTER_VERSION = ''product-splitter/1''"

section \<open>Reading\<close>

definition product_set_not_found :: http_error where
  "product_set_not_found = Http 404 ''product_feature_set_not_found''"

definition of_set :: "string \<Rightarrow> string \<Rightarrow> product_row \<Rightarrow> bool" where
  "of_set org sid f \<longleftrightarrow> pt_set f = sid \<and> pt_organization f = org"

definition set_rows :: "string \<Rightarrow> string \<Rightarrow> product_db \<Rightarrow> product_row list" where
  "set_rows org sid db = sort_key (\<lambda>f. (pt_order f, pt_code f)) (filter (of_set org sid) (pd_features db))"

definition load_set :: "string \<Rightarrow> string \<Rightarrow> product_db \<Rightarrow> (http_error, product_set \<times> product_row list) result" where
  "load_set org sid db =
     (case find (\<lambda>s. ps_id s = sid \<and> ps_organization s = org) (pd_sets db) of
        None \<Rightarrow> Inl product_set_not_found
      | Some s \<Rightarrow> Inr (s, set_rows org sid db))"

definition load_draft :: "string \<Rightarrow> string \<Rightarrow> product_db \<Rightarrow> (http_error, product_set \<times> product_row list) result" where
  "load_draft org sid db =
     bind_result (load_set org sid db) (\<lambda>(s, rows).
       if ps_status s \<noteq> ''draft'' then Inl (Http 409 ''product_feature_set_confirmed'') else Inr (s, rows))"

definition coded_row :: "string \<Rightarrow> product_row list \<Rightarrow> (http_error, product_row) result" where
  "coded_row code rows =
     (case find (\<lambda>f. pt_code f = code) rows of
        None \<Rightarrow> Inl (Http 404 ''product_feature_not_found'') | Some f \<Rightarrow> Inr f)"

text \<open>\<open>max(xs, default=d)\<close>.\<close>

definition max_or :: "'a::linorder \<Rightarrow> 'a list \<Rightarrow> 'a" where
  "max_or d xs = (case xs of [] \<Rightarrow> d | x # ys \<Rightarrow> max_key id x ys)"

text \<open>The number of a code that is a \<open>P\<close> and digits, and the code after all of them.\<close>

definition code_number :: "string \<Rightarrow> nat option" where
  "code_number code =
     (case code of
        [] \<Rightarrow> None
      | c # ds \<Rightarrow> if c = CHR ''P'' \<and> ds \<noteq> [] \<and> list_all is_digit_char ds then Some (digits_nat ds) else None)"

definition next_code :: "product_row list \<Rightarrow> string" where
  "next_code rows = ''P'' @ str_nat (max_or 0 (List.map_filter (\<lambda>f. code_number (pt_code f)) rows) + 1)"

definition list_descriptions :: "string \<Rightarrow> string \<Rightarrow> product_db \<Rightarrow> product_description list" where
  "list_descriptions org c db =
     sort_key (\<lambda>d. - pn_number d) (filter (\<lambda>d. pn_case d = c \<and> pn_organization d = org) (pd_descriptions db))"

definition list_sets :: "string \<Rightarrow> string \<Rightarrow> product_db \<Rightarrow> (product_set \<times> nat) list" where
  "list_sets org c db =
     map (\<lambda>s. (s, length (filter (\<lambda>f. pt_set f = ps_id s) (pd_features db))))
       (sort_key (\<lambda>s. - ps_number s) (filter (\<lambda>s. ps_case s = c \<and> ps_organization s = org) (pd_sets db)))"

section \<open>Descriptions\<close>

definition next_description :: "string \<Rightarrow> product_db \<Rightarrow> int" where
  "next_description c db = next_after (map pn_number (filter (\<lambda>d. pn_case d = c) (pd_descriptions db)))"

definition next_set :: "string \<Rightarrow> product_db \<Rightarrow> int" where
  "next_set c db = next_after (map ps_number (filter (\<lambda>s. ps_case s = c) (pd_sets db)))"

definition add_description :: "(ustr \<Rightarrow> string) \<Rightarrow> string \<Rightarrow> nat \<Rightarrow> string \<Rightarrow> string \<Rightarrow> ustr \<Rightarrow> string \<Rightarrow> product_db
    \<Rightarrow> (http_error, (string \<times> int) \<times> product_db) result" where
  "add_description sha256 fresh now org c description actor db =
     (let body = strip description
      in if body = [] then Inl (Http 422 ''product_description_empty'')
         else if MAX_DESCRIPTION_CHARS < length body then Inl (Http 422 ''product_description_too_long'')
         else if find (\<lambda>x. ca_id x = c \<and> ca_organization x = org) (pd_cases db) = None then Inl case_not_found
         else Inr ((fresh, next_description c db), db\<lparr>pd_descriptions := pd_descriptions db @
                [\<lparr>pn_id = fresh, pn_organization = org, pn_case = c, pn_number = next_description c db, pn_text = body,
                  pn_sha256 = sha256 body, pn_created_by = actor, pn_created_at = now\<rparr>]\<rparr>))"

section \<open>Sets\<close>

text \<open>The answer of every edit is the set as it is then read.\<close>

type_synonym set_answer = "(http_error, (product_set \<times> product_row list) \<times> product_db) result"

definition then_read :: "string \<Rightarrow> string \<Rightarrow> product_db \<Rightarrow> set_answer" where
  "then_read org sid db = bind_result (load_set org sid db) (\<lambda>view. Inr (view, db))"

definition draft_set :: "string \<Rightarrow> string \<Rightarrow> string \<Rightarrow> string \<Rightarrow> int \<Rightarrow> string option \<Rightarrow> string \<Rightarrow> product_set" where
  "draft_set sid org c description number parent actor =
     \<lparr>ps_id = sid, ps_organization = org, ps_case = c, ps_description = description, ps_number = number,
      ps_parent = parent, ps_status = ''draft'', ps_splitter = SPLITTER_VERSION, ps_created_by = actor,
      ps_confirmed_by = None, ps_confirmed_at = None\<rparr>"

definition inserted_set where
  "inserted_set sid org c description actor parent db =
     db\<lparr>pd_sets := pd_sets db @ [draft_set sid org c description (next_set c db) parent actor]\<rparr>"

definition inserted_features :: "product_row list \<Rightarrow> product_db \<Rightarrow> product_db" where
  "inserted_features rows db = db\<lparr>pd_features := pd_features db @ rows\<rparr>"

definition candidate_feature :: "(nat \<Rightarrow> string) \<Rightarrow> string \<Rightarrow> string \<Rightarrow> string \<Rightarrow> nat \<times> product_feature \<Rightarrow> product_row" where
  "candidate_feature fresh org c sid = (\<lambda>(order, f).
     \<lparr>pt_id = fresh (Suc order), pt_organization = org, pt_case = c, pt_set = sid, pt_code = pf_id f, pt_text = pf_text f,
      pt_spans = pf_spans f, pt_origin = Split_origin, pt_order = int order\<rparr>)"

definition create_product_draft :: "(nat \<Rightarrow> bool) \<Rightarrow> (nat \<Rightarrow> bool) \<Rightarrow> (nat \<Rightarrow> string) \<Rightarrow> string \<Rightarrow> string \<Rightarrow> string \<Rightarrow> string
    \<Rightarrow> product_db \<Rightarrow> (http_error, ((product_set \<times> product_row list) \<times> split_warning list) \<times> product_db) result" where
  "create_product_draft digit word fresh org c description actor db =
     (case find (\<lambda>d. pn_id d = description \<and> pn_case d = c \<and> pn_organization d = org) (pd_descriptions db) of
        None \<Rightarrow> Inl (Http 404 ''product_description_not_found'')
      | Some d \<Rightarrow>
          (let (features, warnings) = split_description digit word (pn_text d);
               sid = fresh 0;
               db' = inserted_features (map (candidate_feature fresh org c sid) (enumerate 0 features))
                       (inserted_set sid org c description actor None db)
           in bind_result (then_read org sid db') (\<lambda>(view, db'). Inr ((view, warnings), db'))))"

definition copied_row :: "(nat \<Rightarrow> string) \<Rightarrow> string \<Rightarrow> string \<Rightarrow> string \<Rightarrow> nat \<times> product_row \<Rightarrow> product_row" where
  "copied_row fresh org c sid = (\<lambda>(i, f). f\<lparr>pt_id := fresh (Suc i), pt_organization := org, pt_case := c, pt_set := sid\<rparr>)"

definition revise_set :: "(nat \<Rightarrow> string) \<Rightarrow> string \<Rightarrow> string \<Rightarrow> string \<Rightarrow> product_db \<Rightarrow> set_answer" where
  "revise_set fresh org sid actor db =
     bind_result (load_set org sid db) (\<lambda>(source, rows).
       if ps_status source \<noteq> ''confirmed'' then Inl (Http 409 ''only_confirmed_sets_can_be_revised'')
       else then_read org (fresh 0)
              (inserted_features (map (copied_row fresh org (ps_case source) (fresh 0)) (enumerate 0 rows))
                (inserted_set (fresh 0) org (ps_case source) (ps_description source) actor (Some sid) db)))"

definition confirm_set :: "nat \<Rightarrow> string \<Rightarrow> string \<Rightarrow> string \<Rightarrow> product_db \<Rightarrow> set_answer" where
  "confirm_set now org sid actor db =
     bind_result (load_draft org sid db) (\<lambda>(s, rows).
       if rows = [] then Inl (Http 422 ''cannot_confirm_empty_feature_set'')
       else then_read org sid (db\<lparr>pd_sets := update_where (\<lambda>s. ps_id s = sid \<and> ps_organization s = org)
              (\<lambda>s. s\<lparr>ps_status := ''confirmed'', ps_confirmed_by := Some actor, ps_confirmed_at := Some now\<rparr>) (pd_sets db)\<rparr>))"

section \<open>Edits of a draft\<close>

definition rewritten :: "string \<Rightarrow> string \<Rightarrow> string \<Rightarrow> ustr \<Rightarrow> (nat \<times> nat) list \<Rightarrow> feature_origin \<Rightarrow> product_db \<Rightarrow> product_db" where
  "rewritten org sid code body spans origin db =
     db\<lparr>pd_features := update_where (\<lambda>f. of_set org sid f \<and> pt_code f = code)
          (\<lambda>f. f\<lparr>pt_text := body, pt_spans := spans, pt_origin := origin\<rparr>) (pd_features db)\<rparr>"

definition shifted :: "string \<Rightarrow> string \<Rightarrow> int \<Rightarrow> product_db \<Rightarrow> product_db" where
  "shifted org sid order db =
     db\<lparr>pd_features := update_where (\<lambda>f. of_set org sid f \<and> order < pt_order f) (\<lambda>f. f\<lparr>pt_order := pt_order f + 1\<rparr>) (pd_features db)\<rparr>"

definition without_codes :: "string \<Rightarrow> string \<Rightarrow> string list \<Rightarrow> product_db \<Rightarrow> product_db" where
  "without_codes org sid codes db =
     db\<lparr>pd_features := filter (\<lambda>f. \<not> (of_set org sid f \<and> pt_code f \<in> set codes)) (pd_features db)\<rparr>"

definition edit_product_feature :: "string \<Rightarrow> string \<Rightarrow> string \<Rightarrow> ustr \<Rightarrow> product_db \<Rightarrow> set_answer" where
  "edit_product_feature org sid code new_text db =
     bind_result (load_draft org sid db) (\<lambda>(s, rows).
     bind_result (coded_row code rows) (\<lambda>f.
       let body = strip new_text
       in if body = [] then Inl (Http 422 ''feature_text_empty'')
          else then_read org sid (rewritten org sid code body (pt_spans f)
                 (if body = pt_text f then pt_origin f
                  else if pt_origin f = Manual_origin then Manual_origin else Edited_origin) db)))"

definition add_product_feature :: "string \<Rightarrow> string \<Rightarrow> string \<Rightarrow> ustr \<Rightarrow> product_db \<Rightarrow> set_answer" where
  "add_product_feature fresh org sid feature_text db =
     bind_result (load_draft org sid db) (\<lambda>(s, rows).
       let body = strip feature_text
       in if body = [] then Inl (Http 422 ''feature_text_empty'')
          else then_read org sid (inserted_features
                 [\<lparr>pt_id = fresh, pt_organization = org, pt_case = ps_case s, pt_set = sid, pt_code = next_code rows, pt_text = body,
                   pt_spans = [], pt_origin = Manual_origin, pt_order = max_or (-1) (map pt_order rows) + 1\<rparr>] db))"

definition delete_product_feature :: "string \<Rightarrow> string \<Rightarrow> string \<Rightarrow> product_db \<Rightarrow> set_answer" where
  "delete_product_feature org sid code db =
     bind_result (load_draft org sid db) (\<lambda>(s, rows).
     bind_result (coded_row code rows) (\<lambda>_. then_read org sid (without_codes org sid [code] db)))"

text \<open>The spans of the two halves: exact for an uncut piece of the description.\<close>

definition split_spans :: "nat \<Rightarrow> product_row \<Rightarrow> (nat \<times> nat) list \<times> (nat \<times> nat) list \<times> feature_origin" where
  "split_spans pos f =
     (let raw_left = take pos (pt_text f); raw_right = drop pos (pt_text f)
      in if pt_origin f = Split_origin \<and> length (pt_spans f) = 1
         then let (start, e) = hd (pt_spans f)
              in ([(start, start + length (rstrip raw_left))],
                  [(start + pos + (length raw_right - length (lstrip raw_right)), e)], Split_origin)
         else (pt_spans f, [], if pt_origin f \<noteq> Manual_origin then Edited_origin else Manual_origin))"

definition split_product_feature :: "string \<Rightarrow> string \<Rightarrow> string \<Rightarrow> string \<Rightarrow> nat \<Rightarrow> product_db \<Rightarrow> set_answer" where
  "split_product_feature fresh org sid code pos db =
     bind_result (load_draft org sid db) (\<lambda>(s, rows).
     bind_result (coded_row code rows) (\<lambda>f.
       let left = strip (take pos (pt_text f)); right = strip (drop pos (pt_text f));
           (left_spans, right_spans, origin) = split_spans pos f
       in if left = [] \<or> right = [] then Inl (Http 422 ''split_would_create_empty_feature'')
          else then_read org sid (inserted_features
                 [\<lparr>pt_id = fresh, pt_organization = org, pt_case = ps_case s, pt_set = sid, pt_code = next_code rows,
                   pt_text = right, pt_spans = right_spans, pt_origin = origin, pt_order = pt_order f + 1\<rparr>]
                 (shifted org sid (pt_order f) (rewritten org sid code left left_spans origin db)))))"

definition merge_product_features :: "string \<Rightarrow> string \<Rightarrow> string list \<Rightarrow> product_db \<Rightarrow> set_answer" where
  "merge_product_features org sid codes db =
     bind_result (load_draft org sid db) (\<lambda>(s, rows).
       if count_set codes < 2 then Inl (Http 422 ''merge_needs_two_features'')
       else bind_result (map_result (\<lambda>c. coded_row c rows) (remdups codes)) (\<lambda>found.
         let chosen = sort_key pt_order found;
             merged_text = join [32] (map pt_text chosen);
             merged_spans = concat (map pt_spans chosen);
             origin = (if list_all (\<lambda>f. pt_origin f = Split_origin) chosen then Split_origin else Edited_origin)
         in then_read org sid (without_codes org sid (map pt_code (tl chosen))
              (rewritten org sid (pt_code (hd chosen)) merged_text merged_spans origin db))))"

section \<open>Routes\<close>

text \<open>
  A request with its parsed body; the routes that edit a set load it first and answer as if it did not exist when it is of
  another case.
\<close>

datatype product_edit =
    Edit_feature string ustr
  | Add_feature ustr
  | Delete_feature string
  | Split_feature string int
  | Merge_features "string list"
  | Confirm_set
  | Revise_set

definition valid_edit :: "product_edit \<Rightarrow> bool" where
  "valid_edit e =
     (case e of
        Edit_feature _ s \<Rightarrow> within 1 5000 s
      | Add_feature s \<Rightarrow> within 1 5000 s
      | Split_feature _ pos \<Rightarrow> 1 \<le> pos
      | Merge_features codes \<Rightarrow> within 2 50 codes
      | _ \<Rightarrow> True)"

definition run_edit :: "(nat \<Rightarrow> string) \<Rightarrow> nat \<Rightarrow> string \<Rightarrow> string \<Rightarrow> string \<Rightarrow> product_edit \<Rightarrow> product_db \<Rightarrow> set_answer" where
  "run_edit fresh now org sid actor e db =
     (case e of
        Edit_feature code s \<Rightarrow> edit_product_feature org sid code s db
      | Add_feature s \<Rightarrow> add_product_feature (fresh 0) org sid s db
      | Delete_feature code \<Rightarrow> delete_product_feature org sid code db
      | Split_feature code pos \<Rightarrow> split_product_feature (fresh 0) org sid code (nat pos) db
      | Merge_features codes \<Rightarrow> merge_product_features org sid codes db
      | Confirm_set \<Rightarrow> confirm_set now org sid actor db
      | Revise_set \<Rightarrow> revise_set fresh org sid actor db)"

definition in_case :: "string \<Rightarrow> string \<Rightarrow> string \<Rightarrow> product_db \<Rightarrow> (http_error, product_set \<times> product_row list) result" where
  "in_case org c sid db =
     bind_result (load_set org sid db) (\<lambda>(s, rows). if ps_case s \<noteq> c then Inl product_set_not_found else Inr (s, rows))"

definition edit_route :: "access \<Rightarrow> (nat \<Rightarrow> string) \<Rightarrow> nat \<Rightarrow> string \<Rightarrow> string \<Rightarrow> string \<Rightarrow> product_edit \<Rightarrow> product_db \<Rightarrow> set_answer" where
  "edit_route access fresh now org c sid e db =
     (if valid_edit e
      then bind_result access (\<lambda>actor. bind_result (in_case org c sid db) (\<lambda>_. run_edit fresh now org sid actor e db))
      else Inl invalid_request)"

definition get_set_route :: "access \<Rightarrow> string \<Rightarrow> string \<Rightarrow> string \<Rightarrow> product_db \<Rightarrow> (http_error, product_set \<times> product_row list) result" where
  "get_set_route access org c sid db = bind_result access (\<lambda>_. in_case org c sid db)"

definition add_description_route where
  "add_description_route access sha256 fresh now org c description db =
     (if within 1 MAX_DESCRIPTION_CHARS description
      then bind_result access (\<lambda>actor. add_description sha256 fresh now org c description actor db)
      else Inl invalid_request)"

definition create_draft_route where
  "create_draft_route access digit word fresh org c description db =
     bind_result access (\<lambda>actor. create_product_draft digit word fresh org c description actor db)"

definition list_descriptions_route where
  "list_descriptions_route access org c db = bind_result access (\<lambda>_. Inr (list_descriptions org c db))"

definition list_sets_route where
  "list_sets_route access org c db = bind_result access (\<lambda>_. Inr (list_sets org c db))"

end
