(* ===== verification/ProductSpans.thy ===== *)
theory ProductSpans
  imports ProductSplit
begin

text \<open>The spans of the candidate features are exact and ordered, and no word of the description is lost.\<close>

section \<open>Trimming\<close>

lemma lstrip_drop: "lstrip s = drop (length s - length (lstrip s)) s"
proof -
  have "takeWhile is_space s @ lstrip s = s" by (simp add: lstrip_def)
  then have "length s - length (lstrip s) = length (takeWhile is_space s)" by (metis add_diff_cancel_right' length_append)
  then show ?thesis by (simp add: lstrip_def dropWhile_eq_drop)
qed

lemma rstrip_take: "rstrip s = take (length (rstrip s)) s"
proof -
  have "rev s = takeWhile is_space (rev s) @ rev (rstrip s)" by (simp add: rstrip_def)
  then have "s = rstrip s @ rev (takeWhile is_space (rev s))" by (metis rev_append rev_rev_ident)
  then show ?thesis by (metis append_eq_conv_conj)
qed

lemma rstrip_rest: "s = rstrip s @ drop (length (rstrip s)) s"
  by (metis append_take_drop_id rstrip_take)

lemma rstrip_tail_space: "c \<in> set (drop (length (rstrip s)) s) \<Longrightarrow> is_space c"
proof -
  have "rev s = takeWhile is_space (rev s) @ rev (rstrip s)" by (simp add: rstrip_def)
  then have "s = rstrip s @ rev (takeWhile is_space (rev s))" by (metis rev_append rev_rev_ident)
  then have "drop (length (rstrip s)) s = rev (takeWhile is_space (rev s))" by (metis append_eq_conv_conj)
  then show "c \<in> set (drop (length (rstrip s)) s) \<Longrightarrow> is_space c" by (auto dest: set_takeWhileD)
qed

lemma lstrip_head_space: "c \<in> set (take (length s - length (lstrip s)) s) \<Longrightarrow> is_space c"
proof -
  have "takeWhile is_space s @ lstrip s = s" by (simp add: lstrip_def)
  then have "take (length s - length (lstrip s)) s = takeWhile is_space s"
    by (metis add_diff_cancel_right' append_eq_conv_conj length_append)
  then show "c \<in> set (take (length s - length (lstrip s)) s) \<Longrightarrow> is_space c" by (auto dest: set_takeWhileD)
qed

lemma rstrip_last: "rstrip s \<noteq> [] \<Longrightarrow> \<not> is_space (last (rstrip s))"
proof -
  assume "rstrip s \<noteq> []"
  then have "\<not> is_space (hd (dropWhile is_space (rev s)))" by (intro hd_dropWhile) (auto simp: rstrip_def)
  then show ?thesis by (simp add: rstrip_def last_rev)
qed

lemma rstrip_id: "s = [] \<or> \<not> is_space (last s) \<Longrightarrow> rstrip s = s"
  by (cases s rule: rev_cases) (auto simp: rstrip_def)

lemma lstrip_id: "s = [] \<or> \<not> is_space (hd s) \<Longrightarrow> lstrip s = s"
  by (cases s) (auto simp: lstrip_def)

lemma drop_split: "l \<le> r \<Longrightarrow> r \<le> length s \<Longrightarrow> drop l s = drop l (take r s) @ drop r s"
proof -
  assume "l \<le> r" "r \<le> length s"
  then have "drop l (take r s @ drop r s) = drop l (take r s) @ drop r s" by (simp only: drop_append) simp
  then show ?thesis by simp
qed

lemma rstrip_append: "m \<noteq> [] \<Longrightarrow> \<not> is_space (last m) \<Longrightarrow> \<forall>c \<in> set t. is_space c \<Longrightarrow> rstrip (m @ t) = m"
proof -
  assume m: "m \<noteq> []" "\<not> is_space (last m)" and t: "\<forall>c \<in> set t. is_space c"
  have "dropWhile is_space (rev t @ rev m) = dropWhile is_space (rev m)" using t by (intro dropWhile_append2) simp
  also have "\<dots> = rev m" using m by (cases m rule: rev_cases) simp_all
  finally show ?thesis by (simp add: rstrip_def)
qed

lemma strip_strip: "strip (strip s) = strip s"
proof -
  let ?t = "lstrip s"
  have "rstrip ?t = [] \<or> \<not> is_space (hd (rstrip ?t))"
  proof (cases "rstrip ?t = []")
    case False
    then have "hd (rstrip ?t) = hd ?t" by (metis hd_append2 rstrip_rest)
    moreover have "?t \<noteq> []" using False by (auto simp: rstrip_def)
    ultimately show ?thesis using lstrip_head [of s] by simp
  qed simp
  then have "lstrip (strip s) = strip s" unfolding strip_def by (rule lstrip_id)
  moreover have "rstrip (strip s) = strip s" unfolding strip_def using rstrip_last by (intro rstrip_id) blast
  ultimately show ?thesis by (simp add: strip_def)
qed

text \<open>The positions that \<open>trimmed\<close> computes are those of the stripped piece.\<close>

lemma strip_span:
  assumes "length s - length (lstrip s) < length (rstrip s)"
  shows "strip s = slice (length s - length (lstrip s)) (length (rstrip s)) s"
proof -
  let ?l = "length s - length (lstrip s)" and ?r = "length (rstrip s)"
  let ?m = "drop ?l (take ?r s)"
  have r: "take ?r s = rstrip s" "?r \<le> length s"
    by (rule rstrip_take [symmetric]) (use length_dropWhile_le [of is_space "rev s"] in \<open>simp add: rstrip_def\<close>)
  have m: "?m \<noteq> []" using assms r(2) by simp
  have "last ?m = last (rstrip s)" unfolding r(1) by (rule last_drop [OF assms])
  moreover have "rstrip s \<noteq> []" using assms by auto
  ultimately have "\<not> is_space (last ?m)" using rstrip_last [of s] by simp
  then have "rstrip (?m @ drop ?r s) = ?m" using m rstrip_tail_space by (intro rstrip_append) auto
  moreover have "drop ?l s = ?m @ drop ?r s" using assms r(2) by (intro drop_split) auto
  moreover have "strip s = rstrip (drop ?l s)" unfolding strip_def by (rule arg_cong [OF lstrip_drop])
  ultimately have "strip s = ?m" by (simp only:)
  then show ?thesis by (simp only: slice_def drop_take)
qed

lemma slice_slice: "r \<le> j - i \<Longrightarrow> slice l r (slice i j xs) = slice (i + l) (i + r) xs"
  by (simp add: slice_def drop_take min_def add.commute)

text \<open>A piece that is trimmed to a span.\<close>

lemma trimmed_Some:
  assumes "trimmed word text (i, j) = Some (a, b)" "i \<le> j" "j \<le> length text"
  shows "i \<le> a" "a < b" "b \<le> j" "slice a b text = strip (slice i j text)" "list_ex word (slice a b text)"
proof -
  let ?p = "slice i j text"
  let ?l = "length ?p - length (lstrip ?p)" and ?r = "length (rstrip ?p)"
  have ab: "?l < ?r" "a = i + ?l" "b = i + ?r" "list_ex word (slice a b text)"
    using assms(1) by (auto simp: trimmed_def Let_def not_le split: if_splits)
  have "?r \<le> length ?p" using length_dropWhile_le [of is_space "rev ?p"] by (simp add: rstrip_def)
  moreover have "length ?p = j - i" using assms(2,3) by (simp add: slice_def)
  ultimately have r: "?r \<le> j - i" by simp
  then show "i \<le> a" "a < b" "b \<le> j" using ab assms(2) by auto
  have "slice a b text = slice ?l ?r ?p" unfolding ab(2,3) by (rule slice_slice [OF r, symmetric])
  then show "slice a b text = strip ?p" using strip_span [OF ab(1)] by simp
  show "list_ex word (slice a b text)" by (rule ab(4))
qed

lemma nth_in_drop: "n \<le> m \<Longrightarrow> m < length xs \<Longrightarrow> xs ! m \<in> set (drop n xs)"
  using nth_mem [of "m - n" "drop n xs"] by simp

lemma nth_in_slice: "a \<le> k \<Longrightarrow> k < b \<Longrightarrow> b \<le> length xs \<Longrightarrow> xs ! k \<in> set (slice a b xs)"
  using nth_mem [of "k - a" "slice a b xs"] by (simp add: slice_def)

lemma trimmed_keeps:
  assumes "i \<le> k" "k < j" "j \<le> length text" "\<not> is_space (text ! k)" "word (text ! k)"
  shows "\<exists>a b. trimmed word text (i, j) = Some (a, b) \<and> a \<le> k \<and> k < b"
proof -
  let ?p = "slice i j text"
  let ?l = "length ?p - length (lstrip ?p)" and ?r = "length (rstrip ?p)"
  have n: "?p ! (k - i) = text ! k" "k - i < length ?p" using assms(1-3) by (simp_all add: slice_def)
  have l: "?l \<le> k - i"
  proof (rule ccontr)
    assume "\<not> ?l \<le> k - i"
    then have "?p ! (k - i) \<in> set (take ?l ?p)" using n(2) by (auto simp: in_set_conv_nth intro!: exI [of _ "k - i"])
    then show False using lstrip_head_space n(1) assms(4) by metis
  qed
  have r: "k - i < ?r"
  proof (rule ccontr)
    assume "\<not> k - i < ?r"
    then have "?p ! (k - i) \<in> set (drop ?r ?p)" using n(2) by (intro nth_in_drop) simp_all
    then show False using rstrip_tail_space n(1) assms(4) by metis
  qed
  have len: "?r \<le> j - i"
    using length_dropWhile_le [of is_space "rev ?p"] assms(1-3) by (simp add: rstrip_def slice_def)
  have "text ! k \<in> set (slice (i + ?l) (i + ?r) text)" by (rule nth_in_slice) (use l r len assms(1-3) in auto)
  then have w: "list_ex word (slice (i + ?l) (i + ?r) text)" using assms(5) by (auto simp: list_ex_iff)
  show ?thesis
    by (rule exI [of _ "i + ?l"], rule exI [of _ "i + ?r"]) (use l r w assms(1) in \<open>auto simp: trimmed_def Let_def\<close>)
qed

section \<open>Lines and pieces\<close>

lemma keep_lines_Cons: "s \<noteq> [] \<Longrightarrow> keep_lines s = fst (first_line s) # keep_lines (snd (first_line s))"
  by (subst keep_lines.simps) simp

lemma keep_lines_concat: "concat (keep_lines s) = s"
proof (induction "length s" arbitrary: s rule: less_induct)
  case less
  show ?case
  proof (cases "s = []")
    case True
    then show ?thesis by (simp add: keep_lines.simps)
  next
    case False
    then show ?thesis using less [OF first_line_length] first_line_append [of s] by (simp add: keep_lines_Cons)
  qed
qed

text \<open>Intervals one after the other, from one position to another.\<close>

fun ordered :: "nat \<Rightarrow> (nat \<times> nat) list \<Rightarrow> nat \<Rightarrow> bool" where
  "ordered lo [] hi \<longleftrightarrow> lo \<le> hi"
| "ordered lo ((a, b) # ps) hi \<longleftrightarrow> lo \<le> a \<and> a \<le> b \<and> ordered b ps hi"

lemma ordered_le: "ordered lo ps hi \<Longrightarrow> lo \<le> hi"
  by (induction lo ps hi rule: ordered.induct) auto

lemma ordered_weaken: "ordered lo ps hi \<Longrightarrow> lo' \<le> lo \<Longrightarrow> ordered lo' ps hi"
  by (cases ps) auto

lemma ordered_append: "ordered lo ps mid \<Longrightarrow> ordered mid qs hi \<Longrightarrow> ordered lo (ps @ qs) hi"
  by (induction lo ps mid rule: ordered.induct) (auto intro: ordered_weaken)

lemma ordered_mem: "ordered lo ps hi \<Longrightarrow> (a, b) \<in> set ps \<Longrightarrow> lo \<le> a \<and> a \<le> b \<and> b \<le> hi"
  by (induction lo ps hi rule: ordered.induct) (auto dest: ordered_le)

lemma ordered_filter:
  assumes "ordered lo ps hi" "\<And>i j a b. (i, j) \<in> set ps \<Longrightarrow> f (i, j) = Some (a, b) \<Longrightarrow> i \<le> a \<and> a \<le> b \<and> b \<le> j"
  shows "ordered lo (List.map_filter f ps) hi"
  using assms
proof (induction lo ps hi rule: ordered.induct)
  case (2 lo i j ps hi)
  have IH: "ordered j (List.map_filter f ps) hi" using 2 by auto
  show ?case
  proof (cases "f (i, j)")
    case None
    then show ?thesis using IH 2(2) ordered_weaken [OF IH, of lo] by (simp add: map_filter_simps)
  next
    case (Some p)
    then obtain a b where p: "f (i, j) = Some (a, b)" by (cases p) auto
    then have "i \<le> a \<and> a \<le> b \<and> b \<le> j" using 2(3) by auto
    then show ?thesis using 2(2) p ordered_weaken [OF IH, of b] by (simp add: map_filter_simps)
  qed
qed (simp add: map_filter_simps)

lemma line_spans_ordered: "ordered n (line_spans n ls) (n + length (concat ls))"
proof (induction ls arbitrary: n)
  case (Cons l ls)
  then show ?case using Cons [of "n + length l"] by (simp add: add.assoc)
qed simp

lemma line_spans_cover:
  "n \<le> k \<Longrightarrow> k < n + length (concat ls) \<Longrightarrow> \<exists>i j. (i, j) \<in> set (line_spans n ls) \<and> i \<le> k \<and> k < j"
proof (induction ls arbitrary: n)
  case (Cons l ls)
  show ?case
  proof (cases "k < n + length l")
    case True
    then show ?thesis using Cons.prems(1) by auto
  next
    case False
    then show ?thesis using Cons.IH [of "n + length l"] Cons.prems by auto
  qed
qed simp

lemma zip_ordered: "sorted (b # bs) \<Longrightarrow> ordered b (zip (b # bs) bs) (last (b # bs))"
proof (induction bs arbitrary: b)
  case (Cons c bs)
  then show ?case by auto
qed simp

lemma zip_cover: "sorted (b # bs) \<Longrightarrow> b \<le> k \<Longrightarrow> k < last (b # bs) \<Longrightarrow> \<exists>i j. (i, j) \<in> set (zip (b # bs) bs) \<and> i \<le> k \<and> k < j"
proof (induction bs arbitrary: b)
  case (Cons c bs)
  show ?case
  proof (cases "k < c")
    case True
    then show ?thesis using Cons.prems by auto
  next
    case False
    then have "\<exists>i j. (i, j) \<in> set (zip (c # bs) bs) \<and> i \<le> k \<and> k < j"
      using Cons.prems by (intro Cons.IH) auto
    then show ?thesis by auto
  qed
qed simp

lemma after_marker_length: "after_marker digit line = Some r \<Longrightarrow> length r \<le> length line"
proof -
  have char: "after_char cs s = Some r \<Longrightarrow> length r \<le> length s" for cs s r
    by (auto simp: after_char_def split: list.splits if_splits)
  have digits: "after_digits digit s = Some r \<Longrightarrow> length r \<le> length s" for s r
    using length_dropWhile_le [of digit s] by (auto simp: after_digits_def Let_def split: if_splits)
  have "bullet_marker s = Some r \<Longrightarrow> length r \<le> length s" for s r
    by (auto simp: bullet_marker_def split: option.splits if_splits dest: char)
  moreover have "number_marker digit s = Some r \<Longrightarrow> length r \<le> length s" for s r
    using digits char by (fastforce simp: number_marker_def Let_def bind_eq_Some_conv split: option.splits if_splits)
  moreover have "bracketed_marker digit a b s = Some r \<Longrightarrow> length r \<le> length s" for a b s r
    by (auto simp: bracketed_marker_def bind_eq_Some_conv dest!: char digits)
  moreover have "cjk_marker s = Some r \<Longrightarrow> length r \<le> length s" for s r
    using char length_dropWhile_le [of "\<lambda>c. c \<in> set cjk_numerals" s] by (fastforce simp: cjk_marker_def split: if_splits)
  moreover have "letter_marker s = Some r \<Longrightarrow> length r \<le> length s" for s r
    by (auto simp: letter_marker_def split: list.splits if_splits)
  ultimately have alt: "or_try (bullet_marker s) (or_try (number_marker digit s) (or_try (bracketed_marker digit 65288 65289 s)
      (or_try (bracketed_marker digit 40 41 s) (or_try (cjk_marker s) (letter_marker s))))) = Some r \<Longrightarrow> length r \<le> length s" for s r
    unfolding or_try_def by (auto split: option.splits)
  assume "after_marker digit line = Some r"
  then obtain q where "r = dropWhile blank_char q" "length q \<le> length (dropWhile blank_char line)"
    by (auto simp: after_marker_def Let_def dest!: alt)
  then show "length r \<le> length line"
    by (metis le_trans length_dropWhile_le)
qed

definition content_start_of :: "(nat \<Rightarrow> bool) \<Rightarrow> ustr \<Rightarrow> nat \<times> nat \<Rightarrow> nat" where
  "content_start_of digit text = (\<lambda>(i, j). case after_marker digit (slice i j text) of None \<Rightarrow> i | Some r \<Rightarrow> j - length r)"

lemma content_start_bounds:
  assumes "i \<le> j" "j \<le> length text"
  shows "i \<le> content_start_of digit text (i, j)" "content_start_of digit text (i, j) \<le> j"
  using assms after_marker_length [of digit "slice i j text"] by (auto simp: content_start_of_def slice_def split: option.splits)

lemma cut_points_sorted: "a \<le> e \<Longrightarrow> sorted (a # cut_points text a e @ [e])"
  unfolding cut_points_def by (auto simp: sorted_append sorted_wrt_map intro!: sorted_wrt_filter)

lemma line_pieces_bounds:
  "line_pieces digit text (i, j) =
     (let b = content_start_of digit text (i, j) in zip (b # cut_points text b j @ [j]) (cut_points text b j @ [j]))"
  by (simp add: line_pieces_def content_start_of_def Let_def)

lemma line_pieces_ordered: "i \<le> j \<Longrightarrow> j \<le> length text \<Longrightarrow> ordered i (line_pieces digit text (i, j)) j"
  using zip_ordered [OF cut_points_sorted [OF content_start_bounds(2)]] content_start_bounds(1)
  by (fastforce simp: line_pieces_bounds Let_def intro: ordered_weaken)

lemma line_pieces_cover:
  "i \<le> j \<Longrightarrow> j \<le> length text \<Longrightarrow> content_start_of digit text (i, j) \<le> k \<Longrightarrow> k < j
    \<Longrightarrow> \<exists>a b. (a, b) \<in> set (line_pieces digit text (i, j)) \<and> a \<le> k \<and> k < b"
  using zip_cover [OF cut_points_sorted [OF content_start_bounds(2)], of i j "text" digit k]
  by (simp add: line_pieces_bounds Let_def)

section \<open>The candidate features\<close>

lemma text_lines:
  shows "ordered 0 (line_spans 0 (keep_lines text)) (length text)"
    and "k < length text \<Longrightarrow> \<exists>i j. (i, j) \<in> set (line_spans 0 (keep_lines text)) \<and> i \<le> k \<and> k < j"
  using line_spans_ordered [of 0 "keep_lines text"] line_spans_cover [of 0 k "keep_lines text"] by (simp_all add: keep_lines_concat)

lemma pieces_ordered:
  "ordered lo ls hi \<Longrightarrow> hi \<le> length text \<Longrightarrow> ordered lo (concat (map (line_pieces digit text) ls)) hi"
proof (induction lo ls hi rule: ordered.induct)
  case (2 lo i j ls hi)
  then have ij: "lo \<le> i" "i \<le> j" "j \<le> length text" using ordered_le [of j ls hi] by auto
  then have "ordered lo (line_pieces digit text (i, j)) j" using line_pieces_ordered ordered_weaken by blast
  then show ?case using 2 by (auto intro: ordered_append)
qed simp

lemma spans_ordered: "ordered 0 (feature_spans_of digit word text) (length text)"
  unfolding feature_spans_of_def
proof (rule ordered_filter)
  show o: "ordered 0 (concat (map (line_pieces digit text) (line_spans 0 (keep_lines text)))) (length text)"
    by (rule pieces_ordered [OF text_lines(1)]) simp
  fix i j a b
  assume "(i, j) \<in> set (concat (map (line_pieces digit text) (line_spans 0 (keep_lines text))))" "trimmed word text (i, j) = Some (a, b)"
  with ordered_mem [OF o] trimmed_Some [of word "text" i j a b] show "i \<le> a \<and> a \<le> b \<and> b \<le> j" by (meson less_imp_le_nat)
qed

lemma span_filter_mem: "y \<in> set (List.map_filter f xs) \<longleftrightarrow> (\<exists>x \<in> set xs. f x = Some y)"
  by (induction xs) (auto simp: map_filter_simps split: option.splits)

lemma span_exact:
  assumes "(a, b) \<in> set (feature_spans_of digit word text)"
  shows "a < b \<and> b \<le> length text \<and> strip (slice a b text) = slice a b text \<and> list_ex word (slice a b text)"
proof -
  obtain i j where p: "(i, j) \<in> set (concat (map (line_pieces digit text) (line_spans 0 (keep_lines text))))"
      "trimmed word text (i, j) = Some (a, b)"
    using assms unfolding feature_spans_of_def span_filter_mem by fast
  have "i \<le> j \<and> j \<le> length text"
    using ordered_mem [OF pieces_ordered [OF text_lines(1) order_refl] p(1)] by simp
  with trimmed_Some [OF p(2)] have t: "a < b" "b \<le> length text" "slice a b text = strip (slice i j text)" "list_ex word (slice a b text)"
    by auto
  then show ?thesis by (simp add: strip_strip)
qed

text \<open>The positions of the list markers: the start of a line up to what follows its marker.\<close>

definition marker_position :: "(nat \<Rightarrow> bool) \<Rightarrow> ustr \<Rightarrow> nat \<Rightarrow> bool" where
  "marker_position digit text k \<longleftrightarrow>
     list_ex (\<lambda>(i, j). i \<le> k \<and> k < content_start_of digit text (i, j)) (line_spans 0 (keep_lines text))"

lemma word_in_span:
  assumes "k < length text" "word (text ! k)" "\<not> is_space (text ! k)" "\<not> marker_position digit text k"
  shows "\<exists>a b. (a, b) \<in> set (feature_spans_of digit word text) \<and> a \<le> k \<and> k < b"
proof -
  obtain i j where l: "(i, j) \<in> set (line_spans 0 (keep_lines text))" "i \<le> k" "k < j" using text_lines(2) [OF assms(1)] by blast
  have ij: "i \<le> j" "j \<le> length text" using ordered_mem [OF text_lines(1) l(1)] by auto
  have "content_start_of digit text (i, j) \<le> k" using assms(4) l by (fastforce simp: marker_position_def list_ex_iff)
  then obtain a b where p: "(a, b) \<in> set (line_pieces digit text (i, j))" "a \<le> k" "k < b"
    using line_pieces_cover [OF ij _ l(3)] by blast
  have "b \<le> length text" using ordered_mem [OF line_pieces_ordered [OF ij] p(1)] ij by simp
  then obtain a' b' where t: "trimmed word text (a, b) = Some (a', b')" "a' \<le> k" "k < b'"
    using trimmed_keeps [of a k b "text" word] p assms by blast
  have "(a', b') \<in> set (feature_spans_of digit word text)"
    using l(1) p(1) t(1) unfolding feature_spans_of_def List.map_filter_def by force
  then show ?thesis using t by blast
qed

lemma ordered_apart: "ordered lo ps hi \<Longrightarrow> i < j \<Longrightarrow> j < length ps \<Longrightarrow> snd (ps ! i) \<le> fst (ps ! j)"
proof (induction lo ps hi arbitrary: i j rule: ordered.induct)
  case (2 lo a b ps hi)
  show ?case
  proof (cases i)
    case 0
    obtain j' where "j = Suc j'" using 2(3) by (cases j) auto
    then have "ps ! j' \<in> set ps" using 2(4) by simp
    then show ?thesis using 2(2) ordered_mem [of b ps hi "fst (ps ! j')" "snd (ps ! j')"] 0 \<open>j = Suc j'\<close> by simp
  next
    case (Suc i')
    then show ?thesis using 2 by (cases j) auto
  qed
qed simp

lemma split_features:
  assumes "features = fst (split_description digit word text)"
  shows "map pf_id features = map (\<lambda>n. ''P'' @ str_nat n) [1..<Suc (length features)]
    \<and> (\<forall>f \<in> set features. \<exists>a b. pf_spans f = [(a, b)] \<and> a < b \<and> b \<le> length text \<and> pf_text f = slice a b text
         \<and> strip (pf_text f) = pf_text f \<and> list_ex word (pf_text f) \<and> pf_origin f = Split_origin)
    \<and> (\<forall>i j. i < j \<and> j < length features \<longrightarrow> snd (hd (pf_spans (features ! i))) \<le> fst (hd (pf_spans (features ! j))))
    \<and> (\<forall>k < length text. word (text ! k) \<and> \<not> is_space (text ! k) \<and> \<not> marker_position digit text k \<longrightarrow>
         (\<exists>f \<in> set features. \<exists>a b. pf_spans f = [(a, b)] \<and> a \<le> k \<and> k < b))"
proof -
  let ?s = "feature_spans_of digit word text"
  have f: "features = map (split_feature_of text) (zip [1..<Suc (length ?s)] ?s)"
    by (simp add: assms split_description_def Let_def)
  have n: "length features = length ?s" by (simp add: f del: upt_Suc)
  have nth: "pf_spans (features ! i) = [?s ! i]" "pf_text (features ! i) = slice (fst (?s ! i)) (snd (?s ! i)) text"
      "pf_origin (features ! i) = Split_origin" if "i < length ?s" for i
    using that by (simp_all add: f split_feature_of_def split: prod.splits del: upt_Suc)
  have "map pf_id features = map (\<lambda>n. ''P'' @ str_nat n) [1..<Suc (length features)]"
    unfolding n by (rule nth_equalityI) (simp_all add: f split_feature_of_def split: prod.splits del: upt_Suc)
  moreover have "\<exists>a b. pf_spans g = [(a, b)] \<and> a < b \<and> b \<le> length text \<and> pf_text g = slice a b text
      \<and> strip (pf_text g) = pf_text g \<and> list_ex word (pf_text g) \<and> pf_origin g = Split_origin" if g: "g \<in> set features" for g
  proof -
    obtain i where i: "i < length ?s" "g = features ! i" using g unfolding in_set_conv_nth n by blast
    obtain a b where s: "?s ! i = (a, b)" by fastforce
    then have "(a, b) \<in> set ?s" using nth_mem [OF i(1)] by simp
    note e = span_exact [OF this]
    have "pf_spans g = [(a, b)]" "pf_text g = slice a b text" "pf_origin g = Split_origin"
      using nth [OF i(1)] s i(2) by simp_all
    then show ?thesis using e by (intro exI [of _ a] exI [of _ b]) (simp only: simp_thms)
  qed
  moreover have "snd (hd (pf_spans (features ! i))) \<le> fst (hd (pf_spans (features ! j)))" if "i < j" "j < length features" for i j
    using ordered_apart [OF spans_ordered that(1)] that nth n by simp
  moreover have "\<exists>g \<in> set features. \<exists>a b. pf_spans g = [(a, b)] \<and> a \<le> k \<and> k < b"
    if k: "k < length text" "word (text ! k)" "\<not> is_space (text ! k)" "\<not> marker_position digit text k" for k
  proof -
    obtain a b where ab: "(a, b) \<in> set ?s" "a \<le> k" "k < b" using word_in_span [of k "text" word digit, OF k] by blast
    from ab(1) obtain i where i: "i < length ?s" "?s ! i = (a, b)" unfolding in_set_conv_nth by blast
    then have "features ! i \<in> set features" using n by simp
    then show ?thesis using nth(1) [OF i(1)] i(2) ab by auto
  qed
  ultimately show ?thesis by blast
qed

text \<open>
  C0: a description is cut without loss.  The candidates are numbered from one; each has one span, whose text it quotes
  exactly, without white space at its ends and with a word character in it; the spans follow one another without
  overlap; and every word character of the description outside of the list markers lies in a candidate.
\<close>

theorem split_keeps_text:
  "let features = fst (split_description digit word text) in
    map pf_id features = map (\<lambda>n. ''P'' @ str_nat n) [1..<Suc (length features)]
    \<and> (\<forall>f \<in> set features. \<exists>a b. pf_spans f = [(a, b)] \<and> a < b \<and> b \<le> length text \<and> pf_text f = slice a b text
         \<and> strip (pf_text f) = pf_text f \<and> list_ex word (pf_text f) \<and> pf_origin f = Split_origin)
    \<and> (\<forall>i j. i < j \<and> j < length features \<longrightarrow> snd (hd (pf_spans (features ! i))) \<le> fst (hd (pf_spans (features ! j))))
    \<and> (\<forall>k < length text. word (text ! k) \<and> \<not> is_space (text ! k) \<and> \<not> marker_position digit text k \<longrightarrow>
         (\<exists>f \<in> set features. \<exists>a b. pf_spans f = [(a, b)] \<and> a \<le> k \<and> k < b))"
  unfolding Let_def by (rule split_features [OF refl])

text \<open>A description of two sentences.\<close>

lemma demo_lines: "keep_lines [97, 59, 98] = [[97, 59, 98]]"
    by (simp add: keep_lines_Cons line_break_def) (simp add: keep_lines.simps)

lemma demo_marker: "after_marker is_ascii_digit [97, 59, 98] = None"
    by (simp add: after_marker_def or_try_def bullet_marker_def number_marker_def bracketed_marker_def cjk_marker_def letter_marker_def
      after_char_def after_digits_def blank_char_def is_ascii_digit_def cjk_numerals_def)

lemma demo_split: "fst (split_description is_ascii_digit latin_letter [97, 59, 98]) =
   [\<lparr>pf_id = ''P1'', pf_text = [97, 59], pf_spans = [(0, 2)], pf_origin = Split_origin\<rparr>,
    \<lparr>pf_id = ''P2'', pf_text = [98], pf_spans = [(2, 3)], pf_origin = Split_origin\<rparr>]"
proof -
  have c: "cut_points [97, 59, 98] 0 3 = [2]"
    by (simp add: cut_points_def cut_after_def hard_end_def english_end_def slice_def is_abbreviation_def upt_rec)
  have p: "line_pieces is_ascii_digit [97, 59, 98] (0, 3) = [(0, 2), (2, 3)]"
    by (simp add: line_pieces_def slice_def demo_marker c)
  have t: "trimmed latin_letter [97, 59, 98] (0, 2) = Some (0, 2)" "trimmed latin_letter [97, 59, 98] (2, 3) = Some (2, 3)"
    by (simp_all add: trimmed_def slice_def lstrip_def rstrip_def is_space_def latin_letter_def)
  have f: "feature_spans_of is_ascii_digit latin_letter [97, 59, 98] = [(0, 2), (2, 3)]"
    by (simp add: feature_spans_of_def demo_lines p [unfolded numeral_3_eq_3] t t [unfolded numeral_3_eq_3] map_filter_simps)
  have "str_nat 1 = ''1''" "str_nat 2 = ''2''" by code_simp+
  then show ?thesis
    by (simp add: split_description_def f split_feature_of_def slice_def upt_rec numeral_2_eq_2)
qed
theorem split_keeps_text_witness:
  "\<exists>f \<in> set (fst (split_description is_ascii_digit latin_letter [97, 59, 98])). \<exists>a b. pf_spans f = [(a, b)] \<and> a \<le> 2 \<and> 2 < b"
proof -
  have "latin_letter ([97, 59, 98] ! 2)" "\<not> is_space ([97, 59, 98] ! 2)" by (simp_all add: latin_letter_def is_space_def)
  moreover have "\<not> marker_position is_ascii_digit [97, 59, 98] 2"
    by (simp add: marker_position_def demo_lines content_start_of_def slice_def demo_marker)
  ultimately show ?thesis using split_keeps_text [of is_ascii_digit latin_letter "[97, 59, 98]"]
    unfolding Let_def by simp
qed

end
