(* ===== verification/ProductQuotes.thy ===== *)
theory ProductQuotes
  imports ProductFeatures ProductSpans Approval FeatureSafety
begin

text \<open>
  What holds of the features of one set: their texts are trimmed, codes and places are distinct, and a feature that a person did not write
  quotes the description of the set at its spans.  Each edit of the rows of one set keeps this.
\<close>

section \<open>Trimmed texts\<close>

definition trim_text :: "ustr \<Rightarrow> bool" where
  "trim_text t \<longleftrightarrow> t \<noteq> [] \<and> \<not> is_space (hd t) \<and> \<not> is_space (last t)"

lemma lstrip_hd: "lstrip s \<noteq> [] \<Longrightarrow> \<not> is_space (hd (lstrip s))"
  by (rule lstrip_head)

lemma strip_trim: "strip s \<noteq> [] \<Longrightarrow> trim_text (strip s)"
proof -
  assume ne: "strip s \<noteq> []"
  then have "rstrip (lstrip s) \<noteq> []" by (simp add: strip_def)
  then have "\<not> is_space (last (strip s))" using rstrip_last unfolding strip_def by blast
  moreover have "lstrip (strip s) = strip s"
  proof -
    have "hd (strip s) = hd (lstrip s)" using ne by (metis hd_append2 rstrip_rest strip_def)
    moreover have "lstrip s \<noteq> []" using ne by (auto simp: strip_def rstrip_def)
    ultimately show ?thesis using lstrip_head [of s] by (intro lstrip_id) simp
  qed
  then have "\<not> is_space (hd (strip s))" using lstrip_head [of "strip s"] ne by simp
  ultimately show ?thesis using ne by (simp add: trim_text_def)
qed

lemma trimmed_strip: "trim_text t \<Longrightarrow> strip t = t"
  by (simp add: trim_text_def strip_def lstrip_id rstrip_id)

lemma trim_join: "ts \<noteq> [] \<Longrightarrow> \<forall>t \<in> set ts. trim_text t \<Longrightarrow> trim_text (join [32] ts)"
proof (induction "[32 :: nat]" ts rule: join.induct)
  case (3 x y xs)
  then have "trim_text (join [32] (y # xs))" "trim_text x" by auto
  then show ?case by (auto simp: trim_text_def)
qed auto

lemma join_append: "xs \<noteq> [] \<Longrightarrow> ys \<noteq> [] \<Longrightarrow> join sep (xs @ ys) = join sep xs @ sep @ join sep ys"
proof (induction sep xs rule: join.induct)
  case (2 sep x)
  then show ?case by (cases ys) simp_all
qed auto

lemma join_concat: "\<forall>xs \<in> set xss. xs \<noteq> [] \<Longrightarrow> join sep (map (join sep) xss) = join sep (concat xss)"
proof (induction xss)
  case (Cons xs xss)
  show ?case
  proof (cases xss)
    case (Cons ys yss)
    have "xs \<noteq> []" "concat xss \<noteq> []" using Cons Cons.prems by auto
    then have "join sep (xs @ concat xss) = join sep xs @ sep @ join sep (concat xss)" by (rule join_append)
    then show ?thesis using Cons.IH Cons.prems by (simp add: Cons)
  qed simp
qed simp

section \<open>Quoting the description\<close>

definition quotes :: "ustr \<Rightarrow> product_row \<Rightarrow> bool" where
  "quotes text f \<longleftrightarrow> trim_text (pt_text f)
     \<and> (pt_origin f = Manual_origin \<longrightarrow> pt_spans f = [])
     \<and> (pt_origin f = Split_origin \<longrightarrow> pt_spans f \<noteq> [] \<and> (\<forall>(a, b) \<in> set (pt_spans f). a < b \<and> b \<le> length text)
          \<and> pt_text f = join [32] (map (\<lambda>(a, b). slice a b text) (pt_spans f)))"

lemma lstrip_trimmed_right: "trim_text t \<Longrightarrow> strip (drop p t) = lstrip (drop p t)"
proof -
  assume t: "trim_text t"
  show ?thesis
  proof (cases "p < length t")
    case True
    then have l: "last (drop p t) = last t" by (simp add: last_drop)
    have e: "drop p t = takeWhile is_space (drop p t) @ lstrip (drop p t)" by (simp add: lstrip_def)
    have ne: "lstrip (drop p t) \<noteq> []"
    proof
      assume "lstrip (drop p t) = []"
      then have "\<forall>c \<in> set (drop p t). is_space c" by (simp add: lstrip_empty_iff)
      moreover have "last (drop p t) \<in> set (drop p t)" using True by (intro last_in_set) simp
      ultimately show False using t l by (simp add: trim_text_def)
    qed
    then have "last (lstrip (drop p t)) = last t" using e l by (metis last_appendR)
    then show ?thesis using t unfolding strip_def by (intro rstrip_id) (simp add: trim_text_def)
  next
    case False
    then show ?thesis by (simp add: strip_def lstrip_def rstrip_def)
  qed
qed

lemma rstrip_trimmed_left: "trim_text t \<Longrightarrow> strip (take p t) = rstrip (take p t)"
proof -
  assume t: "trim_text t"
  have "take p t = [] \<or> \<not> is_space (hd (take p t))" using t by (cases p) (auto simp: trim_text_def hd_take)
  then show ?thesis by (simp add: strip_def lstrip_id)
qed

text \<open>A piece of the description is cut into two exact pieces.\<close>

lemma halves_exact:
  assumes "trim_text t" and t: "t = slice a b text" and ab: "a < b" "b \<le> length text"
    and "strip (take p t) \<noteq> []" and "strip (drop p t) \<noteq> []"
  shows "strip (take p t) = slice a (a + length (rstrip (take p t))) text"
    and "a + length (rstrip (take p t)) \<le> length text" and "0 < length (rstrip (take p t))"
    and "strip (drop p t) = slice (a + p + (length (drop p t) - length (lstrip (drop p t)))) b text"
    and "a + p + (length (drop p t) - length (lstrip (drop p t))) < b"
proof -
  let ?n = "length (rstrip (take p t))"
  let ?k = "length (drop p t) - length (lstrip (drop p t))"
  have len: "length t = b - a" using ab by (simp add: t slice_def)
  have left: "rstrip (take p t) \<noteq> []" and right: "lstrip (drop p t) \<noteq> []"
    using assms(5,6) lstrip_trimmed_right [OF assms(1)] rstrip_trimmed_left [OF assms(1)] by simp_all
  have n: "?n \<le> length (take p t)" using length_dropWhile_le [of is_space "rev (take p t)"] by (simp add: rstrip_def)
  have "strip (take p t) = take ?n (take p t)"
    using rstrip_trimmed_left [OF assms(1)] rstrip_take [of "take p t"] by simp
  moreover have "min ?n p = ?n" using n by auto
  ultimately have "strip (take p t) = take ?n t" unfolding take_take by (simp only:)
  also have "\<dots> = slice a (a + ?n) text"
  proof -
    have "take m t = slice a (a + m) text" if "m \<le> b - a" for m using that by (simp add: t slice_def min_absorb1)
    moreover have "?n \<le> b - a" using n len by simp
    ultimately show ?thesis by blast
  qed
  finally show "strip (take p t) = slice a (a + ?n) text" .
  show "a + ?n \<le> length text" using n len ab by (simp, linarith)
  show "0 < ?n" using left by simp
  have "drop p t \<noteq> []" using right by (auto simp: lstrip_def)
  then have k: "?k < length (drop p t)" using right by (intro diff_less) (simp_all only: length_greater_0_conv not_False_eq_True)
  have "strip (drop p t) = drop ?k (drop p t)"
    using lstrip_trimmed_right [OF assms(1)] lstrip_drop [of "drop p t"] by simp
  also have "\<dots> = slice (a + p + ?k) b text"
    by (simp add: t slice_def drop_take add.commute add.left_commute)
  finally show "strip (drop p t) = slice (a + p + ?k) b text" .
  show "a + p + ?k < b" using k len by simp
qed

section \<open>The rows of one set\<close>

definition rows_ok :: "ustr \<Rightarrow> product_set \<Rightarrow> product_row list \<Rightarrow> bool" where
  "rows_ok text s rows \<longleftrightarrow> distinct (map pt_code rows) \<and> distinct (map pt_order rows)
     \<and> (\<forall>f \<in> set rows. pt_organization f = ps_organization s \<and> pt_case f = ps_case s \<and> 0 \<le> pt_order f \<and> quotes text f)"

lemma max_or_ge: "x \<in> set xs \<Longrightarrow> x \<le> max_or d xs"
  using max_key_ge [of x "hd xs" "tl xs" id] by (cases xs) (simp_all add: max_or_def)

lemma max_or_nonneg: "\<forall>x \<in> set xs. 0 \<le> x \<Longrightarrow> - 1 \<le> max_or (- 1 :: int) xs"
  using max_or_ge [of "hd xs" xs "- 1"] by (cases xs) (auto simp: max_or_def)

lemma code_number_P: "code_number (''P'' @ str_nat n) = Some n"
proof -
  have "str_nat n \<noteq> []" by (simp add: str_nat_def nat_digits.simps [of n])
  moreover have "is_digit_char ch" if d: "ch \<in> set (str_nat n)" for ch
  proof -
    obtain d :: nat where d: "d < 10" "ch = char_of (d + 48)" using nat_digits_chars d unfolding str_nat_def by blast
    then have "(of_char ch :: nat) = d + 48" by (simp add: of_char_of)
    then show ?thesis using d(1) by (simp add: is_digit_char_def less_eq_char_def)
  qed
  ultimately show ?thesis using digits_nat_digits [of n] by (simp add: code_number_def list_all_iff str_nat_def)
qed

lemma next_code_new: "next_code rows \<notin> pt_code ` set rows"
proof
  let ?ns = "List.map_filter (\<lambda>f. code_number (pt_code f)) rows"
  assume "next_code rows \<in> pt_code ` set rows"
  then obtain f where f: "f \<in> set rows" "pt_code f = ''P'' @ str_nat (max_or 0 ?ns + 1)" by (auto simp: next_code_def)
  then have "code_number (pt_code f) = Some (max_or 0 ?ns + 1)" using code_number_P by simp
  then have "max_or 0 ?ns + 1 \<in> set ?ns" using f(1) unfolding span_filter_mem by blast
  from max_or_ge [OF this, of 0] show False by simp
qed

text \<open>Each change of the rows.\<close>

lemma rows_ok_filter: "rows_ok text s rows \<Longrightarrow> rows_ok text s (filter P rows)"
  unfolding rows_ok_def by (auto intro: distinct_filter_map)

lemma rows_ok_append:
  assumes "rows_ok text s rows" and "pt_code f \<notin> pt_code ` set rows" and "pt_order f \<notin> pt_order ` set rows"
    and "pt_organization f = ps_organization s" "pt_case f = ps_case s" "0 \<le> pt_order f" "quotes text f"
  shows "rows_ok text s (rows @ [f])"
  using assms unfolding rows_ok_def by auto

lemma rows_ok_rewrite:
  assumes "rows_ok text s rows" and q: "\<And>f. f \<in> set rows \<Longrightarrow> P f \<Longrightarrow> quotes text (f\<lparr>pt_text := body, pt_spans := spans, pt_origin := origin\<rparr>)"
  shows "rows_ok text s (update_where P (\<lambda>f. f\<lparr>pt_text := body, pt_spans := spans, pt_origin := origin\<rparr>) rows)"
  unfolding rows_ok_def
proof (intro conjI ballI)
  let ?h = "\<lambda>f. f\<lparr>pt_text := body, pt_spans := spans, pt_origin := origin\<rparr>"
  have d: "distinct (map pt_code rows)" "distinct (map pt_order rows)"
    and r: "\<And>f. f \<in> set rows \<Longrightarrow> pt_organization f = ps_organization s \<and> pt_case f = ps_case s \<and> 0 \<le> pt_order f \<and> quotes text f"
    using assms(1) unfolding rows_ok_def by auto
  have m: "map pt_code (update_where P ?h rows) = map pt_code rows" "map pt_order (update_where P ?h rows) = map pt_order rows"
    by (rule map_update_where, simp)+
  from d show "distinct (map pt_code (update_where P ?h rows))" "distinct (map pt_order (update_where P ?h rows))"
    unfolding m by blast+
  fix g
  assume "g \<in> set (update_where P ?h rows)"
  then obtain f where f: "f \<in> set rows" "g = (if P f then ?h f else f)" by (auto simp: update_where_def)
  with r [OF f(1)] q [OF f(1)]
  show "pt_organization g = ps_organization s" "pt_case g = ps_case s" "0 \<le> pt_order g" "quotes text g" by auto
qed

lemma rows_ok_shift:
  assumes "rows_ok text s rows"
  shows "rows_ok text s (update_where (\<lambda>f. order < pt_order f) (\<lambda>f. f\<lparr>pt_order := pt_order f + 1\<rparr>) rows)"
    (is "rows_ok text s ?rows")
    and "order + 1 \<notin> pt_order ` set (update_where (\<lambda>f. order < pt_order f) (\<lambda>f. f\<lparr>pt_order := pt_order f + 1\<rparr>) rows)"
proof -
  let ?h = "\<lambda>n. if order < n then n + 1 else n"
  have "map pt_order ?rows = map ?h (map pt_order rows)" by (auto simp: update_where_def)
  moreover have "inj_on ?h X" for X by (auto simp: inj_on_def split: if_splits)
  ultimately have "distinct (map pt_order ?rows)" using assms unfolding rows_ok_def by (simp only: distinct_map [of ?h])
  moreover have "map pt_code ?rows = map pt_code rows" by (rule map_update_where) simp
  moreover have "quotes text (if order < pt_order f then f\<lparr>pt_order := pt_order f + 1\<rparr> else f) \<longleftrightarrow> quotes text f" for f
    by (simp add: quotes_def)
  ultimately show "rows_ok text s ?rows" using assms unfolding rows_ok_def update_where_def
    by (simp only: simp_thms set_map ball_simps) (simp split: if_splits)
  show "order + 1 \<notin> pt_order ` set ?rows" by (auto simp: update_where_def split: if_splits)
qed

end
