(* ===== verification/ProductSafety.thy ===== *)
theory ProductSafety
  imports ProductQuotes SealedStore "HOL-Library.Multiset"
begin

text \<open>
  The product features as a step relation over the routes: a confirmed set is frozen, every feature that was cut by rule quotes its
  description, and a split or a merge changes its features in place.
\<close>

section \<open>The rows of a set\<close>

definition rows_of :: "string \<Rightarrow> product_db \<Rightarrow> product_row list" where
  "rows_of sid db = filter (\<lambda>f. pt_set f = sid) (pd_features db)"

definition others_of :: "string \<Rightarrow> product_db \<Rightarrow> product_row list" where
  "others_of sid db = filter (\<lambda>f. pt_set f \<noteq> sid) (pd_features db)"

definition own_rows :: "string \<Rightarrow> string \<Rightarrow> product_db \<Rightarrow> bool" where
  "own_rows org sid db \<longleftrightarrow> (\<forall>f \<in> set (rows_of sid db). pt_organization f = org)"

lemma update_of_set:
  assumes "\<forall>f \<in> set (filter (\<lambda>f. pt_set f = sid) xs). pt_organization f = org" and "\<And>f. pt_set (h f) = pt_set f"
  shows "filter (\<lambda>f. pt_set f = sid) (update_where (\<lambda>f. of_set org sid f \<and> P f) h xs)
       = update_where P h (filter (\<lambda>f. pt_set f = sid) xs)"
  using assms(1) by (induction xs) (auto simp: update_where_def of_set_def assms(2))

lemma update_not_of_set:
  assumes "\<And>f. pt_set (h f) = pt_set f"
  shows "filter (\<lambda>f. pt_set f \<noteq> sid) (update_where (\<lambda>f. of_set org sid f \<and> P f) h xs) = filter (\<lambda>f. pt_set f \<noteq> sid) xs"
  by (induction xs) (auto simp: update_where_def of_set_def assms)

lemma filter_of_set:
  assumes "\<forall>f \<in> set (filter (\<lambda>f. pt_set f = sid) xs). pt_organization f = org"
  shows "filter (\<lambda>f. pt_set f = sid) (filter (\<lambda>f. \<not> (of_set org sid f \<and> P f)) xs) = filter (\<lambda>f. \<not> P f) (filter (\<lambda>f. pt_set f = sid) xs)"
  using assms by (induction xs) (auto simp: of_set_def)

lemma rows_of_ops:
  assumes "own_rows org sid db"
  shows "rows_of sid (rewritten org sid code body spans origin db)
      = update_where (\<lambda>f. pt_code f = code) (\<lambda>f. f\<lparr>pt_text := body, pt_spans := spans, pt_origin := origin\<rparr>) (rows_of sid db)"
    and "rows_of sid (shifted org sid order db)
      = update_where (\<lambda>f. order < pt_order f) (\<lambda>f. f\<lparr>pt_order := pt_order f + 1\<rparr>) (rows_of sid db)"
    and "rows_of sid (without_codes org sid codes db) = filter (\<lambda>f. pt_code f \<notin> set codes) (rows_of sid db)"
    and "own_rows org sid (rewritten org sid code body spans origin db)"
proof -
  show r: "rows_of sid (rewritten org sid code body spans origin db)
      = update_where (\<lambda>f. pt_code f = code) (\<lambda>f. f\<lparr>pt_text := body, pt_spans := spans, pt_origin := origin\<rparr>) (rows_of sid db)"
    using assms unfolding rows_of_def own_rows_def rewritten_def by (simp add: update_of_set)
  show "rows_of sid (shifted org sid order db)
      = update_where (\<lambda>f. order < pt_order f) (\<lambda>f. f\<lparr>pt_order := pt_order f + 1\<rparr>) (rows_of sid db)"
    using assms unfolding rows_of_def own_rows_def shifted_def by (simp add: update_of_set)
  show "rows_of sid (without_codes org sid codes db) = filter (\<lambda>f. pt_code f \<notin> set codes) (rows_of sid db)"
    using filter_of_set [of sid "pd_features db" org "\<lambda>f. pt_code f \<in> set codes"] assms
    unfolding rows_of_def own_rows_def without_codes_def by simp
  show "own_rows org sid (rewritten org sid code body spans origin db)"
    using assms unfolding own_rows_def r by (auto simp: update_where_def)
qed

lemma rows_of_inserted: "pt_set f = sid \<Longrightarrow> rows_of sid (inserted_features [f] db) = rows_of sid db @ [f]"
  by (simp add: rows_of_def inserted_features_def)

lemma others_of_ops [simp]:
  "others_of sid (rewritten org sid code body spans origin db) = others_of sid db"
  "others_of sid (shifted org sid order db) = others_of sid db"
  "others_of sid (without_codes org sid codes db) = others_of sid db"
  "pt_set f = sid \<Longrightarrow> others_of sid (inserted_features [f] db) = others_of sid db"
  unfolding others_of_def rewritten_def shifted_def without_codes_def inserted_features_def
  by (simp_all add: update_not_of_set) (auto intro!: filter_cong simp: of_set_def)

lemma tables_of_ops [simp]:
  "pd_sets (rewritten org sid code body spans origin db) = pd_sets db"
  "pd_sets (shifted org sid order db) = pd_sets db"
  "pd_sets (without_codes org sid codes db) = pd_sets db"
  "pd_sets (inserted_features fs db) = pd_sets db"
  "pd_descriptions (rewritten org sid code body spans origin db) = pd_descriptions db"
  "pd_descriptions (shifted org sid order db) = pd_descriptions db"
  "pd_descriptions (without_codes org sid codes db) = pd_descriptions db"
  "pd_descriptions (inserted_features fs db) = pd_descriptions db"
  by (simp_all add: rewritten_def shifted_def without_codes_def inserted_features_def)

section \<open>The invariant\<close>

definition set_ok :: "product_db \<Rightarrow> product_set \<Rightarrow> bool" where
  "set_ok db s \<longleftrightarrow> (\<exists>d \<in> set (pd_descriptions db). pn_id d = ps_description s \<and> pn_case d = ps_case s
       \<and> pn_organization d = ps_organization s \<and> rows_ok (pn_text d) s (rows_of (ps_id s) db))
     \<and> (ps_status s = ''draft'' \<or> ps_status s = ''confirmed'' \<and> rows_of (ps_id s) db \<noteq> [])"

definition well_product :: "product_db \<Rightarrow> bool" where
  "well_product db \<longleftrightarrow> distinct (map ps_id (pd_sets db)) \<and> distinct (map pn_id (pd_descriptions db))
     \<and> (\<forall>f \<in> set (pd_features db). pt_set f \<in> ps_id ` set (pd_sets db)) \<and> (\<forall>s \<in> set (pd_sets db). set_ok db s)"

lemma load_set_Inr:
  assumes "load_set org sid db = Inr (s, rows)"
  shows "s \<in> set (pd_sets db)" "ps_id s = sid" "ps_organization s = org" "rows = set_rows org sid db"
  using assms by (auto simp: load_set_def find_Some_iff split: option.splits)

lemma load_draft_Inr: "load_draft org sid db = Inr (s, rows) \<longleftrightarrow> load_set org sid db = Inr (s, rows) \<and> ps_status s = ''draft''"
  by (auto simp: load_draft_def split: if_splits)

lemma then_read_Inr: "then_read org sid db = Inr (view, db') \<longleftrightarrow> db' = db \<and> load_set org sid db = Inr view"
  by (cases view) (auto simp: then_read_def)

lemma same_set: "well_product db \<Longrightarrow> s \<in> set (pd_sets db) \<Longrightarrow> t \<in> set (pd_sets db) \<Longrightarrow> ps_id s = ps_id t \<Longrightarrow> s = t"
  unfolding well_product_def distinct_map inj_on_def by blast

lemma set_described:
  assumes "well_product db" and "s \<in> set (pd_sets db)"
  obtains d where "d \<in> set (pd_descriptions db)" "pn_id d = ps_description s" "pn_case d = ps_case s"
    "pn_organization d = ps_organization s" "rows_ok (pn_text d) s (rows_of (ps_id s) db)"
  using assms unfolding well_product_def set_ok_def by blast

lemma own_set: "well_product db \<Longrightarrow> s \<in> set (pd_sets db) \<Longrightarrow> own_rows (ps_organization s) (ps_id s) db"
  by (erule set_described) (auto simp: own_rows_def rows_ok_def)

lemma set_rows_own: "own_rows org sid db \<Longrightarrow> set_rows org sid db = sort_key (\<lambda>f. (pt_order f, pt_code f)) (rows_of sid db)"
proof -
  assume "own_rows org sid db"
  then have "filter (of_set org sid) (pd_features db) = rows_of sid db"
    unfolding own_rows_def rows_of_def by (intro filter_cong) (auto simp: of_set_def)
  then show ?thesis by (simp add: set_rows_def)
qed

text \<open>Everything outside of one set is left alone.\<close>

definition touches :: "string \<Rightarrow> product_db \<Rightarrow> product_db \<Rightarrow> bool" where
  "touches sid db db' \<longleftrightarrow> filter (\<lambda>s. ps_id s \<noteq> sid) (pd_sets db') = filter (\<lambda>s. ps_id s \<noteq> sid) (pd_sets db)
     \<and> others_of sid db' = others_of sid db"

definition product_edits :: "product_db \<Rightarrow> product_db \<Rightarrow> bool" where
  "product_edits db db' \<longleftrightarrow> well_product db'
     \<and> (\<exists>sid. touches sid db db' \<and> (\<forall>s \<in> set (pd_sets db). ps_id s = sid \<longrightarrow> ps_status s = ''draft''))"

lemma rows_elsewhere: "others_of sid db' = others_of sid db \<Longrightarrow> t \<noteq> sid \<Longrightarrow> rows_of t db' = rows_of t db"
proof -
  assume o: "others_of sid db' = others_of sid db" and "t \<noteq> sid"
  then have "rows_of t db = filter (\<lambda>f. pt_set f = t) (others_of sid db)" for db
    unfolding rows_of_def others_of_def by (auto simp: filter_filter intro!: filter_cong)
  then show ?thesis by (simp add: o)
qed

text \<open>An edit of the rows of a draft.\<close>

lemma edits_rows:
  assumes w: "well_product db" and l: "load_draft org sid db = Inr (s, rows)" and t: "pd_sets db' = pd_sets db"
    "pd_descriptions db' = pd_descriptions db" and o: "others_of sid db' = others_of sid db"
    and r: "\<And>tx. rows_ok tx s (rows_of sid db) \<Longrightarrow> rows_ok tx s (rows_of sid db')"
  shows "product_edits db db'"
proof -
  have s: "s \<in> set (pd_sets db)" "ps_id s = sid" "ps_status s = ''draft''"
    using l load_set_Inr unfolding load_draft_Inr by blast+
  have only: "t = s" if "t \<in> set (pd_sets db)" "ps_id t = sid" for t
    using same_set [OF w that(1) s(1)] that(2) s(2) by simp
  have "set_ok db' t" if t': "t \<in> set (pd_sets db)" for t
  proof (cases "ps_id t = sid")
    case True
    then have "t = s" using only [OF t'] by simp
    moreover obtain d where "d \<in> set (pd_descriptions db)" "pn_id d = ps_description s" "pn_case d = ps_case s"
        "pn_organization d = ps_organization s" "rows_ok (pn_text d) s (rows_of (ps_id s) db)"
      using set_described [OF w s(1)] .
    ultimately show ?thesis using s r unfolding set_ok_def t by metis
  next
    case False
    then have "rows_of (ps_id t) db' = rows_of (ps_id t) db" using rows_elsewhere [OF o] by blast
    moreover have "set_ok db t" using w t' unfolding well_product_def by blast
    ultimately show ?thesis unfolding set_ok_def t by simp
  qed
  moreover have "pt_set f \<in> ps_id ` set (pd_sets db)" if f: "f \<in> set (pd_features db')" for f
  proof (cases "pt_set f = sid")
    case True
    then show ?thesis using s by force
  next
    case False
    then have "f \<in> set (others_of sid db)" using f unfolding o [symmetric] by (simp add: others_of_def)
    then show ?thesis using w unfolding well_product_def others_of_def by auto
  qed
  ultimately have "well_product db'" using w unfolding well_product_def t by blast
  moreover have "touches sid db db'" using o t by (simp add: touches_def)
  moreover have "\<forall>t \<in> set (pd_sets db). ps_id t = sid \<longrightarrow> ps_status t = ''draft''" using only s(3) by blast
  ultimately show ?thesis unfolding product_edits_def by blast
qed

section \<open>Every edit\<close>

lemma draft_rows:
  assumes "well_product db" and "load_draft org sid db = Inr (s, rows)"
  shows "own_rows org sid db" and "set rows = set (rows_of sid db)"
proof -
  have s: "s \<in> set (pd_sets db)" "ps_id s = sid" "ps_organization s = org" "rows = set_rows org sid db"
    using assms(2) load_set_Inr unfolding load_draft_Inr by blast+
  then show o: "own_rows org sid db" using own_set [OF assms(1) s(1)] by simp
  show "set rows = set (rows_of sid db)" using s(4) set_rows_own [OF o] by simp
qed

lemma coded_row_Inr: "coded_row code rows = Inr f \<Longrightarrow> f \<in> set rows \<and> pt_code f = code"
  by (auto simp: coded_row_def find_Some_iff split: option.splits)

lemma same_code: "rows_ok tx s rows \<Longrightarrow> f \<in> set rows \<Longrightarrow> g \<in> set rows \<Longrightarrow> pt_code f = pt_code g \<Longrightarrow> f = g"
  unfolding rows_ok_def distinct_map inj_on_def by blast

lemma ok_quotes: "rows_ok tx s rows \<Longrightarrow> f \<in> set rows \<Longrightarrow> quotes tx f"
  unfolding rows_ok_def by blast

lemma edit_edits:
  assumes w: "well_product db" and e: "edit_product_feature org sid code new_text db = Inr (view, db')"
  shows "product_edits db db'"
proof -
  obtain s rows f where l: "load_draft org sid db = Inr (s, rows)" and c: "coded_row code rows = Inr f"
    and b: "strip new_text \<noteq> []"
    and db': "db' = rewritten org sid code (strip new_text) (pt_spans f)
       (if strip new_text = pt_text f then pt_origin f
        else if pt_origin f = Manual_origin then Manual_origin else Edited_origin) db"
    using e by (auto simp: edit_product_feature_def Let_def then_read_Inr split: if_splits)
  note r = draft_rows [OF w l]
  note f = coded_row_Inr [OF c, unfolded r(2)]
  let ?o = "if strip new_text = pt_text f then pt_origin f
        else if pt_origin f = Manual_origin then Manual_origin else Edited_origin"
  show ?thesis
  proof (rule edits_rows [OF w l])
    fix tx
    assume ok: "rows_ok tx s (rows_of sid db)"
    have "quotes tx f" using ok_quotes [OF ok] f by blast
    then have "quotes tx (f\<lparr>pt_text := strip new_text, pt_spans := pt_spans f, pt_origin := ?o\<rparr>)"
      using strip_trim [OF b] by (auto simp: quotes_def)
    then have "rows_ok tx s (update_where (\<lambda>g. pt_code g = code)
        (\<lambda>g. g\<lparr>pt_text := strip new_text, pt_spans := pt_spans f, pt_origin := ?o\<rparr>) (rows_of sid db))"
      using same_code [OF ok] f by (intro rows_ok_rewrite [OF ok]) metis
    then show "rows_ok tx s (rows_of sid db')" unfolding db' rows_of_ops(1) [OF r(1)] .
  qed (simp_all add: db')
qed

lemma add_product_edits:
  assumes w: "well_product db" and e: "add_product_feature fresh org sid tx0 db = Inr (view, db')"
  shows "product_edits db db'"
proof -
  obtain s rows where l: "load_draft org sid db = Inr (s, rows)" and b: "strip tx0 \<noteq> []"
    and db': "db' = inserted_features
       [\<lparr>pt_id = fresh, pt_organization = org, pt_case = ps_case s, pt_set = sid, pt_code = next_code rows, pt_text = strip tx0,
         pt_spans = [], pt_origin = Manual_origin, pt_order = max_or (-1) (map pt_order rows) + 1\<rparr>] db"
    using e by (auto simp: add_product_feature_def Let_def then_read_Inr split: if_splits)
  note r = draft_rows [OF w l]
  have org: "ps_organization s = org" using l load_set_Inr unfolding load_draft_Inr by blast
  show ?thesis
  proof (rule edits_rows [OF w l])
    fix tx
    assume ok: "rows_ok tx s (rows_of sid db)"
    have "max_or (-1) (map pt_order rows) + 1 \<notin> pt_order ` set rows" using max_or_ge [of _ "map pt_order rows" "-1"] by force
    moreover have "0 \<le> max_or (-1) (map pt_order rows) + 1"
      using max_or_nonneg [of "map pt_order rows"] ok r(2) unfolding rows_ok_def by force
    ultimately have "rows_ok tx s (rows_of sid db @ [\<lparr>pt_id = fresh, pt_organization = org, pt_case = ps_case s, pt_set = sid,
         pt_code = next_code rows, pt_text = strip tx0, pt_spans = [], pt_origin = Manual_origin,
         pt_order = max_or (-1) (map pt_order rows) + 1\<rparr>])"
      using next_code_new [of rows] strip_trim [OF b] org r(2) by (intro rows_ok_append [OF ok]) (simp_all add: quotes_def)
    then show "rows_ok tx s (rows_of sid db')" unfolding db' by (simp add: rows_of_inserted)
  qed (simp_all add: db')
qed

lemma delete_product_edits:
  assumes w: "well_product db" and e: "delete_product_feature org sid code db = Inr (view, db')"
  shows "product_edits db db'"
proof -
  obtain s rows where l: "load_draft org sid db = Inr (s, rows)" and db': "db' = without_codes org sid [code] db"
    using e by (auto simp: delete_product_feature_def then_read_Inr)
  show ?thesis
    by (rule edits_rows [OF w l]) (simp_all add: db' rows_of_ops(3) [OF draft_rows(1) [OF w l]] rows_ok_filter)
qed

lemma split_quotes:
  assumes q: "quotes tx f" and n: "strip (take pos (pt_text f)) \<noteq> []" "strip (drop pos (pt_text f)) \<noteq> []"
    and p: "split_spans pos f = (ls, rs, og)"
  shows "quotes tx (f\<lparr>pt_text := strip (take pos (pt_text f)), pt_spans := ls, pt_origin := og\<rparr>)"
    and "quotes tx (g\<lparr>pt_text := strip (drop pos (pt_text f)), pt_spans := rs, pt_origin := og\<rparr>)"
proof -
  have t: "trim_text (pt_text f)" using q by (simp add: quotes_def)
  have "quotes tx (f\<lparr>pt_text := strip (take pos (pt_text f)), pt_spans := ls, pt_origin := og\<rparr>)
    \<and> quotes tx (g\<lparr>pt_text := strip (drop pos (pt_text f)), pt_spans := rs, pt_origin := og\<rparr>)"
  proof (cases "pt_origin f = Split_origin \<and> length (pt_spans f) = 1")
    case True
    then obtain ab where "pt_spans f = [ab]" by (cases "pt_spans f") auto
    moreover obtain a b where "ab = (a, b)" by fastforce
    ultimately have sp: "pt_spans f = [(a, b)]" by simp
    have e: "pt_text f = slice a b tx" "a < b" "b \<le> length tx" using q True sp by (auto simp: quotes_def)
    note h = halves_exact [OF t e n]
    have "ls = [(a, a + length (rstrip (take pos (pt_text f))))]" "og = Split_origin"
      "rs = [(a + pos + (length (drop pos (pt_text f)) - length (lstrip (drop pos (pt_text f)))), b)]"
      using p True sp by (auto simp: split_spans_def Let_def)
    then show ?thesis using h strip_trim [OF n(1)] strip_trim [OF n(2)] e by (simp add: quotes_def)
  next
    case False
    then have "ls = pt_spans f" "rs = []" "og = (if pt_origin f \<noteq> Manual_origin then Edited_origin else Manual_origin)"
      using p by (auto simp: split_spans_def)
    then show ?thesis using q strip_trim [OF n(1)] strip_trim [OF n(2)] by (auto simp: quotes_def)
  qed
  then show "quotes tx (f\<lparr>pt_text := strip (take pos (pt_text f)), pt_spans := ls, pt_origin := og\<rparr>)"
    and "quotes tx (g\<lparr>pt_text := strip (drop pos (pt_text f)), pt_spans := rs, pt_origin := og\<rparr>)" by blast+
qed

text \<open>The right half of a feature that is split.\<close>

definition right_half :: "string \<Rightarrow> product_set \<Rightarrow> product_row list \<Rightarrow> nat \<Rightarrow> product_row \<Rightarrow> product_row" where
  "right_half fresh s rows pos f =
     \<lparr>pt_id = fresh, pt_organization = ps_organization s, pt_case = ps_case s, pt_set = ps_id s, pt_code = next_code rows,
      pt_text = strip (drop pos (pt_text f)), pt_spans = fst (snd (split_spans pos f)),
      pt_origin = snd (snd (split_spans pos f)), pt_order = pt_order f + 1\<rparr>"

lemma split_Inr:
  assumes "split_product_feature fresh org sid code pos db = Inr (view, db')"
  obtains s rows f where "load_draft org sid db = Inr (s, rows)" "coded_row code rows = Inr f"
    "strip (take pos (pt_text f)) \<noteq> []" "strip (drop pos (pt_text f)) \<noteq> []"
    "db' = inserted_features [right_half fresh s rows pos f] (shifted org sid (pt_order f)
       (rewritten org sid code (strip (take pos (pt_text f))) (fst (split_spans pos f)) (snd (snd (split_spans pos f))) db))"
    "load_set org sid db' = Inr view"
proof -
  obtain s rows f where l: "load_draft org sid db = Inr (s, rows)" "coded_row code rows = Inr f"
    using assms unfolding split_product_feature_def by auto
  moreover have "ps_id s = sid" "ps_organization s = org" using l(1) load_set_Inr unfolding load_draft_Inr by blast+
  ultimately show thesis using assms that
    by (auto simp: split_product_feature_def then_read_Inr right_half_def Let_def case_prod_beta split: if_splits)
qed

definition rows_after_split where
  "rows_after_split fresh s rows pos f rs =
     update_where (\<lambda>g. pt_order f < pt_order g) (\<lambda>g. g\<lparr>pt_order := pt_order g + 1\<rparr>)
       (update_where (\<lambda>g. pt_code g = pt_code f)
         (\<lambda>g. g\<lparr>pt_text := strip (take pos (pt_text f)), pt_spans := fst (split_spans pos f),
           pt_origin := snd (snd (split_spans pos f))\<rparr>) rs) @ [right_half fresh s rows pos f]"

lemma split_rows:
  assumes w: "well_product db" and l: "load_draft org sid db = Inr (s, rows)" and "pt_code f = code"
    and "db' = inserted_features [right_half fresh s rows pos f] (shifted org sid (pt_order f)
       (rewritten org sid code (strip (take pos (pt_text f))) (fst (split_spans pos f)) (snd (snd (split_spans pos f))) db))"
  shows "rows_of sid db' = rows_after_split fresh s rows pos f (rows_of sid db)"
proof -
  have "pt_set (right_half fresh s rows pos f) = sid"
    using l load_set_Inr unfolding load_draft_Inr by (auto simp: right_half_def)
  then show ?thesis using draft_rows(1) [OF w l] assms(3,4)
    by (simp add: rows_after_split_def rows_of_inserted rows_of_ops)
qed

lemma split_ok:
  assumes ok: "rows_ok tx s rs" and "set rows = set rs" and f: "f \<in> set rs"
    and n: "strip (take pos (pt_text f)) \<noteq> []" "strip (drop pos (pt_text f)) \<noteq> []"
  shows "rows_ok tx s (rows_after_split fresh s rows pos f rs)"
proof -
  obtain ls rt og where p: "split_spans pos f = (ls, rt, og)" by (metis prod_cases3)
  note q = split_quotes [OF ok_quotes [OF ok f] n p]
  let ?r1 = "update_where (\<lambda>g. pt_code g = pt_code f)
      (\<lambda>g. g\<lparr>pt_text := strip (take pos (pt_text f)), pt_spans := ls, pt_origin := og\<rparr>) rs"
  let ?r2 = "update_where (\<lambda>g. pt_order f < pt_order g) (\<lambda>g. g\<lparr>pt_order := pt_order g + 1\<rparr>) ?r1"
  have r1: "rows_ok tx s ?r1" by (rule rows_ok_rewrite [OF ok]) (use same_code [OF ok _ f] q(1) in metis)
  have "map pt_code ?r2 = map pt_code rs" by (simp add: map_update_where)
  then have "pt_code ` set ?r2 = pt_code ` set rs" by (metis list.set_map)
  then have "next_code rows \<notin> pt_code ` set ?r2" using next_code_new [of rows] assms(2) by simp
  moreover have "0 \<le> pt_order f" using ok f unfolding rows_ok_def by blast
  moreover have "quotes tx (right_half fresh s rows pos f)"
    using q(2) [of "right_half fresh s rows pos f"] by (simp add: right_half_def p)
  ultimately have "rows_ok tx s (?r2 @ [right_half fresh s rows pos f])"
    using rows_ok_shift(2) [OF r1, of "pt_order f"]
    by (intro rows_ok_append [OF rows_ok_shift(1) [OF r1]]) (simp_all add: right_half_def)
  then show ?thesis by (simp add: rows_after_split_def p)
qed

lemma product_split_edits:
  assumes w: "well_product db" and e: "split_product_feature fresh org sid code pos db = Inr (view, db')"
  shows "product_edits db db'"
proof (rule split_Inr [OF e])
  fix s rows f
  assume l: "load_draft org sid db = Inr (s, rows)" and c: "coded_row code rows = Inr f"
    and n: "strip (take pos (pt_text f)) \<noteq> []" "strip (drop pos (pt_text f)) \<noteq> []"
    and db': "db' = inserted_features [right_half fresh s rows pos f] (shifted org sid (pt_order f)
       (rewritten org sid code (strip (take pos (pt_text f))) (fst (split_spans pos f)) (snd (snd (split_spans pos f))) db))"
  note f = coded_row_Inr [OF c, unfolded draft_rows(2) [OF w l]]
  have sid: "ps_id s = sid" using l load_set_Inr unfolding load_draft_Inr by blast
  show ?thesis
  proof (rule edits_rows [OF w l])
    fix tx
    assume ok: "rows_ok tx s (rows_of sid db)"
    show "rows_ok tx s (rows_of sid db')" unfolding split_rows [OF w l conjunct2 [OF f] db']
      by (rule split_ok [OF ok draft_rows(2) [OF w l] conjunct1 [OF f] n])
  qed (simp_all add: db' right_half_def sid)
qed

lemma merge_quotes:
  assumes ne: "chosen \<noteq> []" and q: "\<forall>f \<in> set chosen. quotes tx f"
  shows "quotes tx (g\<lparr>pt_text := join [32] (map pt_text chosen), pt_spans := concat (map pt_spans chosen),
     pt_origin := if list_all (\<lambda>f. pt_origin f = Split_origin) chosen then Split_origin else Edited_origin\<rparr>)"
proof -
  have t: "trim_text (join [32] (map pt_text chosen))" using ne q by (intro trim_join) (auto simp: quotes_def)
  show ?thesis
  proof (cases "list_all (\<lambda>f. pt_origin f = Split_origin) chosen")
    case True
    let ?cuts = "\<lambda>f. map (\<lambda>(a, b). slice a b tx) (pt_spans f)"
    have each: "pt_spans f \<noteq> [] \<and> (\<forall>(a, b) \<in> set (pt_spans f). a < b \<and> b \<le> length tx) \<and> pt_text f = join [32] (?cuts f)"
      if "f \<in> set chosen" for f
      using q True that unfolding quotes_def list_all_iff by blast
    have "map pt_text chosen = map (join [32]) (map ?cuts chosen)" using each by simp
    then have "join [32] (map pt_text chosen) = join [32] (concat (map ?cuts chosen))"
      using each by (simp only: join_concat [of "map ?cuts chosen"] set_map ball_simps) (subst join_concat, auto)
    moreover have "concat (map ?cuts chosen) = map (\<lambda>(a, b). slice a b tx) (concat (map pt_spans chosen))"
      by (induction chosen) auto
    moreover have "concat (map pt_spans chosen) \<noteq> []" using ne each by (cases chosen) auto
    moreover have "\<forall>(a, b) \<in> set (concat (map pt_spans chosen)). a < b \<and> b \<le> length tx" using each by fastforce
    ultimately show ?thesis using t True by (simp add: quotes_def)
  next
    case False
    then show ?thesis using t by (simp add: quotes_def)
  qed
qed

lemma merge_Inr:
  assumes "merge_product_features org sid codes db = Inr (view, db')"
  obtains s rows chosen where "load_draft org sid db = Inr (s, rows)" "2 \<le> length chosen" "set chosen \<subseteq> set rows"
    "pt_code ` set chosen = set codes" "distinct (map pt_code chosen)" "sorted (map pt_order chosen)"
    "db' = without_codes org sid (map pt_code (tl chosen)) (rewritten org sid (pt_code (hd chosen)) (join [32] (map pt_text chosen))
       (concat (map pt_spans chosen)) (if list_all (\<lambda>f. pt_origin f = Split_origin) chosen then Split_origin else Edited_origin) db)"
    "load_set org sid db' = Inr view"
proof -
  obtain s rows found where l: "load_draft org sid db = Inr (s, rows)" "\<not> count_set codes < 2"
      "map_result (\<lambda>c. coded_row c rows) (remdups codes) = Inr found"
    and r: "then_read org sid (without_codes org sid (map pt_code (tl (sort_key pt_order found)))
       (rewritten org sid (pt_code (hd (sort_key pt_order found))) (join [32] (map pt_text (sort_key pt_order found)))
       (concat (map pt_spans (sort_key pt_order found)))
       (if list_all (\<lambda>f. pt_origin f = Split_origin) (sort_key pt_order found) then Split_origin else Edited_origin) db)) = Inr (view, db')"
    using assms by (auto simp: merge_product_features_def Let_def split: if_splits)
  have m: "map pt_code found = remdups codes \<and> set found \<subseteq> set rows" if "map_result (\<lambda>c. coded_row c rows) cs = Inr found" "cs = remdups codes" for cs
  proof -
    have "map_result (\<lambda>c. coded_row c rows) cs = Inr fs \<Longrightarrow> map pt_code fs = cs \<and> set fs \<subseteq> set rows" for cs fs
      by (induction cs arbitrary: fs) (auto dest: coded_row_Inr)
    with that show ?thesis by blast
  qed
  have m: "map pt_code found = remdups codes" "set found \<subseteq> set rows" using m [OF l(3) refl] by blast+
  let ?ch = "sort_key pt_order found"
  have "length ?ch = count_set codes" using arg_cong [OF m(1), of length] by (simp add: count_set_def)
  then have "2 \<le> length ?ch" using l(2) by simp
  moreover have "pt_code ` set ?ch = set codes" using arg_cong [OF m(1), of set] by simp
  moreover have "mset (map pt_code ?ch) = mset (map pt_code found)" by simp
  then have "distinct (map pt_code ?ch)" unfolding m(1) by (metis distinct_remdups mset_eq_imp_distinct_iff)
  moreover have "set ?ch \<subseteq> set rows" using m(2) by simp
  ultimately show thesis using conjunct2 [OF r [unfolded then_read_Inr]] conjunct1 [OF r [unfolded then_read_Inr]]
    by (intro that [OF l(1), of ?ch]) (assumption | simp)+
qed

definition rows_after_merge :: "product_row list \<Rightarrow> product_row list \<Rightarrow> product_row list" where
  "rows_after_merge chosen rs =
     filter (\<lambda>f. pt_code f \<notin> pt_code ` set (tl chosen))
       (update_where (\<lambda>f. pt_code f = pt_code (hd chosen))
         (\<lambda>f. f\<lparr>pt_text := join [32] (map pt_text chosen), pt_spans := concat (map pt_spans chosen),
           pt_origin := if list_all (\<lambda>f. pt_origin f = Split_origin) chosen then Split_origin else Edited_origin\<rparr>) rs)"

lemma merge_rows:
  assumes "well_product db" and "load_draft org sid db = Inr (s, rows)"
    and "db' = without_codes org sid (map pt_code (tl chosen)) (rewritten org sid (pt_code (hd chosen)) (join [32] (map pt_text chosen))
       (concat (map pt_spans chosen)) (if list_all (\<lambda>f. pt_origin f = Split_origin) chosen then Split_origin else Edited_origin) db)"
  shows "rows_of sid db' = rows_after_merge chosen (rows_of sid db)"
  unfolding assms(3) rows_after_merge_def
  using draft_rows(1) [OF assms(1,2)] by (simp only: rows_of_ops set_map)

lemma merge_ok:
  assumes ok: "rows_ok tx s rs" and "chosen \<noteq> []" and "set chosen \<subseteq> set rs"
  shows "rows_ok tx s (rows_after_merge chosen rs)"
  unfolding rows_after_merge_def
proof (intro rows_ok_filter rows_ok_rewrite [OF ok] merge_quotes assms(2))
  show "\<forall>f \<in> set chosen. quotes tx f" using ok_quotes [OF ok] assms(3) by blast
qed

lemma product_merge_edits:
  assumes w: "well_product db" and e: "merge_product_features org sid codes db = Inr (view, db')"
  shows "product_edits db db'"
proof (rule merge_Inr [OF e])
  fix s rows chosen
  assume l: "load_draft org sid db = Inr (s, rows)" and c: "2 \<le> length chosen" "set chosen \<subseteq> set rows"
    and db': "db' = without_codes org sid (map pt_code (tl chosen)) (rewritten org sid (pt_code (hd chosen)) (join [32] (map pt_text chosen))
       (concat (map pt_spans chosen)) (if list_all (\<lambda>f. pt_origin f = Split_origin) chosen then Split_origin else Edited_origin) db)"
  have ne: "chosen \<noteq> []" using c(1) by auto
  show ?thesis
  proof (rule edits_rows [OF w l])
    show "rows_ok tx s (rows_of sid db')" if ok: "rows_ok tx s (rows_of sid db)" for tx
      unfolding merge_rows [OF w l db'] by (rule merge_ok [OF ok ne]) (use c(2) draft_rows(2) [OF w l] in blast)
  qed (simp_all only: db' others_of_ops tables_of_ops)
qed

section \<open>New sets and confirmation\<close>

lemma opened_edits:
  assumes w: "well_product db" and new: "sid \<notin> ps_id ` set (pd_sets db)" and s: "ps_id s = sid" "ps_status s = ''draft''"
    and d: "d \<in> set (pd_descriptions db)" "pn_id d = ps_description s" "pn_case d = ps_case s" "pn_organization d = ps_organization s"
    and rows: "rows_ok (pn_text d) s rows" "\<forall>f \<in> set rows. pt_set f = sid"
  shows "product_edits db (inserted_features rows (db\<lparr>pd_sets := pd_sets db @ [s]\<rparr>))"
proof -
  let ?db = "inserted_features rows (db\<lparr>pd_sets := pd_sets db @ [s]\<rparr>)"
  have none: "rows_of sid db = []" using w new unfolding well_product_def rows_of_def by (auto simp: filter_empty_conv)
  have own: "rows_of sid ?db = rows" using none rows(2) by (auto simp: rows_of_def inserted_features_def intro: filter_True)
  have others: "others_of sid ?db = others_of sid db"
    using rows(2) by (simp add: others_of_def inserted_features_def)
  have "set_ok ?db s" using d rows(1) s(2) unfolding set_ok_def s(1) own by (auto simp: inserted_features_def)
  moreover have "set_ok ?db t" if t: "t \<in> set (pd_sets db)" for t
  proof -
    have "ps_id t \<noteq> sid" using new t by auto
    from rows_elsewhere [OF others this] have r: "rows_of (ps_id t) ?db = rows_of (ps_id t) db" .
    have p: "pd_descriptions ?db = pd_descriptions db" by (simp add: inserted_features_def)
    have "set_ok db t" using w t unfolding well_product_def by blast
    then show ?thesis unfolding set_ok_def r p .
  qed
  ultimately have "well_product ?db" using w new s(1) rows(2) unfolding well_product_def
    by (auto simp: inserted_features_def)
  moreover have "touches sid db ?db" using others s(1) by (simp add: touches_def inserted_features_def)
  moreover have "\<forall>t \<in> set (pd_sets db). ps_id t = sid \<longrightarrow> ps_status t = ''draft''" using new by auto
  ultimately show ?thesis unfolding product_edits_def by blast
qed

lemma candidates_ok:
  assumes "features = fst (split_description digit word tx)" and "ps_organization s = org" "ps_case s = c"
  shows "rows_ok tx s (map (candidate_feature fresh org c sid) (enumerate 0 features))"
proof -
  note sf = split_features [OF assms(1)]
  let ?rows = "map (candidate_feature fresh org c sid) (enumerate 0 features)"
  have "map pt_code ?rows = map pf_id features"
    by (rule nth_equalityI; simp add: candidate_feature_def enumerate_eq_zip case_prod_beta)
  moreover have "map pf_id features = map (\<lambda>n. ''P'' @ str_nat n) [1..<Suc (length features)]" using sf by blast
  moreover have "inj (\<lambda>n. ''P'' @ str_nat n)" by (auto simp: inj_def dest: str_nat_inj)
  ultimately have codes: "distinct (map pt_code ?rows)"
    by (simp del: upt_Suc add: distinct_map) (metis (mono_tags) inj_on_subset subset_UNIV)
  have "map pt_order ?rows = map int [0..<length features]"
    by (rule nth_equalityI; simp add: candidate_feature_def enumerate_eq_zip case_prod_beta)
  then have orders: "distinct (map pt_order ?rows)" by (simp add: distinct_map)
  have "pt_organization g = ps_organization s \<and> pt_case g = ps_case s \<and> 0 \<le> pt_order g \<and> quotes tx g" if g: "g \<in> set ?rows" for g
  proof -
    obtain i f where f: "g = candidate_feature fresh org c sid (i, f)" "f \<in> set features"
      using g by (auto simp: enumerate_eq_zip dest: set_zip_rightD)
    then obtain a b where ab: "pf_spans f = [(a, b)]" "a < b" "b \<le> length tx" "pf_text f = slice a b tx"
        "strip (pf_text f) = pf_text f" "list_ex word (pf_text f)"
      using sf by blast
    then have "strip (pf_text f) \<noteq> []" by auto
    then have "trim_text (pf_text f)" using strip_trim [of "pf_text f"] ab(5) by simp
    then show ?thesis using f ab assms by (simp add: candidate_feature_def quotes_def)
  qed
  with codes orders show ?thesis unfolding rows_ok_def by blast
qed

lemma create_edits:
  assumes w: "well_product db" and e: "create_product_draft digit word fresh org c description actor db = Inr (r, db')"
    and new: "fresh 0 \<notin> ps_id ` set (pd_sets db)"
  shows "product_edits db db'"
proof -
  obtain d where d: "d \<in> set (pd_descriptions db)" "pn_id d = description" "pn_case d = c" "pn_organization d = org"
    and db': "db' = inserted_features (map (candidate_feature fresh org c (fresh 0)) (enumerate 0 (fst (split_description digit word (pn_text d)))))
      (inserted_set (fresh 0) org c description actor None db)"
    using e by (auto simp: create_product_draft_def then_read_Inr Let_def case_prod_beta find_Some_iff split: option.splits)
      (metis nth_mem)
  let ?s = "draft_set (fresh 0) org c description (next_set c db) None actor"
  let ?rows = "map (candidate_feature fresh org c (fresh 0)) (enumerate 0 (fst (split_description digit word (pn_text d))))"
  have "rows_ok (pn_text d) ?s ?rows" by (rule candidates_ok [OF refl]) (simp_all add: draft_set_def)
  moreover have "\<forall>f \<in> set ?rows. pt_set f = fresh 0" by (auto simp: candidate_feature_def)
  ultimately show ?thesis unfolding db' inserted_set_def
    using d by (intro opened_edits [OF w new]) (simp_all add: draft_set_def)
qed

lemma product_revise_edits:
  assumes w: "well_product db" and e: "revise_set fresh org sid actor db = Inr (r, db')"
    and new: "fresh 0 \<notin> ps_id ` set (pd_sets db)"
  shows "product_edits db db'"
proof -
  obtain t rows where l: "load_set org sid db = Inr (t, rows)"
    and db': "db' = inserted_features (map (copied_row fresh org (ps_case t) (fresh 0)) (enumerate 0 rows))
      (inserted_set (fresh 0) org (ps_case t) (ps_description t) actor (Some sid) db)"
    using e by (auto simp: revise_set_def then_read_Inr split: if_splits)
  note t = load_set_Inr [OF l]
  obtain d where d: "d \<in> set (pd_descriptions db)" "pn_id d = ps_description t" "pn_case d = ps_case t"
      "pn_organization d = ps_organization t" "rows_ok (pn_text d) t (rows_of (ps_id t) db)"
    using set_described [OF w t(1)] .
  have "own_rows org sid db" using own_set [OF w t(1)] t by simp
  then have rows: "rows = sort_key (\<lambda>f. (pt_order f, pt_code f)) (rows_of sid db)" using set_rows_own t(4) by simp
  then have p: "mset rows = mset (rows_of sid db)" by simp
  then have m: "mset (map pt_code rows) = mset (map pt_code (rows_of sid db))" "mset (map pt_order rows) = mset (map pt_order (rows_of sid db))"
    by simp_all
  let ?s = "draft_set (fresh 0) org (ps_case t) (ps_description t) (next_set (ps_case t) db) (Some sid) actor"
  let ?rows = "map (copied_row fresh org (ps_case t) (fresh 0)) (enumerate 0 rows)"
  have "map pt_code ?rows = map pt_code rows" "map pt_order ?rows = map pt_order rows"
    by (rule nth_equalityI; simp add: copied_row_def enumerate_eq_zip case_prod_beta)+
  moreover have "distinct (map pt_code rows)" "distinct (map pt_order rows)"
    using d(5) unfolding t(2) rows_ok_def using m by (metis mset_eq_imp_distinct_iff)+
  moreover have "pt_organization g = org \<and> pt_case g = ps_case t \<and> 0 \<le> pt_order g \<and> quotes (pn_text d) g" if g: "g \<in> set ?rows" for g
  proof -
    obtain i f where f: "g = copied_row fresh org (ps_case t) (fresh 0) (i, f)" "f \<in> set rows"
      using g by (auto simp: enumerate_eq_zip dest: set_zip_rightD)
    have "f \<in> set (rows_of sid db)" using f(2) p by (metis set_mset_mset)
    then have "0 \<le> pt_order f \<and> quotes (pn_text d) f" using d(5) unfolding t(2) rows_ok_def by blast
    then show ?thesis by (simp add: f(1) copied_row_def quotes_def)
  qed
  ultimately have "rows_ok (pn_text d) ?s ?rows" unfolding rows_ok_def by (simp only: draft_set_def product_set.simps simp_thms ball_simps) blast
  moreover have "\<forall>f \<in> set ?rows. pt_set f = fresh 0" by (auto simp: copied_row_def)
  ultimately show ?thesis unfolding db' inserted_set_def
    using d t by (intro opened_edits [OF w new]) (simp_all add: draft_set_def)
qed

lemma product_confirm_edits:
  assumes w: "well_product db" and e: "confirm_set now org sid actor db = Inr (r, db')"
  shows "product_edits db db'"
proof -
  let ?seal = "\<lambda>s. s\<lparr>ps_status := ''confirmed'', ps_confirmed_by := Some actor, ps_confirmed_at := Some now\<rparr>"
  let ?h = "\<lambda>s. if ps_id s = sid \<and> ps_organization s = org then ?seal s else s"
  obtain s rows where l: "load_draft org sid db = Inr (s, rows)" and ne: "rows \<noteq> []"
    and db': "db' = db\<lparr>pd_sets := update_where (\<lambda>s. ps_id s = sid \<and> ps_organization s = org) ?seal (pd_sets db)\<rparr>"
    using e by (auto simp: confirm_set_def then_read_Inr split: if_splits)
  have s: "s \<in> set (pd_sets db)" "ps_id s = sid" "ps_status s = ''draft''"
    using l load_set_Inr unfolding load_draft_Inr by blast+
  have sets: "pd_sets db' = map ?h (pd_sets db)" by (simp add: db' update_where_def)
  have same: "rows_of t db' = rows_of t db" "others_of t db' = others_of t db" "pd_features db' = pd_features db"
      "pd_descriptions db' = pd_descriptions db" for t
    by (simp_all add: db' rows_of_def others_of_def)
  have ids: "map ps_id (pd_sets db') = map ps_id (pd_sets db)" unfolding sets by (simp add: comp_def)
  have some: "rows_of sid db \<noteq> []" using ne draft_rows(2) [OF w l] by (metis set_empty)
  have "set_ok db' (?h t)" if "t \<in> set (pd_sets db)" for t
  proof -
    have "set_ok db t" using w that unfolding well_product_def by blast
    then show ?thesis using some unfolding set_ok_def same by (auto simp: rows_ok_def)
  qed
  then have "\<forall>t \<in> set (pd_sets db'). set_ok db' t" unfolding sets set_map ball_simps by blast
  moreover have "\<forall>f \<in> set (pd_features db'). pt_set f \<in> set (map ps_id (pd_sets db'))"
    using w unfolding well_product_def same ids by simp
  moreover have "ps_id ` set (pd_sets db') = ps_id ` set (pd_sets db)" using arg_cong [OF ids, of set] by simp
  ultimately have "well_product db'" using w unfolding well_product_def ids same set_map by auto
  moreover have "touches sid db db'" 
  proof -
    have "filter (\<lambda>s. ps_id s \<noteq> sid) (map ?h xs) = filter (\<lambda>s. ps_id s \<noteq> sid) xs" for xs by (induction xs) auto
    then show ?thesis unfolding touches_def sets same by blast
  qed
  moreover have "\<forall>t \<in> set (pd_sets db). ps_id t = sid \<longrightarrow> ps_status t = ''draft''"
    using same_set [OF w _ s(1)] s(2,3) by metis
  ultimately show ?thesis unfolding product_edits_def by blast
qed

section \<open>Runs\<close>

definition fresh_product :: "(nat \<Rightarrow> string) \<Rightarrow> product_db \<Rightarrow> bool" where
  "fresh_product fresh db \<longleftrightarrow> fresh 0 \<notin> ps_id ` set (pd_sets db)"

inductive product_step :: "product_db \<Rightarrow> product_db \<Rightarrow> bool" where
  describe_step: "add_description_route access sha256 i now org c t db = Inr (r, db') \<Longrightarrow> i \<notin> pn_id ` set (pd_descriptions db) \<Longrightarrow>
    product_step db db'"
| draft_step: "create_draft_route access digit word fresh org c i db = Inr (v, db') \<Longrightarrow> fresh_product fresh db \<Longrightarrow> product_step db db'"
| edit_step: "edit_route access fresh now org c sid e db = Inr (view, db') \<Longrightarrow> fresh_product fresh db \<Longrightarrow> product_step db db'"
| case_rows_step: "product_step db (db\<lparr>pd_cases := rows\<rparr>)"

definition empty_product_db :: product_db where
  "empty_product_db = \<lparr>pd_cases = [], pd_descriptions = [], pd_sets = [], pd_features = []\<rparr>"

lemma edit_route_Inr:
  "edit_route access fresh now org c sid e db = Inr (view, db') \<Longrightarrow> \<exists>actor. run_edit fresh now org sid actor e db = Inr (view, db')"
  unfolding edit_route_def by (auto split: if_splits)

lemma run_edit_edits:
  assumes "well_product db" and "run_edit fresh now org sid actor e db = Inr (view, db')" and "fresh_product fresh db"
  shows "product_edits db db'"
  using assms unfolding run_edit_def fresh_product_def
  by (cases e) (auto dest: edit_edits add_product_edits delete_product_edits product_split_edits product_merge_edits product_confirm_edits product_revise_edits)

text \<open>A step leaves the sets alone or edits one draft.\<close>

lemma same_tables_ok:
  assumes w: "well_product db" and t: "pd_sets db' = pd_sets db" "pd_features db' = pd_features db"
    and d: "set (pd_descriptions db) \<subseteq> set (pd_descriptions db')" "distinct (map pn_id (pd_descriptions db'))"
  shows "well_product db'"
proof -
  have r: "rows_of t db' = rows_of t db" for t by (simp add: rows_of_def t)
  have "set_ok db' s" if "set_ok db s" for s using that d(1) unfolding set_ok_def r by blast
  then show ?thesis using w d(2) unfolding well_product_def t by blast
qed

lemma step_product:
  assumes "product_step db db'" and w: "well_product db"
  shows "well_product db' \<and> (product_edits db db' \<or> pd_sets db' = pd_sets db \<and> pd_features db' = pd_features db)"
  using assms(1)
proof cases
  case (describe_step access sha256 i now org c t r)
  then obtain d where d: "db' = db\<lparr>pd_descriptions := pd_descriptions db @ [d]\<rparr>" "pn_id d = i"
    by (auto simp: add_description_route_def add_description_def Let_def split: if_splits)
  have "well_product db'" by (rule same_tables_ok [OF w]) (use d describe_step(2) w in \<open>auto simp: well_product_def\<close>)
  with d show ?thesis by simp
next
  case (draft_step access digit word fresh org c i v)
  then obtain actor where "create_product_draft digit word fresh org c i actor db = Inr (v, db')"
    unfolding create_draft_route_def by auto
  from create_edits [OF w this] draft_step(2) have "product_edits db db'" by (simp add: fresh_product_def)
  then show ?thesis by (simp add: product_edits_def)
next
  case (edit_step access fresh now org c sid e view)
  then have "product_edits db db'" using edit_route_Inr run_edit_edits [OF w] by blast
  then show ?thesis by (simp add: product_edits_def)
next
  case (case_rows_step rows)
  then have "well_product db'" by (intro same_tables_ok [OF w]) (use w in \<open>auto simp: well_product_def\<close>)
  with case_rows_step show ?thesis by simp
qed

definition sealed_set :: "product_db \<Rightarrow> string \<Rightarrow> bool" where
  "sealed_set db sid \<longleftrightarrow> (\<exists>s \<in> set (pd_sets db). ps_id s = sid \<and> ps_status s \<noteq> ''draft'')"

definition set_contents :: "product_db \<Rightarrow> string \<Rightarrow> product_set list \<times> product_row list" where
  "set_contents db sid = (filter (\<lambda>s. ps_id s = sid) (pd_sets db), rows_of sid db)"

lemma sealed_contents: "sealed_set db sid \<longleftrightarrow> (\<exists>s \<in> set (fst (set_contents db sid)). ps_status s \<noteq> ''draft'')"
  by (auto simp: sealed_set_def set_contents_def)

lemma edits_keep_sealed:
  assumes "product_edits db db'" and "sealed_set db sid"
  shows "set_contents db' sid = set_contents db sid"
proof -
  obtain t where t: "touches t db db'" "\<forall>s \<in> set (pd_sets db). ps_id s = t \<longrightarrow> ps_status s = ''draft''"
    using assms(1) by (auto simp: product_edits_def)
  then have ne: "sid \<noteq> t" using assms(2) by (auto simp: sealed_set_def)
  have "filter (\<lambda>s. ps_id s = sid) xs = filter (\<lambda>s. ps_id s = sid) (filter (\<lambda>s. ps_id s \<noteq> t) xs)" for xs :: "product_set list"
    using ne by (subst filter_other) auto
  then have "filter (\<lambda>s. ps_id s = sid) (pd_sets db') = filter (\<lambda>s. ps_id s = sid) (pd_sets db)"
    using t(1) unfolding touches_def by metis
  moreover have "rows_of sid db' = rows_of sid db" using rows_elsewhere t(1) ne unfolding touches_def by blast
  ultimately show ?thesis by (simp add: set_contents_def)
qed

interpretation product_sets: sealed_store product_step well_product sealed_set set_contents
proof unfold_locales
  show "well_product d'" if "product_step d d'" "well_product d" for d d' using step_product that by blast
next
  fix d d' :: product_db and k
  assume "product_step d d'" "well_product d" "sealed_set d k"
  then have "set_contents d' k = set_contents d k"
    using step_product [of d d'] edits_keep_sealed [of d d' k] by (auto simp: set_contents_def rows_of_def)
  with \<open>sealed_set d k\<close> show "sealed_set d' k \<and> set_contents d' k = set_contents d k" by (simp add: sealed_contents)
qed

lemma empty_product: "well_product empty_product_db"
  by (simp add: well_product_def empty_product_db_def)

lemma run_product: "product_step\<^sup>*\<^sup>* empty_product_db db \<Longrightarrow> well_product db"
  using product_sets.run_well empty_product by blast

lemma load_contents:
  assumes "set_contents db' sid = set_contents db sid"
  shows "load_set org sid db' = load_set org sid db"
proof -
  have f: "find (\<lambda>s. ps_id s = sid \<and> ps_organization s = org) (pd_sets db) = find (\<lambda>s. ps_organization s = org) (fst (set_contents db sid))" for db
  proof -
    have "find (\<lambda>s. ps_id s = sid \<and> ps_organization s = org) xs = find (\<lambda>s. ps_organization s = org) (filter (\<lambda>s. ps_id s = sid) xs)" for xs
      by (induction xs) auto
    then show ?thesis by (simp add: set_contents_def)
  qed
  have "filter (of_set org sid) (pd_features db) = filter (\<lambda>f. pt_organization f = org) (snd (set_contents db sid))" for db
    by (auto simp: set_contents_def rows_of_def of_set_def intro!: filter_cong)
  then have "set_rows org sid db' = set_rows org sid db" by (simp add: set_rows_def assms)
  then show ?thesis unfolding load_set_def f assms by (simp only:)
qed

text \<open>
  C0: a confirmed set of product features is frozen.  In every run of the routes from empty tables, once a set that is read is not
  a draft, reading it answers the same set with the same features for ever.
\<close>

theorem confirmed_product_frozen:
  assumes "product_step\<^sup>*\<^sup>* empty_product_db db1" and "product_step\<^sup>*\<^sup>* db1 db2"
    and "load_set org sid db1 = Inr (s, rows)" and "ps_status s \<noteq> ''draft''"
  shows "load_set org sid db2 = Inr (s, rows)"
proof -
  have "sealed_set db1 sid" using load_set_Inr [OF assms(3)] assms(4) by (auto simp: sealed_set_def)
  from load_contents [OF product_sets.sealed_together [OF assms(1,2) empty_product this]] assms(3) show ?thesis by simp
qed

text \<open>
  C22: what was cut by rule quotes the description.  In every run from empty tables a feature belongs to a set whose description is
  kept; its text is trimmed and not empty; when no person wrote any of it, it is the pieces of the
  description at its spans, joined by spaces; and what was added by hand has no span.
\<close>

theorem features_quote_description:
  assumes "product_step\<^sup>*\<^sup>* empty_product_db db" and "f \<in> set (pd_features db)"
  shows "\<exists>s \<in> set (pd_sets db). \<exists>d \<in> set (pd_descriptions db). ps_id s = pt_set f \<and> pn_id d = ps_description s
    \<and> pt_organization f = ps_organization s \<and> pn_organization d = ps_organization s \<and> pt_case f = ps_case s \<and> pn_case d = ps_case s
    \<and> pt_text f \<noteq> [] \<and> strip (pt_text f) = pt_text f
    \<and> (pt_origin f = Split_origin \<longrightarrow> pt_spans f \<noteq> [] \<and> (\<forall>(a, b) \<in> set (pt_spans f). a < b \<and> b \<le> length (pn_text d))
         \<and> pt_text f = join [32] (map (\<lambda>(a, b). slice a b (pn_text d)) (pt_spans f)))
    \<and> (pt_origin f = Manual_origin \<longrightarrow> pt_spans f = [])"
proof -
  have w: "well_product db" using run_product [OF assms(1)] .
  obtain s where s: "s \<in> set (pd_sets db)" "ps_id s = pt_set f" using w assms(2) unfolding well_product_def by auto
  obtain d where d: "d \<in> set (pd_descriptions db)" "pn_id d = ps_description s" "pn_case d = ps_case s"
      "pn_organization d = ps_organization s" "rows_ok (pn_text d) s (rows_of (ps_id s) db)"
    using set_described [OF w s(1)] .
  have "f \<in> set (rows_of (ps_id s) db)" using assms(2) s(2) by (simp add: rows_of_def)
  then have r: "pt_organization f = ps_organization s" "pt_case f = ps_case s" "quotes (pn_text d) f"
    using d(5) unfolding rows_ok_def by blast+
  then have "trim_text (pt_text f)" by (simp add: quotes_def)
  then have "pt_text f \<noteq> []" "strip (pt_text f) = pt_text f" using trimmed_strip by (simp_all add: trim_text_def)
  with s d r show ?thesis unfolding quotes_def by (intro bexI [of _ s] bexI [of _ d]) simp_all
qed

section \<open>Splits and merges keep the order\<close>

lemma sorted_places:
  assumes "mset xs = mset ys" and "sorted_wrt (\<lambda>f g. pt_order f < pt_order g) ys"
  shows "sort_key (\<lambda>f. (pt_order f, pt_code f)) xs = ys"
proof (rule sort_key_inj_key_eq [OF assms(1)])
  have y: "set xs = set ys" using assms(1) by (metis set_mset_mset)
  have "distinct (map pt_order ys)" using assms(2) by (induction ys) auto
  then show "inj_on (\<lambda>f. (pt_order f, pt_code f)) (set xs)" unfolding y by (auto simp: distinct_map inj_on_def)
  show "sorted (map (\<lambda>f. (pt_order f, pt_code f)) ys)" unfolding sorted_map
    by (rule sorted_wrt_mono_rel [OF _ assms(2)]) (auto simp: less_eq_prod_def)
qed

lemma places_sorted:
  assumes "distinct (map pt_order rs)"
  shows "sorted_wrt (\<lambda>f g. pt_order f < pt_order g) (sort_key (\<lambda>f. (pt_order f, pt_code f)) rs)"
proof -
  let ?ys = "sort_key (\<lambda>f. (pt_order f, pt_code f)) rs"
  have "sorted (map (\<lambda>f. (pt_order f, pt_code f)) ?ys)" by (rule sorted_sort_key)
  then have le: "sorted_wrt (\<lambda>f g. pt_order f \<le> pt_order g) ?ys" unfolding sorted_map
    by (rule sorted_wrt_mono_rel [rotated]) (auto simp: less_eq_prod_def)
  have "mset (map pt_order ?ys) = mset (map pt_order rs)" by simp
  then have "distinct (map pt_order ?ys)" using assms by (metis mset_eq_imp_distinct_iff)
  moreover have "sorted_wrt (\<lambda>f g. pt_order f \<le> pt_order g) ys \<Longrightarrow> distinct (map pt_order ys) \<Longrightarrow>
      sorted_wrt (\<lambda>f g. pt_order f < pt_order g) ys" for ys
    by (induction ys) (auto simp: order_less_le)
  ultimately show ?thesis using le by blast
qed

lemma view_places:
  assumes w: "well_product db" and l: "load_set org sid db = Inr (s, rows)"
  shows "sorted_wrt (\<lambda>f g. pt_order f < pt_order g) rows" and "mset rows = mset (rows_of sid db)"
    and "\<exists>tx. rows_ok tx s (rows_of sid db)"
proof -
  note s = load_set_Inr [OF l]
  obtain d where "d \<in> set (pd_descriptions db)" "pn_id d = ps_description s" "pn_case d = ps_case s"
      "pn_organization d = ps_organization s" and d: "rows_ok (pn_text d) s (rows_of (ps_id s) db)"
    using set_described [OF w s(1)] .
  then show "\<exists>tx. rows_ok tx s (rows_of sid db)" using s(2) by blast
  have "own_rows org sid db" using own_set [OF w s(1)] s by simp
  from set_rows_own [OF this] have r: "rows = sort_key (\<lambda>f. (pt_order f, pt_code f)) (rows_of sid db)" using s(4) by simp
  then show "mset rows = mset (rows_of sid db)" by simp
  show "sorted_wrt (\<lambda>f g. pt_order f < pt_order g) rows"
    unfolding r by (rule places_sorted) (use d s(2) in \<open>auto simp: rows_ok_def\<close>)
qed

lemma sorted_split:
  assumes s: "sorted_wrt (\<lambda>f g. pt_order f < pt_order g) (xs @ f # ys)" and lr: "pt_order l = pt_order f" "pt_order r = pt_order f + 1"
  shows "sorted_wrt (\<lambda>f g. pt_order f < pt_order g) (xs @ l # r # map (\<lambda>x. x\<lparr>pt_order := pt_order x + 1\<rparr>) ys)"
proof -
  have "sorted_wrt (\<lambda>f g. pt_order f < pt_order g) ys" using s by (simp add: sorted_wrt_append)
  then have "sorted_wrt (\<lambda>f g. pt_order f < pt_order g) (map (\<lambda>x. x\<lparr>pt_order := pt_order x + 1\<rparr>) ys)"
    by (induction ys) auto
  moreover have "\<forall>x \<in> set xs. pt_order x < pt_order f" "\<forall>y \<in> set ys. pt_order f < pt_order y" "sorted_wrt (\<lambda>f g. pt_order f < pt_order g) xs"
    using s by (simp_all add: sorted_wrt_append)
  moreover from calculation(2,3) have "\<forall>x \<in> set xs. \<forall>y \<in> set ys. pt_order x < pt_order y + 1" by force
  moreover from calculation(2) have "\<forall>x \<in> set xs. pt_order x < pt_order f + 1" by force
  moreover from calculation(3) have "\<forall>y \<in> set ys. pt_order f < pt_order y + 1" by force
  moreover from calculation(3) have "\<forall>y \<in> set ys. pt_order f + 1 \<le> pt_order y" by force
  ultimately show ?thesis using lr by (simp add: sorted_wrt_append)
qed

lemma edit_reaches_well:
  assumes "well_product db" and "edit_route access fresh now org c sid e db = Inr (view, db')" and "fresh_product fresh db"
  shows "well_product db'"
  using step_product [OF edit_step [OF assms(2,3)] assms(1)] by blast

text \<open>
  C0: a feature is split in place.  When the split of a feature of a draft is answered, in a state the routes can reach, the answer lists the features
  as before, with the two trimmed parts of the text, the second under a new code, where the feature was.
\<close>

theorem split_in_place:
  assumes "product_step\<^sup>*\<^sup>* empty_product_db db" and "fresh_product fresh db"
    and e: "edit_route access fresh now org c sid (Split_feature code pos) db = Inr ((s', rows'), db')"
    and before: "load_set org sid db = Inr (s, xs @ f # ys)" and code: "pt_code f = code"
  shows "map (\<lambda>g. (pt_code g, pt_text g)) rows' =
     map (\<lambda>g. (pt_code g, pt_text g)) xs
     @ [(code, strip (take (nat pos) (pt_text f))), (next_code (xs @ f # ys), strip (drop (nat pos) (pt_text f)))]
     @ map (\<lambda>g. (pt_code g, pt_text g)) ys"
proof -
  have w: "well_product db" using run_product [OF assms(1)] .
  obtain actor where "split_product_feature (fresh 0) org sid code (nat pos) db = Inr ((s', rows'), db')"
    using edit_route_Inr [OF e] by (auto simp: run_edit_def)
  then show ?thesis
  proof (rule split_Inr)
    fix t rows g
    assume l: "load_draft org sid db = Inr (t, rows)" and g: "coded_row code rows = Inr g"
      and db': "db' = inserted_features [right_half (fresh 0) t rows (nat pos) g] (shifted org sid (pt_order g)
        (rewritten org sid code (strip (take (nat pos) (pt_text g))) (fst (split_spans (nat pos) g)) (snd (snd (split_spans (nat pos) g))) db))"
      and view: "load_set org sid db' = Inr (s', rows')"
    have "rows = xs @ f # ys" "t = s" using l before unfolding load_draft_Inr by auto
    note places = view_places [OF w before]
    obtain tx where ok: "rows_ok tx s (rows_of sid db)" using places(3) by blast
    have same: "set (xs @ f # ys) = set (rows_of sid db)" using places(2) by (metis set_mset_mset)
    have "g = f" using coded_row_Inr [OF g] code same_code [OF ok] same \<open>rows = _\<close> by auto
    let ?h = "\<lambda>x. if pt_code x = code then x\<lparr>pt_text := strip (take (nat pos) (pt_text f)), pt_spans := fst (split_spans (nat pos) f),
        pt_origin := snd (snd (split_spans (nat pos) f))\<rparr> else x"
    let ?k = "\<lambda>x. if pt_order f < pt_order x then x\<lparr>pt_order := pt_order x + 1\<rparr> else x"
    let ?r = "right_half (fresh 0) s (xs @ f # ys) (nat pos) f"
    have rows': "rows_of sid db' = map (?k \<circ> ?h) (rows_of sid db) @ [?r]"
      using split_rows [OF w l _ db'] code unfolding \<open>g = f\<close> \<open>rows = _\<close> \<open>t = s\<close>
      by (simp add: rows_after_split_def update_where_def)
    have other: "pt_code x \<noteq> code" if "x \<in> set xs \<union> set ys" for x
    proof
      assume "pt_code x = code"
      then have "x = f" using same_code [OF ok, of x f] that same code by auto
      then show False using that places(1) by (auto simp: sorted_wrt_append)
    qed
    have before_f: "pt_order x < pt_order f" if "x \<in> set xs" for x using that places(1) by (auto simp: sorted_wrt_append)
    have after_f: "pt_order f < pt_order x" if "x \<in> set ys" for x using that places(1) by (auto simp: sorted_wrt_append)
    let ?ys = "map (\<lambda>x. x\<lparr>pt_order := pt_order x + 1\<rparr>) ys"
    have xs: "map (?k \<circ> ?h) xs = xs" using other before_f by (force intro: map_idI)
    have ys: "map (?k \<circ> ?h) ys = ?ys" using other after_f by auto
    let ?new = "xs @ ?k (?h f) # ?r # ?ys"
    have "mset (map (?k \<circ> ?h) (xs @ f # ys)) = mset (map (?k \<circ> ?h) (rows_of sid db))"
      by (simp only: mset_map places(2))
    then have "mset (rows_of sid db') = mset (map (?k \<circ> ?h) (xs @ f # ys) @ [?r])"
      unfolding rows' mset_append by (simp only:)
    then have m: "mset (rows_of sid db') = mset ?new" by (simp only: map_append list.map xs ys comp_apply mset_append mset.simps) simp
    have "sorted_wrt (\<lambda>f g. pt_order f < pt_order g) ?new"
      by (rule sorted_split [OF places(1)]) (simp_all add: right_half_def)
    from sorted_places [OF m this] have "sort_key (\<lambda>f. (pt_order f, pt_code f)) (rows_of sid db') = ?new" .
    moreover have "rows' = sort_key (\<lambda>f. (pt_order f, pt_code f)) (rows_of sid db')"
    proof -
      have "own_rows org sid db'"
        using own_set [OF edit_reaches_well [OF w e assms(2)] load_set_Inr(1) [OF view]] load_set_Inr(2,3) [OF view] by simp
      from set_rows_own [OF this] show ?thesis using load_set_Inr(4) [OF view] by simp
    qed
    ultimately show ?thesis using code by (simp add: right_half_def)
  qed
qed

lemma answered_rows:
  assumes "well_product db'" and view: "load_set org sid db' = Inr (s', rows')" and "mset (rows_of sid db') = mset ys"
    and "sorted_wrt (\<lambda>f g. pt_order f < pt_order g) ys"
  shows "rows' = ys"
proof -
  have "own_rows org sid db'" using own_set [OF assms(1) load_set_Inr(1) [OF view]] load_set_Inr(2,3) [OF view] by simp
  from set_rows_own [OF this] sorted_places [OF assms(3,4)] show ?thesis using load_set_Inr(4) [OF view] by simp
qed

lemma same_places:
  assumes "sorted_wrt (\<lambda>f g. pt_order f < pt_order g) xs" "sorted_wrt (\<lambda>f g. pt_order f < pt_order g) ys" "set xs = set ys"
  shows "xs = ys"
proof -
  have d: "sorted (map pt_order zs) \<and> distinct (map pt_order zs)" if "sorted_wrt (\<lambda>f g. pt_order f < pt_order g) zs" for zs
    using that by (induction zs) auto
  have "distinct xs" "distinct ys" using d assms(1,2) by (auto simp: distinct_map)
  then have "mset xs = mset ys" using assms(3) by (simp add: set_eq_iff_mset_eq_distinct)
  from sorted_places [OF this assms(2)] sorted_places [OF refl assms(1)] show ?thesis by simp
qed

text \<open>
  C0: features are merged in place.  When a merge of features of a draft is answered, in a state the routes can reach, the first of them in the order
  of the set has their texts in that order, joined by spaces; the others are gone and the rest is as it was.
\<close>

theorem merge_in_place:
  assumes "product_step\<^sup>*\<^sup>* empty_product_db db" and "fresh_product fresh db"
    and e: "edit_route access fresh now org c sid (Merge_features codes) db = Inr ((s', rows'), db')"
    and before: "load_set org sid db = Inr (s, rows)" and chosen: "chosen = filter (\<lambda>g. pt_code g \<in> set codes) rows"
  shows "2 \<le> length chosen \<and> pt_code ` set chosen = set codes
    \<and> map (\<lambda>g. (pt_code g, pt_text g)) rows'
      = map (\<lambda>g. (pt_code g, if pt_code g = pt_code (hd chosen) then join [32] (map pt_text chosen) else pt_text g))
          (filter (\<lambda>g. pt_code g \<notin> pt_code ` set (tl chosen)) rows)"
proof -
  have w: "well_product db" using run_product [OF assms(1)] .
  have w': "well_product db'" by (rule edit_reaches_well [OF w e assms(2)])
  obtain actor :: string where "merge_product_features org sid codes db = Inr ((s', rows'), db')"
    using edit_route_Inr [OF e] by (auto simp: run_edit_def)
  then show ?thesis
  proof (rule merge_Inr)
    fix t rows0 ch
    assume l: "load_draft org sid db = Inr (t, rows0)" and ch: "2 \<le> length ch" "set ch \<subseteq> set rows0" "pt_code ` set ch = set codes"
        "distinct (map pt_code ch)" "sorted (map pt_order ch)"
      and db': "db' = without_codes org sid (map pt_code (tl ch)) (rewritten org sid (pt_code (hd ch)) (join [32] (map pt_text ch))
       (concat (map pt_spans ch)) (if list_all (\<lambda>f. pt_origin f = Split_origin) ch then Split_origin else Edited_origin) db)"
      and view: "load_set org sid db' = Inr (s', rows')"
    have "rows0 = rows" "t = s" using l before unfolding load_draft_Inr by auto
    note places = view_places [OF w before]
    obtain tx where ok: "rows_ok tx s (rows_of sid db)" using places(3) by blast
    have same: "set rows = set (rows_of sid db)" using places(2) by (metis set_mset_mset)
    have ok': "g = f" if "f \<in> set rows" "g \<in> set rows" "pt_code f = pt_code g" for f g
      using same_code [OF ok] that same by blast
    have "set ch = set chosen"
    proof
      show "set ch \<subseteq> set chosen" using ch(2,3) unfolding chosen \<open>rows0 = rows\<close> by auto
      show "set chosen \<subseteq> set ch"
      proof
        fix g
        assume "g \<in> set chosen"
        then have g: "g \<in> set rows" "pt_code g \<in> pt_code ` set ch" using ch(3) by (simp_all add: chosen)
        then obtain x where "x \<in> set ch" "pt_code g = pt_code x" by blast
        moreover have "g = x" using ok' [of g x] g(1) calculation ch(2) unfolding \<open>rows0 = rows\<close> by blast
        ultimately show "g \<in> set ch" by simp
      qed
    qed
    moreover have "distinct (map pt_order rows)" using places(1) by (induction rows) auto
    then have "sorted_wrt (\<lambda>f g. pt_order f < pt_order g) ch"
    proof -
      assume d: "distinct (map pt_order rows)"
      have "inj_on pt_order (set ch)" using d ch(2) \<open>rows0 = rows\<close> by (auto simp: distinct_map intro: inj_on_subset)
      moreover have "distinct ch" using ch(4) by (simp add: distinct_map)
      ultimately have "distinct (map pt_order ch)" by (simp add: distinct_map)
      moreover have "sorted (map pt_order zs) \<Longrightarrow> distinct (map pt_order zs) \<Longrightarrow> sorted_wrt (\<lambda>f g. pt_order f < pt_order g) zs" for zs
        by (induction zs) (auto simp: order_less_le)
      ultimately show ?thesis using ch(5) by blast
    qed
    moreover have "sorted_wrt (\<lambda>f g. pt_order f < pt_order g) chosen" unfolding chosen by (rule sorted_wrt_filter [OF places(1)])
    ultimately have c: "ch = chosen" by (intro same_places)
    let ?h = "\<lambda>f. if pt_code f = pt_code (hd chosen) then f\<lparr>pt_text := join [32] (map pt_text chosen), pt_spans := concat (map pt_spans chosen),
       pt_origin := if list_all (\<lambda>f. pt_origin f = Split_origin) chosen then Split_origin else Edited_origin\<rparr> else f"
    let ?P = "\<lambda>f. pt_code f \<notin> pt_code ` set (tl chosen)"
    have "rows_of sid db' = filter ?P (map ?h (rows_of sid db))"
      using merge_rows [OF w l db'] unfolding c by (simp add: rows_after_merge_def update_where_def)
    then have "mset (rows_of sid db') = mset (filter ?P (map ?h rows))"
      by (simp only: mset_filter mset_map places(2))
    moreover have "sorted_wrt (\<lambda>f g. pt_order f < pt_order g) (map ?h rows)"
      unfolding sorted_wrt_map by (rule sorted_wrt_mono_rel [OF _ places(1)]) simp
    ultimately have "rows' = filter ?P (map ?h rows)" using answered_rows [OF w' view] sorted_wrt_filter by blast
    moreover have "map (\<lambda>g. (pt_code g, pt_text g)) (filter ?P (map ?h xs))
        = map (\<lambda>g. (pt_code g, if pt_code g = pt_code (hd chosen) then join [32] (map pt_text chosen) else pt_text g)) (filter ?P xs)" for xs :: "product_row list"
      by (induction xs) auto
    ultimately have "map (\<lambda>g. (pt_code g, pt_text g)) rows'
        = map (\<lambda>g. (pt_code g, if pt_code g = pt_code (hd chosen) then join [32] (map pt_text chosen) else pt_text g)) (filter ?P rows)"
      by (simp only:)
    then show ?thesis using ch(1,3) c by simp
  qed
qed

section \<open>A run\<close>

text \<open>A description of two sentences is cut, and the draft is confirmed.\<close>

definition demo_ids :: "nat \<Rightarrow> string" where "demo_ids n = replicate (Suc n) CHR ''i''"

definition demo_description :: product_description where
  "demo_description = \<lparr>pn_id = ''d'', pn_organization = ''o'', pn_case = ''c'', pn_number = 1, pn_text = [97, 59, 98],
     pn_sha256 = ''hash'', pn_created_by = ''me'', pn_created_at = 1\<rparr>"

definition demo_rows :: "product_row list" where
  "demo_rows =
     [\<lparr>pt_id = ''ii'', pt_organization = ''o'', pt_case = ''c'', pt_set = ''i'', pt_code = ''P1'', pt_text = [97, 59],
       pt_spans = [(0, 2)], pt_origin = Split_origin, pt_order = 0\<rparr>,
      \<lparr>pt_id = ''iii'', pt_organization = ''o'', pt_case = ''c'', pt_set = ''i'', pt_code = ''P2'', pt_text = [98],
       pt_spans = [(2, 3)], pt_origin = Split_origin, pt_order = 1\<rparr>]"

definition demo_start :: product_db where
  "demo_start = empty_product_db\<lparr>pd_cases := [\<lparr>ca_id = ''c'', ca_organization = ''o'', ca_number = [], ca_title = [], ca_field = [],
     ca_jurisdiction = ''US'', ca_status = ''open'', ca_created_by = ''me'', ca_created_at = 0\<rparr>]\<rparr>"

definition demo_drafted :: product_db where
  "demo_drafted = demo_start\<lparr>pd_descriptions := [demo_description],
     pd_sets := [draft_set ''i'' ''o'' ''c'' ''d'' 1 None ''me''], pd_features := demo_rows\<rparr>"

lemma demo_begin: "product_step empty_product_db demo_start" unfolding demo_start_def by (rule case_rows_step)
lemma demo_describe: "product_step demo_start (demo_start\<lparr>pd_descriptions := [demo_description]\<rparr>)"
  by (rule describe_step [of "Inr ''me''" "\<lambda>_. ''hash''" "''d''" 1 "''o''" "''c''" "[97, 59, 98]" _ "(''d'', 1)"])
   (simp_all add: add_description_route_def add_description_def demo_start_def demo_description_def within_def MAX_DESCRIPTION_CHARS_def
     strip_def lstrip_def rstrip_def is_space_def next_description_def next_after_def empty_product_db_def)

lemma demo_draft: "product_step (demo_start\<lparr>pd_descriptions := [demo_description]\<rparr>) demo_drafted"
proof -
  let ?db = "demo_start\<lparr>pd_descriptions := [demo_description]\<rparr>"
  have pn: "pn_id demo_description = ''d''" "pn_case demo_description = ''c''" "pn_organization demo_description = ''o''"
    by (simp_all add: demo_description_def)
  have ins: "inserted_features (map (candidate_feature demo_ids ''o'' ''c'' (demo_ids 0)) (enumerate 0 (fst (split_description is_ascii_digit latin_letter (pn_text demo_description)))))
      (inserted_set (demo_ids 0) ''o'' ''c'' ''d'' ''me'' None ?db) = demo_drafted"
    by (simp add: demo_description_def demo_split candidate_feature_def demo_ids_def inserted_features_def inserted_set_def next_set_def next_after_def
      demo_start_def empty_product_db_def demo_drafted_def demo_rows_def)
  obtain view where "then_read ''o'' (demo_ids 0) demo_drafted = Inr (view, demo_drafted)"
    by (auto simp: then_read_def load_set_def demo_drafted_def draft_set_def demo_ids_def)
  then have "create_draft_route (Inr ''me'') is_ascii_digit latin_letter demo_ids ''o'' ''c'' ''d'' ?db
      = Inr ((view, snd (split_description is_ascii_digit latin_letter (pn_text demo_description))), demo_drafted)"
    by (simp add: create_draft_route_def create_product_draft_def pn Let_def case_prod_beta ins)
  then show ?thesis by (rule draft_step) (simp add: fresh_product_def demo_start_def empty_product_db_def)
qed

lemma demo_reached: "product_step\<^sup>*\<^sup>* empty_product_db demo_drafted"
  by (rule rtranclp.rtrancl_into_rtrancl [OF rtranclp.rtrancl_into_rtrancl [OF r_into_rtranclp [of product_step, OF demo_begin] demo_describe] demo_draft])

lemma demo_fresh: "fresh_product (\<lambda>_. ''n'') demo_drafted"
  by (simp add: fresh_product_def demo_drafted_def draft_set_def)

lemma demo_load: "load_set ''o'' ''i'' demo_drafted = Inr (draft_set ''i'' ''o'' ''c'' ''d'' 1 None ''me'', demo_rows)"
  by (simp add: load_set_def set_rows_def of_set_def demo_drafted_def demo_rows_def draft_set_def)

lemma demo_draft_load: "load_draft ''o'' ''i'' demo_drafted = Inr (draft_set ''i'' ''o'' ''c'' ''d'' 1 None ''me'', demo_rows)"
  by (simp add: load_draft_def demo_load) (simp add: draft_set_def)

lemma demo_in_case: "in_case ''o'' ''c'' ''i'' demo_drafted = Inr (draft_set ''i'' ''o'' ''c'' ''d'' 1 None ''me'', demo_rows)"
  by (simp add: in_case_def demo_load) (simp add: draft_set_def)

lemma demo_read: "pd_sets db = pd_sets demo_drafted \<Longrightarrow> \<not> isl (then_read ''o'' ''i'' db)"
  by (simp add: then_read_def load_set_def demo_drafted_def draft_set_def)

definition demo_confirmed :: product_db where
  "demo_confirmed = demo_drafted\<lparr>pd_sets := [(draft_set ''i'' ''o'' ''c'' ''d'' 1 None ''me'')
     \<lparr>ps_status := ''confirmed'', ps_confirmed_by := Some ''me'', ps_confirmed_at := Some 3\<rparr>]\<rparr>"

lemma demo_confirm: "product_step demo_drafted demo_confirmed"
  by (rule edit_step [of "Inr ''me''" "\<lambda>_. ''n''" 3 "''o''" "''c''" "''i''" Confirm_set _
      "((draft_set ''i'' ''o'' ''c'' ''d'' 1 None ''me'')\<lparr>ps_status := ''confirmed'', ps_confirmed_by := Some ''me'', ps_confirmed_at := Some 3\<rparr>, demo_rows)"])
   (rule demo_fresh | (simp add: edit_route_def valid_edit_def demo_in_case run_edit_def confirm_set_def demo_draft_load,
      simp add: then_read_def load_set_def set_rows_def of_set_def demo_drafted_def demo_confirmed_def update_where_def draft_set_def demo_rows_def))+

theorem confirmed_product_frozen_witness:
  "product_step\<^sup>*\<^sup>* demo_confirmed (demo_confirmed\<lparr>pd_cases := []\<rparr>)
   \<and> load_set ''o'' ''i'' (demo_confirmed\<lparr>pd_cases := []\<rparr>) = load_set ''o'' ''i'' demo_confirmed"
proof -
  have r: "product_step\<^sup>*\<^sup>* empty_product_db demo_confirmed" using demo_reached demo_confirm by (rule rtranclp.rtrancl_into_rtrancl)
  have s: "product_step\<^sup>*\<^sup>* demo_confirmed (demo_confirmed\<lparr>pd_cases := []\<rparr>)" by (rule r_into_rtranclp) (rule case_rows_step)
  have l: "load_set ''o'' ''i'' demo_confirmed = Inr ((draft_set ''i'' ''o'' ''c'' ''d'' 1 None ''me'')
      \<lparr>ps_status := ''confirmed'', ps_confirmed_by := Some ''me'', ps_confirmed_at := Some 3\<rparr>, demo_rows)"
    by (simp add: load_set_def set_rows_def of_set_def demo_confirmed_def demo_drafted_def demo_rows_def draft_set_def)
  from confirmed_product_frozen [OF r s l] s l show ?thesis by simp
qed

theorem features_quote_description_witness:
  "hd demo_rows \<in> set (pd_features demo_drafted) \<and> pt_text (hd demo_rows) = slice 0 2 [97, 59, 98]
   \<and> (\<exists>s \<in> set (pd_sets demo_drafted). ps_id s = pt_set (hd demo_rows))"
proof -
  have m: "hd demo_rows \<in> set (pd_features demo_drafted)" by (simp add: demo_drafted_def demo_rows_def)
  from features_quote_description [OF demo_reached m] m show ?thesis by (auto simp: demo_rows_def slice_def)
qed

theorem split_in_place_witness:
  "\<exists>s' rows' db'. edit_route (Inr ''me'') (\<lambda>_. ''n'') 3 ''o'' ''c'' ''i'' (Split_feature ''P1'' 1) demo_drafted = Inr ((s', rows'), db')
     \<and> map pt_text rows' = [[97], [59], [98]]"
proof -
  let ?e = "edit_route (Inr ''me'') (\<lambda>_. ''n'') 3 ''o'' ''c'' ''i'' (Split_feature ''P1'' 1) demo_drafted"
  have "\<not> isl ?e"
    by (simp add: edit_route_def valid_edit_def demo_in_case run_edit_def split_product_feature_def demo_draft_load
      coded_row_def demo_rows_def strip_def lstrip_def rstrip_def is_space_def split_spans_def demo_read)
  then obtain s' rows' db' where e: "?e = Inr ((s', rows'), db')" by (cases ?e) auto
  have l: "load_set ''o'' ''i'' demo_drafted = Inr (draft_set ''i'' ''o'' ''c'' ''d'' 1 None ''me'', [] @ hd demo_rows # tl demo_rows)"
    using demo_load by (simp add: demo_rows_def)
  have c: "pt_code (hd demo_rows) = ''P1''" by (simp add: demo_rows_def)
  from arg_cong [OF split_in_place [OF demo_reached demo_fresh e l c], of "map snd"]
  have "map pt_text rows' = [[97], [59], [98]]"
    by (simp add: comp_def demo_rows_def strip_def lstrip_def rstrip_def is_space_def)
  with e show ?thesis by (intro exI conjI)
qed

theorem merge_in_place_witness:
  "\<exists>s' rows' db'. edit_route (Inr ''me'') (\<lambda>_. ''n'') 3 ''o'' ''c'' ''i'' (Merge_features [''P2'', ''P1'']) demo_drafted = Inr ((s', rows'), db')
     \<and> map pt_text rows' = [[97, 59, 32, 98]]"
proof -
  let ?e = "edit_route (Inr ''me'') (\<lambda>_. ''n'') 3 ''o'' ''c'' ''i'' (Merge_features [''P2'', ''P1'']) demo_drafted"
  have "\<not> isl ?e"
    by (simp add: edit_route_def valid_edit_def within_def demo_in_case run_edit_def merge_product_features_def demo_draft_load
      coded_row_def demo_rows_def count_set_def Let_def demo_read)
  then obtain s' rows' db' where e: "?e = Inr ((s', rows'), db')" by (cases ?e) auto
  have ch: "demo_rows = filter (\<lambda>g. pt_code g \<in> set [''P2'', ''P1'']) demo_rows" by (simp add: demo_rows_def)
  from arg_cong [OF conjunct2 [OF conjunct2 [OF merge_in_place [OF demo_reached demo_fresh e demo_load ch]]], of "map snd"]
  have "map pt_text rows' = [[97, 59, 32, 98]]"
    by (simp add: comp_def demo_rows_def)
  with e show ?thesis by (intro exI conjI)
qed

end
