(* ===== verification/Spec2Isabelle.thy ===== *)
theory Spec2Isabelle
  imports FtoChart AssessLifecycle DeliveryGate VersionDiff LegalEp AuthGuarantees RateLimit Joining FeatureSafety SearchSafety ComparisonSafety ReviewSafety CaseRoutes UploadSpec SourceSafety ParseQueue ProductSafety
begin

text \<open>
  PatentEvidence: the decision logic of a patent evidence platform.

  The program.  A case starts from an uploaded disclosure, which is inspected, stored and parsed by a worker; its
  technical features are extracted and confirmed, prior art is searched and triaged, and a matrix compares the
  features with the documents found.  From them the platform computes a patentability
  pre-assessment that is frozen as a numbered version, reviewed and, when approved, delivered with a sealed report.
  Beside it stand freedom-to-operate claim charts, the features of a product, the legal status of granted patents,
  and the organizations whose members do the work.

  The parts, in the order of their theories:

    \<^item> \<^verbatim>\<open>Prelude\<close>, \<^verbatim>\<open>PyText\<close>, \<^verbatim>\<open>Dates\<close>: results, insertion-ordered dicts, stable minima, text
      and calendar operations of Python that the source uses.  \<open>Dates.add_months\<close> is
      \<^verbatim>\<open>_add_months\<close> of \<^verbatim>\<open>modules/assessment/rules.py\<close>, \<open>Dates.add_years\<close> the one of
      \<^verbatim>\<open>modules/legal_status/us.py\<close>.
    \<^item> \<^verbatim>\<open>FtoModel\<close>, \<^verbatim>\<open>FtoChart\<close>: \<^verbatim>\<open>modules/fto/model.py\<close> and \<^verbatim>\<open>chart.py\<close>.  A claim set, its
      dependency paths and the conclusion of a claim by the all-elements rule.
    \<^item> \<^verbatim>\<open>AssessPriority\<close>, \<^verbatim>\<open>AssessGates\<close>, \<^verbatim>\<open>AssessEvidence\<close>: \<^verbatim>\<open>modules/assessment/rules.py\<close> in its order,
      from priority verification to entity-level observations.
    \<^item> \<^verbatim>\<open>AssessPackage\<close>: \<^verbatim>\<open>package.py\<close>, which composes every rule, and \<^verbatim>\<open>snapshot.py\<close>.
    \<^item> \<^verbatim>\<open>EventLog\<close>: the interface of an append-only log with a terminal status, as a locale.
    \<^item> \<^verbatim>\<open>Approval\<close>: \<^verbatim>\<open>approval.py\<close>, the state machine of a version and signed decisions.
    \<^item> \<^verbatim>\<open>AssessService\<close>, \<^verbatim>\<open>Delivery\<close>: \<^verbatim>\<open>assessment/services.py\<close> over explicit tables, with
      \<^verbatim>\<open>modules/reports/conclusion.py\<close> and \<^verbatim>\<open>modules/assessment/deliverable.py\<close>.
    \<^item> \<^verbatim>\<open>AssessLifecycle\<close>, \<^verbatim>\<open>DeliveryGate\<close>: the service as a step relation, its invariant, and what
      follows for approval and delivery.  \<^verbatim>\<open>AssessLifecycle\<close> interprets the event log on the review table.
    \<^item> \<^verbatim>\<open>VersionDiff\<close>: \<^verbatim>\<open>modules/assessment/diff.py\<close> and \<open>diff_versions\<close> of the service.
    \<^item> \<^verbatim>\<open>LegalUs\<close>, \<^verbatim>\<open>LegalEp\<close>: \<^verbatim>\<open>modules/legal_status/\<close>, the status of a US and of an EP patent, and
      the extracts an assessment is stored with.
    \<^item> \<^verbatim>\<open>Organizations\<close>, \<^verbatim>\<open>OrganizationSafety\<close>: opening an organization, its members and invitations
      (\<^verbatim>\<open>core/organization_lifecycle.py\<close>, \<^verbatim>\<open>platform/organizations.py\<close>, \<^verbatim>\<open>organization/access.py\<close>,
      \<^verbatim>\<open>members.py\<close> and \<^verbatim>\<open>invitations.py\<close>), and their step relation.
    \<^item> \<^verbatim>\<open>AuthModel\<close>, \<^verbatim>\<open>AuthHandlers\<close>, \<^verbatim>\<open>AuthMfa\<close>: \<^verbatim>\<open>auth/\<close>, sessions, sign-in, password reset and the second
      factor, with the database functions of migration 0001.  \<^verbatim>\<open>AuthSafety\<close> is their step relation and
      \<^verbatim>\<open>AuthGuarantees\<close> what holds in every run; \<^verbatim>\<open>RateLimit\<close> is the limiter.
    \<^item> \<^verbatim>\<open>Administration\<close>, \<^verbatim>\<open>PrivilegedAudit\<close>, \<^verbatim>\<open>Joining\<close>: the wrappers around privileged mutations
      (\<^verbatim>\<open>organization/access.py\<close> and \<^verbatim>\<open>platform/access.py\<close>) with the handlers they run, the acceptance of an
      invitation, and views.  The locale \<open>audited_mutation\<close> is their contract; all three interpret it.
    \<^item> \<^verbatim>\<open>CaseTables\<close>: the tables of cases, documents and drawings, shared by the parts below.
    \<^item> \<^verbatim>\<open>UploadGuard\<close>, \<^verbatim>\<open>UploadSpec\<close>: \<^verbatim>\<open>modules/cases/upload_guard.py\<close>, and what it promises without its scanners.
    \<^item> \<^verbatim>\<open>ObjectStorage\<close>, \<^verbatim>\<open>CaseService\<close>, \<^verbatim>\<open>CaseRoutes\<close>: \<^verbatim>\<open>adapters/object_storage\<close>, \<^verbatim>\<open>cases/services.py\<close> and
      \<^verbatim>\<open>cases/api.py\<close>; \<^verbatim>\<open>CaseSafety\<close> and \<^verbatim>\<open>SourceSafety\<close> are their step relation and what holds of stored files.
    \<^item> \<^verbatim>\<open>Documents\<close>, \<^verbatim>\<open>ParseWorker\<close>, \<^verbatim>\<open>ParseQueue\<close>: \<^verbatim>\<open>modules/cases/parser.py\<close>, the worker \<^verbatim>\<open>parse_worker.py\<close> with its
      loop, and every interleaving of several workers with the services.
    \<^item> \<^verbatim>\<open>FeatureExtract\<close>, \<^verbatim>\<open>FeatureSets\<close>: \<^verbatim>\<open>modules/features\<close> and \<^verbatim>\<open>features/services.py\<close>.  The locale
      \<open>sealed_store\<close> (\<^verbatim>\<open>SealedStore\<close>) is the contract of a store whose confirmed sets are frozen;
      \<^verbatim>\<open>FeatureSafety\<close> and \<^verbatim>\<open>ProductSafety\<close> interpret it.
    \<^item> \<^verbatim>\<open>SearchStrategy\<close>, \<^verbatim>\<open>SearchImport\<close>, \<^verbatim>\<open>SearchCandidates\<close>: \<^verbatim>\<open>modules/search\<close> and \<^verbatim>\<open>search/services.py\<close>, from the
      plan over imported tables to triage; \<^verbatim>\<open>SearchSafety\<close> is their step relation.
    \<^item> \<^verbatim>\<open>ComparisonEngine\<close>, \<^verbatim>\<open>ComparisonMatrix\<close>: \<^verbatim>\<open>modules/comparison\<close> and \<^verbatim>\<open>comparison/services.py\<close>;
      \<^verbatim>\<open>ComparisonSafety\<close> is their step relation, over that of the search.
    \<^item> \<^verbatim>\<open>EvidenceReports\<close>, \<^verbatim>\<open>CaseReview\<close>: \<^verbatim>\<open>modules/reports/sealer.py\<close>, \<^verbatim>\<open>reports/services.py\<close>, \<^verbatim>\<open>modules/review\<close> and
      \<^verbatim>\<open>review/services.py\<close>; \<^verbatim>\<open>ReviewSafety\<close> is their step relation, beside that of assessments.
    \<^item> \<^verbatim>\<open>ProductSplit\<close>, \<^verbatim>\<open>ProductFeatures\<close>: \<^verbatim>\<open>modules/fto/product.py\<close>, \<^verbatim>\<open>fto/product_features.py\<close> and
      \<^verbatim>\<open>fto/api.py\<close>; \<^verbatim>\<open>ProductSpans\<close> and \<^verbatim>\<open>ProductQuotes\<close> are about the spans of features, \<^verbatim>\<open>ProductSafety\<close> about
      every run of the routes.

  Conventions.  A dataclass is a record, a \<open>Literal\<close> or enum that the code only compares is a datatype,
  and one that it stores in the database or uses as a key of a table stays a string.  An insertion-ordered
  dict is an association list (\<open>pydict\<close>), a raised exception the left value of a result.  A message whose
  wording nobody reads is a constructor that carries what the message is about; where the wording matters
  (open blockers, signatures, diff keys) the text is built exactly.  Text is a list of code points
  (\<open>ustr\<close>) where it can be Chinese, a \<open>string\<close> where it is ASCII.  Ratios are rationals, where the
  code has floats rounded for display.  A table is a list of its rows in insertion order and a SQL
  statement a function on it; a service method runs in one transaction and is one function.

  What is a parameter.  The hash behind signatures and payload digests, the digest of a secret, the
  fingerprint of an opening, fresh identifiers and tokens, and the clock readings are arguments.
  Only \<open>Approval.signature_binds_decision\<close> assumes something of them: that the hash is injective.
  The password hash, the HMAC of a TOTP code and the cipher of stored secrets are arguments as well.
  So are the readers of PDF, DOCX, zip and XML files, the extraction of drawings, the decoding of UTF-8, the answers of
  language models and of search services, the rendering of a report, the lower case of text outside ASCII where it matters,
  and the characters that Unicode counts as words or digits.  Letters outside ASCII otherwise keep their case.  Rows
  that an \<open>ORDER BY\<close> does not separate come in the order of the table, and the file system of the object store
  has no symbolic links.

  Termination.  Every model function is total.  \<open>FtoModel.walk\<close> recurses along references and
  ends because no claim is visited twice on a path; \<open>FtoChart.claim_conclusion_memo\<close> because every
  call enters one more claim in the memo table; the scanners of files because each step reads a character.  The loop of
  the worker is bounded by a number of rounds, and \<open>ParseQueue.queue_drains\<close> shows how many rounds are enough.

  What the lemmas show.  \<open>FtoChart\<close>: the memoised verdict is the best over all dependency paths, and
  never better than a path allows.  \<open>AssessPriority\<close> to \<open>AssessPackage\<close>: reference dates follow accepted
  priority claims only, the date gate errs on the side of caution, each gate fires exactly under its
  condition, and a package is unblocked exactly when evidence, checklist and prior art are complete.
  \<open>AssessLifecycle\<close> and \<open>DeliveryGate\<close>: an approved or rejected version never changes, an approved status
  stands for a recorded decision on the frozen payload, and delivery is open exactly with an approved version
  without blockers.  \<open>VersionDiff\<close>: a difference is exact.  \<open>LegalUs\<close> and \<open>LegalEp\<close>: a patent is called
  dead only on evidence, and stored extracts reproduce the verdict.  \<open>OrganizationSafety\<close>: the last
  administrator stays, an invitation works once, and opening can be repeated.  \<open>AuthGuarantees\<close>: an ended
  session never works again, a password reset locks out what came before it, and recent verification is
  earned by a factor that was checked.  \<open>PrivilegedAudit\<close> and \<open>Joining\<close>: privileged mutations are guarded
  and audited.  \<open>RateLimit\<close>: no window lets through more than its share.  \<open>UploadSpec\<close>: exactly the harmless files
  are accepted, the harm being described without the scanners.  \<open>SourceSafety\<close>: stored source files stay as they
  were uploaded.  \<open>Documents\<close>: offsets of paragraphs are exact.  \<open>ParseQueue\<close>: a run is parsed once, by one worker,
  versions are numbered without gaps, the queue drains, the columns of a run fit its state, and the allowance of cases
  is kept.  \<open>FeatureSafety\<close>: confirmed features are frozen, and a split is undone by a merge.  \<open>SearchImport\<close> and
  \<open>SearchSafety\<close>: a table is imported completely or not at all, and no search or import changes a decision of triage.
  \<open>ComparisonSafety\<close>: the rebuild of an unconfirmed matrix keeps the edits of people, and the verdict that is shown fits the
  cells.  \<open>ReviewSafety\<close>: what is delivered was approved and sealed, and the record of a review can be recomputed.
  \<open>ProductSafety\<close>: confirmed sets are frozen, features that were cut by rule quote the description, and splits and merges
  happen in place.

  Some lemmas record where the code deviates from what it means to do: \<open>source_coverage_exceeds_one\<close>,
  \<open>undescribed_document_is_prior_art\<close>, \<open>snapshot_omits_publication_date\<close>, \<open>backward_clock_hides_approval\<close>,
  \<open>diff_inputs_not_exchanged\<close>, \<open>claim_verdict_change_unseen\<close>, \<open>observation_of_other_kind_unseen\<close>,
  \<open>reissue_lapsed_later_presumed\<close>, \<open>undated_expiry_is_lapse\<close>, \<open>ep_extract_drops_evidence\<close>,
  \<open>resolve_revocation_discarded\<close>, \<open>totp_raises_on_foreign_digits\<close>, \<open>member_reset_ignores_other_roles\<close>,
  \<open>merge_with_itself_deletes\<close>, \<open>synonyms_alone_identical\<close>, \<open>ai_quote_unchecked\<close>, \<open>titled_record_lost\<close>,
  \<open>blank_class_fails\<close>, \<open>failed_search_unrecorded\<close>, \<open>unknown_matrix_confirms_case\<close>, \<open>edit_keeps_summary\<close>,
  \<open>sealed_without_assessment\<close>, \<open>decided_again\<close>, \<open>dropped_items_unseen\<close>, \<open>drawing_name_escapes\<close>,
  \<open>served_with_client_type\<close>, \<open>confirmation_resets_state\<close>, \<open>mixed_separators_pass\<close>, \<open>lost_run_stays_running\<close>,
  \<open>late_number_refused\<close> and \<open>after_period_unlimited\<close>.  Besides, a rebuild sets a confirmed matrix back to draft, so the
  theorem on rebuilds is about unconfirmed ones; tables with semicolons are read as one column; and a cell of an import that is longer
  than the limit of the reader ends in an internal error.

  Not modelled: the web front end; migrations other than the tables and functions named above; the parsing of HTTP requests; the
  text of reports and their DOCX and PDF forms; the extraction of drawings; the patent corpus and the texts of handoffs; the
  parsers of claim documents of two offices; the worker's fetching of legal status and claims; and the adapters to search
  services and language models.  These are input and output, fixed texts or calls of external libraries.
\<close>

end
